(* ===== verification/Prelude.thy ===== *)
theory Prelude
  imports Main
begin

text \<open>
  Vocabulary shared by every component: the result type for code that may
  raise, the reading of a query result as "first row or none", stable
  selection of a maximal row, and the fact collections the component theories
  extend.

  A Python call that may raise is modelled by a value of \<open>'e + 'a\<close>: \<open>Inl e\<close> is the
  exception, \<open>Inr a\<close> the returned value.  A nullable value is an \<open>option\<close>.
\<close>

named_theorems status_defs "the string constants of the status vocabularies"
named_theorems step_defs "the operations of the state machines, unfolded"

abbreviation raise :: "'e \<Rightarrow> 'e + 'a" where
  "raise \<equiv> Inl"

abbreviation return :: "'a \<Rightarrow> 'e + 'a" where
  "return \<equiv> Inr"

definition bind_result :: "'e + 'a \<Rightarrow> ('a \<Rightarrow> 'e + 'b) \<Rightarrow> 'e + 'b" where
  "bind_result r f = (case r of Inl e \<Rightarrow> Inl e | Inr a \<Rightarrow> f a)"

lemma bind_result_simps [simp]:
  "bind_result (Inl e) f = Inl e"
  "bind_result (Inr a) f = f a"
  by (simp_all add: bind_result_def)

lemma bind_result_Inr_iff:
  "bind_result r f = Inr b \<longleftrightarrow> (\<exists>a. r = Inr a \<and> f a = Inr b)"
  by (cases r) auto

text \<open>A Python truth test on a nullable text: absent and empty both read as false.\<close>

definition text_or :: "string option \<Rightarrow> string \<Rightarrow> string" where
  "text_or x d = (case x of None \<Rightarrow> d | Some s \<Rightarrow> if s = [] then d else s)"

text \<open>
  \<open>query.filter(p).first()\<close> over a table listed in primary-key order, and
  \<open>order_by(k.desc()).first()\<close>, which returns a row with the largest key: among equal
  keys the model takes the first in table order (the database leaves the choice open
  where the code gives no second key).
\<close>

fun first_row :: "('a \<Rightarrow> bool) \<Rightarrow> 'a list \<Rightarrow> 'a option" where
  "first_row p [] = None"
| "first_row p (x # xs) = (if p x then Some x else first_row p xs)"

fun max_row :: "('a \<Rightarrow> 'k::linorder) \<Rightarrow> 'a list \<Rightarrow> 'a option" where
  "max_row k [] = None"
| "max_row k (x # xs) =
     (case max_row k xs of None \<Rightarrow> Some x | Some y \<Rightarrow> if k x < k y then Some y else Some x)"

fun min_row :: "('a \<Rightarrow> 'k::linorder) \<Rightarrow> 'a list \<Rightarrow> 'a option" where
  "min_row k [] = None"
| "min_row k (x # xs) =
     (case min_row k xs of None \<Rightarrow> Some x | Some y \<Rightarrow> if k y < k x then Some y else Some x)"

lemma first_row_SomeD: "first_row p xs = Some x \<Longrightarrow> x \<in> set xs \<and> p x"
  by (induction xs) (auto split: if_splits)

lemma first_row_None_iff: "first_row p xs = None \<longleftrightarrow> (\<forall>x\<in>set xs. \<not> p x)"
  by (induction xs) auto

lemma max_row_None_iff [simp]: "max_row k xs = None \<longleftrightarrow> xs = []"
  by (cases xs) (auto split: option.splits)

lemma max_row_SomeD: "max_row k xs = Some x \<Longrightarrow> x \<in> set xs \<and> (\<forall>y\<in>set xs. k y \<le> k x)"
proof (induction xs arbitrary: x)
  case Nil
  then show ?case by simp
next
  case (Cons a xs)
  then show ?case by (cases "max_row k xs") (fastforce split: if_splits)+
qed

lemma min_row_None_iff [simp]: "min_row k xs = None \<longleftrightarrow> xs = []"
  by (cases xs) (auto split: option.splits)

lemma min_row_SomeD: "min_row k xs = Some x \<Longrightarrow> x \<in> set xs \<and> (\<forall>y\<in>set xs. k x \<le> k y)"
proof (induction xs arbitrary: x)
  case Nil
  then show ?case by simp
next
  case (Cons a xs)
  then show ?case by (cases "min_row k xs") (fastforce split: if_splits)+
qed

text \<open>
  Rows of a table keyed by an integer id: \<open>update_row\<close> is an SQL \<open>UPDATE\<close> by primary key.
\<close>

definition update_row :: "('a \<Rightarrow> 'k) \<Rightarrow> 'k \<Rightarrow> ('a \<Rightarrow> 'a) \<Rightarrow> 'a list \<Rightarrow> 'a list" where
  "update_row key k f xs = map (\<lambda>x. if key x = k then f x else x) xs"

lemma update_row_simps [simp]:
  "update_row key k f [] = []"
  "update_row key k f (x # xs) = (if key x = k then f x else x) # update_row key k f xs"
  by (simp_all add: update_row_def)

lemma length_update_row [simp]: "length (update_row key k f xs) = length xs"
  by (simp add: update_row_def)

lemma keys_update_row: "(\<And>x. key x = k \<Longrightarrow> key (f x) = k) \<Longrightarrow> map key (update_row key k f xs) = map key xs"
  by (simp add: update_row_def)

lemma set_update_row:
  "set (update_row key k f xs) = (\<lambda>x. if key x = k then f x else x) ` set xs"
  by (simp add: update_row_def)

text \<open>Looking a row up by its key in a table that is extended, filtered or updated.\<close>

lemma first_row_append:
  "first_row p (xs @ ys) = (case first_row p xs of None \<Rightarrow> first_row p ys | Some x \<Rightarrow> Some x)"
  by (induction xs) auto

lemma first_row_update_row:
  "(\<And>x. key x = k \<Longrightarrow> key (f x) = k) \<Longrightarrow>
     first_row (\<lambda>x. key x = j) (update_row key k f xs) = map_option (\<lambda>x. if j = k then f x else x) (first_row (\<lambda>x. key x = j) xs)"
  by (induction xs) auto

lemma first_row_key:
  "distinct (map key xs) \<Longrightarrow> first_row (\<lambda>x. key x = k) xs = Some x \<longleftrightarrow> x \<in> set xs \<and> key x = k"
  by (induction xs) auto

lemma first_row_filter:
  "distinct (map key xs) \<Longrightarrow>
     first_row (\<lambda>x. key x = k) (filter P xs) =
       (case first_row (\<lambda>x. key x = k) xs of None \<Rightarrow> None | Some x \<Rightarrow> if P x then Some x else None)"
proof (induction xs)
  case (Cons a xs)
  have "first_row (\<lambda>x. key x = k) (filter P xs) = None" if "key a = k"
    using Cons.prems that by (simp add: first_row_None_iff) (metis imageI)
  then show ?case using Cons by auto
qed simp

end
