(* ===== verification/PyNum.thy ===== *)
theory PyNum
  imports Complex_Main Prelude
begin

text \<open>
  The numbers of the program.  A finite Python \<open>float\<close> and a finite \<open>decimal.Decimal\<close> are
  both represented by the rational number they denote.  What distinguishes them is the
  rounding each arithmetic operation performs:
  \<^item> \<open>fl\<close> rounds to the nearest binary64 number, ties to even: \<open>a + b\<close> on floats is
    \<open>fl (a + b)\<close>, and so for \<open>-\<close>, \<open>*\<close> and \<open>/\<close>;
  \<^item> \<open>dec28\<close> rounds to 28 significant decimal digits, ties to even: the default context
    of the \<open>decimal\<close> module, applied by every Decimal operation;
  \<^item> \<open>repr\<close> is the value of \<open>str(f)\<close>: the shortest decimal (of at most 17 digits) that
    rounds back to \<open>f\<close>, the nearest to \<open>f\<close> among those.
  Infinities, NaN, the sign of a zero, and the exponent limits of binary64 (magnitudes
  above \<open>1.8e308\<close> or below \<open>2.3e-308\<close>) are outside the model.

  The theorem the money layer rests on is \<open>repr_fl\<close>: a decimal of at most fifteen digits
  survives the passage through a float exactly.
\<close>

subsection \<open>Rounding to significant digits in any base\<close>

definition rhe :: "rat \<Rightarrow> int" where
  "rhe q = (let f = \<lfloor>q\<rfloor>; r = q - of_int f
            in if r < 1/2 then f else if 1/2 < r then f + 1 else if even f then f else f + 1)"

lemma rhe_of_int [simp]: "rhe (of_int n) = n"
  by (simp add: rhe_def)

lemma rhe_error: "\<bar>of_int (rhe q) - q\<bar> \<le> 1/2"
proof -
  have "of_int \<lfloor>q\<rfloor> \<le> q" "q < of_int \<lfloor>q\<rfloor> + 1" by linarith+
  then show ?thesis by (auto simp: rhe_def Let_def)
qed

lemma rhe_mono: "x \<le> y \<Longrightarrow> rhe x \<le> rhe y"
proof -
  assume le: "x \<le> y"
  then have fl: "\<lfloor>x\<rfloor> \<le> \<lfloor>y\<rfloor>" by (rule floor_mono)
  have b: "rhe x \<le> \<lfloor>x\<rfloor> + 1" "\<lfloor>y\<rfloor> \<le> rhe y" by (auto simp: rhe_def Let_def)
  show ?thesis
  proof (cases "\<lfloor>x\<rfloor> = \<lfloor>y\<rfloor>")
    case True
    with le show ?thesis by (auto simp: rhe_def Let_def)
  next
    case False
    with fl b show ?thesis by linarith
  qed
qed

lemma rhe_minus: "rhe (- q) = - rhe q"
proof (cases "q = of_int \<lfloor>q\<rfloor>")
  case True
  then have "rhe q = \<lfloor>q\<rfloor>" by (metis rhe_of_int)
  moreover from True have "rhe (- q) = - \<lfloor>q\<rfloor>" by (metis of_int_minus rhe_of_int)
  ultimately show ?thesis by simp
next
  case False
  then have "\<lfloor>- q\<rfloor> = - \<lfloor>q\<rfloor> - 1" by linarith
  then show ?thesis by (auto simp: rhe_def Let_def)
qed

function ilogi :: "int \<Rightarrow> int \<Rightarrow> int" where
  "ilogi b n = (if b < 2 \<or> n < b then 0 else 1 + ilogi b (n div b))"
  by pat_completeness auto
termination
proof (relation "measure (\<lambda>(b, n). nat n)", goal_cases)
  case 1 show ?case by simp
next
  case (2 b n)
  then have "n div b < n" by (intro int_div_less_self) auto
  with 2 show ?case by simp
qed

declare ilogi.simps [simp del]

lemma ilogi_bounds:
  "2 \<le> b \<Longrightarrow> 1 \<le> n \<Longrightarrow> 0 \<le> ilogi b n \<and> b ^ nat (ilogi b n) \<le> n \<and> n < b ^ nat (ilogi b n + 1)"
proof (induction b n rule: ilogi.induct)
  case (1 b n)
  show ?case
  proof (cases "n < b")
    case True
    with 1 show ?thesis by (simp add: ilogi.simps [of b n])
  next
    case False
    with 1 have m: "1 \<le> n div b"
      by (metis div_self less_le_not_le linorder_not_less not_one_le_zero order_trans zdiv_mono1 zero_less_one zero_neq_numeral zle_add1_eq_le int_one_le_iff_zero_less one_add_one order_less_le_trans)
    let ?k = "ilogi b (n div b)"
    from 1 False m have IH: "0 \<le> ?k" "b ^ nat ?k \<le> n div b" "n div b < b ^ nat (?k + 1)"
      by auto
    have e: "ilogi b n = 1 + ?k" using False 1 by (simp add: ilogi.simps [of b n])
    have "b ^ nat (1 + ?k) = b * b ^ nat ?k" "b ^ nat (1 + ?k + 1) = b * b ^ nat (?k + 1)"
      using IH(1) by (simp_all add: nat_add_distrib)
    moreover have "b * b ^ nat ?k \<le> b * (n div b)" using IH(2) 1 by simp
    moreover have "b * (n div b) \<le> n" "n < b * (n div b) + b"
      using 1(2) by (smt (verit) mult.commute pos_mod_bound div_mult_mod_eq pos_mod_sign)+
    moreover have "b * (n div b) + b \<le> b * b ^ nat (?k + 1)"
    proof -
      have "b * (n div b + 1) \<le> b * b ^ nat (?k + 1)" using IH(3) 1(2) by (intro mult_left_mono) auto
      then show ?thesis by (simp add: distrib_left)
    qed
    ultimately show ?thesis using IH(1) e by (simp only:) linarith
  qed
qed

definition ilog :: "int \<Rightarrow> rat \<Rightarrow> int" where
  "ilog b x = (if 1 \<le> x then ilogi b \<lfloor>x\<rfloor> else - (1 + ilogi b (\<lceil>1 / x\<rceil> - 1)))"

lemma powi_nat: "0 \<le> k \<Longrightarrow> (x :: rat) powi k = x ^ nat k"
  by (simp add: power_int_def)

lemma ilog_bounds:
  assumes b: "2 \<le> b" and x: "0 < x"
  shows "of_int b powi ilog b x \<le> x \<and> x < of_int b powi (ilog b x + 1)"
proof (cases "1 \<le> x")
  case True
  then have f: "1 \<le> \<lfloor>x\<rfloor>" by linarith
  let ?k = "ilogi b \<lfloor>x\<rfloor>"
  from ilogi_bounds [OF b f] have k: "0 \<le> ?k" "b ^ nat ?k \<le> \<lfloor>x\<rfloor>" "\<lfloor>x\<rfloor> < b ^ nat (?k + 1)" by auto
  have "of_int (b ^ nat ?k) \<le> x" using k(2) by linarith
  moreover have "x < of_int (b ^ nat (?k + 1))" using k(3) by linarith
  ultimately show ?thesis using True k(1) by (simp add: ilog_def powi_nat)
next
  case False
  let ?y = "1 / x"
  let ?m = "\<lceil>?y\<rceil> - 1"
  from False x have y: "1 < ?y" by simp
  then have m: "1 \<le> ?m" by linarith
  let ?k = "ilogi b ?m"
  from ilogi_bounds [OF b m] have k: "0 \<le> ?k" "b ^ nat ?k \<le> ?m" "?m < b ^ nat (?k + 1)" by auto
  have lo: "of_int (b ^ nat ?k) < ?y" using k(2) by linarith
  have "\<lceil>?y\<rceil> \<le> b ^ nat (?k + 1)" using k(3) by linarith
  then have hi: "?y \<le> of_int (b ^ nat (?k + 1))" by linarith
  have bp: "(of_int b :: rat) > 0" using b by simp
  have "(of_int b :: rat) powi (- (1 + ?k)) = 1 / of_int (b ^ nat (?k + 1))"
    using k(1) by (subst power_int_minus) (simp add: powi_nat add.commute inverse_eq_divide)
  moreover have "(of_int b :: rat) powi (- (1 + ?k) + 1) = 1 / of_int (b ^ nat ?k)"
    using k(1) by (simp add: power_int_minus powi_nat inverse_eq_divide)
  moreover have "1 / of_int (b ^ nat (?k + 1)) \<le> x"
    using hi x bp by (simp add: field_simps)
  moreover have "x < 1 / of_int (b ^ nat ?k)"
    using lo x bp by (simp add: field_simps)
  ultimately show ?thesis using False by (simp add: ilog_def)
qed

definition sig_round :: "int \<Rightarrow> int \<Rightarrow> rat \<Rightarrow> rat" where
  "sig_round b p x = (if x = 0 then 0 else
     (let s = of_int b powi (ilog b \<bar>x\<bar> - (p - 1)) in of_int (rhe (x / s)) * s))"

lemma sig_round_0 [simp]: "sig_round b p 0 = 0"
  by (simp add: sig_round_def)

lemma sig_round_minus: "sig_round b p (- x) = - sig_round b p x"
  by (simp add: sig_round_def Let_def rhe_minus minus_divide_left [symmetric] del: minus_divide_left)

lemma sig_round_error:
  assumes b: "2 \<le> b"
  shows "\<bar>sig_round b p x - x\<bar> \<le> \<bar>x\<bar> * (of_int b powi (1 - p) / 2)"
proof (cases "x = 0")
  case True then show ?thesis by simp
next
  case False
  let ?B = "of_int b :: rat"
  let ?k = "ilog b \<bar>x\<bar>"
  let ?s = "?B powi (?k - (p - 1))"
  have B: "?B > 0" using b by simp
  then have s: "?s > 0" by simp
  have "\<bar>of_int (rhe (x / ?s)) - x / ?s\<bar> * ?s \<le> 1/2 * ?s"
    using rhe_error s by (intro mult_right_mono) auto
  moreover have "\<bar>of_int (rhe (x / ?s)) - x / ?s\<bar> * ?s = \<bar>(of_int (rhe (x / ?s)) - x / ?s) * ?s\<bar>"
    using s by (simp add: abs_mult)
  moreover have "(of_int (rhe (x / ?s)) - x / ?s) * ?s = of_int (rhe (x / ?s)) * ?s - x"
    using s b by (simp add: left_diff_distrib)
  ultimately have "\<bar>of_int (rhe (x / ?s)) * ?s - x\<bar> \<le> ?s / 2" by simp
  moreover have "?s \<le> \<bar>x\<bar> * ?B powi (1 - p)"
  proof -
    have "?s = ?B powi ?k * ?B powi (1 - p)" using B by (simp flip: power_int_add add: algebra_simps)
    moreover have "?B powi ?k \<le> \<bar>x\<bar>" using ilog_bounds [OF b, of "\<bar>x\<bar>"] False by simp
    ultimately show ?thesis using B by (simp add: mult_right_mono)
  qed
  ultimately have "\<bar>of_int (rhe (x / ?s)) * ?s - x\<bar> \<le> \<bar>x\<bar> * (?B powi (1 - p) / 2)"
    by (simp add: field_simps)
  then show ?thesis using False by (simp add: sig_round_def Let_def)
qed


lemma powi_less_iff:
  "(2::int) \<le> b \<Longrightarrow> (of_int b :: rat) powi m < of_int b powi n \<longleftrightarrow> m < n"
  by (cases m n rule: linorder_cases) (auto dest: power_int_strict_increasing [of _ _ "of_int b :: rat"])

lemma ilog_less_iff:
  assumes b: "2 \<le> b" and x: "0 < x"
  shows "ilog b x < m \<longleftrightarrow> x < of_int b powi m"
proof
  assume "ilog b x < m"
  then have "ilog b x + 1 \<le> m" by simp
  then have "(of_int b :: rat) powi (ilog b x + 1) \<le> of_int b powi m"
    using b by (simp add: power_int_increasing)
  then show "x < of_int b powi m" using ilog_bounds [OF b x] by simp
next
  assume "x < of_int b powi m"
  then have "(of_int b :: rat) powi ilog b x < of_int b powi m" using ilog_bounds [OF b x] by simp
  then show "ilog b x < m" by (simp add: powi_less_iff [OF b])
qed

lemma ilog_mono: "2 \<le> b \<Longrightarrow> 0 < x \<Longrightarrow> x \<le> y \<Longrightarrow> ilog b x \<le> ilog b y"
  using ilog_less_iff [of b y "ilog b x"] ilog_bounds [of b x] by force

lemma sig_round_fix_less:
  assumes b: "2 \<le> b" and p: "1 \<le> p" and n: "\<bar>n\<bar> < b ^ nat p"
    and x: "x = of_int n * of_int b powi k"
  shows "sig_round b p x = x"
proof (cases "n = 0")
  case True then show ?thesis by (simp add: x)
next
  case False
  let ?B = "of_int b :: rat"
  let ?L = "ilog b \<bar>x\<bar>"
  let ?j = "k - (?L - (p - 1))"
  have B: "0 < ?B" using b by simp
  have pos: "0 < \<bar>x\<bar>" using False B by (simp add: x)
  have "\<bar>x\<bar> < ?B powi p * ?B powi k"
    using n p B by (simp add: x abs_mult powi_nat) (metis of_int_abs of_int_less_iff of_int_power)
  then have "\<bar>x\<bar> < ?B powi (p + k)" using B by (simp add: power_int_add)
  then have "?L < p + k" by (simp add: ilog_less_iff [OF b pos])
  then have j: "0 \<le> ?j" by simp
  have "x / ?B powi (?L - (p - 1)) = of_int n * ?B powi ?j"
    using B by (simp add: x power_int_diff)
  also have "\<dots> = of_int (n * b ^ nat ?j)" using j by (simp add: powi_nat)
  finally have "of_int (rhe (x / ?B powi (?L - (p - 1)))) = x / ?B powi (?L - (p - 1))"
    by (metis rhe_of_int)
  then show ?thesis using B pos by (simp add: sig_round_def Let_def)
qed

lemma sig_round_fix:
  assumes b: "2 \<le> b" and p: "1 \<le> p" and n: "\<bar>n\<bar> \<le> b ^ nat p"
    and x: "x = of_int n * of_int b powi k"
  shows "sig_round b p x = x"
proof (cases "\<bar>n\<bar> = b ^ nat p")
  case True
  have "1 < b ^ nat p" using b p by (intro one_less_power) auto
  then have s: "\<bar>sgn n\<bar> < b ^ nat p" by (simp add: sgn_if)
  have "n = sgn n * b ^ nat p" using True by (metis sgn_mult_abs)
  then have "x = of_int (sgn n) * (of_int b powi p * of_int b powi k)"
    using p x by (metis mult.assoc of_int_mult of_int_power powi_nat order_trans zero_le_one)
  then have "x = of_int (sgn n) * of_int b powi (p + k)" using b by (simp add: power_int_add)
  with b p s show ?thesis by (rule sig_round_fix_less)
next
  case False
  with n have "\<bar>n\<bar> < b ^ nat p" by simp
  from sig_round_fix_less [OF b p this x] show ?thesis .
qed

lemma rhe_abs_le: "\<bar>q\<bar> \<le> of_int n \<Longrightarrow> \<bar>rhe q\<bar> \<le> n"
  using rhe_mono [of q "of_int n"] rhe_mono [of "of_int (- n)" q]
  by (simp del: of_int_minus add: abs_le_iff minus_le_iff)

lemma sig_round_rep:
  assumes b: "2 \<le> b" and p: "1 \<le> p"
  shows "\<exists>n k. \<bar>n\<bar> \<le> b ^ nat p \<and> sig_round b p x = of_int n * of_int b powi k"
proof (cases "x = 0")
  case True
  then show ?thesis using b by (intro exI [of _ 0]) simp
next
  case False
  let ?B = "of_int b :: rat"
  let ?s = "?B powi (ilog b \<bar>x\<bar> - (p - 1))"
  have B: "0 < ?B" using b by simp
  then have s: "0 < ?s" by simp
  have "\<bar>x\<bar> < ?B powi (ilog b \<bar>x\<bar> + 1)" using ilog_bounds [OF b] False by simp
  also have "\<dots> = ?B powi p * ?s" using B by (simp flip: power_int_add)
  finally have "\<bar>x\<bar> < of_int (b ^ nat p) * ?s" using p by (simp add: powi_nat)
  then have "\<bar>x / ?s\<bar> \<le> of_int (b ^ nat p)" using s by (simp add: abs_divide pos_divide_le_eq)
  then have "\<bar>rhe (x / ?s)\<bar> \<le> b ^ nat p" by (rule rhe_abs_le)
  with False show ?thesis by (auto simp: sig_round_def Let_def)
qed

lemma sig_round_idem:
  assumes "2 \<le> b" "1 \<le> p"
  shows "sig_round b p (sig_round b p x) = sig_round b p x"
  using sig_round_rep [OF assms, of x] sig_round_fix [OF assms] by auto

lemma sig_round_range:
  assumes b: "2 \<le> b" and p: "1 \<le> p" and x: "0 < x"
  shows "of_int b powi ilog b x \<le> sig_round b p x \<and> sig_round b p x \<le> of_int b powi (ilog b x + 1)"
proof -
  let ?B = "of_int b :: rat"
  let ?s = "?B powi (ilog b x - (p - 1))"
  have B: "0 < ?B" using b by simp
  then have s: "0 < ?s" by simp
  have e: "?B powi ilog b x = of_int (b ^ nat (p - 1)) * ?s"
    "?B powi (ilog b x + 1) = of_int (b ^ nat p) * ?s"
    using p B by (simp_all flip: power_int_add powi_nat)
  with ilog_bounds [OF b x] have "of_int (b ^ nat (p - 1)) * ?s \<le> x" "x \<le> of_int (b ^ nat p) * ?s"
    by simp_all
  then have "of_int (b ^ nat (p - 1)) \<le> x / ?s" "x / ?s \<le> of_int (b ^ nat p)"
    using s by (simp_all only: pos_le_divide_eq pos_divide_le_eq)
  then have "b ^ nat (p - 1) \<le> rhe (x / ?s)" "rhe (x / ?s) \<le> b ^ nat p"
    by (metis rhe_mono rhe_of_int)+
  then have "of_int (b ^ nat (p - 1)) * ?s \<le> of_int (rhe (x / ?s)) * ?s"
    "of_int (rhe (x / ?s)) * ?s \<le> of_int (b ^ nat p) * ?s"
    using s by (simp_all only: of_int_le_iff mult_right_mono less_imp_le)
  then show ?thesis using x e by (simp add: sig_round_def Let_def)
qed

lemma sig_round_mono_pos:
  assumes b: "2 \<le> b" and p: "1 \<le> p" and x: "0 < x" and xy: "x \<le> y"
  shows "sig_round b p x \<le> sig_round b p y"
proof (cases "ilog b x = ilog b y")
  case True
  have s: "0 < (of_int b :: rat) powi (ilog b y - (p - 1))" using b by simp
  then have "x / of_int b powi (ilog b y - (p - 1)) \<le> y / of_int b powi (ilog b y - (p - 1))"
    using xy by (simp add: divide_right_mono)
  then show ?thesis using True x xy s
    by (simp add: sig_round_def Let_def rhe_mono mult_right_mono)
next
  case False
  with ilog_mono [OF b x xy] have "ilog b x + 1 \<le> ilog b y" by simp
  then have "(of_int b :: rat) powi (ilog b x + 1) \<le> of_int b powi ilog b y"
    using b by (simp add: power_int_increasing)
  with sig_round_range [OF b p x] sig_round_range [OF b p, of y] x xy show ?thesis by simp
qed

lemma sig_round_sign:
  assumes "2 \<le> b" "1 \<le> p"
  shows "0 \<le> x \<Longrightarrow> 0 \<le> sig_round b p x" "x \<le> 0 \<Longrightarrow> sig_round b p x \<le> 0"
proof -
  have pos: "0 < y \<Longrightarrow> 0 \<le> sig_round b p y" for y
    using sig_round_range [OF assms, of y] assms(1) by (meson of_int_0_le_iff order_trans zero_le_power_int zero_le_numeral)
  then show "0 \<le> x \<Longrightarrow> 0 \<le> sig_round b p x" by (cases "x = 0") auto
  show "x \<le> 0 \<Longrightarrow> sig_round b p x \<le> 0"
    using pos [of "- x"] by (cases "x = 0") (auto simp: sig_round_minus)
qed

lemma sig_round_mono:
  assumes b: "2 \<le> b" and p: "1 \<le> p" and xy: "x \<le> y"
  shows "sig_round b p x \<le> sig_round b p y"
proof -
  consider "0 < x" | "x \<le> 0" "0 \<le> y" | "y < 0" by linarith
  then show ?thesis
  proof cases
    case 1 then show ?thesis using sig_round_mono_pos [OF b p] xy by simp
  next
    case 2 then show ?thesis using sig_round_sign [OF b p] by (meson order_trans)
  next
    case 3
    then show ?thesis using sig_round_mono_pos [OF b p, of "- y" "- x"] xy
      by (simp add: sig_round_minus)
  qed
qed


text \<open>
  The contract every rounding mode of the program satisfies: a relative error bound,
  idempotence, symmetry in the sign and monotonicity.
\<close>

locale rounding =
  fixes rnd :: "rat \<Rightarrow> rat" and u :: rat
  assumes unit_small: "0 \<le> u" "u < 1"
    and error: "\<bar>rnd x - x\<bar> \<le> \<bar>x\<bar> * u"
    and idem: "rnd (rnd x) = rnd x"
    and odd: "rnd (- x) = - rnd x"
    and mono: "x \<le> y \<Longrightarrow> rnd x \<le> rnd y"
begin

lemma zero: "rnd 0 = 0"
  using error [of 0] by simp

lemma eq_0_iff: "rnd x = 0 \<longleftrightarrow> x = 0"
proof
  assume "rnd x = 0"
  with error [of x] have "\<bar>x\<bar> * 1 \<le> \<bar>x\<bar> * u" by simp
  with unit_small show "x = 0" by (metis abs_ge_zero abs_eq_0 mult_less_cancel_left_pos not_less order_le_less)
qed (simp add: zero)

lemma nonneg: "0 \<le> x \<Longrightarrow> 0 \<le> rnd x"
  using mono [of 0 x] by (simp add: zero)

lemma nonpos: "x \<le> 0 \<Longrightarrow> rnd x \<le> 0"
  using mono [of x 0] by (simp add: zero)

lemma pos_iff: "0 < rnd x \<longleftrightarrow> 0 < x"
  by (metis eq_0_iff nonneg nonpos not_less order_le_less)

lemma between: "rnd a = a \<Longrightarrow> rnd b = b \<Longrightarrow> a \<le> x \<Longrightarrow> x \<le> b \<Longrightarrow> a \<le> rnd x \<and> rnd x \<le> b"
  by (metis mono)

lemma diff_nonneg: "a \<le> b \<Longrightarrow> 0 \<le> rnd (b - a)"
  by (rule nonneg) simp

end

subsection \<open>Binary64, the decimal context, and shortest printing\<close>

definition fl :: "rat \<Rightarrow> rat" where
  "fl = sig_round 2 53"

definition dec28 :: "rat \<Rightarrow> rat" where
  "dec28 = sig_round 10 28"

definition repr_pick :: "rat \<Rightarrow> int \<Rightarrow> rat option" where
  "repr_pick x p =
     (let s = 10 powi (ilog 10 \<bar>x\<bar> - (p - 1));
          m = \<lfloor>x / s\<rfloor>; n = \<lceil>x / s\<rceil>; lo = of_int m * s; hi = of_int n * s
      in if fl lo = x \<and> fl hi = x
         then Some (if x - lo < hi - x then lo else if hi - x < x - lo then hi
                    else if even m then lo else hi)
         else if fl lo = x then Some lo
         else if fl hi = x then Some hi
         else None)"

fun repr_search :: "rat \<Rightarrow> int list \<Rightarrow> rat" where
  "repr_search x [] = x"
| "repr_search x (p # ps) = (case repr_pick x p of Some d \<Rightarrow> d | None \<Rightarrow> repr_search x ps)"

definition repr :: "rat \<Rightarrow> rat" where
  "repr x = (if x = 0 then 0 else repr_search x [1..17])"

interpretation b64: rounding fl "1 / 2 ^ 53"
proof unfold_locales
  fix x y :: rat
  show "\<bar>fl x - x\<bar> \<le> \<bar>x\<bar> * (1 / 2 ^ 53)"
    using sig_round_error [of 2 53 x] by (simp add: fl_def power_int_def field_simps)
  show "fl (fl x) = fl x" "fl (- x) = - fl x" "x \<le> y \<Longrightarrow> fl x \<le> fl y"
    by (simp_all add: fl_def sig_round_idem sig_round_minus sig_round_mono)
qed simp_all

interpretation d28: rounding dec28 "5 / 10 ^ 28"
proof unfold_locales
  fix x y :: rat
  show "\<bar>dec28 x - x\<bar> \<le> \<bar>x\<bar> * (5 / 10 ^ 28)"
    using sig_round_error [of 10 28 x] by (simp add: dec28_def power_int_def field_simps)
  show "dec28 (dec28 x) = dec28 x" "dec28 (- x) = - dec28 x" "x \<le> y \<Longrightarrow> dec28 x \<le> dec28 y"
    by (simp_all add: dec28_def sig_round_idem sig_round_minus sig_round_mono)
qed simp_all

lemmas fl_simps [simp] = b64.zero b64.idem b64.eq_0_iff
lemmas dec28_simps [simp] = d28.zero d28.idem d28.eq_0_iff

lemma fl_error: "\<bar>fl x - x\<bar> \<le> \<bar>x\<bar> / 2 ^ 53"
  using b64.error [of x] by simp

lemma fl_fix: "\<bar>n\<bar> \<le> 2 ^ 53 \<Longrightarrow> x = of_int n * 2 powi k \<Longrightarrow> fl x = x"
  unfolding fl_def by (rule sig_round_fix [where n = n and k = k]) auto

lemma fl_of_int: "\<bar>n\<bar> \<le> 2 ^ 53 \<Longrightarrow> fl (of_int n) = of_int n"
  by (rule fl_fix [where k = 0]) auto

lemma dec28_fix: "\<bar>n\<bar> \<le> 10 ^ 28 \<Longrightarrow> x = of_int n * 10 powi k \<Longrightarrow> dec28 x = x"
  unfolding dec28_def by (rule sig_round_fix [where n = n and k = k]) auto

lemma repr_pick_fl: "repr_pick x p = Some d \<Longrightarrow> fl d = x"
  by (auto simp: repr_pick_def Let_def split: if_splits)

lemma repr_search_fl: "fl x = x \<Longrightarrow> fl (repr_search x ps) = x"
  by (induction ps) (auto dest: repr_pick_fl split: option.split)

lemma fl_repr: "fl x = x \<Longrightarrow> fl (repr x) = x"
  by (simp add: repr_def repr_search_fl)

definition dec15 :: "rat \<Rightarrow> bool" where
  "dec15 d \<longleftrightarrow> (\<exists>n k. \<bar>n\<bar> < 10 ^ 15 \<and> d = of_int n * 10 powi k)"

lemma dec15I: "\<bar>n\<bar> \<le> 10 ^ 15 \<Longrightarrow> d = of_int n * 10 powi k \<Longrightarrow> dec15 d"
proof (cases "\<bar>n\<bar> = 10 ^ 15")
  case True
  assume d: "d = of_int n * 10 powi k"
  from True consider "n = 10 ^ 15" | "n = - (10 ^ 15)" by linarith
  then have "d = of_int (sgn n) * 10 powi (k + 15)"
    by cases (simp_all add: d power_int_add)
  moreover have "\<bar>sgn n\<bar> < 10 ^ 15" by (simp add: sgn_if)
  ultimately show ?thesis unfolding dec15_def by blast
next
  case False
  assume "\<bar>n\<bar> \<le> 10 ^ 15" and d: "d = of_int n * 10 powi k"
  with False have "\<bar>n\<bar> < 10 ^ 15" by linarith
  with d show ?thesis unfolding dec15_def by blast
qed

lemma div_pow10: "x / 10 ^ k = x * 10 powi (- int k)" for x :: rat
  by (simp add: power_int_minus power_int_of_nat divide_inverse)

lemma dec15_div: "\<bar>n\<bar> \<le> 10 ^ 15 \<Longrightarrow> dec15 (of_int n / 10 ^ k)"
  unfolding div_pow10 by (rule dec15I [OF _ refl])

lemma dec28_div: "\<bar>n\<bar> \<le> 10 ^ 28 \<Longrightarrow> dec28 (of_int n / 10 ^ k) = of_int n / 10 ^ k"
  unfolding div_pow10 by (rule dec28_fix [OF _ refl])

lemma dec15_minus: "dec15 d \<Longrightarrow> dec15 (- d)"
  unfolding dec15_def by (metis abs_minus_cancel mult_minus_left of_int_minus)

lemma powi10_15: "(10 :: rat) powi (L + 1) = 10 ^ 15 * 10 powi (L - 14)"
proof -
  have "(10 :: rat) powi (L + 1) = 10 powi ((L - 14) + 15)" by (simp add: add.commute)
  also have "\<dots> = 10 powi (L - 14) * 10 powi 15" by (subst power_int_add) auto
  also have "(10 :: rat) powi 15 = 10 ^ 15" by (simp add: powi_nat)
  finally show ?thesis by (simp only: mult.commute)
qed

lemma dec15_scaled:
  assumes "dec15 d" and d: "d \<noteq> 0" and L: "L \<le> ilog 10 \<bar>d\<bar>"
  shows "\<exists>z. d = of_int z * 10 powi (L - 14)"
proof -
  obtain n k where n: "\<bar>n\<bar> < 10 ^ 15" and dn: "d = of_int n * 10 powi k"
    using assms(1) by (auto simp: dec15_def)
  have "\<bar>of_int n\<bar> < (10 :: rat) ^ 15" using n by (metis of_int_abs of_int_less_iff of_int_numeral of_int_power)
  then have "\<bar>d\<bar> < 10 ^ 15 * 10 powi k" by (simp add: dn abs_mult)
  then have "\<bar>d\<bar> < of_int 10 powi (k + 15)" by (simp add: power_int_add)
  then have "ilog 10 \<bar>d\<bar> < k + 15" using d by (subst ilog_less_iff) auto
  with L have j: "0 \<le> k - (L - 14)" by simp
  have "d = of_int n * (10 powi (k - (L - 14)) * 10 powi (L - 14))"
    by (simp add: dn flip: power_int_add)
  then have "d = of_int (n * 10 ^ nat (k - (L - 14))) * 10 powi (L - 14)"
    using j by (simp add: powi_nat)
  then show ?thesis by blast
qed

lemma fl_dec15_inj_pos:
  assumes d: "dec15 d" "0 < d" and e: "dec15 e" "d \<le> e" and eq: "fl d = fl e"
  shows "d = e"
proof (rule ccontr)
  assume ne: "d \<noteq> e"
  let ?L = "ilog 10 d"
  let ?s = "10 powi (?L - 14) :: rat"
  have s: "0 < ?s" by simp
  have "?L \<le> ilog 10 e" using d e by (intro ilog_mono) auto
  with dec15_scaled [OF d(1), of ?L] dec15_scaled [OF e(1), of ?L] d e
  obtain z w where z: "d = of_int z * ?s" and w: "e = of_int w * ?s" by auto
  with ne e have "z < w" using s by (metis mult_right_mono not_less of_int_le_iff order_antisym less_imp_le)
  then have "of_int (z + 1) * ?s \<le> of_int w * ?s" using s by (intro mult_right_mono) (simp_all only: of_int_le_iff)
  then have gap: "?s \<le> e - d" using z w by (simp add: distrib_right)
  have "\<bar>fl d - d\<bar> \<le> d / 2 ^ 53" "\<bar>fl e - e\<bar> \<le> e / 2 ^ 53"
    using fl_error [of d] fl_error [of e] d e by simp_all
  then have "e - d \<le> d / 2 ^ 53 + e / 2 ^ 53" using eq by linarith
  then have up: "(e - d) * (2 ^ 53 - 1) \<le> 2 * d" by (simp add: field_simps)
  have "d < of_int 10 powi (?L + 1)" using ilog_bounds [of 10 d] d by simp
  also have "\<dots> = 10 ^ 15 * ?s" by (simp add: powi10_15)
  finally have "2 * d < 2 * 10 ^ 15 * ?s" by simp
  moreover have "?s * (2 ^ 53 - 1) \<le> (e - d) * (2 ^ 53 - 1)" using gap by (intro mult_right_mono) auto
  ultimately show False using up s by simp
qed

lemma fl_dec15_inj:
  assumes "dec15 d" "dec15 e" "fl d = fl e"
  shows "d = e"
proof -
  have pos: "dec15 d \<Longrightarrow> dec15 e \<Longrightarrow> fl d = fl e \<Longrightarrow> 0 < d \<Longrightarrow> 0 < e \<Longrightarrow> d = e" for d e
    by (cases "d \<le> e") (auto dest: fl_dec15_inj_pos fl_dec15_inj_pos [symmetric])
  consider "d = 0" | "0 < d" | "d < 0" by linarith
  then show ?thesis
  proof cases
    case 1 with assms(3) show ?thesis by (metis b64.zero b64.eq_0_iff)
  next
    case 2 with assms b64.pos_iff pos show ?thesis by metis
  next
    case 3
    with assms have "0 < - d" "fl (- d) = fl (- e)" by (simp_all add: b64.odd)
    with b64.pos_iff have "0 < - e" by metis
    with pos [of "- d" "- e"] assms 3 show ?thesis by (simp add: dec15_minus b64.odd)
  qed
qed


lemma int_between_floor_ceiling:
  "\<bar>of_int z - (q :: rat)\<bar> < 1 \<Longrightarrow> z = \<lfloor>q\<rfloor> \<or> z = \<lceil>q\<rceil>"
  by linarith

lemma gap15_absurd:
  "(10 :: rat) ^ 15 * t \<le> x \<Longrightarrow> x * 2 ^ 53 \<le> d * (2 ^ 53 + 1) \<Longrightarrow> d \<le> (10 ^ 15 - 1) * t \<Longrightarrow> 0 < t \<Longrightarrow> False"
  by simp

lemma repr_pick_dec15:
  assumes d: "dec15 d" "d \<noteq> 0"
  shows "repr_pick (fl d) 15 \<noteq> None"
proof -
  let ?x = "fl d"
  let ?L = "ilog 10 \<bar>?x\<bar>"
  let ?s = "10 powi (?L - 14) :: rat"
  have s: "0 < ?s" by simp
  have x: "0 < \<bar>?x\<bar>" using d by simp
  have err: "\<bar>?x - d\<bar> * 2 ^ 53 \<le> \<bar>d\<bar>" using fl_error [of d] by (simp add: field_simps)
  have "\<bar>?x\<bar> < of_int 10 powi (?L + 1)" using ilog_bounds [of 10 "\<bar>?x\<bar>"] x by simp
  also have "\<dots> = 10 ^ 15 * ?s" by (simp add: powi10_15)
  finally have xs: "\<bar>?x\<bar> < 10 ^ 15 * ?s" .
  with err have close: "\<bar>d - ?x\<bar> < ?s" by (auto simp: abs_if split: if_splits)
  have "?L \<le> ilog 10 \<bar>d\<bar>"
  proof (rule ccontr)
    assume "\<not> ?thesis"
    then have lt: "ilog 10 \<bar>d\<bar> + 1 \<le> ?L" by simp
    let ?t = "10 powi (ilog 10 \<bar>d\<bar> - 14) :: rat"
    obtain z where z: "d = of_int z * ?t" using dec15_scaled [OF d, of "ilog 10 \<bar>d\<bar>"] by auto
    have t: "0 < ?t" by simp
    have u: "(of_int 10 :: rat) powi (ilog 10 \<bar>d\<bar> + 1) = of_int (10 ^ 15) * ?t"
      by (simp add: powi10_15)
    have "\<bar>d\<bar> < of_int 10 powi (ilog 10 \<bar>d\<bar> + 1)" using ilog_bounds [of 10 "\<bar>d\<bar>"] d by simp
    moreover have az: "of_int \<bar>z\<bar> * ?t = \<bar>d\<bar>" by (subst z) (simp add: abs_mult)
    ultimately have dz: "of_int \<bar>z\<bar> * ?t < of_int (10 ^ 15) * ?t" using u by (simp only:)
    then have "\<bar>z\<bar> < 10 ^ 15" using t by (simp only: mult_less_cancel_right_pos of_int_less_iff)
    then have "of_int \<bar>z\<bar> * ?t \<le> of_int (10 ^ 15 - 1) * ?t" using t by (intro mult_right_mono) (simp_all only: of_int_le_iff less_imp_le zle_diff1_eq)
    then have "\<bar>d\<bar> \<le> of_int (10 ^ 15 - 1) * ?t" by (simp only: az)
    then have d1: "\<bar>d\<bar> \<le> (10 ^ 15 - 1) * ?t" by simp
    have "(of_int 10 :: rat) powi (ilog 10 \<bar>d\<bar> + 1) \<le> of_int 10 powi ?L" using lt by (intro power_int_increasing) auto
    also have "\<dots> \<le> \<bar>?x\<bar>" using ilog_bounds [of 10 "\<bar>?x\<bar>"] x by simp
    finally have "10 ^ 15 * ?t \<le> \<bar>?x\<bar>" using u by simp
    moreover have "\<bar>?x\<bar> * 2 ^ 53 \<le> \<bar>d\<bar> * (2 ^ 53 + 1)" using err by (auto simp: abs_if split: if_splits)
    ultimately show False using d1 t by (rule gap15_absurd)
  qed
  with dec15_scaled [OF d] obtain z where z: "d = of_int z * ?s" by blast
  have "\<bar>of_int z - ?x / ?s\<bar> * ?s = \<bar>(of_int z - ?x / ?s) * ?s\<bar>" using s by (simp add: abs_mult)
  also have "(of_int z - ?x / ?s) * ?s = d - ?x" using z s by (simp add: left_diff_distrib)
  finally have "\<bar>of_int z - ?x / ?s\<bar> * ?s < 1 * ?s" using close by simp
  then have "\<bar>of_int z - ?x / ?s\<bar> < 1" using s by (simp only: mult_less_cancel_right_pos)
  then have "z = \<lfloor>?x / ?s\<rfloor> \<or> z = \<lceil>?x / ?s\<rceil>" by (rule int_between_floor_ceiling)
  with z show ?thesis by (auto simp: repr_pick_def Let_def)
qed


lemma repr_pick_is_dec15:
  assumes pick: "repr_pick x p = Some d" and x: "x \<noteq> 0" and p: "1 \<le> p" "p \<le> 15"
  shows "dec15 d"
proof -
  let ?s = "10 powi (ilog 10 \<bar>x\<bar> - (p - 1)) :: rat"
  have s: "0 < ?s" by simp
  have "d = of_int \<lfloor>x / ?s\<rfloor> * ?s \<or> d = of_int \<lceil>x / ?s\<rceil> * ?s"
    using pick by (auto simp: repr_pick_def Let_def split: if_splits)
  then obtain m where m: "m = \<lfloor>x / ?s\<rfloor> \<or> m = \<lceil>x / ?s\<rceil>" and d: "d = of_int m * ?s" by blast
  have "\<bar>x\<bar> < of_int 10 powi (ilog 10 \<bar>x\<bar> + 1)" using ilog_bounds [of 10 "\<bar>x\<bar>"] x by simp
  also have "\<dots> = 10 powi (p + (ilog 10 \<bar>x\<bar> - (p - 1)))" by simp
  also have "\<dots> = 10 powi p * ?s" by (subst power_int_add) auto
  also have "\<dots> = of_int (10 ^ nat p) * ?s" using p by (simp add: powi_nat)
  finally have "\<bar>x / ?s\<bar> < of_int (10 ^ nat p)" using s by (simp add: abs_divide pos_divide_less_eq)
  then have "\<bar>m\<bar> \<le> 10 ^ nat p" using m by linarith
  also have "(10 :: int) ^ nat p \<le> 10 ^ 15" using p by (intro power_increasing) auto
  finally show ?thesis using d by (rule dec15I)
qed

lemma repr_search_hit:
  "\<exists>p \<in> set ps. repr_pick x p \<noteq> None \<Longrightarrow>
    \<exists>p \<in> set ps. repr_pick x p = Some (repr_search x (ps @ qs))"
  by (induction ps) (auto split: option.splits)

lemma repr_fl:
  assumes "dec15 d"
  shows "repr (fl d) = d"
proof (cases "d = 0")
  case True then show ?thesis by (simp add: repr_def)
next
  case False
  let ?x = "fl d"
  have "[1..17] = [1..15] @ [16, 17 :: int]" by (simp add: upto_rec1)
  moreover have "\<exists>p \<in> set [1..15 :: int]. repr_pick ?x p \<noteq> None"
    using repr_pick_dec15 [OF assms False] by (intro bexI [of _ 15]) auto
  then obtain p where p: "p \<in> set [1..15]" "repr_pick ?x p = Some (repr_search ?x ([1..15] @ [16, 17]))"
    using repr_search_hit by blast
  ultimately have r: "repr_pick ?x p = Some (repr ?x)" using False by (simp add: repr_def)
  then have "dec15 (repr ?x)" using repr_pick_is_dec15 [of ?x p] p False by simp
  moreover have "fl (repr ?x) = fl d" using r by (rule repr_pick_fl)
  ultimately show ?thesis using fl_dec15_inj assms by blast
qed

lemma repr_0 [simp]: "repr 0 = 0"
  by (simp add: repr_def)

lemma repr_error: "fl x = x \<Longrightarrow> \<bar>repr x - x\<bar> \<le> \<bar>repr x\<bar> / 2 ^ 53"
  using fl_error [of "repr x"] fl_repr [of x] by (simp add: abs_minus_commute)

lemma repr_nonneg: "fl x = x \<Longrightarrow> 0 \<le> x \<Longrightarrow> 0 \<le> repr x"
  using fl_repr [of x] b64.nonpos [of "repr x"] b64.eq_0_iff [of "repr x"] by force

lemma repr_nonpos: "fl x = x \<Longrightarrow> x \<le> 0 \<Longrightarrow> repr x \<le> 0"
  using fl_repr [of x] b64.nonneg [of "repr x"] b64.eq_0_iff [of "repr x"] by force

end
