(* ===== verification/Money.thy ===== *)
theory Money
  imports PyNum
begin

text \<open>
  \<open>app/money.py\<close>: Decimal conversion through \<open>str\<close>, quantisation to two places with
  halves away from zero, and storage of the result as a float.

  Float arithmetic is written with \<open>fadd\<close>, \<open>fsub\<close> and \<open>fmul\<close>, Decimal arithmetic with
  \<open>dadd\<close>, \<open>dsub\<close> and \<open>dmul\<close>; each rounds its exact result.  \<open>D\<close> is the code's conversion
  of a float (the code's identity on a Decimal is no function here, and \<open>money_dec\<close> is
  \<open>money\<close> applied to a Decimal).  \<open>quantize\<close> raises for a result of more than 28 digits,
  that is for magnitudes of \<open>10 ^ 26\<close> and above, which the model leaves out.

  \<open>cedi c\<close> is the float nearest to \<open>c\<close> pesewas and \<open>pesewas\<close> reads a money float back.
  The lemmas at the end say that sums of money floats, taken with float rounding at every
  step and passed through \<open>money\<close>, are exact in pesewas.
\<close>

subsection \<open>The helpers of the source\<close>

definition D :: "rat \<Rightarrow> rat" where
  "D value = repr value"

definition half_up :: "rat \<Rightarrow> int" where
  "half_up d = (if 0 \<le> d then \<lfloor>d + 1/2\<rfloor> else - \<lfloor>- d + 1/2\<rfloor>)"

definition quantize2 :: "rat \<Rightarrow> rat" where
  "quantize2 d = of_int (half_up (d * 100)) / 100"

definition round_half_up :: "rat \<Rightarrow> rat" where
  "round_half_up value = quantize2 (D value)"

definition money_dec :: "rat \<Rightarrow> rat" where
  "money_dec d = fl (quantize2 d)"

definition money :: "rat \<Rightarrow> rat" where
  "money value = fl (round_half_up value)"

definition py_round2 :: "rat \<Rightarrow> rat" where
  "py_round2 x = fl (of_int (rhe (x * 100)) / 100)"

subsection \<open>Float and Decimal operators\<close>

definition fadd :: "rat \<Rightarrow> rat \<Rightarrow> rat" where "fadd a b = fl (a + b)"
definition fsub :: "rat \<Rightarrow> rat \<Rightarrow> rat" where "fsub a b = fl (a - b)"
definition fmul :: "rat \<Rightarrow> rat \<Rightarrow> rat" where "fmul a b = fl (a * b)"
definition fdiv :: "rat \<Rightarrow> rat \<Rightarrow> rat" where "fdiv a b = fl (a / b)"
definition dadd :: "rat \<Rightarrow> rat \<Rightarrow> rat" where "dadd a b = dec28 (a + b)"
definition dsub :: "rat \<Rightarrow> rat \<Rightarrow> rat" where "dsub a b = dec28 (a - b)"
definition dmul :: "rat \<Rightarrow> rat \<Rightarrow> rat" where "dmul a b = dec28 (a * b)"

text \<open>A chain \<open>a + b + c + ...\<close> of float additions, associated to the left.\<close>

definition fsum :: "rat \<Rightarrow> rat list \<Rightarrow> rat" where
  "fsum a bs = foldl fadd a bs"

lemma fsum_simps [simp]: "fsum a [] = a" "fsum a (b # bs) = fsum (fadd a b) bs"
  by (simp_all add: fsum_def)

subsection \<open>Rounding to pesewas\<close>

lemma floor_half_near: "\<bar>d - of_int n\<bar> < 1/2 \<Longrightarrow> \<lfloor>d + 1/2\<rfloor> = n" for d :: rat
  by (simp add: floor_eq_iff abs_if split: if_splits)

lemma half_up_near: "\<bar>d - of_int n\<bar> < 1/2 \<Longrightarrow> half_up d = n"
  using floor_half_near [of d n] floor_half_near [of "- d" "- n"]
  by (simp add: half_up_def abs_minus_commute)

lemma half_up_of_int [simp]: "half_up (of_int n) = n"
  by (rule half_up_near) simp

lemma half_up_0 [simp]: "half_up 0 = 0"
  using half_up_of_int [of 0] by simp

lemma half_up_bounds: "0 \<le> d \<Longrightarrow> d - 1/2 < of_int (half_up d) \<and> of_int (half_up d) \<le> d + 1/2"
  unfolding half_up_def by simp linarith

lemma half_up_odd: "half_up (- d) = - half_up d"
proof (cases "d = 0")
  case False
  then show ?thesis by (auto simp: half_up_def)
qed simp

lemma half_up_error: "\<bar>of_int (half_up d) - d\<bar> \<le> 1/2"
  using half_up_bounds [of d] half_up_bounds [of "- d"] half_up_odd [of d]
  by (cases "0 \<le> d") (auto simp: abs_if)

lemma half_up_tie: "0 \<le> n \<Longrightarrow> half_up (of_int n + 1/2) = n + 1"
  by (simp add: half_up_def add.assoc)

lemma half_up_nonneg: "0 \<le> d \<Longrightarrow> 0 \<le> half_up d"
  using half_up_bounds [of d] by linarith

lemma half_up_mono: "x \<le> y \<Longrightarrow> half_up x \<le> half_up y"
proof -
  assume xy: "x \<le> y"
  show ?thesis
  proof (cases "0 \<le> x \<or> y < 0")
    case True
    with xy show ?thesis by (auto simp: half_up_def intro!: floor_mono)
  next
    case False
    then have "0 \<le> half_up (- x)" "0 \<le> half_up y" by (auto intro: half_up_nonneg)
    then show ?thesis by (simp add: half_up_odd)
  qed
qed

definition cedi :: "int \<Rightarrow> rat" where
  "cedi c = fl (of_int c / 100)"

definition pesewas :: "rat \<Rightarrow> int" where
  "pesewas x = half_up (x * 100)"

lemma money_dec_cedi: "money_dec d = cedi (half_up (d * 100))"
  by (simp add: money_dec_def quantize2_def cedi_def)

lemma money_money_dec: "money x = money_dec (D x)"
  by (simp add: money_def money_dec_def round_half_up_def)

lemma fl_cedi [simp]: "fl (cedi c) = cedi c"
  by (simp add: cedi_def)

lemma cedi_0 [simp]: "cedi 0 = 0"
  by (simp add: cedi_def)

lemma cedi_minus: "cedi (- c) = - cedi c"
  by (simp add: cedi_def b64.odd [symmetric])

lemma cedi_mono: "c \<le> d \<Longrightarrow> cedi c \<le> cedi d"
  unfolding cedi_def by (rule b64.mono) (simp add: divide_right_mono)

lemma cedi_nonneg [simp]: "0 \<le> cedi c \<longleftrightarrow> 0 \<le> c"
proof -
  have "c < 0 \<Longrightarrow> \<not> 0 \<le> cedi c"
    unfolding cedi_def using b64.pos_iff [of "- (of_int c / 100)"] by (simp add: b64.odd)
  then show ?thesis using cedi_mono [of 0 c] by force
qed

lemma cedi_eq_0 [simp]: "cedi c = 0 \<longleftrightarrow> c = 0"
  by (simp add: cedi_def)

lemma dec15_pesewas: "\<bar>c\<bar> \<le> 10 ^ 15 \<Longrightarrow> dec15 (of_int c / 100)"
  using dec15_div [of c 2] by simp

lemma D_cedi: "\<bar>c\<bar> \<le> 10 ^ 15 \<Longrightarrow> D (cedi c) = of_int c / 100"
  by (simp add: D_def cedi_def repr_fl dec15_pesewas)

lemma D_0 [simp]: "D 0 = 0"
  by (simp add: D_def)

lemma money_0 [simp]: "money 0 = 0"
  by (simp add: money_def round_half_up_def quantize2_def)

lemma money_cedi: "\<bar>c\<bar> \<le> 10 ^ 15 \<Longrightarrow> money (cedi c) = cedi c"
  by (simp add: money_money_dec money_dec_cedi D_cedi)

lemma money_is_cedi: "\<exists>c. money x = cedi c"
  by (auto simp: money_money_dec money_dec_cedi)

lemma fl_money [simp]: "fl (money x) = money x" "fl (money_dec d) = money_dec d"
  by (simp_all add: money_def money_dec_def)

subsection \<open>Approximation by pesewas\<close>

text \<open>
  \<open>apx k x c\<close>: the float \<open>x\<close> is within \<open>k\<close> steps of \<open>2 ^ -22\<close> cedis of \<open>c\<close> pesewas.  One
  float addition on magnitudes below \<open>2 ^ 31\<close> adds at most one step, and a thousand steps
  stay clear of the half-pesewa boundary.
\<close>

abbreviation max_pesewas :: int where
  "max_pesewas \<equiv> 200000000000"

definition apx :: "rat \<Rightarrow> rat \<Rightarrow> int \<Rightarrow> bool" where
  "apx k x c \<longleftrightarrow> fl x = x \<and> \<bar>x - of_int c / 100\<bar> \<le> k / 2 ^ 22"

lemma fl_small_error: "\<bar>x\<bar> \<le> 2 ^ 31 \<Longrightarrow> \<bar>fl x - x\<bar> \<le> 1 / 2 ^ 22"
  using fl_error [of x] by (simp add: field_simps)

lemma abs_pesewas_le: "\<bar>c\<bar> \<le> max_pesewas \<Longrightarrow> \<bar>of_int c / 100\<bar> \<le> (2000000000 :: rat)"
  by (simp add: abs_if split: if_splits)

lemma near_add: "\<bar>x - a\<bar> \<le> j \<Longrightarrow> \<bar>y - b\<bar> \<le> k \<Longrightarrow> \<bar>x + y - (a + b)\<bar> \<le> j + k" for x y :: rat
  by linarith

lemma near_diff: "\<bar>x - a\<bar> \<le> j \<Longrightarrow> \<bar>y - b\<bar> \<le> k \<Longrightarrow> \<bar>x - y - (a - b)\<bar> \<le> j + k" for x y :: rat
  by linarith

lemma apx_cedi: "\<bar>c\<bar> \<le> max_pesewas \<Longrightarrow> apx 1 (cedi c) c"
  unfolding apx_def
  using fl_small_error [of "of_int c / 100"] abs_pesewas_le [of c] by (simp add: cedi_def)

lemma apx_fl:
  assumes "\<bar>x - of_int c / 100\<bar> \<le> k / 2 ^ 22" "k \<le> 1000" "\<bar>c\<bar> \<le> max_pesewas"
  shows "apx (k + 1) (fl x) c"
proof -
  have "k / 2 ^ 22 \<le> 1" using assms(2) by simp
  with assms(1) abs_pesewas_le [OF assms(3)] have "\<bar>x\<bar> \<le> 2000000001" by linarith
  then have "\<bar>x\<bar> \<le> 2 ^ 31" by simp
  then have "\<bar>fl x - x\<bar> \<le> 1 / 2 ^ 22" by (rule fl_small_error)
  moreover have "(k + 1) / 2 ^ 22 = k / 2 ^ 22 + 1 / 2 ^ 22" by (simp add: add_divide_distrib)
  ultimately show ?thesis using assms(1) unfolding apx_def by (auto simp only: b64.idem)
qed

lemma apx_fadd:
  assumes "apx j x a" "apx k y b" "j + k \<le> 1000" "\<bar>a + b\<bar> \<le> max_pesewas"
  shows "apx (j + k + 1) (fadd x y) (a + b)"
proof -
  have "\<bar>x + y - of_int (a + b) / 100\<bar> \<le> (j + k) / 2 ^ 22"
    using assms(1,2) near_add [of x "of_int a / 100" "j / 2 ^ 22" y "of_int b / 100" "k / 2 ^ 22"]
    by (simp add: apx_def add_divide_distrib)
  then show ?thesis unfolding fadd_def using assms(3,4) by (rule apx_fl)
qed

lemma apx_fsub:
  assumes "apx j x a" "apx k y b" "j + k \<le> 1000" "\<bar>a - b\<bar> \<le> max_pesewas"
  shows "apx (j + k + 1) (fsub x y) (a - b)"
proof -
  have "\<bar>x - y - of_int (a - b) / 100\<bar> \<le> (j + k) / 2 ^ 22"
    using assms(1,2) near_diff [of x "of_int a / 100" "j / 2 ^ 22" y "of_int b / 100" "k / 2 ^ 22"]
    by (simp add: apx_def add_divide_distrib diff_divide_distrib)
  then show ?thesis unfolding fsub_def using assms(3,4) by (rule apx_fl)
qed

lemma apx_half_pesewa:
  assumes "apx k x c" "k \<le> 1000" "\<bar>c\<bar> \<le> max_pesewas"
  shows "\<bar>D x * 100 - of_int c\<bar> < 1/2"
proof -
  have x: "fl x = x" "\<bar>x - of_int c / 100\<bar> \<le> 1000 / 2 ^ 22"
    using assms(1,2) by (auto simp: apx_def intro: order_trans divide_right_mono)
  have "\<bar>D x - x\<bar> * 2 ^ 53 \<le> \<bar>D x\<bar>"
    using repr_error [OF x(1)] by (simp add: D_def field_simps)
  with x(2) abs_pesewas_le [OF assms(3)] show ?thesis by (auto simp: abs_if split: if_splits)
qed

lemma money_apx:
  assumes "apx k x c" "k \<le> 1000" "\<bar>c\<bar> \<le> max_pesewas"
  shows "money x = cedi c"
  using half_up_near [OF apx_half_pesewa [OF assms]] by (simp add: money_money_dec money_dec_cedi)

lemma pesewas_cedi:
  assumes "\<bar>c\<bar> \<le> max_pesewas"
  shows "pesewas (cedi c) = c"
proof -
  have "\<bar>cedi c - of_int c / 100\<bar> \<le> 1 / 2 ^ 22" using apx_cedi [OF assms] by (simp add: apx_def)
  then show ?thesis unfolding pesewas_def by (intro half_up_near) (simp add: abs_if split: if_splits)
qed

lemma cedi_inject: "\<bar>c\<bar> \<le> max_pesewas \<Longrightarrow> \<bar>d\<bar> \<le> max_pesewas \<Longrightarrow> cedi c = cedi d \<longleftrightarrow> c = d"
  by (metis pesewas_cedi)

lemma cedi_le_iff: "\<bar>c\<bar> \<le> max_pesewas \<Longrightarrow> \<bar>d\<bar> \<le> max_pesewas \<Longrightarrow> cedi c \<le> cedi d \<longleftrightarrow> c \<le> d"
  by (metis cedi_inject cedi_mono linear order_antisym)

end
