(* ===== verification/PyText.thy ===== *)
theory PyText
  imports Prelude
begin

text \<open>
  Python text.  A \<open>str\<close> is a \<open>string\<close>, one character per code point; the case mappings
  act on the ASCII letters and leave every other character alone, and \<open>strip\<close> removes
  the ASCII white space (tab to carriage return, the separators 28 to 31, and space).
\<close>

definition white_space :: string where
  "white_space = [CHR 0x09, CHR 0x0A, CHR 0x0B, CHR 0x0C, CHR 0x0D,
                  CHR 0x1C, CHR 0x1D, CHR 0x1E, CHR 0x1F, CHR '' '']"

definition upper_letters :: string where
  "upper_letters = ''ABCDEFGHIJKLMNOPQRSTUVWXYZ''"

definition lower_letters :: string where
  "lower_letters = ''abcdefghijklmnopqrstuvwxyz''"

definition is_space :: "char \<Rightarrow> bool" where
  "is_space c \<longleftrightarrow> c \<in> set white_space"

definition to_lower :: "char \<Rightarrow> char" where
  "to_lower c = (case map_of (zip upper_letters lower_letters) c of Some d \<Rightarrow> d | None \<Rightarrow> c)"

definition to_upper :: "char \<Rightarrow> char" where
  "to_upper c = (case map_of (zip lower_letters upper_letters) c of Some d \<Rightarrow> d | None \<Rightarrow> c)"

definition lower :: "string \<Rightarrow> string" where
  "lower s = map to_lower s"

definition upper :: "string \<Rightarrow> string" where
  "upper s = map to_upper s"

definition lstrip :: "string \<Rightarrow> string" where
  "lstrip s = dropWhile is_space s"

definition rstrip :: "string \<Rightarrow> string" where
  "rstrip s = rev (dropWhile is_space (rev s))"

definition strip :: "string \<Rightarrow> string" where
  "strip s = rstrip (lstrip s)"

definition capitalize :: "string \<Rightarrow> string" where
  "capitalize s = (case s of [] \<Rightarrow> [] | c # cs \<Rightarrow> to_upper c # lower cs)"

text \<open>\<open>str\<close> of an integer.\<close>

fun digits :: "nat \<Rightarrow> string" where
  "digits n = (if n < 10 then [char_of (48 + n)] else digits (n div 10) @ [char_of (48 + n mod 10)])"

definition str_int :: "int \<Rightarrow> string" where
  "str_int i = (if i < 0 then ''-'' @ digits (nat (- i)) else digits (nat i))"

declare digits.simps [simp del]

text \<open>The text operations unfolded, for evaluation on literals.\<close>

lemmas text_eval = white_space_def upper_letters_def lower_letters_def is_space_def to_lower_def
  to_upper_def lower_def upper_def lstrip_def rstrip_def strip_def capitalize_def

lemma to_lower_idem [simp]: "to_lower (to_lower c) = to_lower c"
  by (simp add: to_lower_def upper_letters_def lower_letters_def)

lemma to_upper_idem [simp]: "to_upper (to_upper c) = to_upper c"
  by (simp add: to_upper_def upper_letters_def lower_letters_def)

lemma is_space_to_lower [simp]: "is_space (to_lower c) = is_space c"
  by (simp add: is_space_def white_space_def to_lower_def upper_letters_def lower_letters_def)

lemma is_space_to_upper [simp]: "is_space (to_upper c) = is_space c"
  by (simp add: is_space_def white_space_def to_upper_def upper_letters_def lower_letters_def)

lemma lower_idem [simp]: "lower (lower s) = lower s"
  by (simp add: lower_def o_def)

lemma upper_idem [simp]: "upper (upper s) = upper s"
  by (simp add: upper_def o_def)

lemma dropWhile_is_space_lower: "dropWhile is_space (lower s) = lower (dropWhile is_space s)"
  by (induction s) (auto simp: lower_def)

lemma dropWhile_is_space_upper: "dropWhile is_space (upper s) = upper (dropWhile is_space s)"
  by (induction s) (auto simp: upper_def)

lemma rev_lower: "rev (lower s) = lower (rev s)"
  by (simp add: lower_def rev_map)

lemma rev_upper: "rev (upper s) = upper (rev s)"
  by (simp add: upper_def rev_map)

lemma strip_lower: "strip (lower s) = lower (strip s)"
  by (simp add: strip_def lstrip_def rstrip_def rev_lower dropWhile_is_space_lower)

lemma strip_upper: "strip (upper s) = upper (strip s)"
  by (simp add: strip_def lstrip_def rstrip_def rev_upper dropWhile_is_space_upper)

text \<open>A stripped text neither begins nor ends with white space; stripping it again is the identity.\<close>

definition stripped :: "string \<Rightarrow> bool" where
  "stripped s \<longleftrightarrow> (s \<noteq> [] \<longrightarrow> \<not> is_space (hd s) \<and> \<not> is_space (last s))"

lemma dropWhile_hd: "dropWhile p xs \<noteq> [] \<Longrightarrow> \<not> p (hd (dropWhile p xs))"
  by (induction xs) auto

lemma last_dropWhile: "dropWhile p xs \<noteq> [] \<Longrightarrow> last (dropWhile p xs) = last xs"
  by (induction xs) auto

lemma stripped_strip: "stripped (strip s)"
proof -
  let ?l = "lstrip s"
  let ?r = "dropWhile is_space (rev ?l)"
  show ?thesis
  proof (cases "?r = []")
    case True
    then show ?thesis by (simp add: stripped_def strip_def rstrip_def)
  next
    case False
    then have "?l \<noteq> []" by auto
    then have "\<not> is_space (hd ?l)" using dropWhile_hd [of is_space s] by (simp add: lstrip_def)
    moreover have "last ?r = hd ?l" using last_dropWhile [OF False] \<open>?l \<noteq> []\<close> by (simp add: last_rev)
    ultimately show ?thesis using False dropWhile_hd [OF False]
      by (simp add: stripped_def strip_def rstrip_def hd_rev last_rev)
  qed
qed

lemma strip_stripped: "stripped s \<Longrightarrow> strip s = s"
proof (cases "s = []")
  case True
  then show ?thesis by (simp add: strip_def lstrip_def rstrip_def)
next
  case False
  assume "stripped s"
  with False have h: "\<not> is_space (hd s)" "\<not> is_space (last s)" by (simp_all add: stripped_def)
  from h(1) False have "lstrip s = s" by (cases s) (simp_all add: lstrip_def)
  moreover from h(2) False have "dropWhile is_space (rev s) = rev s"
    by (cases "rev s") (auto simp: last_rev hd_rev [symmetric] simp flip: hd_rev)
  ultimately show ?thesis by (simp add: strip_def rstrip_def)
qed

lemma strip_idem [simp]: "strip (strip s) = strip s"
  by (rule strip_stripped [OF stripped_strip])

end
