(* ===== verification/PyDate.thy ===== *)
theory PyDate
  imports PyText
begin

text \<open>
  Calendar dates (\<open>datetime.date\<close>), compared by year, then month, then day, and
  \<open>period_start\<close> of \<open>app/payroll_calculations/__init__.py\<close>, which turns a run's month
  name and year into the first day of its period.
\<close>

datatype pydate = Date (yr: int) (mon: int) (dom: int)

instantiation pydate :: linorder
begin

definition less_eq_pydate :: "pydate \<Rightarrow> pydate \<Rightarrow> bool" where
  "less_eq_pydate a b \<longleftrightarrow> yr a < yr b \<or> yr a = yr b \<and> (mon a < mon b \<or> mon a = mon b \<and> dom a \<le> dom b)"

definition less_pydate :: "pydate \<Rightarrow> pydate \<Rightarrow> bool" where
  "less_pydate a b \<longleftrightarrow> yr a < yr b \<or> yr a = yr b \<and> (mon a < mon b \<or> mon a = mon b \<and> dom a < dom b)"

instance
  by standard (auto simp: less_eq_pydate_def less_pydate_def intro: pydate.expand)

end

definition month_names :: "string list" where
  "month_names = [''January'', ''February'', ''March'', ''April'', ''May'', ''June'', ''July'',
     ''August'', ''September'', ''October'', ''November'', ''December'']"

definition month_abbrs :: "string list" where
  "month_abbrs = [''Jan'', ''Feb'', ''Mar'', ''Apr'', ''May'', ''Jun'', ''Jul'',
     ''Aug'', ''Sep'', ''Oct'', ''Nov'', ''Dec'']"

definition month_numbers :: "string \<Rightarrow> int option" where
  "month_numbers = map_of (zip month_names [1..12]) ++ map_of (zip month_abbrs [1..12])"

datatype period_error = Unrecognised_month string | Year_out_of_range int

definition period_start :: "string \<Rightarrow> int \<Rightarrow> period_error + pydate" where
  "period_start month year =
     (case month_numbers (capitalize (strip month)) of
        None \<Rightarrow> raise (Unrecognised_month month)
      | Some n \<Rightarrow> if 1 \<le> year \<and> year \<le> 9999 then return (Date year n 1)
                  else raise (Year_out_of_range year))"

lemma upto_1_12: "[1..12] = [1, 2, 3, 4, 5, 6, 7, 8, 9, 10, 11, 12 :: int]"
  by (simp add: upto_rec1)

lemmas month_eval = month_numbers_def month_names_def month_abbrs_def upto_1_12 text_eval

lemma month_numbers_range: "month_numbers m = Some n \<Longrightarrow> 1 \<le> n \<and> n \<le> 12"
  by (auto simp: month_numbers_def month_names_def month_abbrs_def upto_1_12 split: if_splits option.splits)

lemma period_start_first_day:
  "period_start m y = Inr d \<Longrightarrow> yr d = y \<and> dom d = 1 \<and> 1 \<le> mon d \<and> mon d \<le> 12"
  by (auto simp: period_start_def dest: month_numbers_range split: option.splits if_splits)

lemma period_start_order:
  assumes "period_start m y = Inr d" "period_start m' y' = Inr d'"
  shows "d < d' \<longleftrightarrow> y < y' \<or> y = y' \<and> mon d < mon d'"
  using period_start_first_day [OF assms(1)] period_start_first_day [OF assms(2)]
  by (auto simp: less_pydate_def)

lemma period_start_eval:
  "period_start ''January'' 2026 = Inr (Date 2026 1 1)"
  "period_start '' sept'' 2026 = Inl (Unrecognised_month '' sept'')"
  "period_start '' SEP '' 2026 = Inr (Date 2026 9 1)"
  by (simp_all add: period_start_def month_eval)

end
