(* ===== verification/Rates.thy ===== *)
theory Rates
  imports Money PyDate
begin

text \<open>
  \<open>StatutoryRate\<close> of \<open>app/models.py\<close>: one effective-dated version of the statutory
  rates, the selection of the version in force, and the four tax computations every
  payroll engine delegates to.  Column values are floats; \<open>paye_bands\<close> is the parsed
  \<open>paye_bands_json\<close>.
\<close>

subsection \<open>The record and its computations\<close>

record paye_band =
  band_over :: rat
  band_rate :: rat
  band_base :: rat

record statutory_rate =
  rate_id :: int
  effective_from :: pydate
  ssf_employee_rate :: rat
  ssf_employer_rate :: rat
  paye_bands :: "paye_band list"
  deductions_policy_version :: int
  ssnit_min_insurable :: rat
  ssnit_max_insurable :: rat
  ssnit_limits_year :: int
  ssnit_min_monthly_remittance :: rat
  provident_fund_tax_limit :: rat
  overtime_qualifying_annual_limit :: rat
  overtime_rate_low :: rat
  overtime_rate_high :: rat
  overtime_basic_threshold :: rat
  bonus_rate :: rat
  bonus_annual_basic_threshold :: rat
  icu_member_rate :: rat
  overtime_junior_monthly_threshold :: rat

definition active_for :: "statutory_rate list \<Rightarrow> pydate \<Rightarrow> statutory_rate option" where
  "active_for rates on_date =
     max_row effective_from (filter (\<lambda>r. effective_from r \<le> on_date) rates)"

fun paye_over_bands :: "paye_band list \<Rightarrow> rat \<Rightarrow> rat" where
  "paye_over_bands [] t = 0"
| "paye_over_bands (b # bs) t =
     (if D (band_over b) \<le> t
      then money_dec (dadd (dmul (dsub t (D (band_over b))) (D (band_rate b))) (D (band_base b)))
      else paye_over_bands bs t)"

definition compute_paye :: "statutory_rate \<Rightarrow> rat \<Rightarrow> rat" where
  "compute_paye r taxable_income = paye_over_bands (paye_bands r) (D taxable_income)"

definition overtime_tax_dec :: "statutory_rate \<Rightarrow> rat \<Rightarrow> rat \<Rightarrow> rat" where
  "overtime_tax_dec r overtime_pay basic_salary =
     (if overtime_pay \<le> 0 then 0
      else let cap = dmul basic_salary (D (overtime_basic_threshold r));
               low_portion = min overtime_pay cap;
               high_portion = max (dsub overtime_pay cap) 0
           in money_dec (dadd (dmul low_portion (D (overtime_rate_low r)))
                              (dmul high_portion (D (overtime_rate_high r)))))"

definition compute_overtime_tax :: "statutory_rate \<Rightarrow> rat \<Rightarrow> rat \<Rightarrow> rat" where
  "compute_overtime_tax r overtime_pay basic_salary =
     overtime_tax_dec r (D overtime_pay) (D basic_salary)"

definition split_bonus :: "statutory_rate \<Rightarrow> rat \<Rightarrow> rat \<Rightarrow> rat \<Rightarrow> rat \<times> rat" where
  "split_bonus r bonus basic_salary already_used =
     (let bonus = D bonus in
      if bonus \<le> 0 then (0, 0)
      else let cap = dmul (dmul (D basic_salary) 12) (D (bonus_annual_basic_threshold r));
               remaining_cap = max (dsub cap (D already_used)) 0;
               concession = min bonus remaining_cap;
               excess = max (dsub bonus remaining_cap) 0
           in (money_dec (dmul concession (D (bonus_rate r))), money_dec excess))"

definition icu_dues :: "statutory_rate \<Rightarrow> rat \<Rightarrow> bool \<Rightarrow> rat" where
  "icu_dues r basic_salary is_member =
     (if \<not> is_member then 0 else money_dec (dmul (D basic_salary) (D (icu_member_rate r))))"

subsection \<open>The version in force\<close>

lemma active_for_Some:
  assumes "active_for rates d = Some r"
  shows "r \<in> set rates" "effective_from r \<le> d"
    "\<And>s. s \<in> set rates \<Longrightarrow> effective_from s \<le> d \<Longrightarrow> effective_from s \<le> effective_from r"
  using max_row_SomeD [OF assms [unfolded active_for_def]] by auto

lemma active_for_None: "active_for rates d = None \<longleftrightarrow> (\<forall>r\<in>set rates. d < effective_from r)"
  by (auto simp: active_for_def filter_empty_conv not_le)

lemma active_for_cons_later:
  assumes "\<forall>s\<in>set rates. effective_from s < effective_from r" "effective_from r \<le> d"
  shows "active_for (r # rates) d = Some r"
proof (cases "max_row effective_from (filter (\<lambda>s. effective_from s \<le> d) rates)")
  case None
  then show ?thesis using assms(2) by (simp add: active_for_def)
next
  case (Some s)
  then have "s \<in> set rates" using max_row_SomeD by fastforce
  then show ?thesis using assms Some by (auto simp: active_for_def)
qed

lemma active_for_before: "d < effective_from r \<Longrightarrow> active_for (r # rates) d = active_for rates d"
  by (auto simp: active_for_def not_le)

subsection \<open>Exact Decimal arithmetic\<close>

text \<open>
  A rate column is \<^emph>\<open>short\<close> when it is the float of a decimal with at most six places and
  magnitude below a thousand, as every statutory percentage is.  On pesewa amounts and
  short rates the Decimal context never rounds.
\<close>

definition short_rate :: "rat \<Rightarrow> int \<Rightarrow> bool" where
  "short_rate x n \<longleftrightarrow> x = fl (of_int n / 10 ^ 6) \<and> \<bar>n\<bar> \<le> 10 ^ 9"

lemma short_rate_bound: "short_rate x n \<Longrightarrow> \<bar>n\<bar> \<le> 10 ^ 9"
  by (simp add: short_rate_def)

lemma D_short_rate: "short_rate x n \<Longrightarrow> D x = of_int n / 10 ^ 6"
proof -
  assume x: "short_rate x n"
  then have "\<bar>n\<bar> \<le> 10 ^ 15" using short_rate_bound [OF x] by simp
  from repr_fl [OF dec15_div [OF this, of 6]] x show ?thesis by (simp only: short_rate_def D_def)
qed

text \<open>A tax of \<open>n\<close> millionths on \<open>c\<close> pesewas, rounded half up: the reference in integers.\<close>

definition tax_on :: "int \<Rightarrow> int \<Rightarrow> int" where
  "tax_on c n = half_up (of_int (c * n) / 10 ^ 6)"

lemma abs_mult_le: "\<bar>c\<bar> \<le> a \<Longrightarrow> \<bar>n\<bar> \<le> b \<Longrightarrow> \<bar>c * n\<bar> \<le> a * b" for c n :: int
  by (simp add: abs_mult mult_mono)

lemma money_dec_mul_rate:
  assumes "\<bar>c\<bar> \<le> 10 ^ 15" "short_rate x n"
  shows "money_dec (dmul (of_int c / 100) (D x)) = cedi (tax_on c n)"
proof -
  have "\<bar>c * n\<bar> \<le> 10 ^ 15 * 10 ^ 9"
    using assms by (intro abs_mult_le) (auto simp: short_rate_def)
  then have "\<bar>c * n\<bar> \<le> 10 ^ 28" by simp
  from dec28_div [OF this, of 8] have "dmul (of_int c / 100) (D x) = of_int (c * n) / 10 ^ 8"
    unfolding dmul_def D_short_rate [OF assms(2)] by simp
  then have "dmul (of_int c / 100) (D x) * 100 = of_int (c * n) / 10 ^ 6" by simp
  then show ?thesis unfolding money_dec_cedi tax_on_def by (rule arg_cong)
qed

lemma tax_on_nonneg: "0 \<le> c \<Longrightarrow> 0 \<le> n \<Longrightarrow> 0 \<le> tax_on c n"
  unfolding tax_on_def by (intro half_up_nonneg) simp

lemma tax_on_mono: "c \<le> d \<Longrightarrow> 0 \<le> n \<Longrightarrow> tax_on c n \<le> tax_on d n"
  unfolding tax_on_def by (intro half_up_mono divide_right_mono) (simp_all add: mult_right_mono)

lemma tax_on_le: "0 \<le> c \<Longrightarrow> 0 \<le> n \<Longrightarrow> n \<le> 10 ^ 6 \<Longrightarrow> tax_on c n \<le> c"
proof -
  assume c: "0 \<le> c" and n: "0 \<le> n" "n \<le> 10 ^ 6"
  have "of_int (c * n) / 10 ^ 6 \<le> (of_int c :: rat)"
  proof -
    have "(of_int (c * n) :: rat) \<le> of_int (c * 10 ^ 6)" using mult_left_mono [OF n(2) c] by (simp only: of_int_le_iff)
    then show ?thesis by simp
  qed
  then have "tax_on c n \<le> half_up (of_int c)" unfolding tax_on_def by (rule half_up_mono)
  then show ?thesis by simp
qed

lemma icu_dues_exact:
  assumes "\<bar>c\<bar> \<le> 10 ^ 15" "short_rate (icu_member_rate r) n"
  shows "icu_dues r (cedi c) m = cedi (if m then tax_on c n else 0)"
  by (simp only: icu_dues_def D_cedi [OF assms(1)] money_dec_mul_rate [OF assms] if_not_P if_P not_not cedi_0 split: if_split) simp


subsection \<open>The reference computations in integers\<close>

text \<open>
  Amounts are pesewas, rates millionths.  Each reference carries full precision (in
  units of \<open>10 ^ -8\<close> cedis and below) and rounds once, half up, which is what the
  comments of \<open>compute_overtime_tax\<close> and \<open>split_bonus\<close> ask of the code.
\<close>

definition overtime_spec :: "int \<Rightarrow> int \<Rightarrow> int \<Rightarrow> int \<Rightarrow> int \<Rightarrow> int" where
  "overtime_spec ot basic nt nl nh =
     (if ot \<le> 0 then 0
      else half_up (of_int (min (ot * 10 ^ 6) (basic * nt) * nl
                            + max (ot * 10 ^ 6 - basic * nt) 0 * nh) / 10 ^ 12))"

definition bonus_spec :: "int \<Rightarrow> int \<Rightarrow> int \<Rightarrow> int \<Rightarrow> int \<Rightarrow> int \<times> int" where
  "bonus_spec bonus basic used nb nr =
     (if bonus \<le> 0 then (0, 0)
      else let rem = max (basic * 12 * nb - used * 10 ^ 6) 0
           in (half_up (of_int (min (bonus * 10 ^ 6) rem * nr) / 10 ^ 12),
               half_up (of_int (max (bonus * 10 ^ 6 - rem) 0) / 10 ^ 6)))"

fun paye_spec :: "(int \<times> int \<times> int) list \<Rightarrow> int \<Rightarrow> int" where
  "paye_spec [] t = 0"
| "paye_spec ((over, n, base) # bs) t =
     (if over \<le> t then half_up (of_int ((t - over) * n + base * 10 ^ 6) / 10 ^ 6)
      else paye_spec bs t)"

definition short_band :: "paye_band \<Rightarrow> int \<times> int \<times> int \<Rightarrow> bool" where
  "short_band b s \<longleftrightarrow> (case s of (over, n, base) \<Rightarrow>
     band_over b = cedi over \<and> \<bar>over\<bar> \<le> 10 ^ 12 \<and> short_rate (band_rate b) n \<and>
     band_base b = cedi base \<and> \<bar>base\<bar> \<le> 10 ^ 12)"

lemma div_le_div: "(of_int a :: rat) / 10 ^ k \<le> of_int b / 10 ^ k \<longleftrightarrow> a \<le> b"
  by (simp add: divide_le_cancel)

lemma min_div: "min ((of_int a :: rat) / 10 ^ k) (of_int b / 10 ^ k) = of_int (min a b) / 10 ^ k"
  by (simp add: min_def div_le_div del: divide_le_cancel)

lemma max_div_0: "max ((of_int a :: rat) / 10 ^ k) 0 = of_int (max a 0) / 10 ^ k"
  by (auto simp: max_def divide_le_0_iff dest: leD)

lemma pesewas_units: "(of_int c :: rat) / 100 = of_int (c * 10 ^ 6) / 10 ^ 8"
  by simp

lemma dmul_div:
  assumes "x = of_int a / 10 ^ i" "y = of_int b / 10 ^ j" "\<bar>a * b\<bar> \<le> 10 ^ 28"
  shows "dmul x y = of_int (a * b) / 10 ^ (i + j)"
  using dec28_div [OF assms(3), of "i + j"] by (simp add: dmul_def assms(1,2) power_add)

lemma dsub_div:
  assumes "x = of_int a / 10 ^ k" "y = of_int b / 10 ^ k" "\<bar>a - b\<bar> \<le> 10 ^ 28"
  shows "dsub x y = of_int (a - b) / 10 ^ k"
  using dec28_div [OF assms(3), of k] by (simp add: dsub_def assms(1,2) diff_divide_distrib)

lemma dadd_div:
  assumes "x = of_int a / 10 ^ k" "y = of_int b / 10 ^ k" "\<bar>a + b\<bar> \<le> 10 ^ 28"
  shows "dadd x y = of_int (a + b) / 10 ^ k"
  using dec28_div [OF assms(3), of k] by (simp add: dadd_def assms(1,2) add_divide_distrib)

lemma money_dec_div: "money_dec (of_int a / 10 ^ (k + 2)) = cedi (half_up (of_int a / 10 ^ k))"
  by (simp add: money_dec_cedi power_add)

lemma overtime_dec_exact:
  assumes ot: "\<bar>ot\<bar> \<le> 10 ^ 11" and basic: "0 \<le> basic" "basic \<le> 10 ^ 11"
    and rates: "short_rate (overtime_basic_threshold r) nt" "0 \<le> nt"
      "short_rate (overtime_rate_low r) nl" "short_rate (overtime_rate_high r) nh"
  shows "overtime_tax_dec r (of_int ot / 100) (of_int basic / 100) = cedi (overtime_spec ot basic nt nl nh)"
proof (cases "ot \<le> 0")
  case True
  then show ?thesis by (simp add: overtime_tax_dec_def overtime_spec_def divide_le_0_iff)
next
  case False
  let ?c = "basic * nt" and ?o = "ot * 10 ^ 6"
  note n = short_rate_bound [OF rates(1)] short_rate_bound [OF rates(3)] short_rate_bound [OF rates(4)]
  have c: "0 \<le> ?c" "\<bar>?c\<bar> \<le> 10 ^ 11 * 10 ^ 9"
    using basic rates(2) n(1) by (simp, intro abs_mult_le) auto
  have o: "0 \<le> ?o" "?o \<le> 10 ^ 17" using False ot by auto
  have cap: "dmul (of_int basic / 100) (D (overtime_basic_threshold r)) = of_int ?c / 10 ^ 8"
    using dmul_div [of "of_int basic / 100" basic 2 _ nt 6] c(2) D_short_rate [OF rates(1)] by simp
  have sub: "dsub (of_int ot / 100) (of_int ?c / 10 ^ 8) = of_int (?o - ?c) / 10 ^ 8"
    by (rule dsub_div [OF pesewas_units refl]) (use c o in \<open>simp; linarith\<close>)
  let ?l = "min ?o ?c" and ?h = "max (?o - ?c) 0"
  have lh: "\<bar>?l * nl\<bar> \<le> 10 ^ 17 * 10 ^ 9" "\<bar>?h * nh\<bar> \<le> 10 ^ 17 * 10 ^ 9"
    by (rule abs_mult_le; use c o n in linarith)+
  have low: "dmul (of_int ?l / 10 ^ 8) (D (overtime_rate_low r)) = of_int (?l * nl) / 10 ^ (8 + 6)"
    by (rule dmul_div [OF refl D_short_rate [OF rates(3)]]) (use lh in simp)
  have high: "dmul (of_int ?h / 10 ^ 8) (D (overtime_rate_high r)) = of_int (?h * nh) / 10 ^ (8 + 6)"
    by (rule dmul_div [OF refl D_short_rate [OF rates(4)]]) (use lh in simp)
  have "dadd (of_int (?l * nl) / 10 ^ (8 + 6)) (of_int (?h * nh) / 10 ^ (8 + 6))
      = of_int (?l * nl + ?h * nh) / 10 ^ (12 + 2)"
    using dadd_div [of _ "?l * nl" 14 _ "?h * nh"] lh by simp
  moreover have "\<not> (of_int ot :: rat) / 100 \<le> 0" using False by simp
  moreover have "min (of_int ot / 100) (of_int ?c / 10 ^ 8) = (of_int ?l :: rat) / 10 ^ 8"
    by (simp only: pesewas_units min_div)
  ultimately have "overtime_tax_dec r (of_int ot / 100) (of_int basic / 100) = money_dec (of_int (?l * nl + ?h * nh) / 10 ^ (12 + 2))"
    by (simp only: overtime_tax_dec_def Let_def if_False cap sub max_div_0 low high)
  with False show ?thesis by (simp only: money_dec_div overtime_spec_def if_False)
qed


lemma overtime_exact:
  assumes "\<bar>ot\<bar> \<le> 10 ^ 11" "0 \<le> basic" "basic \<le> 10 ^ 11"
    and "short_rate (overtime_basic_threshold r) nt" "0 \<le> nt"
      "short_rate (overtime_rate_low r) nl" "short_rate (overtime_rate_high r) nh"
  shows "compute_overtime_tax r (cedi ot) (cedi basic) = cedi (overtime_spec ot basic nt nl nh)"
proof -
  have "D (cedi ot) = of_int ot / 100" "D (cedi basic) = of_int basic / 100"
    by (rule D_cedi, use assms(1-3) in simp)+
  then show ?thesis using overtime_dec_exact [OF assms] by (simp only: compute_overtime_tax_def)
qed

lemma bonus_exact:
  assumes bonus: "\<bar>bonus\<bar> \<le> 10 ^ 11" and basic: "\<bar>basic\<bar> \<le> 10 ^ 11" and used: "\<bar>used\<bar> \<le> 10 ^ 11"
    and rates: "short_rate (bonus_annual_basic_threshold r) nb" "short_rate (bonus_rate r) nr"
  shows "split_bonus r (cedi bonus) (cedi basic) (cedi used) =
    map_prod cedi cedi (bonus_spec bonus basic used nb nr)"
proof (cases "bonus \<le> 0")
  case True
  have "D (cedi bonus) = of_int bonus / 100" using bonus by (intro D_cedi) simp
  with True show ?thesis by (simp add: split_bonus_def bonus_spec_def divide_le_0_iff)
next
  case False
  have d: "D (cedi bonus) = of_int bonus / 100" "D (cedi basic) = of_int basic / 100"
    "D (cedi used) = of_int used / 100"
    by (rule D_cedi, use assms(1-3) in simp)+
  note n = short_rate_bound [OF rates(1)] short_rate_bound [OF rates(2)]
  let ?c = "basic * 12 * nb" and ?u = "used * 10 ^ 6" and ?b = "bonus * 10 ^ 6"
  let ?rem = "max (?c - ?u) 0"
  have c: "\<bar>?c\<bar> \<le> (10 ^ 11 * 12) * 10 ^ 9"
    using basic n(1) by (intro abs_mult_le) auto
  have b: "0 \<le> ?b" "?b \<le> 10 ^ 17" using False bonus by auto
  have u: "\<bar>?u\<bar> \<le> 10 ^ 17" using used by (simp add: abs_mult)
  have "dmul (of_int basic / 100) 12 = of_int (basic * 12) / 10 ^ 2"
    using dmul_div [of "of_int basic / 100" basic 2 12 12 0] basic by (simp add: abs_mult)
  moreover have "dmul (of_int (basic * 12) / 10 ^ 2) (D (bonus_annual_basic_threshold r)) = of_int ?c / 10 ^ 8"
    using dmul_div [OF refl D_short_rate [OF rates(1)], of "basic * 12" 2] c by simp
  ultimately have cap: "dmul (dmul (of_int basic / 100) 12) (D (bonus_annual_basic_threshold r)) = of_int ?c / 10 ^ 8"
    by (simp only:)
  have "dsub (of_int ?c / 10 ^ 8) (of_int used / 100) = of_int (?c - ?u) / 10 ^ 8"
    by (rule dsub_div [OF refl pesewas_units]) (use c u in \<open>simp; linarith\<close>)
  then have rem: "max (dsub (of_int ?c / 10 ^ 8) (of_int used / 100)) 0 = of_int ?rem / 10 ^ 8"
    by (simp only: max_div_0)
  have "?rem \<le> 10 ^ 23" using c u by simp
  then have r: "0 \<le> ?rem" "?rem \<le> 10 ^ 23" by simp_all
  have "\<bar>min ?b ?rem * nr\<bar> \<le> 10 ^ 17 * 10 ^ 9" by (rule abs_mult_le) (use b r n in linarith)+
  then have con: "dmul (of_int (min ?b ?rem) / 10 ^ 8) (D (bonus_rate r)) = of_int (min ?b ?rem * nr) / 10 ^ (12 + 2)"
    using dmul_div [OF refl D_short_rate [OF rates(2)], of "min ?b ?rem" 8] by simp
  have "dsub (of_int bonus / 100) (of_int ?rem / 10 ^ 8) = of_int (?b - ?rem) / 10 ^ 8"
    by (rule dsub_div [OF pesewas_units refl]) (use b r in \<open>simp; linarith\<close>)
  then have exc: "max (dsub (of_int bonus / 100) (of_int ?rem / 10 ^ 8)) 0 = of_int (max (?b - ?rem) 0) / 10 ^ (6 + 2)"
    by (simp add: max_div_0 del: of_int_diff of_int_max)
  have mn: "min (of_int bonus / 100) (of_int ?rem / 10 ^ 8) = (of_int (min ?b ?rem) :: rat) / 10 ^ 8"
    by (simp only: pesewas_units min_div)
  have "\<not> (of_int bonus :: rat) / 100 \<le> 0" using False by simp
  then have "split_bonus r (cedi bonus) (cedi basic) (cedi used)
    = (money_dec (of_int (min ?b ?rem * nr) / 10 ^ (12 + 2)), money_dec (of_int (max (?b - ?rem) 0) / 10 ^ (6 + 2)))"
    by (simp only: split_bonus_def d Let_def if_False cap rem mn con exc)
  with False show ?thesis by (simp only: money_dec_div bonus_spec_def if_False Let_def map_prod_simp)
qed

lemma paye_exact:
  assumes "list_all2 short_band bs ss" and t: "\<bar>t\<bar> \<le> 10 ^ 12"
  shows "paye_over_bands bs (of_int t / 100) = cedi (paye_spec ss t)"
  using assms(1)
proof (induction rule: list_all2_induct)
  case Nil
  then show ?case by simp
next
  case (Cons b bs s ss)
  obtain over n base where s: "s = (over, n, base)" by (cases s)
  with Cons.hyps have band: "band_over b = cedi over" "\<bar>over\<bar> \<le> 10 ^ 12" "short_rate (band_rate b) n"
    "band_base b = cedi base" "\<bar>base\<bar> \<le> 10 ^ 12" by (auto simp: short_band_def)
  have d: "D (band_over b) = of_int over / 100" "D (band_base b) = of_int (base * 10 ^ 6) / 10 ^ 8"
    unfolding band(1,4) pesewas_units [symmetric] by (rule D_cedi, use band(2,5) in simp)+
  have le: "(of_int over :: rat) / 100 \<le> of_int t / 100 \<longleftrightarrow> over \<le> t" by (simp add: divide_le_cancel)
  have "dsub (of_int t / 100) (of_int over / 100) = of_int (t - over) / 10 ^ 2"
    using dsub_div [of "of_int t / 100" t 2 _ over] t band(2) by simp
  moreover have m: "\<bar>(t - over) * n\<bar> \<le> (2 * 10 ^ 12) * 10 ^ 9"
    using t band(2) short_rate_bound [OF band(3)] by (intro abs_mult_le) auto
  then have "dmul (of_int (t - over) / 10 ^ 2) (D (band_rate b)) = of_int ((t - over) * n) / 10 ^ 8"
    using dmul_div [OF refl D_short_rate [OF band(3)], of "t - over" 2] by simp
  moreover have "dadd (of_int ((t - over) * n) / 10 ^ 8) (of_int (base * 10 ^ 6) / 10 ^ 8)
      = of_int ((t - over) * n + base * 10 ^ 6) / 10 ^ (6 + 2)"
    using dadd_div [OF refl refl, of "(t - over) * n" "base * 10 ^ 6" 8] m band(5) by simp
  ultimately show ?case using Cons.IH by (simp only: s paye_over_bands.simps paye_spec.simps d le money_dec_div split: if_split) simp
qed

lemma compute_paye_exact:
  assumes "list_all2 short_band (paye_bands r) ss" "\<bar>t\<bar> \<le> 10 ^ 12"
  shows "compute_paye r (cedi t) = cedi (paye_spec ss t)"
proof -
  have "D (cedi t) = of_int t / 100" using assms(2) by (intro D_cedi) simp
  then show ?thesis using paye_exact [OF assms] by (simp only: compute_paye_def)
qed


subsection \<open>Well-formed band tables\<close>

text \<open>
  A band table is coherent when thresholds strictly descend, no rate or base is negative,
  and the base of each band is at least the tax the next lower band charges at its
  threshold.  Marginal tax is then monotone: more taxable income never means less tax.
\<close>

definition tax_in_band :: "int \<times> int \<times> int \<Rightarrow> int \<Rightarrow> int" where
  "tax_in_band b t = (case b of (over, n, base) \<Rightarrow>
     half_up (of_int ((t - over) * n + base * 10 ^ 6) / 10 ^ 6))"

fun bands_ok :: "(int \<times> int \<times> int) list \<Rightarrow> bool" where
  "bands_ok [] = True"
| "bands_ok ((over, n, base) # bs) =
     (0 \<le> n \<and> 0 \<le> base \<and> bands_ok bs \<and>
      (case bs of [] \<Rightarrow> True | b # _ \<Rightarrow> fst b < over \<and> tax_in_band b over \<le> base))"

lemma tax_in_band_mono: "0 \<le> n \<Longrightarrow> t \<le> t' \<Longrightarrow> tax_in_band (over, n, base) t \<le> tax_in_band (over, n, base) t'"
  unfolding tax_in_band_def
  by (auto intro!: half_up_mono divide_right_mono mult_right_mono simp del: of_int_add of_int_mult)

lemma tax_in_band_base: "tax_in_band (over, n, base) over = base"
  by (simp add: tax_in_band_def)

lemma paye_spec_Cons: "paye_spec (b # bs) t = (if fst b \<le> t then tax_in_band b t else paye_spec bs t)"
  by (cases b) (simp add: tax_in_band_def)

lemma paye_spec_below: "bands_ok ((over, n, base) # bs) \<Longrightarrow> t < over \<Longrightarrow> paye_spec bs t \<le> base"
proof (induction bs arbitrary: over n base)
  case Nil
  then show ?case by simp
next
  case (Cons b bs)
  obtain over' n' base' where b: "b = (over', n', base')" by (cases b)
  with Cons.prems have ok: "bands_ok (b # bs)" "0 \<le> n'" "over' < over" "tax_in_band b over \<le> base"
    by auto
  have "tax_in_band b over' \<le> tax_in_band b over" unfolding b using ok by (intro tax_in_band_mono) auto
  then have "base' \<le> base" using ok(4) by (simp add: b tax_in_band_base)
  moreover have "t < over' \<Longrightarrow> paye_spec bs t \<le> base'" using Cons.IH [of over' n' base'] ok(1) b by simp
  moreover have "tax_in_band b t \<le> tax_in_band b over" unfolding b using ok Cons.prems by (intro tax_in_band_mono) auto
  ultimately show ?case using ok(4) b by (auto simp: paye_spec_Cons not_le)
qed

lemma paye_spec_mono: "bands_ok bs \<Longrightarrow> t \<le> t' \<Longrightarrow> paye_spec bs t \<le> paye_spec bs t'"
proof (induction bs)
  case Nil
  then show ?case by simp
next
  case (Cons b bs)
  obtain over n base where b: "b = (over, n, base)" by (cases b)
  with Cons.prems have n: "0 \<le> n" and ok: "bands_ok bs" by auto
  have "t < over \<Longrightarrow> over \<le> t' \<Longrightarrow> paye_spec bs t \<le> tax_in_band b t'"
    using paye_spec_below [of over n base bs t] tax_in_band_mono [OF n, of over t' over base] Cons.prems
    by (simp add: b tax_in_band_base)
  moreover have "tax_in_band b t \<le> tax_in_band b t'" unfolding b using n Cons.prems by (intro tax_in_band_mono)
  ultimately show ?case using Cons.IH [OF ok] Cons.prems(2) by (auto simp: paye_spec_Cons b)
qed

lemma paye_spec_nonneg: "bands_ok bs \<Longrightarrow> 0 \<le> paye_spec bs t"
proof (induction bs)
  case Nil
  then show ?case by simp
next
  case (Cons b bs)
  obtain over n base where b: "b = (over, n, base)" by (cases b)
  with Cons.prems have n: "0 \<le> n" "0 \<le> base" and ok: "bands_ok bs" by auto
  have "over \<le> t \<Longrightarrow> base \<le> tax_in_band b t"
    using tax_in_band_mono [OF n(1), of over t over base] by (simp add: b tax_in_band_base)
  then show ?case using Cons.IH [OF ok] n by (auto simp: paye_spec_Cons b)
qed

subsection \<open>The seeded tables\<close>

text \<open>The two band tables of \<open>app/seed.py\<close>; each number is the float its literal denotes.\<close>

definition lit_band :: "rat \<Rightarrow> rat \<Rightarrow> rat \<Rightarrow> paye_band" where
  "lit_band over rate base = \<lparr>band_over = fl over, band_rate = fl rate, band_base = fl base\<rparr>"

definition HISTORICAL_PAYE_BANDS :: "paye_band list" where
  "HISTORICAL_PAYE_BANDS =
     [lit_band (5041667/100) (35/100) (1372867/100),
      lit_band (1989667/100) (30/100) (457267/100),
      lit_band (389667/100) (25/100) (57267/100),
      lit_band 730 (175/1000) (185/10),
      lit_band 600 (10/100) (55/10),
      lit_band 490 (5/100) 0]"

definition PAYE_BANDS_2026 :: "paye_band list" where
  "PAYE_BANDS_2026 =
     [lit_band 50000 (35/100) (1362110/100),
      lit_band 19668 (30/100) (452150/100),
      lit_band 3668 (25/100) (52150/100),
      lit_band 768 (175/1000) 14,
      lit_band 668 (10/100) 4,
      lit_band 588 (5/100) 0]"

definition historical_bands_spec :: "(int \<times> int \<times> int) list" where
  "historical_bands_spec =
     [(5041667, 350000, 1372867), (1989667, 300000, 457267), (389667, 250000, 57267),
      (73000, 175000, 1850), (60000, 100000, 550), (49000, 50000, 0)]"

definition bands_2026_spec :: "(int \<times> int \<times> int) list" where
  "bands_2026_spec =
     [(5000000, 350000, 1362110), (1966800, 300000, 452150), (366800, 250000, 52150),
      (76800, 175000, 1400), (66800, 100000, 400), (58800, 50000, 0)]"

lemma short_lit_band:
  assumes "over = of_int o' / 100" "rate = of_int n / 10 ^ 6" "base = of_int b / 100"
    and "\<bar>o'\<bar> \<le> 10 ^ 12" "\<bar>n\<bar> \<le> 10 ^ 9" "\<bar>b\<bar> \<le> 10 ^ 12"
  shows "short_band (lit_band over rate base) (o', n, b)"
  using assms by (simp only: short_band_def lit_band_def short_rate_def cedi_def paye_band.simps prod.case simp_thms)

lemma historical_bands_short: "list_all2 short_band HISTORICAL_PAYE_BANDS historical_bands_spec"
  unfolding HISTORICAL_PAYE_BANDS_def historical_bands_spec_def
  by (simp only: list_all2_Cons list_all2_Nil simp_thms) (intro conjI short_lit_band; simp)

lemma bands_2026_short: "list_all2 short_band PAYE_BANDS_2026 bands_2026_spec"
  unfolding PAYE_BANDS_2026_def bands_2026_spec_def
  by (simp only: list_all2_Cons list_all2_Nil simp_thms) (intro conjI short_lit_band; simp)

lemma seeded_bands_ok: "bands_ok historical_bands_spec" "bands_ok bands_2026_spec"
  by (simp_all add: historical_bands_spec_def bands_2026_spec_def tax_in_band_def half_up_def floor_divide_of_int_eq)

end
