(* ===== verification/Deductions.thy ===== *)
theory Deductions
  imports Rates
begin

text \<open>
  \<open>app/payroll_calculations/deductions.py\<close>: the evidence-based deduction policy shared by
  the three payroll engines.  \<open>deduction_adjustments\<close> is composed of its four blocks in
  the order of the source (pension, provident fund, relief, overtime); each block takes
  the adjustments built so far and either raises \<open>DeductionPolicyError\<close> (an \<open>Inl\<close>) or
  returns them extended.  Messages are constructors that carry the figures the source
  formats into the text.
\<close>

subsection \<open>Inputs\<close>

record deduction_context =
  ctx_period :: "pydate option"
  is_junior :: "bool option"
  qualifying_annual_income :: "rat option"
  income_year :: "int option"
  pf_scheme_approved :: bool
  pf_scheme_reference :: string
  relief_approval_ref :: string
  relief_valid_from :: "pydate option"
  relief_valid_to :: "pydate option"
  approved_relief_monthly :: rat

definition DeductionContext :: "pydate option \<Rightarrow> deduction_context" where
  "DeductionContext period =
     \<lparr>ctx_period = period, is_junior = None, qualifying_annual_income = None, income_year = None,
      pf_scheme_approved = False, pf_scheme_reference = [], relief_approval_ref = [],
      relief_valid_from = None, relief_valid_to = None, approved_relief_monthly = 0\<rparr>"

record relief_award =
  award_id :: "int option"
  award_reference :: "string option"
  award_valid_from :: pydate
  award_valid_to :: pydate
  award_monthly_amount :: "rat option"

record employee =
  emp_id :: int
  emp_staff_id :: string
  emp_basic_salary :: "rat option"
  emp_tax_relief_monthly :: "rat option"
  emp_overtime_is_junior :: "bool option"
  emp_overtime_qualifying_annual_income :: "rat option"
  emp_overtime_income_year :: "int option"
  emp_pf_scheme_approved :: "bool option"
  emp_pf_scheme_reference :: "string option"
  emp_tax_relief_approvals :: "relief_award list"
  emp_tax_relief_approval_ref :: "string option"
  emp_tax_relief_valid_from :: "pydate option"
  emp_tax_relief_valid_to :: "pydate option"

definition num_or_0 :: "rat option \<Rightarrow> rat" where
  "num_or_0 x = (case x of None \<Rightarrow> 0 | Some v \<Rightarrow> v)"

definition context_for_employee :: "employee option \<Rightarrow> pydate \<Rightarrow> deduction_context" where
  "context_for_employee employee on_date =
     (let context = DeductionContext (Some on_date) in
      case employee of None \<Rightarrow> context
      | Some e \<Rightarrow>
        let context = context
              \<lparr>is_junior := emp_overtime_is_junior e,
               qualifying_annual_income := emp_overtime_qualifying_annual_income e,
               income_year := emp_overtime_income_year e,
               pf_scheme_approved := (emp_pf_scheme_approved e = Some True),
               pf_scheme_reference := text_or (emp_pf_scheme_reference e) []\<rparr>;
            awards = filter (\<lambda>a. award_valid_from a \<le> on_date \<and> on_date \<le> award_valid_to a)
                       (emp_tax_relief_approvals e)
        in case max_row (\<lambda>a. case award_id a of None \<Rightarrow> 0 | Some i \<Rightarrow> i) awards of
             Some award \<Rightarrow> context
               \<lparr>relief_approval_ref := text_or (award_reference award) [],
                relief_valid_from := Some (award_valid_from award),
                relief_valid_to := Some (award_valid_to award),
                approved_relief_monthly := num_or_0 (award_monthly_amount award)\<rparr>
           | None \<Rightarrow>
               if emp_tax_relief_approvals e = []
               then context
                 \<lparr>relief_approval_ref := text_or (emp_tax_relief_approval_ref e) [],
                  relief_valid_from := emp_tax_relief_valid_from e,
                  relief_valid_to := emp_tax_relief_valid_to e,
                  approved_relief_monthly := num_or_0 (emp_tax_relief_monthly e)\<rparr>
               else context)"

subsection \<open>Results, errors and warnings\<close>

datatype deduction_warning =
    Pension_rounding rat rat
  | Pf_scheme_missing
  | Pf_over_exemption
  | Relief_not_applied
  | Overtime_in_ordinary_paye

datatype deduction_error =
    Invalid_amount string
  | Limits_year_unconfirmed int
  | Basic_outside_range rat rat rat
  | Pension_split_unverified
  | Remittance_below_minimum rat
  | Employer_pf_without_scheme
  | Pf_over_combined_exemption

record adjustments =
  adj_ssnit :: rat
  adj_ssf_employer :: rat
  adj_pensionable_salary :: rat
  adj_ssnit_remittance :: rat
  adj_tier_2_remittance :: rat
  adj_pf_allowable_employee :: rat
  adj_pf_employer_taxable :: rat
  adj_tax_relief_applied :: rat
  adj_overtime_tax :: rat
  adj_overtime_ordinary_pay :: rat
  adj_warnings :: "deduction_warning list"

definition DeductionAdjustments :: "rat \<Rightarrow> adjustments" where
  "DeductionAdjustments pensionable =
     \<lparr>adj_ssnit = 0, adj_ssf_employer = 0, adj_pensionable_salary = pensionable,
      adj_ssnit_remittance = 0, adj_tier_2_remittance = 0, adj_pf_allowable_employee = 0,
      adj_pf_employer_taxable = 0, adj_tax_relief_applied = 0, adj_overtime_tax = 0,
      adj_overtime_ordinary_pay = 0, adj_warnings = []\<rparr>"

definition warn :: "deduction_warning \<Rightarrow> adjustments \<Rightarrow> adjustments" where
  "warn w a = a\<lparr>adj_warnings := adj_warnings a @ [w]\<rparr>"

definition amount :: "rat \<Rightarrow> string \<Rightarrow> deduction_error + rat" where
  "amount value label = (let result = D value in if result < 0 then raise (Invalid_amount label) else return result)"

text \<open>\<open>D(getattr(rate, name, None) or default)\<close>: a zero column falls back to the literal.\<close>

definition D_or :: "rat \<Rightarrow> rat \<Rightarrow> rat" where
  "D_or value dflt = (if value = 0 then dflt else D value)"

subsection \<open>The four blocks\<close>

definition strict_policy :: "statutory_rate \<Rightarrow> bool" where
  "strict_policy r \<longleftrightarrow> 1 \<le> deductions_policy_version r"

definition historical_adjustments :: "statutory_rate \<Rightarrow> rat \<Rightarrow> rat \<Rightarrow> rat \<Rightarrow> rat \<Rightarrow> adjustments" where
  "historical_adjustments r basic overtime employee_pf requested =
     (DeductionAdjustments (money_dec basic))
       \<lparr>adj_ssnit := money_dec (dmul basic (D (ssf_employee_rate r))),
        adj_ssf_employer := money_dec (dmul basic (D (ssf_employer_rate r))),
        adj_pf_allowable_employee := money_dec employee_pf,
        adj_tax_relief_applied := money_dec requested,
        adj_overtime_tax := overtime_tax_dec r overtime basic\<rparr>"

definition pension_block ::
  "statutory_rate \<Rightarrow> pydate \<Rightarrow> rat \<Rightarrow> adjustments \<Rightarrow> deduction_error + adjustments" where
  "pension_block r period basic a =
     (if \<not> 0 < basic then return a
      else
        let minimum = D_or (ssnit_min_insurable r) (58780/100);
            maximum = D_or (ssnit_max_insurable r) 69000;
            limits_year = (if ssnit_limits_year r = 0 then 2026 else ssnit_limits_year r)
        in if yr period \<noteq> limits_year then raise (Limits_year_unconfirmed limits_year)
           else if basic < minimum \<or> maximum < basic
           then raise (Basic_outside_range (money_dec basic) (money_dec minimum) (money_dec maximum))
           else if D (ssf_employee_rate r) \<noteq> 55/1000 \<or> D (ssf_employer_rate r) \<noteq> 13/100
           then raise Pension_split_unverified
           else
             let ssnit = money_dec (dmul basic (D (ssf_employee_rate r)));
                 ssf_employer = money_dec (dmul basic (D (ssf_employer_rate r)));
                 ssnit_remittance = money_dec (dmul basic (135/1000));
                 tier_2_remittance = money_dec (dmul basic (5/100));
                 minimum_remit = D_or (ssnit_min_monthly_remittance r) (7940/100)
             in if D ssnit_remittance < minimum_remit
                then raise (Remittance_below_minimum (money_dec minimum_remit))
                else
                  let contribution_total = money_dec (dadd (D ssnit) (D ssf_employer));
                      remittance_total = money_dec (dadd (D ssnit_remittance) (D tier_2_remittance));
                      a = a\<lparr>adj_ssnit := ssnit, adj_ssf_employer := ssf_employer,
                            adj_ssnit_remittance := ssnit_remittance,
                            adj_tier_2_remittance := tier_2_remittance\<rparr>
                  in return (if contribution_total \<noteq> remittance_total
                             then warn (Pension_rounding contribution_total remittance_total) a
                             else a))"

definition pf_block ::
  "statutory_rate \<Rightarrow> deduction_context \<Rightarrow> rat \<Rightarrow> rat \<Rightarrow> rat \<Rightarrow> adjustments \<Rightarrow> deduction_error + adjustments" where
  "pf_block r context basic employee_pf employer_pf a =
     (if employee_pf = 0 \<and> employer_pf = 0 then return a
      else
        let documented_scheme = (pf_scheme_approved context \<and> strip (pf_scheme_reference context) \<noteq> [])
        in if \<not> documented_scheme
           then if employer_pf \<noteq> 0 then raise Employer_pf_without_scheme
                else return (warn Pf_scheme_missing a)
           else
             let cap = dmul basic (D_or (provident_fund_tax_limit r) (165/1000))
             in if employer_pf \<noteq> 0 \<and> cap < dadd employee_pf employer_pf
                then raise Pf_over_combined_exemption
                else
                  let a = a\<lparr>adj_pf_allowable_employee :=
                              money_dec (min employee_pf (max 0 (dsub cap employer_pf)))\<rparr>
                  in return (if cap < employee_pf \<and> employer_pf = 0 then warn Pf_over_exemption a else a))"

definition relief_block ::
  "pydate \<Rightarrow> deduction_context \<Rightarrow> rat \<Rightarrow> adjustments \<Rightarrow> deduction_error + adjustments" where
  "relief_block period context requested a =
     bind_result (amount (approved_relief_monthly context) ''Approved tax relief'') (\<lambda>approved.
       let valid_award =
             (strip (relief_approval_ref context) \<noteq> [] \<and>
              (case (relief_valid_from context, relief_valid_to context) of
                 (Some f, Some t) \<Rightarrow> f \<le> period \<and> period \<le> t
               | _ \<Rightarrow> False))
       in return (if valid_award then a\<lparr>adj_tax_relief_applied := money_dec approved\<rparr>
                  else if approved \<noteq> 0 \<or> requested \<noteq> 0 then warn Relief_not_applied a
                  else a))"

definition overtime_qualifies :: "statutory_rate \<Rightarrow> pydate \<Rightarrow> deduction_context \<Rightarrow> bool" where
  "overtime_qualifies r period context \<longleftrightarrow>
     is_junior context = Some True \<and>
     (case qualifying_annual_income context of None \<Rightarrow> False
      | Some annual \<Rightarrow> 0 \<le> annual \<and> income_year context = Some (yr period) \<and>
          D annual \<le> D_or (overtime_qualifying_annual_limit r) 18000)"

definition overtime_block ::
  "statutory_rate \<Rightarrow> pydate \<Rightarrow> deduction_context \<Rightarrow> rat \<Rightarrow> rat \<Rightarrow> adjustments \<Rightarrow> adjustments" where
  "overtime_block r period context basic overtime a =
     (if overtime = 0 then a
      else if overtime_qualifies r period context
      then a\<lparr>adj_overtime_tax := overtime_tax_dec r overtime basic\<rparr>
      else warn Overtime_in_ordinary_paye (a\<lparr>adj_overtime_ordinary_pay := money_dec overtime\<rparr>))"

definition deduction_adjustments ::
  "statutory_rate \<Rightarrow> rat \<Rightarrow> rat \<Rightarrow> rat \<Rightarrow> rat \<Rightarrow> rat \<Rightarrow> deduction_context option
    \<Rightarrow> deduction_error + adjustments" where
  "deduction_adjustments r basic_salary overtime_pay provident_fund employer_provident_fund
      requested_relief context =
     bind_result (amount basic_salary ''Basic salary'') (\<lambda>basic.
     bind_result (amount overtime_pay ''Overtime'') (\<lambda>overtime.
     bind_result (amount provident_fund ''Employee provident fund'') (\<lambda>employee_pf.
     bind_result (amount employer_provident_fund ''Employer provident fund'') (\<lambda>employer_pf.
     bind_result (amount requested_relief ''Tax relief'') (\<lambda>requested.
       if \<not> strict_policy r
       then return (historical_adjustments r basic overtime employee_pf requested)
       else
         let context = (case context of None \<Rightarrow> DeductionContext None | Some c \<Rightarrow> c);
             period = (case ctx_period context of None \<Rightarrow> effective_from r | Some p \<Rightarrow> p)
         in bind_result (pension_block r period basic (DeductionAdjustments (money_dec basic))) (\<lambda>a.
            bind_result (pf_block r context basic employee_pf employer_pf a) (\<lambda>a.
            bind_result (relief_block period context requested a) (\<lambda>a.
              return (overtime_block r period context basic overtime a)))))))))"


subsection \<open>What each block may change\<close>

named_theorems block_defs "the blocks of the deduction policy, unfolded"

lemmas [block_defs] = pension_block_def pf_block_def relief_block_def overtime_block_def
  historical_adjustments_def DeductionAdjustments_def warn_def amount_def Let_def

lemma amount_Inr: "amount v l = Inr d \<longleftrightarrow> d = D v \<and> 0 \<le> D v"
  by (auto simp: amount_def Let_def)

lemma amount_Inl: "amount v l = Inl e \<longleftrightarrow> e = Invalid_amount l \<and> D v < 0"
  by (auto simp: amount_def Let_def)

lemma pension_block_frame:
  assumes "pension_block r p b a = Inr a'"
  shows "adj_tax_relief_applied a' = adj_tax_relief_applied a"
    "adj_overtime_tax a' = adj_overtime_tax a"
    "adj_overtime_ordinary_pay a' = adj_overtime_ordinary_pay a"
    "adj_pf_allowable_employee a' = adj_pf_allowable_employee a"
    "adj_pf_employer_taxable a' = adj_pf_employer_taxable a"
    "adj_pensionable_salary a' = adj_pensionable_salary a"
  using assms by (auto simp: block_defs split: if_splits)

lemma pf_block_frame:
  assumes "pf_block r c b e q a = Inr a'"
  shows "adj_tax_relief_applied a' = adj_tax_relief_applied a"
    "adj_overtime_tax a' = adj_overtime_tax a"
    "adj_overtime_ordinary_pay a' = adj_overtime_ordinary_pay a"
    "adj_ssnit a' = adj_ssnit a" "adj_ssf_employer a' = adj_ssf_employer a"
    "adj_ssnit_remittance a' = adj_ssnit_remittance a"
    "adj_tier_2_remittance a' = adj_tier_2_remittance a"
    "adj_pf_employer_taxable a' = adj_pf_employer_taxable a"
    "adj_pensionable_salary a' = adj_pensionable_salary a"
  using assms by (auto simp: block_defs split: if_splits)

lemma relief_block_frame:
  assumes "relief_block p c q a = Inr a'"
  shows "adj_overtime_tax a' = adj_overtime_tax a"
    "adj_overtime_ordinary_pay a' = adj_overtime_ordinary_pay a"
    "adj_ssnit a' = adj_ssnit a" "adj_ssf_employer a' = adj_ssf_employer a"
    "adj_ssnit_remittance a' = adj_ssnit_remittance a"
    "adj_tier_2_remittance a' = adj_tier_2_remittance a"
    "adj_pf_allowable_employee a' = adj_pf_allowable_employee a"
    "adj_pf_employer_taxable a' = adj_pf_employer_taxable a"
    "adj_pensionable_salary a' = adj_pensionable_salary a"
  using assms by (auto simp: relief_block_def warn_def Let_def bind_result_Inr_iff split: if_splits)

lemma overtime_block_frame:
  "adj_ssnit (overtime_block r p c b ot a) = adj_ssnit a"
  "adj_ssf_employer (overtime_block r p c b ot a) = adj_ssf_employer a"
  "adj_ssnit_remittance (overtime_block r p c b ot a) = adj_ssnit_remittance a"
  "adj_tier_2_remittance (overtime_block r p c b ot a) = adj_tier_2_remittance a"
  "adj_pf_allowable_employee (overtime_block r p c b ot a) = adj_pf_allowable_employee a"
  "adj_pf_employer_taxable (overtime_block r p c b ot a) = adj_pf_employer_taxable a"
  "adj_tax_relief_applied (overtime_block r p c b ot a) = adj_tax_relief_applied a"
  "adj_pensionable_salary (overtime_block r p c b ot a) = adj_pensionable_salary a"
  by (simp_all add: overtime_block_def warn_def)

text \<open>The effective context and period a strict calculation works with.\<close>

definition ctx_or_default :: "deduction_context option \<Rightarrow> deduction_context" where
  "ctx_or_default context = (case context of None \<Rightarrow> DeductionContext None | Some c \<Rightarrow> c)"

definition period_of :: "statutory_rate \<Rightarrow> deduction_context option \<Rightarrow> pydate" where
  "period_of r context =
     (case ctx_period (ctx_or_default context) of None \<Rightarrow> effective_from r | Some p \<Rightarrow> p)"

lemma strict_adjustmentsE:
  assumes "deduction_adjustments r basic ot pf epf rel context = Inr a" and "strict_policy r"
  obtains a1 a2 a3 where
    "0 \<le> D basic" "0 \<le> D ot" "0 \<le> D pf" "0 \<le> D epf" "0 \<le> D rel"
    "pension_block r (period_of r context) (D basic) (DeductionAdjustments (money_dec (D basic))) = Inr a1"
    "pf_block r (ctx_or_default context) (D basic) (D pf) (D epf) a1 = Inr a2"
    "relief_block (period_of r context) (ctx_or_default context) (D rel) a2 = Inr a3"
    "a = overtime_block r (period_of r context) (ctx_or_default context) (D basic) (D ot) a3"
  using assms
  by (auto simp: deduction_adjustments_def bind_result_Inr_iff amount_Inr Let_def
      ctx_or_default_def [symmetric] period_of_def [symmetric])

lemma historical_adjustmentsE:
  assumes "\<not> strict_policy r"
  shows "deduction_adjustments r basic ot pf epf rel context = Inr a \<longleftrightarrow>
    0 \<le> D basic \<and> 0 \<le> D ot \<and> 0 \<le> D pf \<and> 0 \<le> D epf \<and> 0 \<le> D rel \<and>
    a = historical_adjustments r (D basic) (D ot) (D pf) (D rel)"
  using assms by (auto simp: deduction_adjustments_def bind_result_Inr_iff amount_Inr)

subsection \<open>Concessions need evidence\<close>

definition relief_evidenced :: "pydate \<Rightarrow> deduction_context \<Rightarrow> bool" where
  "relief_evidenced period c \<longleftrightarrow>
     strip (relief_approval_ref c) \<noteq> [] \<and>
     (\<exists>f t. relief_valid_from c = Some f \<and> relief_valid_to c = Some t \<and> f \<le> period \<and> period \<le> t)"

definition pf_evidenced :: "deduction_context \<Rightarrow> bool" where
  "pf_evidenced c \<longleftrightarrow> pf_scheme_approved c \<and> strip (pf_scheme_reference c) \<noteq> []"

lemma relief_block_evidence:
  assumes "relief_block p c q a = Inr a'" "adj_tax_relief_applied a = 0" "adj_tax_relief_applied a' \<noteq> 0"
  shows "relief_evidenced p c \<and> adj_tax_relief_applied a' = money_dec (D (approved_relief_monthly c))"
  using assms
  by (auto simp: relief_block_def relief_evidenced_def warn_def bind_result_Inr_iff amount_Inr
      split: if_splits option.splits)

lemma pf_block_evidence:
  assumes "pf_block r c b e q a = Inr a'" "adj_pf_allowable_employee a = 0" "adj_pf_allowable_employee a' \<noteq> 0"
  shows "pf_evidenced c \<and> adj_pf_allowable_employee a' =
     money_dec (min e (max 0 (dsub (dmul b (D_or (provident_fund_tax_limit r) (165/1000))) q)))"
  using assms by (auto simp: pf_block_def pf_evidenced_def warn_def Let_def split: if_splits)

lemma overtime_block_evidence:
  assumes "adj_overtime_tax a = 0" "adj_overtime_tax (overtime_block r p c b ot a) \<noteq> 0"
  shows "overtime_qualifies r p c"
  using assms by (auto simp: overtime_block_def warn_def split: if_splits)

lemma DeductionAdjustments_zero:
  "adj_tax_relief_applied (DeductionAdjustments s) = 0"
  "adj_overtime_tax (DeductionAdjustments s) = 0"
  "adj_overtime_ordinary_pay (DeductionAdjustments s) = 0"
  "adj_pf_allowable_employee (DeductionAdjustments s) = 0"
  "adj_pf_employer_taxable (DeductionAdjustments s) = 0"
  "adj_ssnit (DeductionAdjustments s) = 0" "adj_ssf_employer (DeductionAdjustments s) = 0"
  "adj_pensionable_salary (DeductionAdjustments s) = s"
  by (simp_all add: DeductionAdjustments_def)

lemmas adj_frames = pension_block_frame pf_block_frame relief_block_frame overtime_block_frame
  DeductionAdjustments_zero

lemma strict_concessions:
  assumes "deduction_adjustments r basic ot pf epf rel context = Inr a" and "strict_policy r"
  shows "adj_tax_relief_applied a \<noteq> 0 \<Longrightarrow> relief_evidenced (period_of r context) (ctx_or_default context)"
    "adj_pf_allowable_employee a \<noteq> 0 \<Longrightarrow> pf_evidenced (ctx_or_default context)"
    "adj_overtime_tax a \<noteq> 0 \<Longrightarrow> overtime_qualifies r (period_of r context) (ctx_or_default context)"
    "adj_pf_employer_taxable a = 0"
    "adj_pensionable_salary a = money_dec (D basic)"
    "adj_tax_relief_applied a \<noteq> 0 \<Longrightarrow>
       adj_tax_relief_applied a = money_dec (D (approved_relief_monthly (ctx_or_default context)))"
proof -
  from strict_adjustmentsE [OF assms] obtain a1 a2 a3 where
    b: "pension_block r (period_of r context) (D basic) (DeductionAdjustments (money_dec (D basic))) = Inr a1"
    "pf_block r (ctx_or_default context) (D basic) (D pf) (D epf) a1 = Inr a2"
    "relief_block (period_of r context) (ctx_or_default context) (D rel) a2 = Inr a3"
    and a: "a = overtime_block r (period_of r context) (ctx_or_default context) (D basic) (D ot) a3" .
  have z: "adj_pf_allowable_employee a1 = 0" "adj_tax_relief_applied a2 = 0" "adj_overtime_tax a3 = 0"
    by (simp_all only: pension_block_frame [OF b(1)] pf_block_frame [OF b(2)] relief_block_frame [OF b(3)]
        DeductionAdjustments_zero)
  have e: "adj_tax_relief_applied a = adj_tax_relief_applied a3"
    "adj_pf_allowable_employee a = adj_pf_allowable_employee a2"
    by (simp_all only: a overtime_block_frame relief_block_frame [OF b(3)])
  show "adj_tax_relief_applied a \<noteq> 0 \<Longrightarrow> relief_evidenced (period_of r context) (ctx_or_default context)"
    "adj_tax_relief_applied a \<noteq> 0 \<Longrightarrow>
       adj_tax_relief_applied a = money_dec (D (approved_relief_monthly (ctx_or_default context)))"
    unfolding e using relief_block_evidence [OF b(3) z(2)] by blast+
  show "adj_pf_allowable_employee a \<noteq> 0 \<Longrightarrow> pf_evidenced (ctx_or_default context)"
    unfolding e using pf_block_evidence [OF b(2) z(1)] by blast
  show "adj_overtime_tax a \<noteq> 0 \<Longrightarrow> overtime_qualifies r (period_of r context) (ctx_or_default context)"
    unfolding a using overtime_block_evidence [OF z(3)] by blast
  show "adj_pf_employer_taxable a = 0" "adj_pensionable_salary a = money_dec (D basic)"
    by (simp_all only: a overtime_block_frame relief_block_frame [OF b(3)] pf_block_frame [OF b(2)]
        pension_block_frame [OF b(1)] DeductionAdjustments_zero)
qed

lemma money_dec_nonneg: "0 \<le> d \<Longrightarrow> 0 \<le> money_dec d"
  by (simp add: money_dec_cedi half_up_nonneg)

lemma relief_nonneg:
  assumes "deduction_adjustments r basic ot pf epf rel context = Inr a"
  shows "0 \<le> adj_tax_relief_applied a"
proof (cases "strict_policy r")
  case True
  from strict_adjustmentsE [OF assms True] obtain a1 a2 a3 where
    b: "pension_block r (period_of r context) (D basic) (DeductionAdjustments (money_dec (D basic))) = Inr a1"
    "pf_block r (ctx_or_default context) (D basic) (D pf) (D epf) a1 = Inr a2"
    "relief_block (period_of r context) (ctx_or_default context) (D rel) a2 = Inr a3"
    "a = overtime_block r (period_of r context) (ctx_or_default context) (D basic) (D ot) a3" .
  have "adj_tax_relief_applied a2 = 0"
    by (simp only: pension_block_frame [OF b(1)] pf_block_frame [OF b(2)] DeductionAdjustments_zero)
  then have "0 \<le> adj_tax_relief_applied a3"
    using b(3) by (auto simp: relief_block_def warn_def bind_result_Inr_iff amount_Inr money_dec_nonneg split: if_splits)
  then show ?thesis by (simp only: b(4) overtime_block_frame)
next
  case False
  then show ?thesis using assms
    by (auto simp: historical_adjustmentsE historical_adjustments_def money_dec_nonneg)
qed

subsection \<open>Amounts of the adjustments\<close>

text \<open>Every amount of an adjustments record is a whole number of pesewas.\<close>

definition is_money :: "rat \<Rightarrow> bool" where
  "is_money x \<longleftrightarrow> (\<exists>c. x = cedi c)"

lemma is_money_simps [simp]: "is_money (money_dec d)" "is_money (money v)" "is_money (cedi c)" "is_money 0"
  unfolding is_money_def by (auto simp: money_money_dec money_dec_cedi intro: exI [of _ 0])

lemma is_money_overtime [simp]: "is_money (overtime_tax_dec r ot b)"
  by (simp add: overtime_tax_dec_def Let_def)

lemma is_money_paye [simp]: "is_money (compute_paye r t)"
proof -
  have "is_money (paye_over_bands bs d)" for bs d by (induction bs) auto
  then show ?thesis by (simp add: compute_paye_def)
qed

definition adjustments_money :: "adjustments \<Rightarrow> bool" where
  "adjustments_money a \<longleftrightarrow> is_money (adj_ssnit a) \<and> is_money (adj_ssf_employer a) \<and>
     is_money (adj_pf_allowable_employee a) \<and> is_money (adj_pf_employer_taxable a) \<and>
     is_money (adj_tax_relief_applied a) \<and> is_money (adj_overtime_tax a) \<and>
     is_money (adj_overtime_ordinary_pay a)"

lemma pension_block_money:
  "pension_block r p b a = Inr a' \<Longrightarrow> adjustments_money a \<Longrightarrow> adjustments_money a'"
  by (auto simp: pension_block_def Let_def warn_def adjustments_money_def split: if_splits)

lemma pf_block_money:
  "pf_block r c b e q a = Inr a' \<Longrightarrow> adjustments_money a \<Longrightarrow> adjustments_money a'"
  by (auto simp: pf_block_def Let_def warn_def adjustments_money_def split: if_splits)

lemma relief_block_money:
  "relief_block p c q a = Inr a' \<Longrightarrow> adjustments_money a \<Longrightarrow> adjustments_money a'"
  by (auto simp: relief_block_def Let_def warn_def adjustments_money_def bind_result_Inr_iff split: if_splits)

lemma overtime_block_money: "adjustments_money a \<Longrightarrow> adjustments_money (overtime_block r p c b ot a)"
  by (simp add: overtime_block_def warn_def adjustments_money_def)

lemma deduction_adjustments_money:
  assumes "deduction_adjustments r basic ot pf epf rel context = Inr a"
  shows "adjustments_money a"
proof (cases "strict_policy r")
  case True
  from strict_adjustmentsE [OF assms True] obtain a1 a2 a3 where
    "pension_block r (period_of r context) (D basic) (DeductionAdjustments (money_dec (D basic))) = Inr a1"
    "pf_block r (ctx_or_default context) (D basic) (D pf) (D epf) a1 = Inr a2"
    "relief_block (period_of r context) (ctx_or_default context) (D rel) a2 = Inr a3"
    "a = overtime_block r (period_of r context) (ctx_or_default context) (D basic) (D ot) a3" .
  moreover have "adjustments_money (DeductionAdjustments (money_dec (D basic)))"
    by (simp add: DeductionAdjustments_def adjustments_money_def)
  ultimately show ?thesis
    by (metis pension_block_money pf_block_money relief_block_money overtime_block_money)
next
  case False
  then show ?thesis
    using historical_adjustmentsE [OF False] assms
    by (auto simp: historical_adjustments_def DeductionAdjustments_def adjustments_money_def)
qed


subsection \<open>The historical policy in pesewas\<close>

definition historical_rate :: "statutory_rate \<Rightarrow> int \<Rightarrow> int \<Rightarrow> int \<Rightarrow> int \<Rightarrow> int \<Rightarrow> bool" where
  "historical_rate r ne ner nt nl nh \<longleftrightarrow>
     \<not> strict_policy r \<and> short_rate (ssf_employee_rate r) ne \<and> short_rate (ssf_employer_rate r) ner \<and>
     short_rate (overtime_basic_threshold r) nt \<and> short_rate (overtime_rate_low r) nl \<and>
     short_rate (overtime_rate_high r) nh \<and>
     list_all (\<lambda>n. 0 \<le> n \<and> n \<le> 10 ^ 6) [ne, ner, nt, nl, nh]"

lemma historical_exact:
  assumes r: "historical_rate r ne ner nt nl nh"
    and b: "0 \<le> b" "b \<le> 10 ^ 11" "0 \<le> ot" "ot \<le> 10 ^ 11" "0 \<le> pf" "pf \<le> 10 ^ 11"
      "0 \<le> epf" "epf \<le> 10 ^ 11" "0 \<le> rel" "rel \<le> 10 ^ 11"
  shows "deduction_adjustments r (cedi b) (cedi ot) (cedi pf) (cedi epf) (cedi rel) context =
    Inr ((DeductionAdjustments (cedi b))
      \<lparr>adj_ssnit := cedi (tax_on b ne),
       adj_ssf_employer := cedi (tax_on b ner),
       adj_pf_allowable_employee := cedi pf,
       adj_tax_relief_applied := cedi rel,
       adj_overtime_tax := cedi (overtime_spec ot b nt nl nh)\<rparr>)"
proof -
  have d: "D (cedi b) = of_int b / 100" "D (cedi ot) = of_int ot / 100" "D (cedi pf) = of_int pf / 100"
    "D (cedi epf) = of_int epf / 100" "D (cedi rel) = of_int rel / 100"
    by (rule D_cedi, use b in simp)+
  have m: "money_dec (of_int c / 100) = cedi c" for c by (simp add: money_dec_cedi)
  have h: "\<not> strict_policy r" using r by (simp add: historical_rate_def)
  have ot: "overtime_tax_dec r (of_int ot / 100) (of_int b / 100) = cedi (overtime_spec ot b nt nl nh)"
    by (rule overtime_dec_exact) (use r b in \<open>auto simp: historical_rate_def\<close>)
  have c: "money_dec (dmul (of_int b / 100) (D (ssf_employee_rate r))) = cedi (tax_on b ne)"
    "money_dec (dmul (of_int b / 100) (D (ssf_employer_rate r))) = cedi (tax_on b ner)"
    by (rule money_dec_mul_rate; use r b in \<open>simp add: historical_rate_def\<close>)+
  show ?thesis
    unfolding historical_adjustmentsE [OF h] d historical_adjustments_def ot c m
    using b by simp
qed

lemma overtime_spec_bounds:
  assumes "0 \<le> ot" "0 \<le> b" "list_all (\<lambda>n. 0 \<le> n \<and> n \<le> 10 ^ 6) [nt, nl, nh]"
  shows "0 \<le> overtime_spec ot b nt nl nh" "overtime_spec ot b nt nl nh \<le> ot"
proof -
  let ?l = "min (ot * 10 ^ 6) (b * nt)" and ?h = "max (ot * 10 ^ 6 - b * nt) 0"
  have p: "0 \<le> ?l" "0 \<le> ?h" "?l + ?h = ot * 10 ^ 6" using assms by auto
  have "?l * nl + ?h * nh \<le> ?l * 10 ^ 6 + ?h * 10 ^ 6"
    using p assms(3) by (intro add_mono mult_left_mono) auto
  also have "\<dots> = ot * 10 ^ 12" using p(3) by (simp flip: distrib_right)
  finally have "(of_int (?l * nl + ?h * nh) :: rat) \<le> of_int (ot * 10 ^ 12)" by (simp only: of_int_le_iff)
  then have "half_up (of_int (?l * nl + ?h * nh) / 10 ^ 12) \<le> half_up (of_int ot)"
    by (intro half_up_mono) simp
  then show "overtime_spec ot b nt nl nh \<le> ot" using assms(1) by (simp add: overtime_spec_def)
  have "0 \<le> ?l * nl + ?h * nh" using p assms(3) by simp
  then have "(0 :: rat) \<le> of_int (?l * nl + ?h * nh)" by (simp only: of_int_0_le_iff)
  then have "0 \<le> half_up (of_int (?l * nl + ?h * nh) / 10 ^ 12)" by (intro half_up_nonneg) simp
  then show "0 \<le> overtime_spec ot b nt nl nh" by (simp add: overtime_spec_def)
qed

end
