(* ===== verification/PayEngine.thy ===== *)
theory PayEngine
  imports Deductions
begin

text \<open>
  What the salaried calculator, the hourly calculator and the raw-hours engine share:
  exact float sums of money amounts, the relief rule, and the contract between gross pay,
  deductions and net pay, stated once as the locale \<open>pay_engine\<close> and interpreted on each
  of the three engines in its own theory.
\<close>

subsection \<open>Bounded amounts\<close>

text \<open>\<open>amt b x\<close>: the float \<open>x\<close> is a whole number of pesewas, at most \<open>b\<close> in magnitude.\<close>

definition amt :: "int \<Rightarrow> rat \<Rightarrow> bool" where
  "amt b x \<longleftrightarrow> (\<exists>c. x = cedi c \<and> \<bar>c\<bar> \<le> b)"

lemma amtE:
  assumes "amt b x" "b \<le> max_pesewas"
  shows "x = cedi (pesewas x)" "\<bar>pesewas x\<bar> \<le> b"
proof -
  obtain c where c: "x = cedi c" "\<bar>c\<bar> \<le> b" using assms(1) by (auto simp: amt_def)
  then have "pesewas x = c" using pesewas_cedi [of c] assms(2) by simp
  with c show "x = cedi (pesewas x)" "\<bar>pesewas x\<bar> \<le> b" by simp_all
qed

lemma amt_cedi [intro]: "\<bar>c\<bar> \<le> b \<Longrightarrow> amt b (cedi c)"
  by (auto simp: amt_def)

lemma amt_0 [simp]: "0 \<le> b \<Longrightarrow> amt b 0"
  using amt_cedi [of 0 b] by simp

lemma amt_mono: "amt a x \<Longrightarrow> a \<le> b \<Longrightarrow> amt b x"
  by (auto simp: amt_def)

lemma money_amt: "amt b x \<Longrightarrow> b \<le> max_pesewas \<Longrightarrow> money x = x"
  using money_cedi by (fastforce simp: amt_def)

lemma pesewas_0 [simp]: "pesewas 0 = 0"
  using pesewas_cedi [of 0] by simp

lemma apx_amt: "amt b x \<Longrightarrow> b \<le> max_pesewas \<Longrightarrow> apx 1 x (pesewas x)"
  using amtE [of b x] apx_cedi [of "pesewas x"] by simp

lemma apx_mono: "apx k x c \<Longrightarrow> k \<le> k' \<Longrightarrow> apx k' x c"
  unfolding apx_def by (auto elim: order_trans intro: divide_right_mono)

lemma apx_fsum:
  assumes "apx k x c" "list_all (amt b) ys" "0 \<le> b" "k + 2 * of_nat (length ys) \<le> 1000"
    "\<bar>c\<bar> + int (length ys) * b \<le> max_pesewas"
  shows "apx (k + 2 * of_nat (length ys)) (fsum x ys) (c + sum_list (map pesewas ys))"
  using assms
proof (induction ys arbitrary: k x c)
  case Nil
  then show ?case by simp
next
  case (Cons y ys)
  have bl: "b \<le> int (length (y # ys)) * b" using Cons.prems(3) by (simp add: distrib_right)
  then have b: "b \<le> max_pesewas" using Cons.prems(5) by linarith
  have y: "amt b y" "\<bar>pesewas y\<bar> \<le> b" using Cons.prems(2) amtE(2) [OF _ b] by simp_all
  have len: "int (length (y # ys)) * b = b + int (length ys) * b" by (simp add: distrib_right)
  have nn: "0 \<le> int (length ys) * b" using Cons.prems(3) by simp
  have k: "k + 1 \<le> 1000"
    using Cons.prems(4) of_nat_0_le_iff [of "length ys", where ?'a = rat] by simp
  have cy: "\<bar>c + pesewas y\<bar> \<le> max_pesewas" using Cons.prems(5) y(2) nn len by linarith
  have "apx (k + 1 + 1) (fadd x y) (c + pesewas y)"
    using Cons.prems(1) apx_amt [OF y(1) b] k cy by (rule apx_fadd)
  then have "apx (k + 2) (fadd x y) (c + pesewas y)" by (rule apx_mono) simp
  from Cons.IH [OF this] show ?case
    using Cons.prems(2-5) y len by (simp add: algebra_simps)
qed

text \<open>A sum of amounts, rounded to money, is the exact sum in pesewas.\<close>

lemma money_fsum:
  assumes "list_all (amt b) (x # ys)" "0 \<le> b" "length ys \<le> 100" "int (length (x # ys)) * b \<le> max_pesewas"
  shows "money (fsum x ys) = cedi (sum_list (map pesewas (x # ys)))"
proof -
  have nn: "0 \<le> int (length ys) * b" using assms(2) by simp
  have len: "int (length (x # ys)) * b = b + int (length ys) * b" by (simp add: distrib_right)
  have b: "b \<le> max_pesewas" using assms(4) len nn by linarith
  have x: "amt b x" "\<bar>pesewas x\<bar> \<le> b" using assms(1) amtE(2) [OF _ b] by simp_all
  have l: "(of_nat (length ys) :: rat) \<le> 100" using assms(3) by (metis of_nat_le_iff of_nat_numeral)
  then have a: "apx (1 + 2 * of_nat (length ys)) (fsum x ys) (pesewas x + sum_list (map pesewas ys))"
    using assms x len by (intro apx_fsum [OF apx_amt [OF x(1) b]]) auto
  have "\<bar>sum_list (map pesewas ys)\<bar> \<le> int (length ys) * b"
    using assms(1) amtE(2) [OF _ b] by (induction ys) (fastforce simp: algebra_simps)+
  then show ?thesis using money_apx [OF a] l x(2) assms(4) len by simp
qed

lemma money_fsum_fsub:
  assumes "list_all (amt b) (x # z # ys)" "0 \<le> b" "length ys \<le> 100" "int (length (x # z # ys)) * b \<le> max_pesewas"
  shows "money (fsub (fsum x ys) z) = cedi (sum_list (map pesewas (x # ys)) - pesewas z)"
proof -
  have nn: "0 \<le> int (length ys) * b" using assms(2) by simp
  have len: "int (length (x # z # ys)) * b = b + b + int (length ys) * b" by (simp add: distrib_right)
  have b: "b \<le> max_pesewas" using assms(2,4) len nn by linarith
  have xz: "amt b x" "\<bar>pesewas x\<bar> \<le> b" "amt b z" "\<bar>pesewas z\<bar> \<le> b"
    using assms(1) amtE(2) [OF _ b] by simp_all
  have l: "(of_nat (length ys) :: rat) \<le> 100" using assms(3) by (metis of_nat_le_iff of_nat_numeral)
  then have a: "apx (1 + 2 * of_nat (length ys)) (fsum x ys) (pesewas x + sum_list (map pesewas ys))"
    using assms xz len by (intro apx_fsum [OF apx_amt [OF xz(1) b]]) auto
  have s: "\<bar>sum_list (map pesewas ys)\<bar> \<le> int (length ys) * b"
    using assms(1) amtE(2) [OF _ b] by (induction ys) (fastforce simp: algebra_simps)+
  have bd: "\<bar>pesewas x + sum_list (map pesewas ys) - pesewas z\<bar> \<le> max_pesewas"
    using s xz assms(4) len by linarith
  have "apx (1 + 2 * of_nat (length ys) + 1 + 1) (fsub (fsum x ys) z) (pesewas x + sum_list (map pesewas ys) - pesewas z)"
    using l bd by (intro apx_fsub [OF a apx_amt [OF xz(3) b]]) simp_all
  then show ?thesis using money_apx l bd by fastforce
qed

lemma list_all_amt_cedi: "list_all (\<lambda>c. \<bar>c\<bar> \<le> b) cs \<Longrightarrow> list_all (amt b) (map cedi cs)"
  by (auto simp: list_all_iff)

lemma pesewas_map_cedi:
  assumes "list_all (\<lambda>c. \<bar>c\<bar> \<le> b) cs" "b \<le> max_pesewas"
  shows "map pesewas (map cedi cs) = cs"
  using assms by (induction cs) (auto simp: pesewas_cedi)

lemma length_bound: "length ys \<le> 14 \<Longrightarrow> int (length ys) * 13000000000 \<le> 182000000000"
  by simp

text \<open>The form the engines use: at most fourteen summands of at most 130 million cedis.\<close>

lemma money_fsum_cedi:
  assumes "list_all (\<lambda>c. \<bar>c\<bar> \<le> 13000000000) (x # ys)" "length ys \<le> 13"
  shows "money (fsum (cedi x) (map cedi ys)) = cedi (x + sum_list ys)"
  using money_fsum [of 13000000000 "cedi x" "map cedi ys"] list_all_amt_cedi [OF assms(1)] assms(2)
    pesewas_map_cedi [OF assms(1)] length_bound [of "x # ys"] by simp

lemma money_fsum_fsub_cedi:
  assumes "list_all (\<lambda>c. \<bar>c\<bar> \<le> 13000000000) (x # z # ys)" "length ys \<le> 12"
  shows "money (fsub (fsum (cedi x) (map cedi ys)) (cedi z)) = cedi (x + sum_list ys - z)"
  using money_fsum_fsub [of 13000000000 "cedi x" "cedi z" "map cedi ys"] list_all_amt_cedi [OF assms(1)] assms(2)
    pesewas_map_cedi [OF assms(1)] length_bound [of "x # z # ys"] by simp

lemma money_fsum_fsub_fsum_cedi:
  assumes "list_all (\<lambda>c. \<bar>c\<bar> \<le> 10000000000) (x # z # ys @ zs)" "length ys + length zs \<le> 12"
  shows "money (fsum (fsub (fsum (cedi x) (map cedi ys)) (cedi z)) (map cedi zs)) = cedi (x + sum_list ys - z + sum_list zs)"
proof -
  let ?b = "10000000000 :: int" and ?n = "of_nat (length ys) :: rat" and ?m = "of_nat (length zs) :: rat"
  have nm: "?n + ?m \<le> 12" "0 \<le> ?n" "0 \<le> ?m" using assms(2) by (metis of_nat_add of_nat_le_iff of_nat_numeral, simp_all)
  have a: "list_all (amt ?b) (map cedi ys)" "list_all (amt ?b) (map cedi zs)" and xz: "\<bar>x\<bar> \<le> ?b" "\<bar>z\<bar> \<le> ?b"
    using assms(1) list_all_amt_cedi [of ?b] by auto
  have p: "map pesewas (map cedi ys) = ys" "map pesewas (map cedi zs) = zs"
    using assms(1) by (auto intro!: pesewas_map_cedi simp del: map_map)
  have sb: "list_all (\<lambda>c. \<bar>c\<bar> \<le> ?b) cs \<Longrightarrow> \<bar>sum_list cs\<bar> \<le> int (length cs) * ?b" for cs
    by (induction cs) auto
  have s: "\<bar>sum_list ys\<bar> \<le> int (length ys) * ?b" using sb assms(1) by simp
  have l: "int (length ys) + int (length zs) \<le> 12" using assms(2) by linarith
  have "apx (1 + 2 * of_nat (length (map cedi ys))) (fsum (cedi x) (map cedi ys)) (x + sum_list (map pesewas (map cedi ys)))"
    using xz l nm by (intro apx_fsum [OF apx_cedi a(1)]) auto
  then have 1: "apx (1 + 2 * ?n) (fsum (cedi x) (map cedi ys)) (x + sum_list ys)" by (simp only: p length_map)
  have "apx (1 + 2 * ?n + 1 + 1) (fsub (fsum (cedi x) (map cedi ys)) (cedi z)) (x + sum_list ys - z)"
    using xz s l nm by (intro apx_fsub [OF 1 apx_cedi]) auto
  then have "apx (1 + 2 * ?n + 1 + 1 + 2 * of_nat (length (map cedi zs)))
      (fsum (fsub (fsum (cedi x) (map cedi ys)) (cedi z)) (map cedi zs)) (x + sum_list ys - z + sum_list (map pesewas (map cedi zs)))"
    using xz s l nm by (intro apx_fsum [OF _ a(2)]) auto
  then have 2: "apx (1 + 2 * ?n + 1 + 1 + 2 * ?m)
      (fsum (fsub (fsum (cedi x) (map cedi ys)) (cedi z)) (map cedi zs)) (x + sum_list ys - z + sum_list zs)"
    by (simp only: p length_map)
  have "\<bar>sum_list zs\<bar> \<le> int (length zs) * ?b" using sb assms(1) by simp
  then show ?thesis using xz s l nm by (intro money_apx [OF 2]) auto
qed

lemma money_net_cedi:
  assumes "\<bar>g\<bar> \<le> 50000000000" "\<bar>d\<bar> \<le> 50000000000" "\<bar>a\<bar> \<le> 50000000000"
  shows "money (fadd (fsub (cedi g) (cedi d)) (cedi a)) = cedi (g - d + a)"
proof -
  have gd: "\<bar>g - d\<bar> \<le> 100000000000" using assms by linarith
  then have "\<bar>g - d + a\<bar> \<le> max_pesewas" using assms by linarith
  moreover from gd have "apx (1 + 1 + 1) (fsub (cedi g) (cedi d)) (g - d)"
    using assms by (intro apx_fsub apx_cedi) auto
  ultimately show ?thesis
    using money_apx [OF apx_fadd [OF _ apx_cedi], of "1 + 1 + 1" "fsub (cedi g) (cedi d)" "g - d" a] assms by simp
qed

text \<open>The relief rule shared by the engines (\<open>policy_version >= 1\<close> and the historical branch).\<close>

definition apply_relief :: "statutory_rate \<Rightarrow> rat \<Rightarrow> rat \<Rightarrow> rat \<times> rat" where
  "apply_relief r taxable_before_relief relief =
     (if strict_policy r
      then let relief = min relief (max 0 taxable_before_relief)
           in (relief, money (max 0 (fsub taxable_before_relief relief)))
      else (relief, money (fsub taxable_before_relief relief)))"

subsection \<open>Exact components shared by the engines\<close>

text \<open>
  \<open>engine_rate r ss nb nr\<close>: the columns of \<open>r\<close> an engine multiplies by are short decimals:
  \<open>ss\<close> is the band table in pesewas and millionths, \<open>nb\<close> the bonus threshold and \<open>nr\<close> the
  bonus rate in millionths.  \<open>band_le\<close> bounds a band's tax by the income it taxes.
\<close>

definition band_le :: "int \<times> int \<times> int \<Rightarrow> bool" where
  "band_le b = (case b of (over, n, base) \<Rightarrow> 0 \<le> n \<and> n \<le> 10 ^ 6 \<and> 0 \<le> base \<and> base \<le> over)"

definition engine_rate :: "statutory_rate \<Rightarrow> (int \<times> int \<times> int) list \<Rightarrow> int \<Rightarrow> int \<Rightarrow> bool" where
  "engine_rate r ss nb nr \<longleftrightarrow>
     list_all2 short_band (paye_bands r) ss \<and> list_all band_le ss \<and>
     short_rate (bonus_annual_basic_threshold r) nb \<and>
     short_rate (bonus_rate r) nr \<and> 0 \<le> nr \<and> nr \<le> 10 ^ 6"

lemma half_up_le: "d \<le> of_int n \<Longrightarrow> half_up d \<le> n"
  using half_up_mono [of d "of_int n"] by simp

lemma tax_in_band_le:
  assumes "band_le (over, n, base)" "over \<le> t"
  shows "0 \<le> tax_in_band (over, n, base) t" "tax_in_band (over, n, base) t \<le> t"
proof -
  have b: "0 \<le> n" "n \<le> 10 ^ 6" "0 \<le> base" "base \<le> over" using assms(1) by (auto simp: band_le_def)
  have "(t - over) * n \<le> (t - over) * 10 ^ 6" using b assms(2) by (intro mult_left_mono) auto
  then have "(t - over) * n + base * 10 ^ 6 \<le> t * 10 ^ 6" using b by (simp add: left_diff_distrib)
  then have "(of_int ((t - over) * n + base * 10 ^ 6) :: rat) \<le> of_int (t * 10 ^ 6)"
    by (simp only: of_int_le_iff)
  then have "(of_int ((t - over) * n + base * 10 ^ 6) :: rat) / 10 ^ 6 \<le> of_int t" by simp
  then show "tax_in_band (over, n, base) t \<le> t" by (simp only: tax_in_band_def prod.case half_up_le)
  show "0 \<le> tax_in_band (over, n, base) t"
    unfolding tax_in_band_def using b assms(2) by (simp del: of_int_diff of_int_add of_int_mult) (intro half_up_nonneg, simp)
qed

lemma paye_spec_bounds: "list_all band_le ss \<Longrightarrow> 0 \<le> paye_spec ss t \<and> paye_spec ss t \<le> max t 0"
proof (induction ss)
  case Nil
  then show ?case by simp
next
  case (Cons b ss)
  obtain over n base where b: "b = (over, n, base)" by (cases b)
  with Cons show ?case using tax_in_band_le [of over n base t] by (auto simp: paye_spec_Cons)
qed

lemma bonus_spec_bounds:
  assumes "0 \<le> nr" "nr \<le> 10 ^ 6" "bonus_spec bonus basic used nb nr = (t, e)"
  shows "0 \<le> t" "t \<le> max bonus 0" "0 \<le> e" "e \<le> max bonus 0"
proof -
  have "0 \<le> t \<and> t \<le> max bonus 0 \<and> 0 \<le> e \<and> e \<le> max bonus 0"
  proof (cases "bonus \<le> 0")
    case True
    with assms(3) show ?thesis by (simp add: bonus_spec_def)
  next
    case False
    define rem where "rem = max (basic * 12 * nb - used * 10 ^ 6) 0"
    define m where "m = min (bonus * 10 ^ 6) rem"
    have m: "0 \<le> m" "m \<le> bonus * 10 ^ 6" using False by (simp_all add: m_def rem_def)
    have te: "t = half_up (of_int (m * nr) / 10 ^ 12)" "e = half_up (of_int (max (bonus * 10 ^ 6 - rem) 0) / 10 ^ 6)"
      using assms(3) False by (simp_all only: bonus_spec_def if_False Let_def rem_def m_def prod.inject)
    have "m * nr \<le> (bonus * 10 ^ 6) * 10 ^ 6" using m assms(1,2) False by (intro mult_mono) auto
    then have "(of_int (m * nr) :: rat) \<le> of_int (bonus * 10 ^ 6 * 10 ^ 6)" by (simp only: of_int_le_iff)
    then have 1: "(of_int (m * nr) :: rat) / 10 ^ 12 \<le> of_int bonus" by simp
    have "max (bonus * 10 ^ 6 - rem) 0 \<le> bonus * 10 ^ 6" using False by (simp add: rem_def)
    then have "(of_int (max (bonus * 10 ^ 6 - rem) 0) :: rat) \<le> of_int (bonus * 10 ^ 6)" by (simp only: of_int_le_iff)
    then have 2: "(of_int (max (bonus * 10 ^ 6 - rem) 0) :: rat) / 10 ^ 6 \<le> of_int bonus" by simp
    have "0 \<le> m * nr" using m assms(1) by simp
    then have 3: "0 \<le> (of_int (m * nr) :: rat) / 10 ^ 12" by (simp del: of_int_mult)
    show ?thesis using half_up_le [OF 1] half_up_le [OF 2] half_up_nonneg [OF 3] False
      unfolding te by (simp add: half_up_nonneg)
  qed
  then show "0 \<le> t" "t \<le> max bonus 0" "0 \<le> e" "e \<le> max bonus 0" by auto
qed

definition relief_spec :: "bool \<Rightarrow> int \<Rightarrow> int \<Rightarrow> int \<times> int" where
  "relief_spec strict t relief =
     (if strict then let relief = min relief (max 0 t) in (relief, max 0 (t - relief))
      else (relief, t - relief))"

lemma cedi_min: "min (cedi a) (cedi b) = cedi (min a b)"
  using cedi_mono [of a b] cedi_mono [of b a] by (auto simp: min_def)

lemma cedi_max_0: "max 0 (cedi a) = cedi (max 0 a)"
  using cedi_mono [of a 0] by (simp add: max_def)

lemma money_fsub_cedi:
  assumes "\<bar>a\<bar> \<le> 50000000000" "\<bar>b\<bar> \<le> 50000000000"
  shows "money (fsub (cedi a) (cedi b)) = cedi (a - b)"
  using assms money_apx [OF apx_fsub [OF apx_cedi apx_cedi], of a b] by simp

lemma money_fadd_cedi:
  assumes "\<bar>a\<bar> \<le> 50000000000" "\<bar>b\<bar> \<le> 50000000000"
  shows "money (fadd (cedi a) (cedi b)) = cedi (a + b)"
  using assms money_apx [OF apx_fadd [OF apx_cedi apx_cedi], of a b] by simp

lemma money_max_0: "money (max 0 x) = max 0 (money x)" if "money 0 = 0" "fl x = x"
proof (cases "0 \<le> x")
  case True
  then have "0 \<le> D x" using that(2) by (simp add: D_def repr_nonneg)
  then have "0 \<le> money x" by (simp add: money_money_dec money_dec_cedi half_up_nonneg)
  with True show ?thesis by (simp add: max_def)
next
  case False
  then have "0 \<le> - D x" using that(2) by (simp add: D_def repr_nonpos)
  then have "money x \<le> 0"
    using half_up_nonneg [of "- (D x * 100)"] cedi_mono [of "half_up (D x * 100)" 0]
    by (simp add: money_money_dec money_dec_cedi half_up_odd)
  with False that(1) show ?thesis by (simp add: max_def)
qed

lemma apply_relief_strict:
  assumes "apply_relief r t rel = (applied, taxable)" "strict_policy r"
  shows "0 \<le> taxable" "applied \<le> rel" "applied \<noteq> 0 \<Longrightarrow> 0 \<le> rel \<Longrightarrow> rel \<noteq> 0"
proof -
  have a: "applied = min rel (max 0 t)" "taxable = money (max 0 (fsub t applied))"
    using assms(1,2) by (auto simp: apply_relief_def Let_def)
  have "fl (fsub t applied) = fsub t applied" by (simp add: fsub_def)
  then show "0 \<le> taxable" by (simp add: a(2) money_max_0)
  show "applied \<le> rel" "applied \<noteq> 0 \<Longrightarrow> 0 \<le> rel \<Longrightarrow> rel \<noteq> 0" by (auto simp: a(1))
qed

lemma apply_relief_exact:
  assumes "\<bar>t\<bar> \<le> 50000000000" "\<bar>rel\<bar> \<le> 50000000000"
  shows "apply_relief r (cedi t) (cedi rel) = map_prod cedi cedi (relief_spec (strict_policy r) t rel)"
proof -
  have "fl (fsub a b) = fsub a b" for a b by (simp add: fsub_def)
  moreover have "\<bar>min rel (max 0 t)\<bar> \<le> 50000000000" using assms by auto
  ultimately show ?thesis using assms
    by (simp add: apply_relief_def relief_spec_def Let_def cedi_max_0 cedi_min money_max_0 money_fsub_cedi)
qed

text \<open>What an engine computes, in pesewas.\<close>

record pay_spec =
  sp_net_basic :: int
  sp_taxable :: int
  sp_relief :: int
  sp_ordinary_paye :: int
  sp_tax :: int
  sp_gross :: int
  sp_deductions :: int
  sp_net :: int

subsection \<open>The contract of a pay engine\<close>

locale pay_engine =
  fixes produced :: "'r \<Rightarrow> bool" and gross :: "'r \<Rightarrow> rat" and ded :: "'r \<Rightarrow> rat"
    and credit :: "'r \<Rightarrow> rat" and net :: "'r \<Rightarrow> rat"
    and taxes :: "'r \<Rightarrow> rat \<times> rat \<times> rat" and tax :: "'r \<Rightarrow> rat"
  assumes net_law: "produced res \<Longrightarrow> net res = money (fadd (fsub (gross res) (ded res)) (credit res))"
    and tax_law: "produced res \<Longrightarrow> taxes res = (t1, t2, t3) \<Longrightarrow> tax res = money (fadd (fadd t1 t2) t3)"
    and money_law: "produced res \<Longrightarrow> is_money (gross res) \<and> is_money (ded res)"
begin

lemma net_exact:
  assumes "produced res" "amt 10000000000 (gross res)" "amt 10000000000 (ded res)" "amt 10000000000 (credit res)"
  shows "net res = cedi (pesewas (gross res) - pesewas (ded res) + pesewas (credit res))"
proof -
  note p = amtE [OF assms(2)] amtE [OF assms(3)] amtE [OF assms(4)]
  have "apx (1 + 1 + 1) (fsub (gross res) (ded res)) (pesewas (gross res) - pesewas (ded res))"
    using p by (intro apx_fsub apx_amt [OF assms(2)] apx_amt [OF assms(3)]) auto
  then have "apx (1 + 1 + 1 + 1 + 1) (fadd (fsub (gross res) (ded res)) (credit res))
      (pesewas (gross res) - pesewas (ded res) + pesewas (credit res))"
    using p by (intro apx_fadd apx_amt [OF assms(4)]) auto
  then show ?thesis using p by (simp add: net_law [OF assms(1)] money_apx)
qed

lemma net_pesewas:
  assumes "produced res" "amt 10000000000 (gross res)" "amt 10000000000 (ded res)" "amt 10000000000 (credit res)"
  shows "pesewas (net res) = pesewas (gross res) - pesewas (ded res) + pesewas (credit res)"
  using net_exact [OF assms] amtE [OF assms(2)] amtE [OF assms(3)] amtE [OF assms(4)]
  by (simp add: pesewas_cedi)

lemma tax_pesewas:
  assumes "produced res" "taxes res = (t1, t2, t3)"
    "amt 10000000000 t1" "amt 10000000000 t2" "amt 10000000000 t3"
  shows "pesewas (tax res) = pesewas t1 + pesewas t2 + pesewas t3"
proof -
  note p = amtE [OF assms(3)] amtE [OF assms(4)] amtE [OF assms(5)]
  have "money (fsum t1 [t2, t3]) = cedi (pesewas t1 + (pesewas t2 + pesewas t3))"
    using money_fsum [of 10000000000 t1 "[t2, t3]"] assms(3-5) by simp
  then show ?thesis using tax_law [OF assms(1,2)] p by (simp add: pesewas_cedi)
qed

end

end
