(* ===== verification/RateAdmin.thy ===== *)
theory RateAdmin
  imports PayEngine "HOL-Library.Multiset"
begin

text \<open>
  \<open>app/statutory.py\<close> and the statutory part of \<open>app/seed.py\<close>: how rate versions come into
  being.  A form number is \<open>None\<close> when the text denotes no finite float; the parsing of the
  text itself is Python's \<open>float\<close>.  The table of versions is the list of its rows.
\<close>

subsection \<open>Band tables from form rows\<close>

datatype rate_error =
    No_bands
  | Band_not_numeric
  | Band_below_zero
  | Band_rate_out_of_range
  | Bands_share_threshold
  | Limits_not_positive
  | Limits_inverted
  | Pf_limit_above_one
  | Limits_year_out_of_range
  | Effective_date_taken
  | Ssf_not_fraction

fun clean_rows :: "(rat option \<times> rat option) list \<Rightarrow> rate_error + (rat \<times> rat) list" where
  "clean_rows [] = return []"
| "clean_rows ((Some over, Some rate) # rows) =
     (if over < 0 then raise Band_below_zero
      else if \<not> (0 \<le> rate \<and> rate \<le> 100) then raise Band_rate_out_of_range
      else bind_result (clean_rows rows) (\<lambda>rest. return ((over, fdiv rate 100) # rest)))"
| "clean_rows (_ # rows) = raise Band_not_numeric"

definition py_round6 :: "rat \<Rightarrow> rat" where
  "py_round6 x = fl (of_int (rhe (x * 10 ^ 6)) / 10 ^ 6)"

text \<open>The loop over the ascending rows; the accumulator is the previous row and the running base.\<close>

fun band_loop :: "rat \<times> rat \<Rightarrow> rat \<Rightarrow> (rat \<times> rat) list \<Rightarrow> paye_band list" where
  "band_loop prev base [] = []"
| "band_loop (prev_over, prev_rate) base ((over, rate) # rows) =
     (let base = fadd base (fmul (fsub over prev_over) prev_rate)
      in \<lparr>band_over = over, band_rate = py_round6 rate, band_base = py_round2 base\<rparr>
         # band_loop (over, rate) base rows)"

fun band_table :: "(rat \<times> rat) list \<Rightarrow> paye_band list" where
  "band_table [] = []"
| "band_table ((over, rate) # rows) =
     \<lparr>band_over = over, band_rate = py_round6 rate, band_base = py_round2 0\<rparr> # band_loop (over, rate) 0 rows"

definition bands_from_rows :: "(rat option \<times> rat option) list \<Rightarrow> rate_error + paye_band list" where
  "bands_from_rows rows =
     (if rows = [] then raise No_bands
      else bind_result (clean_rows rows) (\<lambda>cleaned.
        let cleaned = sort_key fst cleaned in
        if \<not> distinct (map fst cleaned) then raise Bands_share_threshold
        else return (rev (sort_key band_over (rev (band_table cleaned))))))"

subsection \<open>Adding a version\<close>

record rate_form =
  rf_effective_from :: pydate
  rf_ssf_employee :: rat
  rf_ssf_employer :: rat
  rf_band_rows :: "(rat option \<times> rat option) list"
  rf_overtime_rate_low :: rat
  rf_overtime_rate_high :: rat
  rf_overtime_basic_threshold :: rat
  rf_bonus_rate :: rat
  rf_bonus_annual_basic_threshold :: rat
  rf_overtime_junior_monthly_threshold :: "rat option"
  rf_icu_member_rate :: "rat option"
  rf_ssnit_min_insurable :: "rat option"
  rf_ssnit_max_insurable :: "rat option"
  rf_ssnit_min_monthly_remittance :: "rat option"
  rf_provident_fund_tax_limit :: "rat option"
  rf_overtime_qualifying_annual_limit :: "rat option"
  rf_ssnit_limits_year :: "int option"

text \<open>\<open>form.get(name) or getattr(latest, name, dflt) or dflt\<close>: a blank field falls back.\<close>

definition form_or :: "'a option \<Rightarrow> statutory_rate option \<Rightarrow> (statutory_rate \<Rightarrow> 'a) \<Rightarrow> 'a \<Rightarrow> ('a :: zero)" where
  "form_or x latest field dflt =
     (case x of Some v \<Rightarrow> v
      | None \<Rightarrow> (case latest of None \<Rightarrow> dflt | Some r \<Rightarrow> if field r = 0 then dflt else field r))"

definition latest_version :: "statutory_rate list \<Rightarrow> statutory_rate option" where
  "latest_version rates = max_row effective_from rates"

definition new_version :: "int \<Rightarrow> rate_form \<Rightarrow> statutory_rate list \<Rightarrow> rate_error + statutory_rate list" where
  "new_version new_id form rates =
     (let latest = latest_version rates in
      bind_result (bands_from_rows (rf_band_rows form)) (\<lambda>bands.
        let min_insurable = form_or (rf_ssnit_min_insurable form) latest ssnit_min_insurable (fl (5878/10));
            max_insurable = form_or (rf_ssnit_max_insurable form) latest ssnit_max_insurable 69000;
            min_remittance = form_or (rf_ssnit_min_monthly_remittance form) latest ssnit_min_monthly_remittance (fl (794/10));
            pf_limit = form_or (rf_provident_fund_tax_limit form) latest provident_fund_tax_limit (fl (165/1000));
            annual_limit = form_or (rf_overtime_qualifying_annual_limit form) latest overtime_qualifying_annual_limit 18000;
            limits_year = form_or (rf_ssnit_limits_year form) latest ssnit_limits_year 2026
        in if list_ex (\<lambda>v. v \<le> 0) [min_insurable, max_insurable, min_remittance, pf_limit, annual_limit]
              \<or> limits_year \<le> 0
           then raise Limits_not_positive
           else if max_insurable < min_insurable then raise Limits_inverted
           else if 1 < pf_limit then raise Pf_limit_above_one
           else if \<not> (2000 \<le> limits_year \<and> limits_year \<le> 2100) then raise Limits_year_out_of_range
           else if first_row (\<lambda>r. effective_from r = rf_effective_from form) rates \<noteq> None
           then raise Effective_date_taken
           else if \<not> (0 < rf_ssf_employee form \<and> rf_ssf_employee form < 1 \<and>
                     0 < rf_ssf_employer form \<and> rf_ssf_employer form < 1)
           then raise Ssf_not_fraction
           else return (rates @
             [\<lparr>rate_id = new_id, effective_from = rf_effective_from form,
               ssf_employee_rate = rf_ssf_employee form, ssf_employer_rate = rf_ssf_employer form,
               paye_bands = bands,
               deductions_policy_version = (if Date 2026 9 1 \<le> rf_effective_from form then 1 else 0),
               ssnit_min_insurable = min_insurable, ssnit_max_insurable = max_insurable,
               ssnit_limits_year = limits_year, ssnit_min_monthly_remittance = min_remittance,
               provident_fund_tax_limit = pf_limit, overtime_qualifying_annual_limit = annual_limit,
               overtime_rate_low = rf_overtime_rate_low form,
               overtime_rate_high = rf_overtime_rate_high form,
               overtime_basic_threshold = rf_overtime_basic_threshold form,
               bonus_rate = rf_bonus_rate form,
               bonus_annual_basic_threshold = rf_bonus_annual_basic_threshold form,
               icu_member_rate = (case rf_icu_member_rate form of None \<Rightarrow> fl (3/100) | Some v \<Rightarrow> v),
               overtime_junior_monthly_threshold =
                 (case rf_overtime_junior_monthly_threshold form of None \<Rightarrow> 1500 | Some v \<Rightarrow> v)\<rparr>])))"

subsection \<open>Seeding\<close>

definition PAYE_2026_EFFECTIVE_FROM :: pydate where
  "PAYE_2026_EFFECTIVE_FROM = Date 2026 9 1"

text \<open>The row the seed adds: the previous version with the new bands, date and policy.\<close>

definition ensure_paye_2026_rates :: "int \<Rightarrow> statutory_rate list \<Rightarrow> statutory_rate list" where
  "ensure_paye_2026_rates new_id rates =
     (case first_row (\<lambda>r. effective_from r = PAYE_2026_EFFECTIVE_FROM) rates of
        Some existing \<Rightarrow> rates
      | None \<Rightarrow>
        (case max_row effective_from (filter (\<lambda>r. effective_from r < PAYE_2026_EFFECTIVE_FROM) rates) of
           None \<Rightarrow> rates
         | Some previous \<Rightarrow> rates @
             [previous\<lparr>rate_id := new_id, effective_from := PAYE_2026_EFFECTIVE_FROM,
                       deductions_policy_version := 1, paye_bands := PAYE_BANDS_2026\<rparr>]))"

definition workbook_rate :: "int \<Rightarrow> statutory_rate" where
  "workbook_rate new_id =
     \<lparr>rate_id = new_id, effective_from = Date 2026 1 1,
      ssf_employee_rate = fl (55/1000), ssf_employer_rate = fl (13/100),
      paye_bands = HISTORICAL_PAYE_BANDS, deductions_policy_version = 0,
      ssnit_min_insurable = fl (5878/10), ssnit_max_insurable = 69000, ssnit_limits_year = 2026,
      ssnit_min_monthly_remittance = fl (794/10), provident_fund_tax_limit = fl (165/1000),
      overtime_qualifying_annual_limit = 18000, overtime_rate_low = fl (5/100),
      overtime_rate_high = fl (10/100), overtime_basic_threshold = fl (50/100),
      bonus_rate = fl (5/100), bonus_annual_basic_threshold = fl (15/100),
      icu_member_rate = fl (3/100), overtime_junior_monthly_threshold = 1500\<rparr>"

definition seed_statutory_rates :: "int \<Rightarrow> statutory_rate list \<Rightarrow> statutory_rate list" where
  "seed_statutory_rates new_id rates =
     (let rates = (if rates = [] then [workbook_rate new_id] else rates)
      in ensure_paye_2026_rates (new_id + 1) rates)"


subsection \<open>What the band editor accepts\<close>

lemma clean_rows_Inr:
  "clean_rows rows = Inr cleaned \<Longrightarrow>
     map fst cleaned = map (\<lambda>(o', r). the o') rows \<and> (\<forall>(over, rate) \<in> set cleaned. 0 \<le> over \<and> 0 \<le> rate \<and> rate \<le> 1)"
proof (induction rows arbitrary: cleaned rule: clean_rows.induct)
  case (2 over rate rows)
  then have "0 \<le> rate / 100" "rate / 100 \<le> 1" by (auto split: if_splits)
  then have "0 \<le> fdiv rate 100" "fdiv rate 100 \<le> 1"
    unfolding fdiv_def using b64.mono [of "rate / 100" 1] fl_of_int [of 1] by (auto intro: b64.nonneg)
  with 2 show ?case by (auto simp: bind_result_Inr_iff split: if_splits)
qed auto

lemma rhe_nonneg: "0 \<le> q \<Longrightarrow> 0 \<le> rhe q"
  using rhe_mono [of 0 q] rhe_of_int [of 0] by simp

lemma py_round_at: "py_round6 1 = 1" "py_round2 0 = 0"
  unfolding py_round6_def py_round2_def
  using rhe_of_int [of "10 ^ 6"] rhe_of_int [of 0] fl_of_int [of 1] by simp_all

lemma fl_py_round [simp]: "fl (py_round6 x) = py_round6 x" "fl (py_round2 x) = py_round2 x"
  by (simp_all add: py_round6_def py_round2_def)

lemma py_round_bounds: "0 \<le> x \<Longrightarrow> 0 \<le> py_round6 x" "0 \<le> x \<Longrightarrow> 0 \<le> py_round2 x"
  "x \<le> y \<Longrightarrow> py_round6 x \<le> py_round6 y" "x \<le> y \<Longrightarrow> py_round2 x \<le> py_round2 y"
  unfolding py_round6_def py_round2_def by (auto intro!: b64.nonneg b64.mono divide_right_mono rhe_mono rhe_nonneg)

text \<open>
  A table is \<^emph>\<open>ascending\<close> when thresholds strictly increase and bases never decrease.
\<close>

definition ascending :: "paye_band list \<Rightarrow> bool" where
  "ascending bs \<longleftrightarrow> sorted_wrt (\<lambda>a b. band_over a < band_over b \<and> band_base a \<le> band_base b) bs"

definition band_sound :: "paye_band \<Rightarrow> bool" where
  "band_sound b \<longleftrightarrow> 0 \<le> band_over b \<and> 0 \<le> band_rate b \<and> band_rate b \<le> 1 \<and> 0 \<le> band_base b \<and>
     fl (band_rate b) = band_rate b \<and> fl (band_base b) = band_base b"

lemma band_loop_ascending:
  assumes "fl base = base" "0 \<le> base" "sorted_wrt (<) (prev_over # map fst rows)"
    "\<forall>(over, rate) \<in> set ((prev_over, prev_rate) # rows). 0 \<le> over \<and> 0 \<le> rate \<and> rate \<le> 1"
  shows "ascending (band_loop (prev_over, prev_rate) base rows) \<and>
    list_all band_sound (band_loop (prev_over, prev_rate) base rows) \<and>
    map band_over (band_loop (prev_over, prev_rate) base rows) = map fst rows \<and>
    (\<forall>b \<in> set (band_loop (prev_over, prev_rate) base rows). py_round2 base \<le> band_base b)"
  using assms
proof (induction rows arbitrary: prev_over prev_rate base)
  case Nil
  then show ?case by (simp add: ascending_def)
next
  case (Cons row rows)
  obtain over rate where row: "row = (over, rate)" by (cases row)
  let ?base = "fadd base (fmul (fsub over prev_over) prev_rate)"
  have "0 \<le> over - prev_over" "0 \<le> prev_rate" using Cons.prems row by auto
  then have "0 \<le> fmul (fsub over prev_over) prev_rate"
    unfolding fmul_def fsub_def by (auto intro!: b64.nonneg mult_nonneg_nonneg)
  then have le: "base \<le> ?base"
    using b64.mono [of base "base + fmul (fsub over prev_over) prev_rate"] Cons.prems(1) by (simp add: fadd_def)
  have "fl ?base = ?base" "0 \<le> ?base" using le Cons.prems(2) by (simp_all add: fadd_def)
  moreover have "sorted_wrt (<) (over # map fst rows)" using Cons.prems(3) row by auto
  ultimately have ih: "ascending (band_loop (over, rate) ?base rows)" "list_all band_sound (band_loop (over, rate) ?base rows)"
    "map band_over (band_loop (over, rate) ?base rows) = map fst rows"
    "\<forall>b \<in> set (band_loop (over, rate) ?base rows). py_round2 ?base \<le> band_base b"
    using Cons.IH [of ?base over rate] Cons.prems(4) row by auto
  have r: "0 \<le> over" "0 \<le> py_round6 rate" "py_round6 rate \<le> 1" "0 \<le> py_round2 ?base"
    using Cons.prems(4) row py_round_bounds(1) [of rate] py_round_bounds(3) [of rate 1] py_round_bounds(2) [of ?base] \<open>0 \<le> ?base\<close>
    by (auto simp: py_round_at)
  have o: "\<forall>b \<in> set (band_loop (over, rate) ?base rows). over < band_over b"
    using Cons.prems(3) row ih(3) by (metis (no_types, lifting) fst_conv image_eqI list.set_map list.simps(9) sorted_wrt.simps(2))
  show ?case
    using ih r o py_round_bounds(4) [OF le] by (auto simp: row Let_def ascending_def band_sound_def list_all_iff)
qed

lemma band_table_ascending:
  assumes "sorted_wrt (<) (map fst rows)" "\<forall>(over, rate) \<in> set rows. 0 \<le> over \<and> 0 \<le> rate \<and> rate \<le> 1"
  shows "ascending (band_table rows) \<and> list_all band_sound (band_table rows) \<and> map band_over (band_table rows) = map fst rows"
proof (cases rows)
  case Nil
  then show ?thesis by (simp add: ascending_def)
next
  case (Cons row rest)
  obtain over rate where row: "row = (over, rate)" by (cases row)
  note l = band_loop_ascending [of 0 over rest rate]
  have r: "0 \<le> over" "0 \<le> py_round6 rate" "py_round6 rate \<le> 1"
    using assms(2) Cons row py_round_bounds(1) [of rate] py_round_bounds(3) [of rate 1] by (auto simp: py_round_at)
  have p: "sorted_wrt (<) (over # map fst rest)" using assms(1) Cons row by simp
  with l assms(2) Cons row have m: "ascending (band_loop (over, rate) 0 rest) \<and> list_all band_sound (band_loop (over, rate) 0 rest) \<and>
    map band_over (band_loop (over, rate) 0 rest) = map fst rest \<and>
    (\<forall>b \<in> set (band_loop (over, rate) 0 rest). py_round2 0 \<le> band_base b)" by auto
  then have "\<forall>b \<in> set (band_loop (over, rate) 0 rest). over < band_over b"
    using p by (metis image_eqI list.set_map sorted_wrt.simps(2))
  with m r show ?thesis by (auto simp: Cons row ascending_def band_sound_def list_all_iff py_round_at)
qed


text \<open>The order \<open>compute_paye\<close> walks: highest threshold first, bases falling.\<close>

definition descending :: "paye_band list \<Rightarrow> bool" where
  "descending bs \<longleftrightarrow> sorted_wrt (\<lambda>a b. band_over b < band_over a \<and> band_base b \<le> band_base a) bs"

lemma sort_key_rev_ascending: "ascending bs \<Longrightarrow> sort_key band_over (rev bs) = bs"
proof -
  assume a: "ascending bs"
  then have s: "sorted_wrt (<) (map band_over bs)" by (auto simp: ascending_def sorted_wrt_map elim: sorted_wrt_mono_rel [rotated])
  then have "distinct (map band_over bs)" by (simp add: strict_sorted_iff)
  with s show ?thesis by (intro sort_key_inj_key_eq) (auto simp: distinct_map strict_sorted_iff)
qed

lemma bands_from_rows_Inr:
  assumes "bands_from_rows rows = Inr bs"
  shows "descending bs \<and> list_all band_sound bs \<and>
    mset (map band_over bs) = mset (map (\<lambda>(over, rate). the over) rows)"
proof -
  from assms obtain cleaned where c: "clean_rows rows = Inr cleaned" "distinct (map fst (sort_key fst cleaned))"
    "bs = rev (sort_key band_over (rev (band_table (sort_key fst cleaned))))"
    by (auto simp: bands_from_rows_def bind_result_Inr_iff Let_def split: if_splits)
  have "sorted_wrt (<) (map fst (sort_key fst cleaned))" using c(2) by (simp add: strict_sorted_iff)
  then have t: "ascending (band_table (sort_key fst cleaned))" "list_all band_sound (band_table (sort_key fst cleaned))"
    "map band_over (band_table (sort_key fst cleaned)) = map fst (sort_key fst cleaned)"
    using band_table_ascending [of "sort_key fst cleaned"] clean_rows_Inr [OF c(1)] by auto
  then have bs: "bs = rev (band_table (sort_key fst cleaned))" using c(3) sort_key_rev_ascending by simp
  have "descending bs" using t(1) by (simp add: bs descending_def ascending_def sorted_wrt_rev)
  moreover have "mset (map band_over bs) = mset (map fst cleaned)" using t(3)
    by (simp add: bs rev_map [symmetric])
  ultimately show ?thesis using t(2) clean_rows_Inr [OF c(1)] by (simp add: bs list_all_iff)
qed

lemma compute_paye_nonneg: "list_all band_sound (paye_bands r) \<Longrightarrow> 0 \<le> compute_paye r t"
proof -
  assume s: "list_all band_sound (paye_bands r)"
  have "list_all band_sound bs \<Longrightarrow> 0 \<le> paye_over_bands bs d" for bs d
  proof (induction bs)
    case (Cons b bs)
    have n: "0 \<le> D (band_rate b)" "0 \<le> D (band_base b)" using Cons.prems
      by (auto simp: band_sound_def D_def intro: repr_nonneg)
    have "D (band_over b) \<le> d \<Longrightarrow>
        0 \<le> dadd (dmul (dsub d (D (band_over b))) (D (band_rate b))) (D (band_base b))"
      using n unfolding dadd_def dmul_def dsub_def
      by (auto intro!: d28.nonneg add_nonneg_nonneg mult_nonneg_nonneg)
    then show ?case using Cons by (simp add: money_dec_cedi half_up_nonneg)
  qed simp
  with s show ?thesis by (simp add: compute_paye_def)
qed

subsection \<open>Adding a version leaves history alone\<close>

definition dates_unique :: "statutory_rate list \<Rightarrow> bool" where
  "dates_unique rates \<longleftrightarrow> distinct (map effective_from rates)"

lemma max_row_unique:
  assumes "distinct (map k xs)" "x \<in> set xs" "\<forall>y \<in> set xs. k y \<le> k x"
  shows "max_row k xs = Some x"
proof (cases "max_row k xs")
  case None
  with assms(2) show ?thesis by auto
next
  case (Some y)
  then have "y \<in> set xs" "k y = k x" using max_row_SomeD [OF Some] assms(2,3) by (auto intro: antisym)
  then show ?thesis using Some assms(1,2) by (auto simp: distinct_map inj_on_def)
qed

lemma active_for_iff:
  assumes "dates_unique rates"
  shows "active_for rates d = Some r \<longleftrightarrow> r \<in> set rates \<and> effective_from r \<le> d \<and>
    (\<forall>s \<in> set rates. effective_from s \<le> d \<longrightarrow> effective_from s \<le> effective_from r)" (is "?a = ?b")
proof
  show "?a \<Longrightarrow> ?b" using active_for_Some by blast
  assume ?b
  moreover have "distinct (map effective_from (filter (\<lambda>r. effective_from r \<le> d) rates))"
    using assms by (simp add: dates_unique_def distinct_map_filter)
  ultimately show ?a unfolding active_for_def by (intro max_row_unique) auto
qed

lemma active_for_cong:
  assumes "dates_unique xs" "dates_unique ys"
    "\<And>r. effective_from r \<le> d \<Longrightarrow> r \<in> set xs \<longleftrightarrow> r \<in> set ys"
  shows "active_for xs d = active_for ys d"
proof (cases "active_for ys d")
  case None
  then have "active_for xs d = None" using assms(3) unfolding active_for_None by (metis not_le)
  with None show ?thesis by simp
next
  case (Some r)
  then have "active_for xs d = Some r"
    using assms(3) unfolding active_for_iff [OF assms(1)] active_for_iff [OF assms(2)] by blast
  with Some show ?thesis by simp
qed

lemma new_version_Inr:
  assumes "new_version new_id form rates = Inr rates'"
  shows "\<exists>r. rates' = rates @ [r] \<and> rate_id r = new_id \<and> effective_from r = rf_effective_from form \<and>
    rf_effective_from form \<notin> effective_from ` set rates \<and>
    bands_from_rows (rf_band_rows form) = Inr (paye_bands r) \<and>
    deductions_policy_version r = (if PAYE_2026_EFFECTIVE_FROM \<le> effective_from r then 1 else 0)"
proof -
  obtain bands where b: "bands_from_rows (rf_band_rows form) = Inr bands"
    using assms by (auto simp: new_version_def Let_def bind_result_Inr_iff)
  have n: "first_row (\<lambda>r. effective_from r = rf_effective_from form) rates = None"
    using assms unfolding new_version_def Let_def b by (simp split: if_splits)
  then have "rf_effective_from form \<notin> effective_from ` set rates" by (auto simp: first_row_None_iff)
  then show ?thesis
    using assms unfolding new_version_def Let_def b n PAYE_2026_EFFECTIVE_FROM_def
    by (simp split: if_split_asm) auto
qed

lemma active_for_append:
  assumes "dates_unique rates" "effective_from r \<notin> effective_from ` set rates"
  shows "dates_unique (rates @ [r])" "d < effective_from r \<Longrightarrow> active_for (rates @ [r]) d = active_for rates d"
    "effective_from r \<le> d \<Longrightarrow> \<forall>s \<in> set rates. effective_from s \<le> d \<longrightarrow> effective_from s < effective_from r
      \<Longrightarrow> active_for (rates @ [r]) d = Some r"
proof -
  show u: "dates_unique (rates @ [r])" using assms by (auto simp: dates_unique_def)
  show "d < effective_from r \<Longrightarrow> active_for (rates @ [r]) d = active_for rates d"
    using assms u by (intro active_for_cong) auto
  show "effective_from r \<le> d \<Longrightarrow> \<forall>s \<in> set rates. effective_from s \<le> d \<longrightarrow> effective_from s < effective_from r
      \<Longrightarrow> active_for (rates @ [r]) d = Some r"
    unfolding active_for_iff [OF u] by (auto intro: less_imp_le)
qed

lemma ensure_2026_cases:
  obtains (present) "ensure_paye_2026_rates i rates = rates" "PAYE_2026_EFFECTIVE_FROM \<in> effective_from ` set rates"
  | (no_base) "ensure_paye_2026_rates i rates = rates" "\<forall>r \<in> set rates. PAYE_2026_EFFECTIVE_FROM < effective_from r"
  | (added) r where "ensure_paye_2026_rates i rates = rates @ [r]" "effective_from r = PAYE_2026_EFFECTIVE_FROM"
      "PAYE_2026_EFFECTIVE_FROM \<notin> effective_from ` set rates" "paye_bands r = PAYE_BANDS_2026"
      "deductions_policy_version r = 1" "rate_id r = i"
proof (cases "first_row (\<lambda>r. effective_from r = PAYE_2026_EFFECTIVE_FROM) rates")
  case (Some e)
  then have "PAYE_2026_EFFECTIVE_FROM \<in> effective_from ` set rates" using first_row_SomeD [OF Some] by force
  then show ?thesis using present Some by (simp add: ensure_paye_2026_rates_def)
next
  case None
  then have n: "PAYE_2026_EFFECTIVE_FROM \<notin> effective_from ` set rates" by (auto simp: first_row_None_iff)
  show ?thesis
  proof (cases "max_row effective_from (filter (\<lambda>r. effective_from r < PAYE_2026_EFFECTIVE_FROM) rates)")
    case None': None
    then have "\<forall>r \<in> set rates. PAYE_2026_EFFECTIVE_FROM < effective_from r"
      using n by (auto simp: filter_empty_conv) (metis image_eqI linorder_neqE)
    then show ?thesis using no_base None None' by (simp add: ensure_paye_2026_rates_def)
  next
    case (Some p)
    then show ?thesis using added n None by (simp add: ensure_paye_2026_rates_def)
  qed
qed

lemma ensure_2026_idempotent:
  "ensure_paye_2026_rates j (ensure_paye_2026_rates i rates) = ensure_paye_2026_rates i rates"
proof (rule ensure_2026_cases [of i rates])
  assume "ensure_paye_2026_rates i rates = rates" "PAYE_2026_EFFECTIVE_FROM \<in> effective_from ` set rates"
  moreover from this obtain e where "first_row (\<lambda>r. effective_from r = PAYE_2026_EFFECTIVE_FROM) rates = Some e"
    by (cases "first_row (\<lambda>r. effective_from r = PAYE_2026_EFFECTIVE_FROM) rates") (auto simp: first_row_None_iff)
  ultimately show ?thesis by (simp add: ensure_paye_2026_rates_def)
next
  assume a: "ensure_paye_2026_rates i rates = rates" "\<forall>r \<in> set rates. PAYE_2026_EFFECTIVE_FROM < effective_from r"
  then have "filter (\<lambda>r. effective_from r < PAYE_2026_EFFECTIVE_FROM) rates = []"
    by (auto simp: filter_empty_conv dest: less_asym)
  then show ?thesis by (simp add: a(1)) (simp add: ensure_paye_2026_rates_def split: option.split)
next
  fix r assume a: "ensure_paye_2026_rates i rates = rates @ [r]" "effective_from r = PAYE_2026_EFFECTIVE_FROM"
  then have "first_row (\<lambda>r. effective_from r = PAYE_2026_EFFECTIVE_FROM) (rates @ [r]) \<noteq> None"
    by (simp add: first_row_None_iff)
  then show ?thesis unfolding a(1) by (auto simp: ensure_paye_2026_rates_def)
qed

lemma ensure_2026_unique: "dates_unique rates \<Longrightarrow> dates_unique (ensure_paye_2026_rates i rates)"
  by (rule ensure_2026_cases [of i rates]) (auto simp: dates_unique_def)

lemma ensure_2026_before:
  assumes "dates_unique rates" "d < PAYE_2026_EFFECTIVE_FROM"
  shows "active_for (ensure_paye_2026_rates i rates) d = active_for rates d"
  by (rule ensure_2026_cases [of i rates]) (use assms active_for_append in auto)

lemma seeded_rates:
  "seed_statutory_rates i [] = [workbook_rate i,
     (workbook_rate i)\<lparr>rate_id := i + 1, effective_from := PAYE_2026_EFFECTIVE_FROM,
        deductions_policy_version := 1, paye_bands := PAYE_BANDS_2026\<rparr>]"
  by (simp add: seed_statutory_rates_def ensure_paye_2026_rates_def workbook_rate_def
      PAYE_2026_EFFECTIVE_FROM_def less_pydate_def)

subsection \<open>The seeded versions have short columns\<close>

lemma short_rate_lit: "x = of_int n / 10 ^ 6 \<Longrightarrow> \<bar>n\<bar> \<le> 10 ^ 9 \<Longrightarrow> short_rate (fl x) n"
  by (simp only: short_rate_def)

lemma workbook_rate_short:
  "short_rate (ssf_employee_rate (workbook_rate i)) 55000"
  "short_rate (ssf_employer_rate (workbook_rate i)) 130000"
  "short_rate (overtime_basic_threshold (workbook_rate i)) 500000"
  "short_rate (overtime_rate_low (workbook_rate i)) 50000"
  "short_rate (overtime_rate_high (workbook_rate i)) 100000"
  "short_rate (bonus_rate (workbook_rate i)) 50000"
  "short_rate (bonus_annual_basic_threshold (workbook_rate i)) 150000"
  "short_rate (icu_member_rate (workbook_rate i)) 30000"
  by (simp only: workbook_rate_def statutory_rate.simps; rule short_rate_lit; simp)+


definition version_2026 :: "int \<Rightarrow> statutory_rate" where
  "version_2026 i = (workbook_rate i)\<lparr>rate_id := i + 1, effective_from := PAYE_2026_EFFECTIVE_FROM,
     deductions_policy_version := 1, paye_bands := PAYE_BANDS_2026\<rparr>"

lemma dates_unique_seed: "dates_unique (seed_statutory_rates i [])"
  by (simp add: seeded_rates dates_unique_def workbook_rate_def PAYE_2026_EFFECTIVE_FROM_def)

subsection \<open>Properties\<close>

text \<open>
  C7: every band table the rate form accepts is sound.  Its thresholds are the submitted ones,
  strictly descending as \<open>compute_paye\<close> walks them; its bases never rise towards the lower
  bands; rates lie between 0 and 1; and PAYE under it is never negative, whatever the income.
\<close>
theorem accepted_bands_sound:
  assumes "bands_from_rows rows = Inr bs" "paye_bands r = bs"
  shows "descending bs \<and> list_all band_sound bs \<and>
    mset (map band_over bs) = mset (map (\<lambda>(over, rate). the over) rows) \<and> 0 \<le> compute_paye r income"
  using bands_from_rows_Inr [OF assms(1)] compute_paye_nonneg [of r income] assms(2) by simp

definition two_rows :: "(rat option \<times> rat option) list" where
  "two_rows = [(Some 600, Some 10), (Some 490, Some 5)]"

lemma two_rows_accepted: "\<exists>bs. bands_from_rows two_rows = Inr bs"
  by (simp add: two_rows_def bands_from_rows_def Let_def)

theorem accepted_bands_sound_witness:
  "\<exists>bs. bands_from_rows two_rows = Inr bs \<and> descending bs \<and> length bs = 2 \<and>
     0 \<le> compute_paye ((workbook_rate 1)\<lparr>paye_bands := bs\<rparr>) 1000"
proof -
  obtain bs where bs: "bands_from_rows two_rows = Inr bs" using two_rows_accepted by blast
  from accepted_bands_sound [OF bs, of "(workbook_rate 1)\<lparr>paye_bands := bs\<rparr>" 1000]
  have t: "descending bs" "0 \<le> compute_paye ((workbook_rate 1)\<lparr>paye_bands := bs\<rparr>) 1000"
    "mset (map band_over bs) = mset (map (\<lambda>(over, rate). the over) two_rows)" by simp_all
  have "size (mset (map band_over bs)) = size (mset (map (\<lambda>(over, rate). the over) two_rows))"
    by (simp only: t(3))
  then have "length bs = 2" by (simp only: size_mset length_map) (simp add: two_rows_def)
  with t bs show ?thesis by auto
qed

text \<open>
  C5: adding a rate version never rewrites history.  A version the form accepts goes in as one
  new row; the version in force on every day before its effective date is the one that was
  in force before, two versions never share a date, and the September 2026 deduction policy
  goes exactly with the versions effective from that September.
\<close>
theorem new_version_keeps_history:
  assumes "dates_unique rates" "new_version new_id form rates = Inr rates'"
  shows "dates_unique rates' \<and>
    (\<exists>r. rates' = rates @ [r] \<and> effective_from r = rf_effective_from form \<and>
       deductions_policy_version r = (if PAYE_2026_EFFECTIVE_FROM \<le> rf_effective_from form then 1 else 0)) \<and>
    (\<forall>d. d < rf_effective_from form \<longrightarrow> active_for rates' d = active_for rates d)"
proof -
  obtain r where r: "rates' = rates @ [r]" "effective_from r = rf_effective_from form"
    "rf_effective_from form \<notin> effective_from ` set rates"
    "deductions_policy_version r = (if PAYE_2026_EFFECTIVE_FROM \<le> rf_effective_from form then 1 else 0)"
    using new_version_Inr [OF assms(2)] by auto
  have n: "effective_from r \<notin> effective_from ` set rates" using r(2,3) by simp
  show ?thesis using active_for_append(1) [OF assms(1) n] active_for_append(2) [OF assms(1) n] r by auto
qed

definition form_2027 :: rate_form where
  "form_2027 =
     \<lparr>rf_effective_from = Date 2027 1 1, rf_ssf_employee = fl (55/1000), rf_ssf_employer = fl (13/100),
      rf_band_rows = two_rows, rf_overtime_rate_low = fl (5/100), rf_overtime_rate_high = fl (1/10),
      rf_overtime_basic_threshold = 1/2, rf_bonus_rate = fl (5/100),
      rf_bonus_annual_basic_threshold = fl (15/100), rf_overtime_junior_monthly_threshold = None,
      rf_icu_member_rate = None, rf_ssnit_min_insurable = Some 600, rf_ssnit_max_insurable = None,
      rf_ssnit_min_monthly_remittance = Some 80, rf_provident_fund_tax_limit = Some (1/8),
      rf_overtime_qualifying_annual_limit = None, rf_ssnit_limits_year = Some 2027\<rparr>"

lemma ssf_fractions: "0 < fl (11/200) \<and> fl (11/200) < 1 \<and> 0 < fl (13/100) \<and> fl (13/100) < 1"
  using fl_error [of "11/200"] fl_error [of "13/100"] by (simp add: abs_if split: if_splits)

lemma form_2027_accepted: "\<exists>rates'. new_version 3 form_2027 (seed_statutory_rates 1 []) = Inr rates'"
proof -
  obtain bs where bs: "bands_from_rows two_rows = Inr bs" using two_rows_accepted by blast
  show ?thesis
    by (simp add: new_version_def Let_def form_2027_def bs latest_version_def seeded_rates form_or_def
        workbook_rate_def PAYE_2026_EFFECTIVE_FROM_def less_pydate_def ssf_fractions)
qed

theorem new_version_keeps_history_witness:
  "\<exists>rates'. new_version 3 form_2027 (seed_statutory_rates 1 []) = Inr rates' \<and>
     active_for rates' (Date 2026 12 1) = active_for (seed_statutory_rates 1 []) (Date 2026 12 1)"
proof -
  obtain rates' where n: "new_version 3 form_2027 (seed_statutory_rates 1 []) = Inr rates'"
    using form_2027_accepted by blast
  have "Date 2026 12 1 < rf_effective_from form_2027" by (simp add: form_2027_def less_pydate_def)
  with new_version_keeps_history [OF dates_unique_seed n] n show ?thesis by blast
qed

text \<open>
  The September 2026 rollout is safe on every install.  Running the seed step again
  changes nothing, versions keep distinct dates, no saved version is edited or removed, and
  every period before September 2026 keeps the version it had.
\<close>
theorem paye_2026_rollout:
  assumes "dates_unique rates"
  shows "ensure_paye_2026_rates j (ensure_paye_2026_rates i rates) = ensure_paye_2026_rates i rates \<and>
    dates_unique (ensure_paye_2026_rates i rates) \<and>
    take (length rates) (ensure_paye_2026_rates i rates) = rates \<and>
    (\<forall>d. d < PAYE_2026_EFFECTIVE_FROM \<longrightarrow> active_for (ensure_paye_2026_rates i rates) d = active_for rates d)"
proof -
  have "take (length rates) (ensure_paye_2026_rates i rates) = rates"
    by (rule ensure_2026_cases [of i rates]) simp_all
  then show ?thesis
    using ensure_2026_idempotent ensure_2026_unique [OF assms] ensure_2026_before [OF assms] by blast
qed

theorem paye_2026_rollout_witness:
  "length (ensure_paye_2026_rates 2 [workbook_rate 1]) = 2 \<and>
   active_for (ensure_paye_2026_rates 2 [workbook_rate 1]) (Date 2026 8 1) = Some (workbook_rate 1)"
proof -
  have "dates_unique [workbook_rate 1]" by (simp add: dates_unique_def)
  note t = paye_2026_rollout [OF this, of 3 2]
  have "active_for [workbook_rate 1] (Date 2026 8 1) = Some (workbook_rate 1)"
    by (simp add: active_for_def workbook_rate_def less_eq_pydate_def)
  moreover have "length (ensure_paye_2026_rates 2 [workbook_rate 1]) = 2"
    by (simp add: ensure_paye_2026_rates_def workbook_rate_def PAYE_2026_EFFECTIVE_FROM_def less_pydate_def)
  ultimately show ?thesis using t by (simp add: PAYE_2026_EFFECTIVE_FROM_def less_pydate_def)
qed

text \<open>
  On a fresh install the version in force is determined by the date alone: none before
  2026, the workbook version (historical bands, policy 0) until August 2026, and from 1
  September 2026 the Act 1178 bands under the evidence-based policy.
\<close>
theorem fresh_install_rates:
  "active_for (seed_statutory_rates i []) d =
     (if d < Date 2026 1 1 then None
      else if d < PAYE_2026_EFFECTIVE_FROM then Some (workbook_rate i)
      else Some (version_2026 i))"
  unfolding active_for_def seeded_rates version_2026_def
  by (auto simp: workbook_rate_def PAYE_2026_EFFECTIVE_FROM_def less_pydate_def less_eq_pydate_def)

text \<open>
  C6: under both seeded tables PAYE is a monotone function of taxable income, computed to the
  pesewa by the marginal-band formula, never negative and never more than the income.
\<close>
theorem seeded_paye_monotone:
  assumes "r = workbook_rate i \<or> r = version_2026 i" "0 \<le> t" "t \<le> t'" "t' \<le> 10 ^ 12"
  shows "compute_paye r (cedi t) = cedi (paye_spec (if r = workbook_rate i then historical_bands_spec else bands_2026_spec) t) \<and>
    0 \<le> compute_paye r (cedi t) \<and> compute_paye r (cedi t) \<le> compute_paye r (cedi t') \<and>
    compute_paye r (cedi t) \<le> cedi t"
proof -
  define ss where "ss = (if r = workbook_rate i then historical_bands_spec else bands_2026_spec)"
  have "workbook_rate i \<noteq> version_2026 i" by (simp add: workbook_rate_def version_2026_def)
  then have s: "list_all2 short_band (paye_bands r) ss" "bands_ok ss" "ss = historical_bands_spec \<or> ss = bands_2026_spec"
    using assms(1) historical_bands_short bands_2026_short seeded_bands_ok
    by (auto simp: ss_def workbook_rate_def version_2026_def)
  note e = compute_paye_exact [OF s(1), of t] compute_paye_exact [OF s(1), of t']
  have le: "paye_spec ss t \<le> t"
  proof -
    have "paye_spec ss t \<le> max t 0" using paye_spec_bounds [of ss t] s(3)
      by (auto simp: historical_bands_spec_def bands_2026_spec_def band_le_def)
    with assms(2) show ?thesis by simp
  qed
  from e assms(2-4) paye_spec_mono [OF s(2) assms(3)] paye_spec_nonneg [OF s(2), of t] le show ?thesis
    unfolding ss_def [symmetric] by (simp add: cedi_mono)
qed

theorem seeded_paye_monotone_witness:
  "compute_paye (workbook_rate 1) (cedi 281074) = cedi 38263 \<and>
   compute_paye (workbook_rate 1) (cedi 281074) \<le> compute_paye (workbook_rate 1) (cedi 300000)"
proof -
  have "paye_spec historical_bands_spec 281074 = 38263"
    by code_simp
  then show ?thesis using seeded_paye_monotone [of "workbook_rate 1" 1 281074 300000] by simp
qed

end
