(* ===== verification/Salaried.thy ===== *)
theory Salaried
  imports PayEngine RateAdmin
begin

text \<open>
  \<open>app/payroll_calculations/salaried.py\<close>: one employee's monthly pay.  The keyword
  arguments of \<open>calculate\<close> are the record \<open>period_inputs\<close>, polymorphic in the amounts so
  that the integer reference \<open>salaried_spec\<close> takes the same record over pesewas.
\<close>

subsection \<open>Inputs and result\<close>

record 'a period_inputs =
  si_basic_salary :: 'a
  si_transport_allowance :: 'a
  si_housing_allowance :: 'a
  si_medical_allowance :: 'a
  si_meal_allowance :: 'a
  si_productivity_bonus :: 'a
  si_end_of_year_bonus :: 'a
  si_other_allowances :: 'a
  si_overtime_pay :: 'a
  si_pay_difference :: 'a
  si_pf_fund_employee :: 'a
  si_pf_fund_employer :: 'a
  si_tax_relief_monthly :: 'a
  si_loan_deduction :: 'a
  si_loan_advance :: 'a
  si_welfare_deduction :: 'a
  si_iou_deduction :: 'a
  si_other_deductions :: 'a

definition map_inputs :: "('a \<Rightarrow> 'b) \<Rightarrow> 'a period_inputs \<Rightarrow> 'b period_inputs" where
  "map_inputs f i =
     \<lparr>si_basic_salary = f (si_basic_salary i),
      si_transport_allowance = f (si_transport_allowance i),
      si_housing_allowance = f (si_housing_allowance i),
      si_medical_allowance = f (si_medical_allowance i),
      si_meal_allowance = f (si_meal_allowance i),
      si_productivity_bonus = f (si_productivity_bonus i),
      si_end_of_year_bonus = f (si_end_of_year_bonus i),
      si_other_allowances = f (si_other_allowances i),
      si_overtime_pay = f (si_overtime_pay i),
      si_pay_difference = f (si_pay_difference i),
      si_pf_fund_employee = f (si_pf_fund_employee i),
      si_pf_fund_employer = f (si_pf_fund_employer i),
      si_tax_relief_monthly = f (si_tax_relief_monthly i),
      si_loan_deduction = f (si_loan_deduction i),
      si_loan_advance = f (si_loan_advance i),
      si_welfare_deduction = f (si_welfare_deduction i),
      si_iou_deduction = f (si_iou_deduction i),
      si_other_deductions = f (si_other_deductions i)\<rparr>"

definition input_list :: "'a period_inputs \<Rightarrow> 'a list" where
  "input_list i =
     [si_basic_salary i, si_transport_allowance i, si_housing_allowance i, si_medical_allowance i,
      si_meal_allowance i, si_productivity_bonus i, si_end_of_year_bonus i, si_other_allowances i,
      si_overtime_pay i, si_pay_difference i, si_pf_fund_employee i, si_pf_fund_employer i,
      si_tax_relief_monthly i, si_loan_deduction i, si_loan_advance i, si_welfare_deduction i,
      si_iou_deduction i, si_other_deductions i]"

definition no_inputs :: "'a :: zero period_inputs" where
  "no_inputs =
     \<lparr>si_basic_salary = 0, si_transport_allowance = 0, si_housing_allowance = 0,
      si_medical_allowance = 0, si_meal_allowance = 0, si_productivity_bonus = 0,
      si_end_of_year_bonus = 0, si_other_allowances = 0, si_overtime_pay = 0,
      si_pay_difference = 0, si_pf_fund_employee = 0, si_pf_fund_employer = 0,
      si_tax_relief_monthly = 0, si_loan_deduction = 0, si_loan_advance = 0,
      si_welfare_deduction = 0, si_iou_deduction = 0, si_other_deductions = 0\<rparr>"

record salaried_result =
  sr_inputs :: "rat period_inputs"
  sr_gross_pay :: rat
  sr_ssnit :: rat
  sr_ssf_employer :: rat
  sr_net_basic_wage :: rat
  sr_annual_salary :: rat
  sr_annual_salary_15pct :: rat
  sr_taxable_income :: rat
  sr_ordinary_paye :: rat
  sr_overtime_tax :: rat
  sr_bonus_tax :: rat
  sr_bonus_excess :: rat
  sr_paye :: rat
  sr_total_deductions :: rat
  sr_net_pay :: rat
  sr_pensionable_salary :: rat
  sr_ssnit_remittance :: rat
  sr_tier_2_remittance :: rat
  sr_pf_allowable_employee :: rat
  sr_pf_employer_taxable :: rat
  sr_tax_relief_applied :: rat
  sr_overtime_ordinary_pay :: rat
  sr_deductions_policy_version :: int
  sr_warnings :: "deduction_warning list"

subsection \<open>The calculation\<close>

text \<open>From the adjustments to the result; \<open>i\<close> holds the inputs already rounded to money.\<close>

definition salaried_body ::
  "statutory_rate \<Rightarrow> rat period_inputs \<Rightarrow> rat \<Rightarrow> adjustments \<Rightarrow> salaried_result" where
  "salaried_body rate i bonus_concession_used_ytd adj =
     (let ssf_employee = adj_ssnit adj;
          net_basic = money (fsub (si_basic_salary i) ssf_employee);
          annual_salary = money (fmul (si_basic_salary i) 12);
          annual_salary_15pct = money (fmul annual_salary (bonus_annual_basic_threshold rate));
          overtime_tax = adj_overtime_tax adj;
          (bonus_tax, bonus_excess) =
            split_bonus rate (money (fadd (si_productivity_bonus i) (si_end_of_year_bonus i)))
              (si_basic_salary i) bonus_concession_used_ytd;
          taxable_before_relief = money (fsub
            (fsum net_basic
              [si_transport_allowance i, si_housing_allowance i, si_medical_allowance i,
               si_meal_allowance i, si_other_allowances i, si_pay_difference i, bonus_excess,
               adj_overtime_ordinary_pay adj, adj_pf_employer_taxable adj])
            (adj_pf_allowable_employee adj));
          (relief_applied, taxable_income) =
            apply_relief rate taxable_before_relief (adj_tax_relief_applied adj);
          ordinary_paye = compute_paye rate taxable_income;
          paye = money (fadd (fadd ordinary_paye overtime_tax) bonus_tax);
          gross_pay = money
            (fsum (si_basic_salary i)
              [si_transport_allowance i, si_housing_allowance i, si_medical_allowance i,
               si_meal_allowance i, si_productivity_bonus i, si_end_of_year_bonus i,
               si_other_allowances i, si_overtime_pay i, si_pay_difference i]);
          total_deductions = money
            (fsum ssf_employee
              [paye, si_pf_fund_employee i, si_loan_deduction i, si_welfare_deduction i,
               si_iou_deduction i, si_other_deductions i]);
          net_pay = money (fadd (fsub gross_pay total_deductions) (si_loan_advance i))
      in \<lparr>sr_inputs = i, sr_gross_pay = gross_pay, sr_ssnit = ssf_employee,
          sr_ssf_employer = adj_ssf_employer adj, sr_net_basic_wage = net_basic,
          sr_annual_salary = annual_salary, sr_annual_salary_15pct = annual_salary_15pct,
          sr_taxable_income = taxable_income, sr_ordinary_paye = ordinary_paye,
          sr_overtime_tax = overtime_tax, sr_bonus_tax = bonus_tax,
          sr_bonus_excess = bonus_excess, sr_paye = paye,
          sr_total_deductions = total_deductions, sr_net_pay = net_pay,
          sr_pensionable_salary = adj_pensionable_salary adj,
          sr_ssnit_remittance = adj_ssnit_remittance adj,
          sr_tier_2_remittance = adj_tier_2_remittance adj,
          sr_pf_allowable_employee = adj_pf_allowable_employee adj,
          sr_pf_employer_taxable = adj_pf_employer_taxable adj,
          sr_tax_relief_applied = relief_applied,
          sr_overtime_ordinary_pay = adj_overtime_ordinary_pay adj,
          sr_deductions_policy_version = deductions_policy_version rate,
          sr_warnings = adj_warnings adj\<rparr>)"

definition salaried_adjustments ::
  "statutory_rate \<Rightarrow> rat period_inputs \<Rightarrow> deduction_context option \<Rightarrow> deduction_error + adjustments" where
  "salaried_adjustments rate i context =
     deduction_adjustments rate (si_basic_salary i) (si_overtime_pay i) (si_pf_fund_employee i)
       (si_pf_fund_employer i) (si_tax_relief_monthly i) context"

definition calculate ::
  "statutory_rate \<Rightarrow> rat period_inputs \<Rightarrow> rat \<Rightarrow> deduction_context option
    \<Rightarrow> deduction_error + salaried_result" where
  "calculate rate inputs bonus_concession_used_ytd context =
     (let i = map_inputs money inputs
      in bind_result (salaried_adjustments rate i context)
           (\<lambda>adj. return (salaried_body rate i bonus_concession_used_ytd adj)))"

definition calculate_for_employee ::
  "statutory_rate \<Rightarrow> employee \<Rightarrow> rat period_inputs \<Rightarrow> rat \<Rightarrow> deduction_context option
    \<Rightarrow> deduction_error + salaried_result" where
  "calculate_for_employee rate e inputs used context =
     calculate rate (inputs\<lparr>si_basic_salary := num_or_0 (emp_basic_salary e)\<rparr>) used context"

text \<open>The keyword arguments of the \<open>PayrollItem\<close> row, in the order of the source.\<close>

definition as_payroll_item_fields :: "salaried_result \<Rightarrow> (string \<times> rat) list" where
  "as_payroll_item_fields res =
     (let i = sr_inputs res in
      [(''basic_salary'', si_basic_salary i),
       (''transport_allowance'', si_transport_allowance i),
       (''housing_allowance'', si_housing_allowance i),
       (''medical_allowance'', si_medical_allowance i),
       (''meal_allowance'', si_meal_allowance i),
       (''productivity_bonus'', si_productivity_bonus i),
       (''end_of_year_bonus'', si_end_of_year_bonus i),
       (''other_allowances'', si_other_allowances i),
       (''overtime_pay'', si_overtime_pay i),
       (''pay_difference'', si_pay_difference i),
       (''gross_pay'', sr_gross_pay res),
       (''paye'', sr_paye res),
       (''ssnit'', sr_ssnit res),
       (''ssf_employer'', sr_ssf_employer res),
       (''net_basic_wage'', sr_net_basic_wage res),
       (''annual_salary'', sr_annual_salary res),
       (''annual_salary_15pct'', sr_annual_salary_15pct res),
       (''taxable_income'', sr_taxable_income res),
       (''overtime_tax'', sr_overtime_tax res),
       (''bonus_tax'', sr_bonus_tax res),
       (''bonus_excess'', sr_bonus_excess res),
       (''pf_fund_employee'', si_pf_fund_employee i),
       (''pf_fund_employer'', si_pf_fund_employer i),
       (''pensionable_salary'', sr_pensionable_salary res),
       (''ssnit_remittance'', sr_ssnit_remittance res),
       (''tier_2_remittance'', sr_tier_2_remittance res),
       (''pf_allowable_employee'', sr_pf_allowable_employee res),
       (''pf_employer_taxable'', sr_pf_employer_taxable res),
       (''tax_relief_applied'', sr_tax_relief_applied res),
       (''overtime_ordinary_pay'', sr_overtime_ordinary_pay res),
       (''deductions_policy_version'', of_int (sr_deductions_policy_version res)),
       (''loan_deduction'', si_loan_deduction i),
       (''loan_advance'', si_loan_advance i),
       (''welfare_deduction'', si_welfare_deduction i),
       (''iou_deduction'', si_iou_deduction i),
       (''other_deductions'', si_other_deductions i),
       (''total_deductions'', sr_total_deductions res),
       (''net_pay'', sr_net_pay res)])"

subsection \<open>The engine contract\<close>

definition salaried_produced :: "salaried_result \<Rightarrow> bool" where
  "salaried_produced res \<longleftrightarrow> (\<exists>rate i used adj. res = salaried_body rate i used adj)"

lemma calculate_produced: "calculate rate i used c = Inr res \<Longrightarrow> salaried_produced res"
  by (auto simp: calculate_def salaried_produced_def Let_def bind_result_Inr_iff)

lemmas salaried_body_defs = salaried_body_def Let_def split_def

interpretation salaried: pay_engine salaried_produced sr_gross_pay sr_total_deductions
  "\<lambda>res. si_loan_advance (sr_inputs res)" sr_net_pay
  "\<lambda>res. (sr_ordinary_paye res, sr_overtime_tax res, sr_bonus_tax res)" sr_paye
proof unfold_locales
  fix res :: salaried_result assume "salaried_produced res"
  then obtain rate i used adj where res: "res = salaried_body rate i used adj"
    by (auto simp: salaried_produced_def)
  show "sr_net_pay res = money (fadd (fsub (sr_gross_pay res) (sr_total_deductions res)) (si_loan_advance (sr_inputs res)))"
    by (simp add: res salaried_body_defs)
  show "is_money (sr_gross_pay res) \<and> is_money (sr_total_deductions res)"
    by (simp add: res salaried_body_defs)
  show "(sr_ordinary_paye res, sr_overtime_tax res, sr_bonus_tax res) = (t1, t2, t3)
      \<Longrightarrow> sr_paye res = money (fadd (fadd t1 t2) t3)" for t1 t2 t3
    by (auto simp: res salaried_body_defs)
qed


subsection \<open>The integer reference\<close>

text \<open>
  The same calculation over whole pesewas, with no rounding but the statutory half-up:
  what the worksheet computes.  The adjustments enter as the pesewas of their amounts.
\<close>

definition salaried_spec ::
  "bool \<Rightarrow> (int \<times> int \<times> int) list \<Rightarrow> int \<Rightarrow> int \<Rightarrow> int period_inputs \<Rightarrow> int \<Rightarrow> adjustments \<Rightarrow> pay_spec" where
  "salaried_spec strict ss nb nr i used adj =
     (let ssf = pesewas (adj_ssnit adj);
          net_basic = si_basic_salary i - ssf;
          (bonus_tax, bonus_excess) =
            bonus_spec (si_productivity_bonus i + si_end_of_year_bonus i) (si_basic_salary i) used nb nr;
          before = net_basic + si_transport_allowance i + si_housing_allowance i
            + si_medical_allowance i + si_meal_allowance i + si_other_allowances i
            + si_pay_difference i + bonus_excess + pesewas (adj_overtime_ordinary_pay adj)
            + pesewas (adj_pf_employer_taxable adj) - pesewas (adj_pf_allowable_employee adj);
          (relief, taxable) = relief_spec strict before (pesewas (adj_tax_relief_applied adj));
          paye = paye_spec ss taxable;
          tax = paye + pesewas (adj_overtime_tax adj) + bonus_tax;
          gross = si_basic_salary i + si_transport_allowance i + si_housing_allowance i
            + si_medical_allowance i + si_meal_allowance i + si_productivity_bonus i
            + si_end_of_year_bonus i + si_other_allowances i + si_overtime_pay i + si_pay_difference i;
          deductions = ssf + tax + si_pf_fund_employee i + si_loan_deduction i
            + si_welfare_deduction i + si_iou_deduction i + si_other_deductions i
      in \<lparr>sp_net_basic = net_basic, sp_taxable = taxable, sp_relief = relief,
          sp_ordinary_paye = paye, sp_tax = tax, sp_gross = gross, sp_deductions = deductions,
          sp_net = gross - deductions + si_loan_advance i\<rparr>)"

definition salaried_abs :: "salaried_result \<Rightarrow> pay_spec" where
  "salaried_abs res =
     \<lparr>sp_net_basic = pesewas (sr_net_basic_wage res), sp_taxable = pesewas (sr_taxable_income res),
      sp_relief = pesewas (sr_tax_relief_applied res),
      sp_ordinary_paye = pesewas (sr_ordinary_paye res), sp_tax = pesewas (sr_paye res),
      sp_gross = pesewas (sr_gross_pay res), sp_deductions = pesewas (sr_total_deductions res),
      sp_net = pesewas (sr_net_pay res)\<rparr>"

definition small_inputs :: "int period_inputs \<Rightarrow> bool" where
  "small_inputs i \<longleftrightarrow> list_all (\<lambda>c. \<bar>c\<bar> \<le> 5 * 10 ^ 8) (input_list i)"

definition small_adjustments :: "adjustments \<Rightarrow> bool" where
  "small_adjustments a \<longleftrightarrow> amt (10 ^ 9) (adj_ssnit a) \<and> amt (10 ^ 9) (adj_pf_allowable_employee a) \<and>
     amt (10 ^ 9) (adj_pf_employer_taxable a) \<and> amt (10 ^ 9) (adj_tax_relief_applied a) \<and>
     amt (10 ^ 9) (adj_overtime_tax a) \<and> amt (10 ^ 9) (adj_overtime_ordinary_pay a)"

lemma small_inputsD:
  assumes "small_inputs i"
  shows "\<bar>si_basic_salary i\<bar> \<le> 5 * 10 ^ 8" "\<bar>si_transport_allowance i\<bar> \<le> 5 * 10 ^ 8"
    "\<bar>si_housing_allowance i\<bar> \<le> 5 * 10 ^ 8" "\<bar>si_medical_allowance i\<bar> \<le> 5 * 10 ^ 8"
    "\<bar>si_meal_allowance i\<bar> \<le> 5 * 10 ^ 8" "\<bar>si_productivity_bonus i\<bar> \<le> 5 * 10 ^ 8"
    "\<bar>si_end_of_year_bonus i\<bar> \<le> 5 * 10 ^ 8" "\<bar>si_other_allowances i\<bar> \<le> 5 * 10 ^ 8"
    "\<bar>si_overtime_pay i\<bar> \<le> 5 * 10 ^ 8" "\<bar>si_pay_difference i\<bar> \<le> 5 * 10 ^ 8"
    "\<bar>si_pf_fund_employee i\<bar> \<le> 5 * 10 ^ 8" "\<bar>si_pf_fund_employer i\<bar> \<le> 5 * 10 ^ 8"
    "\<bar>si_tax_relief_monthly i\<bar> \<le> 5 * 10 ^ 8" "\<bar>si_loan_deduction i\<bar> \<le> 5 * 10 ^ 8"
    "\<bar>si_loan_advance i\<bar> \<le> 5 * 10 ^ 8" "\<bar>si_welfare_deduction i\<bar> \<le> 5 * 10 ^ 8"
    "\<bar>si_iou_deduction i\<bar> \<le> 5 * 10 ^ 8" "\<bar>si_other_deductions i\<bar> \<le> 5 * 10 ^ 8"
  using assms by (simp_all add: small_inputs_def input_list_def)

text \<open>The columns a calculation stores, in pesewas: adjustments, bonus split, relief and taxes.\<close>

record pay_columns =
  pc_ssnit :: int
  pc_allowed_pf :: int
  pc_employer_pf :: int
  pc_overtime_tax :: int
  pc_ordinary_ot :: int
  pc_bonus_tax :: int
  pc_bonus_excess :: int
  pc_relief :: int
  pc_taxable :: int
  pc_ordinary_paye :: int

definition columns_bounded :: "pay_columns \<Rightarrow> bool" where
  "columns_bounded p \<longleftrightarrow>
     list_all (\<lambda>c. \<bar>c\<bar> \<le> 10 ^ 9) [pc_ssnit p, pc_allowed_pf p, pc_employer_pf p, pc_overtime_tax p, pc_ordinary_ot p,
       pc_bonus_tax p, pc_bonus_excess p] \<and>
     list_all (\<lambda>c. \<bar>c\<bar> \<le> 95 * 10 ^ 8) [pc_relief p, pc_taxable p, pc_ordinary_paye p]"

lemma columns_boundedD:
  assumes "columns_bounded p"
  shows "\<bar>pc_ssnit p\<bar> \<le> 10 ^ 9" "\<bar>pc_allowed_pf p\<bar> \<le> 10 ^ 9" "\<bar>pc_employer_pf p\<bar> \<le> 10 ^ 9" "\<bar>pc_overtime_tax p\<bar> \<le> 10 ^ 9"
    "\<bar>pc_ordinary_ot p\<bar> \<le> 10 ^ 9" "\<bar>pc_bonus_tax p\<bar> \<le> 10 ^ 9" "\<bar>pc_bonus_excess p\<bar> \<le> 10 ^ 9"
    "\<bar>pc_relief p\<bar> \<le> 95 * 10 ^ 8" "\<bar>pc_ordinary_paye p\<bar> \<le> 95 * 10 ^ 8" "\<bar>pc_taxable p\<bar> \<le> 95 * 10 ^ 8"
  using assms by (simp_all add: columns_bounded_def)

definition before_relief :: "int period_inputs \<Rightarrow> pay_columns \<Rightarrow> int" where
  "before_relief i p = si_basic_salary i - pc_ssnit p + si_transport_allowance i + si_housing_allowance i
     + si_medical_allowance i + si_meal_allowance i + si_other_allowances i + si_pay_difference i + pc_bonus_excess p
     + pc_ordinary_ot p + pc_employer_pf p - pc_allowed_pf p"

definition stored_columns :: "int period_inputs \<Rightarrow> salaried_result \<Rightarrow> pay_columns \<Rightarrow> bool" where
  "stored_columns i res p \<longleftrightarrow>
     sr_ssnit res = cedi (pc_ssnit p) \<and> sr_pf_allowable_employee res = cedi (pc_allowed_pf p) \<and>
     sr_pf_employer_taxable res = cedi (pc_employer_pf p) \<and> sr_overtime_tax res = cedi (pc_overtime_tax p) \<and>
     sr_overtime_ordinary_pay res = cedi (pc_ordinary_ot p) \<and> sr_bonus_tax res = cedi (pc_bonus_tax p) \<and>
     sr_bonus_excess res = cedi (pc_bonus_excess p) \<and> sr_tax_relief_applied res = cedi (pc_relief p) \<and>
     sr_taxable_income res = cedi (pc_taxable p) \<and> sr_ordinary_paye res = cedi (pc_ordinary_paye p) \<and>
     sr_paye res = cedi (pc_ordinary_paye p + pc_overtime_tax p + pc_bonus_tax p) \<and>
     sr_net_basic_wage res = cedi (si_basic_salary i - pc_ssnit p)"

lemma salaried_columns:
  assumes rate: "engine_rate r ss nb nr" and i: "small_inputs i" and a: "small_adjustments adj"
    and used: "\<bar>used\<bar> \<le> 10 ^ 11"
  obtains p where "stored_columns i (salaried_body r (map_inputs cedi i) (cedi used) adj) p" "columns_bounded p"
    "relief_spec (strict_policy r) (before_relief i p) (pesewas (adj_tax_relief_applied adj)) = (pc_relief p, pc_taxable p)"
    "bonus_spec (si_productivity_bonus i + si_end_of_year_bonus i) (si_basic_salary i) used nb nr = (pc_bonus_tax p, pc_bonus_excess p)"
    "pc_ordinary_paye p = paye_spec ss (pc_taxable p)"
proof -
  note ib = small_inputsD [OF i, unfolded abs_le_iff]
  obtain s pfa pft rel ott oto where adj: "adj_ssnit adj = cedi s" "adj_pf_allowable_employee adj = cedi pfa"
    "adj_pf_employer_taxable adj = cedi pft" "adj_tax_relief_applied adj = cedi rel"
    "adj_overtime_tax adj = cedi ott" "adj_overtime_ordinary_pay adj = cedi oto"
    and ab: "\<bar>s\<bar> \<le> 10 ^ 9" "\<bar>pfa\<bar> \<le> 10 ^ 9" "\<bar>pft\<bar> \<le> 10 ^ 9" "\<bar>rel\<bar> \<le> 10 ^ 9" "\<bar>ott\<bar> \<le> 10 ^ 9" "\<bar>oto\<bar> \<le> 10 ^ 9"
    using a by (auto simp: small_adjustments_def amt_def)
  note ab' = ab [unfolded abs_le_iff]
  obtain bt be where bonus: "bonus_spec (si_productivity_bonus i + si_end_of_year_bonus i) (si_basic_salary i) used nb nr = (bt, be)"
    by (cases "bonus_spec (si_productivity_bonus i + si_end_of_year_bonus i) (si_basic_salary i) used nb nr")
  have nr: "0 \<le> nr" "nr \<le> 10 ^ 6" using rate by (auto simp: engine_rate_def)
  have "max (si_productivity_bonus i + si_end_of_year_bonus i) 0 \<le> 10 ^ 9" using ib by simp
  then have bb: "\<bar>bt\<bar> \<le> 10 ^ 9" "\<bar>be\<bar> \<le> 10 ^ 9" using bonus_spec_bounds [OF nr bonus] by auto
  note bb' = bb [unfolded abs_le_iff]
  have split: "split_bonus r (money (fadd (cedi (si_productivity_bonus i)) (cedi (si_end_of_year_bonus i)))) (cedi (si_basic_salary i)) (cedi used) = (cedi bt, cedi be)"
    using bonus_exact [of "si_productivity_bonus i + si_end_of_year_bonus i" "si_basic_salary i" used r nb nr]
      rate ib used bonus by (simp add: engine_rate_def abs_le_iff money_fadd_cedi)
  define before where "before = si_basic_salary i - s + si_transport_allowance i + si_housing_allowance i
    + si_medical_allowance i + si_meal_allowance i + si_other_allowances i + si_pay_difference i + be + oto + pft - pfa"
  have bbefore: "\<bar>before\<bar> \<le> 85 * 10 ^ 8" unfolding before_def using ib ab' bb' by (simp add: abs_le_iff)
  obtain relief taxable where relief: "relief_spec (strict_policy r) before rel = (relief, taxable)"
    by (cases "relief_spec (strict_policy r) before rel")
  then have rb: "\<bar>relief\<bar> \<le> 85 * 10 ^ 8" "\<bar>taxable\<bar> \<le> 95 * 10 ^ 8"
    using bbefore ab' by (auto simp: relief_spec_def Let_def abs_le_iff min_def max_def split: if_splits)
  define paye where "paye = paye_spec ss taxable"
  have pb: "\<bar>paye\<bar> \<le> 95 * 10 ^ 8"
    using paye_spec_bounds [of ss taxable] rate rb by (auto simp: paye_def engine_rate_def)
  have P: "compute_paye r (cedi taxable) = cedi paye"
    using compute_paye_exact [of r ss taxable] rate rb by (simp add: engine_rate_def paye_def)
  have nbas: "money (fsub (cedi (si_basic_salary i)) (cedi s)) = cedi (si_basic_salary i - s)"
    using ib ab' by (simp add: money_fsub_cedi abs_le_iff)
  have bef: "money (fsub (fsum (cedi (si_basic_salary i - s))
      (map cedi [si_transport_allowance i, si_housing_allowance i, si_medical_allowance i,
       si_meal_allowance i, si_other_allowances i, si_pay_difference i, be, oto, pft])) (cedi pfa)) = cedi before"
    using ib ab' bb' by (subst money_fsum_fsub_cedi) (simp_all add: before_def algebra_simps abs_le_iff)
  have tax: "money (fsum (cedi paye) (map cedi [ott, bt])) = cedi (paye + ott + bt)"
    using ab(5) bb(1) pb by (subst money_fsum_cedi) (simp_all add: algebra_simps)
  have rel': "apply_relief r (cedi before) (cedi rel) = (cedi relief, cedi taxable)"
    using apply_relief_exact [of before rel r] bbefore ab relief by simp
  have apes: "pesewas (adj_tax_relief_applied adj) = rel" using ab(4) by (simp add: adj pesewas_cedi)
  define p where "p = \<lparr>pc_ssnit = s, pc_allowed_pf = pfa, pc_employer_pf = pft, pc_overtime_tax = ott, pc_ordinary_ot = oto,
    pc_bonus_tax = bt, pc_bonus_excess = be, pc_relief = relief, pc_taxable = taxable, pc_ordinary_paye = paye\<rparr>"
  have "stored_columns i (salaried_body r (map_inputs cedi i) (cedi used) adj) p"
    using nbas bef tax by (simp add: stored_columns_def p_def salaried_body_def map_inputs_def adj split rel' P Let_def)
  moreover have "columns_bounded p" using ab bb rb pb by (simp add: columns_bounded_def p_def)
  moreover have "before_relief i p = before" by (simp add: before_relief_def before_def p_def)
  ultimately show thesis using that [of p] relief bonus by (simp add: p_def paye_def apes)
qed

lemma salaried_exact:
  assumes rate: "engine_rate r ss nb nr" and i: "small_inputs i" and a: "small_adjustments adj"
    and used: "\<bar>used\<bar> \<le> 10 ^ 11"
  shows "salaried_abs (salaried_body r (map_inputs cedi i) (cedi used) adj) =
    salaried_spec (strict_policy r) ss nb nr i used adj"
proof -
  let ?i = "map_inputs cedi i" and ?res = "salaried_body r (map_inputs cedi i) (cedi used) adj"
  obtain p where p: "stored_columns i ?res p" "columns_bounded p"
    "relief_spec (strict_policy r) (before_relief i p) (pesewas (adj_tax_relief_applied adj)) = (pc_relief p, pc_taxable p)"
    "bonus_spec (si_productivity_bonus i + si_end_of_year_bonus i) (si_basic_salary i) used nb nr = (pc_bonus_tax p, pc_bonus_excess p)"
    "pc_ordinary_paye p = paye_spec ss (pc_taxable p)"
    by (rule salaried_columns [OF assms])
  note st = p(1) [unfolded stored_columns_def] and pb = columns_boundedD [OF p(2)]
  note bounds = small_inputsD [OF i, unfolded abs_le_iff] pb [unfolded abs_le_iff]
  define tax where "tax = pc_ordinary_paye p + pc_overtime_tax p + pc_bonus_tax p"
  have tb: "\<bar>tax\<bar> \<le> 115 * 10 ^ 8" unfolding tax_def using bounds by (simp add: abs_le_iff)
  define g where "g = si_basic_salary i + (si_transport_allowance i + (si_housing_allowance i
    + (si_medical_allowance i + (si_meal_allowance i + (si_productivity_bonus i
    + (si_end_of_year_bonus i + (si_other_allowances i + (si_overtime_pay i + si_pay_difference i))))))))"
  define d where "d = pc_ssnit p + (tax + (si_pf_fund_employee i + (si_loan_deduction i
    + (si_welfare_deduction i + (si_iou_deduction i + si_other_deductions i)))))"
  have gross: "sr_gross_pay ?res = cedi g"
    using bounds(1-10) money_fsum_cedi [of "si_basic_salary i" "[si_transport_allowance i, si_housing_allowance i,
        si_medical_allowance i, si_meal_allowance i, si_productivity_bonus i, si_end_of_year_bonus i,
        si_other_allowances i, si_overtime_pay i, si_pay_difference i]"]
    by (simp add: salaried_body_defs map_inputs_def g_def abs_le_iff)
  have "sr_total_deductions ?res = money (fsum (sr_ssnit ?res) [sr_paye ?res, cedi (si_pf_fund_employee i),
      cedi (si_loan_deduction i), cedi (si_welfare_deduction i), cedi (si_iou_deduction i), cedi (si_other_deductions i)])"
    by (simp add: salaried_body_defs map_inputs_def)
  then have ded: "sr_total_deductions ?res = cedi d"
    using small_inputsD [OF i] pb(1) tb money_fsum_cedi [of "pc_ssnit p" "[tax, si_pf_fund_employee i, si_loan_deduction i,
        si_welfare_deduction i, si_iou_deduction i, si_other_deductions i]"]
    by (simp add: st d_def tax_def)
  have b: "\<bar>g\<bar> \<le> 10 ^ 10" "\<bar>d\<bar> \<le> 2 * 10 ^ 10" 
    unfolding g_def d_def using bounds tb [unfolded abs_le_iff] by (simp_all add: abs_le_iff)
  have lb: "\<bar>si_loan_advance i\<bar> \<le> 10 ^ 10" using small_inputsD(15) [OF i] by simp
  have "sr_net_pay ?res = money (fadd (fsub (sr_gross_pay ?res) (sr_total_deductions ?res)) (cedi (si_loan_advance i)))"
    by (simp add: salaried_body_defs map_inputs_def)
  then have net: "sr_net_pay ?res = cedi (g - d + si_loan_advance i)"
    using b lb by (simp add: gross ded money_net_cedi)
  have nb: "\<bar>g - d + si_loan_advance i\<bar> \<le> 5 * 10 ^ 10" using b lb by linarith
  have sb: "\<bar>si_basic_salary i - pc_ssnit p\<bar> \<le> 10 ^ 10" using small_inputsD(1) [OF i] pb(1) by simp
  have adj: "adj_ssnit adj = cedi (pc_ssnit p)" "adj_pf_allowable_employee adj = cedi (pc_allowed_pf p)"
    "adj_pf_employer_taxable adj = cedi (pc_employer_pf p)" "adj_overtime_tax adj = cedi (pc_overtime_tax p)"
    "adj_overtime_ordinary_pay adj = cedi (pc_ordinary_ot p)"
    using st by (simp_all add: salaried_body_defs)
  have pes: "pesewas (cedi (pc_ssnit p)) = pc_ssnit p" "pesewas (cedi (pc_allowed_pf p)) = pc_allowed_pf p"
    "pesewas (cedi (pc_employer_pf p)) = pc_employer_pf p" "pesewas (cedi (pc_overtime_tax p)) = pc_overtime_tax p"
    "pesewas (cedi (pc_ordinary_ot p)) = pc_ordinary_ot p" "pesewas (cedi (pc_relief p)) = pc_relief p"
    "pesewas (cedi (pc_ordinary_paye p)) = pc_ordinary_paye p" "pesewas (cedi (pc_taxable p)) = pc_taxable p"
    "pesewas (cedi tax) = tax" "pesewas (cedi g) = g" "pesewas (cedi d) = d"
    "pesewas (cedi (g - d + si_loan_advance i)) = g - d + si_loan_advance i"
    "pesewas (cedi (si_basic_salary i - pc_ssnit p)) = si_basic_salary i - pc_ssnit p"
    by (rule pesewas_cedi, rule order_trans, rule pb tb b nb sb, simp)+
  have "salaried_abs ?res =
    \<lparr>sp_net_basic = si_basic_salary i - pc_ssnit p, sp_taxable = pc_taxable p, sp_relief = pc_relief p,
      sp_ordinary_paye = pc_ordinary_paye p, sp_tax = tax, sp_gross = g, sp_deductions = d,
      sp_net = g - d + si_loan_advance i\<rparr>"
    by (simp only: salaried_abs_def gross ded net st pes tax_def [symmetric])
  also have "\<dots> = salaried_spec (strict_policy r) ss nb nr i used adj"
    using p(3-5) by (simp add: salaried_spec_def adj pes before_relief_def Let_def tax_def g_def d_def add.assoc)
  finally show ?thesis .
qed


subsection \<open>Historical runs, end to end\<close>

lemma map_inputs_money: "small_inputs i \<Longrightarrow> map_inputs money (map_inputs cedi i) = map_inputs cedi i"
  using small_inputsD [of i] by (simp add: map_inputs_def money_cedi)

definition nonneg_policy_inputs :: "int period_inputs \<Rightarrow> bool" where
  "nonneg_policy_inputs i \<longleftrightarrow> 0 \<le> si_basic_salary i \<and> 0 \<le> si_overtime_pay i \<and>
     0 \<le> si_pf_fund_employee i \<and> 0 \<le> si_pf_fund_employer i \<and> 0 \<le> si_tax_relief_monthly i"

definition historical_adj :: "int period_inputs \<Rightarrow> int \<Rightarrow> int \<Rightarrow> int \<Rightarrow> int \<Rightarrow> int \<Rightarrow> adjustments" where
  "historical_adj i ne ner nt nl nh =
     (DeductionAdjustments (cedi (si_basic_salary i)))
       \<lparr>adj_ssnit := cedi (tax_on (si_basic_salary i) ne),
        adj_ssf_employer := cedi (tax_on (si_basic_salary i) ner),
        adj_pf_allowable_employee := cedi (si_pf_fund_employee i),
        adj_tax_relief_applied := cedi (si_tax_relief_monthly i),
        adj_overtime_tax := cedi (overtime_spec (si_overtime_pay i) (si_basic_salary i) nt nl nh)\<rparr>"

lemma historical_adj_small:
  assumes "small_inputs i" "nonneg_policy_inputs i" "historical_rate r ne ner nt nl nh"
  shows "small_adjustments (historical_adj i ne ner nt nl nh)"
proof -
  have n: "0 \<le> ne" "ne \<le> 10 ^ 6" "0 \<le> nt" "nt \<le> 10 ^ 6" "0 \<le> nl" "nl \<le> 10 ^ 6" "0 \<le> nh" "nh \<le> 10 ^ 6"
    using assms(3) by (auto simp: historical_rate_def)
  have i: "0 \<le> si_basic_salary i" "0 \<le> si_overtime_pay i" "0 \<le> si_pf_fund_employee i" "0 \<le> si_tax_relief_monthly i"
    using assms(2) by (auto simp: nonneg_policy_inputs_def)
  note b = small_inputsD [OF assms(1)]
  have "0 \<le> overtime_spec (si_overtime_pay i) (si_basic_salary i) nt nl nh"
    "overtime_spec (si_overtime_pay i) (si_basic_salary i) nt nl nh \<le> si_overtime_pay i"
    using overtime_spec_bounds [of "si_overtime_pay i" "si_basic_salary i" nt nl nh] i n by auto
  moreover have "0 \<le> tax_on (si_basic_salary i) ne" "tax_on (si_basic_salary i) ne \<le> si_basic_salary i"
    using tax_on_nonneg tax_on_le i n by auto
  ultimately show ?thesis
    using b(1,9,11,13) i
    by (auto simp: small_adjustments_def historical_adj_def DeductionAdjustments_zero intro!: amt_cedi)
qed

lemma historical_salaried_adjustments:
  assumes "small_inputs i" "nonneg_policy_inputs i" "historical_rate r ne ner nt nl nh"
  shows "salaried_adjustments r (map_inputs cedi i) context = Inr (historical_adj i ne ner nt nl nh)"
  using historical_exact [OF assms(3), of "si_basic_salary i" "si_overtime_pay i" "si_pf_fund_employee i"
      "si_pf_fund_employer i" "si_tax_relief_monthly i" "context"] small_inputsD [OF assms(1)] assms(2)
  by (simp add: salaried_adjustments_def historical_adj_def map_inputs_def nonneg_policy_inputs_def)

lemma workbook_engine_rate: "engine_rate (workbook_rate i) historical_bands_spec 150000 50000"
  using workbook_rate_short [of i] historical_bands_short
  by (simp add: engine_rate_def workbook_rate_def historical_bands_spec_def band_le_def)

lemma workbook_historical_rate: "historical_rate (workbook_rate i) 55000 130000 500000 50000 100000"
  using workbook_rate_short [of i] by (simp add: historical_rate_def strict_policy_def) (simp add: workbook_rate_def)

subsection \<open>Properties\<close>

text \<open>
  C2: the salaried calculator is exact.  On inputs that are whole pesewas (up to five million
  cedis each) every figure of the result - net basic, relief applied, taxable income, PAYE,
  total tax, gross, deductions and net pay - equals the same calculation over integers, so
  no float or Decimal rounding reaches a payslip, under every policy version.
\<close>
theorem salaried_refines_integers:
  assumes "engine_rate r ss nb nr" "small_inputs i" "\<bar>used\<bar> \<le> 10 ^ 11"
    "salaried_adjustments r (map_inputs cedi i) context = Inr adj" "small_adjustments adj"
  shows "\<exists>res. calculate r (map_inputs cedi i) (cedi used) context = Inr res \<and>
    salaried_abs res = salaried_spec (strict_policy r) ss nb nr i used adj"
  using salaried_exact [OF assms(1,2,5,3)] assms(4) map_inputs_money [OF assms(2)]
  by (simp add: calculate_def)

definition AC636 :: "int period_inputs" where
  "AC636 = no_inputs\<lparr>si_basic_salary := 167514, si_overtime_pay := 312530,
     si_transport_allowance := 32393, si_pf_fund_employee := 10000\<rparr>"

lemma AC636_ok: "small_inputs AC636 \<and> nonneg_policy_inputs AC636"
  by (simp add: small_inputs_def input_list_def AC636_def no_inputs_def nonneg_policy_inputs_def)

theorem salaried_refines_integers_witness:
  "\<exists>res. calculate (workbook_rate 1) (map_inputs cedi AC636) (cedi 0) None = Inr res \<and>
     salaried_abs res = salaried_spec False historical_bands_spec 150000 50000 AC636 0
       (historical_adj AC636 55000 130000 500000 50000 100000)"
proof -
  have "strict_policy (workbook_rate 1) = False" by (simp add: strict_policy_def workbook_rate_def)
  note t = salaried_refines_integers [OF workbook_engine_rate [of 1] AC636_ok [THEN conjunct1] _
      historical_salaried_adjustments [OF AC636_ok [THEN conjunct1] AC636_ok [THEN conjunct2] workbook_historical_rate]
      historical_adj_small [OF AC636_ok [THEN conjunct1] AC636_ok [THEN conjunct2] workbook_historical_rate],
      of 0 None, unfolded this]
  show ?thesis by (rule t) simp
qed

lemma historical_salaried_run:
  assumes "engine_rate r ss nb nr" "historical_rate r ne ner nt nl nh"
    "small_inputs i" "nonneg_policy_inputs i" "\<bar>used\<bar> \<le> 10 ^ 11"
  shows "\<exists>res. calculate r (map_inputs cedi i) (cedi used) ctx = Inr res \<and>
    salaried_abs res = salaried_spec False ss nb nr i used (historical_adj i ne ner nt nl nh)"
proof -
  have "\<not> strict_policy r" using assms(2) by (simp add: historical_rate_def)
  then show ?thesis
    using salaried_exact [OF assms(1,3) historical_adj_small [OF assms(3,4,2)] assms(5)]
      historical_salaried_adjustments [OF assms(3,4,2)] map_inputs_money [OF assms(3)]
    by (simp add: calculate_def)
qed

text \<open>
  Runs under the historical policy reproduce the workbook.  For every row of non-negative
  whole-pesewa inputs the calculator returns a result (it never raises), and its figures are
  the worksheet's integer formulas, with SSF and the two overtime rates rounded half up once.
\<close>
theorem historical_salaried_total:
  assumes "engine_rate r ss nb nr" "historical_rate r ne ner nt nl nh"
    "small_inputs i" "nonneg_policy_inputs i" "\<bar>used\<bar> \<le> 10 ^ 11"
  shows "\<exists>res. calculate r (map_inputs cedi i) (cedi used) context = Inr res \<and>
    salaried_abs res = salaried_spec False ss nb nr i used (historical_adj i ne ner nt nl nh)"
  using assms by (rule historical_salaried_run)

lemma AC636_spec:
  "salaried_spec False historical_bands_spec 150000 50000 AC636 0 (historical_adj AC636 55000 130000 500000 50000 100000)
     = \<lparr>sp_net_basic = 158301, sp_taxable = 180694, sp_relief = 0, sp_ordinary_paye = 20696,
        sp_tax = 47761, sp_gross = 512437, sp_deductions = 66974, sp_net = 445463\<rparr>"
proof -
  have t: "tax_on 167514 55000 = 9213" "overtime_spec 312530 167514 500000 50000 100000 = 27065"
    "paye_spec historical_bands_spec 180694 = 20696" by code_simp+
  show ?thesis
    by (simp add: salaried_spec_def historical_adj_def AC636_def no_inputs_def bonus_spec_def relief_spec_def
        DeductionAdjustments_zero t pesewas_cedi)
qed

theorem historical_salaried_total_witness:
  "\<exists>res. calculate (workbook_rate 1) (map_inputs cedi AC636) (cedi 0) None = Inr res \<and>
     pesewas (sr_paye res) = 47761 \<and> pesewas (sr_net_pay res) = 445463"
proof -
  obtain res where res: "calculate (workbook_rate 1) (map_inputs cedi AC636) (cedi 0) None = Inr res"
    "salaried_abs res = salaried_spec False historical_bands_spec 150000 50000 AC636 0
       (historical_adj AC636 55000 130000 500000 50000 100000)"
    using historical_salaried_total [OF workbook_engine_rate [of 1] workbook_historical_rate [of 1]
        AC636_ok [THEN conjunct1] AC636_ok [THEN conjunct2], of 0 None] by auto
  then show ?thesis by (auto simp: AC636_spec salaried_abs_def)
qed

text \<open>
  C4: under the evidence-based policy no concession reaches a payslip without its evidence.
  Relief applied needs an approval reference and a date range covering the period, and never
  exceeds what was approved; an allowable PF deduction needs an approved, referenced scheme;
  the flat overtime tax needs a qualifying junior employee; and taxable income is never
  negative.
\<close>
theorem concessions_need_evidence:
  assumes "calculate r inputs used context = Inr res" "strict_policy r"
  shows "(sr_tax_relief_applied res \<noteq> 0 \<longrightarrow>
       relief_evidenced (period_of r context) (ctx_or_default context) \<and>
       sr_tax_relief_applied res \<le> money_dec (D (approved_relief_monthly (ctx_or_default context)))) \<and>
    (sr_pf_allowable_employee res \<noteq> 0 \<longrightarrow> pf_evidenced (ctx_or_default context)) \<and>
    (sr_overtime_tax res \<noteq> 0 \<longrightarrow> overtime_qualifies r (period_of r context) (ctx_or_default context)) \<and>
    0 \<le> sr_taxable_income res"
proof -
  obtain i adj where adj: "salaried_adjustments r i context = Inr adj" "res = salaried_body r i used adj"
    using assms(1) by (auto simp: calculate_def Let_def bind_result_Inr_iff)
  note c = strict_concessions [OF adj(1) [unfolded salaried_adjustments_def] assms(2)]
  obtain t where rel: "apply_relief r t (adj_tax_relief_applied adj) = (sr_tax_relief_applied res, sr_taxable_income res)"
    and res: "sr_pf_allowable_employee res = adj_pf_allowable_employee adj" "sr_overtime_tax res = adj_overtime_tax adj"
    by (simp add: adj(2) salaried_body_defs)
  have z: "0 \<le> adj_tax_relief_applied adj"
    using relief_nonneg [OF adj(1) [unfolded salaried_adjustments_def]] .
  show ?thesis
    using c apply_relief_strict [OF rel assms(2)] z unfolding res by force
qed


definition relief_context :: deduction_context where
  "relief_context = (DeductionContext (Some (Date 2026 9 1)))
     \<lparr>relief_approval_ref := ''GRA-1'', relief_valid_from := Some (Date 2026 1 1),
      relief_valid_to := Some (Date 2026 12 31), approved_relief_monthly := cedi 10000\<rparr>"

definition relief_inputs :: "int period_inputs" where
  "relief_inputs = no_inputs\<lparr>si_transport_allowance := 100000\<rparr>"

definition relief_adj :: adjustments where
  "relief_adj = (DeductionAdjustments 0)\<lparr>adj_tax_relief_applied := cedi 10000\<rparr>"

lemma version_2026_engine_rate: "engine_rate (version_2026 i) bands_2026_spec 150000 50000"
  using workbook_rate_short [of i] bands_2026_short
  by (simp add: engine_rate_def version_2026_def bands_2026_spec_def band_le_def)

lemma relief_run:
  "salaried_adjustments (version_2026 1) (map_inputs cedi relief_inputs) (Some relief_context) = Inr relief_adj"
  "strict_policy (version_2026 1)" "small_inputs relief_inputs" "small_adjustments relief_adj"
proof -
  show s: "strict_policy (version_2026 1)" by (simp add: strict_policy_def version_2026_def)
  have d: "D (cedi 10000) = 100" using D_cedi [of 10000] by simp
  have m: "money_dec 100 = cedi 10000" "money_dec 0 = 0" by (simp_all add: money_dec_cedi half_up_of_int [of 10000, simplified])
  show "salaried_adjustments (version_2026 1) (map_inputs cedi relief_inputs) (Some relief_context) = Inr relief_adj"
    using s
    by (simp add: salaried_adjustments_def map_inputs_def relief_inputs_def no_inputs_def deduction_adjustments_def
        amount_def Let_def pension_block_def pf_block_def relief_block_def relief_context_def DeductionContext_def
        d m text_eval less_eq_pydate_def overtime_block_def relief_adj_def)
  show "small_inputs relief_inputs" "small_adjustments relief_adj"
    by (auto simp: small_inputs_def input_list_def relief_inputs_def no_inputs_def small_adjustments_def relief_adj_def
        DeductionAdjustments_zero)
qed

theorem concessions_need_evidence_witness:
  "\<exists>res. calculate (version_2026 1) (map_inputs cedi relief_inputs) (cedi 0) (Some relief_context) = Inr res \<and>
     pesewas (sr_tax_relief_applied res) = 10000 \<and> relief_evidenced (Date 2026 9 1) relief_context"
proof -
  let ?res = "salaried_body (version_2026 1) (map_inputs cedi relief_inputs) (cedi 0) relief_adj"
  have c: "calculate (version_2026 1) (map_inputs cedi relief_inputs) (cedi 0) (Some relief_context) = Inr ?res"
    using relief_run(1) map_inputs_money [OF relief_run(3)] by (simp add: calculate_def)
  have "sp_relief (salaried_abs ?res) = 10000"
    by (subst salaried_exact [OF version_2026_engine_rate relief_run(3,4)])
      (simp_all add: salaried_spec_def relief_run(2) relief_inputs_def no_inputs_def relief_adj_def
        DeductionAdjustments_zero bonus_spec_def relief_spec_def pesewas_cedi Let_def)
  then have p: "pesewas (sr_tax_relief_applied ?res) = 10000" by (simp add: salaried_abs_def)
  then have "sr_tax_relief_applied ?res \<noteq> 0" by auto
  with concessions_need_evidence [OF c relief_run(2)] c p show ?thesis
    by (simp add: ctx_or_default_def period_of_def relief_context_def DeductionContext_def)
qed

end
