(* ===== verification/RawCompute.thy ===== *)
theory RawCompute
  imports Salaried
begin

text \<open>
  \<open>app/raw_engine/compute.py\<close> and \<open>app/raw_engine/calc/\<close>: the raw-hours engine, from an
  employee's consolidated hours to a costed payslip.  The integer reference is
  \<open>payslip_spec\<close>; the last section shows the engine and the salaried calculator agree.
\<close>

subsection \<open>The calc modules\<close>

definition bonus_split :: "statutory_rate \<Rightarrow> rat \<Rightarrow> rat \<Rightarrow> rat \<Rightarrow> rat \<times> rat" where
  "bonus_split rate bonus basic_wage already_used = split_bonus rate bonus basic_wage already_used"

definition calc_icu_dues :: "statutory_rate \<Rightarrow> rat \<Rightarrow> bool \<Rightarrow> rat" where
  "calc_icu_dues rate basic_wage is_member = icu_dues rate basic_wage is_member"

definition ordinary_paye :: "statutory_rate \<Rightarrow> rat \<Rightarrow> rat" where
  "ordinary_paye rate taxable_income = compute_paye rate taxable_income"

definition employee_ssnit :: "statutory_rate \<Rightarrow> rat \<Rightarrow> rat" where
  "employee_ssnit rate basic_wage = money_dec (dmul (D basic_wage) (D (ssf_employee_rate rate)))"

definition employer_ssnit :: "statutory_rate \<Rightarrow> rat \<Rightarrow> rat" where
  "employer_ssnit rate basic_wage = money_dec (dmul (D basic_wage) (D (ssf_employer_rate rate)))"

definition calc_net_pay ::
  "rat \<Rightarrow> rat \<Rightarrow> rat \<Rightarrow> rat \<Rightarrow> rat \<Rightarrow> rat \<Rightarrow> rat \<Rightarrow> rat \<Rightarrow> rat \<Rightarrow> rat \<times> rat" where
  "calc_net_pay gross_pay total_tax ssnit icu provident_fund loan welfare donations other =
     (let total_deductions = money (fsum total_tax [ssnit, icu, provident_fund, loan, welfare, donations, other])
      in (money (fsub gross_pay total_deductions), total_deductions))"

subsection \<open>Applying the rate table\<close>

definition CATEGORY_BASIC :: string where "CATEGORY_BASIC = ''basic''"
definition CATEGORY_OVERTIME :: string where "CATEGORY_OVERTIME = ''overtime''"
definition CATEGORY_BONUS :: string where "CATEGORY_BONUS = ''bonus''"
definition CATEGORY_ALLOWANCE :: string where "CATEGORY_ALLOWANCE = ''allowance''"

lemmas category_defs = CATEGORY_BASIC_def CATEGORY_OVERTIME_def CATEGORY_BONUS_def CATEGORY_ALLOWANCE_def

record rate_line =
  line_code :: string
  line_category :: string
  line_hours :: rat
  line_rate :: rat
  line_amount :: rat

record rate_application =
  ra_basic_wage :: rat
  ra_overtime_pay :: rat
  ra_shift_allowances :: rat
  ra_lines :: "rate_line list"
  ra_missing_rate_codes :: "string list"

definition RateApplication :: rate_application where
  "RateApplication = \<lparr>ra_basic_wage = 0, ra_overtime_pay = 0, ra_shift_allowances = 0,
     ra_lines = [], ra_missing_rate_codes = []\<rparr>"

definition add_to_bucket :: "string \<Rightarrow> rat \<Rightarrow> rate_application \<Rightarrow> rate_application" where
  "add_to_bucket category earned res =
     (if category = CATEGORY_BASIC then res\<lparr>ra_basic_wage := money (fadd (ra_basic_wage res) earned)\<rparr>
      else if category = CATEGORY_OVERTIME then res\<lparr>ra_overtime_pay := money (fadd (ra_overtime_pay res) earned)\<rparr>
      else if category = CATEGORY_ALLOWANCE then res\<lparr>ra_shift_allowances := money (fadd (ra_shift_allowances res) earned)\<rparr>
      else res)"

definition apply_rate ::
  "(string \<Rightarrow> (rat \<times> string) option) \<Rightarrow> string \<times> rat \<Rightarrow> rate_application \<Rightarrow> rate_application" where
  "apply_rate rate_lookup entry res =
     (case entry of (pay_code, hours) \<Rightarrow>
        if hours = 0 then res
        else case rate_lookup pay_code of
          None \<Rightarrow> (if pay_code \<in> set (ra_missing_rate_codes res) then res
                   else res\<lparr>ra_missing_rate_codes := ra_missing_rate_codes res @ [pay_code]\<rparr>)
        | Some (hourly_rate, category) \<Rightarrow>
            let earned = money (fmul hours hourly_rate)
            in add_to_bucket category earned
                 (res\<lparr>ra_lines := ra_lines res @
                    [\<lparr>line_code = pay_code, line_category = category, line_hours = hours,
                      line_rate = hourly_rate, line_amount = earned\<rparr>]\<rparr>))"

definition apply_rates ::
  "(string \<times> rat) list \<Rightarrow> (string \<Rightarrow> (rat \<times> string) option) \<Rightarrow> rate_application" where
  "apply_rates hours_by_code rate_lookup =
     foldl (\<lambda>res entry. apply_rate rate_lookup entry res) RateApplication hours_by_code"

subsection \<open>The payslip\<close>

record 'a payslip_inputs =
  pi_basic_wage :: 'a
  pi_overtime_pay :: 'a
  pi_allowances :: 'a
  pi_bonus :: 'a
  pi_pay_difference :: 'a
  pi_tax_relief_monthly :: 'a
  pi_provident_fund :: 'a
  pi_loan :: 'a
  pi_welfare :: 'a
  pi_donations :: 'a
  pi_other_deductions :: 'a
  pi_bonus_concession_used_ytd :: 'a
  pi_pf_fund_employer :: 'a
  pi_staff_id :: string
  pi_is_icu_member :: bool
  pi_employee_id :: "int option"
  pi_context :: "deduction_context option"

record payslip =
  ps_staff_id :: string
  ps_employee_id :: "int option"
  ps_basic_wage :: rat
  ps_employee_ssnit :: rat
  ps_employer_ssnit :: rat
  ps_net_basic_wage :: rat
  ps_annual_salary :: rat
  ps_annual_salary_15pct :: rat
  ps_overtime_pay :: rat
  ps_allowances :: rat
  ps_bonus :: rat
  ps_pay_difference :: rat
  ps_gross_pay :: rat
  ps_taxable_income :: rat
  ps_ordinary_paye :: rat
  ps_overtime_tax :: rat
  ps_bonus_tax :: rat
  ps_bonus_excess :: rat
  ps_total_tax :: rat
  ps_icu :: rat
  ps_provident_fund :: rat
  ps_loan :: rat
  ps_welfare :: rat
  ps_donations :: rat
  ps_other_deductions :: rat
  ps_total_deductions :: rat
  ps_net_pay :: rat
  ps_pf_fund_employer :: rat
  ps_pensionable_salary :: rat
  ps_ssnit_remittance :: rat
  ps_tier_2_remittance :: rat
  ps_pf_allowable_employee :: rat
  ps_pf_employer_taxable :: rat
  ps_tax_relief_applied :: rat
  ps_overtime_ordinary_pay :: rat
  ps_deductions_policy_version :: int
  ps_warnings :: "deduction_warning list"

definition payslip_body :: "rat payslip_inputs \<Rightarrow> statutory_rate \<Rightarrow> adjustments \<Rightarrow> payslip" where
  "payslip_body inputs rate adj =
     (let basic = pi_basic_wage inputs;
          ee_ssf = adj_ssnit adj;
          er_ssf = adj_ssf_employer adj;
          net_basic = money (fsub basic ee_ssf);
          annual = money (fmul basic 12);
          annual_15 = money (fmul annual (bonus_annual_basic_threshold rate));
          ot_tax = adj_overtime_tax adj;
          (b_tax, b_excess) = bonus_split rate (pi_bonus inputs) basic (pi_bonus_concession_used_ytd inputs);
          gross = money (fsum basic
            [pi_overtime_pay inputs, pi_allowances inputs, pi_bonus inputs, pi_pay_difference inputs]);
          taxable_before_relief = money (fsum
            (fsub (fsum net_basic [pi_allowances inputs, pi_pay_difference inputs]) (adj_pf_allowable_employee adj))
            [b_excess, adj_overtime_ordinary_pay adj, adj_pf_employer_taxable adj]);
          (relief_applied, taxable) = apply_relief rate taxable_before_relief (adj_tax_relief_applied adj);
          ord_paye = ordinary_paye rate taxable;
          total_tax = money (fadd (fadd ord_paye ot_tax) b_tax);
          icu = calc_icu_dues rate basic (pi_is_icu_member inputs);
          (net, total_ded) = calc_net_pay gross total_tax ee_ssf icu (pi_provident_fund inputs)
            (pi_loan inputs) (pi_welfare inputs) (pi_donations inputs) (pi_other_deductions inputs)
      in \<lparr>ps_staff_id = pi_staff_id inputs, ps_employee_id = pi_employee_id inputs,
          ps_basic_wage = basic, ps_employee_ssnit = ee_ssf, ps_employer_ssnit = er_ssf,
          ps_net_basic_wage = net_basic, ps_annual_salary = annual,
          ps_annual_salary_15pct = annual_15, ps_overtime_pay = money (pi_overtime_pay inputs),
          ps_allowances = money (pi_allowances inputs), ps_bonus = money (pi_bonus inputs),
          ps_pay_difference = money (pi_pay_difference inputs), ps_gross_pay = gross,
          ps_taxable_income = taxable, ps_ordinary_paye = ord_paye, ps_overtime_tax = ot_tax,
          ps_bonus_tax = b_tax, ps_bonus_excess = b_excess, ps_total_tax = total_tax, ps_icu = icu,
          ps_provident_fund = money (pi_provident_fund inputs), ps_loan = money (pi_loan inputs),
          ps_welfare = money (pi_welfare inputs), ps_donations = money (pi_donations inputs),
          ps_other_deductions = money (pi_other_deductions inputs),
          ps_total_deductions = total_ded, ps_net_pay = net,
          ps_pf_fund_employer = money (pi_pf_fund_employer inputs),
          ps_pensionable_salary = adj_pensionable_salary adj,
          ps_ssnit_remittance = adj_ssnit_remittance adj,
          ps_tier_2_remittance = adj_tier_2_remittance adj,
          ps_pf_allowable_employee = adj_pf_allowable_employee adj,
          ps_pf_employer_taxable = adj_pf_employer_taxable adj,
          ps_tax_relief_applied = relief_applied,
          ps_overtime_ordinary_pay = adj_overtime_ordinary_pay adj,
          ps_deductions_policy_version = deductions_policy_version rate,
          ps_warnings = adj_warnings adj\<rparr>)"

definition payslip_adjustments :: "rat payslip_inputs \<Rightarrow> statutory_rate \<Rightarrow> deduction_error + adjustments" where
  "payslip_adjustments inputs rate =
     deduction_adjustments rate (pi_basic_wage inputs) (pi_overtime_pay inputs) (pi_provident_fund inputs)
       (pi_pf_fund_employer inputs) (pi_tax_relief_monthly inputs) (pi_context inputs)"

definition compute_payslip :: "rat payslip_inputs \<Rightarrow> statutory_rate \<Rightarrow> deduction_error + payslip" where
  "compute_payslip inputs rate =
     bind_result (payslip_adjustments inputs rate) (\<lambda>adj. return (payslip_body inputs rate adj))"


text \<open>\<open>overtime_source\<close>, the one text among the fields, is the constant \<open>computed\<close>.\<close>

definition payslip_item_fields :: "payslip \<Rightarrow> (string \<times> rat) list" where
  "payslip_item_fields p =
     [(''basic_salary'', ps_basic_wage p),
      (''overtime_pay'', ps_overtime_pay p),
      (''productivity_bonus'', ps_bonus p),
      (''other_allowances'', ps_allowances p),
      (''pay_difference'', ps_pay_difference p),
      (''gross_pay'', ps_gross_pay p),
      (''paye'', ps_total_tax p),
      (''ssnit'', ps_employee_ssnit p),
      (''ssf_employer'', ps_employer_ssnit p),
      (''net_basic_wage'', ps_net_basic_wage p),
      (''annual_salary'', ps_annual_salary p),
      (''annual_salary_15pct'', ps_annual_salary_15pct p),
      (''taxable_income'', ps_taxable_income p),
      (''overtime_tax'', ps_overtime_tax p),
      (''bonus_tax'', ps_bonus_tax p),
      (''bonus_excess'', ps_bonus_excess p),
      (''icu_dues'', ps_icu p),
      (''pf_fund_employee'', ps_provident_fund p),
      (''pf_fund_employer'', ps_pf_fund_employer p),
      (''pensionable_salary'', ps_pensionable_salary p),
      (''ssnit_remittance'', ps_ssnit_remittance p),
      (''tier_2_remittance'', ps_tier_2_remittance p),
      (''pf_allowable_employee'', ps_pf_allowable_employee p),
      (''pf_employer_taxable'', ps_pf_employer_taxable p),
      (''tax_relief_applied'', ps_tax_relief_applied p),
      (''overtime_ordinary_pay'', ps_overtime_ordinary_pay p),
      (''deductions_policy_version'', of_int (ps_deductions_policy_version p)),
      (''loan_deduction'', ps_loan p),
      (''welfare_deduction'', ps_welfare p),
      (''other_deductions'', money (fadd (ps_other_deductions p) (ps_donations p))),
      (''total_deductions'', ps_total_deductions p),
      (''net_pay'', ps_net_pay p)]"

subsection \<open>The engine contract\<close>

definition payslip_produced :: "payslip \<Rightarrow> bool" where
  "payslip_produced p \<longleftrightarrow> (\<exists>inputs rate adj. p = payslip_body inputs rate adj)"

lemma compute_payslip_produced: "compute_payslip i r = Inr p \<Longrightarrow> payslip_produced p"
  by (auto simp: compute_payslip_def payslip_produced_def bind_result_Inr_iff)

lemmas payslip_body_defs = payslip_body_def calc_net_pay_def Let_def split_def

interpretation raw: pay_engine payslip_produced ps_gross_pay ps_total_deductions "\<lambda>p. 0" ps_net_pay
  "\<lambda>p. (ps_ordinary_paye p, ps_overtime_tax p, ps_bonus_tax p)" ps_total_tax
proof unfold_locales
  fix p :: payslip assume "payslip_produced p"
  then obtain i r adj where p: "p = payslip_body i r adj" by (auto simp: payslip_produced_def)
  show "ps_net_pay p = money (fadd (fsub (ps_gross_pay p) (ps_total_deductions p)) 0)"
    by (simp add: p payslip_body_defs fadd_def fsub_def)
  show "is_money (ps_gross_pay p) \<and> is_money (ps_total_deductions p)" by (simp add: p payslip_body_defs)
  show "(ps_ordinary_paye p, ps_overtime_tax p, ps_bonus_tax p) = (t1, t2, t3)
      \<Longrightarrow> ps_total_tax p = money (fadd (fadd t1 t2) t3)" for t1 t2 t3
    by (auto simp: p payslip_body_defs)
qed

subsection \<open>The integer reference\<close>

definition payslip_spec ::
  "bool \<Rightarrow> (int \<times> int \<times> int) list \<Rightarrow> int \<Rightarrow> int \<Rightarrow> int \<Rightarrow> int payslip_inputs \<Rightarrow> adjustments \<Rightarrow> pay_spec" where
  "payslip_spec strict ss nb nr ni i adj =
     (let ssf = pesewas (adj_ssnit adj);
          net_basic = pi_basic_wage i - ssf;
          (bonus_tax, bonus_excess) = bonus_spec (pi_bonus i) (pi_basic_wage i) (pi_bonus_concession_used_ytd i) nb nr;
          before = net_basic + pi_allowances i + pi_pay_difference i - pesewas (adj_pf_allowable_employee adj)
            + bonus_excess + pesewas (adj_overtime_ordinary_pay adj) + pesewas (adj_pf_employer_taxable adj);
          (relief, taxable) = relief_spec strict before (pesewas (adj_tax_relief_applied adj));
          paye = paye_spec ss taxable;
          tax = paye + pesewas (adj_overtime_tax adj) + bonus_tax;
          icu = (if pi_is_icu_member i then tax_on (pi_basic_wage i) ni else 0);
          gross = pi_basic_wage i + pi_overtime_pay i + pi_allowances i + pi_bonus i + pi_pay_difference i;
          deductions = tax + ssf + icu + pi_provident_fund i + pi_loan i + pi_welfare i
            + pi_donations i + pi_other_deductions i
      in \<lparr>sp_net_basic = net_basic, sp_taxable = taxable, sp_relief = relief,
          sp_ordinary_paye = paye, sp_tax = tax, sp_gross = gross, sp_deductions = deductions,
          sp_net = gross - deductions\<rparr>)"

definition payslip_abs :: "payslip \<Rightarrow> pay_spec" where
  "payslip_abs p =
     \<lparr>sp_net_basic = pesewas (ps_net_basic_wage p), sp_taxable = pesewas (ps_taxable_income p),
      sp_relief = pesewas (ps_tax_relief_applied p), sp_ordinary_paye = pesewas (ps_ordinary_paye p),
      sp_tax = pesewas (ps_total_tax p), sp_gross = pesewas (ps_gross_pay p),
      sp_deductions = pesewas (ps_total_deductions p), sp_net = pesewas (ps_net_pay p)\<rparr>"

definition payslip_cedi :: "int payslip_inputs \<Rightarrow> rat payslip_inputs" where
  "payslip_cedi i =
     \<lparr>pi_basic_wage = cedi (pi_basic_wage i), pi_overtime_pay = cedi (pi_overtime_pay i),
      pi_allowances = cedi (pi_allowances i), pi_bonus = cedi (pi_bonus i),
      pi_pay_difference = cedi (pi_pay_difference i),
      pi_tax_relief_monthly = cedi (pi_tax_relief_monthly i),
      pi_provident_fund = cedi (pi_provident_fund i), pi_loan = cedi (pi_loan i),
      pi_welfare = cedi (pi_welfare i), pi_donations = cedi (pi_donations i),
      pi_other_deductions = cedi (pi_other_deductions i),
      pi_bonus_concession_used_ytd = cedi (pi_bonus_concession_used_ytd i),
      pi_pf_fund_employer = cedi (pi_pf_fund_employer i), pi_staff_id = pi_staff_id i,
      pi_is_icu_member = pi_is_icu_member i, pi_employee_id = pi_employee_id i, pi_context = pi_context i\<rparr>"

definition small_payslip :: "int payslip_inputs \<Rightarrow> bool" where
  "small_payslip i \<longleftrightarrow> list_all (\<lambda>c. \<bar>c\<bar> \<le> 5 * 10 ^ 8)
     [pi_basic_wage i, pi_overtime_pay i, pi_allowances i, pi_bonus i, pi_pay_difference i,
      pi_tax_relief_monthly i, pi_provident_fund i, pi_loan i, pi_welfare i, pi_donations i,
      pi_other_deductions i, pi_bonus_concession_used_ytd i, pi_pf_fund_employer i]"

lemma small_payslipD:
  assumes "small_payslip i"
  shows "\<bar>pi_basic_wage i\<bar> \<le> 5 * 10 ^ 8" "\<bar>pi_overtime_pay i\<bar> \<le> 5 * 10 ^ 8"
    "\<bar>pi_allowances i\<bar> \<le> 5 * 10 ^ 8" "\<bar>pi_bonus i\<bar> \<le> 5 * 10 ^ 8"
    "\<bar>pi_pay_difference i\<bar> \<le> 5 * 10 ^ 8" "\<bar>pi_tax_relief_monthly i\<bar> \<le> 5 * 10 ^ 8"
    "\<bar>pi_provident_fund i\<bar> \<le> 5 * 10 ^ 8" "\<bar>pi_loan i\<bar> \<le> 5 * 10 ^ 8"
    "\<bar>pi_welfare i\<bar> \<le> 5 * 10 ^ 8" "\<bar>pi_donations i\<bar> \<le> 5 * 10 ^ 8"
    "\<bar>pi_other_deductions i\<bar> \<le> 5 * 10 ^ 8" "\<bar>pi_bonus_concession_used_ytd i\<bar> \<le> 5 * 10 ^ 8"
    "\<bar>pi_pf_fund_employer i\<bar> \<le> 5 * 10 ^ 8"
  using assms by (simp_all add: small_payslip_def)

lemma tax_on_abs: "\<bar>c\<bar> \<le> b \<Longrightarrow> 0 \<le> n \<Longrightarrow> n \<le> 10 ^ 6 \<Longrightarrow> \<bar>tax_on c n\<bar> \<le> b"
proof (cases "0 \<le> c")
  case True
  assume "\<bar>c\<bar> \<le> b" "0 \<le> n" "n \<le> 10 ^ 6"
  then show ?thesis using True tax_on_nonneg [of c n] tax_on_le [of c n] by linarith
next
  case False
  assume "\<bar>c\<bar> \<le> b" "0 \<le> n" "n \<le> 10 ^ 6"
  moreover have "tax_on (- c) n = - tax_on c n" by (simp add: tax_on_def flip: half_up_odd)
  ultimately show ?thesis using False tax_on_nonneg [of "- c" n] tax_on_le [of "- c" n] by linarith
qed

lemma payslip_exact:
  assumes rate: "engine_rate r ss nb nr" and icu: "short_rate (icu_member_rate r) ni" "0 \<le> ni" "ni \<le> 10 ^ 6"
    and i: "small_payslip i" and a: "small_adjustments adj"
  shows "payslip_abs (payslip_body (payslip_cedi i) r adj) = payslip_spec (strict_policy r) ss nb nr ni i adj"
proof -
  note ib = small_payslipD [OF i, unfolded abs_le_iff]
  obtain s pfa pft rel ott oto where adj: "adj_ssnit adj = cedi s" "adj_pf_allowable_employee adj = cedi pfa"
    "adj_pf_employer_taxable adj = cedi pft" "adj_tax_relief_applied adj = cedi rel"
    "adj_overtime_tax adj = cedi ott" "adj_overtime_ordinary_pay adj = cedi oto"
    and ab: "\<bar>s\<bar> \<le> 10 ^ 9" "\<bar>pfa\<bar> \<le> 10 ^ 9" "\<bar>pft\<bar> \<le> 10 ^ 9" "\<bar>rel\<bar> \<le> 10 ^ 9" "\<bar>ott\<bar> \<le> 10 ^ 9" "\<bar>oto\<bar> \<le> 10 ^ 9"
    using a by (auto simp: small_adjustments_def amt_def)
  note ab = ab [unfolded abs_le_iff]
  obtain bt be where bonus: "bonus_spec (pi_bonus i) (pi_basic_wage i) (pi_bonus_concession_used_ytd i) nb nr = (bt, be)"
    by (cases "bonus_spec (pi_bonus i) (pi_basic_wage i) (pi_bonus_concession_used_ytd i) nb nr")
  have nr: "0 \<le> nr" "nr \<le> 10 ^ 6" using rate by (auto simp: engine_rate_def)
  have "max (pi_bonus i) 0 \<le> 10 ^ 9" using ib by simp
  then have bb: "\<bar>bt\<bar> \<le> 10 ^ 9" "\<bar>be\<bar> \<le> 10 ^ 9" using bonus_spec_bounds [OF nr bonus] by auto
  note bb = bb [unfolded abs_le_iff]
  have split: "bonus_split r (cedi (pi_bonus i)) (cedi (pi_basic_wage i)) (cedi (pi_bonus_concession_used_ytd i)) = (cedi bt, cedi be)"
    using bonus_exact [of "pi_bonus i" "pi_basic_wage i" "pi_bonus_concession_used_ytd i" r nb nr]
      rate ib bonus by (simp add: engine_rate_def abs_le_iff bonus_split_def)
  define before where "before = pi_basic_wage i - s + pi_allowances i + pi_pay_difference i - pfa + be + oto + pft"
  have bbefore: "\<bar>before\<bar> \<le> 85 * 10 ^ 8" unfolding before_def using ib ab bb by (simp add: abs_le_iff)
  obtain relief taxable where relief: "relief_spec (strict_policy r) before rel = (relief, taxable)"
    by (cases "relief_spec (strict_policy r) before rel")
  then have rb: "\<bar>relief\<bar> \<le> 85 * 10 ^ 8" "\<bar>taxable\<bar> \<le> 95 * 10 ^ 8"
    using bbefore ab by (auto simp: relief_spec_def Let_def abs_le_iff min_def max_def split: if_splits)
  define paye where "paye = paye_spec ss taxable"
  have pb: "\<bar>paye\<bar> \<le> 95 * 10 ^ 8"
    using paye_spec_bounds [of ss taxable] rate rb by (auto simp: paye_def engine_rate_def)
  have P: "ordinary_paye r (cedi taxable) = cedi paye"
    using compute_paye_exact [of r ss taxable] rate rb by (simp add: engine_rate_def paye_def ordinary_paye_def)
  define icu where "icu = (if pi_is_icu_member i then tax_on (pi_basic_wage i) ni else 0)"
  have cb: "\<bar>icu\<bar> \<le> 10 ^ 9" using tax_on_abs [of "pi_basic_wage i" "10 ^ 9" ni] icu(2,3) ib(1) by (simp add: icu_def abs_le_iff)
  have I: "calc_icu_dues r (cedi (pi_basic_wage i)) (pi_is_icu_member i) = cedi icu"
    using icu_dues_exact [OF _ icu(1), of "pi_basic_wage i"] ib(1)
    by (simp add: calc_icu_dues_def icu_def abs_le_iff)
  let ?g = "pi_basic_wage i + (pi_overtime_pay i + (pi_allowances i + (pi_bonus i + pi_pay_difference i)))"
  let ?d = "paye + ott + bt + (s + (icu + (pi_provident_fund i + (pi_loan i + (pi_welfare i + (pi_donations i + pi_other_deductions i))))))"
  have nbas: "money (fsub (cedi (pi_basic_wage i)) (cedi s)) = cedi (pi_basic_wage i - s)"
    using ib ab by (simp add: money_fsub_cedi abs_le_iff)
  have bef: "money (fsum (fsub (fsum (cedi (pi_basic_wage i - s)) (map cedi [pi_allowances i, pi_pay_difference i])) (cedi pfa))
      (map cedi [be, oto, pft])) = cedi before"
    using ib ab bb by (subst money_fsum_fsub_fsum_cedi) (simp_all add: before_def algebra_simps abs_le_iff)
  have tax: "money (fsum (cedi paye) (map cedi [ott, bt])) = cedi (paye + ott + bt)"
    using ab bb pb by (subst money_fsum_cedi) (simp_all add: algebra_simps abs_le_iff)
  have gross: "money (fsum (cedi (pi_basic_wage i))
      (map cedi [pi_overtime_pay i, pi_allowances i, pi_bonus i, pi_pay_difference i])) = cedi ?g"
    using ib by (subst money_fsum_cedi) (simp_all add: abs_le_iff)
  have ded: "money (fsum (cedi (paye + ott + bt))
      (map cedi [s, icu, pi_provident_fund i, pi_loan i, pi_welfare i, pi_donations i, pi_other_deductions i])) = cedi ?d"
    using ib ab bb pb cb by (subst money_fsum_cedi) (simp_all add: abs_le_iff)
  obtain g d where gd: "g = ?g" "d = ?d" by blast
  have b: "\<bar>g\<bar> \<le> 10 ^ 10" "\<bar>d\<bar> \<le> 2 * 10 ^ 10" unfolding gd using ib ab bb pb cb by (simp_all add: abs_le_iff)
  have sb: "\<bar>pi_basic_wage i - s\<bar> \<le> 10 ^ 10" using ib(1) ab(1) by (simp add: abs_le_iff)
  have tb: "\<bar>paye + ott + bt\<bar> \<le> 2 * 10 ^ 10" using pb ab(5) bb(1) by (simp add: abs_le_iff)
  have net: "money (fsub (cedi g) (cedi d)) = cedi (g - d)"
    using b by (intro money_fsub_cedi) auto
  have nb: "\<bar>g - d\<bar> \<le> 5 * 10 ^ 10" using b by linarith
  have pes: "pesewas (cedi (pi_basic_wage i - s)) = pi_basic_wage i - s" "pesewas (cedi taxable) = taxable"
    "pesewas (cedi relief) = relief" "pesewas (cedi paye) = paye"
    "pesewas (cedi (paye + ott + bt)) = paye + ott + bt" "pesewas (cedi g) = g" "pesewas (cedi d) = d"
    "pesewas (cedi (g - d)) = g - d"
    by (rule pesewas_cedi, rule order_trans, rule sb tb rb pb b nb, simp)+
  have apes: "pesewas (cedi s) = s" "pesewas (cedi pfa) = pfa" "pesewas (cedi pft) = pft"
    "pesewas (cedi rel) = rel" "pesewas (cedi ott) = ott" "pesewas (cedi oto) = oto"
    by (rule pesewas_cedi; use ab in \<open>simp add: abs_le_iff\<close>)+
  have rel': "apply_relief r (cedi before) (cedi rel) = (cedi relief, cedi taxable)"
    using apply_relief_exact [of before rel r] bbefore ab relief by (simp add: abs_le_iff)
  have beq: "pi_basic_wage i - s + pi_allowances i + pi_pay_difference i - pfa + be + oto + pft = before"
    by (simp add: before_def)
  have "payslip_spec (strict_policy r) ss nb nr ni i adj =
    \<lparr>sp_net_basic = pi_basic_wage i - s, sp_taxable = taxable, sp_relief = relief,
      sp_ordinary_paye = paye, sp_tax = paye + ott + bt, sp_gross = g, sp_deductions = d, sp_net = g - d\<rparr>"
    unfolding payslip_spec_def adj apes bonus by (simp add: beq relief paye_def Let_def gd icu_def)
  moreover have "payslip_abs (payslip_body (payslip_cedi i) r adj) =
    \<lparr>sp_net_basic = pi_basic_wage i - s, sp_taxable = taxable, sp_relief = relief,
      sp_ordinary_paye = paye, sp_tax = paye + ott + bt, sp_gross = g, sp_deductions = d, sp_net = g - d\<rparr>"
    using nbas bef tax gross [folded gd] ded [folded gd] net pes
    by (simp add: payslip_abs_def payslip_body_def calc_net_pay_def adj payslip_cedi_def split rel' P I Let_def)
  ultimately show ?thesis by simp
qed


subsection \<open>The rate table accounts for every hour\<close>

definition rate_lines :: "(string \<Rightarrow> (rat \<times> string) option) \<Rightarrow> string \<times> rat \<Rightarrow> rate_line list" where
  "rate_lines rate_lookup entry =
     (if snd entry = 0 then []
      else case rate_lookup (fst entry) of None \<Rightarrow> []
      | Some (r, c) \<Rightarrow> [\<lparr>line_code = fst entry, line_category = c, line_hours = snd entry, line_rate = r,
          line_amount = money (fmul (snd entry) r)\<rparr>])"

definition bucket_sum :: "string \<Rightarrow> rate_line list \<Rightarrow> int" where
  "bucket_sum category ls = sum_list (map (\<lambda>l. pesewas (line_amount l)) (filter (\<lambda>l. line_category l = category) ls))"

lemma bucket_sum_simps [simp]:
  "bucket_sum c [] = 0" "bucket_sum c (xs @ ys) = bucket_sum c xs + bucket_sum c ys"
  "bucket_sum c [l] = (if line_category l = c then pesewas (line_amount l) else 0)"
  by (simp_all add: bucket_sum_def)

lemma apply_rates_snoc: "apply_rates (hs @ [e]) lk = apply_rate lk e (apply_rates hs lk)"
  by (simp add: apply_rates_def)

lemma apply_rates_Nil: "apply_rates [] lk = RateApplication"
  by (simp add: apply_rates_def)

lemma add_to_bucket_frame [simp]:
  "ra_lines (add_to_bucket c x res) = ra_lines res"
  "ra_missing_rate_codes (add_to_bucket c x res) = ra_missing_rate_codes res"
  by (simp_all add: add_to_bucket_def)

lemma apply_rate_lines: "ra_lines (apply_rate lk e res) = ra_lines res @ rate_lines lk e"
  by (auto simp: apply_rate_def rate_lines_def Let_def split: prod.splits option.splits)

lemma apply_rates_lines: "ra_lines (apply_rates hs lk) = concat (map (rate_lines lk) hs)"
  by (induction hs rule: rev_induct) (simp_all add: apply_rates_Nil apply_rates_snoc apply_rate_lines RateApplication_def)

lemma apply_rates_missing:
  "set (ra_missing_rate_codes (apply_rates hs lk)) = {c. \<exists>h. (c, h) \<in> set hs \<and> h \<noteq> 0 \<and> lk c = None} \<and>
   distinct (ra_missing_rate_codes (apply_rates hs lk))"
proof (induction hs rule: rev_induct)
  case Nil
  then show ?case by (simp add: apply_rates_Nil RateApplication_def)
next
  case (snoc e hs)
  obtain c h where e: "e = (c, h)" by (cases e)
  show ?case
  proof (cases "h = 0 \<or> lk c \<noteq> None")
    case True
    then have "ra_missing_rate_codes (apply_rates (hs @ [e]) lk) = ra_missing_rate_codes (apply_rates hs lk)"
      by (auto simp: apply_rates_snoc apply_rate_def e Let_def split: option.splits)
    with True snoc e show ?thesis by auto
  next
    case False
    then have n: "lk c = None" "h \<noteq> 0" by (auto simp del: not_None_eq)
    then have "set (ra_missing_rate_codes (apply_rates (hs @ [e]) lk)) = insert c (set (ra_missing_rate_codes (apply_rates hs lk)))
      \<and> distinct (ra_missing_rate_codes (apply_rates (hs @ [e]) lk))"
      using snoc by (auto simp: apply_rates_snoc apply_rate_def e)
    with n snoc e show ?thesis by auto
  qed
qed

definition small_line :: "rate_line \<Rightarrow> bool" where
  "small_line l \<longleftrightarrow> amt (10 ^ 8) (line_amount l)"

lemma bucket_sum_bound: "list_all small_line ls \<Longrightarrow> \<bar>bucket_sum c ls\<bar> \<le> int (length ls) * 10 ^ 8"
proof (induction ls)
  case (Cons l ls)
  then have "\<bar>pesewas (line_amount l)\<bar> \<le> 10 ^ 8" using amtE(2) [of "10 ^ 8" "line_amount l"] by (simp add: small_line_def)
  moreover have "bucket_sum c (l # ls) = (if line_category l = c then pesewas (line_amount l) else 0) + bucket_sum c ls"
    by (simp add: bucket_sum_def)
  ultimately show ?case using Cons by (auto simp: distrib_right)
qed (simp add: bucket_sum_def)

lemma apply_rates_buckets:
  assumes "list_all small_line (ra_lines (apply_rates hs lk))" "length (ra_lines (apply_rates hs lk)) \<le> 400"
  shows "ra_basic_wage (apply_rates hs lk) = cedi (bucket_sum CATEGORY_BASIC (ra_lines (apply_rates hs lk))) \<and>
    ra_overtime_pay (apply_rates hs lk) = cedi (bucket_sum CATEGORY_OVERTIME (ra_lines (apply_rates hs lk))) \<and>
    ra_shift_allowances (apply_rates hs lk) = cedi (bucket_sum CATEGORY_ALLOWANCE (ra_lines (apply_rates hs lk)))"
  using assms
proof (induction hs rule: rev_induct)
  case Nil
  then show ?case by (simp add: apply_rates_Nil RateApplication_def)
next
  case (snoc e hs)
  let ?r = "apply_rates hs lk"
  have l: "ra_lines (apply_rates (hs @ [e]) lk) = ra_lines ?r @ rate_lines lk e"
    by (simp add: apply_rates_snoc apply_rate_lines)
  then have s: "list_all small_line (ra_lines ?r)" "length (ra_lines ?r) \<le> 400" "list_all small_line (rate_lines lk e)"
    using snoc.prems by auto
  note ih = snoc.IH [OF s(1,2)]
  have b: "\<bar>bucket_sum c (ra_lines ?r)\<bar> \<le> 50000000000" for c
    using bucket_sum_bound [OF s(1), of c] s(2) by simp
  obtain c h where e: "e = (c, h)" by (cases e)
  show ?case
  proof (cases "h = 0 \<or> lk c = None")
    case True
    then have "rate_lines lk e = []" "apply_rates (hs @ [e]) lk = ?r \<or>
        (\<exists>ms. apply_rates (hs @ [e]) lk = ?r\<lparr>ra_missing_rate_codes := ms\<rparr>)"
      by (auto simp: rate_lines_def e apply_rates_snoc apply_rate_def)
    with ih l show ?thesis by auto
  next
    case False
    then obtain r cat where lk: "lk c = Some (r, cat)" and h: "h \<noteq> 0" by auto
    define x where "x = money (fmul h r)"
    have ln: "rate_lines lk e = [\<lparr>line_code = c, line_category = cat, line_hours = h, line_rate = r, line_amount = x\<rparr>]"
      using lk h by (simp add: rate_lines_def e x_def)
    then have x: "x = cedi (pesewas x)" "\<bar>pesewas x\<bar> \<le> 10 ^ 8"
      using s(3) amtE [of "10 ^ 8" x] by (simp_all add: small_line_def)
    have add: "money (fadd (cedi (bucket_sum k (ra_lines ?r))) x) = cedi (bucket_sum k (ra_lines ?r) + pesewas x)" for k
      using x money_fadd_cedi [of "bucket_sum k (ra_lines ?r)" "pesewas x"] b [of k] by simp
    have "apply_rates (hs @ [e]) lk = add_to_bucket cat x
      (?r\<lparr>ra_lines := ra_lines ?r @ [\<lparr>line_code = c, line_category = cat, line_hours = h, line_rate = r, line_amount = x\<rparr>]\<rparr>)"
      using lk h by (simp add: apply_rates_snoc apply_rate_def e x_def Let_def)
    then show ?thesis using ih add l ln by (simp add: add_to_bucket_def category_defs)
  qed
qed


subsection \<open>The two engines\<close>

text \<open>The salaried row that carries the same components as a raw-hours payslip.\<close>

definition as_salaried :: "int payslip_inputs \<Rightarrow> int period_inputs" where
  "as_salaried i = no_inputs
     \<lparr>si_basic_salary := pi_basic_wage i, si_overtime_pay := pi_overtime_pay i,
      si_other_allowances := pi_allowances i, si_productivity_bonus := pi_bonus i,
      si_pay_difference := pi_pay_difference i, si_pf_fund_employee := pi_provident_fund i,
      si_pf_fund_employer := pi_pf_fund_employer i, si_tax_relief_monthly := pi_tax_relief_monthly i,
      si_loan_deduction := pi_loan i, si_welfare_deduction := pi_welfare i,
      si_iou_deduction := pi_donations i, si_other_deductions := pi_other_deductions i\<rparr>"

lemma small_as_salaried: "small_payslip i \<Longrightarrow> small_inputs (as_salaried i)"
  by (simp add: small_payslip_def small_inputs_def input_list_def as_salaried_def no_inputs_def)

lemma adjustments_as_salaried:
  "salaried_adjustments r (map_inputs cedi (as_salaried i)) (pi_context i) = payslip_adjustments (payslip_cedi i) r"
  by (simp add: salaried_adjustments_def payslip_adjustments_def map_inputs_def as_salaried_def no_inputs_def payslip_cedi_def)

lemma specs_agree:
  "\<not> pi_is_icu_member i \<Longrightarrow>
   salaried_spec strict ss nb nr (as_salaried i) (pi_bonus_concession_used_ytd i) adj = payslip_spec strict ss nb nr ni i adj"
  by (simp add: salaried_spec_def payslip_spec_def as_salaried_def no_inputs_def Let_def algebra_simps split_def)

subsection \<open>Properties\<close>

text \<open>
  C8: rating hours loses nothing and guesses nothing.  The costed lines are exactly the worked
  codes with a configured rate, each at hours times rate; every worked code without a rate is
  reported, once; and the three pay buckets are the exact pesewa sums of the lines of their
  category.
\<close>
theorem apply_rates_accounts:
  assumes "list_all small_line (ra_lines (apply_rates hs lk))" "length (ra_lines (apply_rates hs lk)) \<le> 400"
  shows "ra_lines (apply_rates hs lk) = concat (map (rate_lines lk) hs) \<and>
    set (ra_missing_rate_codes (apply_rates hs lk)) = {c. \<exists>h. (c, h) \<in> set hs \<and> h \<noteq> 0 \<and> lk c = None} \<and>
    distinct (ra_missing_rate_codes (apply_rates hs lk)) \<and>
    ra_basic_wage (apply_rates hs lk) = cedi (bucket_sum CATEGORY_BASIC (ra_lines (apply_rates hs lk))) \<and>
    ra_overtime_pay (apply_rates hs lk) = cedi (bucket_sum CATEGORY_OVERTIME (ra_lines (apply_rates hs lk))) \<and>
    ra_shift_allowances (apply_rates hs lk) = cedi (bucket_sum CATEGORY_ALLOWANCE (ra_lines (apply_rates hs lk)))"
  using apply_rates_buckets [OF assms] apply_rates_missing [of hs lk] apply_rates_lines [of hs lk] by simp

definition two_codes :: "(string \<times> rat) list" where
  "two_codes = [(''ABNH01'', 8), (''OT2'', 3)]"

definition one_rate :: "string \<Rightarrow> (rat \<times> string) option" where
  "one_rate = [''ABNH01'' \<mapsto> (2, CATEGORY_BASIC)]"

lemma money_16: "money 16 = cedi 1600"
  using money_cedi [of 1600] by (simp add: cedi_def fl_of_int [of 16, simplified])

lemma two_codes_lines: "rate_lines one_rate (''ABNH01'', 8) =
  [\<lparr>line_code = ''ABNH01'', line_category = CATEGORY_BASIC, line_hours = 8, line_rate = 2, line_amount = cedi 1600\<rparr>]"
  "rate_lines one_rate (''OT2'', 3) = []"
  by (simp_all add: rate_lines_def one_rate_def fmul_def fl_of_int [of 16, simplified] money_16)

theorem apply_rates_accounts_witness:
  "ra_basic_wage (apply_rates two_codes one_rate) = cedi 1600 \<and>
   set (ra_missing_rate_codes (apply_rates two_codes one_rate)) = {''OT2''}"
proof -
  have l: "ra_lines (apply_rates two_codes one_rate) =
    [\<lparr>line_code = ''ABNH01'', line_category = CATEGORY_BASIC, line_hours = 8, line_rate = 2, line_amount = cedi 1600\<rparr>]"
    by (simp add: apply_rates_lines two_codes_def two_codes_lines)
  have "list_all small_line (ra_lines (apply_rates two_codes one_rate))" "length (ra_lines (apply_rates two_codes one_rate)) \<le> 400"
    unfolding l by (auto simp: small_line_def)
  from apply_rates_accounts [OF this]
  have t: "ra_basic_wage (apply_rates two_codes one_rate) = cedi (bucket_sum CATEGORY_BASIC (ra_lines (apply_rates two_codes one_rate)))"
    "set (ra_missing_rate_codes (apply_rates two_codes one_rate)) = {c. \<exists>h. (c, h) \<in> set two_codes \<and> h \<noteq> 0 \<and> one_rate c = None}"
    by blast+
  have "{c. \<exists>h. (c, h) \<in> set two_codes \<and> h \<noteq> 0 \<and> one_rate c = None} = {''OT2''}"
    by (auto simp: two_codes_def one_rate_def)
  then show ?thesis using t unfolding l by (simp add: pesewas_cedi)
qed

text \<open>
  C1: a raw-hours payslip is exact to the pesewa.  On whole-pesewa components every figure of
  the payslip equals the integer calculation, union dues included, under every policy version.
\<close>
theorem payslip_refines_integers:
  assumes "engine_rate r ss nb nr" "short_rate (icu_member_rate r) ni" "0 \<le> ni" "ni \<le> 10 ^ 6"
    "small_payslip i" "payslip_adjustments (payslip_cedi i) r = Inr adj" "small_adjustments adj"
  shows "\<exists>p. compute_payslip (payslip_cedi i) r = Inr p \<and>
    payslip_abs p = payslip_spec (strict_policy r) ss nb nr ni i adj"
  using payslip_exact [OF assms(1-5,7)] assms(6) by (simp add: compute_payslip_def)

definition DCL9 :: "int payslip_inputs" where
  "DCL9 = \<lparr>pi_basic_wage = 63135, pi_overtime_pay = 97859, pi_allowances = 31568, pi_bonus = 12097,
     pi_pay_difference = 0, pi_tax_relief_monthly = 0, pi_provident_fund = 0, pi_loan = 0,
     pi_welfare = 0, pi_donations = 0, pi_other_deductions = 0, pi_bonus_concession_used_ytd = 0,
     pi_pf_fund_employer = 0, pi_staff_id = ''DCL9'', pi_is_icu_member = True, pi_employee_id = Some 9,
     pi_context = None\<rparr>"

definition DCL9_adj :: adjustments where
  "DCL9_adj = historical_adj (as_salaried DCL9) 55000 130000 500000 50000 100000"

lemma DCL9_run: "small_payslip DCL9" "payslip_adjustments (payslip_cedi DCL9) (workbook_rate 1) = Inr DCL9_adj"
  "small_adjustments DCL9_adj"
proof -
  show s: "small_payslip DCL9" by (simp add: small_payslip_def DCL9_def)
  have n: "nonneg_policy_inputs (as_salaried DCL9)"
    by (simp add: nonneg_policy_inputs_def as_salaried_def no_inputs_def DCL9_def)
  show "payslip_adjustments (payslip_cedi DCL9) (workbook_rate 1) = Inr DCL9_adj"
    using historical_salaried_adjustments [OF small_as_salaried [OF s] n workbook_historical_rate]
    by (simp add: DCL9_adj_def flip: adjustments_as_salaried)
  show "small_adjustments DCL9_adj"
    unfolding DCL9_adj_def by (rule historical_adj_small [OF small_as_salaried [OF s] n workbook_historical_rate])
qed

lemma DCL9_spec: "sp_net (payslip_spec False historical_bands_spec 150000 50000 30000 DCL9 DCL9_adj) = 185440"
proof -
  have t: "tax_on 63135 55000 = 3472" "overtime_spec 97859 63135 500000 50000 100000 = 8208" "tax_on 63135 30000 = 1894"
    "bonus_spec 12097 63135 0 150000 50000 = (605, 0)" "paye_spec historical_bands_spec 91231 = 5040" by code_simp+
  show ?thesis
    by (simp add: payslip_spec_def DCL9_adj_def historical_adj_def as_salaried_def no_inputs_def DCL9_def relief_spec_def
        DeductionAdjustments_zero t pesewas_cedi Let_def)
qed

theorem payslip_refines_integers_witness:
  "\<exists>p. compute_payslip (payslip_cedi DCL9) (workbook_rate 1) = Inr p \<and> pesewas (ps_net_pay p) = 185440"
proof -
  have "strict_policy (workbook_rate 1) = False" by (simp add: strict_policy_def workbook_rate_def)
  note t = payslip_refines_integers [OF workbook_engine_rate workbook_rate_short(8) _ _ DCL9_run, unfolded this, simplified]
  then obtain p where "compute_payslip (payslip_cedi DCL9) (workbook_rate 1) = Inr p"
    "payslip_abs p = payslip_spec False historical_bands_spec 150000 50000 30000 DCL9 DCL9_adj" by blast
  moreover from this have "sp_net (payslip_abs p) = 185440" by (simp only: DCL9_spec)
  then have "pesewas (ps_net_pay p) = 185440" by (simp add: payslip_abs_def)
  ultimately show ?thesis by blast
qed

text \<open>
  C3: the two engines agree.  The same components entered as a salaried row and as a raw-hours
  payslip without union dues give the same adjustments, tax, gross, deductions and net pay,
  although the two programs sum their floats in different orders.
\<close>
theorem engines_agree:
  assumes "engine_rate r ss nb nr" "short_rate (icu_member_rate r) ni" "0 \<le> ni" "ni \<le> 10 ^ 6"
    "small_payslip i" "\<not> pi_is_icu_member i"
    "payslip_adjustments (payslip_cedi i) r = Inr adj" "small_adjustments adj"
  shows "\<exists>res p. calculate r (map_inputs cedi (as_salaried i)) (cedi (pi_bonus_concession_used_ytd i)) (pi_context i) = Inr res \<and>
    compute_payslip (payslip_cedi i) r = Inr p \<and> salaried_abs res = payslip_abs p"
proof -
  have s: "small_inputs (as_salaried i)" using assms(5) by (rule small_as_salaried)
  have u: "\<bar>pi_bonus_concession_used_ytd i\<bar> \<le> 10 ^ 11" using small_payslipD(12) [OF assms(5)] by simp
  have "salaried_abs (salaried_body r (map_inputs cedi (as_salaried i)) (cedi (pi_bonus_concession_used_ytd i)) adj)
    = payslip_abs (payslip_body (payslip_cedi i) r adj)"
    by (simp only: salaried_exact [OF assms(1) s assms(8) u] payslip_exact [OF assms(1-5,8)] specs_agree [OF assms(6)])
  then show ?thesis using assms(7) map_inputs_money [OF s]
    by (simp add: calculate_def compute_payslip_def adjustments_as_salaried)
qed

theorem engines_agree_witness:
  "\<exists>res p. calculate (workbook_rate 1) (map_inputs cedi (as_salaried (DCL9\<lparr>pi_is_icu_member := False\<rparr>))) 0 None = Inr res \<and>
     compute_payslip (payslip_cedi (DCL9\<lparr>pi_is_icu_member := False\<rparr>)) (workbook_rate 1) = Inr p \<and>
     sr_gross_pay res \<noteq> 0 \<and> salaried_abs res = payslip_abs p"
proof -
  let ?i = "DCL9\<lparr>pi_is_icu_member := False\<rparr>"
  have i: "small_payslip ?i" "payslip_adjustments (payslip_cedi ?i) (workbook_rate 1) = Inr DCL9_adj"
    using DCL9_run by (simp_all add: small_payslip_def payslip_adjustments_def payslip_cedi_def)
  have "pi_bonus_concession_used_ytd ?i = 0" "pi_context ?i = None" by (simp_all add: DCL9_def)
  with engines_agree [OF workbook_engine_rate workbook_rate_short(8) _ _ i(1) _ i(2) DCL9_run(3)]
  obtain res p where r: "calculate (workbook_rate 1) (map_inputs cedi (as_salaried ?i)) 0 None = Inr res"
    "compute_payslip (payslip_cedi ?i) (workbook_rate 1) = Inr p" "salaried_abs res = payslip_abs p" by auto
  have "sp_gross (payslip_abs (payslip_body (payslip_cedi ?i) (workbook_rate 1) DCL9_adj)) = 204659"
    by (subst payslip_exact [OF workbook_engine_rate workbook_rate_short(8) _ _ i(1) DCL9_run(3)])
      (simp_all add: payslip_spec_def DCL9_def split_def Let_def)
  moreover have "p = payslip_body (payslip_cedi ?i) (workbook_rate 1) DCL9_adj"
    using r(2) i(2) by (simp add: compute_payslip_def)
  ultimately have "sp_gross (salaried_abs res) = 204659" using r(3) by simp
  then have "sr_gross_pay res \<noteq> 0" by (auto simp: salaried_abs_def)
  with r show ?thesis by blast
qed

lemma repr_less: "fl y = y \<Longrightarrow> y < fl d \<Longrightarrow> repr y < d"
  using b64.mono [of d "repr y"] fl_repr [of y] by (force simp: not_less [symmetric])

lemma repr_greater: "fl y = y \<Longrightarrow> fl d < y \<Longrightarrow> d < repr y"
  using b64.mono [of "repr y" d] fl_repr [of y] by (force simp: not_less [symmetric])

lemma money_ninety_minutes: "money (fmul (3/2) (fl (115/100))) = cedi 172"
proof -
  let ?y = "fmul (3/2) (fl (115/100))"
  have "?y < fl (1725/1000)" "fl (1715/1000) < ?y" by code_simp+
  moreover have "fl ?y = ?y" by (simp add: fmul_def)
  ultimately have "repr ?y < 1725/1000" "1715/1000 < repr ?y" using repr_less repr_greater by blast+
  then have "half_up (repr ?y * 100) = 172" by (intro half_up_near) (simp only: abs_less_iff of_int_numeral, linarith)
  then show ?thesis by (simp add: money_money_dec money_dec_cedi D_def)
qed

text \<open>
  The rating step multiplies hours by rate in binary floats before it rounds.  Ninety
  minutes at 1.15 an hour is exactly 1.725, which half-up rounding takes to 1.73; the float
  product lies just below and the line is paid 1.72.
\<close>
theorem float_product_underpays:
  "ra_basic_wage (apply_rates [(''ABNH01'', 3/2)] [''ABNH01'' \<mapsto> (fl (115/100), CATEGORY_BASIC)]) = cedi 172 \<and>
   half_up (3/2 * (115/100) * 100) = 173"
proof -
  have "half_up (3/2 * (115/100) * 100) = 173" using half_up_tie [of 172] by simp
  moreover have "money (fadd (cedi 0) (cedi 172)) = cedi (0 + 172)" by (rule money_fadd_cedi) simp_all
  ultimately show ?thesis
    using money_ninety_minutes by (simp add: apply_rates_def apply_rate_def add_to_bucket_def RateApplication_def Let_def)
qed
end
