(* ===== verification/RunStatus.thy ===== *)
theory RunStatus
  imports Prelude Complex_Main
begin

text \<open>
  \<open>app/payroll_status.py\<close>: the status vocabulary of a payroll run, the groups of statuses
  every gate is written with, the lifecycle stepper and the recommended next action; and
  the \<open>PayrollRun\<close> row of \<open>app/models.py\<close> the rest of the development works on.
  A timestamp is a number of seconds.
\<close>

subsection \<open>The vocabulary\<close>

definition DRAFT :: string where "DRAFT = ''Draft''"
definition PENDING_APPROVAL :: string where "PENDING_APPROVAL = ''Pending Approval''"
definition APPROVED :: string where "APPROVED = ''Approved''"
definition REJECTED :: string where "REJECTED = ''Rejected''"
definition PROCESSED :: string where "PROCESSED = ''Processed''"
definition SUBMITTED :: string where "SUBMITTED = ''Submitted''"
definition HELD :: string where "HELD = ''Held''"
definition AUTO_ACCEPTED :: string where "AUTO_ACCEPTED = ''Auto-Accepted''"

definition RISK_HELD :: string where "RISK_HELD = ''held''"
definition RISK_ACCEPTED :: string where "RISK_ACCEPTED = ''accepted''"
definition RISK_RELEASED :: string where "RISK_RELEASED = ''released''"

lemmas [status_defs] = DRAFT_def PENDING_APPROVAL_def APPROVED_def REJECTED_def PROCESSED_def
  SUBMITTED_def HELD_def AUTO_ACCEPTED_def RISK_HELD_def RISK_ACCEPTED_def RISK_RELEASED_def

text \<open>The statuses are pairwise distinct.\<close>

lemma status_neq [simp]:
  "DRAFT \<noteq> PENDING_APPROVAL" "DRAFT \<noteq> APPROVED" "DRAFT \<noteq> REJECTED" "DRAFT \<noteq> PROCESSED" "DRAFT \<noteq> SUBMITTED" "DRAFT \<noteq> HELD" "DRAFT \<noteq> AUTO_ACCEPTED"
  "PENDING_APPROVAL \<noteq> DRAFT" "PENDING_APPROVAL \<noteq> APPROVED" "PENDING_APPROVAL \<noteq> REJECTED" "PENDING_APPROVAL \<noteq> PROCESSED" "PENDING_APPROVAL \<noteq> SUBMITTED" "PENDING_APPROVAL \<noteq> HELD" "PENDING_APPROVAL \<noteq> AUTO_ACCEPTED"
  "APPROVED \<noteq> DRAFT" "APPROVED \<noteq> PENDING_APPROVAL" "APPROVED \<noteq> REJECTED" "APPROVED \<noteq> PROCESSED" "APPROVED \<noteq> SUBMITTED" "APPROVED \<noteq> HELD" "APPROVED \<noteq> AUTO_ACCEPTED"
  "REJECTED \<noteq> DRAFT" "REJECTED \<noteq> PENDING_APPROVAL" "REJECTED \<noteq> APPROVED" "REJECTED \<noteq> PROCESSED" "REJECTED \<noteq> SUBMITTED" "REJECTED \<noteq> HELD" "REJECTED \<noteq> AUTO_ACCEPTED"
  "PROCESSED \<noteq> DRAFT" "PROCESSED \<noteq> PENDING_APPROVAL" "PROCESSED \<noteq> APPROVED" "PROCESSED \<noteq> REJECTED" "PROCESSED \<noteq> SUBMITTED" "PROCESSED \<noteq> HELD" "PROCESSED \<noteq> AUTO_ACCEPTED"
  "SUBMITTED \<noteq> DRAFT" "SUBMITTED \<noteq> PENDING_APPROVAL" "SUBMITTED \<noteq> APPROVED" "SUBMITTED \<noteq> REJECTED" "SUBMITTED \<noteq> PROCESSED" "SUBMITTED \<noteq> HELD" "SUBMITTED \<noteq> AUTO_ACCEPTED"
  "HELD \<noteq> DRAFT" "HELD \<noteq> PENDING_APPROVAL" "HELD \<noteq> APPROVED" "HELD \<noteq> REJECTED" "HELD \<noteq> PROCESSED" "HELD \<noteq> SUBMITTED" "HELD \<noteq> AUTO_ACCEPTED"
  "AUTO_ACCEPTED \<noteq> DRAFT" "AUTO_ACCEPTED \<noteq> PENDING_APPROVAL" "AUTO_ACCEPTED \<noteq> APPROVED" "AUTO_ACCEPTED \<noteq> REJECTED" "AUTO_ACCEPTED \<noteq> PROCESSED" "AUTO_ACCEPTED \<noteq> SUBMITTED" "AUTO_ACCEPTED \<noteq> HELD"
  by (simp_all add: status_defs)

lemma risk_status_neq [simp]:
  "RISK_HELD \<noteq> RISK_ACCEPTED" "RISK_HELD \<noteq> RISK_RELEASED" "RISK_ACCEPTED \<noteq> RISK_HELD"
  "RISK_ACCEPTED \<noteq> RISK_RELEASED" "RISK_RELEASED \<noteq> RISK_HELD" "RISK_RELEASED \<noteq> RISK_ACCEPTED"
  by (simp_all add: status_defs)

definition RISK_GATED_STATUSES :: "string list" where
  "RISK_GATED_STATUSES = [DRAFT, PENDING_APPROVAL, SUBMITTED, HELD, AUTO_ACCEPTED]"

definition RISK_EVER_HELD :: "string list" where
  "RISK_EVER_HELD = [RISK_HELD, RISK_RELEASED]"

definition PENDING_STATUSES :: "string list" where
  "PENDING_STATUSES = [DRAFT, PENDING_APPROVAL]"

definition SENDABLE_STATUSES :: "string list" where
  "SENDABLE_STATUSES = [APPROVED, PROCESSED]"

definition CLOSED_STATUSES :: "string list" where
  "CLOSED_STATUSES = [APPROVED, PROCESSED]"

definition DELETABLE_STATUSES :: "string list" where
  "DELETABLE_STATUSES = [DRAFT, ''Previewed'', REJECTED]"

lemmas group_defs = RISK_GATED_STATUSES_def RISK_EVER_HELD_def PENDING_STATUSES_def
  SENDABLE_STATUSES_def CLOSED_STATUSES_def DELETABLE_STATUSES_def

definition run_statuses :: "string list" where
  "run_statuses = [DRAFT, PENDING_APPROVAL, APPROVED, REJECTED, PROCESSED, SUBMITTED, HELD, AUTO_ACCEPTED]"

subsection \<open>The run row\<close>

text \<open>The reason sentences of the risk gate, by rule, with the figures they print.\<close>

datatype risk_detail =
    New_client_detail int
  | Past_window_detail int
  | No_baseline
  | Net_from_zero rat
  | Net_both_zero
  | Net_change rat rat rat
  | Workers_from_zero int
  | Workers_both_zero
  | Workers_change int int rat

record payroll_run =
  run_id :: int
  run_month :: string
  run_year :: int
  run_status :: string
  run_client_company_id :: "int option"
  run_statutory_rate_id :: "int option"
  run_upload_type :: "string option"
  run_total_workers :: "int option"
  run_total_gross_pay :: "rat option"
  run_total_deductions :: "rat option"
  run_total_net_pay :: "rat option"
  run_total_paye :: "rat option"
  run_total_ssnit :: "rat option"
  run_total_ssnit_employer :: "rat option"
  run_created_at :: int
  run_approved_by :: "int option"
  run_approved_at :: "int option"
  run_rejected_at :: "int option"
  run_notes :: "string option"
  run_risk_status :: "string option"
  run_risk_reasons :: "risk_detail list"
  run_risk_checked_at :: "int option"

text \<open>A run with a status and a headcount, for concrete instances.\<close>

definition sample_run :: "string \<Rightarrow> int \<Rightarrow> payroll_run" where
  "sample_run status workers =
     \<lparr>run_id = 1, run_month = ''January'', run_year = 2026, run_status = status,
      run_client_company_id = Some 7, run_statutory_rate_id = None, run_upload_type = Some ''standard'',
      run_total_workers = Some workers, run_total_gross_pay = Some 0, run_total_deductions = Some 0,
      run_total_net_pay = Some 0, run_total_paye = Some 0, run_total_ssnit = Some 0,
      run_total_ssnit_employer = Some 0, run_created_at = 0, run_approved_by = None,
      run_approved_at = None, run_rejected_at = None, run_notes = None, run_risk_status = None,
      run_risk_reasons = [], run_risk_checked_at = None\<rparr>"

text \<open>\<open>getattr(run, total_workers, 0) or 0\<close> and its money counterpart.\<close>

definition or_0 :: "('a :: zero) option \<Rightarrow> 'a" where
  "or_0 x = (case x of None \<Rightarrow> 0 | Some v \<Rightarrow> v)"

lemma or_0_simps [simp]: "or_0 None = 0" "or_0 (Some v) = v"
  by (simp_all add: or_0_def)

subsection \<open>The stepper\<close>

datatype step_state = Done | Current | Upcoming | Skipped

definition LIFECYCLE_STAGES :: "string list" where
  "LIFECYCLE_STAGES =
     [''draft'', ''calculated'', ''submitted'', ''held'', ''approved'', ''processed'', ''distributed'']"

definition stage_index :: "string \<Rightarrow> nat" where
  "stage_index key = length (takeWhile (\<lambda>k. k \<noteq> key) LIFECYCLE_STAGES)"

definition reached_stage_index :: "string \<Rightarrow> bool \<Rightarrow> bool \<Rightarrow> nat" where
  "reached_stage_index status calculated distributed =
     (if distributed then stage_index ''distributed''
      else if status = PROCESSED then stage_index ''processed''
      else if status = APPROVED then stage_index ''approved''
      else if status = HELD then stage_index ''held''
      else if status \<in> set [SUBMITTED, AUTO_ACCEPTED, PENDING_APPROVAL] then stage_index ''submitted''
      else if status = DRAFT \<and> calculated then stage_index ''calculated''
      else stage_index ''draft'')"

definition step_state_of :: "string \<Rightarrow> bool \<Rightarrow> bool \<Rightarrow> bool \<Rightarrow> string \<Rightarrow> step_state" where
  "step_state_of status calculated distributed held key =
     (let rejected = (status = REJECTED);
          reached = reached_stage_index status calculated distributed;
          submitted_idx = stage_index ''submitted'';
          cleared_hold = (held \<and> status \<noteq> HELD);
          idx = stage_index key
      in if key = ''held'' \<and> \<not> held then Skipped
         else if key = ''held'' \<and> cleared_hold \<and> \<not> rejected then Done
         else if rejected then (if idx \<le> submitted_idx then Done else Skipped)
         else if idx < reached then Done
         else if idx = reached then (if key = ''distributed'' \<and> distributed then Done else Current)
         else Upcoming)"

definition lifecycle_steps :: "string \<Rightarrow> bool \<Rightarrow> bool \<Rightarrow> bool \<Rightarrow> (string \<times> step_state) list" where
  "lifecycle_steps status calculated distributed held =
     map (\<lambda>key. (key, step_state_of status calculated distributed held key)) LIFECYCLE_STAGES"

record step_progress =
  pr_position :: nat
  pr_total :: nat
  pr_current :: "string option"
  pr_next :: "string option"

definition status_progress :: "(string \<times> step_state) list \<Rightarrow> step_progress" where
  "status_progress steps =
     (let applicable = filter (\<lambda>s. snd s \<noteq> Skipped) steps;
          done_count = length (filter (\<lambda>s. snd s = Done) applicable);
          current = first_row (\<lambda>s. snd s = Current) applicable;
          upcoming = filter (\<lambda>s. snd s = Upcoming) applicable
      in \<lparr>pr_position = done_count + (if current \<noteq> None then 1 else 0),
          pr_total = length applicable,
          pr_current = map_option fst current,
          pr_next = (case upcoming of [] \<Rightarrow> None | s # _ \<Rightarrow> Some (fst s))\<rparr>)"

definition run_progress :: "payroll_run \<Rightarrow> bool \<Rightarrow> (string \<times> step_state) list" where
  "run_progress run distributed =
     (let calculated = (0 < or_0 (run_total_workers run));
          held = ((case run_risk_status run of None \<Rightarrow> False | Some r \<Rightarrow> r \<in> set RISK_EVER_HELD)
                  \<or> run_status run = HELD)
      in lifecycle_steps (run_status run) calculated distributed held)"

definition status_tone :: "string \<Rightarrow> string" where
  "status_tone status =
     (case map_of
        [(DRAFT, ''muted''), (SUBMITTED, ''info''), (AUTO_ACCEPTED, ''info''), (HELD, ''warn''),
         (PENDING_APPROVAL, ''warn''), (APPROVED, ''ok''), (PROCESSED, ''brand''), (REJECTED, ''danger'')] status
      of Some t \<Rightarrow> t | None \<Rightarrow> ''muted'')"

subsection \<open>The recommended action\<close>

datatype run_action =
    Act_calculate | Act_fix_import | Act_submit | Act_await_risk | Act_review_hold
  | Act_approve | Act_mark_processed | Act_distribute | Act_resolve_rejection

definition is_calculated :: "payroll_run \<Rightarrow> bool" where
  "is_calculated run =
     (case run_total_net_pay run of
        None \<Rightarrow> 0 < or_0 (run_total_workers run)
      | Some net \<Rightarrow> 0 < net)"

definition recommended_action_for :: "payroll_run \<Rightarrow> bool \<Rightarrow> run_action option" where
  "recommended_action_for run distributed =
     (let status = run_status run;
          has_workers = (0 < or_0 (run_total_workers run))
      in if status = REJECTED then Some Act_resolve_rejection
         else if status = DRAFT
         then (if \<not> has_workers then Some Act_fix_import
               else if \<not> is_calculated run then Some Act_calculate
               else Some Act_submit)
         else if status = SUBMITTED then Some Act_await_risk
         else if status = HELD then Some Act_review_hold
         else if status \<in> set [AUTO_ACCEPTED, PENDING_APPROVAL] then Some Act_approve
         else if status = APPROVED then Some Act_mark_processed
         else if status = PROCESSED then (if distributed then None else Some Act_distribute)
         else None)"

subsection \<open>The stepper is a path\<close>

text \<open>Among the steps that apply, done steps come first, then at most one current, then the rest.\<close>

fun path_ok :: "step_state list \<Rightarrow> bool" where
  "path_ok [] = True"
| "path_ok (Done # xs) = path_ok xs"
| "path_ok (x # xs) = list_all (\<lambda>y. y = Upcoming) xs"

definition states_of :: "(string \<times> step_state) list \<Rightarrow> step_state list" where
  "states_of steps = filter (\<lambda>s. s \<noteq> Skipped) (map snd steps)"

text \<open>A hold already cleared is done although later steps may not be: it is left out here.\<close>

definition without_hold :: "(string \<times> step_state) list \<Rightarrow> (string \<times> step_state) list" where
  "without_hold steps = filter (\<lambda>s. fst s \<noteq> ''held'') steps"

lemma stage_index_simps [simp]:
  "stage_index ''draft'' = 0" "stage_index ''calculated'' = 1" "stage_index ''submitted'' = 2"
  "stage_index ''held'' = 3" "stage_index ''approved'' = 4" "stage_index ''processed'' = 5"
  "stage_index ''distributed'' = 6"
  by (simp_all add: stage_index_def LIFECYCLE_STAGES_def)

lemma steps_explicit:
  "lifecycle_steps s c d h =
     [(''draft'', step_state_of s c d h ''draft''), (''calculated'', step_state_of s c d h ''calculated''),
      (''submitted'', step_state_of s c d h ''submitted''), (''held'', step_state_of s c d h ''held''),
      (''approved'', step_state_of s c d h ''approved''), (''processed'', step_state_of s c d h ''processed''),
      (''distributed'', step_state_of s c d h ''distributed'')]"
  by (simp add: lifecycle_steps_def LIFECYCLE_STAGES_def)

lemma without_hold_simps [simp]:
  "without_hold [] = []"
  "without_hold ((k, x) # xs) = (if k = ''held'' then without_hold xs else (k, x) # without_hold xs)"
  by (simp_all add: without_hold_def)

lemma step_state_simps:
  "key \<noteq> ''held'' \<Longrightarrow> key \<noteq> ''distributed'' \<Longrightarrow> step_state_of s c d h key =
     (if s = REJECTED then (if stage_index key \<le> 2 then Done else Skipped)
      else if stage_index key < reached_stage_index s c d then Done
      else if stage_index key = reached_stage_index s c d then Current else Upcoming)"
  "step_state_of s c d h ''held'' =
     (if \<not> h then Skipped
      else if s = REJECTED then Skipped
      else if s \<noteq> HELD then Done
      else if 3 < reached_stage_index s c d then Done
      else if 3 = reached_stage_index s c d then Current else Upcoming)"
  "step_state_of s c d h ''distributed'' =
     (if s = REJECTED then Skipped
      else if 6 < reached_stage_index s c d then Done
      else if 6 = reached_stage_index s c d then (if d then Done else Current) else Upcoming)"
  by (simp_all add: step_state_of_def Let_def)

lemmas stage_eval = steps_explicit states_of_def step_state_simps reached_stage_index_def

lemma stages_distinct: "distinct LIFECYCLE_STAGES"
  by (simp add: LIFECYCLE_STAGES_def)

lemma stepper_path:
  assumes "status = HELD \<longrightarrow> held"
  shows "path_ok (states_of (without_hold (lifecycle_steps status calculated distributed held))) \<and>
    length (filter (\<lambda>s. snd s = Current) (lifecycle_steps status calculated distributed held)) \<le> 1"
proof -
  consider (d) "distributed" "status \<noteq> REJECTED" | (r) "status = REJECTED"
    | (nd) "\<not> distributed" "status \<in> set run_statuses" "status \<noteq> REJECTED" 
    | (o) "\<not> distributed" "status \<notin> set run_statuses"
    by (cases distributed) (auto simp: run_statuses_def)
  then show ?thesis
  proof cases
    case d
    then show ?thesis by (cases held; cases "status = HELD") (simp_all add: stage_eval)
  next
    case r
    then show ?thesis by (cases held) (simp_all add: stage_eval)
  next
    case nd
    with assms show ?thesis unfolding run_statuses_def
      by (cases held; cases calculated) (auto simp: stage_eval)
  next
    case o
    then show ?thesis unfolding run_statuses_def by (cases held) (simp_all add: stage_eval)
  qed
qed

lemma progress_bound: "pr_position (status_progress steps) \<le> pr_total (status_progress steps)"
proof -
  have "length (filter (\<lambda>s. snd s = Done) xs) + (if first_row (\<lambda>s. snd s = Current) xs \<noteq> None then 1 else 0) \<le> length xs"
    for xs :: "(string \<times> step_state) list"
  proof (induction xs)
    case (Cons x xs)
    moreover have "length (filter (\<lambda>s. snd s = Done) xs) \<le> length xs" by simp
    ultimately show ?case by (auto split: if_splits)
  qed simp
  then show ?thesis unfolding status_progress_def Let_def step_progress.simps .
qed

text \<open>
  The lifecycle stepper is a path for every run, whatever its status text.  It lists the
  seven stages once, in order; leaving the hold branch aside, done stages precede the current
  one and upcoming stages follow it; there is never more than one current stage, and the
  position shown never exceeds the total.
\<close>
theorem stepper_is_a_path:
  "map fst (run_progress run distributed) = LIFECYCLE_STAGES \<and>
   path_ok (states_of (without_hold (run_progress run distributed))) \<and>
   length (filter (\<lambda>s. snd s = Current) (run_progress run distributed)) \<le> 1 \<and>
   pr_position (status_progress (run_progress run distributed)) \<le> pr_total (status_progress (run_progress run distributed))"
  unfolding run_progress_def Let_def
  using stepper_path [of "run_status run"] progress_bound by (simp add: lifecycle_steps_def o_def)

end
