(* ===== verification/Access.thy ===== *)
theory Access
  imports RunStatus PyText
begin

text \<open>
  \<open>app/roles.py\<close>, \<open>app/permissions.py\<close>, \<open>app/tenancy.py\<close> and \<open>role_required\<close> of
  \<open>app/auth.py\<close>: who may do what, and whose rows a request may see.  A capability group is
  the list of its members; a guard answers with where it sends the request.
\<close>

subsection \<open>Roles\<close>

definition PAYROLLA_ADMIN :: string where "PAYROLLA_ADMIN = ''payrolla_admin''"
definition PAYROLLA_REVIEWER :: string where "PAYROLLA_REVIEWER = ''payrolla_reviewer''"
definition CLIENT_ADMIN :: string where "CLIENT_ADMIN = ''client_admin''"
definition CLIENT_PREPARER :: string where "CLIENT_PREPARER = ''client_preparer''"

lemmas role_defs = PAYROLLA_ADMIN_def PAYROLLA_REVIEWER_def CLIENT_ADMIN_def CLIENT_PREPARER_def

definition LEGACY_ROLE_ALIASES :: "string \<Rightarrow> string option" where
  "LEGACY_ROLE_ALIASES = [''chrisnat_admin'' \<mapsto> PAYROLLA_ADMIN, ''chrisnat_reviewer'' \<mapsto> PAYROLLA_REVIEWER]"

definition LEGACY_PLATFORM_ROLES :: "string list" where
  "LEGACY_PLATFORM_ROLES =
     [''admin'', ''md'', ''payroll_officer'', ''accounts_officer'', ''operations_supervisor'', ''viewer'']"

definition PLATFORM_ROLES :: "string list" where
  "PLATFORM_ROLES = [PAYROLLA_ADMIN, PAYROLLA_REVIEWER] @ LEGACY_PLATFORM_ROLES"

definition TENANT_ROLES :: "string list" where
  "TENANT_ROLES = [CLIENT_ADMIN, CLIENT_PREPARER]"

definition normalise_role :: "string option \<Rightarrow> string" where
  "normalise_role role =
     (let role = lower (strip (text_or role []))
      in case LEGACY_ROLE_ALIASES role of Some r \<Rightarrow> r | None \<Rightarrow> role)"

definition is_platform_role :: "string option \<Rightarrow> bool" where
  "is_platform_role role \<longleftrightarrow> normalise_role role \<in> set PLATFORM_ROLES"

definition is_tenant_role :: "string option \<Rightarrow> bool" where
  "is_tenant_role role \<longleftrightarrow> normalise_role role \<in> set TENANT_ROLES"

record user =
  user_id :: int
  user_role :: "string option"
  user_company :: "int option"
  user_authenticated :: bool

definition is_platform_user :: "user \<Rightarrow> bool" where
  "is_platform_user u \<longleftrightarrow> user_authenticated u \<and> user_company u = None"

definition is_tenant_user :: "user \<Rightarrow> bool" where
  "is_tenant_user u \<longleftrightarrow> user_authenticated u \<and> user_company u \<noteq> None"

subsection \<open>Capability groups\<close>

definition SUPERUSERS :: "string list" where "SUPERUSERS = [''md'', PAYROLLA_ADMIN]"
definition PAYROLL_ROLES :: "string list" where
  "PAYROLL_ROLES = [''admin'', ''payroll_officer'', ''accounts_officer''] @ SUPERUSERS"
definition REP_ROLES :: "string list" where
  "REP_ROLES = [''admin'', ''payroll_officer'', ''accounts_officer''] @ SUPERUSERS"
definition AUDIT_ROLES :: "string list" where "AUDIT_ROLES = ''admin'' # SUPERUSERS"
definition STATUTORY_ROLES :: "string list" where "STATUTORY_ROLES = ''admin'' # SUPERUSERS"
definition ROSTER_DELETE_ROLES :: "string list" where "ROSTER_DELETE_ROLES = ''admin'' # SUPERUSERS"
definition PAYROLL_IMPORT_ROLES :: "string list" where "PAYROLL_IMPORT_ROLES = ''admin'' # SUPERUSERS"
definition WAGE_RATE_ROLES :: "string list" where "WAGE_RATE_ROLES = ''admin'' # SUPERUSERS"
definition RAW_ENGINE_ROLES :: "string list" where "RAW_ENGINE_ROLES = ''admin'' # SUPERUSERS"
definition CLIENT_MANAGEMENT_ROLES :: "string list" where "CLIENT_MANAGEMENT_ROLES = ''admin'' # SUPERUSERS"
definition PLATFORM_OPS_ROLES :: "string list" where "PLATFORM_OPS_ROLES = ''admin'' # SUPERUSERS"
definition CALCULATE_ROLES :: "string list" where "CALCULATE_ROLES = [''admin'', PAYROLLA_ADMIN]"
definition EDIT_FIGURES_ROLES :: "string list" where
  "EDIT_FIGURES_ROLES = [''admin'', ''payroll_officer'', PAYROLLA_ADMIN]"
definition SUBMIT_APPROVAL_ROLES :: "string list" where
  "SUBMIT_APPROVAL_ROLES = [''admin'', ''accounts_officer'', PAYROLLA_ADMIN]"
definition APPROVAL_ROLES :: "string list" where "APPROVAL_ROLES = ''admin'' # SUPERUSERS"
definition MARK_PROCESSED_ROLES :: "string list" where
  "MARK_PROCESSED_ROLES = [''admin'', ''accounts_officer''] @ SUPERUSERS"
definition DELETE_ROLES :: "string list" where "DELETE_ROLES = ''admin'' # SUPERUSERS"
definition EXPENSE_ROLES :: "string list" where "EXPENSE_ROLES = [CLIENT_ADMIN, CLIENT_PREPARER]"
definition BRANDING_ROLES :: "string list" where "BRANDING_ROLES = [CLIENT_ADMIN]"
definition DISTRIBUTION_SEND_ROLES :: "string list" where "DISTRIBUTION_SEND_ROLES = [CLIENT_ADMIN]"

lemmas capability_defs = SUPERUSERS_def PAYROLL_ROLES_def REP_ROLES_def AUDIT_ROLES_def STATUTORY_ROLES_def
  ROSTER_DELETE_ROLES_def PAYROLL_IMPORT_ROLES_def WAGE_RATE_ROLES_def RAW_ENGINE_ROLES_def
  CLIENT_MANAGEMENT_ROLES_def PLATFORM_OPS_ROLES_def CALCULATE_ROLES_def EDIT_FIGURES_ROLES_def
  SUBMIT_APPROVAL_ROLES_def APPROVAL_ROLES_def MARK_PROCESSED_ROLES_def DELETE_ROLES_def
  EXPENSE_ROLES_def BRANDING_ROLES_def DISTRIBUTION_SEND_ROLES_def

definition in_group :: "string option \<Rightarrow> string list \<Rightarrow> bool" where
  "in_group role members \<longleftrightarrow> normalise_role role \<in> set members"

definition can_operate_payroll :: "string option \<Rightarrow> bool" where
  "can_operate_payroll role = in_group role PAYROLL_ROLES"
definition can_maintain_roster :: "string option \<Rightarrow> bool" where
  "can_maintain_roster role = in_group role REP_ROLES"
definition can_view_audit :: "string option \<Rightarrow> bool" where
  "can_view_audit role = in_group role AUDIT_ROLES"
definition can_manage_statutory :: "string option \<Rightarrow> bool" where
  "can_manage_statutory role = in_group role STATUTORY_ROLES"
definition can_delete_employee :: "string option \<Rightarrow> bool" where
  "can_delete_employee role = in_group role ROSTER_DELETE_ROLES"
definition can_import_payroll :: "string option \<Rightarrow> bool" where
  "can_import_payroll role = in_group role PAYROLL_IMPORT_ROLES"
definition can_manage_wage_rates :: "string option \<Rightarrow> bool" where
  "can_manage_wage_rates role = in_group role WAGE_RATE_ROLES"
definition can_use_raw_engine :: "string option \<Rightarrow> bool" where
  "can_use_raw_engine role = in_group role RAW_ENGINE_ROLES"
definition can_manage_clients :: "string option \<Rightarrow> bool" where
  "can_manage_clients role = in_group role CLIENT_MANAGEMENT_ROLES"
definition can_view_platform_ops :: "string option \<Rightarrow> bool" where
  "can_view_platform_ops role = in_group role PLATFORM_OPS_ROLES"

definition can_calculate_run :: "string option \<Rightarrow> payroll_run \<Rightarrow> bool" where
  "can_calculate_run role run \<longleftrightarrow> in_group role CALCULATE_ROLES \<and> run_status run \<in> set PENDING_STATUSES"
definition can_edit_run_figures :: "string option \<Rightarrow> bool" where
  "can_edit_run_figures role = in_group role EDIT_FIGURES_ROLES"
definition can_submit_run_for_approval :: "string option \<Rightarrow> payroll_run \<Rightarrow> bool" where
  "can_submit_run_for_approval role run \<longleftrightarrow> in_group role SUBMIT_APPROVAL_ROLES \<and> run_status run = DRAFT"
definition can_bulk_approve_reject :: "string option \<Rightarrow> bool" where
  "can_bulk_approve_reject role = in_group role APPROVAL_ROLES"
definition can_approve_run :: "string option \<Rightarrow> payroll_run \<Rightarrow> bool" where
  "can_approve_run role run \<longleftrightarrow>
     (if or_0 (run_total_workers run) \<le> 0 then False
      else in_group role APPROVAL_ROLES \<and> run_status run \<in> set PENDING_STATUSES)"
definition can_reject_run :: "string option \<Rightarrow> payroll_run \<Rightarrow> bool" where
  "can_reject_run role run \<longleftrightarrow> in_group role APPROVAL_ROLES \<and> run_status run \<in> set PENDING_STATUSES"
definition can_mark_run_processed :: "string option \<Rightarrow> payroll_run \<Rightarrow> bool" where
  "can_mark_run_processed role run \<longleftrightarrow> in_group role MARK_PROCESSED_ROLES \<and> run_status run = APPROVED"
definition can_distribute_run :: "string option \<Rightarrow> payroll_run \<Rightarrow> bool" where
  "can_distribute_run role run \<longleftrightarrow> in_group role PAYROLL_ROLES \<and> run_status run \<in> set SENDABLE_STATUSES"
definition can_delete_run :: "string option \<Rightarrow> payroll_run \<Rightarrow> bool" where
  "can_delete_run role run \<longleftrightarrow> in_group role DELETE_ROLES \<and> run_status run \<in> set DELETABLE_STATUSES"
definition can_record_expenses :: "string option \<Rightarrow> bool" where
  "can_record_expenses role = in_group role EXPENSE_ROLES"
definition can_manage_branding :: "string option \<Rightarrow> bool" where
  "can_manage_branding role = in_group role BRANDING_ROLES"
definition can_send_payslips :: "string option \<Rightarrow> bool" where
  "can_send_payslips role = in_group role DISTRIBUTION_SEND_ROLES"

lemmas can_defs = can_operate_payroll_def can_maintain_roster_def can_view_audit_def
  can_manage_statutory_def can_delete_employee_def can_import_payroll_def can_manage_wage_rates_def
  can_use_raw_engine_def can_manage_clients_def can_view_platform_ops_def can_calculate_run_def
  can_edit_run_figures_def can_submit_run_for_approval_def can_bulk_approve_reject_def
  can_approve_run_def can_reject_run_def can_mark_run_processed_def can_distribute_run_def
  can_delete_run_def can_record_expenses_def can_manage_branding_def can_send_payslips_def

subsection \<open>Route guards\<close>

datatype guard_outcome = Serve | To_login | To_company_dashboard | To_dashboard

definition role_required :: "string list \<Rightarrow> user \<Rightarrow> guard_outcome" where
  "role_required roles u =
     (if \<not> user_authenticated u then To_login
      else if user_company u \<noteq> None then To_company_dashboard
      else if user_role u = Some ''client_user'' \<and> ''client_user'' \<notin> set roles then To_dashboard
      else if normalise_role (user_role u) \<notin> set (map (\<lambda>r. normalise_role (Some r)) roles) then To_dashboard
      else Serve)"

definition active_tenant_id :: "user \<Rightarrow> int option" where
  "active_tenant_id u = (if \<not> user_authenticated u then None else user_company u)"

definition is_platform_context :: "user \<Rightarrow> bool" where
  "is_platform_context u \<longleftrightarrow> user_authenticated u \<and> user_company u = None"

definition platform_required :: "user \<Rightarrow> guard_outcome" where
  "platform_required u =
     (if \<not> user_authenticated u then To_login
      else if active_tenant_id u \<noteq> None then To_company_dashboard else Serve)"

definition tenant_required :: "user \<Rightarrow> guard_outcome" where
  "tenant_required u =
     (if \<not> user_authenticated u then To_login
      else if active_tenant_id u = None then To_dashboard else Serve)"

definition tenant_role_required :: "string list \<Rightarrow> user \<Rightarrow> guard_outcome" where
  "tenant_role_required roles u =
     (let allowed = map (\<lambda>r. normalise_role (Some r)) roles
      in if \<not> user_authenticated u then To_login
         else if active_tenant_id u = None then To_dashboard
         else if normalise_role (user_role u) \<notin> set allowed then To_company_dashboard
         else Serve)"

definition landing_endpoint :: "user \<Rightarrow> string" where
  "landing_endpoint u =
     (if active_tenant_id u \<noteq> None then ''main.company_dashboard'' else ''main.dashboard'')"

subsection \<open>Tenant scoping\<close>

datatype model =
    M_User | M_Employee | M_EmployeeDeployment | M_PayrollRun | M_Expense | M_ExpenseReceipt
  | M_Proposal | M_ImportBatch | M_WageRateProfile | M_DomainEvent | M_DistributionBatch
  | M_PayrollItem | M_PaymentVoucher | M_Remittance | M_PayslipDelivery | M_RawPayEntry
  | M_RawUploadArchive | M_Unscoped

text \<open>
  A row of any table: its own company column where the model has one (\<open>row_company\<close>), and
  the run it belongs to where it has that key.  \<open>M_Unscoped\<close> stands for every other model.
\<close>

record row =
  row_model :: model
  row_id :: int
  row_company :: "int option"
  row_run :: "int option"

definition TENANT_OWNED_MODELS :: "model list" where
  "TENANT_OWNED_MODELS =
     [M_User, M_Employee, M_EmployeeDeployment, M_PayrollRun, M_Expense, M_ExpenseReceipt,
      M_Proposal, M_ImportBatch, M_WageRateProfile, M_DomainEvent, M_DistributionBatch]"

definition CHILD_VIA_RUN_MODELS :: "model list" where
  "CHILD_VIA_RUN_MODELS =
     [M_PayrollItem, M_PaymentVoucher, M_Remittance, M_PayslipDelivery, M_RawPayEntry, M_RawUploadArchive]"

datatype scope_error = Not_tenant_scoped model | Ownership_unknown model | Not_found

definition rows_of :: "model \<Rightarrow> row list \<Rightarrow> row list" where
  "rows_of m db = filter (\<lambda>r. row_model r = m) db"

definition run_of_tenant :: "row list \<Rightarrow> int \<Rightarrow> int \<Rightarrow> bool" where
  "run_of_tenant db rid tenant \<longleftrightarrow>
     list_ex (\<lambda>r. row_model r = M_PayrollRun \<and> row_id r = rid \<and> row_company r = Some tenant) db"

definition tenant_query :: "user \<Rightarrow> model \<Rightarrow> row list \<Rightarrow> scope_error + row list" where
  "tenant_query u m db =
     (case active_tenant_id u of
        None \<Rightarrow> return (rows_of m db)
      | Some tenant \<Rightarrow>
          if m \<in> set TENANT_OWNED_MODELS
          then return (filter (\<lambda>r. row_company r = Some tenant) (rows_of m db))
          else if m \<in> set CHILD_VIA_RUN_MODELS
          then return (filter (\<lambda>r. case row_run r of None \<Rightarrow> False | Some rid \<Rightarrow> run_of_tenant db rid tenant) (rows_of m db))
          else raise (Not_tenant_scoped m))"

text \<open>
  \<open>owns_object\<close>: a child row's \<open>payroll_run\<close> relationship is the run its key points to, so
  the two lookups of the source give the same answer.
\<close>

definition owns_object :: "user \<Rightarrow> row list \<Rightarrow> row option \<Rightarrow> scope_error + bool" where
  "owns_object u db obj =
     (case active_tenant_id u of
        None \<Rightarrow> return True
      | Some tenant \<Rightarrow>
        (case obj of
           None \<Rightarrow> return False
         | Some r \<Rightarrow>
           if row_company r \<noteq> None \<or> row_model r \<in> set TENANT_OWNED_MODELS
           then return (row_company r = Some tenant)
           else case row_run r of
             Some rid \<Rightarrow> return (run_of_tenant db rid tenant)
           | None \<Rightarrow> raise (Ownership_unknown (row_model r))))"

definition tenant_get_or_404 :: "user \<Rightarrow> model \<Rightarrow> int \<Rightarrow> row list \<Rightarrow> scope_error + row" where
  "tenant_get_or_404 u m ident db =
     (case first_row (\<lambda>r. row_id r = ident) (rows_of m db) of
        None \<Rightarrow> raise Not_found
      | Some r \<Rightarrow> bind_result (owns_object u db (Some r)) (\<lambda>owned. if owned then return r else raise Not_found))"


subsection \<open>Spelling of roles\<close>

lemma to_lower_upper [simp]: "to_lower (to_upper c) = to_lower c"
  by (simp add: to_lower_def to_upper_def upper_letters_def lower_letters_def)

lemma lower_upper [simp]: "lower (upper s) = lower s"
  by (simp add: lower_def upper_def o_def)

definition canonical :: "string \<Rightarrow> string" where
  "canonical s = (case LEGACY_ROLE_ALIASES s of Some r \<Rightarrow> r | None \<Rightarrow> s)"

lemma normalise_role_canonical: "normalise_role r = canonical (lower (strip (text_or r [])))"
  by (simp add: normalise_role_def canonical_def Let_def)

lemma text_or_Some [simp]: "text_or (Some s) [] = s"
  by (simp add: text_or_def)

lemma normalise_role_upper: "normalise_role (Some (upper s)) = normalise_role (Some s)"
  by (simp add: normalise_role_canonical strip_upper)

lemma normalise_role_strip: "normalise_role (Some (strip s)) = normalise_role (Some s)"
  by (simp add: normalise_role_canonical)

lemma stripped_simps [simp]: "stripped PAYROLLA_ADMIN" "stripped PAYROLLA_REVIEWER"
  by (simp_all add: stripped_def role_defs is_space_def white_space_def)

lemma lower_roles [simp]: "lower PAYROLLA_ADMIN = PAYROLLA_ADMIN" "lower PAYROLLA_REVIEWER = PAYROLLA_REVIEWER"
  by (simp_all add: role_defs lower_def to_lower_def upper_letters_def lower_letters_def)

lemma canonical_idem: "canonical (lower (strip (canonical s))) = canonical s" if "lower (strip s) = s"
proof (cases "LEGACY_ROLE_ALIASES s")
  case None
  with that show ?thesis by (simp add: canonical_def)
next
  case (Some r)
  then have "r = PAYROLLA_ADMIN \<or> r = PAYROLLA_REVIEWER"
    by (auto simp: LEGACY_ROLE_ALIASES_def split: if_splits)
  moreover have "LEGACY_ROLE_ALIASES PAYROLLA_ADMIN = None" "LEGACY_ROLE_ALIASES PAYROLLA_REVIEWER = None"
    by (simp_all add: LEGACY_ROLE_ALIASES_def role_defs)
  ultimately show ?thesis using Some by (auto simp: canonical_def strip_stripped)
qed

lemma normalise_role_idem: "normalise_role (Some (normalise_role r)) = normalise_role r"
  using canonical_idem [of "lower (strip (text_or r []))"]
  by (simp add: normalise_role_canonical strip_lower)

lemma normalise_literals:
  "normalise_role (Some ''admin'') = ''admin''" "normalise_role (Some ''md'') = ''md''"
  "normalise_role (Some PAYROLLA_ADMIN) = PAYROLLA_ADMIN"
  "normalise_role (Some ''accounts_officer'') = ''accounts_officer''"
  "normalise_role (Some '' Chrisnat_Admin '') = PAYROLLA_ADMIN"
  by (simp_all add: normalise_role_def text_or_def role_defs LEGACY_ROLE_ALIASES_def text_eval)

subsection \<open>Properties of the permissions\<close>

text \<open>
  A role's spelling never changes what it may do.  Canonicalising is idempotent, ignores
  surrounding white space and letter case, and so every capability group gives the same
  answer for every spelling of a role.
\<close>
theorem role_spelling_irrelevant:
  "normalise_role (Some (normalise_role r)) = normalise_role r \<and>
   in_group (Some (upper s)) members = in_group (Some s) members \<and>
   in_group (Some (strip s)) members = in_group (Some s) members"
  by (simp add: normalise_role_idem in_group_def normalise_role_upper normalise_role_strip)

definition operator_groups :: "string list list" where
  "operator_groups = [PAYROLL_ROLES, REP_ROLES, AUDIT_ROLES, STATUTORY_ROLES, ROSTER_DELETE_ROLES,
     PAYROLL_IMPORT_ROLES, WAGE_RATE_ROLES, RAW_ENGINE_ROLES, CLIENT_MANAGEMENT_ROLES,
     PLATFORM_OPS_ROLES, CALCULATE_ROLES, EDIT_FIGURES_ROLES, SUBMIT_APPROVAL_ROLES, APPROVAL_ROLES,
     MARK_PROCESSED_ROLES, DELETE_ROLES]"

definition prepares :: "string option \<Rightarrow> bool" where
  "prepares role \<longleftrightarrow> in_group role CALCULATE_ROLES \<or> in_group role EDIT_FIGURES_ROLES \<or> in_group role SUBMIT_APPROVAL_ROLES"

text \<open>
  Maker and checker stay apart.  The platform administrator has exactly the operator
  capabilities of the administrator; the managing director signs off, closes and deletes but
  never prepares; and only those two administrators hold both sides of the approval.
\<close>
theorem maker_checker_separation:
  "list_all (\<lambda>g. ''admin'' \<in> set g \<and> PAYROLLA_ADMIN \<in> set g) operator_groups \<and>
   (normalise_role r = ''md'' \<longrightarrow> in_group r APPROVAL_ROLES \<and> in_group r DELETE_ROLES \<and> \<not> prepares r) \<and>
   (in_group r APPROVAL_ROLES \<and> prepares r \<longrightarrow> normalise_role r \<in> {''admin'', PAYROLLA_ADMIN})"
  by (simp add: operator_groups_def capability_defs role_defs prepares_def in_group_def) auto

theorem maker_checker_separation_witness:
  "in_group (Some '' MD '') APPROVAL_ROLES \<and> \<not> prepares (Some '' MD '') \<and>
   (in_group (Some ''admin'') APPROVAL_ROLES \<and> prepares (Some ''admin''))"
proof -
  have "normalise_role (Some '' MD '') = ''md''"
    by (simp add: normalise_role_def text_or_def LEGACY_ROLE_ALIASES_def text_eval)
  then show ?thesis using maker_checker_separation [of "Some '' MD ''"] normalise_literals(1)
    by (simp add: prepares_def in_group_def capability_defs)
qed

text \<open>Which predicate stands behind each action of the run page.\<close>

definition permits :: "string option \<Rightarrow> payroll_run \<Rightarrow> run_action \<Rightarrow> bool" where
  "permits role run a =
     (case a of Act_calculate \<Rightarrow> can_calculate_run role run
      | Act_submit \<Rightarrow> can_submit_run_for_approval role run
      | Act_approve \<Rightarrow> can_approve_run role run
      | Act_mark_processed \<Rightarrow> can_mark_run_processed role run
      | Act_distribute \<Rightarrow> can_distribute_run role run
      | _ \<Rightarrow> True)"

lemma status_in_groups:
  "DRAFT \<in> set PENDING_STATUSES" "PENDING_APPROVAL \<in> set PENDING_STATUSES"
  "PROCESSED \<in> set SENDABLE_STATUSES" "APPROVED \<in> set SENDABLE_STATUSES"
  by (simp_all add: group_defs)

text \<open>
  The action a run is advised to take is one its administrator is allowed to take, for
  every run with workers except an auto-accepted one.
\<close>
theorem recommended_action_permitted:
  assumes "recommended_action_for run distributed = Some a" "run_status run \<noteq> AUTO_ACCEPTED"
    "0 < or_0 (run_total_workers run)" "normalise_role role \<in> {''admin'', PAYROLLA_ADMIN}"
  shows "permits role run a"
  using assms
  by (auto simp: recommended_action_for_def Let_def permits_def can_defs in_group_def capability_defs
      status_in_groups not_le split: if_splits)

theorem recommended_action_permitted_witness:
  "recommended_action_for (sample_run PENDING_APPROVAL 3) False = Some Act_approve \<and>
   permits (Some ''admin'') (sample_run PENDING_APPROVAL 3) Act_approve"
  using recommended_action_permitted [of "sample_run PENDING_APPROVAL 3" False Act_approve "Some ''admin''"]
    normalise_literals(1)
  by (simp add: recommended_action_for_def sample_run_def)

text \<open>
  An auto-accepted run is a dead end of the permission predicates.  The run page advises
  approving it, yet no role may approve, reject, submit, recalculate, close, distribute or
  delete it.
\<close>
theorem auto_accepted_dead_end:
  assumes "run_status run = AUTO_ACCEPTED"
  shows "recommended_action_for run distributed = Some Act_approve \<and>
    \<not> can_approve_run role run \<and> \<not> can_reject_run role run \<and> \<not> can_submit_run_for_approval role run \<and>
    \<not> can_calculate_run role run \<and> \<not> can_mark_run_processed role run \<and>
    \<not> can_distribute_run role run \<and> \<not> can_delete_run role run"
proof -
  have "AUTO_ACCEPTED \<noteq> ''Previewed''" by (simp add: status_defs)
  then show ?thesis using assms by (simp add: recommended_action_for_def can_defs group_defs)
qed

theorem auto_accepted_dead_end_witness:
  "recommended_action_for (sample_run AUTO_ACCEPTED 3) False = Some Act_approve \<and>
   \<not> can_approve_run (Some ''admin'') (sample_run AUTO_ACCEPTED 3)"
  using auto_accepted_dead_end [of "sample_run AUTO_ACCEPTED 3"] by (simp add: sample_run_def)

subsection \<open>Tenant isolation\<close>

text \<open>The tenant a row belongs to: its own company, or the company of its run.\<close>

definition belongs_to :: "row list \<Rightarrow> int \<Rightarrow> row \<Rightarrow> bool" where
  "belongs_to db tenant r \<longleftrightarrow>
     (if row_model r \<in> set TENANT_OWNED_MODELS then row_company r = Some tenant
      else row_company r = None \<and> (\<exists>rid. row_run r = Some rid \<and> run_of_tenant db rid tenant)
           \<or> row_company r = Some tenant)"

text \<open>Child tables have no company column.\<close>

definition well_formed_db :: "row list \<Rightarrow> bool" where
  "well_formed_db db \<longleftrightarrow> list_all (\<lambda>r. row_model r \<in> set CHILD_VIA_RUN_MODELS \<longrightarrow> row_company r = None) db"

lemma model_groups_disjoint: "m \<in> set CHILD_VIA_RUN_MODELS \<Longrightarrow> m \<notin> set TENANT_OWNED_MODELS"
  by (auto simp: CHILD_VIA_RUN_MODELS_def TENANT_OWNED_MODELS_def)

lemma tenant_query_rows:
  assumes "active_tenant_id u = Some tenant" "tenant_query u m db = Inr rows" "well_formed_db db"
  shows "rows = filter (belongs_to db tenant) (rows_of m db)"
proof -
  have d: "m \<in> set TENANT_OWNED_MODELS \<or> m \<in> set CHILD_VIA_RUN_MODELS"
    using assms(1,2) by (auto simp: tenant_query_def split: if_splits)
  have c: "r \<in> set (rows_of m db) \<Longrightarrow> m \<in> set CHILD_VIA_RUN_MODELS \<Longrightarrow> row_company r = None \<and> row_model r = m" for r
    using assms(3) by (auto simp: well_formed_db_def rows_of_def list_all_iff)
  show ?thesis
  proof (cases "m \<in> set TENANT_OWNED_MODELS")
    case True
    then show ?thesis using assms(1,2)
      by (auto simp: tenant_query_def belongs_to_def rows_of_def intro: filter_cong)
  next
    case False
    with d have m: "m \<in> set CHILD_VIA_RUN_MODELS" by simp
    have "rows = filter (\<lambda>r. case row_run r of None \<Rightarrow> False | Some rid \<Rightarrow> run_of_tenant db rid tenant) (rows_of m db)"
      using False m assms(1,2) by (simp add: tenant_query_def)
    also have "\<dots> = filter (belongs_to db tenant) (rows_of m db)"
      using c [OF _ m] False by (intro filter_cong) (auto simp: belongs_to_def split: option.split)
    finally show ?thesis .
  qed
qed

lemma owns_object_iff:
  "active_tenant_id u = Some tenant \<Longrightarrow> owns_object u db (Some r) = Inr b \<Longrightarrow> b = belongs_to db tenant r"
  by (auto simp: owns_object_def belongs_to_def split: if_splits option.splits)

text \<open>
  C25: tenants are isolated whatever their role text says.  A tenant user is never served an
  operator route; every scoped query returns exactly the rows of that tenant, a child row
  through its run; and a fetch by id never returns a row of anybody else.
\<close>
theorem tenant_isolation:
  assumes "active_tenant_id u = Some tenant" "well_formed_db db"
  shows "role_required roles u \<noteq> Serve \<and> platform_required u \<noteq> Serve \<and>
    (\<forall>rows. tenant_query u m db = Inr rows \<longrightarrow> rows = filter (belongs_to db tenant) (rows_of m db)) \<and>
    (\<forall>r. tenant_get_or_404 u m ident db = Inr r \<longrightarrow> r \<in> set db \<and> row_id r = ident \<and> belongs_to db tenant r)"
proof -
  have "user_company u \<noteq> None" using assms(1) by (auto simp: active_tenant_id_def split: if_splits)
  moreover have "tenant_get_or_404 u m ident db = Inr r \<Longrightarrow> r \<in> set db \<and> row_id r = ident \<and> belongs_to db tenant r" for r
    using owns_object_iff [OF assms(1), of db r]
    by (auto simp: tenant_get_or_404_def bind_result_Inr_iff rows_of_def split: option.splits if_splits dest!: first_row_SomeD)
  ultimately show ?thesis using tenant_query_rows [OF assms(1) _ assms(2)] assms(1)
    by (auto simp: role_required_def platform_required_def)
qed

definition two_tenants :: "row list" where
  "two_tenants =
     [\<lparr>row_model = M_PayrollRun, row_id = 1, row_company = Some 7, row_run = None\<rparr>,
      \<lparr>row_model = M_PayrollRun, row_id = 2, row_company = Some 8, row_run = None\<rparr>,
      \<lparr>row_model = M_PayrollItem, row_id = 10, row_company = None, row_run = Some 1\<rparr>,
      \<lparr>row_model = M_PayrollItem, row_id = 11, row_company = None, row_run = Some 2\<rparr>]"

definition tenant_7 :: user where
  "tenant_7 = \<lparr>user_id = 1, user_role = Some ''admin'', user_company = Some 7, user_authenticated = True\<rparr>"

theorem tenant_isolation_witness:
  "tenant_query tenant_7 M_PayrollItem two_tenants =
     Inr [\<lparr>row_model = M_PayrollItem, row_id = 10, row_company = None, row_run = Some 1\<rparr>] \<and>
   role_required PAYROLL_ROLES tenant_7 \<noteq> Serve \<and>
   tenant_get_or_404 tenant_7 M_PayrollItem 11 two_tenants = Inl Not_found"
proof -
  have "active_tenant_id tenant_7 = Some 7" "well_formed_db two_tenants"
    by (simp_all add: active_tenant_id_def tenant_7_def well_formed_db_def two_tenants_def CHILD_VIA_RUN_MODELS_def)
  then have i: "role_required PAYROLL_ROLES tenant_7 \<noteq> Serve"
    using tenant_isolation [of tenant_7 7 two_tenants PAYROLL_ROLES] by blast
  have "rows_of M_PayrollItem two_tenants =
      [\<lparr>row_model = M_PayrollItem, row_id = 10, row_company = None, row_run = Some 1\<rparr>,
       \<lparr>row_model = M_PayrollItem, row_id = 11, row_company = None, row_run = Some 2\<rparr>]"
    by (simp add: rows_of_def two_tenants_def)
  moreover have "run_of_tenant two_tenants 1 7" "\<not> run_of_tenant two_tenants 2 7"
    by (simp_all add: run_of_tenant_def two_tenants_def)
  ultimately show ?thesis using i
    by (simp add: tenant_query_def tenant_get_or_404_def owns_object_def active_tenant_id_def tenant_7_def
        TENANT_OWNED_MODELS_def CHILD_VIA_RUN_MODELS_def)
qed

text \<open>
  The two ways of scoping agree.  For every row of a scoped table, the ownership test
  used on detail pages holds exactly when the scoped query lists the row.
\<close>
theorem scoping_agrees:
  assumes "r \<in> set db" "tenant_query u (row_model r) db = Inr rows" "owns_object u db (Some r) = Inr owned"
    "well_formed_db db"
  shows "owned \<longleftrightarrow> r \<in> set rows"
proof (cases "active_tenant_id u")
  case None
  then show ?thesis using assms(1-3) by (auto simp: tenant_query_def owns_object_def rows_of_def)
next
  case (Some tenant)
  then show ?thesis
    using tenant_query_rows [OF Some assms(2,4)] owns_object_iff [OF Some assms(3)] assms(1)
    by (auto simp: rows_of_def)
qed

theorem scoping_agrees_witness:
  "\<exists>rows. tenant_query tenant_7 M_PayrollItem two_tenants = Inr rows \<and> two_tenants ! 3 \<notin> set rows"
proof -
  have m: "row_model (two_tenants ! 3) = M_PayrollItem" "two_tenants ! 3 \<in> set two_tenants"
    "well_formed_db two_tenants"
    by (simp_all add: two_tenants_def well_formed_db_def CHILD_VIA_RUN_MODELS_def)
  obtain rows where r: "tenant_query tenant_7 M_PayrollItem two_tenants = Inr rows"
    by (simp add: tenant_query_def active_tenant_id_def tenant_7_def TENANT_OWNED_MODELS_def CHILD_VIA_RUN_MODELS_def)
  have "owns_object tenant_7 two_tenants (Some (two_tenants ! 3)) = Inr False"
    by (simp add: owns_object_def active_tenant_id_def tenant_7_def two_tenants_def TENANT_OWNED_MODELS_def run_of_tenant_def)
  with scoping_agrees [OF m(2) _ _ m(3), of tenant_7 rows False] m(1) r show ?thesis by auto
qed

end
