(* ===== verification/Risk.thy ===== *)
theory Risk
  imports RunStatus Money "HOL-Library.Product_Lexorder"
begin

text \<open>
  \<open>app/risk.py\<close>: the deterministic pre-approval gate, the comparison with the previous
  closed run, the duplicate warning and the review queue.  The table of runs is the list of
  its rows; a reason sentence is the constructor of its rule with the figures it prints.
  Where the database leaves the order of equal or missing keys open, missing timestamps
  come first in ascending order, as SQLite has it.
\<close>

subsection \<open>The gate\<close>

definition FIRST_N_RUNS_HELD :: int where "FIRST_N_RUNS_HELD = 2"
definition NET_PAY_VARIANCE_PCT :: rat where "NET_PAY_VARIANCE_PCT = fl (15/100)"
definition HEADCOUNT_SWING_PCT :: rat where "HEADCOUNT_SWING_PCT = fl (20/100)"

record risk_check =
  check_code :: string
  check_tripped :: bool
  check_detail :: risk_detail

record risk_verdict =
  verdict_held :: bool
  verdict_checks :: "risk_check list"

definition verdict_status :: "risk_verdict \<Rightarrow> string" where
  "verdict_status v = (if verdict_held v then RISK_HELD else RISK_ACCEPTED)"

definition verdict_tripped :: "risk_verdict \<Rightarrow> risk_check list" where
  "verdict_tripped v = filter check_tripped (verdict_checks v)"

definition verdict_reasons :: "risk_verdict \<Rightarrow> risk_detail list" where
  "verdict_reasons v = map check_detail (verdict_tripped v)"

definition has_client :: "payroll_run \<Rightarrow> bool" where
  "has_client run \<longleftrightarrow> (case run_client_company_id run of None \<Rightarrow> False | Some c \<Rightarrow> c \<noteq> 0)"

definition other_runs :: "payroll_run list \<Rightarrow> payroll_run \<Rightarrow> payroll_run list" where
  "other_runs runs run =
     filter (\<lambda>r. run_client_company_id r = run_client_company_id run \<and> run_id r \<noteq> run_id run) runs"

definition previous_closed_run :: "payroll_run list \<Rightarrow> payroll_run \<Rightarrow> payroll_run option" where
  "previous_closed_run runs run =
     (if \<not> has_client run then None
      else max_row (\<lambda>r. (run_created_at r, run_id r))
             (filter (\<lambda>r. run_status r \<in> set CLOSED_STATUSES) (other_runs runs run)))"

definition prior_run_count :: "payroll_run list \<Rightarrow> payroll_run \<Rightarrow> int" where
  "prior_run_count runs run = (if \<not> has_client run then 0 else int (length (other_runs runs run)))"

definition pct :: "rat \<Rightarrow> rat \<Rightarrow> rat option" where
  "pct current previous = (if previous = 0 then None else Some (fdiv \<bar>fsub current previous\<bar> \<bar>previous\<bar>))"

definition pct_int :: "int \<Rightarrow> int \<Rightarrow> rat option" where
  "pct_int current previous =
     (if previous = 0 then None else Some (fdiv (of_int \<bar>current - previous\<bar>) (of_int \<bar>previous\<bar>)))"

definition new_client_check :: "int \<Rightarrow> risk_check" where
  "new_client_check prior =
     \<lparr>check_code = ''new_client'', check_tripped = prior < FIRST_N_RUNS_HELD,
      check_detail = (if prior < FIRST_N_RUNS_HELD then New_client_detail (prior + 1) else Past_window_detail prior)\<rparr>"

definition net_pay_check :: "rat \<Rightarrow> rat \<Rightarrow> risk_check" where
  "net_pay_check this_net prev_net =
     (case pct this_net prev_net of
        None \<Rightarrow> \<lparr>check_code = ''net_pay_variance'', check_tripped = this_net \<noteq> 0,
                check_detail = (if this_net \<noteq> 0 then Net_from_zero this_net else Net_both_zero)\<rparr>
      | Some p \<Rightarrow> \<lparr>check_code = ''net_pay_variance'', check_tripped = NET_PAY_VARIANCE_PCT < p,
                  check_detail = Net_change this_net prev_net p\<rparr>)"

definition headcount_check :: "int \<Rightarrow> int \<Rightarrow> risk_check" where
  "headcount_check this_n prev_n =
     (case pct_int this_n prev_n of
        None \<Rightarrow> \<lparr>check_code = ''headcount_swing'', check_tripped = this_n \<noteq> 0,
                check_detail = (if this_n \<noteq> 0 then Workers_from_zero this_n else Workers_both_zero)\<rparr>
      | Some p \<Rightarrow> \<lparr>check_code = ''headcount_swing'', check_tripped = HEADCOUNT_SWING_PCT < p,
                  check_detail = Workers_change this_n prev_n p\<rparr>)"

definition no_baseline_check :: "string \<Rightarrow> risk_check" where
  "no_baseline_check code = \<lparr>check_code = code, check_tripped = False, check_detail = No_baseline\<rparr>"

definition evaluate_run :: "payroll_run list \<Rightarrow> payroll_run \<Rightarrow> risk_verdict" where
  "evaluate_run runs run =
     (let checks = new_client_check (prior_run_count runs run) #
            (case previous_closed_run runs run of
               None \<Rightarrow> [no_baseline_check ''net_pay_variance'', no_baseline_check ''headcount_swing'']
             | Some prev \<Rightarrow>
                 [net_pay_check (or_0 (run_total_net_pay run)) (or_0 (run_total_net_pay prev)),
                  headcount_check (or_0 (run_total_workers run)) (or_0 (run_total_workers prev))])
      in \<lparr>verdict_held = list_ex check_tripped checks, verdict_checks = checks\<rparr>)"

definition apply_risk_gate :: "payroll_run list \<Rightarrow> int option \<Rightarrow> payroll_run \<Rightarrow> payroll_run \<times> risk_verdict" where
  "apply_risk_gate runs now run =
     (let verdict = evaluate_run runs run
      in (run\<lparr>run_risk_status := Some (verdict_status verdict),
              run_risk_reasons := verdict_reasons verdict,
              run_risk_checked_at := now\<rparr>, verdict))"

definition release_risk_hold :: "payroll_run \<Rightarrow> payroll_run" where
  "release_risk_hold run =
     (if run_risk_status run = Some RISK_HELD then run\<lparr>run_risk_status := Some RISK_RELEASED\<rparr> else run)"

definition is_held :: "payroll_run \<Rightarrow> bool" where
  "is_held run \<longleftrightarrow> run_status run = HELD"

definition was_ever_held :: "payroll_run \<Rightarrow> bool" where
  "was_ever_held run \<longleftrightarrow>
     (case run_risk_status run of None \<Rightarrow> False | Some r \<Rightarrow> r \<in> set RISK_EVER_HELD) \<or> run_status run = HELD"

definition risk_badge :: "payroll_run \<Rightarrow> (string \<times> string) option" where
  "risk_badge run =
     (case run_risk_status run of None \<Rightarrow> None
      | Some r \<Rightarrow> map_of [(RISK_HELD, (''Held'', ''warning'')), (RISK_ACCEPTED, (''Auto-accepted'', ''success'')),
                         (RISK_RELEASED, (''Released'', ''info''))] r)"

subsection \<open>Comparison and duplicates\<close>

record comparison_row =
  cmp_key :: string
  cmp_current :: rat
  cmp_previous :: rat
  cmp_delta :: rat
  cmp_pct :: "rat option"
  cmp_signed_pct :: "rat option"
  cmp_flag :: bool

definition metric_value :: "payroll_run \<Rightarrow> string \<Rightarrow> rat" where
  "metric_value run key =
     (if key = ''workers'' then of_int (or_0 (run_total_workers run))
      else if key = ''gross'' then or_0 (run_total_gross_pay run)
      else if key = ''deductions'' then or_0 (run_total_deductions run)
      else if key = ''taxes'' then fadd (or_0 (run_total_paye run)) (or_0 (run_total_ssnit run))
      else if key = ''net'' then or_0 (run_total_net_pay run)
      else 0)"

definition COMPARISON_METRICS :: "(string \<times> rat) list" where
  "COMPARISON_METRICS =
     [(''workers'', HEADCOUNT_SWING_PCT), (''gross'', NET_PAY_VARIANCE_PCT),
      (''deductions'', NET_PAY_VARIANCE_PCT), (''taxes'', NET_PAY_VARIANCE_PCT),
      (''net'', NET_PAY_VARIANCE_PCT)]"

definition comparison_row_for :: "payroll_run \<Rightarrow> payroll_run \<Rightarrow> string \<times> rat \<Rightarrow> comparison_row" where
  "comparison_row_for run prev m =
     (let current = metric_value run (fst m);
          previous = metric_value prev (fst m);
          delta = fsub current previous;
          p = pct current previous
      in \<lparr>cmp_key = fst m, cmp_current = current, cmp_previous = previous, cmp_delta = delta, cmp_pct = p,
          cmp_signed_pct = (if previous \<noteq> 0 then Some (fdiv delta previous) else None),
          cmp_flag = (case p of Some v \<Rightarrow> snd m < v | None \<Rightarrow> current \<noteq> 0)\<rparr>)"

definition compare_to_previous :: "payroll_run list \<Rightarrow> payroll_run \<Rightarrow> payroll_run option \<times> comparison_row list" where
  "compare_to_previous runs run =
     (case previous_closed_run runs run of None \<Rightarrow> (None, [])
      | Some prev \<Rightarrow> (Some prev, map (comparison_row_for run prev) COMPARISON_METRICS))"

definition find_possible_duplicates :: "payroll_run list \<Rightarrow> payroll_run \<Rightarrow> payroll_run list" where
  "find_possible_duplicates runs run =
     (if \<not> has_client run \<or> or_0 (run_total_net_pay run) = 0 \<or> or_0 (run_total_workers run) = 0 then []
      else take 5 (sort_key (\<lambda>r. - run_created_at r)
        (filter (\<lambda>r. run_status r \<noteq> REJECTED \<and> run_total_net_pay r = run_total_net_pay run
                     \<and> run_total_workers r = run_total_workers run) (other_runs runs run))))"

datatype recommendation = Rule_tripped risk_detail | Row_warnings int | Duplicates nat | Unusual "string list"

definition build_recommendations ::
  "int \<Rightarrow> risk_verdict \<Rightarrow> payroll_run option \<times> comparison_row list \<Rightarrow> payroll_run list \<Rightarrow> recommendation list" where
  "build_recommendations warning_count verdict comparison duplicates =
     (let flagged = map cmp_key (filter cmp_flag (snd comparison))
      in map (\<lambda>c. Rule_tripped (check_detail c)) (verdict_tripped verdict)
         @ (if warning_count \<noteq> 0 then [Row_warnings warning_count] else [])
         @ (if duplicates \<noteq> [] then [Duplicates (length duplicates)] else [])
         @ (if flagged \<noteq> [] then [Unusual flagged] else []))"

subsection \<open>The review queue\<close>

definition checked_key :: "payroll_run \<Rightarrow> int \<times> int" where
  "checked_key run = (case run_risk_checked_at run of None \<Rightarrow> (0, 0) | Some t \<Rightarrow> (1, t))"

definition net_key :: "payroll_run \<Rightarrow> int \<times> rat" where
  "net_key run = (case run_total_net_pay run of None \<Rightarrow> (0, 0) | Some v \<Rightarrow> (1, v))"

definition held_runs_query :: "string \<Rightarrow> payroll_run list \<Rightarrow> payroll_run list" where
  "held_runs_query order runs =
     (let held = filter is_held runs in
      if order = ''oldest'' then sort_key (\<lambda>r. (checked_key r, run_id r)) held
      else if order = ''value'' then rev (sort_key (\<lambda>r. (net_key r, run_id r)) held)
      else rev (sort_key (\<lambda>r. (checked_key r, run_id r)) held))"

definition held_run_count :: "payroll_run list \<Rightarrow> nat" where
  "held_run_count runs = length (filter is_held runs)"

definition reason_code :: "risk_detail \<Rightarrow> string" where
  "reason_code d =
     (case d of New_client_detail _ \<Rightarrow> ''new-client'' | Net_from_zero _ \<Rightarrow> ''net_pay''
      | Net_change _ _ _ \<Rightarrow> ''net_pay'' | Workers_from_zero _ \<Rightarrow> ''headcount''
      | Workers_change _ _ _ \<Rightarrow> ''headcount'' | _ \<Rightarrow> ''other'')"

definition verdict_is_stale :: "string list \<Rightarrow> rat option \<Rightarrow> rat option \<Rightarrow> bool" where
  "verdict_is_stale tripped net_change worker_change \<longleftrightarrow>
     (''net_pay'' \<in> set tripped \<and> (case net_change of None \<Rightarrow> False | Some c \<Rightarrow> \<bar>c\<bar> \<le> NET_PAY_VARIANCE_PCT)) \<or>
     (''headcount'' \<in> set tripped \<and> (case worker_change of None \<Rightarrow> False | Some c \<Rightarrow> \<bar>c\<bar> \<le> HEADCOUNT_SWING_PCT))"

record queue_row =
  qr_run :: payroll_run
  qr_previous :: "payroll_run option"
  qr_net_change :: "rat option"
  qr_worker_change :: "rat option"
  qr_stale :: bool

definition queue_row_of :: "payroll_run list \<Rightarrow> payroll_run \<Rightarrow> queue_row" where
  "queue_row_of runs run =
     (let previous = previous_closed_run runs run;
          prev_net = (case previous of None \<Rightarrow> 0 | Some p \<Rightarrow> or_0 (run_total_net_pay p));
          prev_workers = (case previous of None \<Rightarrow> 0 | Some p \<Rightarrow> or_0 (run_total_workers p));
          net_change = (if prev_net \<noteq> 0 then Some (fdiv (fsub (or_0 (run_total_net_pay run)) prev_net) prev_net) else None);
          worker_change = (if prev_workers \<noteq> 0
            then Some (fdiv (of_int (or_0 (run_total_workers run) - prev_workers)) (of_int prev_workers)) else None)
      in \<lparr>qr_run = run, qr_previous = previous, qr_net_change = net_change, qr_worker_change = worker_change,
          qr_stale = verdict_is_stale (map reason_code (run_risk_reasons run)) net_change worker_change\<rparr>)"

definition queue_rows :: "payroll_run list \<Rightarrow> payroll_run list \<Rightarrow> queue_row list" where
  "queue_rows runs page = map (queue_row_of runs) page"

definition queue_summary :: "payroll_run list \<Rightarrow> nat \<times> rat \<times> int \<times> int option" where
  "queue_summary runs =
     (let held = filter is_held runs
      in (length held, fsum 0 (map (\<lambda>r. or_0 (run_total_net_pay r)) held),
          sum_list (map (\<lambda>r. or_0 (run_total_workers r)) held),
          min_row (\<lambda>t. t) (concat (map (\<lambda>r. case run_risk_checked_at r of None \<Rightarrow> [] | Some t \<Rightarrow> [t]) held))))"

subsection \<open>The rules\<close>

lemma evaluate_held:
  "verdict_held (evaluate_run runs run) \<longleftrightarrow>
     prior_run_count runs run < FIRST_N_RUNS_HELD \<or>
     (\<exists>prev. previous_closed_run runs run = Some prev \<and>
        (check_tripped (net_pay_check (or_0 (run_total_net_pay run)) (or_0 (run_total_net_pay prev))) \<or>
         check_tripped (headcount_check (or_0 (run_total_workers run)) (or_0 (run_total_workers prev)))))"
  by (auto simp: evaluate_run_def Let_def new_client_check_def no_baseline_check_def split: option.split)

lemma held_iff_tripped: "verdict_held (evaluate_run runs run) \<longleftrightarrow> verdict_tripped (evaluate_run runs run) \<noteq> []"
  by (auto simp: evaluate_run_def Let_def verdict_tripped_def filter_empty_conv list_ex_iff)

text \<open>On worker counts the float comparison is the exact one: \<open>5 * |difference| > previous\<close>.\<close>

lemma swing_exact:
  assumes "0 \<le> a" "0 < b" "b \<le> 10 ^ 9"
  shows "fl (1/5) < fl (of_int a / of_int b) \<longleftrightarrow> b < 5 * a"
proof
  assume "fl (1/5) < fl (of_int a / of_int b)"
  then have "\<not> of_int a / of_int b \<le> (1/5 :: rat)" using b64.mono [of "of_int a / of_int b" "1/5"] by auto
  then have "(of_int b :: rat) < of_int (5 * a)" using assms(2) by (simp add: field_simps)
  then show "b < 5 * a" by (simp only: of_int_less_iff)
next
  assume less: "b < 5 * a"
  let ?q = "of_int a / of_int b :: rat"
  have ge: "of_int (b + 1) \<le> (of_int (5 * a) :: rat)" using less by (simp only: of_int_le_iff)
  have b: "0 < (of_int b :: rat)" "(of_int b :: rat) \<le> 10 ^ 9" 
  proof -
    show "0 < (of_int b :: rat)" using assms(2) by simp
    have "(of_int b :: rat) \<le> of_int (10 ^ 9)" using assms(3) by (simp only: of_int_le_iff)
    then show "(of_int b :: rat) \<le> 10 ^ 9" by simp
  qed
  have "1/5 + 1 / (5 * of_int b) \<le> ?q" 
  proof -
    have "(1 + of_int b) / (5 * of_int b) \<le> (of_int (5 * a) :: rat) / (5 * of_int b)"
      using ge b(1) by (intro divide_right_mono) (simp_all add: add.commute)
    moreover have "(1 + of_int b) / (5 * of_int b) = 1/5 + 1 / (5 * (of_int b :: rat))"
      using b(1) by (simp add: add_divide_distrib)
    moreover have "(of_int (5 * a) :: rat) / (5 * of_int b) = ?q" by simp
    ultimately show ?thesis by linarith
  qed
  moreover have "1 / (5 * 10 ^ 9) \<le> 1 / (5 * (of_int b :: rat))" using b by (intro divide_left_mono) auto
  ultimately have q: "1/5 + 1 / (5 * 10 ^ 9) \<le> ?q" by linarith
  have "fl (1/5 + 1 / (5 * 10 ^ 9)) \<le> fl ?q" using q by (rule b64.mono)
  moreover have "fl (1/5) < fl (1/5 + 1 / (5 * 10 ^ 9))" by code_simp
  ultimately show "fl (1/5) < fl ?q" by linarith
qed

lemma headcount_exact:
  assumes "0 < prev" "prev \<le> 10 ^ 9"
  shows "check_tripped (headcount_check n prev) \<longleftrightarrow> prev < 5 * \<bar>n - prev\<bar>"
  using swing_exact [of "\<bar>n - prev\<bar>" prev] assms
  by (simp add: headcount_check_def pct_int_def HEADCOUNT_SWING_PCT_def fdiv_def)

lemma net_within_variance:
  assumes "prev \<noteq> 0" "\<bar>fsub net prev\<bar> \<le> 15/100 * \<bar>prev\<bar>"
  shows "\<not> check_tripped (net_pay_check net prev)"
proof -
  have "\<bar>fsub net prev\<bar> / \<bar>prev\<bar> \<le> 15/100" using assms by (simp add: field_simps)
  then have "fl (\<bar>fsub net prev\<bar> / \<bar>prev\<bar>) \<le> fl (15/100)" by (rule b64.mono)
  then show ?thesis using assms(1) by (simp add: net_pay_check_def pct_def NET_PAY_VARIANCE_PCT_def fdiv_def)
qed

lemma previous_closed_run_Some:
  assumes "previous_closed_run runs run = Some p"
  shows "p \<in> set runs" "run_client_company_id p = run_client_company_id run" "run_id p \<noteq> run_id run"
    "run_status p \<in> set CLOSED_STATUSES"
  using assms by (auto simp: previous_closed_run_def other_runs_def split: if_splits dest!: max_row_SomeD)

text \<open>What a hold past the first runs means, in exact arithmetic.\<close>

definition moved_too_far :: "payroll_run \<Rightarrow> payroll_run \<Rightarrow> bool" where
  "moved_too_far run prev \<longleftrightarrow>
     (let n = or_0 (run_total_workers run); n0 = or_0 (run_total_workers prev);
          net = or_0 (run_total_net_pay run); net0 = or_0 (run_total_net_pay prev)
      in n0 < 0 \<or> 10 ^ 9 < n0 \<or> (n0 = 0 \<and> n \<noteq> 0) \<or> (0 < n0 \<and> n0 < 5 * \<bar>n - n0\<bar>) \<or>
         (net0 = 0 \<and> net \<noteq> 0) \<or> (net0 \<noteq> 0 \<and> 15/100 * \<bar>net0\<bar> < \<bar>fsub net net0\<bar>))"

lemma net_from_zero: "check_tripped (net_pay_check net 0) \<longleftrightarrow> net \<noteq> 0"
  by (simp add: net_pay_check_def pct_def)

lemma headcount_from_zero: "check_tripped (headcount_check n 0) \<longleftrightarrow> n \<noteq> 0"
  by (simp add: headcount_check_def pct_int_def)

lemma tripped_moved:
  assumes "check_tripped (net_pay_check (or_0 (run_total_net_pay run)) (or_0 (run_total_net_pay prev))) \<or>
     check_tripped (headcount_check (or_0 (run_total_workers run)) (or_0 (run_total_workers prev)))"
  shows "moved_too_far run prev"
  using assms headcount_exact net_within_variance net_from_zero headcount_from_zero
  unfolding moved_too_far_def Let_def by (smt (verit) not_le)

subsection \<open>Properties\<close>

text \<open>
  A run is held exactly when a rule trips.  It is held when the client has fewer than two
  earlier runs; otherwise only a net-pay or headcount movement against the client's most
  recent closed run holds it: a net-pay change within fifteen per cent never trips, and the
  headcount rule is the exact one-fifth test for every size up to a billion.
\<close>
theorem risk_gate_rules:
  "verdict_held (evaluate_run runs run) = (verdict_reasons (evaluate_run runs run) \<noteq> []) \<and>
   (prior_run_count runs run < 2 \<longrightarrow> verdict_held (evaluate_run runs run)) \<and>
   (verdict_held (evaluate_run runs run) \<and> 2 \<le> prior_run_count runs run \<longrightarrow>
      (\<exists>prev. previous_closed_run runs run = Some prev \<and> moved_too_far run prev)) \<and>
   (case previous_closed_run runs run of None \<Rightarrow> True
    | Some prev \<Rightarrow> 0 < or_0 (run_total_workers prev) \<and> or_0 (run_total_workers prev) \<le> 10 ^ 9 \<and>
        or_0 (run_total_workers prev) < 5 * \<bar>or_0 (run_total_workers run) - or_0 (run_total_workers prev)\<bar>
        \<longrightarrow> verdict_held (evaluate_run runs run))"
proof (intro conjI impI)
  show "case previous_closed_run runs run of None \<Rightarrow> True
    | Some prev \<Rightarrow> 0 < or_0 (run_total_workers prev) \<and> or_0 (run_total_workers prev) \<le> 10 ^ 9 \<and>
        or_0 (run_total_workers prev) < 5 * \<bar>or_0 (run_total_workers run) - or_0 (run_total_workers prev)\<bar>
        \<longrightarrow> verdict_held (evaluate_run runs run)"
    unfolding evaluate_held by (auto simp: headcount_exact split: option.split)
  show "verdict_held (evaluate_run runs run) = (verdict_reasons (evaluate_run runs run) \<noteq> [])"
    by (simp add: held_iff_tripped verdict_reasons_def)
  show "verdict_held (evaluate_run runs run)" if "prior_run_count runs run < 2"
    using that unfolding evaluate_held FIRST_N_RUNS_HELD_def by simp
  assume h: "verdict_held (evaluate_run runs run) \<and> 2 \<le> prior_run_count runs run"
  then obtain prev where p: "previous_closed_run runs run = Some prev"
    "check_tripped (net_pay_check (or_0 (run_total_net_pay run)) (or_0 (run_total_net_pay prev))) \<or>
     check_tripped (headcount_check (or_0 (run_total_workers run)) (or_0 (run_total_workers prev)))"
    unfolding evaluate_held FIRST_N_RUNS_HELD_def by auto
  then show "\<exists>prev. previous_closed_run runs run = Some prev \<and> moved_too_far run prev"
    by (blast intro: tripped_moved)
qed

definition sized_run :: "int \<Rightarrow> string \<Rightarrow> int \<Rightarrow> rat \<Rightarrow> payroll_run" where
  "sized_run i status n net = (sample_run status n)\<lparr>run_id := i, run_total_workers := Some n, run_total_net_pay := Some net\<rparr>"

lemma risk_gate_rules_witness:
  "\<exists>prev. previous_closed_run [sized_run 1 PROCESSED 10 1000, sized_run 2 APPROVED 10 1000] (sized_run 3 DRAFT 13 1000) = Some prev
     \<and> moved_too_far (sized_run 3 DRAFT 13 1000) prev"
proof -
  have "verdict_held (evaluate_run [sized_run 1 PROCESSED 10 1000, sized_run 2 APPROVED 10 1000] (sized_run 3 DRAFT 13 1000)) \<and>
    2 \<le> prior_run_count [sized_run 1 PROCESSED 10 1000, sized_run 2 APPROVED 10 1000] (sized_run 3 DRAFT 13 1000)"
    by code_simp
  then show ?thesis
    using risk_gate_rules [of "[sized_run 1 PROCESSED 10 1000, sized_run 2 APPROVED 10 1000]" "sized_run 3 DRAFT 13 1000"] by blast
qed

text \<open>
  The verdict is a function of the client's own runs.  Runs of other clients, and the
  amounts of the client's own runs that are not closed, never influence it.
\<close>
theorem risk_gate_local:
  assumes "length (other_runs runs run) = length (other_runs runs' run)"
    "filter (\<lambda>r. run_status r \<in> set CLOSED_STATUSES) (other_runs runs run)
      = filter (\<lambda>r. run_status r \<in> set CLOSED_STATUSES) (other_runs runs' run)"
  shows "evaluate_run runs run = evaluate_run runs' run"
  using assms by (simp add: evaluate_run_def previous_closed_run_def prior_run_count_def)

lemma risk_gate_local_witness:
  "evaluate_run [sized_run 1 DRAFT 10 1000] (sized_run 3 DRAFT 13 1000)
   = evaluate_run [sized_run 1 DRAFT 10 99, (sized_run 2 PROCESSED 10 5)\<lparr>run_client_company_id := Some 8\<rparr>] (sized_run 3 DRAFT 13 1000)"
  by (rule risk_gate_local)
    (simp_all add: other_runs_def sized_run_def sample_run_def CLOSED_STATUSES_def)

end
