(* ===== verification/Items.thy ===== *)
theory Items
  imports Salaried RunStatus
begin

text \<open>
  The payroll items of a run (\<open>PayrollItem\<close> of \<open>app/models.py\<close>), their review notes and the
  version of the rates and the bonus concession a run is calculated with
  (\<open>app/payroll_calculations/__init__.py\<close>).  The float columns of an item are a map from
  column name to value, NULL where undefined, since the code writes them by name with
  \<open>setattr\<close>; the integer \<open>deductions_policy_version\<close> is kept in the same map.
\<close>

subsection \<open>The record\<close>

record payroll_item =
  item_id :: int
  item_run :: int
  item_employee :: "int option"
  item_staff_id :: "string option"
  item_full_name :: "string option"
  item_email :: "string option"
  item_momo_number :: "string option"
  item_bank_branch :: "string option"
  item_money :: "string \<Rightarrow> rat option"
  item_validation_status :: string
  item_warning_notes :: "string option"
  item_token_version :: int

text \<open>\<open>item.f or 0\<close>, and the \<open>setattr\<close> loop over a dictionary of computed fields.\<close>

definition col :: "payroll_item \<Rightarrow> string \<Rightarrow> rat" where
  "col item f = num_or_0 (item_money item f)"

definition set_fields :: "(string \<times> rat) list \<Rightarrow> payroll_item \<Rightarrow> payroll_item" where
  "set_fields kvs item = item\<lparr>item_money := item_money item ++ map_of kvs\<rparr>"

definition items_of :: "int \<Rightarrow> payroll_item list \<Rightarrow> payroll_item list" where
  "items_of run items = filter (\<lambda>i. item_run i = run) items"

subsection \<open>Review notes\<close>

fun split_on :: "char \<Rightarrow> string \<Rightarrow> string list" where
  "split_on c [] = [[]]"
| "split_on c (x # xs) =
     (if x = c then [] # split_on c xs
      else case split_on c xs of [] \<Rightarrow> [[x]] | p # ps \<Rightarrow> (x # p) # ps)"

fun join_with :: "string \<Rightarrow> string list \<Rightarrow> string" where
  "join_with sep [] = []"
| "join_with sep [p] = p"
| "join_with sep (p # q # ps) = p @ sep @ join_with sep (q # ps)"

definition starts_with :: "string \<Rightarrow> string \<Rightarrow> bool" where
  "starts_with p s \<longleftrightarrow> take (length p) s = p"

fun contains :: "string \<Rightarrow> string \<Rightarrow> bool" where
  "contains p [] = (p = [])"
| "contains p (c # cs) = (starts_with p (c # cs) \<or> contains p cs)"

text \<open>\<open>list(dict.fromkeys(xs))\<close>: the first occurrence of every element.\<close>

definition fromkeys :: "'a list \<Rightarrow> 'a list" where
  "fromkeys xs = rev (remdups (rev xs))"

definition stored_notes :: "payroll_item \<Rightarrow> string list" where
  "stored_notes item =
     filter (\<lambda>n. n \<noteq> []) (map strip (split_on (CHR '';'') (text_or (item_warning_notes item) [])))"

text \<open>Figures in messages: two decimals rounded half even, with or without thousands separators.\<close>

fun nat_digits :: "nat \<Rightarrow> string" where
  "nat_digits n = (if n < 10 then [char_of (48 + n)] else nat_digits (n div 10) @ [char_of (48 + n mod 10)])"

declare nat_digits.simps [simp del]

fun group3 :: "string \<Rightarrow> string" where
  "group3 (a # b # c # d # ds) = a # b # c # CHR '','' # group3 (d # ds)"
| "group3 ds = ds"

definition fixed2 :: "(string \<Rightarrow> string) \<Rightarrow> rat \<Rightarrow> string" where
  "fixed2 grouping x =
     (let n = rhe (x * 100); m = nat \<bar>n\<bar>; cents = m mod 100
      in (if n < 0 then ''-'' else '''') @ grouping (nat_digits (m div 100)) @ ''.'' @
         nat_digits (cents div 10) @ nat_digits (cents mod 10))"

definition fmt2 :: "rat \<Rightarrow> string" where
  "fmt2 = fixed2 (\<lambda>s. s)"

definition fmt2_grouped :: "rat \<Rightarrow> string" where
  "fmt2_grouped = fixed2 (\<lambda>s. rev (group3 (rev s)))"

definition warning_text :: "deduction_warning \<Rightarrow> string" where
  "warning_text w =
     (case w of
        Pension_rounding contributed remitted \<Rightarrow>
          ''Pension component rounding needs reconciliation: employee plus employer contributions total GHS '' @
          fmt2 contributed @ '', while separately rounded Tier 1 and Tier 2 total GHS '' @ fmt2 remitted @
          ''. No employee deduction or employer contribution was silently adjusted.''
      | Pf_scheme_missing \<Rightarrow>
          ''Employee provident fund remains a cash deduction; no tax deduction applied because an approved scheme/reference is missing.''
      | Pf_over_exemption \<Rightarrow>
          ''Provident-fund cash deduction exceeds the tax exemption; only the allowable amount reduces chargeable income.''
      | Relief_not_applied \<Rightarrow>
          ''Tax relief not applied: a GRA approval reference and dates valid for this payroll period are required.''
      | Overtime_in_ordinary_paye \<Rightarrow>
          ''Overtime included in ordinary PAYE: the junior-staff and qualifying annual-income conditions are not both evidenced for this payroll year.'')"

definition policy_notes :: "string list" where
  "policy_notes =
     [''Employee provident fund remains'', ''Provident-fund cash deduction exceeds'',
      ''Tax relief not applied:'', ''Overtime included in ordinary PAYE:'',
      ''Overtime is included in ordinary taxable income'',
      ''no tax deduction applied because an approved scheme/reference is missing.'',
      ''only the allowable amount reduces chargeable income.'',
      ''Pension component rounding needs reconciliation:'']"

definition merge_calculation_warnings :: "deduction_warning list \<Rightarrow> payroll_item \<Rightarrow> payroll_item" where
  "merge_calculation_warnings warnings item =
     (let kept = filter (\<lambda>n. \<not> list_ex (\<lambda>p. starts_with p n) policy_notes) (stored_notes item);
          notes = foldl (\<lambda>ns w. if warning_text w \<noteq> [] \<and> warning_text w \<notin> set ns then ns @ [warning_text w] else ns)
                    kept warnings;
          item = item\<lparr>item_warning_notes := Some (join_with ''; '' notes)\<rparr>
      in if notes \<noteq> [] then item\<lparr>item_validation_status := ''Warning''\<rparr> else item)"

definition junior_ot_marker :: string where
  "junior_ot_marker = ''junior-staff qualifying threshold''"

definition set_notes :: "string list \<Rightarrow> string list \<Rightarrow> payroll_item \<Rightarrow> payroll_item" where
  "set_notes existing written item =
     item\<lparr>item_warning_notes := Some (join_with ''; '' written),
          item_validation_status :=
            (if existing \<noteq> [] then ''Warning''
             else if item_validation_status item = ''Warning'' then ''OK'' else item_validation_status item)\<rparr>"

definition ordinary_overtime_note :: string where
  "ordinary_overtime_note =
     ''Overtime is included in ordinary taxable income because concession eligibility was not established.''"

definition junior_note :: "payroll_item \<Rightarrow> rat \<Rightarrow> string" where
  "junior_note item threshold =
     ''Overtime taxed at the concessionary flat rates, but basic salary (GHS '' @
     fmt2_grouped (col item ''basic_salary'') @ '') is above the GRA '' @ junior_ot_marker @
     '' (GHS '' @ fmt2_grouped threshold @ ''/month) - strictly, this worker's overtime belongs in the marginal PAYE bands.''"

definition apply_overtime_concession_warning :: "statutory_rate \<Rightarrow> payroll_item \<Rightarrow> payroll_item" where
  "apply_overtime_concession_warning rate item =
     (let existing = filter (\<lambda>n. \<not> contains junior_ot_marker n) (stored_notes item);
          threshold = overtime_junior_monthly_threshold rate
      in if deductions_policy_version rate \<noteq> 0
         then let existing = (if 0 < col item ''overtime_ordinary_pay'' \<and>
                                 \<not> list_ex (starts_with ''Overtime included in ordinary PAYE:'') existing
                              then existing @ [ordinary_overtime_note] else existing)
              in set_notes existing (fromkeys existing) item
         else let existing = (if 0 < threshold \<and> 0 < col item ''overtime_pay'' \<and> threshold < col item ''basic_salary''
                              then existing @ [junior_note item threshold] else existing)
              in set_notes existing existing item)"

subsection \<open>The rates and the concession of a run\<close>

datatype run_rate_error = Period_error period_error | No_version pydate

definition statutory_rate_for_run ::
  "statutory_rate list \<Rightarrow> payroll_run \<Rightarrow> run_rate_error + (statutory_rate \<times> payroll_run)" where
  "statutory_rate_for_run rates run =
     (case period_start (run_month run) (run_year run) of
        Inl e \<Rightarrow> raise (Period_error e)
      | Inr on_date \<Rightarrow>
          (case active_for rates on_date of
             None \<Rightarrow> raise (No_version on_date)
           | Some rate \<Rightarrow>
               return (rate, if run_status run \<in> set PENDING_STATUSES
                             then run\<lparr>run_statutory_rate_id := Some (rate_id rate)\<rparr> else run)))"

definition concession_of :: "payroll_item \<Rightarrow> rat" where
  "concession_of item =
     fsub (fadd (col item ''productivity_bonus'') (col item ''end_of_year_bonus'')) (col item ''bonus_excess'')"

definition closed_run_of_year :: "payroll_run list \<Rightarrow> int \<Rightarrow> int option \<Rightarrow> int \<Rightarrow> bool" where
  "closed_run_of_year runs year exclude r \<longleftrightarrow>
     list_ex (\<lambda>run. run_id run = r \<and> run_year run = year \<and> run_status run \<in> set CLOSED_STATUSES
                  \<and> exclude \<noteq> Some (run_id run)) runs"

definition bonus_concession_used_ytd_bulk ::
  "payroll_run list \<Rightarrow> payroll_item list \<Rightarrow> int option list \<Rightarrow> int \<Rightarrow> int option \<Rightarrow> int \<Rightarrow> rat option" where
  "bonus_concession_used_ytd_bulk runs items employee_ids year exclude e =
     (let mine = filter (\<lambda>i. item_employee i = Some e \<and> closed_run_of_year runs year exclude (item_run i)) items
      in if Some e \<notin> set employee_ids \<or> e = 0 \<or> mine = [] then None
         else Some (py_round2 (fsum 0 (map concession_of mine))))"

definition bonus_concession_used_ytd ::
  "payroll_run list \<Rightarrow> payroll_item list \<Rightarrow> int option \<Rightarrow> int \<Rightarrow> int option \<Rightarrow> rat" where
  "bonus_concession_used_ytd runs items employee_id year exclude =
     (case employee_id of None \<Rightarrow> 0
      | Some e \<Rightarrow> if e = 0 then 0
                 else num_or_0 (bonus_concession_used_ytd_bulk runs items [employee_id] year exclude e))"

end
