(* ===== verification/Recalc.thy ===== *)
theory Recalc
  imports Items
begin

text \<open>
  Calculating a standard run, from \<open>app/payroll.py\<close>: the staged recalculation of every
  item, the statutory invariants checked on the written rows, the run totals, the
  calculation at import confirmation and the Calculate Pay route, and the figures grid.
  A raise is an \<open>Inl\<close> or, where the caller goes on with the rows already written, an error
  beside the state.
\<close>

subsection \<open>One item\<close>

definition item_inputs :: "payroll_item \<Rightarrow> employee option \<Rightarrow> rat period_inputs" where
  "item_inputs item employee =
     \<lparr>si_basic_salary = col item ''basic_salary'',
      si_transport_allowance = col item ''transport_allowance'',
      si_housing_allowance = col item ''housing_allowance'',
      si_medical_allowance = col item ''medical_allowance'',
      si_meal_allowance = col item ''meal_allowance'',
      si_productivity_bonus = col item ''productivity_bonus'',
      si_end_of_year_bonus = col item ''end_of_year_bonus'',
      si_other_allowances = col item ''other_allowances'',
      si_overtime_pay = col item ''overtime_pay'',
      si_pay_difference = col item ''pay_difference'',
      si_pf_fund_employee = col item ''pf_fund_employee'',
      si_pf_fund_employer = col item ''pf_fund_employer'',
      si_tax_relief_monthly = (case employee of None \<Rightarrow> 0 | Some e \<Rightarrow> num_or_0 (emp_tax_relief_monthly e)),
      si_loan_deduction = col item ''loan_deduction'',
      si_loan_advance = col item ''loan_advance'',
      si_welfare_deduction = col item ''welfare_deduction'',
      si_iou_deduction = col item ''iou_deduction'',
      si_other_deductions = col item ''other_deductions''\<rparr>"

datatype calc_error = Policy_error deduction_error | Calc_period_error period_error

definition calculate_item ::
  "statutory_rate \<Rightarrow> payroll_item \<Rightarrow> rat \<Rightarrow> employee option \<Rightarrow> payroll_run \<Rightarrow> calc_error + salaried_result" where
  "calculate_item rate item used_ytd employee run =
     (case period_start (run_month run) (run_year run) of
        Inl e \<Rightarrow> raise (Calc_period_error e)
      | Inr on_date \<Rightarrow>
          (case calculate rate (item_inputs item employee) used_ytd (Some (context_for_employee employee on_date)) of
             Inl e \<Rightarrow> raise (Policy_error e)
           | Inr res \<Rightarrow> return res))"

definition roster_employee :: "employee list \<Rightarrow> int option \<Rightarrow> employee option" where
  "roster_employee employees employee_id =
     (case employee_id of None \<Rightarrow> None
      | Some e \<Rightarrow> if e = 0 then None else first_row (\<lambda>x. emp_id x = e) employees)"

subsection \<open>The run\<close>

datatype invariant_problem = Net_exceeds_gross int rat rat | Ssnit_mismatch int rat rat

datatype recalc_error = Row_rejected int calc_error | Invariant_violation "invariant_problem list"

definition item_problems :: "statutory_rate \<Rightarrow> payroll_item \<Rightarrow> invariant_problem list" where
  "item_problems rate item =
     (let gross = col item ''gross_pay''; net = col item ''net_pay''; advance = col item ''loan_advance'';
          pension_base = (if deductions_policy_version rate \<noteq> 0 then col item ''pensionable_salary''
                          else col item ''basic_salary'');
          expected_ssnit = money_dec (dmul (D pension_base) (D (ssf_employee_rate rate)))
      in (if fadd (fadd gross advance) (fl (1/100)) < net then [Net_exceeds_gross (item_id item) net gross] else [])
         @ (if fl (1/100) < \<bar>fsub (col item ''ssnit'') expected_ssnit\<bar>
            then [Ssnit_mismatch (item_id item) (col item ''ssnit'') expected_ssnit] else []))"

definition verify_statutory_invariants :: "statutory_rate \<Rightarrow> payroll_item list \<Rightarrow> invariant_problem list" where
  "verify_statutory_invariants rate items = concat (map (item_problems rate) items)"

text \<open>
  The staged results: the first rejected row ends the loop.  \<open>used\<close> is the table of the
  year's concessions, fetched once for the run.
\<close>

fun stage_results ::
  "statutory_rate \<Rightarrow> payroll_run \<Rightarrow> employee list \<Rightarrow> (int \<Rightarrow> rat option) \<Rightarrow> payroll_item list
    \<Rightarrow> recalc_error + (payroll_item \<times> salaried_result) list" where
  "stage_results rate run employees used [] = return []"
| "stage_results rate run employees used (item # items) =
     (let used_ytd = (case item_employee item of None \<Rightarrow> 0 | Some e \<Rightarrow> num_or_0 (used e))
      in case calculate_item rate item used_ytd (roster_employee employees (item_employee item)) run of
           Inl e \<Rightarrow> raise (Row_rejected (item_id item) e)
         | Inr res \<Rightarrow> bind_result (stage_results rate run employees used items) (\<lambda>rest. return ((item, res) # rest)))"

definition write_result :: "statutory_rate \<Rightarrow> payroll_item \<Rightarrow> salaried_result \<Rightarrow> payroll_item" where
  "write_result rate item res =
     apply_overtime_concession_warning rate
       (merge_calculation_warnings (sr_warnings res) (set_fields (as_payroll_item_fields res) item))"

text \<open>The items of the run after the call, and the error it raised, if any.\<close>

definition recalculate_salaried_items ::
  "payroll_run list \<Rightarrow> payroll_item list \<Rightarrow> employee list \<Rightarrow> payroll_run \<Rightarrow> statutory_rate
    \<Rightarrow> payroll_item list \<times> recalc_error option" where
  "recalculate_salaried_items runs items employees run rate =
     (let mine = items_of (run_id run) items;
          used = bonus_concession_used_ytd_bulk runs items (map item_employee mine) (run_year run) (Some (run_id run))
      in case stage_results rate run employees used mine of
           Inl e \<Rightarrow> (mine, Some e)
         | Inr staged \<Rightarrow>
             (let written = map (\<lambda>(item, res). write_result rate item res) staged;
                  problems = verify_statutory_invariants rate written
              in (written, if problems = [] then None else Some (Invariant_violation problems))))"

definition replace_items :: "int \<Rightarrow> payroll_item list \<Rightarrow> payroll_item list \<Rightarrow> payroll_item list" where
  "replace_items run written items =
     map (\<lambda>i. case map_of (map (\<lambda>w. (item_id w, w)) written) (item_id i) of
                Some w \<Rightarrow> if item_run i = run then w else i
              | None \<Rightarrow> i) items"

definition refresh_run_totals :: "payroll_item list \<Rightarrow> payroll_run \<Rightarrow> payroll_run" where
  "refresh_run_totals items run =
     (let items = items_of (run_id run) items;
          total_of = (\<lambda>f. Some (py_round2 (fsum 0 (map (\<lambda>i. col i f) items))))
      in run\<lparr>run_total_gross_pay := total_of ''gross_pay'',
             run_total_deductions := total_of ''total_deductions'',
             run_total_net_pay := total_of ''net_pay'',
             run_total_paye := total_of ''paye'',
             run_total_ssnit := total_of ''ssnit'',
             run_total_ssnit_employer := total_of ''ssf_employer'',
             run_total_workers := Some (int (length items))\<rparr>)"

subsection \<open>The database of the calculation and its two callers\<close>

record pay_db =
  pay_runs :: "payroll_run list"
  pay_items :: "payroll_item list"
  pay_employees :: "employee list"
  pay_rates :: "statutory_rate list"

definition put_run :: "payroll_run \<Rightarrow> pay_db \<Rightarrow> pay_db" where
  "put_run run db = db\<lparr>pay_runs := update_row run_id (run_id run) (\<lambda>_. run) (pay_runs db)\<rparr>"

definition put_items :: "int \<Rightarrow> payroll_item list \<Rightarrow> pay_db \<Rightarrow> pay_db" where
  "put_items run written db = db\<lparr>pay_items := replace_items run written (pay_items db)\<rparr>"

datatype auto_outcome = Skipped_no_rates run_rate_error | Calculation_failed recalc_error | Calculated

definition auto_calculate_on_confirm :: "payroll_run \<Rightarrow> pay_db \<Rightarrow> pay_db \<times> auto_outcome" where
  "auto_calculate_on_confirm run db =
     (case statutory_rate_for_run (pay_rates db) run of
        Inl e \<Rightarrow> (db, Skipped_no_rates e)
      | Inr (rate, run) \<Rightarrow>
          (case recalculate_salaried_items (pay_runs db) (pay_items db) (pay_employees db) run rate of
             (written, Some e) \<Rightarrow> (put_run run (put_items (run_id run) written db), Calculation_failed e)
           | (written, None) \<Rightarrow>
               (let db = put_items (run_id run) written db
                in (put_run (refresh_run_totals (pay_items db) run) db, Calculated))))"

datatype calculate_outcome =
    Run_not_open string
  | No_rates run_rate_error
  | Blocked recalc_error
  | Recalculated nat

text \<open>Calculate Pay on a standard run; a blocked calculation is rolled back.\<close>

definition calculate_standard :: "payroll_run \<Rightarrow> pay_db \<Rightarrow> pay_db \<times> calculate_outcome" where
  "calculate_standard run db =
     (if run_status run \<notin> set PENDING_STATUSES then (db, Run_not_open (run_status run))
      else case statutory_rate_for_run (pay_rates db) run of
        Inl e \<Rightarrow> (db, No_rates e)
      | Inr (rate, run) \<Rightarrow>
          (case recalculate_salaried_items (pay_runs db) (pay_items db) (pay_employees db) run rate of
             (written, Some e) \<Rightarrow> (db, Blocked e)
           | (written, None) \<Rightarrow>
               (let db = put_items (run_id run) written db
                in (put_run (refresh_run_totals (pay_items db) run) db, Recalculated (length written)))))"

subsection \<open>The figures grid\<close>

text \<open>A form field: absent or blank, not a finite number, or the number it reads as.\<close>

datatype grid_value = Not_sent | Unreadable | Number rat

definition EDITABLE_ITEM_FIELDS :: "string list" where
  "EDITABLE_ITEM_FIELDS =
     [''basic_salary'', ''transport_allowance'', ''medical_allowance'', ''meal_allowance'',
      ''productivity_bonus'', ''end_of_year_bonus'', ''overtime_pay'', ''pay_difference'',
      ''pf_fund_employee'', ''pf_fund_employer'', ''loan_deduction'', ''loan_advance'',
      ''welfare_deduction'', ''iou_deduction'', ''other_deductions'']"

text \<open>The running state of the loop: the item, the changes and the rejected values.\<close>

definition edit_cell ::
  "(int \<Rightarrow> string \<Rightarrow> grid_value) \<Rightarrow> payroll_item \<times> nat \<times> nat \<Rightarrow> string \<Rightarrow> payroll_item \<times> nat \<times> nat" where
  "edit_cell form st field =
     (case st of (item, changes, rejected) \<Rightarrow>
        (case form (item_id item) field of
           Not_sent \<Rightarrow> (item, changes, rejected)
         | Unreadable \<Rightarrow> (item, changes, rejected + 1)
         | Number new_value \<Rightarrow>
             if new_value < 0 then (item, changes, rejected + 1)
             else if \<bar>fsub new_value (col item field)\<bar> < fl (5/1000) then (item, changes, rejected)
             else (item\<lparr>item_money := (item_money item)(field \<mapsto> new_value)\<rparr>, changes + 1, rejected)))"

definition edit_branch :: "(int \<Rightarrow> string option) \<Rightarrow> payroll_item \<times> nat \<times> nat \<Rightarrow> payroll_item \<times> nat \<times> nat" where
  "edit_branch branches st =
     (case st of (item, changes, rejected) \<Rightarrow>
        (case branches (item_id item) of
           None \<Rightarrow> (item, changes, rejected)
         | Some raw \<Rightarrow>
             (let or_none = (\<lambda>s. if s = [] then None else Some s);
                  new_branch = or_none (strip raw);
                  old_branch = (case item_bank_branch item of None \<Rightarrow> None | Some b \<Rightarrow> or_none b)
              in if new_branch \<noteq> old_branch then (item\<lparr>item_bank_branch := new_branch\<rparr>, changes + 1, rejected)
                 else (item, changes, rejected))))"

definition edit_row ::
  "(int \<Rightarrow> string \<Rightarrow> grid_value) \<Rightarrow> (int \<Rightarrow> string option) \<Rightarrow> payroll_item \<Rightarrow> payroll_item \<times> nat \<times> nat" where
  "edit_row form branches item =
     edit_branch branches (foldl (edit_cell form) (item, 0, 0) EDITABLE_ITEM_FIELDS)"

text \<open>Saving the grid of a standard run: the new rows with the counts shown, or nothing when closed.\<close>

definition edit_items_standard ::
  "(int \<Rightarrow> string \<Rightarrow> grid_value) \<Rightarrow> (int \<Rightarrow> string option) \<Rightarrow> payroll_run \<Rightarrow> pay_db \<Rightarrow> pay_db \<times> (nat \<times> nat) option" where
  "edit_items_standard form branches run db =
     (if run_status run \<noteq> DRAFT then (db, None)
      else let edited = map (edit_row form branches) (items_of (run_id run) (pay_items db))
           in (put_items (run_id run) (map fst edited) db,
               Some (sum_list (map (\<lambda>(_, c, _). c) edited), sum_list (map (\<lambda>(_, _, r). r) edited))))"

subsection \<open>Frames\<close>

lemma map_add_again [simp]: "m ++ n ++ n = m ++ n"
  by (rule ext) (simp add: map_add_def split: option.split)

lemma set_fields_frame [simp]:
  "item_id (set_fields kvs item) = item_id item" "item_run (set_fields kvs item) = item_run item"
  "item_employee (set_fields kvs item) = item_employee item"
  "item_money (set_fields kvs item) = item_money item ++ map_of kvs"
  by (simp_all add: set_fields_def)

lemma merge_frame [simp]:
  "item_id (merge_calculation_warnings ws item) = item_id item"
  "item_run (merge_calculation_warnings ws item) = item_run item"
  "item_employee (merge_calculation_warnings ws item) = item_employee item"
  "item_money (merge_calculation_warnings ws item) = item_money item"
  by (simp_all add: merge_calculation_warnings_def Let_def)

lemma overtime_warning_frame [simp]:
  "item_id (apply_overtime_concession_warning rate item) = item_id item"
  "item_run (apply_overtime_concession_warning rate item) = item_run item"
  "item_employee (apply_overtime_concession_warning rate item) = item_employee item"
  "item_money (apply_overtime_concession_warning rate item) = item_money item"
  by (simp_all add: apply_overtime_concession_warning_def set_notes_def Let_def)

lemma write_result_frame [simp]:
  "item_id (write_result rate item res) = item_id item"
  "item_run (write_result rate item res) = item_run item"
  "item_employee (write_result rate item res) = item_employee item"
  "item_money (write_result rate item res) = item_money item ++ map_of (as_payroll_item_fields res)"
  by (simp_all add: write_result_def)

lemma map_of_key:
  assumes "distinct (map key ws)" "w \<in> set ws"
  shows "map_of (map (\<lambda>w. (key w, w)) ws) (key w) = Some w"
  using assms by (intro map_of_is_SomeI) (auto simp: comp_def)

lemma items_of_replace:
  assumes "distinct (map item_id items)" "map item_id written = map item_id (items_of run items)"
    "\<forall>w\<in>set written. item_run w = run"
  shows "items_of run (replace_items run written items) = written"
    and "other \<noteq> run \<Longrightarrow> items_of other (replace_items run written items) = items_of other items"
    and "map item_id (replace_items run written items) = map item_id items"
proof -
  define new where "new i = (case map_of (map (\<lambda>w. (item_id w, w)) written) (item_id i) of
      Some w \<Rightarrow> if item_run i = run then w else i | None \<Rightarrow> i)" for i
  have replace: "replace_items run written items = map new items" by (simp add: replace_items_def new_def)
  have d: "distinct (map item_id written)"
    using assms(1,2) by (simp add: items_of_def distinct_map_filter)
  have new_id: "item_id (new i) = item_id i \<and> (item_run (new i) = run \<longleftrightarrow> item_run i = run) \<and>
      (item_run i \<noteq> run \<longrightarrow> new i = i)" for i
    using assms(3) by (auto simp: new_def split: option.splits dest!: map_of_SomeD)
  have "map new (items_of run items) = written"
  proof (rule nth_equalityI)
    show l: "length (map new (items_of run items)) = length written" using assms(2) by (metis length_map)
    fix k assume k: "k < length (map new (items_of run items))"
    let ?i = "items_of run items ! k"
    have "item_id ?i = item_id (written ! k)" using assms(2) k l by (metis length_map nth_map)
    moreover have "item_run ?i = run" using nth_mem [of k "items_of run items"] k by (simp add: items_of_def)
    ultimately show "map new (items_of run items) ! k = written ! k"
      using map_of_key [OF d, of "written ! k"] k l by (simp add: new_def)
  qed
  moreover have "items_of run (map new items) = map new (items_of run items)"
    using new_id by (simp add: items_of_def filter_map comp_def)
  ultimately show "items_of run (replace_items run written items) = written" by (simp add: replace)
  show "map item_id (replace_items run written items) = map item_id items"
    using new_id by (simp add: replace comp_def)
  show "items_of other (replace_items run written items) = items_of other items" if "other \<noteq> run"
  proof -
    have "filter (\<lambda>i. item_run i = other) (map new items) = map new (filter (\<lambda>i. item_run i = other) items)"
    proof (induction items)
      case (Cons i rest)
      have "item_run (new i) = other \<longleftrightarrow> item_run i = other" using new_id [of i] that by (cases "item_run i = run") auto
      then show ?case using Cons.IH by simp
    qed simp
    also have "\<dots> = filter (\<lambda>i. item_run i = other) items"
      using new_id that by (intro map_idI) auto
    finally show ?thesis by (simp add: items_of_def replace)
  qed
qed

lemma stage_results_Inr:
  "stage_results rate run emps used items = Inr staged \<Longrightarrow>
     map fst staged = items \<and>
     (\<forall>(i, r)\<in>set staged. calculate_item rate i (case item_employee i of None \<Rightarrow> 0 | Some e \<Rightarrow> num_or_0 (used e))
        (roster_employee emps (item_employee i)) run = Inr r)"
  by (induction items arbitrary: staged) (auto simp: Let_def bind_result_Inr_iff split: sum.splits)

subsection \<open>What a calculation writes\<close>

text \<open>The calculator's answer for a stored row: the row's own inputs, its roster record and concession.\<close>

definition row_result :: "pay_db \<Rightarrow> payroll_run \<Rightarrow> statutory_rate \<Rightarrow> payroll_item \<Rightarrow> calc_error + salaried_result" where
  "row_result db run rate item =
     calculate_item rate item
       (bonus_concession_used_ytd (pay_runs db) (pay_items db) (item_employee item) (run_year run) (Some (run_id run)))
       (roster_employee (pay_employees db) (item_employee item)) run"

lemma used_lookup:
  assumes "item \<in> set items"
  shows "(case item_employee item of None \<Rightarrow> 0
          | Some e \<Rightarrow> num_or_0 (bonus_concession_used_ytd_bulk runs all (map item_employee items) year exclude e)) =
    bonus_concession_used_ytd runs all (item_employee item) year exclude"
  using assms
  by (auto simp: bonus_concession_used_ytd_def bonus_concession_used_ytd_bulk_def Let_def num_or_0_def
      image_iff split: option.split)

lemma staged_rows:
  fixes db :: pay_db
  assumes "stage_results rate run (pay_employees db)
      (bonus_concession_used_ytd_bulk (pay_runs db) (pay_items db)
        (map item_employee (items_of (run_id run) (pay_items db))) (run_year run) (Some (run_id run)))
      (items_of (run_id run) (pay_items db)) = Inr staged"
  shows "list_all2 (\<lambda>item new. \<exists>res. row_result db run rate item = Inr res \<and> new = write_result rate item res)
      (items_of (run_id run) (pay_items db)) (map (\<lambda>(item, res). write_result rate item res) staged)"
proof -
  let ?mine = "items_of (run_id run) (pay_items db)"
  note st = stage_results_Inr [OF assms]
  have "list_all2 (\<lambda>item new. \<exists>res. row_result db run rate item = Inr res \<and> new = write_result rate item res)
      (map fst staged) (map (\<lambda>(item, res). write_result rate item res) staged)"
    unfolding list_all2_conv_all_nth
  proof (intro conjI allI impI)
    fix k assume k: "k < length (map fst staged)"
    obtain i r where ir: "staged ! k = (i, r)" by (cases "staged ! k")
    then have m: "(i, r) \<in> set staged" using k by (metis length_map nth_mem)
    then have "i \<in> set (map fst staged)" by (force simp: image_iff)
    then have i: "i \<in> set ?mine" using st by simp
    have "row_result db run rate i = Inr r"
      using st m unfolding row_result_def used_lookup [OF i, symmetric] by fastforce
    then show "\<exists>res. row_result db run rate (map fst staged ! k) = Inr res \<and>
        map (\<lambda>(item, res). write_result rate item res) staged ! k = write_result rate (map fst staged ! k) res"
      using k ir by simp
  qed simp
  then show ?thesis using st by simp
qed

lemma recalculate_ok:
  fixes db :: pay_db
  assumes "recalculate_salaried_items (pay_runs db) (pay_items db) (pay_employees db) run rate = (written, None)"
  shows "list_all2 (\<lambda>item new. \<exists>res. row_result db run rate item = Inr res \<and> new = write_result rate item res)
      (items_of (run_id run) (pay_items db)) written"
    and "verify_statutory_invariants rate written = []"
  using assms staged_rows [of rate run db]
  by (auto simp: recalculate_salaried_items_def Let_def split: sum.splits if_splits)

lemma list_all2_map_eq:
  "list_all2 P xs ys \<Longrightarrow> (\<And>x y. P x y \<Longrightarrow> f y = f x) \<Longrightarrow> map f ys = map f xs"
  by (induction rule: list_all2_induct) auto

lemma written_ids:
  fixes db :: pay_db
  assumes "list_all2 (\<lambda>item new. \<exists>res. row_result db run rate item = Inr res \<and> new = write_result rate item res)
      (items_of (run_id run) (pay_items db)) written"
  shows "map item_id written = map item_id (items_of (run_id run) (pay_items db))"
    "\<forall>w\<in>set written. item_run w = run_id run"
proof -
  show "map item_id written = map item_id (items_of (run_id run) (pay_items db))"
    by (rule list_all2_map_eq [OF assms]) auto
  have "map item_run written = map item_run (items_of (run_id run) (pay_items db))"
    by (rule list_all2_map_eq [OF assms]) auto
  then have "set (map item_run written) \<subseteq> {run_id run}" by (auto simp: items_of_def)
  then show "\<forall>w\<in>set written. item_run w = run_id run" by auto
qed

lemmas recalculated_ids = written_ids [OF recalculate_ok(1)]

lemma calculate_standard_Recalculated:
  assumes "calculate_standard run db = (db', Recalculated n)"
  obtains rate run' written where "run_status run \<in> set PENDING_STATUSES"
    "statutory_rate_for_run (pay_rates db) run = Inr (rate, run')" "run_id run' = run_id run"
    "recalculate_salaried_items (pay_runs db) (pay_items db) (pay_employees db) run' rate = (written, None)"
    "n = length written" "pay_items db' = replace_items (run_id run) written (pay_items db)"
    "db' = put_run (refresh_run_totals (pay_items db') run') (put_items (run_id run) written db)"
proof -
  obtain rate run' written where r: "statutory_rate_for_run (pay_rates db) run = Inr (rate, run')"
    "recalculate_salaried_items (pay_runs db) (pay_items db) (pay_employees db) run' rate = (written, None)"
    "run_status run \<in> set PENDING_STATUSES" "n = length written"
    "db' = put_run (refresh_run_totals (pay_items (put_items (run_id run') written db)) run') (put_items (run_id run') written db)"
    using assms by (auto simp: calculate_standard_def Let_def split: if_splits sum.splits prod.splits option.splits)
  moreover have "run_id run' = run_id run"
    using r(1) by (auto simp: statutory_rate_for_run_def split: sum.splits option.splits if_splits)
  ultimately show ?thesis by (intro that) (auto simp: put_run_def put_items_def)
qed

text \<open>
  C9: Calculate Pay is all or nothing.  Any outcome but success leaves the database as it
  was.  On success the run was open, every one of its rows holds the calculator's figures
  for that row's own inputs, roster record and year-to-date concession, no statutory
  invariant is violated, and the rows of every other run are untouched.
\<close>
theorem calculate_all_or_nothing:
  assumes "distinct (map item_id (pay_items db))" "calculate_standard run db = (db', outcome)"
  shows "case outcome of
      Recalculated n \<Rightarrow> run_status run \<in> set PENDING_STATUSES \<and>
        (\<exists>rate run'. statutory_rate_for_run (pay_rates db) run = Inr (rate, run') \<and>
          list_all2 (\<lambda>item new. \<exists>res. row_result db run' rate item = Inr res \<and>
              item_money new = item_money item ++ map_of (as_payroll_item_fields res))
            (items_of (run_id run) (pay_items db)) (items_of (run_id run) (pay_items db')) \<and>
          verify_statutory_invariants rate (items_of (run_id run) (pay_items db')) = []) \<and>
        (\<forall>other. other \<noteq> run_id run \<longrightarrow> items_of other (pay_items db') = items_of other (pay_items db))
    | _ \<Rightarrow> db' = db"
proof (cases outcome)
  case (Recalculated n)
  from calculate_standard_Recalculated [OF assms(2) [unfolded Recalculated]]
  obtain rate run' written where r: "run_status run \<in> set PENDING_STATUSES"
    "statutory_rate_for_run (pay_rates db) run = Inr (rate, run')" "run_id run' = run_id run"
    "recalculate_salaried_items (pay_runs db) (pay_items db) (pay_employees db) run' rate = (written, None)"
    "pay_items db' = replace_items (run_id run) written (pay_items db)" by metis
  note ids = recalculated_ids [OF r(4), unfolded r(3)]
  note rep = items_of_replace [OF assms(1) ids, folded r(5)]
  have "list_all2 (\<lambda>item new. \<exists>res. row_result db run' rate item = Inr res \<and>
              item_money new = item_money item ++ map_of (as_payroll_item_fields res))
            (items_of (run_id run) (pay_items db)) written"
    using recalculate_ok(1) [OF r(4)] unfolding r(3) by (rule list_all2_mono) auto
  with r(1,2) rep recalculate_ok(2) [OF r(4)] Recalculated show ?thesis by auto
qed (use assms(2) in \<open>auto simp: calculate_standard_def Let_def split: if_splits sum.splits prod.splits option.splits\<close>)

subsection \<open>Calculating again\<close>

definition payable :: "rat period_inputs \<Rightarrow> bool" where
  "payable i \<longleftrightarrow> list_all (\<lambda>x. \<bar>pesewas (money x)\<bar> < max_pesewas) (input_list i)"

lemma money_is_money: "is_money (money x)" by simp

lemma is_money_small:
  assumes "is_money x" "\<bar>pesewas x\<bar> < max_pesewas"
  shows "x = cedi (pesewas x)" "\<bar>pesewas x\<bar> < max_pesewas"
proof -
  obtain c where x: "x = cedi c" using assms(1) by (auto simp: is_money_def)
  have mono: "pesewas (cedi a) \<le> pesewas (cedi b)" if "a \<le> b" for a b
    using cedi_mono [OF that] by (simp add: pesewas_def half_up_mono)
  have "\<bar>c\<bar> \<le> max_pesewas"
    using assms(2) mono [of max_pesewas c] mono [of c "- max_pesewas"] pesewas_cedi [of max_pesewas]
      pesewas_cedi [of "- max_pesewas"] unfolding x by linarith
  then show "x = cedi (pesewas x)" by (simp add: x pesewas_cedi)
qed (rule assms(2))

lemma money_again:
  assumes "\<bar>pesewas (money x)\<bar> < max_pesewas"
  shows "money (money x) = money x"
  using is_money_small [OF money_is_money assms] money_cedi [of "pesewas (money x)"] by force

lemma map_inputs_money_again:
  assumes "payable i"
  shows "map_inputs money (map_inputs money i) = map_inputs money i"
  using assms by (simp add: payable_def input_list_def map_inputs_def money_again)

lemma calculate_Inr:
  assumes "calculate rate i used c = Inr res"
  shows "sr_inputs res = map_inputs money i"
proof -
  obtain adj where "res = salaried_body rate (map_inputs money i) used adj"
    using assms by (auto simp: calculate_def Let_def bind_result_Inr_iff)
  then show ?thesis by (simp add: salaried_body_def Let_def split_def)
qed

lemma fields_lookup:
  "map_of (as_payroll_item_fields res) ''basic_salary'' = Some (si_basic_salary (sr_inputs res))"
  "map_of (as_payroll_item_fields res) ''transport_allowance'' = Some (si_transport_allowance (sr_inputs res))"
  "map_of (as_payroll_item_fields res) ''housing_allowance'' = Some (si_housing_allowance (sr_inputs res))"
  "map_of (as_payroll_item_fields res) ''medical_allowance'' = Some (si_medical_allowance (sr_inputs res))"
  "map_of (as_payroll_item_fields res) ''meal_allowance'' = Some (si_meal_allowance (sr_inputs res))"
  "map_of (as_payroll_item_fields res) ''productivity_bonus'' = Some (si_productivity_bonus (sr_inputs res))"
  "map_of (as_payroll_item_fields res) ''end_of_year_bonus'' = Some (si_end_of_year_bonus (sr_inputs res))"
  "map_of (as_payroll_item_fields res) ''other_allowances'' = Some (si_other_allowances (sr_inputs res))"
  "map_of (as_payroll_item_fields res) ''overtime_pay'' = Some (si_overtime_pay (sr_inputs res))"
  "map_of (as_payroll_item_fields res) ''pay_difference'' = Some (si_pay_difference (sr_inputs res))"
  "map_of (as_payroll_item_fields res) ''pf_fund_employee'' = Some (si_pf_fund_employee (sr_inputs res))"
  "map_of (as_payroll_item_fields res) ''pf_fund_employer'' = Some (si_pf_fund_employer (sr_inputs res))"
  "map_of (as_payroll_item_fields res) ''loan_deduction'' = Some (si_loan_deduction (sr_inputs res))"
  "map_of (as_payroll_item_fields res) ''loan_advance'' = Some (si_loan_advance (sr_inputs res))"
  "map_of (as_payroll_item_fields res) ''welfare_deduction'' = Some (si_welfare_deduction (sr_inputs res))"
  "map_of (as_payroll_item_fields res) ''iou_deduction'' = Some (si_iou_deduction (sr_inputs res))"
  "map_of (as_payroll_item_fields res) ''other_deductions'' = Some (si_other_deductions (sr_inputs res))"
  "map_of (as_payroll_item_fields res) ''gross_pay'' = Some (sr_gross_pay res)"
  "map_of (as_payroll_item_fields res) ''total_deductions'' = Some (sr_total_deductions res)"
  "map_of (as_payroll_item_fields res) ''net_pay'' = Some (sr_net_pay res)"
  "map_of (as_payroll_item_fields res) ''ssnit'' = Some (sr_ssnit res)"
  "map_of (as_payroll_item_fields res) ''pensionable_salary'' = Some (sr_pensionable_salary res)"
  by (simp_all add: as_payroll_item_fields_def Let_def)

lemma col_written:
  "map_of (as_payroll_item_fields res) f = Some v \<Longrightarrow> col (write_result rate item res) f = v"
  by (simp add: col_def num_or_0_def)

lemmas written_cols = fields_lookup [THEN col_written]

definition relief_input :: "employee option \<Rightarrow> rat" where
  "relief_input employee = (case employee of None \<Rightarrow> 0 | Some e \<Rightarrow> num_or_0 (emp_tax_relief_monthly e))"

lemma item_inputs_written:
  "item_inputs (write_result rate item res) employee = (sr_inputs res)\<lparr>si_tax_relief_monthly := relief_input employee\<rparr>"
  by (simp add: item_inputs_def written_cols relief_input_def)

lemma calculate_item_again:
  assumes "calculate_item rate item used employee run = Inr res" "payable (item_inputs item employee)"
  shows "calculate_item rate (write_result rate item res) used employee run = Inr res"
proof -
  let ?i = "item_inputs item employee"
  obtain d where d: "period_start (run_month run) (run_year run) = Inr d"
    and c: "calculate rate ?i used (Some (context_for_employee employee d)) = Inr res"
    using assms(1) by (auto simp: calculate_item_def split: sum.splits)
  have inputs: "sr_inputs res = map_inputs money ?i" by (rule calculate_Inr [OF c])
  have "map_inputs money ((map_inputs money ?i)\<lparr>si_tax_relief_monthly := relief_input employee\<rparr>) =
      map_inputs money (map_inputs money ?i)\<lparr>si_tax_relief_monthly := money (relief_input employee)\<rparr>"
    by (simp add: map_inputs_def)
  also have "\<dots> = map_inputs money ?i"
    unfolding map_inputs_money_again [OF assms(2)] by (simp add: map_inputs_def item_inputs_def relief_input_def)
  finally show ?thesis
    using c d by (simp add: calculate_item_def item_inputs_written inputs calculate_def)
qed

lemma stage_results_all:
  assumes "\<And>i. i \<in> set items \<Longrightarrow>
    calculate_item rate i (case item_employee i of None \<Rightarrow> 0 | Some e \<Rightarrow> num_or_0 (used e))
      (roster_employee emps (item_employee i)) run = Inr (f i)"
  shows "stage_results rate run emps used items = Inr (map (\<lambda>i. (i, f i)) items)"
  using assms by (induction items) (auto simp: Let_def)

lemma recalculate_all:
  fixes db :: pay_db
  assumes "\<And>i. i \<in> set (items_of (run_id run) (pay_items db)) \<Longrightarrow> row_result db run rate i = Inr (f i)"
    "verify_statutory_invariants rate (map (\<lambda>i. write_result rate i (f i)) (items_of (run_id run) (pay_items db))) = []"
  shows "recalculate_salaried_items (pay_runs db) (pay_items db) (pay_employees db) run rate =
    (map (\<lambda>i. write_result rate i (f i)) (items_of (run_id run) (pay_items db)), None)"
proof -
  let ?mine = "items_of (run_id run) (pay_items db)"
  have "stage_results rate run (pay_employees db)
      (bonus_concession_used_ytd_bulk (pay_runs db) (pay_items db) (map item_employee ?mine) (run_year run) (Some (run_id run)))
      ?mine = Inr (map (\<lambda>i. (i, f i)) ?mine)"
    by (rule stage_results_all) (simp add: used_lookup assms(1) [unfolded row_result_def])
  then show ?thesis using assms(2) by (simp add: recalculate_salaried_items_def Let_def comp_def)
qed

lemma replace_items_money:
  assumes "distinct (map item_id items)" "map item_id written = map item_id (items_of run items)"
    "map item_money written = map item_money (items_of run items)"
  shows "map item_money (replace_items run written items) = map item_money items"
proof -
  have "item_money w = item_money i"
    if i: "i \<in> set items" "item_run i = run" and w: "map_of (map (\<lambda>w. (item_id w, w)) written) (item_id i) = Some w" for i w
  proof -
    have w: "w \<in> set written" "item_id w = item_id i" using map_of_SomeD [OF w] by auto
    then obtain k where k: "k < length written" "w = written ! k" by (auto simp: in_set_conv_nth)
    let ?j = "items_of run items ! k"
    have kl: "k < length (items_of run items)" using k(1) assms(2) by (metis length_map)
    have "item_id ?j = item_id w" "item_money ?j = item_money w"
      using assms(2,3) k kl by (metis nth_map)+
    moreover have "?j \<in> set items" using nth_mem [OF kl] by (simp add: items_of_def)
    ultimately show ?thesis using w i assms(1) by (metis distinct_map inj_onD)
  qed
  then show ?thesis by (auto simp: replace_items_def split: option.split)
qed

lemma item_problems_cong:
  assumes "item_money a = item_money b" "item_id a = item_id b"
  shows "item_problems rate a = item_problems rate b"
proof -
  have "col a = col b" using assms(1) by (simp add: col_def fun_eq_iff)
  then show ?thesis unfolding item_problems_def assms(2) by (simp only:)
qed

lemma problems_cong:
  assumes "map item_money xs = map item_money ys" "map item_id xs = map item_id ys"
  shows "verify_statutory_invariants rate xs = verify_statutory_invariants rate ys"
proof -
  have l: "length xs = length ys" using assms(1) by (rule map_eq_imp_length_eq)
  have "map (item_problems rate) xs = map (item_problems rate) ys"
  proof (rule nth_equalityI)
    fix k assume k: "k < length (map (item_problems rate) xs)"
    then have eq: "item_money (xs ! k) = item_money (ys ! k)" "item_id (xs ! k) = item_id (ys ! k)"
      using arg_cong [OF assms(1), of "\<lambda>l. l ! k"] arg_cong [OF assms(2), of "\<lambda>l. l ! k"] l by simp_all
    show "map (item_problems rate) xs ! k = map (item_problems rate) ys ! k"
      using item_problems_cong [OF eq, of rate] k l by simp
  qed (simp add: l)
  then show ?thesis by (simp add: verify_statutory_invariants_def)
qed

lemma cols_via_money: "map (\<lambda>i. col i f) xs = map (\<lambda>m. num_or_0 (m f)) (map item_money xs)"
  by (simp add: col_def)

lemma refresh_frame [simp]:
  "run_id (refresh_run_totals items run) = run_id run" "run_status (refresh_run_totals items run) = run_status run"
  by (simp_all add: refresh_run_totals_def Let_def)

lemma refresh_cong:
  assumes "map item_money (items_of (run_id run) xs) = map item_money (items_of (run_id run) ys)"
  shows "refresh_run_totals xs run = refresh_run_totals ys run"
proof -
  have "map (\<lambda>i. col i f) (items_of (run_id run) xs) = map (\<lambda>i. col i f) (items_of (run_id run) ys)" for f
    by (simp only: cols_via_money assms)
  moreover have "length (items_of (run_id run) xs) = length (items_of (run_id run) ys)"
    using assms by (rule map_eq_imp_length_eq)
  ultimately show ?thesis by (simp only: refresh_run_totals_def Let_def)
qed

text \<open>The concession of the other runs does not see this run's rows or totals.\<close>

lemma used_ytd_frame:
  fixes db :: pay_db
  assumes "pay_items db' = replace_items (run_id run) written (pay_items db)"
    "\<forall>w\<in>set written. item_run w = run_id run"
    "pay_runs db' = update_row run_id (run_id run) (\<lambda>_. run') (pay_runs db)" "run_id run' = run_id run"
  shows "bonus_concession_used_ytd (pay_runs db') (pay_items db') e year (Some (run_id run)) =
    bonus_concession_used_ytd (pay_runs db) (pay_items db) e year (Some (run_id run))"
proof -
  let ?r = "run_id run"
  have closed: "closed_run_of_year (pay_runs db') year (Some ?r) r = closed_run_of_year (pay_runs db) year (Some ?r) r" for r
    unfolding assms(3) by (induction "pay_runs db") (auto simp: closed_run_of_year_def update_row_def assms(4) list_ex_iff)
  have self: "\<not> closed_run_of_year (pay_runs db) year (Some ?r) ?r"
    by (auto simp: closed_run_of_year_def list_ex_iff)
  have "filter (\<lambda>i. item_employee i = Some k \<and> closed_run_of_year (pay_runs db) year (Some ?r) (item_run i)) (replace_items ?r written items) =
      filter (\<lambda>i. item_employee i = Some k \<and> closed_run_of_year (pay_runs db) year (Some ?r) (item_run i)) items" for k items
    using self assms(2)
    by (induction items) (auto simp: replace_items_def split: option.splits dest!: map_of_SomeD)
  then show ?thesis
    by (simp add: bonus_concession_used_ytd_def bonus_concession_used_ytd_bulk_def closed assms(1) split: option.split)
qed

lemma payable_row_again:
  fixes db db' :: pay_db
  assumes "row_result db run rate item = Inr res"
    "payable (item_inputs item (roster_employee (pay_employees db) (item_employee item)))"
    "pay_employees db' = pay_employees db"
    "bonus_concession_used_ytd (pay_runs db') (pay_items db') (item_employee item) (run_year run) (Some (run_id run)) =
     bonus_concession_used_ytd (pay_runs db) (pay_items db) (item_employee item) (run_year run) (Some (run_id run))"
  shows "row_result db' run rate (write_result rate item res) = Inr res"
  using assms calculate_item_again by (simp add: row_result_def)

text \<open>
  C10: calculating again changes no figure.  Once Calculate Pay has succeeded on rows whose
  amounts stay below two billion cedis, a second calculation succeeds too and leaves every
  amount of every row and the totals of every run as they are: rounded inputs are fixed
  points, and the year-to-date concession never counts the run itself.
\<close>
theorem recalculation_idempotent:
  assumes "distinct (map item_id (pay_items db))"
    "calculate_standard run db = (db', Recalculated n)"
    "\<forall>item\<in>set (items_of (run_id run) (pay_items db)).
       payable (item_inputs item (roster_employee (pay_employees db) (item_employee item)))"
  shows "\<exists>db''. calculate_standard run db' = (db'', Recalculated n) \<and>
    map item_money (pay_items db'') = map item_money (pay_items db') \<and> pay_runs db'' = pay_runs db'"
proof -
  from calculate_standard_Recalculated [OF assms(2)]
  obtain rate run' written where r: "run_status run \<in> set PENDING_STATUSES"
    "statutory_rate_for_run (pay_rates db) run = Inr (rate, run')" "run_id run' = run_id run"
    "recalculate_salaried_items (pay_runs db) (pay_items db) (pay_employees db) run' rate = (written, None)"
    "n = length written" "pay_items db' = replace_items (run_id run) written (pay_items db)"
    "db' = put_run (refresh_run_totals (pay_items db') run') (put_items (run_id run) written db)" by metis
  let ?mine = "items_of (run_id run) (pay_items db)"
  have runs: "pay_runs db' = update_row run_id (run_id run) (\<lambda>_. refresh_run_totals (pay_items db') run') (pay_runs db)"
    and rest: "pay_employees db' = pay_employees db" "pay_rates db' = pay_rates db"
    by (subst r(7), simp add: put_run_def put_items_def r(3))+
  note ids = recalculated_ids [OF r(4), unfolded r(3)]
  note mine' = items_of_replace [OF assms(1) ids, folded r(6)]
  have used: "bonus_concession_used_ytd (pay_runs db') (pay_items db') e (run_year run') (Some (run_id run')) =
      bonus_concession_used_ytd (pay_runs db) (pay_items db) e (run_year run') (Some (run_id run'))" for e
    unfolding r(3) by (rule used_ytd_frame [OF r(6) ids(2) runs]) (simp add: r(3))
  define f where "f w = projr (row_result db' run' rate w)" for w
  have again: "row_result db' run' rate w = Inr (f w) \<and> item_money (write_result rate w (f w)) = item_money w" if "w \<in> set written" for w
  proof -
    from that recalculate_ok(1) [OF r(4), unfolded r(3)]
    obtain item res where i: "item \<in> set ?mine" "row_result db run' rate item = Inr res" "w = write_result rate item res"
      by (fastforce simp: list_all2_conv_all_nth in_set_conv_nth)
    have "row_result db' run' rate w = Inr res"
      unfolding i(3) using i(1,2) assms(3) by (intro payable_row_again [OF i(2) _ rest(1) used]) auto
    then show ?thesis by (simp add: f_def i(3))
  qed
  let ?w2 = "map (\<lambda>w. write_result rate w (f w)) written"
  have money: "map item_money ?w2 = map item_money written" and w2: "map item_id ?w2 = map item_id written"
    using again by simp_all
  have m2: "map item_money (replace_items (run_id run) ?w2 (pay_items db')) = map item_money (pay_items db')"
    using mine' assms(1) money w2 by (intro replace_items_money) auto
  have "recalculate_salaried_items (pay_runs db') (pay_items db') (pay_employees db') run' rate = (?w2, None)"
    using recalculate_all [of run' db' rate f] again mine'(1)
      problems_cong [OF money w2, of rate] recalculate_ok(2) [OF r(4)] by (simp add: r(3))
  moreover have "statutory_rate_for_run (pay_rates db') run = Inr (rate, run')" using r(2) rest(2) by simp
  moreover have "items_of (run_id run) (replace_items (run_id run) ?w2 (pay_items db')) = ?w2"
    using mine' assms(1) w2 ids(2) by (intro items_of_replace(1)) auto
  then have "refresh_run_totals (replace_items (run_id run) ?w2 (pay_items db')) run' = refresh_run_totals (pay_items db') run'"
    using money mine'(1) by (intro refresh_cong) (simp add: r(3))
  ultimately have "calculate_standard run db' =
      (put_run (refresh_run_totals (pay_items db') run') (put_items (run_id run) ?w2 db'), Recalculated n)"
    using r(1) by (simp add: calculate_standard_def put_items_def Let_def r(3) r(5))
  moreover have "update_row run_id k (\<lambda>_. x) (update_row run_id k (\<lambda>_. x) rs) = update_row run_id k (\<lambda>_. x) rs"
    if "run_id x = k" for k x and rs :: "payroll_run list"
    using that by (auto simp: update_row_def)
  ultimately show ?thesis
    using m2 by (simp add: put_run_def put_items_def runs r(3))
qed

end
