(* ===== verification/RunTotals.thy ===== *)
theory RunTotals
  imports Recalc
begin

text \<open>
  Concrete runs of the calculation and its run-level figures: the totals of a calculated
  run reconcile to the pesewa, and what an import confirmation leaves behind when the
  statutory invariants fail.
\<close>

subsection \<open>Run totals\<close>

lemma py_round2_apx:
  assumes "apx k x c" "k \<le> 1000"
  shows "py_round2 x = cedi c"
proof -
  have "\<bar>x - of_int c / 100\<bar> \<le> 1000 / 2 ^ 22"
    using assms by (auto simp: apx_def intro: order_trans divide_right_mono)
  then have "\<bar>x * 100 - of_int c\<bar> < 1/2" by (simp add: abs_if split: if_splits)
  moreover have "\<bar>of_int (rhe (x * 100)) - x * 100\<bar> \<le> 1/2" by (rule rhe_error)
  ultimately have "\<bar>of_int (rhe (x * 100) - c)\<bar> < (1 :: rat)" by (simp only: of_int_diff)
  then have "rhe (x * 100) = c" by (simp only: of_int_abs [symmetric] of_int_less_1_iff)
  then show ?thesis by (simp add: py_round2_def cedi_def)
qed

lemma column_total:
  assumes "list_all (amt (4 * 10 ^ 8)) xs" "length xs \<le> 490"
  shows "py_round2 (fsum 0 xs) = cedi (sum_list (map pesewas xs))"
    and "\<bar>sum_list (map pesewas xs)\<bar> \<le> 196000000000"
proof -
  have l: "(of_nat (length xs) :: rat) \<le> 490" using assms(2) by (metis of_nat_le_iff of_nat_numeral)
  have b: "int (length xs) * (4 * 10 ^ 8) \<le> 490 * (4 * 10 ^ 8)"
    using assms(2) by (intro mult_right_mono) auto
  have "apx (1 + 2 * of_nat (length xs)) (fsum 0 xs) (0 + sum_list (map pesewas xs))"
    using l b assms(1) by (intro apx_fsum [of _ _ _ "4 * 10 ^ 8"] apx_cedi [of 0, simplified]) auto
  then show "py_round2 (fsum 0 xs) = cedi (sum_list (map pesewas xs))"
    using l by (intro py_round2_apx) auto
  have "\<bar>sum_list (map pesewas xs)\<bar> \<le> int (length xs) * (4 * 10 ^ 8)"
    using assms(1) amtE(2) [of "4 * 10 ^ 8"] by (induction xs) (fastforce simp: algebra_simps)+
  then show "\<bar>sum_list (map pesewas xs)\<bar> \<le> 196000000000" using b by simp
qed

text \<open>The amounts of a row that the totals rest on, below four million cedis.\<close>

definition ordinary_row :: "payroll_item \<Rightarrow> bool" where
  "ordinary_row item \<longleftrightarrow> list_all (\<lambda>f. amt (4 * 10 ^ 8) (col item f))
     [''gross_pay'', ''total_deductions'', ''net_pay'', ''loan_advance'']"

lemma row_net:
  assumes "calculate rate i used c = Inr res" "ordinary_row (write_result rate item res)"
  shows "pesewas (sr_net_pay res) =
    pesewas (sr_gross_pay res) - pesewas (sr_total_deductions res) + pesewas (si_loan_advance (sr_inputs res))"
  using assms(2) calculate_produced [OF assms(1)]
  by (intro salaried.net_pesewas) (auto simp: ordinary_row_def written_cols intro: amt_mono)

definition column_pesewas :: "payroll_item list \<Rightarrow> string \<Rightarrow> int" where
  "column_pesewas items f = sum_list (map (\<lambda>i. pesewas (col i f)) items)"

lemma column_pesewas_lin:
  assumes "\<And>i. i \<in> set items \<Longrightarrow> pesewas (col i a) = pesewas (col i b) - pesewas (col i c) + pesewas (col i d)"
  shows "column_pesewas items a = column_pesewas items b - column_pesewas items c + column_pesewas items d"
  using assms by (induction items) (auto simp: column_pesewas_def)

text \<open>
  C11: the stored totals of a calculated run reconcile.  For runs of up to 490 workers with
  amounts below four million cedis, the run's gross, deductions and net totals are exactly
  the sums of the rows in pesewas although they are added as floats, the headcount is the
  number of rows, and net = gross - deductions + advances paid holds for the whole run.
\<close>
theorem control_totals_reconcile:
  assumes "distinct (map item_id (pay_items db))" "run_id run \<in> run_id ` set (pay_runs db)"
    "calculate_standard run db = (db', Recalculated n)" "n \<le> 490"
    "\<forall>item\<in>set (items_of (run_id run) (pay_items db')). ordinary_row item"
  shows "\<exists>stored\<in>set (pay_runs db'). run_id stored = run_id run \<and>
    (let total = column_pesewas (items_of (run_id run) (pay_items db')) in
      run_total_workers stored = Some (int n) \<and>
      run_total_gross_pay stored = Some (cedi (total ''gross_pay'')) \<and>
      run_total_deductions stored = Some (cedi (total ''total_deductions'')) \<and>
      run_total_net_pay stored = Some (cedi (total ''net_pay'')) \<and>
      total ''net_pay'' = total ''gross_pay'' - total ''total_deductions'' + total ''loan_advance'')"
proof -
  from calculate_standard_Recalculated [OF assms(3)]
  obtain rate run' written where r: "run_id run' = run_id run"
    "recalculate_salaried_items (pay_runs db) (pay_items db) (pay_employees db) run' rate = (written, None)"
    "n = length written" "pay_items db' = replace_items (run_id run) written (pay_items db)"
    "db' = put_run (refresh_run_totals (pay_items db') run') (put_items (run_id run) written db)" by metis
  note ids = recalculated_ids [OF r(2), unfolded r(1)]
  have mine: "items_of (run_id run) (pay_items db') = written"
    using items_of_replace(1) [OF assms(1) ids] by (simp add: r(4))
  let ?stored = "refresh_run_totals (pay_items db') run'"
  have runs: "pay_runs db' = update_row run_id (run_id run) (\<lambda>_. ?stored) (pay_runs db)"
    by (subst r(5)) (simp add: put_run_def put_items_def r(1))
  have stored: "?stored \<in> set (pay_runs db')" using assms(2) unfolding runs by (force simp: update_row_def)
  have exact: "py_round2 (fsum 0 (map (\<lambda>i. col i f) written)) = cedi (column_pesewas written f)"
    if "f \<in> {''gross_pay'', ''total_deductions'', ''net_pay''}" for f
  proof -
    have "list_all (amt (4 * 10 ^ 8)) (map (\<lambda>i. col i f) written)"
      using assms(5) that unfolding mine by (auto simp: list_all_iff ordinary_row_def)
    from column_total(1) [OF this] show ?thesis using assms(4) r(3) by (simp add: column_pesewas_def comp_def)
  qed
  have "pesewas (col w ''net_pay'') = pesewas (col w ''gross_pay'') - pesewas (col w ''total_deductions'') + pesewas (col w ''loan_advance'')"
    if w: "w \<in> set written" for w
  proof -
    from w recalculate_ok(1) [OF r(2)] obtain item res where
      res: "row_result db run' rate item = Inr res" "w = write_result rate item res"
      by (fastforce simp: list_all2_conv_all_nth in_set_conv_nth)
    then obtain i used c where "calculate rate i used c = Inr res"
      by (auto simp: row_result_def calculate_item_def split: sum.splits)
    from row_net [OF this, of item] show ?thesis
      using assms(5) w unfolding mine res(2) by (simp add: written_cols)
  qed
  from column_pesewas_lin [OF this] show ?thesis
    using stored exact r(3) by (intro bexI [OF _ stored]) (simp add: mine refresh_run_totals_def Let_def r(1))
qed

subsection \<open>Concrete runs\<close>

text \<open>One row carrying given inputs, in a January 2026 run under the workbook's rates.\<close>

definition item_with :: "int period_inputs \<Rightarrow> payroll_item" where
  "item_with p =
     \<lparr>item_id = 1, item_run = 1, item_employee = None, item_staff_id = Some ''A1'', item_full_name = None,
      item_email = None, item_momo_number = None, item_bank_branch = None,
      item_money = map_of
        [(''basic_salary'', cedi (si_basic_salary p)), (''transport_allowance'', cedi (si_transport_allowance p)),
         (''housing_allowance'', cedi (si_housing_allowance p)), (''medical_allowance'', cedi (si_medical_allowance p)),
         (''meal_allowance'', cedi (si_meal_allowance p)), (''productivity_bonus'', cedi (si_productivity_bonus p)),
         (''end_of_year_bonus'', cedi (si_end_of_year_bonus p)), (''other_allowances'', cedi (si_other_allowances p)),
         (''overtime_pay'', cedi (si_overtime_pay p)), (''pay_difference'', cedi (si_pay_difference p)),
         (''pf_fund_employee'', cedi (si_pf_fund_employee p)), (''pf_fund_employer'', cedi (si_pf_fund_employer p)),
         (''loan_deduction'', cedi (si_loan_deduction p)), (''loan_advance'', cedi (si_loan_advance p)),
         (''welfare_deduction'', cedi (si_welfare_deduction p)), (''iou_deduction'', cedi (si_iou_deduction p)),
         (''other_deductions'', cedi (si_other_deductions p))],
      item_validation_status = ''OK'', item_warning_notes = None, item_token_version = 0\<rparr>"

definition one_row_db :: "int period_inputs \<Rightarrow> pay_db" where
  "one_row_db p = \<lparr>pay_runs = [sample_run DRAFT 1], pay_items = [item_with p], pay_employees = [],
     pay_rates = [workbook_rate 1]\<rparr>"

definition stamped_run :: payroll_run where
  "stamped_run = (sample_run DRAFT 1)\<lparr>run_statutory_rate_id := Some 1\<rparr>"

lemma item_with_employee [simp]: "item_employee (item_with p) = None" "item_id (item_with p) = 1"
  by (simp_all add: item_with_def)

lemma one_row_rate: "statutory_rate_for_run (pay_rates (one_row_db p)) (sample_run DRAFT 1) = Inr (workbook_rate 1, stamped_run)"
proof -
  have "rate_id (workbook_rate 1) = 1" "effective_from (workbook_rate 1) = Date 2026 1 1"
    by (simp_all add: workbook_rate_def)
  then show ?thesis
    by (simp add: statutory_rate_for_run_def one_row_db_def sample_run_def stamped_run_def period_start_eval
        active_for_def PENDING_STATUSES_def)
qed

lemma item_inputs_with: "si_tax_relief_monthly p = 0 \<Longrightarrow> item_inputs (item_with p) None = map_inputs cedi p"
  by (simp add: item_inputs_def item_with_def col_def num_or_0_def map_inputs_def)

lemma one_row_result:
  assumes "small_inputs p" "nonneg_policy_inputs p" "si_tax_relief_monthly p = 0"
    "salaried_spec False historical_bands_spec 150000 50000 p 0 (historical_adj p 55000 130000 500000 50000 100000) = sp"
    "\<bar>sp_gross sp\<bar> < max_pesewas" "\<bar>sp_net sp\<bar> < max_pesewas" "\<bar>sp_deductions sp\<bar> < max_pesewas"
  obtains res where "row_result (one_row_db p) stamped_run (workbook_rate 1) (item_with p) = Inr res"
    "sr_gross_pay res = cedi (sp_gross sp)" "sr_net_pay res = cedi (sp_net sp)"
    "sr_total_deductions res = cedi (sp_deductions sp)"
    "sr_ssnit res = cedi (tax_on (si_basic_salary p) 55000)" "sr_inputs res = map_inputs cedi p"
proof -
  define c where "c = Some (context_for_employee None (Date 2026 1 1))"
  obtain res where res: "calculate (workbook_rate 1) (map_inputs cedi p) (cedi 0) c = Inr res"
    "salaried_abs res = sp"
    using historical_salaried_run [OF workbook_engine_rate workbook_historical_rate assms(1,2), where used = 0 and ctx = c] assms(4) by auto
  have prod: "salaried_produced res" by (rule calculate_produced [OF res(1)])
  have sp: "pesewas (sr_gross_pay res) = sp_gross sp" "pesewas (sr_net_pay res) = sp_net sp"
    "pesewas (sr_total_deductions res) = sp_deductions sp"
    using res(2) by (auto simp: salaried_abs_def)
  have "is_money (sr_net_pay res)" using salaried.net_law [OF prod] by simp
  then have figures: "sr_gross_pay res = cedi (sp_gross sp)" "sr_net_pay res = cedi (sp_net sp)"
    "sr_total_deductions res = cedi (sp_deductions sp)"
    using salaried.money_law [OF prod] is_money_small(1) sp assms(5-7) by metis+
  have inputs: "sr_inputs res = map_inputs cedi p"
    using calculate_Inr [OF res(1)] map_inputs_money [OF assms(1)] by simp
  have "res = salaried_body (workbook_rate 1) (map_inputs cedi p) (cedi 0) (historical_adj p 55000 130000 500000 50000 100000)"
    using res(1) historical_salaried_adjustments [OF assms(1,2) workbook_historical_rate] map_inputs_money [OF assms(1)]
    by (simp add: calculate_def)
  then have "sr_ssnit res = cedi (tax_on (si_basic_salary p) 55000)"
    by (simp add: salaried_body_def Let_def split_def historical_adj_def)
  moreover have "row_result (one_row_db p) stamped_run (workbook_rate 1) (item_with p) = Inr res"
    using res(1) item_inputs_with [OF assms(3)]
    by (simp add: row_result_def calculate_item_def roster_employee_def bonus_concession_used_ytd_def c_def
        stamped_run_def sample_run_def period_start_eval item_with_def)
  ultimately show ?thesis using figures inputs by (intro that)
qed

lemma one_row_problems:
  assumes "sr_gross_pay res = cedi g" "sr_net_pay res = cedi n" "sr_ssnit res = cedi (tax_on (si_basic_salary p) 55000)"
    "sr_inputs res = map_inputs cedi p" "\<bar>si_basic_salary p\<bar> \<le> 10 ^ 15"
  shows "verify_statutory_invariants (workbook_rate 1) [write_result (workbook_rate 1) (item_with p) res] =
    (if fadd (fadd (cedi g) (cedi (si_loan_advance p))) (fl (1/100)) < cedi n then [Net_exceeds_gross 1 (cedi n) (cedi g)] else [])"
proof -
  have "money_dec (dmul (D (cedi (si_basic_salary p))) (D (ssf_employee_rate (workbook_rate 1)))) = cedi (tax_on (si_basic_salary p) 55000)"
    using money_dec_mul_rate [OF assms(5) workbook_rate_short(1)] by (simp add: D_cedi [OF assms(5)])
  moreover have "\<not> fl (1/100) < \<bar>fsub x x\<bar>" for x by (simp add: fsub_def) code_simp
  moreover have "deductions_policy_version (workbook_rate 1) = 0" by (simp add: workbook_rate_def)
  moreover have "item_id (item_with p) = 1" by (simp add: item_with_def)
  ultimately show ?thesis
    using assms(1-4) by (simp add: verify_statutory_invariants_def item_problems_def written_cols map_inputs_def)
qed

lemma items_of_one_row [simp]: "items_of 1 (pay_items (one_row_db p)) = [item_with p]"
  by (simp add: one_row_db_def items_of_def item_with_def)

lemma one_row_recalculated:
  assumes "row_result (one_row_db p) stamped_run (workbook_rate 1) (item_with p) = Inr res"
    "verify_statutory_invariants (workbook_rate 1) [write_result (workbook_rate 1) (item_with p) res] = []"
  shows "\<exists>db'. calculate_standard (sample_run DRAFT 1) (one_row_db p) = (db', Recalculated 1) \<and>
    items_of 1 (pay_items db') = [write_result (workbook_rate 1) (item_with p) res]"
proof -
  have id: "run_id stamped_run = 1" by (simp add: stamped_run_def sample_run_def)
  have "recalculate_salaried_items (pay_runs (one_row_db p)) (pay_items (one_row_db p)) (pay_employees (one_row_db p))
      stamped_run (workbook_rate 1) = ([write_result (workbook_rate 1) (item_with p) res], None)"
    using recalculate_all [of stamped_run "one_row_db p" "workbook_rate 1" "\<lambda>_. res"] assms by (simp add: id)
  moreover have "run_status (sample_run DRAFT 1) \<in> set PENDING_STATUSES"
    by (simp add: sample_run_def PENDING_STATUSES_def)
  ultimately show ?thesis
    using one_row_rate [of p]
    by (simp add: calculate_standard_def Let_def id put_run_def put_items_def one_row_db_def replace_items_def
        items_of_def item_with_def)
qed

text \<open>A worker of the workbook, and the same row with a deduction uploaded with the wrong sign.\<close>

definition wrong_sign :: "int period_inputs" where
  "wrong_sign = AC636\<lparr>si_other_deductions := - 400000\<rparr>"

lemma wrong_sign_ok: "small_inputs wrong_sign \<and> nonneg_policy_inputs wrong_sign"
  by (simp add: small_inputs_def input_list_def wrong_sign_def AC636_def no_inputs_def nonneg_policy_inputs_def)

lemma wrong_sign_spec:
  "salaried_spec False historical_bands_spec 150000 50000 wrong_sign 0 (historical_adj wrong_sign 55000 130000 500000 50000 100000)
     = \<lparr>sp_net_basic = 158301, sp_taxable = 180694, sp_relief = 0, sp_ordinary_paye = 20696,
        sp_tax = 47761, sp_gross = 512437, sp_deductions = - 333026, sp_net = 845463\<rparr>"
proof -
  have t: "tax_on 167514 55000 = 9213" "overtime_spec 312530 167514 500000 50000 100000 = 27065"
    "paye_spec historical_bands_spec 180694 = 20696" by code_simp+
  show ?thesis
    by (simp add: salaried_spec_def historical_adj_def wrong_sign_def AC636_def no_inputs_def bonus_spec_def relief_spec_def
        DeductionAdjustments_zero t pesewas_cedi)
qed

lemma inputs_of_samples [simp]:
  "si_tax_relief_monthly AC636 = 0" "si_loan_advance AC636 = 0" "si_basic_salary AC636 = 167514"
  "si_tax_relief_monthly wrong_sign = 0" "si_loan_advance wrong_sign = 0" "si_basic_salary wrong_sign = 167514"
  by (simp_all add: wrong_sign_def AC636_def no_inputs_def)

lemma AC636_calculated:
  obtains res db' where "row_result (one_row_db AC636) stamped_run (workbook_rate 1) (item_with AC636) = Inr res"
    "sr_gross_pay res = cedi 512437" "sr_net_pay res = cedi 445463" "sr_total_deductions res = cedi 66974"
    "sr_inputs res = map_inputs cedi AC636"
    "calculate_standard (sample_run DRAFT 1) (one_row_db AC636) = (db', Recalculated 1)"
    "items_of 1 (pay_items db') = [write_result (workbook_rate 1) (item_with AC636) res]"
proof -
  obtain res where res: "row_result (one_row_db AC636) stamped_run (workbook_rate 1) (item_with AC636) = Inr res"
    "sr_gross_pay res = cedi 512437" "sr_net_pay res = cedi 445463" "sr_total_deductions res = cedi 66974"
    "sr_ssnit res = cedi (tax_on (si_basic_salary AC636) 55000)" "sr_inputs res = map_inputs cedi AC636"
    by (rule one_row_result [OF AC636_ok [THEN conjunct1] AC636_ok [THEN conjunct2] _ AC636_spec]) auto
  have "\<not> fadd (fadd (cedi 512437) (cedi 0)) (fl (1/100)) < cedi 445463" by code_simp
  then have "verify_statutory_invariants (workbook_rate 1) [write_result (workbook_rate 1) (item_with AC636) res] = []"
    using one_row_problems [OF res(2,3,5,6)] by simp
  then obtain db' where "calculate_standard (sample_run DRAFT 1) (one_row_db AC636) = (db', Recalculated 1)"
    "items_of 1 (pay_items db') = [write_result (workbook_rate 1) (item_with AC636) res]"
    using one_row_recalculated [OF res(1)] by blast
  then show ?thesis using res that by blast
qed

lemma run_id_sample [simp]: "run_id (sample_run s n) = 1" by (simp add: sample_run_def)

theorem calculate_all_or_nothing_witness:
  "\<exists>db' res. calculate_standard (sample_run DRAFT 1) (one_row_db AC636) = (db', Recalculated 1) \<and>
     (\<exists>rate run'. statutory_rate_for_run [workbook_rate 1] (sample_run DRAFT 1) = Inr (rate, run') \<and>
        verify_statutory_invariants rate (items_of 1 (pay_items db')) = [])"
proof -
  obtain res db' where c: "calculate_standard (sample_run DRAFT 1) (one_row_db AC636) = (db', Recalculated 1)"
    by (rule AC636_calculated) blast
  have "distinct (map item_id (pay_items (one_row_db AC636)))" by (simp add: one_row_db_def)
  from calculate_all_or_nothing [OF this c] c show ?thesis by (auto simp: one_row_db_def)
qed

theorem recalculation_idempotent_witness:
  "\<exists>db' db''. calculate_standard (sample_run DRAFT 1) (one_row_db AC636) = (db', Recalculated 1) \<and>
     calculate_standard (sample_run DRAFT 1) db' = (db'', Recalculated 1) \<and>
     map item_money (pay_items db'') = map item_money (pay_items db')"
proof -
  obtain res db' where c: "calculate_standard (sample_run DRAFT 1) (one_row_db AC636) = (db', Recalculated 1)"
    by (rule AC636_calculated) blast
  have e: "item_employee (item_with AC636) = None" by (simp add: item_with_def)
  have "payable (map_inputs cedi AC636)"
    by (simp add: payable_def input_list_def map_inputs_def AC636_def no_inputs_def money_cedi pesewas_cedi)
  then have "payable (item_inputs (item_with AC636) (roster_employee (pay_employees (one_row_db AC636)) None))"
    by (simp add: roster_employee_def item_inputs_with)
  then have "\<forall>item\<in>set (items_of (run_id (sample_run DRAFT 1)) (pay_items (one_row_db AC636))).
      payable (item_inputs item (roster_employee (pay_employees (one_row_db AC636)) (item_employee item)))"
    using e by simp
  moreover have "distinct (map item_id (pay_items (one_row_db AC636)))" by (simp add: one_row_db_def)
  ultimately show ?thesis using recalculation_idempotent [OF _ c] c by blast
qed

theorem control_totals_reconcile_witness:
  "\<exists>db'. calculate_standard (sample_run DRAFT 1) (one_row_db AC636) = (db', Recalculated 1) \<and>
    (\<exists>stored\<in>set (pay_runs db'). run_total_net_pay stored = Some (cedi 445463))"
proof -
  obtain res db' where c: "sr_gross_pay res = cedi 512437" "sr_net_pay res = cedi 445463"
    "sr_total_deductions res = cedi 66974" "sr_inputs res = map_inputs cedi AC636"
    "calculate_standard (sample_run DRAFT 1) (one_row_db AC636) = (db', Recalculated 1)"
    "items_of 1 (pay_items db') = [write_result (workbook_rate 1) (item_with AC636) res]"
    by (rule AC636_calculated) blast
  have "ordinary_row (write_result (workbook_rate 1) (item_with AC636) res)"
    using c(1-4) by (auto simp: ordinary_row_def written_cols map_inputs_def intro!: amt_cedi)
  then have "\<forall>item\<in>set (items_of (run_id (sample_run DRAFT 1)) (pay_items db')). ordinary_row item"
    using c(6) by simp
  moreover have "distinct (map item_id (pay_items (one_row_db AC636)))"
    "run_id (sample_run DRAFT 1) \<in> run_id ` set (pay_runs (one_row_db AC636))" by (simp_all add: one_row_db_def)
  moreover have "column_pesewas [write_result (workbook_rate 1) (item_with AC636) res] ''net_pay'' = 445463"
    using c(2) by (simp add: column_pesewas_def written_cols pesewas_cedi)
  ultimately show ?thesis
    using control_totals_reconcile [OF _ _ c(5)] c(5,6) by (auto simp: Let_def)
qed

subsection \<open>A calculation that fails at confirmation\<close>

lemma replace_items_map:
  assumes "distinct (map item_id items)" "\<And>i. item_id (g i) = item_id i"
  shows "replace_items run (map g (items_of run items)) items = map (\<lambda>i. if item_run i = run then g i else i) items"
proof -
  have d: "distinct (map item_id (map g (items_of run items)))"
    using assms by (simp add: items_of_def distinct_map_filter comp_def)
  have "(case map_of (map (\<lambda>w. (item_id w, w)) (map g (items_of run items))) (item_id i) of
      Some w \<Rightarrow> if item_run i = run then w else i | None \<Rightarrow> i) = (if item_run i = run then g i else i)"
    if i: "i \<in> set items" for i
  proof (cases "item_run i = run")
    case True
    then have "g i \<in> set (map g (items_of run items))" using i by (simp add: items_of_def)
    from map_of_key [OF d this] show ?thesis using True by (simp add: assms(2))
  qed (simp split: option.split)
  then show ?thesis by (simp add: replace_items_def)
qed

lemma replace_items_same: "distinct (map item_id items) \<Longrightarrow> replace_items run (items_of run items) items = items"
  using replace_items_map [of items "\<lambda>i. i" run] by (simp add: map_idI)

lemma recalculate_failed:
  fixes db :: pay_db
  assumes "recalculate_salaried_items (pay_runs db) (pay_items db) (pay_employees db) run rate = (written, Some e)"
  shows "case e of Row_rejected _ _ \<Rightarrow> written = items_of (run_id run) (pay_items db)
    | Invariant_violation ps \<Rightarrow> ps = verify_statutory_invariants rate written \<and> ps \<noteq> [] \<and>
        list_all2 (\<lambda>item new. \<exists>res. row_result db run rate item = Inr res \<and> new = write_result rate item res)
          (items_of (run_id run) (pay_items db)) written"
proof -
  let ?mine = "items_of (run_id run) (pay_items db)"
  let ?used = "bonus_concession_used_ytd_bulk (pay_runs db) (pay_items db) (map item_employee ?mine) (run_year run) (Some (run_id run))"
  have inv: "case e of Row_rejected _ _ \<Rightarrow> True | Invariant_violation _ \<Rightarrow> False"
    if "stage_results rate run emps used items = Inl e" for emps used items
    using that by (induction items) (auto simp: Let_def bind_result_def split: sum.splits)
  show ?thesis
  proof (cases "stage_results rate run (pay_employees db) ?used ?mine")
    case (Inl e')
    then show ?thesis using assms inv [of "pay_employees db" ?used ?mine]
      by (auto simp: recalculate_salaried_items_def Let_def split: recalc_error.splits)
  next
    case (Inr staged)
    then show ?thesis using assms staged_rows [OF Inr]
      by (auto simp: recalculate_salaried_items_def Let_def split: if_splits)
  qed
qed

text \<open>
  C12: what a failed calculation leaves behind at import confirmation.  When a row is
  rejected the uploaded figures are kept, as the message to the clerk says.  When the
  calculated rows violate a statutory invariant they are not: every row of the run keeps
  the calculated figures that were just found wrong, beside run totals that are still the
  uploaded ones.
\<close>
theorem failed_confirmation:
  assumes "distinct (map item_id (pay_items db))"
    "auto_calculate_on_confirm run db = (db', Calculation_failed e)"
  shows "(case e of Row_rejected _ _ \<Rightarrow> pay_items db' = pay_items db
    | Invariant_violation ps \<Rightarrow>
        (\<exists>rate run'. statutory_rate_for_run (pay_rates db) run = Inr (rate, run') \<and>
          list_all2 (\<lambda>item new. \<exists>res. row_result db run' rate item = Inr res \<and>
              item_money new = item_money item ++ map_of (as_payroll_item_fields res))
            (items_of (run_id run) (pay_items db)) (items_of (run_id run) (pay_items db')) \<and>
          ps = verify_statutory_invariants rate (items_of (run_id run) (pay_items db')) \<and> ps \<noteq> [])) \<and>
    (\<exists>rate_id. pay_runs db' = update_row run_id (run_id run) (\<lambda>_. run\<lparr>run_statutory_rate_id := rate_id\<rparr>) (pay_runs db))"
proof -
  obtain rate run' written where r: "statutory_rate_for_run (pay_rates db) run = Inr (rate, run')"
    "recalculate_salaried_items (pay_runs db) (pay_items db) (pay_employees db) run' rate = (written, Some e)"
    "db' = put_run run' (put_items (run_id run') written db)"
    using assms(2) by (auto simp: auto_calculate_on_confirm_def Let_def split: sum.splits prod.splits option.splits)
  obtain k where run': "run' = run\<lparr>run_statutory_rate_id := k\<rparr>"
    using r(1) by (auto simp: statutory_rate_for_run_def split: sum.splits option.splits if_splits) (metis payroll_run.surjective payroll_run.update_convs(6))
  have runs: "\<exists>rate_id. pay_runs db' = update_row run_id (run_id run) (\<lambda>_. run\<lparr>run_statutory_rate_id := rate_id\<rparr>) (pay_runs db)"
    using r(3) run' by (auto simp: put_run_def put_items_def)
  have items: "pay_items db' = replace_items (run_id run) written (pay_items db)"
    using r(3) run' by (simp add: put_run_def put_items_def)
  show ?thesis
  proof (cases e)
    case (Row_rejected i c)
    then have "written = items_of (run_id run) (pay_items db)" using recalculate_failed [OF r(2)] run' by simp
    then show ?thesis using runs items replace_items_same [OF assms(1)] Row_rejected by simp
  next
    case (Invariant_violation ps)
    then have rows: "list_all2 (\<lambda>item new. \<exists>res. row_result db run' rate item = Inr res \<and> new = write_result rate item res)
        (items_of (run_id run) (pay_items db)) written"
      and ps: "ps = verify_statutory_invariants rate written" "ps \<noteq> []"
      using recalculate_failed [OF r(2)] run' by auto
    have id: "run_id run' = run_id run" by (simp add: run')
    have mine: "items_of (run_id run) (pay_items db') = written"
      using items_of_replace(1) [OF assms(1) written_ids [of db run' rate, unfolded id, OF rows]] items by simp
    have "list_all2 (\<lambda>item new. \<exists>res. row_result db run' rate item = Inr res \<and>
        item_money new = item_money item ++ map_of (as_payroll_item_fields res))
        (items_of (run_id run) (pay_items db)) written"
      using rows by (rule list_all2_mono) auto
    then show ?thesis using Invariant_violation ps runs mine r(1) by auto
  qed
qed

theorem failed_confirmation_witness:
  "\<exists>db'. auto_calculate_on_confirm (sample_run DRAFT 1) (one_row_db wrong_sign) =
       (db', Calculation_failed (Invariant_violation [Net_exceeds_gross 1 (cedi 845463) (cedi 512437)])) \<and>
     (\<exists>rate. [Net_exceeds_gross 1 (cedi 845463) (cedi 512437)] =
        verify_statutory_invariants rate (items_of 1 (pay_items db')))"
proof -
  obtain res where res: "row_result (one_row_db wrong_sign) stamped_run (workbook_rate 1) (item_with wrong_sign) = Inr res"
    "sr_gross_pay res = cedi 512437" "sr_net_pay res = cedi 845463"
    "sr_ssnit res = cedi (tax_on (si_basic_salary wrong_sign) 55000)" "sr_inputs res = map_inputs cedi wrong_sign"
    by (rule one_row_result [OF wrong_sign_ok [THEN conjunct1] wrong_sign_ok [THEN conjunct2] _ wrong_sign_spec]) auto
  have "fadd (fadd (cedi 512437) (cedi 0)) (fl (1/100)) < cedi 845463" by code_simp
  then have bad: "verify_statutory_invariants (workbook_rate 1) [write_result (workbook_rate 1) (item_with wrong_sign) res] =
      [Net_exceeds_gross 1 (cedi 845463) (cedi 512437)]"
    using one_row_problems [OF res(2-5)] by simp
  have id: "run_id stamped_run = 1" by (simp add: stamped_run_def)
  let ?db = "one_row_db wrong_sign"
  let ?used = "bonus_concession_used_ytd_bulk (pay_runs ?db) (pay_items ?db) (map item_employee (items_of 1 (pay_items ?db))) (run_year stamped_run) (Some 1)"
  have "stage_results (workbook_rate 1) stamped_run (pay_employees ?db) ?used [item_with wrong_sign] = Inr [(item_with wrong_sign, res)]"
    using res(1) by (simp add: row_result_def Let_def id bonus_concession_used_ytd_def)
  then have "recalculate_salaried_items (pay_runs ?db) (pay_items ?db) (pay_employees ?db) stamped_run (workbook_rate 1) =
      ([write_result (workbook_rate 1) (item_with wrong_sign) res], Some (Invariant_violation [Net_exceeds_gross 1 (cedi 845463) (cedi 512437)]))"
    using bad by (simp add: recalculate_salaried_items_def Let_def id)
  then obtain db' where c: "auto_calculate_on_confirm (sample_run DRAFT 1) ?db =
      (db', Calculation_failed (Invariant_violation [Net_exceeds_gross 1 (cedi 845463) (cedi 512437)]))"
    using one_row_rate [of wrong_sign] by (simp add: auto_calculate_on_confirm_def)
  have "distinct (map item_id (pay_items ?db))" by (simp add: one_row_db_def)
  from failed_confirmation [OF this c] c show ?thesis by auto
qed

subsection \<open>The figures grid\<close>

definition only_edited :: "(int \<Rightarrow> string \<Rightarrow> grid_value) \<Rightarrow> payroll_item \<Rightarrow> payroll_item \<Rightarrow> bool" where
  "only_edited form old new \<longleftrightarrow>
     item_id new = item_id old \<and> item_run new = item_run old \<and>
     (\<forall>f. item_money new f \<noteq> item_money old f \<longrightarrow>
        f \<in> set EDITABLE_ITEM_FIELDS \<and> (\<exists>v. form (item_id old) f = Number v \<and> 0 \<le> v \<and> item_money new f = Some v))"

lemma edit_cell_only:
  assumes "only_edited form old (fst st)" "f \<in> set EDITABLE_ITEM_FIELDS"
  shows "only_edited form old (fst (edit_cell form st f))"
  using assms by (auto simp: edit_cell_def only_edited_def not_less split: prod.split grid_value.split)

lemma edit_cells_only:
  assumes "only_edited form old (fst st)" "set fs \<subseteq> set EDITABLE_ITEM_FIELDS"
  shows "only_edited form old (fst (foldl (edit_cell form) st fs))"
  using assms
proof (induction fs arbitrary: st)
  case (Cons f fs)
  then show ?case using Cons.IH [OF edit_cell_only [OF Cons.prems(1), of f]] by simp
qed simp

lemma edit_row_only: "only_edited form item (fst (edit_row form branches item))"
proof -
  have "only_edited form item (fst (foldl (edit_cell form) (item, 0, 0) EDITABLE_ITEM_FIELDS))"
    by (rule edit_cells_only) (auto simp: only_edited_def)
  moreover have "only_edited form item (fst (edit_branch branches st))" if "only_edited form item (fst st)" for st
    using that by (auto simp: edit_branch_def only_edited_def Let_def split: prod.split option.split)
  ultimately show ?thesis by (simp add: edit_row_def)
qed

text \<open>
  The figures grid only ever writes raw inputs of a Draft run.  Saving the grid changes
  nothing once the run has left Draft, never a row of another run, never a computed column
  (gross, PAYE, SSNIT, total deductions, net), and every amount it stores is the
  non-negative number submitted for exactly that cell.
\<close>
theorem grid_edits_raw_inputs_only:
  assumes "distinct (map item_id (pay_items db))" "edit_items_standard form branches run db = (db', out)"
  shows "(run_status run \<noteq> DRAFT \<longrightarrow> db' = db) \<and> pay_runs db' = pay_runs db \<and>
    list_all2 (\<lambda>old new. only_edited form old new \<and> (item_run old \<noteq> run_id run \<longrightarrow> new = old) \<and>
        (\<forall>f\<in>{''gross_pay'', ''paye'', ''ssnit'', ''total_deductions'', ''net_pay''}. item_money new f = item_money old f))
      (pay_items db) (pay_items db')"
proof (cases "run_status run = DRAFT")
  case False
  then show ?thesis using assms(2)
    by (auto simp: edit_items_standard_def only_edited_def list_all2_same)
next
  case True
  let ?g = "\<lambda>i. fst (edit_row form branches i)"
  have g: "only_edited form i (?g i)" for i by (rule edit_row_only)
  have computed: "f \<notin> set EDITABLE_ITEM_FIELDS"
    if "f \<in> {''gross_pay'', ''paye'', ''ssnit'', ''total_deductions'', ''net_pay''}" for f
    using that by (auto simp: EDITABLE_ITEM_FIELDS_def)
  have "pay_items db' = replace_items (run_id run) (map ?g (items_of (run_id run) (pay_items db))) (pay_items db)"
    and runs: "pay_runs db' = pay_runs db"
    using assms(2) True by (auto simp: edit_items_standard_def Let_def put_items_def comp_def)
  then have items: "pay_items db' = map (\<lambda>i. if item_run i = run_id run then ?g i else i) (pay_items db)"
    using replace_items_map [OF assms(1), of ?g "run_id run"] g by (simp add: only_edited_def)
  have "only_edited form i (if item_run i = run_id run then ?g i else i)" for i
    using g [of i] by (simp add: only_edited_def)
  moreover have "item_money new f = item_money old f"
    if "only_edited form old new" "f \<in> {''gross_pay'', ''paye'', ''ssnit'', ''total_deductions'', ''net_pay''}" for old new f
    using that(1) computed [OF that(2)] unfolding only_edited_def by blast
  ultimately have "only_edited form i (if item_run i = run_id run then ?g i else i) \<and>
      (item_run i \<noteq> run_id run \<longrightarrow> (if item_run i = run_id run then ?g i else i) = i) \<and>
      (\<forall>f\<in>{''gross_pay'', ''paye'', ''ssnit'', ''total_deductions'', ''net_pay''}.
         item_money (if item_run i = run_id run then ?g i else i) f = item_money i f)" for i
    by (metis (no_types, lifting))
  then show ?thesis using True runs by (simp add: items list_all2_map2 list_all2_same)
qed

definition one_cell :: "int \<Rightarrow> string \<Rightarrow> grid_value" where
  "one_cell i f = (if i = 1 \<and> f = ''basic_salary'' then Number 2000
     else if i = 1 \<and> f = ''overtime_pay'' then Number (- 5) else Not_sent)"

theorem grid_edits_raw_inputs_only_witness:
  "\<exists>db'. edit_items_standard one_cell (\<lambda>_. None) (sample_run DRAFT 1) (one_row_db AC636) = (db', Some (1, 1)) \<and>
     list_all2 (only_edited one_cell) (pay_items (one_row_db AC636)) (pay_items db')"
proof -
  have far: "\<not> \<bar>fsub 2000 (cedi 167514)\<bar> < fl (5/1000)" by code_simp
  have "col (item_with AC636) ''basic_salary'' = cedi 167514" by (simp add: col_def item_with_def num_or_0_def)
  then have row: "snd (edit_row one_cell (\<lambda>_. None) (item_with AC636)) = (1, 1)"
    using far by (simp add: edit_row_def edit_branch_def EDITABLE_ITEM_FIELDS_def edit_cell_def one_cell_def)
  obtain a where a: "edit_row one_cell (\<lambda>_. None) (item_with AC636) = (a, 1, 1)"
    using row by (cases "edit_row one_cell (\<lambda>_. None) (item_with AC636)") auto
  obtain db' where c: "edit_items_standard one_cell (\<lambda>_. None) (sample_run DRAFT 1) (one_row_db AC636) = (db', Some (1, 1))"
    using a by (simp add: edit_items_standard_def Let_def sample_run_def)
  have "distinct (map item_id (pay_items (one_row_db AC636)))" by (simp add: one_row_db_def)
  note only = grid_edits_raw_inputs_only [OF this c, THEN conjunct2, THEN conjunct2]
  have "list_all2 (only_edited one_cell) (pay_items (one_row_db AC636)) (pay_items db')"
    by (rule list_all2_mono [OF only]) blast
  then show ?thesis using c by blast
qed

end
