(* ===== verification/UnionDues.thy ===== *)
theory UnionDues
  imports PayEngine
begin

text \<open>
  \<open>app/raw_engine/icu_distribution.py\<close> and the tie-out of \<open>app/raw_engine/validation.py\<close>:
  the union dues of a run split through the fixed cascade, every split giving the remainder
  to its last child.
\<close>

definition UNION_SHARE :: rat where "UNION_SHARE = fl (1/2)"
definition UNION_ICU_ACCRA :: rat where "UNION_ICU_ACCRA = fl (3/4)"
definition UNION_LOCAL :: rat where "UNION_LOCAL = fl (1/5)"
definition EDFUND_ICU_EDAC :: rat where "EDFUND_ICU_EDAC = fl (4/5)"

record union_distribution =
  ud_total :: rat
  ud_union :: rat
  ud_edfund :: rat
  ud_icu_accra :: rat
  ud_local :: rat
  ud_icu_tema :: rat
  ud_icu_edac :: rat
  ud_dcl_eef :: rat

definition ud_leaves :: "union_distribution \<Rightarrow> rat list" where
  "ud_leaves d = [ud_icu_accra d, ud_local d, ud_icu_tema d, ud_icu_edac d, ud_dcl_eef d]"

definition total_payout :: "union_distribution \<Rightarrow> rat" where
  "total_payout d = money (fsum 0 (ud_leaves d))"

definition distribute_union_dues :: "rat \<Rightarrow> union_distribution" where
  "distribute_union_dues dues =
     (let t = money dues;
          union = money (fmul t UNION_SHARE);
          edfund = money (fsub t union);
          icu_accra = money (fmul union UNION_ICU_ACCRA);
          local = money (fmul union UNION_LOCAL);
          icu_tema = money (fsub (fsub union icu_accra) local);
          icu_edac = money (fmul edfund EDFUND_ICU_EDAC);
          dcl_eef = money (fsub edfund icu_edac)
      in \<lparr>ud_total = t, ud_union = union, ud_edfund = edfund, ud_icu_accra = icu_accra,
          ud_local = local, ud_icu_tema = icu_tema, ud_icu_edac = icu_edac, ud_dcl_eef = dcl_eef\<rparr>)"

definition check_icu_tie_out :: "rat \<Rightarrow> union_distribution option \<Rightarrow> rat \<Rightarrow> (rat \<times> rat) option" where
  "check_icu_tie_out icu_total distribution tol =
     (let icu_total = money icu_total;
          dist = (case distribution of Some d \<Rightarrow> d | None \<Rightarrow> distribute_union_dues icu_total);
          payout = total_payout dist
      in if tol < \<bar>fsub payout icu_total\<bar> then Some (icu_total, payout) else None)"

subsection \<open>Shares of pesewa amounts\<close>

text \<open>A share of a pesewa amount, taken in floats and rounded, is within half a pesewa and a bit.\<close>

lemma near_bound: "\<bar>p - q\<bar> \<le> d \<Longrightarrow> 0 \<le> q \<Longrightarrow> q \<le> b \<Longrightarrow> b + d \<le> m \<Longrightarrow> \<bar>p\<bar> \<le> m" for p q :: rat
  by linarith

lemma near_trans: "\<bar>p - q\<bar> \<le> d \<Longrightarrow> \<bar>q - r\<bar> \<le> d' \<Longrightarrow> d + d' \<le> m \<Longrightarrow> \<bar>p - r\<bar> \<le> m" for p q r :: rat
  by linarith

lemma share_near:
  assumes "0 \<le> c" "c \<le> 10 ^ 10" "0 \<le> s" "s \<le> 1"
  shows "\<exists>k. money (fmul (cedi c) (fl s)) = cedi k \<and> \<bar>of_int k - of_int c * s\<bar> \<le> 1/2 + 1/100"
proof -
  define x where "x = fmul (cedi c) (fl s)"
  have c: "\<bar>cedi c - of_int c / 100\<bar> \<le> 1 / 2 ^ 22" using apx_cedi [of c] assms(1,2) by (simp add: apx_def)
  have cb: "0 \<le> (of_int c :: rat) / 100" "(of_int c :: rat) / 100 \<le> 10 ^ 8"
  proof -
    have "(of_int c :: rat) \<le> of_int (10 ^ 10)" using assms(2) by (simp only: of_int_le_iff)
    then show "(of_int c :: rat) / 100 \<le> 10 ^ 8" by simp
  qed (use assms(1) in simp)
  have s: "\<bar>fl s - s\<bar> \<le> 1 / 2 ^ 53" using fl_error [of s] assms(3,4) by (simp add: field_simps)
  have f: "\<bar>fl s\<bar> \<le> 2" using s assms(3,4) by (simp add: abs_if split: if_splits)
  have e1: "\<bar>(cedi c - of_int c / 100) * fl s\<bar> \<le> 1 / 2 ^ 22 * 2"
    unfolding abs_mult using c f by (intro mult_mono) auto
  have e2: "\<bar>of_int c / 100 * (fl s - s)\<bar> \<le> 10 ^ 8 * (1 / 2 ^ 53)"
    unfolding abs_mult using cb s by (intro mult_mono) auto
  have split: "cedi c * fl s - of_int c / 100 * s = (cedi c - of_int c / 100) * fl s + of_int c / 100 * (fl s - s)"
    (is "?x * ?f - ?y * ?s = _")
  proof -
    have "x * f - y * s = (x - y) * f + y * (f - s)" for x y f s :: rat by (simp add: algebra_simps)
    then show ?thesis .
  qed
  have prod: "\<bar>cedi c * fl s - of_int c / 100 * s\<bar> \<le> 3 / 2 ^ 22"
  proof -
    have "\<bar>cedi c * fl s - of_int c / 100 * s\<bar> \<le> 1 / 2 ^ 22 * 2 + 10 ^ 8 * (1 / 2 ^ 53)"
      unfolding split by (rule order_trans [OF abs_triangle_ineq add_mono [OF e1 e2]])
    also have "\<dots> \<le> 3 / 2 ^ 22" by simp
    finally show ?thesis .
  qed
  have share: "0 \<le> of_int c / 100 * s" "of_int c / 100 * s \<le> 10 ^ 8"
    using cb assms(3,4) mult_mono [of "of_int c / 100" "10 ^ 8" s 1] by auto
  have "\<bar>cedi c * fl s\<bar> \<le> 2 ^ 31" by (rule near_bound [OF prod share]) simp
  then have "\<bar>x - cedi c * fl s\<bar> \<le> 1 / 2 ^ 22" unfolding x_def fmul_def by (rule fl_small_error)
  then have x: "\<bar>x - of_int c / 100 * s\<bar> \<le> 4 / 2 ^ 22" by (rule near_trans [OF _ prod]) simp
  have "\<bar>D x - x\<bar> \<le> \<bar>D x\<bar> / 2 ^ 53" using repr_error [of x] by (simp add: D_def x_def fmul_def b64.idem)
  moreover have "\<bar>x\<bar> \<le> 10 ^ 9" by (rule near_bound [OF x share]) simp
  ultimately have "\<bar>D x - x\<bar> \<le> 1 / 2 ^ 22" by (simp add: abs_if split: if_splits)
  then have "\<bar>D x - of_int c / 100 * s\<bar> \<le> 5 / 2 ^ 22" by (rule near_trans [OF _ x]) simp
  then have "\<bar>D x - of_int c / 100 * s\<bar> * 100 \<le> 5 / 2 ^ 22 * 100" by (rule mult_right_mono) simp
  moreover have "\<bar>D x - of_int c / 100 * s\<bar> * 100 = \<bar>D x * 100 - of_int c * s\<bar>"
  proof -
    have "(D x - of_int c / 100 * s) * 100 = D x * 100 - of_int c * s" by (simp add: left_diff_distrib)
    then show ?thesis by (metis abs_mult abs_numeral)
  qed
  ultimately have "\<bar>D x * 100 - of_int c * s\<bar> \<le> 1/100" by simp
  then have "\<bar>of_int (half_up (D x * 100)) - of_int c * s\<bar> \<le> 1/2 + 1/100"
    by (rule near_trans [OF half_up_error]) simp
  then show ?thesis unfolding x_def [symmetric] by (auto simp: money_money_dec money_dec_cedi)
qed

lemma near_int:
  fixes r :: rat
  assumes "\<bar>of_int k - r\<bar> \<le> 1/2 + 1/100" "0 \<le> r" "r \<le> of_int n"
  shows "0 \<le> k \<and> k \<le> n"
proof -
  have "of_int (- 1) < (of_int k :: rat)" "(of_int k :: rat) < of_int (n + 1)"
    using assms unfolding abs_le_iff of_int_add of_int_minus of_int_1 by linarith+
  then have "- 1 < k" "k < n + 1" by (simp_all only: of_int_less_iff)
  then show ?thesis by simp
qed

lemma money_fsub_fsub_cedi:
  assumes "\<bar>a\<bar> \<le> 10 ^ 10" "\<bar>b\<bar> \<le> 10 ^ 10" "\<bar>c\<bar> \<le> 10 ^ 10"
  shows "money (fsub (fsub (cedi a) (cedi b)) (cedi c)) = cedi (a - b - c)"
proof -
  have "apx (1 + 1 + 1) (fsub (cedi a) (cedi b)) (a - b)" using assms by (intro apx_fsub apx_cedi) auto
  then have "apx (1 + 1 + 1 + 1 + 1) (fsub (fsub (cedi a) (cedi b)) (cedi c)) (a - b - c)"
    using assms by (intro apx_fsub apx_cedi) auto
  then show ?thesis using assms by (intro money_apx) auto
qed

text \<open>The cascade in pesewas: for every total some whole shares that tie back exactly.\<close>

lemma cascade:
  assumes "0 \<le> c" "c \<le> 10 ^ 10"
  obtains u a l e where "ud_leaves (distribute_union_dues (cedi c)) = map cedi [a, l, u - a - l, e, c - u - e]"
    "0 \<le> u" "u \<le> c" "0 \<le> a" "a \<le> u" "0 \<le> l" "l \<le> u" "0 \<le> e" "e \<le> c - u" "0 \<le> u - a - l"
    "\<bar>of_int u - of_int c * (1/2)\<bar> \<le> (51/100 :: rat)" "\<bar>of_int a - of_int u * (3/4)\<bar> \<le> (51/100 :: rat)"
    "\<bar>of_int l - of_int u * (1/5)\<bar> \<le> (51/100 :: rat)" "\<bar>of_int e - of_int (c - u) * (4/5)\<bar> \<le> (51/100 :: rat)"
proof -
  have t: "money (cedi c) = cedi c" using assms by (intro money_cedi) auto
  obtain u where u: "money (fmul (cedi c) (fl (1/2))) = cedi u" "\<bar>of_int u - of_int c * (1/2)\<bar> \<le> (1/2 + 1/100 :: rat)"
    using share_near [OF assms, of "1/2"] by auto
  have ub: "0 \<le> u \<and> u \<le> c" by (rule near_int [OF u(2)]) (use assms(1) in auto)
  obtain a where a: "money (fmul (cedi u) (fl (3/4))) = cedi a" "\<bar>of_int a - of_int u * (3/4)\<bar> \<le> (1/2 + 1/100 :: rat)"
    using share_near [of u "3/4"] ub assms by auto
  obtain l where l: "money (fmul (cedi u) (fl (1/5))) = cedi l" "\<bar>of_int l - of_int u * (1/5)\<bar> \<le> (1/2 + 1/100 :: rat)"
    using share_near [of u "1/5"] ub assms by auto
  obtain e where e: "money (fmul (cedi (c - u)) (fl (4/5))) = cedi e" "\<bar>of_int e - of_int (c - u) * (4/5)\<bar> \<le> (1/2 + 1/100 :: rat)"
    using share_near [of "c - u" "4/5"] ub assms by auto
  have ab: "0 \<le> a \<and> a \<le> u" by (rule near_int [OF a(2)]) (use ub in auto)
  have lb: "0 \<le> l \<and> l \<le> u" by (rule near_int [OF l(2)]) (use ub in auto)
  have eb: "0 \<le> e \<and> e \<le> c - u" by (rule near_int [OF e(2)]) (use ub in \<open>auto simp del: of_int_diff\<close>)
  have tema: "0 \<le> u - a - l"
  proof (cases "u = 0")
    case False
    then have "(1 :: rat) \<le> of_int u" using ub by simp
    then have "of_int (- 1) < (of_int (u - a - l) :: rat)" 
      using a(2) l(2) unfolding abs_le_iff of_int_diff of_int_minus of_int_1 by linarith
    then have "- 1 < u - a - l" by (simp only: of_int_less_iff)
    then show ?thesis by simp
  qed (use ab lb in simp)
  have "ud_leaves (distribute_union_dues (cedi c)) = map cedi [a, l, u - a - l, e, c - u - e]"
    using ub ab lb eb assms
    by (simp add: distribute_union_dues_def ud_leaves_def Let_def t UNION_SHARE_def UNION_ICU_ACCRA_def
        UNION_LOCAL_def EDFUND_ICU_EDAC_def u(1) a(1) l(1) e(1) money_fsub_cedi money_fsub_fsub_cedi)
  then show ?thesis using that ub ab lb eb tema u(2) a(2) l(2) e(2) by simp
qed

text \<open>
  Union dues tie out to the pesewa.  For every collected total up to a hundred million
  cedis the five payouts are non-negative whole pesewas that add up to exactly the dues
  deducted, so the tie-out never blocks a run, and each of the two funds' first payouts
  stays within a pesewa of its nominal share.
\<close>
theorem union_dues_tie_out:
  assumes "0 \<le> c" "c \<le> 10 ^ 10"
  shows "(\<exists>ks. ud_leaves (distribute_union_dues (cedi c)) = map cedi ks \<and> sum_list ks = c \<and> list_all ((\<le>) 0) ks \<and>
      \<bar>of_int (ks ! 0) - of_int c * (3/8)\<bar> \<le> (1 :: rat) \<and> \<bar>of_int (ks ! 3) - of_int c * (2/5)\<bar> \<le> (1 :: rat)) \<and>
    total_payout (distribute_union_dues (cedi c)) = cedi c \<and>
    check_icu_tie_out (cedi c) None (fl (1/100)) = None"
proof -
  obtain u a l e where ks: "ud_leaves (distribute_union_dues (cedi c)) = map cedi [a, l, u - a - l, e, c - u - e]"
    and b: "0 \<le> u" "u \<le> c" "0 \<le> a" "a \<le> u" "0 \<le> l" "l \<le> u" "0 \<le> e" "e \<le> c - u" "0 \<le> u - a - l"
    and n: "\<bar>of_int u - of_int c * (1/2)\<bar> \<le> (51/100 :: rat)" "\<bar>of_int a - of_int u * (3/4)\<bar> \<le> (51/100 :: rat)"
      "\<bar>of_int l - of_int u * (1/5)\<bar> \<le> (51/100 :: rat)" "\<bar>of_int e - of_int (c - u) * (4/5)\<bar> \<le> (51/100 :: rat)"
    by (rule cascade [OF assms])
  have near: "\<bar>of_int a - of_int c * (3/8)\<bar> \<le> (1 :: rat)" "\<bar>of_int e - of_int c * (2/5)\<bar> \<le> (1 :: rat)"
    using n unfolding abs_le_iff of_int_diff left_diff_distrib by linarith+
  have payout: "total_payout (distribute_union_dues (cedi c)) = cedi c"
  proof -
    have "money (fsum (cedi 0) (map cedi [a, l, u - a - l, e, c - u - e])) = cedi (0 + sum_list [a, l, u - a - l, e, c - u - e])"
      using b assms by (intro money_fsum_cedi) auto
    then show ?thesis by (simp add: total_payout_def ks)
  qed
  have t: "money (cedi c) = cedi c" using assms by (intro money_cedi) auto
  have "check_icu_tie_out (cedi c) None (fl (1/100)) = None"
  proof -
    have "\<not> fl (1/100) < 0" by code_simp
    then show ?thesis by (simp add: check_icu_tie_out_def Let_def t payout fsub_def)
  qed
  moreover have "\<exists>ks. ud_leaves (distribute_union_dues (cedi c)) = map cedi ks \<and> sum_list ks = c \<and> list_all ((\<le>) 0) ks \<and>
      \<bar>of_int (ks ! 0) - of_int c * (3/8)\<bar> \<le> (1 :: rat) \<and> \<bar>of_int (ks ! 3) - of_int c * (2/5)\<bar> \<le> (1 :: rat)"
    using ks b near by (intro exI [of _ "[a, l, u - a - l, e, c - u - e]"]) simp
  ultimately show ?thesis using payout by blast
qed

theorem union_dues_tie_out_witness:
  "total_payout (distribute_union_dues (cedi 100001)) = cedi 100001 \<and>
   check_icu_tie_out (cedi 100001) None (fl (1/100)) = None"
  using union_dues_tie_out [of 100001] by simp

end
