(* ===== verification/RawRun.thy ===== *)
theory RawRun
  imports RawCompute Items UnionDues "HOL-Library.AList" "HOL-Library.List_Lexorder" "HOL-Library.Char_ord"
begin

text \<open>
  The raw-hours engine around the payslip: cleaning and consolidating hours
  (\<open>app/raw_engine/cleaning.py\<close>, \<open>consolidation.py\<close>, \<open>matrix.py\<close>), the input assembly
  (\<open>run.py\<close>), the thin monthly upload (\<open>thin.py\<close>), the validation rules (\<open>validation.py\<close>),
  the store and the confirm route (\<open>store.py\<close>, \<open>web.py\<close>).  A Python dictionary whose order
  is observable is an association list, updated in place by \<open>AList.update\<close>.
\<close>

subsection \<open>Cells and keys\<close>

text \<open>
  A worksheet cell: empty (\<open>None\<close>), a number or a text, with its \<open>str\<close> and the finite
  number \<open>float\<close> reads from it, if any (a number has none when it is not finite).  Labels are
  read with \<open>label or ""\<close>, where the number zero counts as empty.
\<close>

datatype cell = Blank | Number string "rat option" | Words string "rat option"

definition cell_str :: "cell \<Rightarrow> string" where
  "cell_str c = (case c of Blank \<Rightarrow> ''None'' | Number t _ \<Rightarrow> t | Words t _ \<Rightarrow> t)"

definition cell_name :: "cell \<Rightarrow> string" where
  "cell_name c = (case c of Blank \<Rightarrow> [] | Number t _ \<Rightarrow> strip t | Words t _ \<Rightarrow> strip t)"

definition cell_label :: "cell \<Rightarrow> string" where
  "cell_label c = (case c of Blank \<Rightarrow> [] | Number t v \<Rightarrow> if v = Some 0 then [] else t | Words t _ \<Rightarrow> t)"

definition cell_float :: "cell \<Rightarrow> rat option" where
  "cell_float c = (case c of Blank \<Rightarrow> None | Number _ v \<Rightarrow> v | Words _ v \<Rightarrow> v)"

definition normalise_emp_id :: "string \<Rightarrow> string" where
  "normalise_emp_id raw = filter (\<lambda>c. \<not> is_space c) (upper (strip raw))"

function squeeze :: "string \<Rightarrow> string" where
  "squeeze [] = []"
| "squeeze (c # cs) =
     (if is_space c then CHR '' '' # squeeze (dropWhile is_space cs) else c # squeeze cs)"
  by pat_completeness auto
termination
  by (relation "measure length") (auto simp: le_imp_less_Suc length_dropWhile_le)

definition normalise_element :: "string \<Rightarrow> string" where
  "normalise_element label = upper (squeeze (strip label))"

definition coerce_hours :: "cell \<Rightarrow> rat" where
  "coerce_hours value = (case cell_float value of Some hours \<Rightarrow> if hours < 0 then 0 else hours | None \<Rightarrow> 0)"

definition coerce_rate :: "cell \<Rightarrow> rat" where
  "coerce_rate value = (case cell_float value of Some rate \<Rightarrow> if rate < 0 then 0 else rate | None \<Rightarrow> 0)"

subsection \<open>Consolidation and the hours matrix\<close>

definition add_hours :: "string \<Rightarrow> rat \<Rightarrow> (string \<times> rat) list \<Rightarrow> (string \<times> rat) list" where
  "add_hours code hrs bucket = AList.update code (fadd (num_or_0 (map_of bucket code)) hrs) bucket"

definition consolidate_row ::
  "(string \<times> (string \<times> rat) list) list \<Rightarrow> cell \<times> cell \<times> cell \<Rightarrow> (string \<times> (string \<times> rat) list) list" where
  "consolidate_row consolidated row =
     (case row of (staff_id, pay_code, hours) \<Rightarrow>
        let staff = normalise_emp_id (cell_str staff_id); code = normalise_element (cell_label pay_code)
        in if staff = [] \<or> code = [] then consolidated
           else AList.update staff
                  (add_hours code (coerce_hours hours) (case map_of consolidated staff of None \<Rightarrow> [] | Some b \<Rightarrow> b))
                  consolidated)"

definition consolidate_hours :: "(cell \<times> cell \<times> cell) list \<Rightarrow> (string \<times> (string \<times> rat) list) list" where
  "consolidate_hours rows = foldl consolidate_row [] rows"

definition all_hours :: "(string \<times> (string \<times> rat) list) list \<Rightarrow> rat list" where
  "all_hours consolidated = concat (map (\<lambda>(_, codes). map snd codes) consolidated)"

definition total_hours :: "(string \<times> (string \<times> rat) list) list \<Rightarrow> rat" where
  "total_hours consolidated = fsum 0 (all_hours consolidated)"

record hours_matrix =
  hm_elements :: "string list"
  hm_staff_ids :: "string list"
  hm_cells :: "(string \<times> (string \<times> rat) list) list"
  hm_grand_total :: rat

definition build_matrix :: "(string \<times> (string \<times> rat) list) list \<Rightarrow> hours_matrix" where
  "build_matrix consolidated =
     \<lparr>hm_elements = sort (remdups (concat (map (\<lambda>(_, codes). map fst codes) consolidated))),
      hm_staff_ids = sort (map fst consolidated),
      hm_cells = map (\<lambda>s. (s, case map_of consolidated s of None \<Rightarrow> [] | Some codes \<Rightarrow> codes))
                   (sort (map fst consolidated)),
      hm_grand_total = fsum 0 (all_hours consolidated)\<rparr>"

definition matrix_hours :: "hours_matrix \<Rightarrow> string \<Rightarrow> string \<Rightarrow> rat" where
  "matrix_hours m staff_id element =
     (case map_of (hm_cells m) staff_id of None \<Rightarrow> 0 | Some codes \<Rightarrow> num_or_0 (map_of codes element))"

subsection \<open>From hours to payslip inputs\<close>

record month_lumps =
  ml_bonus :: rat
  ml_other_allowance :: rat
  ml_pay_difference :: rat
  ml_tax_relief_monthly :: rat
  ml_provident_fund :: rat
  ml_loan :: rat
  ml_donations :: rat
  ml_other_deductions :: rat
  ml_welfare :: rat
  ml_bonus_concession_used_ytd :: rat
  ml_pf_fund_employer :: rat

text \<open>The inputs with the codes that have no rate (\<open>inputs.missing_rate_codes\<close>).\<close>

definition assemble_inputs ::
  "string \<Rightarrow> (string \<times> rat) list \<Rightarrow> (string \<Rightarrow> (rat \<times> string) option) \<Rightarrow> string \<Rightarrow> int option \<Rightarrow> rat \<Rightarrow> bool
    \<Rightarrow> month_lumps \<Rightarrow> deduction_context option \<Rightarrow> rat payslip_inputs \<times> string list" where
  "assemble_inputs staff_id hours_by_code rate_lookup pay_type employee_id basic_fallback is_icu_member lumps ctx =
     (let applied = apply_rates hours_by_code rate_lookup;
          basic = (if lower pay_type = ''salaried''
                   then (if ra_basic_wage applied \<noteq> 0 then ra_basic_wage applied else basic_fallback)
                   else ra_basic_wage applied);
          allowances = fadd (ra_shift_allowances applied) (ml_other_allowance lumps)
      in (\<lparr>pi_basic_wage = basic, pi_overtime_pay = ra_overtime_pay applied, pi_allowances = allowances,
           pi_bonus = ml_bonus lumps, pi_pay_difference = ml_pay_difference lumps,
           pi_tax_relief_monthly = ml_tax_relief_monthly lumps, pi_provident_fund = ml_provident_fund lumps,
           pi_loan = ml_loan lumps, pi_welfare = ml_welfare lumps, pi_donations = ml_donations lumps,
           pi_other_deductions = ml_other_deductions lumps,
           pi_bonus_concession_used_ytd = ml_bonus_concession_used_ytd lumps,
           pi_pf_fund_employer = ml_pf_fund_employer lumps, pi_staff_id = staff_id,
           pi_is_icu_member = is_icu_member, pi_employee_id = employee_id, pi_context = ctx\<rparr>,
          ra_missing_rate_codes applied))"

subsection \<open>The thin monthly upload\<close>

definition ELEMENT_SET :: "(string \<times> string \<times> string) list" where
  "ELEMENT_SET =
     [(''NORMAL'', ''Normal hours'', CATEGORY_BASIC),
      (''WEEKDAY_OT'', ''Weekday overtime'', CATEGORY_OVERTIME),
      (''SAT_OT'', ''Saturday overtime'', CATEGORY_OVERTIME),
      (''SUNHOL_OT'', ''Sun/Holiday overtime'', CATEGORY_OVERTIME),
      (''AFTERNOON'', ''Afternoon allowance'', CATEGORY_ALLOWANCE),
      (''NIGHT'', ''Night allowance'', CATEGORY_ALLOWANCE),
      (''SIXTOSIX_DAY'', ''6to6 day allowance'', CATEGORY_ALLOWANCE),
      (''SIXTOSIX_NIGHT'', ''6to6 night allowance'', CATEGORY_ALLOWANCE),
      (''FOURCREW'', ''4-crew shift allowance'', CATEGORY_ALLOWANCE)]"

definition element_by_label :: "string \<Rightarrow> string option" where
  "element_by_label label =
     map_of (rev (concat (map (\<lambda>(code, text, _). [(normalise_element text, code), (normalise_element code, code)]) ELEMENT_SET))) label"

definition STAFF_ID_HEADERS :: "string list" where
  "STAFF_ID_HEADERS = [''STAFF ID'', ''STAFF_ID'', ''STAFFID'', ''IRS/NO.'', ''STAFF NO'', ''ID'']"

definition NAME_HEADERS :: "string list" where
  "NAME_HEADERS = [''NAME'', ''NAMES'', ''FULL NAME'']"

datatype adjustment_role =
    R_bonus | R_loan | R_welfare | R_other_deduction | R_pay_difference | R_provident_fund
  | R_pf_fund_employer | R_other_allowance

definition ADJUSTMENT_HEADERS :: "(adjustment_role \<times> string list) list" where
  "ADJUSTMENT_HEADERS =
     [(R_bonus, [''PROD/BONUS ALLOWANCE'', ''PROD / BONUS ALLOWANCE'', ''PROD BONUS ALLOWANCE'', ''BONUS'',
        ''PRODUCTIVITY BONUS'', ''PROD'' @ CHR 39 # ''TY ALLOW'', ''PRODUCTIVITY ALLOWANCE'']),
      (R_loan, [''LOAN'', ''LOAN ADV'', ''LOAN DEDUCTION'', ''LOAN ADVANCE'']),
      (R_welfare, [''WELFARE'', ''WELFARE SUPPLIES'']),
      (R_other_deduction, [''OTHER DEDUCTION'', ''OTHER DEDUCTIONS'']),
      (R_pay_difference, [''PAY DIFFERENCE'', ''PAY DIFF'', ''PAY DIFFERECE'']),
      (R_provident_fund, [''PF EMPLOYEE'', ''PF FUND EMPLOYEE'', ''PROVIDENT FUND EMPLOYEE'', ''EMPLOYEE PROVIDENT FUND'']),
      (R_pf_fund_employer, [''PF EMPLOYER'', ''PF FUND EMPLOYER'', ''PROVIDENT FUND EMPLOYER'', ''EMPLOYER PROVIDENT FUND'']),
      (R_other_allowance, [''OTHER ALLOWANCE'', ''OTHER ALLOWANCES''])]"

datatype column_role = Col_staff_id | Col_name | Col_element string | Col_adjustment adjustment_role

definition classify :: "cell \<Rightarrow> column_role option" where
  "classify header =
     (let label = normalise_element (cell_label header)
      in if label = [] then None
         else if label \<in> set STAFF_ID_HEADERS then Some Col_staff_id
         else if label \<in> set NAME_HEADERS then Some Col_name
         else case element_by_label label of
           Some code \<Rightarrow> Some (Col_element code)
         | None \<Rightarrow> map_option (\<lambda>(role, _). Col_adjustment role)
                     (first_row (\<lambda>(_, names). label \<in> set names) ADJUSTMENT_HEADERS))"

datatype thin_error = Thin_empty | No_staff_id_column

definition column_map :: "cell list \<Rightarrow> (nat \<times> column_role) list" where
  "column_map row =
     concat (map (\<lambda>(c, value). case classify value of None \<Rightarrow> [] | Some role \<Rightarrow> [(c, role)]) (enumerate 0 row))"

fun resolve_header :: "nat \<Rightarrow> cell list list \<Rightarrow> thin_error + (nat \<times> (nat \<times> column_role) list)" where
  "resolve_header idx [] = raise No_staff_id_column"
| "resolve_header idx (row # rows) =
     (if list_ex (\<lambda>(_, role). role = Col_staff_id) (column_map row) then return (idx, column_map row)
      else resolve_header (idx + 1) rows)"

record thin_input =
  ti_staff_id :: string
  ti_name :: string
  ti_hours :: "(string \<times> rat) list"
  ti_bonus :: rat
  ti_loan :: rat
  ti_welfare :: rat
  ti_other_deduction :: rat
  ti_pay_difference :: rat
  ti_provident_fund :: rat
  ti_pf_fund_employer :: rat
  ti_other_allowance :: rat

definition ThinEmployeeInput :: thin_input where
  "ThinEmployeeInput = \<lparr>ti_staff_id = [], ti_name = [], ti_hours = [], ti_bonus = 0, ti_loan = 0, ti_welfare = 0,
     ti_other_deduction = 0, ti_pay_difference = 0, ti_provident_fund = 0, ti_pf_fund_employer = 0, ti_other_allowance = 0\<rparr>"

definition set_adjustment :: "adjustment_role \<Rightarrow> rat \<Rightarrow> thin_input \<Rightarrow> thin_input" where
  "set_adjustment role v rec =
     (case role of
        R_bonus \<Rightarrow> rec\<lparr>ti_bonus := v\<rparr> | R_loan \<Rightarrow> rec\<lparr>ti_loan := v\<rparr> | R_welfare \<Rightarrow> rec\<lparr>ti_welfare := v\<rparr>
      | R_other_deduction \<Rightarrow> rec\<lparr>ti_other_deduction := v\<rparr> | R_pay_difference \<Rightarrow> rec\<lparr>ti_pay_difference := v\<rparr>
      | R_provident_fund \<Rightarrow> rec\<lparr>ti_provident_fund := v\<rparr> | R_pf_fund_employer \<Rightarrow> rec\<lparr>ti_pf_fund_employer := v\<rparr>
      | R_other_allowance \<Rightarrow> rec\<lparr>ti_other_allowance := v\<rparr>)"

definition read_column :: "cell list \<Rightarrow> thin_input \<Rightarrow> nat \<times> column_role \<Rightarrow> thin_input" where
  "read_column row rec entry =
     (case entry of (c, role) \<Rightarrow>
        let value = (if c < length row then row ! c else Blank)
        in case role of
             Col_staff_id \<Rightarrow> rec\<lparr>ti_staff_id := normalise_emp_id (cell_str value)\<rparr>
           | Col_name \<Rightarrow> rec\<lparr>ti_name := cell_name value\<rparr>
           | Col_element code \<Rightarrow>
               if coerce_hours value \<noteq> 0 then rec\<lparr>ti_hours := add_hours code (coerce_hours value) (ti_hours rec)\<rparr> else rec
           | Col_adjustment r \<Rightarrow> if coerce_rate value \<noteq> 0 then set_adjustment r (coerce_rate value) rec else rec)"

definition read_row :: "(nat \<times> column_role) list \<Rightarrow> cell list \<Rightarrow> thin_input option" where
  "read_row colmap row =
     (let rec = foldl (read_column row) ThinEmployeeInput colmap
      in if ti_staff_id rec = [] \<or> ti_staff_id rec = ''NAN'' then None else Some rec)"

definition parse_thin_rows :: "cell list list \<Rightarrow> thin_error + thin_input list" where
  "parse_thin_rows rows =
     (if rows = [] then raise Thin_empty
      else bind_result (resolve_header 0 (take 8 rows)) (\<lambda>(header_idx, colmap).
        return (List.map_filter (read_row colmap) (drop (header_idx + 1) rows))))"

subsection \<open>Joining the upload to the seeded context\<close>

record raw_employee = employee +
  emp_client :: int
  emp_full_name :: string
  emp_bank_branch :: "string option"
  emp_email :: "string option"
  emp_phone :: "string option"
  emp_momo_number :: "string option"
  emp_status :: "string option"
  emp_preferred_channel :: "string option"
  emp_pay_type :: "string option"
  emp_icu_member :: "bool option"

record wage_profile =
  wp_id :: int
  wp_client :: int
  wp_employee :: "int option"
  wp_pay_code :: string
  wp_hourly_rate :: rat
  wp_category :: string

text \<open>\<open>{normalise_emp_id(e.staff_id): e}\<close> over the client's employees: the last of equal keys stays.\<close>

definition roster_of :: "int \<Rightarrow> raw_employee list \<Rightarrow> string \<Rightarrow> raw_employee option" where
  "roster_of client employees key =
     map_of (rev (map (\<lambda>e. (normalise_emp_id (emp_staff_id e), e)) (filter (\<lambda>e. emp_client e = client) employees))) key"

definition client_defaults :: "int \<Rightarrow> wage_profile list \<Rightarrow> string \<Rightarrow> (rat \<times> string) option" where
  "client_defaults client profiles =
     map_of (rev (map (\<lambda>p. (wp_pay_code p, (wp_hourly_rate p, wp_category p)))
                   (filter (\<lambda>p. wp_client p = client \<and> wp_employee p = None) profiles)))"

definition profiles_by_emp :: "int \<Rightarrow> wage_profile list \<Rightarrow> int \<Rightarrow> string \<Rightarrow> (rat \<times> string) option" where
  "profiles_by_emp client profiles e =
     map_of (rev (map (\<lambda>p. (wp_pay_code p, (wp_hourly_rate p, wp_category p)))
                   (filter (\<lambda>p. wp_client p = client \<and> wp_employee p = Some e) profiles)))"

text \<open>Whether some code of the lookup is rated as basic pay (the fallback classification).\<close>

definition has_basic_rate :: "wage_profile list \<Rightarrow> (string \<Rightarrow> (rat \<times> string) option) \<Rightarrow> bool" where
  "has_basic_rate profiles rate_lookup \<longleftrightarrow>
     list_ex (\<lambda>p. case rate_lookup (wp_pay_code p) of None \<Rightarrow> False | Some (_, c) \<Rightarrow> c = CATEGORY_BASIC) profiles"

record thin_result =
  tr_payslips :: "(string \<times> payslip) list"
  tr_blocked :: "(string \<times> string) list"
  tr_missing_rate_codes :: "(string \<times> string list) list"

definition ThinResult :: thin_result where
  "ThinResult = \<lparr>tr_payslips = [], tr_blocked = [], tr_missing_rate_codes = []\<rparr>"

record raw_db =
  rdb_runs :: "payroll_run list"
  rdb_items :: "payroll_item list"
  rdb_employees :: "raw_employee list"
  rdb_profiles :: "wage_profile list"
  rdb_rates :: "statutory_rate list"
  rdb_archives :: "(int \<times> string) list"

definition thin_lookup :: "raw_db \<Rightarrow> int \<Rightarrow> raw_employee \<Rightarrow> string \<Rightarrow> (rat \<times> string) option" where
  "thin_lookup db client emp = client_defaults client (rdb_profiles db) ++ profiles_by_emp client (rdb_profiles db) (emp_id emp)"

definition thin_inputs_for ::
  "raw_db \<Rightarrow> int \<Rightarrow> payroll_run \<Rightarrow> pydate \<Rightarrow> (int \<Rightarrow> rat option) \<Rightarrow> raw_employee \<Rightarrow> thin_input \<Rightarrow> rat payslip_inputs \<times> string list" where
  "thin_inputs_for db client run on_date used_ytd emp rec =
     (let rate_lookup = thin_lookup db client emp;
          pay_type = text_or (emp_pay_type emp) (if has_basic_rate (rdb_profiles db) rate_lookup then ''hourly'' else ''salaried'')
      in assemble_inputs (ti_staff_id rec) (ti_hours rec) rate_lookup pay_type (Some (emp_id emp))
           (num_or_0 (emp_basic_salary emp)) (emp_icu_member emp = Some True)
           \<lparr>ml_bonus = ti_bonus rec, ml_other_allowance = ti_other_allowance rec,
            ml_pay_difference = ti_pay_difference rec,
            ml_tax_relief_monthly = num_or_0 (emp_tax_relief_monthly emp),
            ml_provident_fund = ti_provident_fund rec, ml_loan = ti_loan rec, ml_donations = 0,
            ml_other_deductions = ti_other_deduction rec, ml_welfare = ti_welfare rec,
            ml_bonus_concession_used_ytd = num_or_0 (used_ytd (emp_id emp)),
            ml_pf_fund_employer = ti_pf_fund_employer rec\<rparr>
           (Some (context_for_employee (Some (employee.truncate emp)) on_date)))"

fun join_rows ::
  "raw_db \<Rightarrow> int \<Rightarrow> payroll_run \<Rightarrow> statutory_rate \<Rightarrow> pydate \<Rightarrow> (int \<Rightarrow> rat option) \<Rightarrow> thin_input list \<Rightarrow> thin_result
    \<Rightarrow> deduction_error + thin_result" where
  "join_rows db client run rate on_date used_ytd [] result = return result"
| "join_rows db client run rate on_date used_ytd (rec # recs) result =
     (case roster_of client (rdb_employees db) (normalise_emp_id (ti_staff_id rec)) of
        None \<Rightarrow> join_rows db client run rate on_date used_ytd recs
                  (result\<lparr>tr_blocked := tr_blocked result @ [(ti_staff_id rec, ti_name rec)]\<rparr>)
      | Some emp \<Rightarrow>
          (let (inputs, missing) = thin_inputs_for db client run on_date used_ytd emp rec;
               result = (if missing \<noteq> []
                         then result\<lparr>tr_missing_rate_codes := AList.update (ti_staff_id rec) missing (tr_missing_rate_codes result)\<rparr>
                         else result)
           in case compute_payslip inputs rate of
                Inl e \<Rightarrow> raise e
              | Inr slip \<Rightarrow> join_rows db client run rate on_date used_ytd recs
                  (result\<lparr>tr_payslips := AList.update (ti_staff_id rec) slip (tr_payslips result)\<rparr>)))"

definition join_and_compute ::
  "raw_db \<Rightarrow> int \<Rightarrow> thin_input list \<Rightarrow> payroll_run \<Rightarrow> statutory_rate \<Rightarrow> pydate \<Rightarrow> deduction_error + thin_result" where
  "join_and_compute db client inputs run rate on_date =
     join_rows db client run rate on_date
       (bonus_concession_used_ytd_bulk (rdb_runs db) (rdb_items db)
          (map (\<lambda>e. Some (emp_id e)) (filter (\<lambda>e. emp_client e = client) (rdb_employees db)))
          (run_year run) (Some (run_id run)))
       inputs ThinResult"

subsection \<open>The store and the confirm route\<close>

definition payslip_item :: "raw_db \<Rightarrow> int \<Rightarrow> payroll_run \<Rightarrow> int \<Rightarrow> string \<times> payslip \<Rightarrow> payroll_item" where
  "payslip_item db client run new_id entry =
     (case entry of (staff_id, slip) \<Rightarrow>
        let emp = roster_of client (rdb_employees db) (normalise_emp_id staff_id);
            ws = map warning_text (ps_warnings slip)
        in set_fields (payslip_item_fields slip)
             \<lparr>item_id = new_id, item_run = run_id run, item_employee = map_option emp_id emp,
              item_staff_id = Some staff_id,
              item_full_name = Some (case emp of Some e \<Rightarrow> emp_full_name e | None \<Rightarrow> staff_id),
              item_email = None, item_momo_number = None,
              item_bank_branch = (case emp of Some e \<Rightarrow> emp_bank_branch e | None \<Rightarrow> None), item_money = Map.empty,
              item_validation_status = (if ws \<noteq> [] then ''Warning'' else ''OK''),
              item_warning_notes = Some (join_with ''; '' ws), item_token_version = 0\<rparr>)"

definition write_payroll_items ::
  "raw_db \<Rightarrow> int \<Rightarrow> int \<Rightarrow> payroll_run \<Rightarrow> (string \<times> payslip) list \<Rightarrow> payroll_item list \<times> payroll_run" where
  "write_payroll_items db client next_id run payslips =
     (let written = map (\<lambda>(k, entry). payslip_item db client run (next_id + int k) entry) (enumerate 0 payslips);
          total_of = (\<lambda>f. Some (money (fsum 0 (map (\<lambda>(_, slip). f slip) payslips))))
      in (filter (\<lambda>i. item_run i \<noteq> run_id run) (rdb_items db) @ written,
          run\<lparr>run_total_workers := Some (int (length payslips)),
              run_total_gross_pay := total_of ps_gross_pay,
              run_total_net_pay := total_of ps_net_pay,
              run_total_paye := total_of ps_total_tax,
              run_total_ssnit := total_of ps_employee_ssnit,
              run_total_ssnit_employer := total_of ps_employer_ssnit,
              run_total_deductions := total_of ps_total_deductions\<rparr>))"

definition archive_upload :: "int \<Rightarrow> string \<Rightarrow> (int \<times> string) list \<Rightarrow> (int \<times> string) list" where
  "archive_upload run kind archives = filter (\<lambda>(r, _). r \<noteq> run) archives @ [(run, kind)]"

datatype confirm_outcome =
    Thin_committed nat "(string \<times> string) list"
  | Thin_rate_error run_rate_error
  | Thin_unreadable thin_error
  | Thin_policy_error deduction_error

text \<open>The thin branch of the confirm route: one transaction, rolled back by any error.\<close>

definition confirm_thin :: "int \<Rightarrow> int \<Rightarrow> int \<Rightarrow> payroll_run \<Rightarrow> cell list list \<Rightarrow> raw_db \<Rightarrow> raw_db \<times> confirm_outcome" where
  "confirm_thin client next_item now run rows db =
     (let run = run\<lparr>run_status := DRAFT, run_upload_type := Some ''raw'', run_client_company_id := Some client,
                    run_created_at := now\<rparr>
      in case statutory_rate_for_run (rdb_rates db) run of
           Inl e \<Rightarrow> (db, Thin_rate_error e)
         | Inr (rate, run) \<Rightarrow>
             (case parse_thin_rows rows of
                Inl e \<Rightarrow> (db, Thin_unreadable e)
              | Inr inputs \<Rightarrow>
                  (case period_start (run_month run) (run_year run) of
                     Inl e \<Rightarrow> (db, Thin_rate_error (Period_error e))
                   | Inr on_date \<Rightarrow>
                       (case join_and_compute db client inputs run rate on_date of
                          Inl e \<Rightarrow> (db, Thin_policy_error e)
                        | Inr result \<Rightarrow>
                            (let (items, run) = write_payroll_items db client next_item run (tr_payslips result)
                             in (db\<lparr>rdb_items := items, rdb_runs := rdb_runs db @ [run],
                                    rdb_archives := archive_upload (run_id run) ''thin'' (rdb_archives db)\<rparr>,
                                 Thin_committed (length (tr_payslips result)) (tr_blocked result)))))))"

subsection \<open>The validation rules\<close>

datatype severity = Block | Flag | Warn

datatype issue =
    Hours_reconciliation rat rat
  | Icu_tie_out rat rat
  | Nonmember_icu string rat
  | Unknown_staff_id string
  | Recompute_drift string string rat rat

fun severity_of :: "issue \<Rightarrow> severity" where
  "severity_of (Hours_reconciliation _ _) = Block"
| "severity_of (Icu_tie_out _ _) = Block"
| "severity_of (Nonmember_icu _ _) = Flag"
| "severity_of (Unknown_staff_id _) = Block"
| "severity_of (Recompute_drift _ _ _ _) = Warn"

definition is_savable :: "issue list \<Rightarrow> bool" where
  "is_savable issues \<longleftrightarrow> filter (\<lambda>i. severity_of i = Block) issues = []"

definition reconcile_hours ::
  "(cell \<times> cell \<times> cell) list \<Rightarrow> (string \<times> (string \<times> rat) list) list \<Rightarrow> rat \<Rightarrow> issue list" where
  "reconcile_hours raw_rows consolidated tol =
     (let raw = fsum 0 (map (\<lambda>(_, _, h). coerce_hours h) raw_rows);
          cons = total_hours consolidated
      in if tol < \<bar>fsub raw cons\<bar> then [Hours_reconciliation raw cons] else [])"

definition flag_nonmember_icu :: "(string \<times> rat \<times> bool) list \<Rightarrow> issue list" where
  "flag_nonmember_icu records =
     concat (map (\<lambda>(staff_id, dues, is_member). if 0 < dues \<and> \<not> is_member then [Nonmember_icu staff_id dues] else []) records)"

definition block_unknown_staff :: "(string \<times> string) list \<Rightarrow> issue list" where
  "block_unknown_staff blocked = map (\<lambda>(staff_id, _). Unknown_staff_id staff_id) blocked"

definition recompute_drift :: "(string \<times> string \<times> rat \<times> rat) list \<Rightarrow> rat \<Rightarrow> issue list" where
  "recompute_drift records tol =
     concat (map (\<lambda>(staff_id, field, computed, source).
        if tol < \<bar>fsub computed source\<bar> then [Recompute_drift staff_id field computed source] else []) records)"

definition validate_run ::
  "payroll_item list \<Rightarrow> (string \<Rightarrow> bool) \<Rightarrow> (cell \<times> cell \<times> cell) list option
    \<Rightarrow> (string \<times> (string \<times> rat) list) list option \<Rightarrow> (string \<times> string) list
    \<Rightarrow> (string \<Rightarrow> (rat option \<times> rat option) option) \<Rightarrow> issue list" where
  "validate_run items membership raw_rows consolidated blocked source_totals =
     (let staff = (\<lambda>i. text_or (item_staff_id i) []);
          recon = (case (raw_rows, consolidated) of (Some r, Some c) \<Rightarrow> reconcile_hours r c (fl (1/100)) | _ \<Rightarrow> []);
          icu_total = money (fsum 0 (map (\<lambda>i. col i ''icu_dues'') items));
          tie = (case check_icu_tie_out icu_total None (fl (1/100)) of None \<Rightarrow> [] | Some (t, p) \<Rightarrow> [Icu_tie_out t p]);
          drift = concat (map (\<lambda>i. case source_totals (staff i) of None \<Rightarrow> []
              | Some (gross, net) \<Rightarrow>
                  (case gross of None \<Rightarrow> [] | Some g \<Rightarrow> [(staff i, ''gross'', col i ''gross_pay'', g)]) @
                  (case net of None \<Rightarrow> [] | Some n \<Rightarrow> [(staff i, ''net'', col i ''net_pay'', n)])) items)
      in recon @ tie @ flag_nonmember_icu (map (\<lambda>i. (staff i, col i ''icu_dues'', membership (staff i))) items)
         @ block_unknown_staff blocked @ recompute_drift drift (fl (2/100)))"

end
