(* ===== verification/RawHours.thy ===== *)
theory RawHours
  imports RawRun
begin

text \<open>
  Correctness of the raw-hours path: consolidation keeps every hour, so the reconciliation
  blocks exactly the uploads that drop some; and what the thin upload does with rows and
  pay codes it cannot place.
\<close>

subsection \<open>Sums of non-negative floats\<close>

abbreviation ulp :: rat where "ulp \<equiv> 1 / 2 ^ 22"

lemma fadd_near: "0 \<le> a \<Longrightarrow> 0 \<le> b \<Longrightarrow> a + b \<le> 2 ^ 31 \<Longrightarrow> \<bar>fadd a b - (a + b)\<bar> \<le> ulp \<and> 0 \<le> fadd a b"
  using fl_small_error [of "a + b"] b64.mono [of 0 "a + b"] by (simp add: fadd_def)

lemma fsum_near:
  assumes "0 \<le> a" "list_all ((\<le>) 0) xs" "a + sum_list xs + of_nat (length xs) * ulp \<le> 2 ^ 31"
  shows "\<bar>fsum a xs - (a + sum_list xs)\<bar> \<le> of_nat (length xs) * ulp"
  using assms
proof (induction xs arbitrary: a)
  case (Cons x xs)
  have xs: "0 \<le> sum_list xs" using Cons.prems(2) by (intro sum_list_nonneg) (auto simp: list_all_iff)
  have len: "of_nat (length (x # xs)) * ulp = ulp + of_nat (length xs) * ulp" by (simp add: distrib_right)
  have n: "0 \<le> of_nat (length xs) * ulp" "0 \<le> ulp" by simp_all
  have total: "a + (x + sum_list xs) + (ulp + of_nat (length xs) * ulp) \<le> 2 ^ 31"
    using Cons.prems(3) unfolding len by simp
  have "a + x \<le> 2 ^ 31" using total xs n by linarith
  then have step: "\<bar>fadd a x - (a + x)\<bar> \<le> ulp" "0 \<le> fadd a x"
    using fadd_near [of a x] Cons.prems(1,2) by auto
  then have "fadd a x + sum_list xs + of_nat (length xs) * ulp \<le> 2 ^ 31"
    using total unfolding abs_le_iff by linarith
  from Cons.IH [OF step(2) _ this] Cons.prems(2)
  have "\<bar>fsum (fadd a x) xs - (fadd a x + sum_list xs)\<bar> \<le> of_nat (length xs) * ulp" by simp
  then show ?case using step(1) unfolding len fsum_simps sum_list.Cons abs_le_iff by linarith
qed simp

subsection \<open>Consolidation\<close>

definition row_hours :: "cell \<times> cell \<times> cell \<Rightarrow> rat" where
  "row_hours row = (case row of (_, _, h) \<Rightarrow> coerce_hours h)"

definition row_placed :: "cell \<times> cell \<times> cell \<Rightarrow> bool" where
  "row_placed row = (case row of (s, c, _) \<Rightarrow>
     normalise_emp_id (cell_str s) \<noteq> [] \<and> normalise_element (cell_label c) \<noteq> [])"

lemma coerce_hours_nonneg: "0 \<le> coerce_hours c"
  by (auto simp: coerce_hours_def split: option.split)

lemma sum_update:
  "sum_list (map snd (AList.update k v xs)) = sum_list (map snd xs) - num_or_0 (map_of xs k) + (v :: rat)"
  by (induction xs) (auto simp: num_or_0_def)

lemma snd_update: "set (map snd (AList.update k v xs)) \<subseteq> insert v (set (map snd xs))"
  by (induction xs) auto

lemma length_update: "length (AList.update k v xs) \<le> length xs + 1"
  by (induction xs) auto

definition bucket_of :: "(string \<times> (string \<times> rat) list) list \<Rightarrow> string \<Rightarrow> (string \<times> rat) list" where
  "bucket_of c staff = (case map_of c staff of None \<Rightarrow> [] | Some b \<Rightarrow> b)"

lemma all_hours_Cons: "all_hours (p # c) = map snd (snd p) @ all_hours c"
  by (simp add: all_hours_def split_def)

lemma all_hours_Nil [simp]: "all_hours [] = []"
  by (simp add: all_hours_def)

lemma bucket_of_simps [simp]:
  "bucket_of [] s = []"
  "bucket_of (p # c) s = (if fst p = s then snd p else bucket_of c s)"
  by (cases p; simp add: bucket_of_def)+

lemma sum_all_hours_update:
  "sum_list (all_hours (AList.update s b c)) = sum_list (all_hours c) - sum_list (map snd (bucket_of c s)) + sum_list (map snd b)"
  by (induction c) (auto simp: all_hours_Cons)

lemma set_all_hours_update: "set (all_hours (AList.update s b c)) \<subseteq> set (map snd b) \<union> set (all_hours c)"
  by (induction c) (auto simp: all_hours_Cons)

lemma length_all_hours_update:
  "length (all_hours (AList.update s b c)) + length (bucket_of c s) = length (all_hours c) + length b"
  by (induction c) (auto simp: all_hours_Cons)

lemma bucket_hours: "set (map snd (bucket_of c s)) \<subseteq> set (all_hours c)"
  by (induction c) (auto simp: all_hours_Cons)

lemma consolidate_row_near:
  assumes "list_all ((\<le>) 0) (all_hours c)" "sum_list (all_hours c) + row_hours row \<le> 2 ^ 31"
  shows "list_all ((\<le>) 0) (all_hours (consolidate_row c row))"
    "length (all_hours (consolidate_row c row)) \<le> length (all_hours c) + 1"
    "\<bar>sum_list (all_hours (consolidate_row c row)) - (sum_list (all_hours c) + (if row_placed row then row_hours row else 0))\<bar> \<le> ulp"
proof -
  obtain s0 c0 h where row: "row = (s0, c0, h)" by (cases row)
  let ?s = "normalise_emp_id (cell_str s0)" and ?k = "normalise_element (cell_label c0)"
  let ?old = "num_or_0 (map_of (bucket_of c ?s) ?k)" and ?h = "coerce_hours h"
  have step: "consolidate_row c row = AList.update ?s (add_hours ?k ?h (bucket_of c ?s)) c" if "row_placed row"
    using that by (simp add: consolidate_row_def row row_placed_def bucket_of_def Let_def)
  have skip: "consolidate_row c row = c" if "\<not> row_placed row"
    using that by (auto simp: consolidate_row_def row row_placed_def Let_def)
  have old: "0 \<le> ?old \<and> ?old \<le> sum_list (all_hours c)"
  proof (cases "map_of (bucket_of c ?s) ?k")
    case None
    then show ?thesis using assms(1) by (auto simp: num_or_0_def list_all_iff intro: sum_list_nonneg)
  next
    case (Some v)
    then have "v \<in> set (map snd (bucket_of c ?s))" by (force dest: map_of_SomeD)
    then have "v \<in> set (all_hours c)" using bucket_hours [of c ?s] by blast
    then show ?thesis using Some assms(1) by (auto simp: num_or_0_def list_all_iff intro: member_le_sum_list)
  qed
  have near: "\<bar>fadd ?old ?h - (?old + ?h)\<bar> \<le> ulp \<and> 0 \<le> fadd ?old ?h"
    using old assms(2) coerce_hours_nonneg [of h] by (intro fadd_near) (auto simp: row_hours_def row)
  show "list_all ((\<le>) 0) (all_hours (consolidate_row c row))"
  proof (cases "row_placed row")
    case True
    have "set (all_hours (consolidate_row c row)) \<subseteq> insert (fadd ?old ?h) (set (all_hours c))"
      using set_all_hours_update [of ?s "add_hours ?k ?h (bucket_of c ?s)" c] bucket_hours [of c ?s]
        snd_update [of ?k "fadd ?old ?h" "bucket_of c ?s"]
      unfolding step [OF True] add_hours_def by blast
    then show ?thesis using near assms(1) by (auto simp: list_all_iff)
  qed (simp add: skip assms(1))
  show "length (all_hours (consolidate_row c row)) \<le> length (all_hours c) + 1"
    using length_all_hours_update [of ?s "add_hours ?k ?h (bucket_of c ?s)" c]
      length_update [of ?k "fadd ?old ?h" "bucket_of c ?s"]
    by (cases "row_placed row") (simp_all add: step skip add_hours_def)
  show "\<bar>sum_list (all_hours (consolidate_row c row)) - (sum_list (all_hours c) + (if row_placed row then row_hours row else 0))\<bar> \<le> ulp"
  proof (cases "row_placed row")
    case True
    have "sum_list (all_hours (consolidate_row c row)) = sum_list (all_hours c) + (fadd ?old ?h - ?old)"
      unfolding step [OF True] sum_all_hours_update add_hours_def sum_update by simp
    then have "sum_list (all_hours (consolidate_row c row)) - (sum_list (all_hours c) + row_hours row) = fadd ?old ?h - (?old + ?h)"
      by (simp add: row_hours_def row)
    then show ?thesis using near True by simp
  qed (simp add: skip)
qed

definition placed_hours :: "(cell \<times> cell \<times> cell) list \<Rightarrow> rat" where
  "placed_hours rows = sum_list (map row_hours (filter row_placed rows))"

definition dropped_hours :: "(cell \<times> cell \<times> cell) list \<Rightarrow> rat" where
  "dropped_hours rows = sum_list (map row_hours (filter (\<lambda>row. \<not> row_placed row) rows))"

lemma row_hours_nonneg [simp]: "0 \<le> row_hours row"
  by (cases row) (simp add: row_hours_def coerce_hours_nonneg)

lemma hours_split: "sum_list (map row_hours rows) = placed_hours rows + dropped_hours rows"
  by (induction rows) (auto simp: placed_hours_def dropped_hours_def)

lemma hours_nonneg: "0 \<le> placed_hours rows" "0 \<le> dropped_hours rows"
  unfolding placed_hours_def dropped_hours_def by (rule sum_list_nonneg; auto)+

lemma sum_row_hours_nonneg: "0 \<le> sum_list (map row_hours rows)"
  by (intro sum_list_nonneg) auto

lemma consolidate_near:
  assumes "list_all ((\<le>) 0) (all_hours c)"
    "sum_list (all_hours c) + sum_list (map row_hours rows) + of_nat (length rows) * ulp \<le> 2 ^ 31"
  shows "list_all ((\<le>) 0) (all_hours (foldl consolidate_row c rows)) \<and>
    length (all_hours (foldl consolidate_row c rows)) \<le> length (all_hours c) + length rows \<and>
    \<bar>sum_list (all_hours (foldl consolidate_row c rows)) - (sum_list (all_hours c) + placed_hours rows)\<bar>
      \<le> of_nat (length rows) * ulp"
  using assms
proof (induction rows arbitrary: c)
  case (Cons row rows)
  let ?c = "consolidate_row c row" and ?p = "if row_placed row then row_hours row else 0"
  have len: "of_nat (length (row # rows)) * ulp = ulp + of_nat (length rows) * ulp" by (simp add: distrib_right)
  have n: "0 \<le> of_nat (length rows) * ulp" "0 \<le> ulp" by simp_all
  have total: "sum_list (all_hours c) + (row_hours row + sum_list (map row_hours rows)) + (ulp + of_nat (length rows) * ulp) \<le> 2 ^ 31"
    using Cons.prems(2) unfolding len by simp
  have row: "sum_list (all_hours c) + row_hours row \<le> 2 ^ 31"
    using total n sum_row_hours_nonneg [of rows] by linarith
  note near = consolidate_row_near [OF Cons.prems(1) row]
  have "?p \<le> row_hours row" by simp
  then have "sum_list (all_hours ?c) + sum_list (map row_hours rows) + of_nat (length rows) * ulp \<le> 2 ^ 31"
    using near(3) total unfolding abs_le_iff by linarith
  from Cons.IH [OF near(1) this]
  have ih: "list_all ((\<le>) 0) (all_hours (foldl consolidate_row ?c rows))"
    "length (all_hours (foldl consolidate_row ?c rows)) \<le> length (all_hours ?c) + length rows"
    "\<bar>sum_list (all_hours (foldl consolidate_row ?c rows)) - (sum_list (all_hours ?c) + placed_hours rows)\<bar> \<le> of_nat (length rows) * ulp"
    by simp_all
  have placed: "placed_hours (row # rows) = ?p + placed_hours rows" by (simp add: placed_hours_def)
  have "\<bar>sum_list (all_hours (foldl consolidate_row ?c rows)) - (sum_list (all_hours c) + placed_hours (row # rows))\<bar>
      \<le> of_nat (length (row # rows)) * ulp"
    using ih(3) near(3) unfolding len placed abs_le_iff by linarith
  then show ?case using ih(1,2) near(2) by simp
qed (simp add: placed_hours_def)

subsection \<open>The reconciliation\<close>

lemma tolerance: "99/10000 \<le> fl (1/100)" "fl (1/100) \<le> 101/10000"
  by code_simp+

lemma total_hours_near:
  assumes "list_all ((\<le>) 0) (all_hours c)" "sum_list (all_hours c) + of_nat (length (all_hours c)) * ulp \<le> 2 ^ 31"
    "of_nat (length (all_hours c)) * ulp \<le> e"
  shows "\<bar>total_hours c - sum_list (all_hours c)\<bar> \<le> e"
proof -
  have "\<bar>fsum 0 (all_hours c) - (0 + sum_list (all_hours c))\<bar> \<le> of_nat (length (all_hours c)) * ulp"
    by (rule fsum_near [OF _ assms(1)]) (use assms(2) in simp_all)
  then show ?thesis using order_trans [OF _ assms(3)] by (simp add: total_hours_def)
qed

text \<open>
  C24: the hours reconciliation does its job.  On any upload of at most ten thousand rows and
  a million hours, when every hour lands in the matrix the check is silent, float rounding
  notwithstanding, and when rows with a blank worker or pay element lose two hundredths of an
  hour or more the run is not savable.
\<close>
theorem hours_reconciliation:
  assumes "length rows \<le> 10000" "sum_list (map row_hours rows) \<le> 10 ^ 6"
  shows "(dropped_hours rows = 0 \<longrightarrow> reconcile_hours rows (consolidate_hours rows) (fl (1/100)) = []) \<and>
    (2/100 \<le> dropped_hours rows \<longrightarrow> \<not> is_savable (reconcile_hours rows (consolidate_hours rows) (fl (1/100))))"
proof -
  let ?c = "consolidate_hours rows" and ?raw = "fsum 0 (map (\<lambda>(_, _, h). coerce_hours h) rows)"
  let ?n = "of_nat (length rows) :: rat"
  have n: "?n * ulp \<le> 10000 * ulp" using assms(1) by simp
  have raw_map: "map (\<lambda>(_, _, h). coerce_hours h) rows = map row_hours rows" by (simp add: row_hours_def split_def)
  have raw: "\<bar>?raw - sum_list (map row_hours rows)\<bar> \<le> ?n * ulp"
    using fsum_near [of 0 "map row_hours rows"] n assms(2) unfolding raw_map by (simp add: list_all_iff)
  have cons: "list_all ((\<le>) 0) (all_hours ?c)" "length (all_hours ?c) \<le> length rows"
    "\<bar>sum_list (all_hours ?c) - placed_hours rows\<bar> \<le> ?n * ulp"
    using consolidate_near [of "[]" rows] n assms(2) by (simp_all add: consolidate_hours_def)
  have len: "of_nat (length (all_hours ?c)) * ulp \<le> ?n * ulp" using cons(2) by simp
  have placed: "placed_hours rows \<le> sum_list (map row_hours rows)" "0 \<le> placed_hours rows"
    using hours_nonneg [of rows] by (simp_all add: hours_split)
  have "sum_list (all_hours ?c) + of_nat (length (all_hours ?c)) * ulp \<le> 2 ^ 31"
  proof -
    have "sum_list (all_hours ?c) \<le> 10 ^ 6 + 10000 * ulp"
      using cons(3) placed assms(2) n unfolding abs_le_iff by linarith
    then have "sum_list (all_hours ?c) + of_nat (length (all_hours ?c)) * ulp \<le> 10 ^ 6 + 10000 * ulp + 10000 * ulp"
      using len n by linarith
    also have "\<dots> \<le> 2 ^ 31" by simp
    finally show ?thesis .
  qed
  then have total: "\<bar>total_hours ?c - sum_list (all_hours ?c)\<bar> \<le> ?n * ulp"
    by (rule total_hours_near [OF cons(1) _ len])
  have diff: "\<bar>(?raw - total_hours ?c) - dropped_hours rows\<bar> \<le> 30000 * ulp"
    using raw total cons(3) n unfolding hours_split abs_le_iff by linarith
  have small: "\<bar>?raw - total_hours ?c\<bar> \<le> 2 ^ 31"
  proof -
    have "dropped_hours rows \<le> 10 ^ 6" "0 \<le> dropped_hours rows"
      using assms(2) placed(2) hours_nonneg [of rows] unfolding hours_split by simp_all
    then have "\<bar>?raw - total_hours ?c\<bar> \<le> 10 ^ 6 + 30000 * ulp" using diff unfolding abs_le_iff by linarith
    also have "\<dots> \<le> 2 ^ 31" by simp
    finally show ?thesis .
  qed
  have fd: "\<bar>fsub ?raw (total_hours ?c) - dropped_hours rows\<bar> \<le> 30001 * ulp"
    using fl_small_error [OF small] diff unfolding fsub_def abs_le_iff by linarith
  have u: "30001 * ulp \<le> 99/10000" "30001 * ulp < 2/100 - 101/10000" by simp_all
  have "dropped_hours rows = 0 \<Longrightarrow> \<not> fl (1/100) < \<bar>fsub ?raw (total_hours ?c)\<bar>"
    using fd u tolerance by simp
  moreover have "2/100 \<le> dropped_hours rows \<Longrightarrow> fl (1/100) < \<bar>fsub ?raw (total_hours ?c)\<bar>"
    using fd u tolerance unfolding abs_le_iff by linarith
  ultimately show ?thesis by (simp add: reconcile_hours_def Let_def is_savable_def)
qed

text \<open>A sheet whose second line has no pay element.\<close>

definition two_lines :: "(cell \<times> cell \<times> cell) list" where
  "two_lines = [(Words ''DZ 048'' None, Words ''Normal'' None, Number ''8'' (Some 8)),
                (Words ''DZ048'' None, Blank, Number ''4'' (Some 4))]"

theorem hours_reconciliation_witness:
  "\<not> is_savable (reconcile_hours two_lines (consolidate_hours two_lines) (fl (1/100)))"
proof -
  have "length two_lines \<le> 10000" "sum_list (map row_hours two_lines) \<le> 10 ^ 6" "2/100 \<le> dropped_hours two_lines"
    by code_simp+
  then show ?thesis using hours_reconciliation [of two_lines] by blast
qed

subsection \<open>The thin upload accounts for every row\<close>

definition on_roster :: "raw_db \<Rightarrow> int \<Rightarrow> thin_input \<Rightarrow> bool" where
  "on_roster db client rec \<longleftrightarrow> roster_of client (rdb_employees db) (normalise_emp_id (ti_staff_id rec)) \<noteq> None"

lemma keys_update: "fst ` set (AList.update k v xs) = insert k (fst ` set xs)"
  by (induction xs) auto

lemma join_rows_accounts:
  assumes "join_rows db client run rate on_date used_ytd recs res = Inr result"
  shows "fst ` set (tr_payslips result) = fst ` set (tr_payslips res) \<union> ti_staff_id ` {rec \<in> set recs. on_roster db client rec} \<and>
    tr_blocked result = tr_blocked res @ map (\<lambda>rec. (ti_staff_id rec, ti_name rec)) (filter (\<lambda>rec. \<not> on_roster db client rec) recs) \<and>
    (distinct (map fst (tr_payslips res)) \<longrightarrow> distinct (map fst (tr_payslips result)))"
  using assms
proof (induction recs arbitrary: res)
  case (Cons rec recs)
  show ?case
  proof (cases "roster_of client (rdb_employees db) (normalise_emp_id (ti_staff_id rec))")
    case None
    then show ?thesis using Cons.IH [of "res\<lparr>tr_blocked := tr_blocked res @ [(ti_staff_id rec, ti_name rec)]\<rparr>"] Cons.prems
      by (auto simp: on_roster_def)
  next
    case (Some emp)
    obtain inputs missing where inp: "thin_inputs_for db client run on_date used_ytd emp rec = (inputs, missing)" by fastforce
    define res' where "res' = (if missing \<noteq> []
        then res\<lparr>tr_missing_rate_codes := AList.update (ti_staff_id rec) missing (tr_missing_rate_codes res)\<rparr> else res)"
    have res': "tr_payslips res' = tr_payslips res" "tr_blocked res' = tr_blocked res" by (simp_all add: res'_def)
    obtain slip where slip: "compute_payslip inputs rate = Inr slip"
      and rest: "join_rows db client run rate on_date used_ytd recs
        (res'\<lparr>tr_payslips := AList.update (ti_staff_id rec) slip (tr_payslips res')\<rparr>) = Inr result"
      using Cons.prems by (auto simp: Some inp res'_def [symmetric] split: sum.splits)
    show ?thesis
      using Cons.IH [OF rest] distinct_update [of "tr_payslips res" "ti_staff_id rec" slip]
      by (auto simp: res' keys_update on_roster_def Some)
  qed
qed simp

text \<open>
  The thin upload accounts for every row.  When the join succeeds, the workers paid are
  exactly those of the rows whose worker is on the client's roster, one payslip each, and the
  blocked list is exactly the remaining rows in sheet order.
\<close>
theorem thin_upload_accounts:
  assumes "join_and_compute db client recs run rate on_date = Inr result"
  shows "fst ` set (tr_payslips result) = ti_staff_id ` {rec \<in> set recs. on_roster db client rec} \<and>
    distinct (map fst (tr_payslips result)) \<and>
    tr_blocked result = map (\<lambda>rec. (ti_staff_id rec, ti_name rec)) (filter (\<lambda>rec. \<not> on_roster db client rec) recs)"
  using join_rows_accounts [OF assms [unfolded join_and_compute_def]] by (simp add: ThinResult_def)

text \<open>One worker on the roster, one that is not, and a spacer row.\<close>

definition DZ048 :: raw_employee where
  "DZ048 = \<lparr>emp_id = 48, emp_staff_id = ''DZ 048'', emp_basic_salary = None, emp_tax_relief_monthly = None,
     emp_overtime_is_junior = None, emp_overtime_qualifying_annual_income = None, emp_overtime_income_year = None,
     emp_pf_scheme_approved = None, emp_pf_scheme_reference = None, emp_tax_relief_approvals = [],
     emp_tax_relief_approval_ref = None, emp_tax_relief_valid_from = None, emp_tax_relief_valid_to = None,
     emp_client = 7, emp_full_name = ''A. Worker'', emp_bank_branch = None, emp_email = None, emp_phone = None,
     emp_momo_number = None, emp_status = None, emp_preferred_channel = None, emp_pay_type = None, emp_icu_member = None\<rparr>"

definition DZ048_db :: raw_db where
  "DZ048_db = \<lparr>rdb_runs = [], rdb_items = [], rdb_employees = [DZ048], rdb_profiles = [], rdb_rates = [], rdb_archives = []\<rparr>"

definition thin_sheet :: "cell list list" where
  "thin_sheet = [[Words ''Staff ID'' None, Words ''Name'' None], [Words ''DZ 048'' None, Words ''A. Worker'' None],
     [Blank, Blank], [Words ''dz 999'' None, Words ''New Hire'' None]]"

definition thin_row :: "string \<Rightarrow> string \<Rightarrow> thin_input" where
  "thin_row staff_id name = ThinEmployeeInput\<lparr>ti_staff_id := staff_id, ti_name := name\<rparr>"

lemma thin_sheet_rows:
  "resolve_header 0 (take 8 thin_sheet) = Inr (0, [(0, Col_staff_id), (1, Col_name)])"
  "parse_thin_rows thin_sheet = Inr [thin_row ''DZ048'' ''A. Worker'', thin_row ''NONE'' [], thin_row ''DZ999'' ''New Hire'']"
  by code_simp+

lemma zero_payslip:
  assumes "pi_basic_wage i = 0" "pi_overtime_pay i = 0" "pi_provident_fund i = 0" "pi_pf_fund_employer i = 0"
    "pi_tax_relief_monthly i = 0"
  shows "\<exists>slip. compute_payslip i (workbook_rate 1) = Inr slip"
  by (simp add: compute_payslip_def payslip_adjustments_def assms deduction_adjustments_def amount_def strict_policy_def
      workbook_rate_def)

lemma thin_sheet_join:
  "\<exists>result. join_and_compute DZ048_db 7 [thin_row ''DZ048'' ''A. Worker'', thin_row ''NONE'' [], thin_row ''DZ999'' ''New Hire'']
     (sample_run DRAFT 0) (workbook_rate 1) (Date 2026 1 1) = Inr result"
proof -
  have ids: "normalise_emp_id ''DZ048'' = ''DZ048''" "normalise_emp_id ''NONE'' = ''NONE''" "normalise_emp_id ''DZ999'' = ''DZ999''"
    "normalise_emp_id ''DZ 048'' = ''DZ048''" by code_simp+
  obtain i missing where i: "thin_inputs_for DZ048_db 7 (sample_run DRAFT 0) (Date 2026 1 1)
     (bonus_concession_used_ytd_bulk [] [] [Some 48] 2026 (Some 1)) DZ048 (thin_row ''DZ048'' ''A. Worker'') = (i, missing)"
    by fastforce
  then have "\<exists>slip. compute_payslip i (workbook_rate 1) = Inr slip"
    by (intro zero_payslip) (auto simp: thin_inputs_for_def assemble_inputs_def Let_def thin_row_def ThinEmployeeInput_def
        apply_rates_Nil RateApplication_def DZ048_def num_or_0_def split: if_splits)
  then show ?thesis using i
    by (auto simp: join_and_compute_def roster_of_def DZ048_db_def thin_row_def ThinEmployeeInput_def ids sample_run_def
        Let_def DZ048_def)
qed

theorem thin_upload_accounts_witness:
  "\<exists>result. join_and_compute DZ048_db 7 [thin_row ''DZ048'' ''A. Worker'', thin_row ''NONE'' [], thin_row ''DZ999'' ''New Hire'']
     (sample_run DRAFT 0) (workbook_rate 1) (Date 2026 1 1) = Inr result \<and>
   fst ` set (tr_payslips result) = {''DZ048''} \<and> tr_blocked result = [(''NONE'', []), (''DZ999'', ''New Hire'')]"
proof -
  obtain result where r: "join_and_compute DZ048_db 7 [thin_row ''DZ048'' ''A. Worker'', thin_row ''NONE'' [], thin_row ''DZ999'' ''New Hire'']
     (sample_run DRAFT 0) (workbook_rate 1) (Date 2026 1 1) = Inr result" using thin_sheet_join by blast
  have on: "on_roster DZ048_db 7 (thin_row ''DZ048'' ''A. Worker'')" "\<not> on_roster DZ048_db 7 (thin_row ''NONE'' [])"
    "\<not> on_roster DZ048_db 7 (thin_row ''DZ999'' ''New Hire'')" by code_simp+
  have "{rec \<in> set [thin_row ''DZ048'' ''A. Worker'', thin_row ''NONE'' [], thin_row ''DZ999'' ''New Hire''].
      on_roster DZ048_db 7 rec} = {thin_row ''DZ048'' ''A. Worker''}" using on by auto
  then show ?thesis using thin_upload_accounts [OF r] r on by (simp add: thin_row_def)
qed

subsection \<open>Hours without a rate\<close>

definition rated_only :: "raw_db \<Rightarrow> int \<Rightarrow> thin_input \<Rightarrow> thin_input" where
  "rated_only db client rec =
     (case roster_of client (rdb_employees db) (normalise_emp_id (ti_staff_id rec)) of
        None \<Rightarrow> rec
      | Some emp \<Rightarrow> rec\<lparr>ti_hours := filter (\<lambda>(code, _). thin_lookup db client emp code \<noteq> None) (ti_hours rec)\<rparr>)"

lemma apply_rates_rated:
  "apply_rates (filter (\<lambda>(c, _). lk c \<noteq> None) hs) lk = (apply_rates hs lk)\<lparr>ra_missing_rate_codes := []\<rparr>"
proof (induction hs rule: rev_induct)
  case (snoc e hs)
  obtain c h where e: "e = (c, h)" by (cases e)
  show ?case
    using snoc by (cases "lk c"; cases "h = 0")
      (auto simp: e apply_rates_snoc apply_rate_def Let_def add_to_bucket_def)
qed (simp add: apply_rates_Nil RateApplication_def)

lemma rated_inputs:
  assumes "roster_of client (rdb_employees db) (normalise_emp_id (ti_staff_id rec)) = Some emp"
  shows "thin_inputs_for db client run on_date used_ytd emp (rated_only db client rec) =
    (fst (thin_inputs_for db client run on_date used_ytd emp rec), [])"
  using apply_rates_rated [of "thin_lookup db client emp" "ti_hours rec"]
  by (simp add: thin_inputs_for_def rated_only_def assms assemble_inputs_def Let_def)

lemma rated_only_simps [simp]:
  "ti_staff_id (rated_only db client rec) = ti_staff_id rec"
  "ti_name (rated_only db client rec) = ti_name rec"
  by (simp_all add: rated_only_def split: option.split)

definition paid_and_blocked :: "thin_result \<Rightarrow> (string \<times> payslip) list \<times> (string \<times> string) list" where
  "paid_and_blocked result = (tr_payslips result, tr_blocked result)"

lemma join_rows_rated:
  assumes "paid_and_blocked res' = paid_and_blocked res" "tr_missing_rate_codes res' = []"
  shows "map_sum id paid_and_blocked (join_rows db client run rate on_date used_ytd (map (rated_only db client) recs) res') =
      map_sum id paid_and_blocked (join_rows db client run rate on_date used_ytd recs res) \<and>
    (\<forall>result. join_rows db client run rate on_date used_ytd (map (rated_only db client) recs) res' = Inr result \<longrightarrow>
       tr_missing_rate_codes result = [])"
  using assms
proof (induction recs arbitrary: res res')
  case (Cons rec recs)
  show ?case
  proof (cases "roster_of client (rdb_employees db) (normalise_emp_id (ti_staff_id rec))")
    case None
    then show ?thesis
      using Cons.IH [of "res'\<lparr>tr_blocked := tr_blocked res' @ [(ti_staff_id rec, ti_name rec)]\<rparr>"
        "res\<lparr>tr_blocked := tr_blocked res @ [(ti_staff_id rec, ti_name rec)]\<rparr>"] Cons.prems
      by (simp add: paid_and_blocked_def)
  next
    case (Some emp)
    obtain inputs missing where inp: "thin_inputs_for db client run on_date used_ytd emp rec = (inputs, missing)" by fastforce
    have inp': "thin_inputs_for db client run on_date used_ytd emp (rated_only db client rec) = (inputs, [])"
      using rated_inputs [OF Some] inp by simp
    show ?thesis
    proof (cases "compute_payslip inputs rate")
      case (Inl e)
      then show ?thesis by (simp add: Some inp inp')
    next
      case (Inr slip)
      show ?thesis
        using Cons.IH [of "res'\<lparr>tr_payslips := AList.update (ti_staff_id rec) slip (tr_payslips res')\<rparr>"
            "(if missing \<noteq> [] then res\<lparr>tr_missing_rate_codes := AList.update (ti_staff_id rec) missing (tr_missing_rate_codes res)\<rparr>
              else res)\<lparr>tr_payslips := AList.update (ti_staff_id rec) slip (tr_payslips res)\<rparr>"] Cons.prems
        by (cases "missing = []") (simp_all add: Some inp inp' Inr paid_and_blocked_def)
    qed
  qed
qed simp

text \<open>
  Hours worked on a pay code without a rate are silently unpaid.  Deleting every unrated
  hour from the upload changes neither the payslips, nor the blocked list, nor the outcome of
  the join; it only empties the report of missing rates, which nothing reads before the run
  is committed.
\<close>
theorem unrated_hours_are_unpaid:
  "map_sum id paid_and_blocked (join_and_compute db client (map (rated_only db client) recs) run rate on_date) =
     map_sum id paid_and_blocked (join_and_compute db client recs run rate on_date)"
  using join_rows_rated [of ThinResult ThinResult] by (simp add: join_and_compute_def ThinResult_def)

subsection \<open>Blank rows\<close>

lemma read_column_Blank:
  assumes "list_all (\<lambda>c. c = Blank) row"
  shows "read_column row rec (c, role) =
    (case role of Col_staff_id \<Rightarrow> rec\<lparr>ti_staff_id := ''NONE''\<rparr> | Col_name \<Rightarrow> rec\<lparr>ti_name := []\<rparr> | _ \<Rightarrow> rec)"
proof -
  have blank: "(if c < length row then row ! c else Blank) = Blank" using assms by (simp add: list_all_length)
  have none: "normalise_emp_id (cell_str Blank) = ''NONE''" by code_simp
  show ?thesis unfolding read_column_def
    by (simp add: blank none cell_name_def coerce_hours_def coerce_rate_def cell_float_def split: column_role.split)
qed

lemma read_columns_Blank:
  assumes "list_all (\<lambda>c. c = Blank) row"
  shows "foldl (read_column row) rec colmap =
    (if list_ex (\<lambda>(_, role). role = Col_staff_id) colmap then rec\<lparr>ti_staff_id := ''NONE''\<rparr> else rec)
      \<lparr>ti_name := (if list_ex (\<lambda>(_, role). role = Col_name) colmap then [] else ti_name rec)\<rparr>"
proof (induction colmap arbitrary: rec)
  case (Cons e colmap)
  obtain c role where "e = (c, role)" by (cases e)
  then show ?case using Cons by (cases role) (simp_all add: read_column_Blank [OF assms])
qed simp

lemma resolve_header_staff: "resolve_header n rows = Inr (h, colmap) \<Longrightarrow> list_ex (\<lambda>(_, role). role = Col_staff_id) colmap"
  by (induction n rows rule: resolve_header.induct) (auto split: if_splits)

text \<open>
  A blank spacer row becomes a worker called NONE.  Every entirely blank row below the
  header of an accepted thin upload is read as a worker with the identifier NONE and no hours,
  and unless an employee is called so the join reports that worker as blocked.
\<close>
theorem spacer_rows_become_workers:
  assumes "resolve_header 0 (take 8 rows) = Inr (h, colmap)" "parse_thin_rows rows = Inr recs"
    "row \<in> set (drop (h + 1) rows)" "list_all (\<lambda>c. c = Blank) row"
    "join_and_compute db client recs run rate on_date = Inr result"
    "roster_of client (rdb_employees db) ''NONE'' = None"
  shows "ThinEmployeeInput\<lparr>ti_staff_id := ''NONE''\<rparr> \<in> set recs \<and> (''NONE'', []) \<in> set (tr_blocked result)"
proof -
  have "read_row colmap row = Some (ThinEmployeeInput\<lparr>ti_staff_id := ''NONE''\<rparr>)"
    using resolve_header_staff [OF assms(1)]
    by (simp add: read_row_def read_columns_Blank [OF assms(4)] ThinEmployeeInput_def Let_def)
  moreover have "recs = List.map_filter (read_row colmap) (drop (h + 1) rows)"
    using assms(1,2) by (auto simp: parse_thin_rows_def split: if_splits)
  ultimately have rec: "ThinEmployeeInput\<lparr>ti_staff_id := ''NONE''\<rparr> \<in> set recs"
    using assms(3) by (force simp: map_filter_def)
  have "normalise_emp_id ''NONE'' = ''NONE''" by code_simp
  then have "\<not> on_roster db client (ThinEmployeeInput\<lparr>ti_staff_id := ''NONE''\<rparr>)"
    using assms(6) by (simp add: on_roster_def)
  then have "ThinEmployeeInput\<lparr>ti_staff_id := ''NONE''\<rparr> \<in> set (filter (\<lambda>rec. \<not> on_roster db client rec) recs)"
    using rec by simp
  from imageI [OF this, of "\<lambda>rec. (ti_staff_id rec, ti_name rec)"]
  have "(''NONE'', []) \<in> set (map (\<lambda>rec. (ti_staff_id rec, ti_name rec)) (filter (\<lambda>rec. \<not> on_roster db client rec) recs))"
    by (simp only: set_map) (simp add: ThinEmployeeInput_def)
  moreover have "tr_blocked result = map (\<lambda>rec. (ti_staff_id rec, ti_name rec)) (filter (\<lambda>rec. \<not> on_roster db client rec) recs)"
    using join_rows_accounts [OF assms(5) [unfolded join_and_compute_def]] by (simp add: ThinResult_def)
  ultimately show ?thesis using rec by simp
qed

theorem spacer_rows_become_workers_witness:
  "\<exists>result. join_and_compute DZ048_db 7 [thin_row ''DZ048'' ''A. Worker'', thin_row ''NONE'' [], thin_row ''DZ999'' ''New Hire'']
     (sample_run DRAFT 0) (workbook_rate 1) (Date 2026 1 1) = Inr result \<and> (''NONE'', []) \<in> set (tr_blocked result)"
proof -
  obtain result where r: "join_and_compute DZ048_db 7 [thin_row ''DZ048'' ''A. Worker'', thin_row ''NONE'' [], thin_row ''DZ999'' ''New Hire'']
     (sample_run DRAFT 0) (workbook_rate 1) (Date 2026 1 1) = Inr result" using thin_sheet_join by blast
  have "roster_of 7 (rdb_employees DZ048_db) ''NONE'' = None" by code_simp
  moreover have "[Blank, Blank] \<in> set (drop (0 + 1) thin_sheet)" by (simp add: thin_sheet_def)
  ultimately show ?thesis
    using spacer_rows_become_workers [OF thin_sheet_rows _ _ r, of "[Blank, Blank]"] r by auto
qed

end
