(* ===== verification/Hourly.thy ===== *)
theory Hourly
  imports RawRun Recalc
begin

text \<open>
  The hours-first run: the hourly calculator of \<open>app/payroll_calculations/hourly.py\<close> over
  imported hours and wage rate profiles, the raw branch of the Calculate Pay route and the raw
  branch of the figures grid in \<open>app/payroll.py\<close>.
\<close>

subsection \<open>Entries, profiles and results\<close>

record raw_pay_entry =
  re_id :: int
  re_run :: int
  re_employee :: string
  re_pay_code :: string
  re_hours :: rat

record hourly_db = raw_db +
  hdb_entries :: "raw_pay_entry list"

text \<open>\<open>run.client_company_id\<close>; ids start at one, so a run without a client selects no row.\<close>

definition client_of :: "payroll_run \<Rightarrow> int" where
  "client_of run = (case run_client_company_id run of Some c \<Rightarrow> c | None \<Rightarrow> 0)"

definition profile_for :: "wage_profile list \<Rightarrow> int \<Rightarrow> int option \<Rightarrow> string \<Rightarrow> wage_profile option" where
  "profile_for profiles client employee_id pay_code =
     (let client_default = first_row (\<lambda>p. wp_client p = client \<and> wp_employee p = None \<and> wp_pay_code p = pay_code) profiles
      in case employee_id of
           None \<Rightarrow> client_default
         | Some e \<Rightarrow>
             (case first_row (\<lambda>p. wp_client p = client \<and> wp_employee p = Some e \<and> wp_pay_code p = pay_code) profiles of
                Some override \<Rightarrow> Some override
              | None \<Rightarrow> client_default))"

record hourly_result =
  hr_employee_id_str :: string
  hr_employee_id :: "int option"
  hr_tax_relief_monthly :: rat
  hr_lines :: "rate_line list"
  hr_missing_rate_codes :: "string list"
  hr_basic_wage :: rat
  hr_overtime_pay :: rat
  hr_bonus :: rat
  hr_allowances :: rat
  hr_gross_pay :: rat
  hr_ssnit :: rat
  hr_ssf_employer :: rat
  hr_net_basic_wage :: rat
  hr_annual_salary :: rat
  hr_annual_salary_15pct :: rat
  hr_taxable_income :: rat
  hr_ordinary_paye :: rat
  hr_overtime_tax :: rat
  hr_bonus_tax :: rat
  hr_bonus_excess :: rat
  hr_paye :: rat
  hr_total_deductions :: rat
  hr_net_pay :: rat
  hr_pf_fund_employee :: rat
  hr_pf_fund_employer :: rat
  hr_pensionable_salary :: rat
  hr_ssnit_remittance :: rat
  hr_tier_2_remittance :: rat
  hr_pf_allowable_employee :: rat
  hr_pf_employer_taxable :: rat
  hr_tax_relief_applied :: rat
  hr_overtime_ordinary_pay :: rat
  hr_deductions_policy_version :: int
  hr_context :: "deduction_context option"
  hr_warnings :: "deduction_warning list"

definition HourlyResult :: "string \<Rightarrow> int option \<Rightarrow> hourly_result" where
  "HourlyResult staff employee_id =
     \<lparr>hr_employee_id_str = staff, hr_employee_id = employee_id, hr_tax_relief_monthly = 0, hr_lines = [],
      hr_missing_rate_codes = [], hr_basic_wage = 0, hr_overtime_pay = 0, hr_bonus = 0, hr_allowances = 0,
      hr_gross_pay = 0, hr_ssnit = 0, hr_ssf_employer = 0, hr_net_basic_wage = 0, hr_annual_salary = 0,
      hr_annual_salary_15pct = 0, hr_taxable_income = 0, hr_ordinary_paye = 0, hr_overtime_tax = 0,
      hr_bonus_tax = 0, hr_bonus_excess = 0, hr_paye = 0, hr_total_deductions = 0, hr_net_pay = 0,
      hr_pf_fund_employee = 0, hr_pf_fund_employer = 0, hr_pensionable_salary = 0, hr_ssnit_remittance = 0,
      hr_tier_2_remittance = 0, hr_pf_allowable_employee = 0, hr_pf_employer_taxable = 0,
      hr_tax_relief_applied = 0, hr_overtime_ordinary_pay = 0, hr_deductions_policy_version = 0,
      hr_context = None, hr_warnings = []\<rparr>"

definition hourly_item_fields :: "hourly_result \<Rightarrow> (string \<times> rat) list" where
  "hourly_item_fields r =
     [(''basic_salary'', hr_basic_wage r),
      (''overtime_pay'', hr_overtime_pay r),
      (''productivity_bonus'', hr_bonus r),
      (''other_allowances'', hr_allowances r),
      (''gross_pay'', hr_gross_pay r),
      (''paye'', hr_paye r),
      (''ssnit'', hr_ssnit r),
      (''ssf_employer'', hr_ssf_employer r),
      (''net_basic_wage'', hr_net_basic_wage r),
      (''annual_salary'', hr_annual_salary r),
      (''annual_salary_15pct'', hr_annual_salary_15pct r),
      (''taxable_income'', hr_taxable_income r),
      (''overtime_tax'', hr_overtime_tax r),
      (''bonus_tax'', hr_bonus_tax r),
      (''bonus_excess'', hr_bonus_excess r),
      (''total_deductions'', hr_total_deductions r),
      (''net_pay'', hr_net_pay r),
      (''pf_fund_employee'', hr_pf_fund_employee r),
      (''pf_fund_employer'', hr_pf_fund_employer r),
      (''pensionable_salary'', hr_pensionable_salary r),
      (''ssnit_remittance'', hr_ssnit_remittance r),
      (''tier_2_remittance'', hr_tier_2_remittance r),
      (''pf_allowable_employee'', hr_pf_allowable_employee r),
      (''pf_employer_taxable'', hr_pf_employer_taxable r),
      (''tax_relief_applied'', hr_tax_relief_applied r),
      (''overtime_ordinary_pay'', hr_overtime_ordinary_pay r),
      (''deductions_policy_version'', of_int (hr_deductions_policy_version r))]"

subsection \<open>Costing the entries\<close>

definition add_to_field :: "string \<Rightarrow> rat \<Rightarrow> hourly_result \<Rightarrow> hourly_result" where
  "add_to_field category earned r =
     (if category = CATEGORY_BASIC then r\<lparr>hr_basic_wage := money (fadd (hr_basic_wage r) earned)\<rparr>
      else if category = CATEGORY_OVERTIME then r\<lparr>hr_overtime_pay := money (fadd (hr_overtime_pay r) earned)\<rparr>
      else if category = CATEGORY_BONUS then r\<lparr>hr_bonus := money (fadd (hr_bonus r) earned)\<rparr>
      else r\<lparr>hr_allowances := money (fadd (hr_allowances r) earned)\<rparr>)"

definition cost_entry :: "wage_profile option \<Rightarrow> raw_pay_entry \<Rightarrow> hourly_result \<Rightarrow> hourly_result" where
  "cost_entry profile entry r =
     (case profile of
        None \<Rightarrow> (if re_pay_code entry \<in> set (hr_missing_rate_codes r) then r
                 else r\<lparr>hr_missing_rate_codes := hr_missing_rate_codes r @ [re_pay_code entry]\<rparr>)
      | Some p \<Rightarrow>
          let earned = money (fmul (re_hours entry) (wp_hourly_rate p));
              r = r\<lparr>hr_lines := hr_lines r @
                    [\<lparr>line_code = re_pay_code entry, line_category = wp_category p, line_hours = re_hours entry,
                      line_rate = wp_hourly_rate p, line_amount = earned\<rparr>]\<rparr>;
              r = add_to_field (wp_category p) earned r
          in r\<lparr>hr_gross_pay := money (fadd (hr_gross_pay r) earned)\<rparr>)"

text \<open>\<open>items_by_employee.get(employee_id) or items_by_staff.get(normalise_emp_id(emp_key))\<close>.\<close>

definition period_item :: "payroll_item list \<Rightarrow> int option \<Rightarrow> string \<Rightarrow> payroll_item option" where
  "period_item items employee_id emp_key =
     (let by_employee = (case employee_id of None \<Rightarrow> None
            | Some e \<Rightarrow> if e = 0 then None else first_row (\<lambda>i. item_employee i = Some e) (rev items))
      in case by_employee of Some i \<Rightarrow> Some i
         | None \<Rightarrow> first_row (\<lambda>i. text_or (item_staff_id i) [] \<noteq> [] \<and>
                     normalise_emp_id (text_or (item_staff_id i) []) = normalise_emp_id emp_key) (rev items))"

definition new_result :: "hourly_db \<Rightarrow> payroll_run \<Rightarrow> pydate \<Rightarrow> string \<Rightarrow> hourly_result" where
  "new_result db run on_date emp_key =
     (let employee = roster_of (client_of run) (rdb_employees db) (normalise_emp_id emp_key);
          employee_id = map_option emp_id employee;
          item = period_item (items_of (run_id run) (rdb_items db)) employee_id emp_key;
          pf = (\<lambda>f. case item of None \<Rightarrow> 0 | Some i \<Rightarrow> col i f)
      in (HourlyResult emp_key employee_id)
           \<lparr>hr_tax_relief_monthly := (case employee of None \<Rightarrow> 0 | Some e \<Rightarrow> num_or_0 (emp_tax_relief_monthly e)),
            hr_pf_fund_employee := pf ''pf_fund_employee'',
            hr_pf_fund_employer := pf ''pf_fund_employer'',
            hr_context := Some (case employee of
                Some e \<Rightarrow> context_for_employee (Some (employee.truncate e)) on_date
              | None \<Rightarrow> DeductionContext (Some on_date))\<rparr>)"

definition cost_step ::
  "hourly_db \<Rightarrow> payroll_run \<Rightarrow> pydate \<Rightarrow> (string \<times> hourly_result) list \<Rightarrow> raw_pay_entry
    \<Rightarrow> (string \<times> hourly_result) list" where
  "cost_step db run on_date results entry =
     (let emp_key = re_employee entry;
          r = (case map_of results emp_key of Some r \<Rightarrow> r | None \<Rightarrow> new_result db run on_date emp_key);
          profile = profile_for (rdb_profiles db) (client_of run) (hr_employee_id r) (re_pay_code entry)
      in AList.update emp_key (cost_entry profile entry r) results)"

definition cost_entries :: "hourly_db \<Rightarrow> payroll_run \<Rightarrow> pydate \<Rightarrow> raw_pay_entry list \<Rightarrow> (string \<times> hourly_result) list" where
  "cost_entries db run on_date entries = foldl (cost_step db run on_date) [] entries"

subsection \<open>The statutory part\<close>

definition statutory_body :: "statutory_rate \<Rightarrow> rat \<Rightarrow> adjustments \<Rightarrow> hourly_result \<Rightarrow> hourly_result" where
  "statutory_body rate used_ytd adj r =
     (let annual = money (fmul (hr_basic_wage r) 12);
          (bonus_tax, bonus_excess) = split_bonus rate (hr_bonus r) (hr_basic_wage r) used_ytd;
          before = money (fsub (fsum (fsub (hr_basic_wage r) (adj_ssnit adj))
            [hr_allowances r, bonus_excess, adj_overtime_ordinary_pay adj, adj_pf_employer_taxable adj])
            (adj_pf_allowable_employee adj));
          (relief, taxable) = apply_relief rate before (adj_tax_relief_applied adj);
          ordinary = compute_paye rate taxable;
          paye = money (fadd (fadd ordinary (adj_overtime_tax adj)) bonus_tax);
          deductions = money (fadd (fadd (adj_ssnit adj) paye) (hr_pf_fund_employee r))
      in r\<lparr>hr_ssnit := adj_ssnit adj, hr_ssf_employer := adj_ssf_employer adj,
           hr_pensionable_salary := adj_pensionable_salary adj,
           hr_ssnit_remittance := adj_ssnit_remittance adj, hr_tier_2_remittance := adj_tier_2_remittance adj,
           hr_pf_allowable_employee := adj_pf_allowable_employee adj,
           hr_pf_employer_taxable := adj_pf_employer_taxable adj,
           hr_overtime_ordinary_pay := adj_overtime_ordinary_pay adj, hr_warnings := adj_warnings adj,
           hr_deductions_policy_version := deductions_policy_version rate,
           hr_net_basic_wage := money (fsub (hr_basic_wage r) (adj_ssnit adj)),
           hr_annual_salary := annual,
           hr_annual_salary_15pct := money (fmul annual (bonus_annual_basic_threshold rate)),
           hr_overtime_tax := adj_overtime_tax adj, hr_bonus_tax := bonus_tax, hr_bonus_excess := bonus_excess,
           hr_tax_relief_applied := relief, hr_taxable_income := taxable, hr_ordinary_paye := ordinary,
           hr_paye := paye, hr_total_deductions := deductions,
           hr_net_pay := money (fsub (hr_gross_pay r) deductions)\<rparr>)"

definition hourly_adjustments :: "statutory_rate \<Rightarrow> hourly_result \<Rightarrow> deduction_error + adjustments" where
  "hourly_adjustments rate r =
     deduction_adjustments rate (hr_basic_wage r) (hr_overtime_pay r) (hr_pf_fund_employee r)
       (hr_pf_fund_employer r) (hr_tax_relief_monthly r) (hr_context r)"

definition apply_statutory :: "hourly_db \<Rightarrow> payroll_run \<Rightarrow> statutory_rate \<Rightarrow> hourly_result \<Rightarrow> deduction_error + hourly_result" where
  "apply_statutory db run rate r =
     bind_result (hourly_adjustments rate r) (\<lambda>adj.
       return (statutory_body rate
         (bonus_concession_used_ytd (rdb_runs db) (rdb_items db) (hr_employee_id r) (run_year run) (Some (run_id run))) adj r))"

fun apply_statutory_all ::
  "hourly_db \<Rightarrow> payroll_run \<Rightarrow> statutory_rate \<Rightarrow> (string \<times> hourly_result) list \<Rightarrow> deduction_error + (string \<times> hourly_result) list" where
  "apply_statutory_all db run rate [] = return []"
| "apply_statutory_all db run rate ((k, r) # rs) =
     bind_result (apply_statutory db run rate r) (\<lambda>r.
       bind_result (apply_statutory_all db run rate rs) (\<lambda>rs. return ((k, r) # rs)))"

definition calculate_run ::
  "hourly_db \<Rightarrow> payroll_run \<Rightarrow> statutory_rate \<Rightarrow> calc_error + (string \<times> hourly_result) list" where
  "calculate_run db run rate =
     (case period_start (run_month run) (run_year run) of
        Inl e \<Rightarrow> raise (Calc_period_error e)
      | Inr on_date \<Rightarrow>
          (case apply_statutory_all db run rate
              (cost_entries db run on_date (filter (\<lambda>e. re_run e = run_id run) (hdb_entries db))) of
             Inl e \<Rightarrow> raise (Policy_error e)
           | Inr results \<Rightarrow> return results))"

subsection \<open>Calculate Pay on a raw run\<close>

definition truthy_id :: "int option \<Rightarrow> bool" where
  "truthy_id i \<longleftrightarrow> i \<noteq> None \<and> i \<noteq> Some 0"

definition hourly_item :: "hourly_db \<Rightarrow> payroll_run \<Rightarrow> statutory_rate \<Rightarrow> int \<Rightarrow> string \<times> hourly_result \<Rightarrow> payroll_item" where
  "hourly_item db run rate new_id entry =
     (case entry of (emp_key, r) \<Rightarrow>
        let employee = (case hr_employee_id r of None \<Rightarrow> None
              | Some e \<Rightarrow> first_row (\<lambda>x. emp_client x = client_of run \<and> emp_id x = e) (rdb_employees db));
            item = set_fields (hourly_item_fields r)
             \<lparr>item_id = new_id, item_run = run_id run, item_employee = hr_employee_id r,
              item_staff_id = Some emp_key,
              item_full_name = Some (case employee of Some e \<Rightarrow> emp_full_name e | None \<Rightarrow> emp_key),
              item_email = (case employee of Some e \<Rightarrow> emp_email e | None \<Rightarrow> None),
              item_momo_number = (case employee of Some e \<Rightarrow> emp_momo_number e | None \<Rightarrow> None),
              item_bank_branch = (case employee of Some e \<Rightarrow> emp_bank_branch e | None \<Rightarrow> None),
              item_money = Map.empty,
              item_validation_status = (if truthy_id (hr_employee_id r) then ''OK'' else ''Warning''),
              item_warning_notes = Some (if truthy_id (hr_employee_id r) then [] else ''No matching roster employee.''),
              item_token_version = 0\<rparr>
        in apply_overtime_concession_warning rate (merge_calculation_warnings (hr_warnings r) item))"

datatype raw_outcome =
    Raw_not_open string
  | Raw_no_rates run_rate_error
  | Nothing_to_recalculate
  | Raw_blocked calc_error
  | Missing_rates "string list"
  | Raw_calculated nat

definition calculate_raw :: "int \<Rightarrow> payroll_run \<Rightarrow> hourly_db \<Rightarrow> hourly_db \<times> raw_outcome" where
  "calculate_raw next_item run db =
     (if run_status run \<notin> set PENDING_STATUSES then (db, Raw_not_open (run_status run))
      else case statutory_rate_for_run (rdb_rates db) run of
        Inl e \<Rightarrow> (db, Raw_no_rates e)
      | Inr (rate, run) \<Rightarrow>
          (if filter (\<lambda>e. re_run e = run_id run) (hdb_entries db) = [] then (db, Nothing_to_recalculate)
           else case calculate_run db run rate of
             Inl e \<Rightarrow> (db, Raw_blocked e)
           | Inr results \<Rightarrow>
               (let missing = sort (remdups (concat (map (\<lambda>(_, r). hr_missing_rate_codes r) results)))
                in if missing \<noteq> [] then (db, Missing_rates missing)
                   else let written = map (\<lambda>(k, entry). hourly_item db run rate (next_item + int k) entry) (enumerate 0 results);
                            items = filter (\<lambda>i. item_run i \<noteq> run_id run) (rdb_items db) @ written;
                            run = refresh_run_totals items run
                        in (db\<lparr>rdb_items := items, rdb_runs := update_row run_id (run_id run) (\<lambda>_. run) (rdb_runs db)\<rparr>,
                            Raw_calculated (length results)))))"

text \<open>The figures grid of a raw run edits the imported hours only.\<close>

definition edit_entry :: "(int \<Rightarrow> grid_value) \<Rightarrow> raw_pay_entry \<Rightarrow> raw_pay_entry \<times> nat \<times> nat" where
  "edit_entry form entry =
     (case form (re_id entry) of
        Not_sent \<Rightarrow> (entry, 0, 0)
      | Unreadable \<Rightarrow> (entry, 0, 1)
      | grid_value.Number new_value \<Rightarrow>
          if new_value < 0 then (entry, 0, 1)
          else if \<bar>fsub new_value (re_hours entry)\<bar> < fl (5/1000) then (entry, 0, 0)
          else (entry\<lparr>re_hours := new_value\<rparr>, 1, 0))"

definition edit_items_raw :: "(int \<Rightarrow> grid_value) \<Rightarrow> payroll_run \<Rightarrow> hourly_db \<Rightarrow> hourly_db \<times> (nat \<times> nat) option" where
  "edit_items_raw form run db =
     (if run_status run \<noteq> DRAFT then (db, None)
      else let mine = filter (\<lambda>e. re_run e = run_id run) (hdb_entries db)
           in (db\<lparr>hdb_entries := map (\<lambda>e. if re_run e = run_id run then fst (edit_entry form e) else e) (hdb_entries db)\<rparr>,
               Some (sum_list (map (\<lambda>e. fst (snd (edit_entry form e))) mine),
                     sum_list (map (\<lambda>e. snd (snd (edit_entry form e))) mine))))"

end
