(* ===== verification/HourlyPay.thy ===== *)
theory HourlyPay
  imports Hourly RawHours RunTotals
begin

text \<open>
  Correctness of the hours-first run: the results are per-worker folds over the imported
  entries, gross pay is exactly the sum of its costed lines, the calculator meets the contract
  of a pay engine, and Calculate Pay replaces the whole run or nothing.
\<close>

subsection \<open>The results are per-worker folds\<close>

definition worker_id :: "hourly_db \<Rightarrow> payroll_run \<Rightarrow> string \<Rightarrow> int option" where
  "worker_id db run k = map_option emp_id (roster_of (client_of run) (rdb_employees db) (normalise_emp_id k))"

definition entry_profile :: "hourly_db \<Rightarrow> payroll_run \<Rightarrow> raw_pay_entry \<Rightarrow> wage_profile option" where
  "entry_profile db run e = profile_for (rdb_profiles db) (client_of run) (worker_id db run (re_employee e)) (re_pay_code e)"

definition cost_worker :: "hourly_db \<Rightarrow> payroll_run \<Rightarrow> pydate \<Rightarrow> string \<Rightarrow> raw_pay_entry list \<Rightarrow> hourly_result" where
  "cost_worker db run on_date k es =
     foldl (\<lambda>r e. cost_entry (entry_profile db run e) e r) (new_result db run on_date k)
       (filter (\<lambda>e. re_employee e = k) es)"

definition entry_lines :: "hourly_db \<Rightarrow> payroll_run \<Rightarrow> raw_pay_entry \<Rightarrow> rate_line list" where
  "entry_lines db run e =
     (case entry_profile db run e of None \<Rightarrow> []
      | Some p \<Rightarrow> [\<lparr>line_code = re_pay_code e, line_category = wp_category p, line_hours = re_hours e,
          line_rate = wp_hourly_rate p, line_amount = money (fmul (re_hours e) (wp_hourly_rate p))\<rparr>])"

lemma add_to_field_frame [simp]:
  "hr_employee_id (add_to_field c x r) = hr_employee_id r" "hr_employee_id_str (add_to_field c x r) = hr_employee_id_str r"
  "hr_lines (add_to_field c x r) = hr_lines r" "hr_missing_rate_codes (add_to_field c x r) = hr_missing_rate_codes r"
  "hr_gross_pay (add_to_field c x r) = hr_gross_pay r"
  by (simp_all add: add_to_field_def)

lemma cost_entry_frame [simp]:
  "hr_employee_id (cost_entry p e r) = hr_employee_id r" "hr_employee_id_str (cost_entry p e r) = hr_employee_id_str r"
  by (simp_all add: cost_entry_def Let_def split: option.split)

lemma new_result_simps [simp]:
  "hr_employee_id (new_result db run d k) = worker_id db run k" "hr_lines (new_result db run d k) = []"
  "hr_missing_rate_codes (new_result db run d k) = []" "hr_gross_pay (new_result db run d k) = 0"
  "hr_basic_wage (new_result db run d k) = 0" "hr_overtime_pay (new_result db run d k) = 0"
  "hr_bonus (new_result db run d k) = 0" "hr_allowances (new_result db run d k) = 0"
  by (simp_all add: new_result_def HourlyResult_def worker_id_def Let_def)

lemma cost_worker_Nil [simp]: "cost_worker db run d k [] = new_result db run d k"
  by (simp add: cost_worker_def)

lemma cost_worker_snoc:
  "cost_worker db run d k (es @ [e]) =
     (if re_employee e = k then cost_entry (entry_profile db run e) e (cost_worker db run d k es) else cost_worker db run d k es)"
  by (simp add: cost_worker_def)

lemma cost_worker_id [simp]: "hr_employee_id (cost_worker db run d k es) = worker_id db run k"
  by (induction es rule: rev_induct) (simp_all add: cost_worker_snoc)

lemma cost_worker_fresh: "k \<notin> re_employee ` set es \<Longrightarrow> cost_worker db run d k es = new_result db run d k"
  by (induction es rule: rev_induct) (auto simp: cost_worker_snoc)

lemma cost_entries_snoc: "cost_entries db run d (es @ [e]) = cost_step db run d (cost_entries db run d es) e"
  by (simp add: cost_entries_def)

lemma cost_entries_lookup:
  "map_of (cost_entries db run d es) k =
     (if k \<in> re_employee ` set es then Some (cost_worker db run d k es) else None)"
proof (induction es arbitrary: k rule: rev_induct)
  case (snoc e es)
  let ?k = "re_employee e"
  have prev: "(case map_of (cost_entries db run d es) ?k of Some r \<Rightarrow> r | None \<Rightarrow> new_result db run d ?k) = cost_worker db run d ?k es"
    by (simp add: snoc.IH cost_worker_fresh)
  show ?case
    by (simp add: cost_entries_snoc cost_step_def Let_def prev update_conv snoc.IH cost_worker_snoc entry_profile_def cost_worker_fresh)
qed (simp add: cost_entries_def)

lemma fromkeys_snoc: "fromkeys (xs @ [x]) = (if x \<in> set xs then fromkeys xs else fromkeys xs @ [x])"
  by (simp add: fromkeys_def)

lemma set_fromkeys [simp]: "set (fromkeys xs) = set xs"
  by (simp add: fromkeys_def)

lemma distinct_fromkeys [simp]: "distinct (fromkeys xs)"
  by (simp add: fromkeys_def)

lemma keys_cost_entries: "map fst (cost_entries db run d es) = fromkeys (map re_employee es)"
proof (induction es rule: rev_induct)
  case (snoc e es)
  have "set (map fst (cost_entries db run d es)) = re_employee ` set es" by (simp add: snoc)
  then show ?case by (simp add: cost_entries_snoc cost_step_def Let_def update_keys fromkeys_snoc snoc)
qed (simp add: cost_entries_def fromkeys_def)

lemma cost_entries_explicit:
  "cost_entries db run d es = map (\<lambda>k. (k, cost_worker db run d k es)) (fromkeys (map re_employee es))"
proof -
  have d: "distinct (map fst (cost_entries db run d es))" by (simp add: keys_cost_entries)
  have r: "r = cost_worker db run d k es" if "(k, r) \<in> set (cost_entries db run d es)" for k r
    using map_of_is_SomeI [OF d that] by (simp add: cost_entries_lookup split: if_splits)
  have "cost_entries db run d es = map (\<lambda>k. (k, cost_worker db run d k es)) (map fst (cost_entries db run d es))"
    using r by (auto simp: comp_def intro!: map_idI [symmetric])
  then show ?thesis by (simp add: keys_cost_entries)
qed

subsection \<open>The lines of a worker\<close>

lemma cost_worker_lines:
  "hr_lines (cost_worker db run d k es) = concat (map (entry_lines db run) (filter (\<lambda>e. re_employee e = k) es))"
  by (induction es rule: rev_induct)
    (auto simp: cost_worker_snoc cost_entry_def entry_lines_def Let_def split: option.split)

lemma cost_worker_missing:
  "set (hr_missing_rate_codes (cost_worker db run d k es)) =
     re_pay_code ` {e \<in> set es. re_employee e = k \<and> entry_profile db run e = None}"
  by (induction es rule: rev_induct)
    (auto simp: cost_worker_snoc cost_entry_def Let_def split: option.split)

text \<open>The money of a worker: every bucket and the gross are sums over the lines.\<close>

definition other_sum :: "rate_line list \<Rightarrow> int" where
  "other_sum ls = sum_list (map (\<lambda>l. pesewas (line_amount l))
     (filter (\<lambda>l. line_category l \<notin> {CATEGORY_BASIC, CATEGORY_OVERTIME, CATEGORY_BONUS}) ls))"

definition line_sum :: "rate_line list \<Rightarrow> int" where
  "line_sum ls = sum_list (map (\<lambda>l. pesewas (line_amount l)) ls)"

definition accounted :: "hourly_result \<Rightarrow> bool" where
  "accounted r \<longleftrightarrow> hr_basic_wage r = cedi (bucket_sum CATEGORY_BASIC (hr_lines r)) \<and>
     hr_overtime_pay r = cedi (bucket_sum CATEGORY_OVERTIME (hr_lines r)) \<and>
     hr_bonus r = cedi (bucket_sum CATEGORY_BONUS (hr_lines r)) \<and>
     hr_allowances r = cedi (other_sum (hr_lines r)) \<and> hr_gross_pay r = cedi (line_sum (hr_lines r))"

lemma line_sum_split:
  "line_sum ls = bucket_sum CATEGORY_BASIC ls + bucket_sum CATEGORY_OVERTIME ls + bucket_sum CATEGORY_BONUS ls + other_sum ls"
  by (induction ls) (auto simp: line_sum_def bucket_sum_def other_sum_def category_defs)

lemma filtered_sum_bound:
  assumes "list_all small_line ls"
  shows "\<bar>sum_list (map (\<lambda>l. pesewas (line_amount l)) (filter p ls))\<bar> \<le> int (length ls) * 10 ^ 8"
  using assms
proof (induction ls)
  case (Cons l ls)
  then have "\<bar>pesewas (line_amount l)\<bar> \<le> 10 ^ 8" using amtE(2) [of "10 ^ 8" "line_amount l"] by (simp add: small_line_def)
  then show ?case using Cons by (auto simp: distrib_right)
qed simp

lemma sum_bounds:
  assumes "list_all small_line ls" "length ls \<le> 400"
  shows "\<bar>bucket_sum c ls\<bar> \<le> 40000000000" "\<bar>other_sum ls\<bar> \<le> 40000000000" "\<bar>line_sum ls\<bar> \<le> 40000000000"
proof -
  have b: "int (length ls) * 10 ^ 8 \<le> 40000000000" using assms(2) by simp
  show "\<bar>bucket_sum c ls\<bar> \<le> 40000000000" "\<bar>other_sum ls\<bar> \<le> 40000000000"
    unfolding bucket_sum_def other_sum_def by (rule order_trans [OF filtered_sum_bound [OF assms(1)] b])+
  show "\<bar>line_sum ls\<bar> \<le> 40000000000"
    using order_trans [OF filtered_sum_bound [OF assms(1), of "\<lambda>_. True"] b] by (simp add: line_sum_def)
qed

lemma sums_snoc:
  "bucket_sum c (ls @ [l]) = bucket_sum c ls + (if line_category l = c then pesewas (line_amount l) else 0)"
  "other_sum (ls @ [l]) = other_sum ls + (if line_category l \<notin> {CATEGORY_BASIC, CATEGORY_OVERTIME, CATEGORY_BONUS}
     then pesewas (line_amount l) else 0)"
  "line_sum (ls @ [l]) = line_sum ls + pesewas (line_amount l)"
  by (simp_all add: other_sum_def line_sum_def)

lemma cost_entry_accounted:
  assumes "accounted r" "list_all small_line (hr_lines (cost_entry p e r))" "length (hr_lines (cost_entry p e r)) \<le> 400"
  shows "accounted (cost_entry p e r)"
proof (cases p)
  case None
  then show ?thesis using assms(1) by (simp add: accounted_def cost_entry_def)
next
  case (Some w)
  define x where "x = money (fmul (re_hours e) (wp_hourly_rate w))"
  define l where "l = \<lparr>line_code = re_pay_code e, line_category = wp_category w, line_hours = re_hours e,
    line_rate = wp_hourly_rate w, line_amount = x\<rparr>"
  have lines: "hr_lines (cost_entry p e r) = hr_lines r @ [l]"
    by (simp add: cost_entry_def Some Let_def l_def x_def)
  have s: "list_all small_line (hr_lines r)" "length (hr_lines r) \<le> 400" and x: "x = cedi (pesewas x)" "\<bar>pesewas x\<bar> \<le> 10 ^ 8"
    using assms(2,3) amtE [of "10 ^ 8" x] unfolding lines by (simp_all add: small_line_def l_def)
  have add: "money (fadd (cedi n) x) = cedi (n + pesewas x)" if "\<bar>n\<bar> \<le> 40000000000" for n
    using x money_fadd_cedi [of n "pesewas x"] that by simp
  note adds = add [OF sum_bounds(1) [OF s]] add [OF sum_bounds(2) [OF s]] add [OF sum_bounds(3) [OF s]]
  have "cost_entry p e r = (add_to_field (wp_category w) x (r\<lparr>hr_lines := hr_lines r @ [l]\<rparr>))
      \<lparr>hr_gross_pay := money (fadd (hr_gross_pay r) x)\<rparr>"
    by (simp add: cost_entry_def Some Let_def l_def x_def)
  then show ?thesis
    using assms(1) by (auto simp: accounted_def add_to_field_def adds sums_snoc l_def category_defs)
qed

lemma cost_worker_accounted:
  assumes "list_all small_line (hr_lines (cost_worker db run d k es))" "length (hr_lines (cost_worker db run d k es)) \<le> 400"
  shows "accounted (cost_worker db run d k es)"
  using assms
proof (induction es rule: rev_induct)
  case Nil
  then show ?case by (simp add: accounted_def bucket_sum_def other_sum_def line_sum_def)
next
  case (snoc e es)
  have "list_all small_line (hr_lines (cost_worker db run d k es))" "length (hr_lines (cost_worker db run d k es)) \<le> 400"
    using snoc.prems by (auto simp: cost_worker_snoc cost_entry_def Let_def split: if_splits option.splits)
  from snoc.IH [OF this] snoc.prems show ?case
    by (auto simp: cost_worker_snoc intro: cost_entry_accounted)
qed

subsection \<open>The contract of a pay engine\<close>

definition hourly_produced :: "hourly_result \<Rightarrow> bool" where
  "hourly_produced r \<longleftrightarrow> (\<exists>rate used adj r0. is_money (hr_gross_pay r0) \<and> r = statutory_body rate used adj r0)"

lemmas statutory_body_defs = statutory_body_def Let_def split_def

interpretation hourly: pay_engine hourly_produced hr_gross_pay hr_total_deductions "\<lambda>r. 0" hr_net_pay
  "\<lambda>r. (hr_ordinary_paye r, hr_overtime_tax r, hr_bonus_tax r)" hr_paye
proof unfold_locales
  fix r :: hourly_result assume "hourly_produced r"
  then obtain rate used adj r0 where g: "is_money (hr_gross_pay r0)" and r: "r = statutory_body rate used adj r0"
    by (auto simp: hourly_produced_def)
  show "hr_net_pay r = money (fadd (fsub (hr_gross_pay r) (hr_total_deductions r)) 0)"
    by (simp add: r statutory_body_defs fadd_def fsub_def)
  show "is_money (hr_gross_pay r) \<and> is_money (hr_total_deductions r)" using g by (simp add: r statutory_body_defs)
  show "(hr_ordinary_paye r, hr_overtime_tax r, hr_bonus_tax r) = (t1, t2, t3)
      \<Longrightarrow> hr_paye r = money (fadd (fadd t1 t2) t3)" for t1 t2 t3
    by (auto simp: r statutory_body_defs)
qed

lemma statutory_body_frame [simp]:
  "hr_lines (statutory_body rate used adj r) = hr_lines r"
  "hr_employee_id (statutory_body rate used adj r) = hr_employee_id r"
  "hr_missing_rate_codes (statutory_body rate used adj r) = hr_missing_rate_codes r"
  "accounted (statutory_body rate used adj r) = accounted r"
  "hr_gross_pay (statutory_body rate used adj r) = hr_gross_pay r"
  by (simp_all add: statutory_body_def accounted_def Let_def split_def)

lemma apply_statutory_all_Inr:
  "apply_statutory_all db run rate rs = Inr results \<Longrightarrow>
     map fst results = map fst rs \<and> (\<forall>(k, r)\<in>set results. \<exists>r0 used adj. (k, r0) \<in> set rs \<and> r = statutory_body rate used adj r0)"
proof (induction db run rate rs arbitrary: results rule: apply_statutory_all.induct)
  case (2 db run rate k r rs)
  then obtain r' rest where r': "apply_statutory db run rate r = Inr r'" and rest: "apply_statutory_all db run rate rs = Inr rest"
    and results: "results = (k, r') # rest" by (auto simp: bind_result_Inr_iff)
  have "\<exists>used adj. r' = statutory_body rate used adj r" using r' by (auto simp: apply_statutory_def bind_result_Inr_iff)
  then show ?case using "2.IH" [OF rest] results by fastforce
qed simp

lemma calculate_run_Inr:
  assumes "calculate_run db run rate = Inr results"
  obtains d where "map fst results = fromkeys (map re_employee (filter (\<lambda>e. re_run e = run_id run) (hdb_entries db)))"
    "\<And>k r. (k, r) \<in> set results \<Longrightarrow> \<exists>used adj.
       r = statutory_body rate used adj (cost_worker db run d k (filter (\<lambda>e. re_run e = run_id run) (hdb_entries db)))"
proof -
  let ?es = "filter (\<lambda>e. re_run e = run_id run) (hdb_entries db)"
  obtain d where "apply_statutory_all db run rate (cost_entries db run d ?es) = Inr results"
    using assms by (auto simp: calculate_run_def split: sum.splits)
  note a = apply_statutory_all_Inr [OF this]
  have "map fst results = fromkeys (map re_employee ?es)" using a by (simp add: keys_cost_entries)
  moreover have "\<exists>used adj. r = statutory_body rate used adj (cost_worker db run d k ?es)" if "(k, r) \<in> set results" for k r
    using a that by (fastforce simp: cost_entries_explicit)
  ultimately show ?thesis using that by blast
qed

subsection \<open>Properties\<close>

text \<open>
  C29: hourly pay accounts for every entry.  For every worker of a calculated hours-first run
  the lines are exactly the costed entries in import order, the reported codes are exactly
  those without a wage rate, gross pay is the exact sum of the lines and of the four buckets,
  and net pay is gross less deductions to the pesewa.
\<close>
theorem hourly_pay_accounts:
  assumes "calculate_run db run rate = Inr results" "(k, r) \<in> set results"
    "list_all small_line (hr_lines r)" "length (hr_lines r) \<le> 90"
  shows "hr_lines r = concat (map (entry_lines db run) (filter (\<lambda>e. re_run e = run_id run \<and> re_employee e = k) (hdb_entries db))) \<and>
    set (hr_missing_rate_codes r) =
      re_pay_code ` {e \<in> set (hdb_entries db). re_run e = run_id run \<and> re_employee e = k \<and> entry_profile db run e = None} \<and>
    pesewas (hr_gross_pay r) = line_sum (hr_lines r) \<and>
    pesewas (hr_gross_pay r) = pesewas (hr_basic_wage r) + pesewas (hr_overtime_pay r) + pesewas (hr_bonus r) + pesewas (hr_allowances r) \<and>
    (amt (10 ^ 10) (hr_total_deductions r) \<longrightarrow> pesewas (hr_net_pay r) = pesewas (hr_gross_pay r) - pesewas (hr_total_deductions r))"
proof -
  let ?es = "filter (\<lambda>e. re_run e = run_id run) (hdb_entries db)"
  obtain d used adj where r: "r = statutory_body rate used adj (cost_worker db run d k ?es)"
    using calculate_run_Inr [OF assms(1)] assms(2) by metis
  let ?w = "cost_worker db run d k ?es"
  have w: "list_all small_line (hr_lines ?w)" "length (hr_lines ?w) \<le> 90" using assms(3,4) by (simp_all add: r)
  then have acc: "accounted ?w" by (intro cost_worker_accounted) auto
  have lines: "hr_lines r = hr_lines ?w" by (simp add: r)
  have b: "\<bar>bucket_sum c (hr_lines ?w)\<bar> \<le> 40000000000" "\<bar>other_sum (hr_lines ?w)\<bar> \<le> 40000000000"
    "\<bar>line_sum (hr_lines ?w)\<bar> \<le> 40000000000" for c
    using sum_bounds [OF w(1)] w(2) by simp_all
  have "accounted r" using acc by (simp add: r)
  then have sums: "pesewas (hr_gross_pay r) = line_sum (hr_lines ?w)"
    "pesewas (hr_basic_wage r) = bucket_sum CATEGORY_BASIC (hr_lines ?w)"
    "pesewas (hr_overtime_pay r) = bucket_sum CATEGORY_OVERTIME (hr_lines ?w)"
    "pesewas (hr_bonus r) = bucket_sum CATEGORY_BONUS (hr_lines ?w)" "pesewas (hr_allowances r) = other_sum (hr_lines ?w)"
    using b by (simp_all add: accounted_def lines pesewas_cedi order_trans [OF b(1)] order_trans [OF b(2)] order_trans [OF b(3)])
  have "is_money (hr_gross_pay ?w)" using acc by (simp add: accounted_def)
  then have produced: "hourly_produced r" unfolding r hourly_produced_def by blast
  have "\<bar>line_sum (hr_lines ?w)\<bar> \<le> 10 ^ 10"
  proof -
    have "\<bar>line_sum (hr_lines ?w)\<bar> \<le> int (length (hr_lines ?w)) * 10 ^ 8"
      using filtered_sum_bound [OF w(1), of "\<lambda>_. True"] by (simp add: line_sum_def)
    then show ?thesis using w(2) by simp
  qed
  then have "amt (10 ^ 10) (hr_gross_pay r)" using acc by (auto simp: accounted_def r)
  then have net: "amt (10 ^ 10) (hr_total_deductions r) \<Longrightarrow> pesewas (hr_net_pay r) = pesewas (hr_gross_pay r) - pesewas (hr_total_deductions r)"
    using hourly.net_pesewas [OF produced] by simp
  have f: "filter (\<lambda>e. re_employee e = k) ?es = filter (\<lambda>e. re_run e = run_id run \<and> re_employee e = k) (hdb_entries db)"
    by (simp add: conj_commute)
  have "set (hr_missing_rate_codes r) =
      re_pay_code ` {e \<in> set (hdb_entries db). re_run e = run_id run \<and> re_employee e = k \<and> entry_profile db run e = None}"
    by (simp add: r cost_worker_missing conj_assoc)
  then show ?thesis using cost_worker_lines [of db run d k ?es] sums net line_sum_split [of "hr_lines ?w"] by (simp add: lines f)
qed

lemma map_snd_enumerated: "map (\<lambda>p. f (snd p)) (enumerate n xs) = map f xs"
  by (induction xs arbitrary: n) simp_all

lemma filter_enumerated: "filter p (map (\<lambda>(k, x). g k x) (enumerate n xs)) = map (\<lambda>(k, x). g k x) (enumerate n xs)"
  if "\<And>k x. p (g k x)"
  using that by (induction xs arbitrary: n) simp_all

lemma sort_remdups_Nil: "sort (remdups xs) = [] \<longleftrightarrow> xs = []"
  by (metis remdups_eq_nil_iff set_empty set_sort)

lemma hourly_item_frame [simp]:
  "item_run (hourly_item db run rate k e) = run_id run" "item_id (hourly_item db run rate k e) = k"
  "item_staff_id (hourly_item db run rate k e) = Some (fst e)"
proof -
  have staff: "item_staff_id (set_fields kvs i) = item_staff_id i" "item_staff_id (merge_calculation_warnings ws i) = item_staff_id i"
    "item_staff_id (apply_overtime_concession_warning rate i) = item_staff_id i" for kvs ws i
    by (simp_all add: set_fields_def merge_calculation_warnings_def apply_overtime_concession_warning_def set_notes_def Let_def)
  show "item_run (hourly_item db run rate k e) = run_id run" "item_id (hourly_item db run rate k e) = k"
    "item_staff_id (hourly_item db run rate k e) = Some (fst e)"
    by (simp_all add: hourly_item_def Let_def split_def staff)
qed

lemma rate_for_run_id:
  "statutory_rate_for_run rates run = Inr (rate, run') \<Longrightarrow>
     run_id run' = run_id run \<and> client_of run' = client_of run \<and> run_month run' = run_month run \<and> run_year run' = run_year run"
  by (cases "run_status run \<in> set PENDING_STATUSES")
    (auto simp: statutory_rate_for_run_def client_of_def split: sum.splits option.splits if_splits)

lemma worker_id_cong: "client_of run' = client_of run \<Longrightarrow> entry_profile db run' e = entry_profile db run e"
  by (simp add: entry_profile_def worker_id_def)

text \<open>
  Calculate Pay on an hours-first run is all or nothing.  Every outcome but a completed
  calculation leaves the database untouched; in particular a run whose pay was computed at
  confirmation is never wiped, and an entry without a wage rate blocks the whole run.  A
  completed calculation leaves one row per imported worker in import order, keeps the rows of
  every other run, and never touches the imported hours.
\<close>
theorem hourly_calculate_all_or_nothing:
  assumes "calculate_raw next_item run db = (db', outcome)"
  shows "case outcome of
      Raw_calculated n \<Rightarrow>
        run_status run \<in> set PENDING_STATUSES \<and> n \<noteq> 0 \<and>
        (\<forall>e\<in>set (hdb_entries db). re_run e = run_id run \<longrightarrow> entry_profile db run e \<noteq> None) \<and>
        map item_staff_id (items_of (run_id run) (rdb_items db')) =
          map Some (fromkeys (map re_employee (filter (\<lambda>e. re_run e = run_id run) (hdb_entries db)))) \<and>
        (\<forall>other. other \<noteq> run_id run \<longrightarrow> items_of other (rdb_items db') = items_of other (rdb_items db)) \<and>
        hdb_entries db' = hdb_entries db
    | _ \<Rightarrow> db' = db"
proof (cases "\<exists>n. outcome = Raw_calculated n")
  case False
  then show ?thesis using assms
    by (cases outcome) (auto simp: calculate_raw_def Let_def split: if_splits sum.splits prod.splits)
next
  case True
  let ?es = "filter (\<lambda>e. re_run e = run_id run) (hdb_entries db)"
  from True assms obtain rate run' results n where pending: "run_status run \<in> set PENDING_STATUSES"
    and rate: "statutory_rate_for_run (rdb_rates db) run = Inr (rate, run')"
    and es: "filter (\<lambda>e. re_run e = run_id run') (hdb_entries db) \<noteq> []"
    and res: "calculate_run db run' rate = Inr results"
    and missing: "sort (remdups (concat (map (\<lambda>(_, r). hr_missing_rate_codes r) results))) = []"
    and items: "rdb_items db' = filter (\<lambda>i. item_run i \<noteq> run_id run') (rdb_items db) @
      map (\<lambda>(k, entry). hourly_item db run' rate (next_item + int k) entry) (enumerate 0 results)"
    and entries: "hdb_entries db' = hdb_entries db" and n: "outcome = Raw_calculated n" "n = length results"
    by (auto simp: calculate_raw_def Let_def split: if_splits sum.splits)
  note id = rate_for_run_id [OF rate]
  obtain d where keys: "map fst results = fromkeys (map re_employee ?es)"
    and rs: "\<And>k r. (k, r) \<in> set results \<Longrightarrow> \<exists>used adj. r = statutory_body rate used adj (cost_worker db run' d k ?es)"
    using calculate_run_Inr [OF res] id by metis
  have none: "hr_missing_rate_codes r = []" if "(k, r) \<in> set results" for k r
    using missing that by (force simp: sort_remdups_Nil)
  have rated: "entry_profile db run e \<noteq> None" if "e \<in> set (hdb_entries db)" "re_run e = run_id run" for e
  proof -
    have "re_employee e \<in> set (map fst results)" using that by (auto simp: keys)
    then obtain r where r: "(re_employee e, r) \<in> set results" by auto
    then obtain used adj where "r = statutory_body rate used adj (cost_worker db run' d (re_employee e) ?es)" using rs by blast
    then have "set (hr_missing_rate_codes (cost_worker db run' d (re_employee e) ?es)) = {}" using none [OF r] by simp
    then have "entry_profile db run' e \<noteq> None" using that unfolding cost_worker_missing by auto
    then show ?thesis using worker_id_cong id by metis
  qed
  have "map item_staff_id (items_of (run_id run) (rdb_items db')) = map Some (map fst results)"
  proof -
    have "items_of (run_id run) (rdb_items db') =
        map (\<lambda>(k, entry). hourly_item db run' rate (next_item + int k) entry) (enumerate 0 results)"
      using id by (simp add: items items_of_def filter_enumerated)
    then show ?thesis by (simp add: comp_def split_def map_snd_enumerated [of "\<lambda>x. Some (fst x)"])
  qed
  moreover have "items_of other (rdb_items db') = items_of other (rdb_items db)" if "other \<noteq> run_id run" for other
  proof -
    have "filter (\<lambda>i. item_run i \<noteq> run_id run \<and> item_run i = other) (rdb_items db) = items_of other (rdb_items db)"
      unfolding items_of_def using that by (intro filter_cong) auto
    then show ?thesis using id that by (simp add: items items_of_def filter_map comp_def split_def)
  qed
  moreover have "n \<noteq> 0"
  proof -
    have "?es \<noteq> []" using es id by simp
    then have "set (map fst results) \<noteq> {}" unfolding keys by (cases ?es) auto
    then show ?thesis using n by auto
  qed
  ultimately show ?thesis using pending rated entries keys n by simp
qed

text \<open>One worker with eight hours at two cedis.\<close>

definition DZ048_hours :: hourly_db where
  "DZ048_hours = \<lparr>rdb_runs = [stamped_run], rdb_items = [], rdb_employees = [DZ048],
     rdb_profiles = [\<lparr>wp_id = 1, wp_client = 7, wp_employee = None, wp_pay_code = ''ABNH01'', wp_hourly_rate = 2,
       wp_category = CATEGORY_BASIC\<rparr>],
     rdb_rates = [workbook_rate 1], rdb_archives = [],
     hdb_entries = [\<lparr>re_id = 1, re_run = 1, re_employee = ''DZ048'', re_pay_code = ''ABNH01'', re_hours = 8\<rparr>]\<rparr>"

lemma DZ048_roster: "roster_of 7 [DZ048] (normalise_emp_id ''DZ048'') = Some DZ048"
  by code_simp

lemma DZ048_simps: "emp_id DZ048 = 48" "emp_tax_relief_monthly DZ048 = None"
  by (simp_all add: DZ048_def)

lemma DZ048_hours_simps [simp]:
  "hdb_entries DZ048_hours = [\<lparr>re_id = 1, re_run = 1, re_employee = ''DZ048'', re_pay_code = ''ABNH01'', re_hours = 8\<rparr>]"
  "rdb_employees DZ048_hours = [DZ048]" "rdb_items DZ048_hours = []" "rdb_rates DZ048_hours = [workbook_rate 1]"
  "client_of stamped_run = 7" "run_id stamped_run = 1" "run_month stamped_run = ''January''" "run_year stamped_run = 2026"
  "run_status stamped_run = DRAFT"
  by (simp_all add: DZ048_hours_def client_of_def stamped_run_def sample_run_def)

lemma DZ048_profile:
  "entry_profile DZ048_hours stamped_run
     \<lparr>re_id = 1, re_run = 1, re_employee = ''DZ048'', re_pay_code = ''ABNH01'', re_hours = 8\<rparr> =
   Some \<lparr>wp_id = 1, wp_client = 7, wp_employee = None, wp_pay_code = ''ABNH01'', wp_hourly_rate = 2, wp_category = CATEGORY_BASIC\<rparr>"
  by (simp add: entry_profile_def worker_id_def DZ048_roster profile_for_def Let_def) (simp add: DZ048_hours_def)

lemma DZ048_lines:
  "concat (map (entry_lines DZ048_hours stamped_run) (hdb_entries DZ048_hours)) =
     [\<lparr>line_code = ''ABNH01'', line_category = CATEGORY_BASIC, line_hours = 8, line_rate = 2, line_amount = cedi 1600\<rparr>]"
proof -
  have "entry_lines DZ048_hours stamped_run
      \<lparr>re_id = 1, re_run = 1, re_employee = ''DZ048'', re_pay_code = ''ABNH01'', re_hours = 8\<rparr> =
    [\<lparr>line_code = ''ABNH01'', line_category = CATEGORY_BASIC, line_hours = 8, line_rate = 2, line_amount = cedi 1600\<rparr>]"
    by (simp add: entry_lines_def DZ048_profile fmul_def fl_of_int [of 16, simplified] money_16)
  then show ?thesis by simp
qed

lemma DZ048_worker:
  defines "w \<equiv> cost_worker DZ048_hours stamped_run (Date 2026 1 1) ''DZ048'' (hdb_entries DZ048_hours)"
  shows "hr_basic_wage w = cedi 1600" "hr_overtime_pay w = 0" "hr_pf_fund_employee w = 0" "hr_pf_fund_employer w = 0"
    "hr_tax_relief_monthly w = 0" "hr_missing_rate_codes w = []"
proof -
  have m: "money (fadd 0 (cedi 1600)) = cedi 1600" using money_fadd_cedi [of 0 1600] by simp
  have new: "new_result DZ048_hours stamped_run (Date 2026 1 1) ''DZ048'' =
    (HourlyResult ''DZ048'' (Some 48))\<lparr>hr_context := Some (context_for_employee (Some (employee.truncate DZ048)) (Date 2026 1 1))\<rparr>"
    by (simp add: new_result_def DZ048_roster DZ048_simps items_of_def period_item_def HourlyResult_def num_or_0_def Let_def)
  have "w = cost_entry (Some \<lparr>wp_id = 1, wp_client = 7, wp_employee = None, wp_pay_code = ''ABNH01'', wp_hourly_rate = 2, wp_category = CATEGORY_BASIC\<rparr>)
      \<lparr>re_id = 1, re_run = 1, re_employee = ''DZ048'', re_pay_code = ''ABNH01'', re_hours = 8\<rparr>
      ((HourlyResult ''DZ048'' (Some 48))\<lparr>hr_context := Some (context_for_employee (Some (employee.truncate DZ048)) (Date 2026 1 1))\<rparr>)"
    by (simp add: w_def cost_worker_def DZ048_profile new)
  then show "hr_basic_wage w = cedi 1600" "hr_overtime_pay w = 0" "hr_pf_fund_employee w = 0" "hr_pf_fund_employer w = 0"
    "hr_tax_relief_monthly w = 0" "hr_missing_rate_codes w = []"
    by (simp_all add: cost_entry_def add_to_field_def HourlyResult_def Let_def fmul_def fl_of_int [of 16, simplified] money_16 m)
qed

lemma DZ048_run:
  "\<exists>r. calculate_run DZ048_hours stamped_run (workbook_rate 1) = Inr [(''DZ048'', r)] \<and>
     hr_missing_rate_codes r = [] \<and>
     hr_lines r = concat (map (entry_lines DZ048_hours stamped_run) (hdb_entries DZ048_hours))"
proof -
  let ?w = "cost_worker DZ048_hours stamped_run (Date 2026 1 1) ''DZ048'' (hdb_entries DZ048_hours)"
  have d: "period_start ''January'' 2026 = Inr (Date 2026 1 1)" by (simp add: period_start_eval)
  have k: "fromkeys (map re_employee (hdb_entries DZ048_hours)) = [''DZ048'']" by (simp add: fromkeys_def)
  have "0 \<le> D (cedi 1600)" by (simp add: D_cedi)
  then have "\<exists>adj. hourly_adjustments (workbook_rate 1) ?w = Inr adj"
    using DZ048_worker by (simp add: hourly_adjustments_def deduction_adjustments_def amount_def strict_policy_def workbook_rate_def)
  then obtain adj where "hourly_adjustments (workbook_rate 1) ?w = Inr adj" by blast
  then show ?thesis
    using k DZ048_worker by (simp add: calculate_run_def d cost_entries_explicit apply_statutory_def cost_worker_lines)
qed

theorem hourly_pay_accounts_witness:
  "\<exists>r. calculate_run DZ048_hours stamped_run (workbook_rate 1) = Inr [(''DZ048'', r)] \<and> pesewas (hr_gross_pay r) = 1600"
proof -
  obtain r where r: "calculate_run DZ048_hours stamped_run (workbook_rate 1) = Inr [(''DZ048'', r)]"
    and l: "hr_lines r = [\<lparr>line_code = ''ABNH01'', line_category = CATEGORY_BASIC, line_hours = 8, line_rate = 2, line_amount = cedi 1600\<rparr>]"
    using DZ048_run unfolding DZ048_lines by blast
  have "list_all small_line (hr_lines r)" "length (hr_lines r) \<le> 90" unfolding l by (auto simp: small_line_def)
  then have "pesewas (hr_gross_pay r) = line_sum (hr_lines r)" using hourly_pay_accounts [OF r, of "''DZ048''" r] by simp
  then show ?thesis using r unfolding l by (simp add: line_sum_def pesewas_cedi)
qed

theorem hourly_calculate_all_or_nothing_witness:
  "\<exists>db'. calculate_raw 1 stamped_run DZ048_hours = (db', Raw_calculated 1) \<and>
     map item_staff_id (items_of 1 (rdb_items db')) = [Some ''DZ048'']"
proof -
  have rate: "statutory_rate_for_run (rdb_rates DZ048_hours) stamped_run = Inr (workbook_rate 1, stamped_run)"
  proof -
    have "rate_id (workbook_rate 1) = 1" "effective_from (workbook_rate 1) = Date 2026 1 1" by (simp_all add: workbook_rate_def)
    then show ?thesis
      by (simp add: statutory_rate_for_run_def period_start_eval active_for_def PENDING_STATUSES_def)
        (simp add: stamped_run_def)
  qed
  have entries: "filter (\<lambda>e. re_run e = run_id stamped_run) (hdb_entries DZ048_hours) = hdb_entries DZ048_hours" by simp
  obtain r where r: "calculate_run DZ048_hours stamped_run (workbook_rate 1) = Inr [(''DZ048'', r)]" using DZ048_run by blast
  have "hr_missing_rate_codes r = []"
  proof -
    have "set (hr_missing_rate_codes r) = {}"
    proof -
      obtain r' where "calculate_run DZ048_hours stamped_run (workbook_rate 1) = Inr [(''DZ048'', r')]"
        "hr_missing_rate_codes r' = []" using DZ048_run by blast
      then show ?thesis using r by simp
    qed
    then show ?thesis by simp
  qed
  then obtain db' where calc: "calculate_raw 1 stamped_run DZ048_hours = (db', Raw_calculated 1)"
    using r rate entries
    by (simp add: calculate_raw_def Let_def PENDING_STATUSES_def)
  have "fromkeys (map re_employee (hdb_entries DZ048_hours)) = [''DZ048'']" by (simp add: fromkeys_def)
  then show ?thesis using hourly_calculate_all_or_nothing [OF calc] calc entries by simp
qed

end
