(* ===== verification/Contacts.thy ===== *)
theory Contacts
  imports RawRun
begin

text \<open>
  Who a payslip reaches: Ghana mobile numbers (\<open>app/distribution/phones.py\<close>), the contact of
  a payroll item (\<open>contacts.py\<close>) and the choice of channel (\<open>service.py\<close>, \<open>channels.py\<close>).
\<close>

subsection \<open>Mobile numbers\<close>

definition GH_MOBILE_PREFIXES :: "string list" where
  "GH_MOBILE_PREFIXES =
     [''20'', ''50'', ''24'', ''25'', ''53'', ''54'', ''55'', ''59'', ''26'', ''27'', ''56'', ''57'']"

definition is_separator :: "char \<Rightarrow> bool" where
  "is_separator c \<longleftrightarrow> is_space c \<or> c \<in> set ''-.()''"

definition ascii_digits :: string where "ascii_digits = ''0123456789''"

definition is_ascii_digit :: "char \<Rightarrow> bool" where
  "is_ascii_digit c \<longleftrightarrow> c \<in> set ascii_digits"

definition national_number :: "string \<Rightarrow> string option" where
  "national_number v =
     (if length v = 12 \<and> starts_with ''233'' v then Some (drop 3 v)
      else if length v = 10 \<and> starts_with ''0'' v then Some (drop 1 v)
      else if length v = 9 then Some v
      else None)"

definition normalise_gh_mobile :: "string \<Rightarrow> string option" where
  "normalise_gh_mobile raw =
     (let v = filter (\<lambda>c. \<not> is_separator c) raw;
          plus = starts_with ''+'' v;
          v = (if plus then drop 1 v else v)
      in if plus \<and> \<not> starts_with ''233'' v then None
         else if v = [] \<or> \<not> list_all is_ascii_digit v then None
         else case national_number v of
           None \<Rightarrow> None
         | Some national \<Rightarrow>
             if take 2 national \<notin> set GH_MOBILE_PREFIXES then None else Some (''233'' @ national))"

definition mask_msisdn :: "string \<Rightarrow> string" where
  "mask_msisdn number =
     (if number = [] then []
      else let digits = (case normalise_gh_mobile number of Some n \<Rightarrow> n | None \<Rightarrow> filter is_ascii_digit number)
           in if length digits < 8 then ''***'' else take 5 digits @ ''***'' @ drop (length digits - 3) digits)"

subsection \<open>The contact of an item\<close>

datatype sms_source = Roster_phone | Roster_momo | Payroll_momo | Invalid_number | No_number

text \<open>\<open>item.employee\<close> when linked, else the active roster worker under the normalised staff id.\<close>

definition roster_employee_of :: "raw_employee list \<Rightarrow> payroll_run list \<Rightarrow> payroll_item \<Rightarrow> raw_employee option" where
  "roster_employee_of employees runs item =
     (case (case item_employee item of None \<Rightarrow> None | Some e \<Rightarrow> first_row (\<lambda>x. emp_id x = e) employees) of
        Some e \<Rightarrow> Some e
      | None \<Rightarrow>
          (case first_row (\<lambda>r. run_id r = item_run item) runs of
             None \<Rightarrow> None
           | Some run \<Rightarrow>
               (case run_client_company_id run of
                  None \<Rightarrow> None
                | Some client \<Rightarrow>
                    if client = 0 \<or> text_or (item_staff_id item) [] = [] then None
                    else first_row (\<lambda>e. emp_client e = client \<and>
                           emp_staff_id e = normalise_emp_id (text_or (item_staff_id item) []) \<and>
                           emp_status e = Some ''Active'') employees)))"

fun first_number :: "(sms_source \<times> string option) list \<Rightarrow> bool \<Rightarrow> string option \<times> sms_source" where
  "first_number [] saw = (None, if saw then Invalid_number else No_number)"
| "first_number ((source, raw) # rest) saw =
     (if strip (text_or raw []) = [] then first_number rest saw
      else case normalise_gh_mobile (text_or raw []) of
        Some number \<Rightarrow> (Some number, source)
      | None \<Rightarrow> first_number rest True)"

definition sms_contact :: "payroll_item \<Rightarrow> raw_employee option \<Rightarrow> string option \<times> sms_source" where
  "sms_contact item employee =
     first_number
       [(Roster_phone, case employee of None \<Rightarrow> None | Some e \<Rightarrow> emp_phone e),
        (Roster_momo, case employee of None \<Rightarrow> None | Some e \<Rightarrow> emp_momo_number e),
        (Payroll_momo, item_momo_number item)] False"

subsection \<open>Channels\<close>

definition CHANNEL_SMS :: string where "CHANNEL_SMS = ''sms''"
definition CHANNEL_WHATSAPP :: string where "CHANNEL_WHATSAPP = ''whatsapp''"
definition CHANNEL_EMAIL :: string where "CHANNEL_EMAIL = ''email''"
definition CHANNEL_AUTO :: string where "CHANNEL_AUTO = ''auto''"

definition DELIVERY_CHANNELS :: "string list" where
  "DELIVERY_CHANNELS = [CHANNEL_SMS, CHANNEL_WHATSAPP, CHANNEL_EMAIL]"

lemmas channel_defs = CHANNEL_SMS_def CHANNEL_WHATSAPP_def CHANNEL_EMAIL_def CHANNEL_AUTO_def DELIVERY_CHANNELS_def

definition sendable_channels :: "bool \<Rightarrow> string list" where
  "sendable_channels desktop = (if desktop then filter (\<lambda>c. c \<noteq> CHANNEL_SMS) DELIVERY_CHANNELS else DELIVERY_CHANNELS)"

text \<open>\<open>a or b\<close> on nullable texts.\<close>

definition or_text :: "string option \<Rightarrow> string option \<Rightarrow> string option" where
  "or_text a b = (if text_or a [] \<noteq> [] then a else b)"

definition contact_for :: "string \<Rightarrow> payroll_item \<Rightarrow> raw_employee option \<Rightarrow> string option" where
  "contact_for channel item employee =
     (if channel = CHANNEL_EMAIL
      then or_text (case employee of None \<Rightarrow> None | Some e \<Rightarrow> emp_email e) (item_email item)
      else if channel = CHANNEL_SMS then fst (sms_contact item employee)
      else or_text (case employee of None \<Rightarrow> None | Some e \<Rightarrow> or_text (emp_phone e) (emp_momo_number e)) (item_momo_number item))"

datatype contact_problem = Invalid_sms_number | No_contact string

definition recipient_for :: "string \<Rightarrow> payroll_item \<Rightarrow> raw_employee option \<Rightarrow> contact_problem + string" where
  "recipient_for channel item employee =
     (if channel = CHANNEL_SMS
      then (case sms_contact item employee of
              (Some number, _) \<Rightarrow> return number
            | (None, source) \<Rightarrow> raise (if source = Invalid_number then Invalid_sms_number else No_contact channel))
      else case contact_for channel item employee of
             None \<Rightarrow> raise (No_contact channel)
           | Some r \<Rightarrow> if r = [] then raise (No_contact channel) else return r)"

definition resolve_channel :: "bool \<Rightarrow> payroll_item \<Rightarrow> raw_employee option \<Rightarrow> string" where
  "resolve_channel desktop item employee =
     (let channels = sendable_channels desktop;
          pref = text_or (case employee of None \<Rightarrow> None | Some e \<Rightarrow> emp_preferred_channel e) [];
          pref = (if pref \<in> set channels then [pref] else []);
          order = pref @ filter (\<lambda>c. c \<notin> set pref) channels
      in case first_row (\<lambda>c. text_or (contact_for c item employee) [] \<noteq> []) order of
           Some c \<Rightarrow> c
         | None \<Rightarrow> hd (pref @ channels))"

subsection \<open>Facts\<close>

lemma digit_not_separator: "is_ascii_digit c \<Longrightarrow> \<not> is_separator c"
  by (auto simp: is_ascii_digit_def ascii_digits_def is_separator_def is_space_def white_space_def)

lemma digits_kept: "list_all is_ascii_digit v \<Longrightarrow> filter (\<lambda>c. \<not> is_separator c) v = v"
  by (induction v) (auto simp: digit_not_separator)

lemma starts_with_Cons: "starts_with [c] v \<longleftrightarrow> (\<exists>w. v = c # w)"
  by (cases v) (auto simp: starts_with_def)

lemma plus_not_digit: "\<not> is_ascii_digit (CHR ''+'')"
  by (simp add: is_ascii_digit_def ascii_digits_def)

lemma digit_literals: "list_all is_ascii_digit ''233''" "is_ascii_digit (CHR ''0'')"
  by (simp_all add: is_ascii_digit_def ascii_digits_def)

definition mobile_national :: "string \<Rightarrow> bool" where
  "mobile_national m \<longleftrightarrow> length m = 9 \<and> list_all is_ascii_digit m \<and> take 2 m \<in> set GH_MOBILE_PREFIXES"

lemma normalise_digits:
  assumes "list_all is_ascii_digit v" "v \<noteq> []"
  shows "normalise_gh_mobile v = (case national_number v of None \<Rightarrow> None
    | Some m \<Rightarrow> if take 2 m \<notin> set GH_MOBILE_PREFIXES then None else Some (''233'' @ m))"
proof -
  have "\<not> starts_with ''+'' v" using assms plus_not_digit by (cases v) (auto simp: starts_with_Cons)
  then show ?thesis using assms by (simp add: normalise_gh_mobile_def digits_kept Let_def)
qed

lemma normalise_Some:
  assumes "normalise_gh_mobile raw = Some n"
  shows "\<exists>m. n = ''233'' @ m \<and> mobile_national m"
proof -
  define v where "v = (if starts_with ''+'' (filter (\<lambda>c. \<not> is_separator c) raw) then drop 1 (filter (\<lambda>c. \<not> is_separator c) raw)
    else filter (\<lambda>c. \<not> is_separator c) raw)"
  have v: "list_all is_ascii_digit v" using assms by (auto simp: normalise_gh_mobile_def Let_def v_def split: if_splits)
  obtain m where m: "national_number v = Some m" "take 2 m \<in> set GH_MOBILE_PREFIXES" "n = ''233'' @ m"
    using assms by (auto simp: normalise_gh_mobile_def Let_def v_def split: if_splits option.splits)
  have "length m = 9" using m(1) by (auto simp: national_number_def split: if_splits)
  moreover have "list_all is_ascii_digit m"
    using m(1) v by (auto simp: national_number_def list_all_iff dest: in_set_dropD split: if_splits)
  ultimately show ?thesis using m by (auto simp: mobile_national_def)
qed

lemma normalise_forms:
  assumes "mobile_national m"
  shows "normalise_gh_mobile m = Some (''233'' @ m)" "normalise_gh_mobile (CHR ''0'' # m) = Some (''233'' @ m)"
    "normalise_gh_mobile (''233'' @ m) = Some (''233'' @ m)" "normalise_gh_mobile (CHR ''+'' # ''233'' @ m) = Some (''233'' @ m)"
proof -
  have m: "length m = 9" "list_all is_ascii_digit m" "take 2 m \<in> set GH_MOBILE_PREFIXES"
    using assms by (auto simp: mobile_national_def)
  show "normalise_gh_mobile m = Some (''233'' @ m)"
    using m by (subst normalise_digits) (auto simp: national_number_def)
  show "normalise_gh_mobile (CHR ''0'' # m) = Some (''233'' @ m)"
    using m digit_literals by (subst normalise_digits) (auto simp: national_number_def starts_with_def)
  show "normalise_gh_mobile (''233'' @ m) = Some (''233'' @ m)"
    using m digit_literals by (subst normalise_digits) (auto simp: national_number_def starts_with_def)
  have "filter (\<lambda>c. \<not> is_separator c) (CHR ''+'' # ''233'' @ m) = CHR ''+'' # ''233'' @ m"
    using m digit_literals digits_kept [of m]
    by (simp add: is_separator_def is_space_def white_space_def)
  then show "normalise_gh_mobile (CHR ''+'' # ''233'' @ m) = Some (''233'' @ m)"
    using m digit_literals by (simp add: normalise_gh_mobile_def starts_with_def national_number_def)
qed

text \<open>
  C30: a mobile number has one form.  Every number the sender accepts is stored as 233 followed
  by nine digits under a served network prefix; that form, its international spelling, its
  local spelling with the trunk zero and the bare nine digits a spreadsheet leaves behind are
  all accepted as the same number.
\<close>
theorem mobile_number_canonical:
  assumes "normalise_gh_mobile raw = Some n"
  shows "length n = 12 \<and> list_all is_ascii_digit n \<and> starts_with ''233'' n \<and> take 2 (drop 3 n) \<in> set GH_MOBILE_PREFIXES \<and>
    normalise_gh_mobile n = Some n \<and> normalise_gh_mobile (CHR ''+'' # n) = Some n \<and>
    normalise_gh_mobile (CHR ''0'' # drop 3 n) = Some n \<and> normalise_gh_mobile (drop 3 n) = Some n"
proof -
  obtain m where m: "n = ''233'' @ m" "mobile_national m" using normalise_Some [OF assms] by blast
  then show ?thesis using normalise_forms [OF m(2)] digit_literals
    by (simp add: mobile_national_def starts_with_def)
qed

theorem mobile_number_canonical_witness:
  "normalise_gh_mobile ''+233 (24) 123-4567'' = Some ''233241234567'' \<and> normalise_gh_mobile ''241234567'' = Some ''233241234567''"
proof -
  have "normalise_gh_mobile ''+233 (24) 123-4567'' = Some ''233241234567''" by code_simp
  from mobile_number_canonical [OF this] this show ?thesis by simp
qed

end
