(* ===== verification/Delivery.thy ===== *)
theory Delivery
  imports Contacts
begin

text \<open>
  Sending payslips: \<open>PayslipDelivery\<close> (\<open>app/models.py\<close>), the claim before every attempt and
  the send of a run (\<open>app/distribution/service.py\<close>), the recovery of stopped sends
  (\<open>recovery.py\<close>), the settling of unconfirmed ones (\<open>settle.py\<close>) and delivery reports
  (\<open>receipts.py\<close>).  Times are whole seconds.  What a provider answers is an argument: for each
  attempt whether the message could be prepared and the \<open>SendResult\<close> of the channel's sender.
\<close>

subsection \<open>Deliveries\<close>

definition DELIVERY_PENDING :: string where "DELIVERY_PENDING = ''pending''"
definition DELIVERY_SENDING :: string where "DELIVERY_SENDING = ''sending''"
definition DELIVERY_SENT :: string where "DELIVERY_SENT = ''sent''"
definition DELIVERY_FAILED :: string where "DELIVERY_FAILED = ''failed''"
definition DELIVERY_UNKNOWN :: string where "DELIVERY_UNKNOWN = ''unknown''"
definition DELIVERY_CANCELLED :: string where "DELIVERY_CANCELLED = ''cancelled''"

lemmas delivery_status_defs = DELIVERY_PENDING_def DELIVERY_SENDING_def DELIVERY_SENT_def DELIVERY_FAILED_def
  DELIVERY_UNKNOWN_def DELIVERY_CANCELLED_def

lemma delivery_status_neq [simp]: "distinct [DELIVERY_PENDING, DELIVERY_SENDING, DELIVERY_SENT, DELIVERY_FAILED, DELIVERY_UNKNOWN, DELIVERY_CANCELLED]"
  by (simp add: delivery_status_defs)

definition CLAIMABLE_FOR_SEND :: "string list" where
  "CLAIMABLE_FOR_SEND = [DELIVERY_PENDING, DELIVERY_FAILED, DELIVERY_CANCELLED]"
definition CLAIMABLE_FOR_RETRY :: "string list" where
  "CLAIMABLE_FOR_RETRY = [DELIVERY_FAILED]"
definition SKIPPED_BY_SEND :: "string list" where
  "SKIPPED_BY_SEND = [DELIVERY_SENT, DELIVERY_SENDING, DELIVERY_UNKNOWN]"

lemmas claimable_defs = CLAIMABLE_FOR_SEND_def CLAIMABLE_FOR_RETRY_def SKIPPED_BY_SEND_def

record payslip_delivery =
  pd_id :: int
  pd_item :: int
  pd_run :: int
  pd_batch :: "int option"
  pd_channel :: string
  pd_recipient :: "string option"
  pd_status :: string
  pd_provider :: "string option"
  pd_message_id :: "string option"
  pd_provider_status :: "string option"
  pd_delivered_at :: "int option"
  pd_error :: "string option"
  pd_attempts :: int
  pd_sent_at :: "int option"
  pd_next_retry_at :: "int option"
  pd_units :: "int option"
  pd_claimed_at :: "int option"
  pd_updated_at :: "int option"
  pd_created_at :: int

record send_result =
  sr_ok :: bool
  sr_provider :: string
  sr_error :: "string option"
  sr_message_id :: "string option"
  sr_units :: "int option"
  sr_retryable :: "bool option"
  sr_ambiguous :: bool

definition unset :: "string option \<Rightarrow> bool" where
  "unset x \<longleftrightarrow> text_or x [] = []"

text \<open>An SQL \<open>UPDATE ... WHERE\<close>: the rows after it, and whether exactly one row matched.\<close>

definition update_where :: "('a \<Rightarrow> bool) \<Rightarrow> ('a \<Rightarrow> 'a) \<Rightarrow> 'a list \<Rightarrow> 'a list \<times> bool" where
  "update_where p f rows = (map (\<lambda>x. if p x then f x else x) rows, length (filter p rows) = 1)"

subsection \<open>Outcomes\<close>

definition mark_sent :: "int \<Rightarrow> string \<Rightarrow> string option \<Rightarrow> int option \<Rightarrow> payslip_delivery \<Rightarrow> payslip_delivery" where
  "mark_sent now provider message_id units d =
     (let d = d\<lparr>pd_status := DELIVERY_SENT, pd_provider := Some provider, pd_error := None,
                pd_sent_at := Some now, pd_next_retry_at := None, pd_units := units\<rparr>
      in if unset message_id then d
         else d\<lparr>pd_message_id := message_id, pd_provider_status := None, pd_delivered_at := None\<rparr>)"

definition mark_failed ::
  "int \<Rightarrow> string option \<Rightarrow> string option \<Rightarrow> int \<Rightarrow> int \<Rightarrow> bool \<Rightarrow> payslip_delivery \<Rightarrow> payslip_delivery" where
  "mark_failed now error provider max_attempts backoff_base retry d =
     (let attempts = (if pd_attempts d = 0 then 1 else pd_attempts d)
      in d\<lparr>pd_status := DELIVERY_FAILED, pd_error := error, pd_provider := provider,
           pd_next_retry_at := (if retry \<and> attempts < max_attempts
                                then Some (now + backoff_base * 2 ^ nat (attempts - 1)) else None)\<rparr>)"

definition mark_unknown :: "string option \<Rightarrow> string option \<Rightarrow> payslip_delivery \<Rightarrow> payslip_delivery" where
  "mark_unknown error provider d =
     d\<lparr>pd_status := DELIVERY_UNKNOWN, pd_error := error, pd_provider := provider, pd_next_retry_at := None\<rparr>"

definition record_outcome :: "int \<Rightarrow> int \<Rightarrow> int \<Rightarrow> send_result \<Rightarrow> payslip_delivery \<Rightarrow> payslip_delivery" where
  "record_outcome now max_attempts backoff_base r d =
     (if sr_ok r then mark_sent now (sr_provider r) (sr_message_id r) (sr_units r) d
      else if sr_ambiguous r then mark_unknown (sr_error r) (Some (sr_provider r)) d
      else mark_failed now (sr_error r) (Some (sr_provider r)) max_attempts backoff_base (sr_retryable r \<noteq> Some False) d)"

text \<open>What an operator sees of a delivery's retries.\<close>

record retry_view =
  rv_attempts :: int
  rv_remaining :: int
  rv_final :: bool
  rv_will_retry :: bool

definition retry_state :: "int \<Rightarrow> payslip_delivery \<Rightarrow> retry_view" where
  "retry_state max_attempts d =
     (let is_failed = (pd_status d = DELIVERY_FAILED)
      in \<lparr>rv_attempts = pd_attempts d,
          rv_remaining = (if is_failed then max 0 (max_attempts - pd_attempts d) else 0),
          rv_final = (is_failed \<and> pd_next_retry_at d = None),
          rv_will_retry = (is_failed \<and> pd_next_retry_at d \<noteq> None)\<rparr>)"

subsection \<open>The claim, the recovery and the settlement\<close>

definition claim_delivery ::
  "int \<Rightarrow> int \<Rightarrow> string list \<Rightarrow> int option \<Rightarrow> bool \<Rightarrow> payslip_delivery list \<Rightarrow> payslip_delivery list \<times> bool" where
  "claim_delivery now delivery_id claimable batch_id require_scheduled_retry rows =
     update_where
       (\<lambda>d. pd_id d = delivery_id \<and> pd_status d \<in> set claimable \<and> (require_scheduled_retry \<longrightarrow> pd_next_retry_at d \<noteq> None))
       (\<lambda>d. d\<lparr>pd_status := DELIVERY_SENDING, pd_claimed_at := Some now, pd_attempts := pd_attempts d + 1,
              pd_batch := (case batch_id of None \<Rightarrow> pd_batch d | Some b \<Rightarrow> Some b)\<rparr>) rows"

definition STALE_CLAIM_MINUTES :: int where "STALE_CLAIM_MINUTES = 10"

definition claim_age_base :: "int \<Rightarrow> payslip_delivery \<Rightarrow> int" where
  "claim_age_base now d = (case pd_claimed_at d of Some t \<Rightarrow> t
     | None \<Rightarrow> (case pd_updated_at d of Some t \<Rightarrow> t | None \<Rightarrow> now))"

definition stale_claim :: "int \<Rightarrow> payslip_delivery \<Rightarrow> bool" where
  "stale_claim now d \<longleftrightarrow> pd_status d = DELIVERY_SENDING \<and> claim_age_base now d < now - 60 * STALE_CLAIM_MINUTES"

definition recover_one :: "payslip_delivery \<Rightarrow> payslip_delivery list \<Rightarrow> payslip_delivery list \<times> bool" where
  "recover_one seen rows =
     update_where (\<lambda>d. pd_id d = pd_id seen \<and> pd_status d = DELIVERY_SENDING \<and> pd_claimed_at d = pd_claimed_at seen)
       (\<lambda>d. d\<lparr>pd_status := DELIVERY_UNKNOWN, pd_next_retry_at := None,
              pd_error := Some ''Sending stopped mid-way; this message may have been sent.''\<rparr>) rows"

definition recover_stale_claims :: "int \<Rightarrow> payslip_delivery list \<Rightarrow> payslip_delivery list \<times> nat" where
  "recover_stale_claims now rows =
     foldl (\<lambda>(rows, changed) seen. (fst (recover_one seen rows), changed + (if snd (recover_one seen rows) then 1 else 0)))
       (rows, 0) (filter (stale_claim now) rows)"

datatype settle_outcome = Settle_sent | Settle_not_sent

definition settle_unknown :: "int \<Rightarrow> int \<Rightarrow> settle_outcome \<Rightarrow> payslip_delivery list \<Rightarrow> payslip_delivery list \<times> bool" where
  "settle_unknown now delivery_id outcome rows =
     update_where (\<lambda>d. pd_id d = delivery_id \<and> pd_status d = DELIVERY_UNKNOWN)
       (\<lambda>d. case outcome of
          Settle_sent \<Rightarrow> d\<lparr>pd_status := DELIVERY_SENT, pd_error := None, pd_next_retry_at := None,
            pd_sent_at := Some (case pd_claimed_at d of Some t \<Rightarrow> t | None \<Rightarrow> now)\<rparr>
        | Settle_not_sent \<Rightarrow> d\<lparr>pd_status := DELIVERY_FAILED, pd_next_retry_at := None,
            pd_error := Some ''Operator confirmed not sent (SasuSync portal)''\<rparr>) rows"

subsection \<open>Delivery reports\<close>

definition RECEIPT_DELIVERED :: string where "RECEIPT_DELIVERED = ''delivered''"
definition RECEIPT_READ :: string where "RECEIPT_READ = ''read''"
definition RECEIPT_FAILED :: string where "RECEIPT_FAILED = ''failed''"

definition receipt_success :: "string list" where
  "receipt_success = [''delivered'', ''read'', ''sent'', ''success'', ''delivrd'', ''0'', ''deliveredtohandset'']"
definition receipt_failure :: "string list" where
  "receipt_failure = [''failed'', ''undelivered'', ''undeliverable'', ''rejected'', ''expired'', ''error'']"

definition classify_receipt :: "string option \<Rightarrow> string option" where
  "classify_receipt raw =
     (let s = lower (strip (text_or raw []))
      in if s \<in> set receipt_success then Some (if s = ''read'' then RECEIPT_READ else RECEIPT_DELIVERED)
         else if s \<in> set receipt_failure then Some RECEIPT_FAILED else None)"

definition receipt_effect :: "int \<Rightarrow> string \<Rightarrow> string \<Rightarrow> string option \<Rightarrow> payslip_delivery \<Rightarrow> payslip_delivery" where
  "receipt_effect now outcome raw reason d =
     (let d = d\<lparr>pd_provider_status := Some outcome\<rparr>
      in if outcome = RECEIPT_DELIVERED \<or> outcome = RECEIPT_READ then d\<lparr>pd_delivered_at := Some now\<rparr>
         else if outcome = RECEIPT_FAILED
         then mark_failed now (Some (''provider reported '' @ raw @ (if unset reason then [] else '': '' @ text_or reason [])))
                None 3 60 False d
         else d)"

definition apply_receipt ::
  "int \<Rightarrow> string option \<Rightarrow> string option \<Rightarrow> string option \<Rightarrow> payslip_delivery list \<Rightarrow> payslip_delivery list \<times> int option" where
  "apply_receipt now message_id raw reason rows =
     (if unset message_id then (rows, None)
      else case first_row (\<lambda>d. pd_message_id d = message_id) rows of
        None \<Rightarrow> (rows, None)
      | Some d \<Rightarrow>
          (case classify_receipt raw of
             None \<Rightarrow> (rows, None)
           | Some outcome \<Rightarrow>
               (update_row pd_id (pd_id d) (receipt_effect now outcome (text_or raw []) reason) rows, Some (pd_id d))))"

fun apply_receipts ::
  "int \<Rightarrow> (string option \<times> string option \<times> string option) list \<Rightarrow> payslip_delivery list \<Rightarrow> payslip_delivery list \<times> nat" where
  "apply_receipts now [] rows = (rows, 0)"
| "apply_receipts now ((m, s, r) # rs) rows =
     (let (rows, hit) = apply_receipt now m s r rows; (rows, applied) = apply_receipts now rs rows
      in (rows, applied + (if hit = None then 0 else 1)))"

subsection \<open>One attempt\<close>

text \<open>
  The database a send works on.  \<open>sd_calls\<close> is not a table: it is the list of the deliveries
  a provider was called for, oldest first.
\<close>

record send_db =
  sd_items :: "payroll_item list"
  sd_runs :: "payroll_run list"
  sd_employees :: "raw_employee list"
  sd_deliveries :: "payslip_delivery list"
  sd_calls :: "int list"

record send_config =
  cfg_desktop :: bool
  cfg_max_attempts :: int
  cfg_backoff_base :: int

text \<open>What happens at an attempt: its time, whether the message is prepared, the provider's answer.\<close>

record attempt_world =
  aw_now :: int
  aw_prepared :: bool
  aw_result :: send_result

definition delivery_status :: "int \<Rightarrow> payslip_delivery list \<Rightarrow> string option" where
  "delivery_status k rows = map_option pd_status (first_row (\<lambda>d. pd_id d = k) rows)"

definition attempt_send ::
  "send_config \<Rightarrow> attempt_world \<Rightarrow> int \<Rightarrow> payroll_item \<Rightarrow> string \<Rightarrow> string list \<Rightarrow> int option \<Rightarrow> bool \<Rightarrow> send_db
    \<Rightarrow> send_db \<times> string option" where
  "attempt_send cfg w k item ch claimable batch_id require_scheduled db =
     (let (rows, won) = claim_delivery (aw_now w) k claimable batch_id require_scheduled (sd_deliveries db)
      in if \<not> won then (db\<lparr>sd_deliveries := rows\<rparr>, None)
         else
           let put = (\<lambda>f. update_row pd_id k f rows);
               fail = (\<lambda>message. mark_failed (aw_now w) (Some message) None (cfg_max_attempts cfg) (cfg_backoff_base cfg) False)
           in case recipient_for ch item (roster_employee_of (sd_employees db) (sd_runs db) item) of
                Inl problem \<Rightarrow>
                  (db\<lparr>sd_deliveries := put (\<lambda>d. fail
                     (case problem of Invalid_sms_number \<Rightarrow> ''invalid number on roster for sms''
                      | No_contact c \<Rightarrow> ''no contact on roster for '' @ c) (d\<lparr>pd_channel := ch, pd_recipient := None\<rparr>))\<rparr>,
                   Some DELIVERY_FAILED)
              | Inr recipient \<Rightarrow>
                  let addressed = (\<lambda>d. d\<lparr>pd_channel := ch, pd_recipient := Some recipient\<rparr>)
                  in if \<not> aw_prepared w
                     then (db\<lparr>sd_deliveries := put (\<lambda>d. fail ''could not prepare the message; nothing was sent'' (addressed d))\<rparr>,
                           Some DELIVERY_FAILED)
                     else
                       let rows = put (\<lambda>d. record_outcome (aw_now w) (cfg_max_attempts cfg) (cfg_backoff_base cfg)
                                             (aw_result w) (addressed d))
                       in (db\<lparr>sd_deliveries := rows, sd_calls := sd_calls db @ [k]\<rparr>, delivery_status k rows))"

subsection \<open>Sending a run\<close>

record send_summary =
  ss_total :: nat
  ss_sent :: nat
  ss_failed :: nat
  ss_unknown :: nat
  ss_skipped :: nat
  ss_failed_workers :: "int list"
  ss_unknown_workers :: "int list"

definition latest_delivery :: "int \<Rightarrow> string \<Rightarrow> payslip_delivery list \<Rightarrow> payslip_delivery option" where
  "latest_delivery item ch rows = max_row pd_created_at (filter (\<lambda>d. pd_item d = item \<and> pd_channel d = ch) rows)"

definition fresh_id :: "payslip_delivery list \<Rightarrow> int" where
  "fresh_id rows = 1 + foldr max (map pd_id rows) 0"

definition new_delivery :: "int \<Rightarrow> int \<Rightarrow> payroll_item \<Rightarrow> string \<Rightarrow> payslip_delivery" where
  "new_delivery now k item ch =
     \<lparr>pd_id = k, pd_item = item_id item, pd_run = item_run item, pd_batch = None, pd_channel = ch, pd_recipient = None,
      pd_status = DELIVERY_PENDING, pd_provider = None, pd_message_id = None, pd_provider_status = None,
      pd_delivered_at = None, pd_error = None, pd_attempts = 0, pd_sent_at = None, pd_next_retry_at = None,
      pd_units = None, pd_claimed_at = None, pd_updated_at = Some now, pd_created_at = now\<rparr>"

text \<open>The unique (item, channel) constraint: an existing row is returned instead.\<close>

definition insert_pending :: "int \<Rightarrow> payroll_item \<Rightarrow> string \<Rightarrow> payslip_delivery list \<Rightarrow> payslip_delivery list \<times> payslip_delivery" where
  "insert_pending now item ch rows =
     (case latest_delivery (item_id item) ch rows of
        Some d \<Rightarrow> (rows, d)
      | None \<Rightarrow> (rows @ [new_delivery now (fresh_id rows) item ch], new_delivery now (fresh_id rows) item ch))"

definition count_status :: "int \<Rightarrow> string option \<Rightarrow> send_summary \<Rightarrow> send_summary" where
  "count_status ref status s =
     (case status of
        None \<Rightarrow> s\<lparr>ss_skipped := ss_skipped s + 1\<rparr>
      | Some st \<Rightarrow>
          if st = DELIVERY_SENT then s\<lparr>ss_sent := ss_sent s + 1\<rparr>
          else if st = DELIVERY_UNKNOWN
          then s\<lparr>ss_unknown := ss_unknown s + 1, ss_unknown_workers := ss_unknown_workers s @ [ref]\<rparr>
          else s\<lparr>ss_failed := ss_failed s + 1, ss_failed_workers := ss_failed_workers s @ [ref]\<rparr>)"

definition distribute_item ::
  "send_config \<Rightarrow> (int \<Rightarrow> attempt_world) \<Rightarrow> string \<Rightarrow> bool \<Rightarrow> int option \<Rightarrow> send_db \<times> send_summary \<Rightarrow> payroll_item
    \<Rightarrow> send_db \<times> send_summary" where
  "distribute_item cfg world channel only_failed batch_id st item =
     (case st of (db, s) \<Rightarrow>
        let s = s\<lparr>ss_total := ss_total s + 1\<rparr>;
            w = world (item_id item);
            ch = (if channel = CHANNEL_AUTO
                  then resolve_channel (cfg_desktop cfg) item (roster_employee_of (sd_employees db) (sd_runs db) item)
                  else channel);
            existing = latest_delivery (item_id item) ch (sd_deliveries db);
            send = (\<lambda>db d claimable. let (db, status) = attempt_send cfg w (pd_id d) item ch claimable batch_id False db
                                     in (db, count_status (item_id item) status s))
        in if only_failed
           then (case existing of
                   None \<Rightarrow> (db, s\<lparr>ss_skipped := ss_skipped s + 1\<rparr>)
                 | Some d \<Rightarrow> if pd_status d \<noteq> DELIVERY_FAILED then (db, s\<lparr>ss_skipped := ss_skipped s + 1\<rparr>)
                             else send db d CLAIMABLE_FOR_RETRY)
           else (case existing of
                   Some d \<Rightarrow> if pd_status d \<in> set SKIPPED_BY_SEND then (db, s\<lparr>ss_skipped := ss_skipped s + 1\<rparr>)
                             else send db d CLAIMABLE_FOR_SEND
                 | None \<Rightarrow> (let (rows, d) = insert_pending (aw_now w) item ch (sd_deliveries db)
                            in send (db\<lparr>sd_deliveries := rows\<rparr>) d CLAIMABLE_FOR_SEND)))"

definition empty_summary :: send_summary where
  "empty_summary = \<lparr>ss_total = 0, ss_sent = 0, ss_failed = 0, ss_unknown = 0, ss_skipped = 0,
     ss_failed_workers = [], ss_unknown_workers = []\<rparr>"

definition distribute_run ::
  "send_config \<Rightarrow> (int \<Rightarrow> attempt_world) \<Rightarrow> int \<Rightarrow> string \<Rightarrow> bool \<Rightarrow> int option \<Rightarrow> send_db \<Rightarrow> send_db \<times> send_summary" where
  "distribute_run cfg world run channel only_failed batch_id db =
     foldl (distribute_item cfg world channel only_failed batch_id) (db, empty_summary) (items_of run (sd_items db))"

definition retry_delivery :: "send_config \<Rightarrow> attempt_world \<Rightarrow> payslip_delivery \<Rightarrow> send_db \<Rightarrow> send_db \<times> bool" where
  "retry_delivery cfg w d db =
     (if pd_status d \<noteq> DELIVERY_FAILED then (db, False)
      else case (first_row (\<lambda>i. item_id i = pd_item d) (sd_items db), first_row (\<lambda>r. run_id r = pd_run d) (sd_runs db)) of
        (Some item, Some run) \<Rightarrow>
          (let (db, status) = attempt_send cfg w (pd_id d) item (pd_channel d) CLAIMABLE_FOR_RETRY None True db
           in (db, status = Some DELIVERY_SENT))
      | _ \<Rightarrow> (db, False))"

subsection \<open>The state of a run's deliveries\<close>

definition latest_deliveries_by_item :: "int list \<Rightarrow> payslip_delivery list \<Rightarrow> int \<Rightarrow> payslip_delivery option" where
  "latest_deliveries_by_item ids rows i =
     (if i \<in> set ids then max_row pd_created_at (filter (\<lambda>d. pd_item d = i) rows) else None)"

end
