(* ===== verification/DeliverySafety.thy ===== *)
theory DeliverySafety
  imports Delivery
begin

text \<open>
  No payslip goes out twice.  The conditional updates of the delivery table share one
  contract, the locale \<open>guarded_update\<close>; from it the interleaving of any number of workers,
  operators and provider callbacks is a step relation over the very operations of
  \<open>Delivery\<close>, whose log never shows a second provider call for a delivery while an earlier
  one may have gone out.
\<close>

subsection \<open>Guarded updates\<close>

locale guarded_update =
  fixes upd :: "'k \<Rightarrow> 'r list \<Rightarrow> 'r list \<times> bool" and key :: "'r \<Rightarrow> 'k" and open_row :: "'r \<Rightarrow> bool"
  assumes keeps_keys: "map key (fst (upd k rows)) = map key rows"
    and won_iff: "distinct (map key rows) \<Longrightarrow> snd (upd k rows) \<longleftrightarrow> (\<exists>r\<in>set rows. key r = k \<and> open_row r)"
    and lost_same: "distinct (map key rows) \<Longrightarrow> \<not> snd (upd k rows) \<Longrightarrow> fst (upd k rows) = rows"
    and others_same: "r \<in> set (fst (upd k rows)) \<Longrightarrow> key r \<noteq> k \<Longrightarrow> r \<in> set rows"
    and closes: "r \<in> set (fst (upd k rows)) \<Longrightarrow> key r = k \<Longrightarrow> \<not> open_row r"
begin

lemma second_loses:
  assumes "distinct (map key rows)" "snd (upd k rows)"
  shows "\<not> snd (upd k (fst (upd k rows)))" and "fst (upd k (fst (upd k rows))) = fst (upd k rows)"
proof -
  have d: "distinct (map key (fst (upd k rows)))" using assms(1) by (simp add: keeps_keys)
  then show "\<not> snd (upd k (fst (upd k rows)))" using closes by (auto simp: won_iff)
  then show "fst (upd k (fst (upd k rows))) = fst (upd k rows)" using d by (rule lost_same [rotated])
qed

lemma idempotent:
  assumes "distinct (map key rows)"
  shows "fst (upd k (fst (upd k rows))) = fst (upd k rows)"
  using assms second_loses(2) lost_same by (cases "snd (upd k rows)") auto

end

lemma update_where_key:
  assumes "\<And>x. p x \<Longrightarrow> key (f x) = key x"
  shows "map key (fst (update_where p f rows)) = map key rows"
  using assms by (auto simp: update_where_def)

lemma filter_key_at_most_one:
  assumes "distinct (map key rows)" "\<And>x. p x \<Longrightarrow> key x = k"
  shows "length (filter p rows) \<le> 1"
  using assms by (induction rows) (auto simp: filter_empty_conv)

lemma update_where_won:
  assumes "distinct (map key rows)" "\<And>x. p x \<Longrightarrow> key x = k"
  shows "snd (update_where p f rows) \<longleftrightarrow> (\<exists>x\<in>set rows. p x)"
proof -
  have "length (filter p rows) \<le> 1" by (rule filter_key_at_most_one [OF assms])
  then have "length (filter p rows) = 1 \<longleftrightarrow> filter p rows \<noteq> []"
    by (cases "filter p rows") auto
  then show ?thesis by (auto simp: update_where_def filter_empty_conv)
qed

lemma update_where_same: "(\<And>x. x \<in> set rows \<Longrightarrow> \<not> p x) \<Longrightarrow> fst (update_where p f rows) = rows"
  by (simp add: update_where_def map_idI)

lemma guarded_update_where:
  assumes "\<And>k x. p k x \<longleftrightarrow> key x = k \<and> open_row x" "\<And>k x. p k x \<Longrightarrow> key (f x) = key x \<and> \<not> open_row (f x)"
  shows "guarded_update (\<lambda>k. update_where (p k) f) key open_row"
proof
  fix k rows r
  show "map key (fst (update_where (p k) f rows)) = map key rows"
    using assms(2) by (intro update_where_key) auto
  show won: "snd (update_where (p k) f rows) \<longleftrightarrow> (\<exists>r\<in>set rows. key r = k \<and> open_row r)" if "distinct (map key rows)"
    using update_where_won [OF that, of "p k" k f] assms(1) by auto
  show "fst (update_where (p k) f rows) = rows" if "distinct (map key rows)" "\<not> snd (update_where (p k) f rows)"
    using won [OF that(1)] that(2) assms(1) by (intro update_where_same) auto
  show "r \<in> set rows" if "r \<in> set (fst (update_where (p k) f rows))" "key r \<noteq> k"
  proof -
    from that(1) obtain x where x: "x \<in> set rows" "r = (if p k x then f x else x)"
      by (auto simp: update_where_def)
    then show ?thesis using assms(1,2) [of k x] that(2) by (auto split: if_splits)
  qed
  show "\<not> open_row r" if "r \<in> set (fst (update_where (p k) f rows))" "key r = k"
  proof -
    from that(1) obtain x where x: "x \<in> set rows" "r = (if p k x then f x else x)"
      by (auto simp: update_where_def)
    then show ?thesis using assms(1,2) [of k x] that(2) by (auto split: if_splits)
  qed
qed

text \<open>The claim for a send, the claim of the automatic retry and the settlement keep the contract.\<close>

definition sendable_row :: "payslip_delivery \<Rightarrow> bool" where
  "sendable_row d \<longleftrightarrow> pd_status d \<in> set CLAIMABLE_FOR_SEND"

definition retry_row :: "payslip_delivery \<Rightarrow> bool" where
  "retry_row d \<longleftrightarrow> pd_status d \<in> set CLAIMABLE_FOR_RETRY \<and> pd_next_retry_at d \<noteq> None"

definition unsettled_row :: "payslip_delivery \<Rightarrow> bool" where
  "unsettled_row d \<longleftrightarrow> pd_status d = DELIVERY_UNKNOWN"

interpretation send_claim: guarded_update "\<lambda>k. claim_delivery now k CLAIMABLE_FOR_SEND batch False" pd_id sendable_row for now batch
  unfolding claim_delivery_def
  by (rule guarded_update_where) (auto simp: sendable_row_def claimable_defs delivery_status_defs)

interpretation retry_claim: guarded_update "\<lambda>k. claim_delivery now k CLAIMABLE_FOR_RETRY batch True" pd_id retry_row for now batch
  unfolding claim_delivery_def
  by (rule guarded_update_where) (auto simp: retry_row_def claimable_defs delivery_status_defs)

interpretation settlement: guarded_update "\<lambda>k. settle_unknown now k outcome" pd_id unsettled_row for now outcome
  unfolding settle_unknown_def
  by (rule guarded_update_where) (auto simp: unsettled_row_def delivery_status_defs split: settle_outcome.split)

lemma claim_keys [simp]:
  "map pd_id (fst (claim_delivery now k claimable batch sched rows)) = map pd_id rows"
  unfolding claim_delivery_def by (rule update_where_key) simp

text \<open>Whatever the earlier claim was, a later one finds the row in flight.\<close>

lemma claimed_sending:
  assumes "distinct (map pd_id rows)" "snd (claim_delivery now k claimable batch sched rows)"
    "d \<in> set (fst (claim_delivery now k claimable batch sched rows))" "pd_id d = k"
  shows "pd_status d = DELIVERY_SENDING \<and> pd_claimed_at d = Some now"
proof -
  define p :: "payslip_delivery \<Rightarrow> bool" where
    "p d \<longleftrightarrow> pd_id d = k \<and> pd_status d \<in> set claimable \<and> (sched \<longrightarrow> pd_next_retry_at d \<noteq> None)" for d
  have p: "(\<lambda>d. pd_id d = k \<and> pd_status d \<in> set claimable \<and> (sched \<longrightarrow> pd_next_retry_at d \<noteq> None)) = p"
    by (rule ext) (simp add: p_def)
  have "snd (update_where p f rows) \<longleftrightarrow> (\<exists>x\<in>set rows. p x)" for f
    by (rule update_where_won [OF assms(1)]) (simp add: p_def)
  then obtain x where x: "x \<in> set rows" "p x"
    using assms(2) unfolding claim_delivery_def p by blast
  obtain y where y: "y \<in> set rows" "d = (if p y then y\<lparr>pd_status := DELIVERY_SENDING, pd_claimed_at := Some now,
      pd_attempts := pd_attempts y + 1, pd_batch := (case batch of None \<Rightarrow> pd_batch y | Some b \<Rightarrow> Some b)\<rparr> else y)"
    using assms(3) unfolding claim_delivery_def p update_where_def by auto
  then have "pd_id y = k" using assms(4) by (auto split: if_splits)
  then have "y = x" using assms(1) x y(1) by (auto simp: p_def distinct_map dest: inj_onD)
  then show ?thesis using x y by simp
qed

lemma claim_in_flight_loses:
  assumes "distinct (map pd_id rows)" "\<And>d. d \<in> set rows \<Longrightarrow> pd_id d = k \<Longrightarrow> pd_status d \<notin> set claimable"
  shows "\<not> snd (claim_delivery now k claimable batch sched rows)"
proof -
  have "\<not> (\<exists>x\<in>set rows. pd_id x = k \<and> pd_status x \<in> set claimable \<and> (sched \<longrightarrow> pd_next_retry_at x \<noteq> None))"
    using assms(2) by blast
  then show ?thesis
    unfolding claim_delivery_def by (subst update_where_won [OF assms(1), where k = k]) auto
qed

text \<open>
  One claimant per attempt.  When two workers, in any mix of batch send, resend and
  automatic retry, claim the same delivery one after the other, at most one of them is told
  to send it.
\<close>
theorem one_claimant:
  assumes "distinct (map pd_id rows)"
    "claimable1 \<in> {CLAIMABLE_FOR_SEND, CLAIMABLE_FOR_RETRY}" "claimable2 \<in> {CLAIMABLE_FOR_SEND, CLAIMABLE_FOR_RETRY}"
    "snd (claim_delivery now1 k claimable1 batch1 sched1 rows)"
  shows "\<not> snd (claim_delivery now2 k claimable2 batch2 sched2 (fst (claim_delivery now1 k claimable1 batch1 sched1 rows)))"
proof (rule claim_in_flight_loses)
  show "distinct (map pd_id (fst (claim_delivery now1 k claimable1 batch1 sched1 rows)))"
    using assms(1) by (simp add: claim_keys)
  show "pd_status d \<notin> set claimable2"
    if "d \<in> set (fst (claim_delivery now1 k claimable1 batch1 sched1 rows))" "pd_id d = k" for d
    using claimed_sending [OF assms(1,4) that] assms(3) by (auto simp: claimable_defs delivery_status_defs)
qed

lemma one_claimant_witness:
  "\<not> snd (claim_delivery 9 1 CLAIMABLE_FOR_RETRY None False (fst (claim_delivery 5 1 CLAIMABLE_FOR_SEND None False
     [(undefined :: payslip_delivery)\<lparr>pd_id := 1, pd_status := DELIVERY_PENDING\<rparr>])))"
  by (rule one_claimant) (simp_all add: claim_delivery_def update_where_def CLAIMABLE_FOR_SEND_def)

subsection \<open>Workers, operators and providers interleaved\<close>

text \<open>
  A live attempt is a worker between its claim and its outcome: the row, the time of the claim
  and the provider's answer once it was called.  The log, newest first, records every provider
  call and every later word that the message of the latest call did not go out.
  \<open>sy_current\<close> holds the deliveries whose stored message id is the one of their latest attempt.
  A cancellation and a delivery report read a row first and write it, by its id alone, when they
  commit: \<open>sy_cancels\<close> and \<open>sy_reports\<close> hold what was read and not yet written.
\<close>

record attempt =
  at_row :: int
  at_claimed :: int
  at_answer :: "send_result option"

datatype history = Called int | Refuted int

record send_system =
  sy_rows :: "payslip_delivery list"
  sy_live :: "attempt list"
  sy_now :: int
  sy_log :: "history list"
  sy_current :: "int set"
  sy_cancels :: "int set list"
  sy_reports :: "(int \<times> string option \<times> string option \<times> string option) list"

fun outstanding :: "int \<Rightarrow> history list \<Rightarrow> bool" where
  "outstanding k [] = False"
| "outstanding k (Called j # h) = (j = k \<or> outstanding k h)"
| "outstanding k (Refuted j # h) = (j \<noteq> k \<and> outstanding k h)"

fun no_double :: "history list \<Rightarrow> bool" where
  "no_double [] = True"
| "no_double (Called k # h) = (\<not> outstanding k h \<and> no_double h)"
| "no_double (Refuted k # h) = no_double h"

definition may_be_out :: "string \<Rightarrow> bool" where
  "may_be_out status \<longleftrightarrow> status \<in> set SKIPPED_BY_SEND"

definition not_sent :: "send_result \<Rightarrow> bool" where
  "not_sent r \<longleftrightarrow> \<not> sr_ok r \<and> \<not> sr_ambiguous r"

text \<open>The rows a cancellation selects, and what it writes to them.\<close>

definition waiting_retries :: "int \<Rightarrow> payslip_delivery list \<Rightarrow> int set" where
  "waiting_retries run rows =
     pd_id ` set (filter (\<lambda>d. pd_run d = run \<and> pd_status d = DELIVERY_FAILED \<and> pd_next_retry_at d \<noteq> None) rows)"

definition cancel_retry :: "int set \<Rightarrow> payslip_delivery \<Rightarrow> payslip_delivery" where
  "cancel_retry ids d = (if pd_id d \<in> ids then d\<lparr>pd_status := DELIVERY_CANCELLED, pd_next_retry_at := None\<rparr> else d)"

text \<open>
  A write is timely: a report is about the latest message of its delivery, or the delivery may
  not be out; none of the deliveries a cancellation read may be out when it writes, which holds
  unless one of them was claimed in between.
\<close>

definition current_report :: "send_system \<Rightarrow> int \<Rightarrow> string option \<Rightarrow> bool" where
  "current_report s k message \<longleftrightarrow> k \<in> sy_current s \<and> (\<forall>d\<in>set (sy_rows s). pd_id d = k \<longrightarrow> pd_message_id d = message)"

definition timely_report :: "send_system \<Rightarrow> int \<Rightarrow> string option \<Rightarrow> bool" where
  "timely_report s k message \<longleftrightarrow>
     current_report s k message \<or> (\<forall>d\<in>set (sy_rows s). pd_id d = k \<longrightarrow> \<not> may_be_out (pd_status d))"

definition timely_cancel :: "send_system \<Rightarrow> int set \<Rightarrow> bool" where
  "timely_cancel s ids \<longleftrightarrow> (\<forall>d\<in>set (sy_rows s). pd_id d \<in> ids \<longrightarrow> \<not> may_be_out (pd_status d))"

text \<open>
  The steps.  A live attempt is never older than the stale window (\<open>tick\<close>): a provider call is
  capped at thirty seconds, the window is ten minutes, and a worker that dies leaves by
  \<open>crash\<close>.  With \<open>guard_reports\<close> the delivery reports are written while timely, with \<open>guard_cancels\<close>
  the cancellations are.
\<close>

inductive send_step :: "bool \<Rightarrow> bool \<Rightarrow> send_system \<Rightarrow> send_system \<Rightarrow> bool" for guard_reports guard_cancels where
  insert: "insert_pending now item ch (sy_rows s) = (rows, d) \<Longrightarrow> send_step guard_reports guard_cancels s (s\<lparr>sy_rows := rows\<rparr>)"
| claim: "claimable \<in> {CLAIMABLE_FOR_SEND, CLAIMABLE_FOR_RETRY} \<Longrightarrow>
    claim_delivery (sy_now s) k claimable batch sched (sy_rows s) = (rows, True) \<Longrightarrow>
    send_step guard_reports guard_cancels s (s\<lparr>sy_rows := rows, sy_live := \<lparr>at_row = k, at_claimed = sy_now s, at_answer = None\<rparr> # sy_live s,
      sy_current := sy_current s - {k}\<rparr>)"
| refuse: "a \<in> set (sy_live s) \<Longrightarrow> at_answer a = None \<Longrightarrow>
    send_step guard_reports guard_cancels s (s\<lparr>sy_rows := update_row pd_id (at_row a)
        (\<lambda>d. mark_failed (sy_now s) err None m b False (d\<lparr>pd_channel := ch, pd_recipient := r\<rparr>)) (sy_rows s),
      sy_live := remove1 a (sy_live s)\<rparr>)"
| call: "a \<in> set (sy_live s) \<Longrightarrow> at_answer a = None \<Longrightarrow>
    send_step guard_reports guard_cancels s (s\<lparr>sy_live := a\<lparr>at_answer := Some res\<rparr> # remove1 a (sy_live s), sy_log := Called (at_row a) # sy_log s\<rparr>)"
| outcome: "a \<in> set (sy_live s) \<Longrightarrow> at_answer a = Some res \<Longrightarrow>
    send_step guard_reports guard_cancels s (s\<lparr>sy_rows := update_row pd_id (at_row a)
        (\<lambda>d. record_outcome (sy_now s) m b res (d\<lparr>pd_channel := ch, pd_recipient := r\<rparr>)) (sy_rows s),
      sy_live := remove1 a (sy_live s),
      sy_log := (if not_sent res then Refuted (at_row a) # sy_log s else sy_log s),
      sy_current := (if sr_ok res \<and> \<not> unset (sr_message_id res) then insert (at_row a) (sy_current s) else sy_current s)\<rparr>)"
| crash: "a \<in> set (sy_live s) \<Longrightarrow> send_step guard_reports guard_cancels s (s\<lparr>sy_live := remove1 a (sy_live s)\<rparr>)"
| recover: "send_step guard_reports guard_cancels s (s\<lparr>sy_rows := fst (recover_stale_claims (sy_now s) (sy_rows s))\<rparr>)"
| settle: "settle_unknown (sy_now s) k verdict (sy_rows s) = (rows, won) \<Longrightarrow>
    send_step guard_reports guard_cancels s (s\<lparr>sy_rows := rows,
      sy_log := (if won \<and> verdict = Settle_not_sent then Refuted k # sy_log s else sy_log s)\<rparr>)"
| read_cancel: "send_step guard_reports guard_cancels s (s\<lparr>sy_cancels := waiting_retries run (sy_rows s) # sy_cancels s\<rparr>)"
| write_cancel: "ids \<in> set (sy_cancels s) \<Longrightarrow> (guard_cancels \<Longrightarrow> timely_cancel s ids) \<Longrightarrow>
    send_step guard_reports guard_cancels s
      (s\<lparr>sy_rows := map (cancel_retry ids) (sy_rows s), sy_cancels := remove1 ids (sy_cancels s)\<rparr>)"
| read_report: "apply_receipt (sy_now s) message raw reason (sy_rows s) = (rows, Some k) \<Longrightarrow>
    send_step guard_reports guard_cancels s (s\<lparr>sy_reports := (k, message, raw, reason) # sy_reports s\<rparr>)"
| write_report: "(k, message, raw, reason) \<in> set (sy_reports s) \<Longrightarrow> classify_receipt raw = Some verdict \<Longrightarrow>
    (guard_reports \<Longrightarrow> timely_report s k message) \<Longrightarrow>
    send_step guard_reports guard_cancels s
      (s\<lparr>sy_rows := update_row pd_id k (receipt_effect (sy_now s) verdict (text_or raw []) reason) (sy_rows s),
         sy_reports := remove1 (k, message, raw, reason) (sy_reports s),
         sy_log := (if verdict = RECEIPT_FAILED \<and> current_report s k message then Refuted k # sy_log s else sy_log s)\<rparr>)"
| tick: "sy_now s \<le> t \<Longrightarrow> \<forall>a\<in>set (sy_live s). t \<le> at_claimed a + 60 * STALE_CLAIM_MINUTES \<Longrightarrow>
    send_step guard_reports guard_cancels s (s\<lparr>sy_now := t\<rparr>)"

definition empty_system :: send_system where
  "empty_system = \<lparr>sy_rows = [], sy_live = [], sy_now = 0, sy_log = [], sy_current = {}, sy_cancels = [], sy_reports = []\<rparr>"

inductive send_reachable :: "bool \<Rightarrow> bool \<Rightarrow> send_system \<Rightarrow> bool" for guard_reports guard_cancels where
  start: "send_reachable guard_reports guard_cancels empty_system"
| step: "send_reachable guard_reports guard_cancels s \<Longrightarrow> send_step guard_reports guard_cancels s s' \<Longrightarrow>
    send_reachable guard_reports guard_cancels s'"

subsection \<open>The invariant\<close>

definition in_flight :: "send_system \<Rightarrow> attempt \<Rightarrow> bool" where
  "in_flight s a \<longleftrightarrow> sy_now s \<le> at_claimed a + 60 * STALE_CLAIM_MINUTES \<and> at_row a \<notin> sy_current s \<and>
     (\<exists>d\<in>set (sy_rows s). pd_id d = at_row a \<and> pd_status d = DELIVERY_SENDING \<and> pd_claimed_at d = Some (at_claimed a)) \<and>
     (at_answer a = None \<longrightarrow> \<not> outstanding (at_row a) (sy_log s))"

definition send_inv :: "send_system \<Rightarrow> bool" where
  "send_inv s \<longleftrightarrow> distinct (map pd_id (sy_rows s)) \<and> distinct (map at_row (sy_live s)) \<and>
     (\<forall>a\<in>set (sy_live s). in_flight s a) \<and>
     (\<forall>k. outstanding k (sy_log s) \<longrightarrow> (\<exists>d\<in>set (sy_rows s). pd_id d = k \<and> may_be_out (pd_status d))) \<and>
     no_double (sy_log s)"

lemma send_inv_reads [simp]:
  "send_inv (s\<lparr>sy_cancels := cs\<rparr>) = send_inv s" "send_inv (s\<lparr>sy_reports := rs\<rparr>) = send_inv s"
  "send_inv (s\<lparr>sy_rows := rows, sy_cancels := cs\<rparr>) = send_inv (s\<lparr>sy_rows := rows\<rparr>)"
  "send_inv (s\<lparr>sy_rows := rows, sy_reports := rs, sy_log := hist\<rparr>) = send_inv (s\<lparr>sy_rows := rows, sy_log := hist\<rparr>)"
  by (simp_all add: send_inv_def in_flight_def)

lemma same_row: "distinct (map pd_id rows) \<Longrightarrow> d \<in> set rows \<Longrightarrow> d' \<in> set rows \<Longrightarrow> pd_id d = pd_id d' \<Longrightarrow> d = d'"
  by (auto simp: distinct_map dest: inj_onD)

text \<open>Most steps rewrite rows in place and retire attempts.\<close>

lemma send_inv_rows:
  assumes inv: "send_inv s" and rows: "rows = map h (sy_rows s)" "\<And>d. pd_id (h d) = pd_id d"
    and live: "set live \<subseteq> set (sy_live s)" "distinct (map at_row live)"
    and hist: "\<And>k. outstanding k hist \<Longrightarrow> outstanding k (sy_log s)" "no_double hist"
    and keep: "\<And>a d. a \<in> set live \<Longrightarrow> d \<in> set (sy_rows s) \<Longrightarrow> pd_id d = at_row a \<Longrightarrow> pd_status d = DELIVERY_SENDING \<Longrightarrow>
      pd_claimed_at d = Some (at_claimed a) \<Longrightarrow> pd_status (h d) = DELIVERY_SENDING \<and> pd_claimed_at (h d) = pd_claimed_at d"
    and out: "\<And>d. d \<in> set (sy_rows s) \<Longrightarrow> outstanding (pd_id d) hist \<Longrightarrow> may_be_out (pd_status d) \<Longrightarrow> may_be_out (pd_status (h d))"
    and cur: "\<And>a. a \<in> set live \<Longrightarrow> at_row a \<notin> cur"
  shows "send_inv (s\<lparr>sy_rows := rows, sy_live := live, sy_log := hist, sy_current := cur\<rparr>)"
  unfolding send_inv_def
proof (intro conjI ballI allI impI)
  show "distinct (map pd_id (sy_rows (s\<lparr>sy_rows := rows, sy_live := live, sy_log := hist, sy_current := cur\<rparr>)))"
    using inv by (simp add: send_inv_def rows comp_def)
  show "distinct (map at_row (sy_live (s\<lparr>sy_rows := rows, sy_live := live, sy_log := hist, sy_current := cur\<rparr>)))"
    "no_double (sy_log (s\<lparr>sy_rows := rows, sy_live := live, sy_log := hist, sy_current := cur\<rparr>))"
    using live hist by simp_all
  show "in_flight (s\<lparr>sy_rows := rows, sy_live := live, sy_log := hist, sy_current := cur\<rparr>) a"
    if "a \<in> set (sy_live (s\<lparr>sy_rows := rows, sy_live := live, sy_log := hist, sy_current := cur\<rparr>))" for a
  proof -
    have a: "a \<in> set live" "in_flight s a" using that live inv by (auto simp: send_inv_def)
    then obtain d where d: "d \<in> set (sy_rows s)" "pd_id d = at_row a" "pd_status d = DELIVERY_SENDING"
      "pd_claimed_at d = Some (at_claimed a)" by (auto simp: in_flight_def)
    then have "h d \<in> set rows" "pd_id (h d) = at_row a" "pd_status (h d) = DELIVERY_SENDING"
      "pd_claimed_at (h d) = Some (at_claimed a)" using keep [OF a(1) d] rows by auto
    then show ?thesis using a cur hist(1) by (fastforce simp: in_flight_def)
  qed
  show "\<exists>d\<in>set (sy_rows (s\<lparr>sy_rows := rows, sy_live := live, sy_log := hist, sy_current := cur\<rparr>)).
      pd_id d = k \<and> may_be_out (pd_status d)"
    if k: "outstanding k (sy_log (s\<lparr>sy_rows := rows, sy_live := live, sy_log := hist, sy_current := cur\<rparr>))" for k
  proof -
    have "outstanding k (sy_log s)" using k hist(1) by simp
    then obtain d where "d \<in> set (sy_rows s)" "pd_id d = k" "may_be_out (pd_status d)"
      using inv by (auto simp: send_inv_def)
    then show ?thesis using out [of d] k rows by fastforce
  qed
qed

lemma out_statuses [simp]:
  "may_be_out DELIVERY_SENT" "may_be_out DELIVERY_SENDING" "may_be_out DELIVERY_UNKNOWN"
  "\<not> may_be_out DELIVERY_FAILED" "\<not> may_be_out DELIVERY_PENDING" "\<not> may_be_out DELIVERY_CANCELLED"
  by (simp_all add: may_be_out_def claimable_defs delivery_status_defs)

lemma mark_frame [simp]:
  "pd_id (mark_failed now e p m b r d) = pd_id d" "pd_status (mark_failed now e p m b r d) = DELIVERY_FAILED"
  "pd_claimed_at (mark_failed now e p m b r d) = pd_claimed_at d"
  "pd_id (record_outcome now m b res d) = pd_id d"
  "pd_status (record_outcome now m b res d) =
     (if sr_ok res then DELIVERY_SENT else if sr_ambiguous res then DELIVERY_UNKNOWN else DELIVERY_FAILED)"
  by (simp_all add: mark_failed_def record_outcome_def mark_sent_def mark_unknown_def Let_def)

lemma receipt_frame [simp]:
  "pd_id (receipt_effect now o1 raw reason d) = pd_id d" "pd_claimed_at (receipt_effect now o1 raw reason d) = pd_claimed_at d"
  "pd_status (receipt_effect now o1 raw reason d) = (if o1 = RECEIPT_FAILED then DELIVERY_FAILED else pd_status d)"
  by (simp_all add: receipt_effect_def Let_def RECEIPT_FAILED_def RECEIPT_DELIVERED_def RECEIPT_READ_def)

lemma inv_rows_simp: "s\<lparr>sy_rows := rows, sy_live := sy_live s, sy_log := sy_log s, sy_current := sy_current s\<rparr> = s\<lparr>sy_rows := rows\<rparr>"
  by simp

lemma inv_parts:
  assumes "send_inv s"
  shows "distinct (map pd_id (sy_rows s))" "distinct (map at_row (sy_live s))" "no_double (sy_log s)"
    "a \<in> set (sy_live s) \<Longrightarrow> in_flight s a"
  using assms by (auto simp: send_inv_def)

lemma inv_out: "send_inv s \<Longrightarrow> outstanding k (sy_log s) \<Longrightarrow> \<exists>d\<in>set (sy_rows s). pd_id d = k \<and> may_be_out (pd_status d)"
  by (simp add: send_inv_def)

lemma live_current: "send_inv s \<Longrightarrow> a \<in> set (sy_live s) \<Longrightarrow> at_row a \<notin> sy_current s"
  using inv_parts(4) by (auto simp: in_flight_def)

lemma live_row:
  assumes "send_inv s" "a \<in> set (sy_live s)" "d \<in> set (sy_rows s)" "pd_id d = at_row a"
  shows "pd_status d = DELIVERY_SENDING \<and> pd_claimed_at d = Some (at_claimed a)"
  using inv_parts [OF assms(1)] assms(2-4) same_row [of "sy_rows s" d] unfolding in_flight_def by metis

lemma remove_live:
  assumes "send_inv s"
  shows "set (remove1 a (sy_live s)) = set (sy_live s) - {a}" "distinct (map at_row (remove1 a (sy_live s)))"
    "b \<in> set (remove1 a (sy_live s)) \<Longrightarrow> a \<in> set (sy_live s) \<Longrightarrow> at_row b \<noteq> at_row a"
proof -
  have d: "distinct (map at_row (sy_live s))" using inv_parts(2) [OF assms] .
  then have "distinct (sy_live s)" by (simp add: distinct_map)
  then show s: "set (remove1 a (sy_live s)) = set (sy_live s) - {a}" by simp
  show "distinct (map at_row (remove1 a (sy_live s)))"
    using d by (auto simp: distinct_map distinct_remove1 intro: inj_on_subset)
  show "at_row b \<noteq> at_row a" if "b \<in> set (remove1 a (sy_live s))" "a \<in> set (sy_live s)"
    using d s that by (auto simp: distinct_map dest: inj_onD)
qed

subsection \<open>Every step keeps it\<close>

lemma update_row_as_map: "update_row key k f rows = map (\<lambda>x. if key x = k then f x else x) rows"
  by (simp add: update_row_def)

lemma no_double_Refuted [simp]: "no_double (if c then Refuted k # h else h) = no_double h"
  by simp

lemma outstanding_Refuted: "outstanding k (if c then Refuted j # h else h) \<Longrightarrow> outstanding k h"
  by (auto split: if_splits)

text \<open>A step that rewrites the row of a live attempt and retires it.\<close>

lemma send_inv_retire:
  assumes inv: "send_inv s" and a: "a \<in> set (sy_live s)" and f: "\<And>d. pd_id (f d) = pd_id d"
    and hist: "\<And>k. outstanding k hist \<Longrightarrow> outstanding k (sy_log s)" "no_double hist"
    and out: "\<And>d. outstanding (at_row a) hist \<Longrightarrow> may_be_out (pd_status (f d))"
    and cur: "cur \<subseteq> insert (at_row a) (sy_current s)"
  shows "send_inv (s\<lparr>sy_rows := update_row pd_id (at_row a) f (sy_rows s), sy_live := remove1 a (sy_live s),
    sy_log := hist, sy_current := cur\<rparr>)"
proof (rule send_inv_rows [OF inv update_row_as_map])
  show "set (remove1 a (sy_live s)) \<subseteq> set (sy_live s)" "distinct (map at_row (remove1 a (sy_live s)))"
    using remove_live [OF inv, of a] by auto
  show "pd_status (if pd_id d = at_row a then f d else d) = DELIVERY_SENDING \<and>
      pd_claimed_at (if pd_id d = at_row a then f d else d) = pd_claimed_at d"
    if "b \<in> set (remove1 a (sy_live s))" "pd_id d = at_row b" "pd_status d = DELIVERY_SENDING" for b d
    using remove_live(3) [OF inv that(1) a] that by simp
  show "at_row b \<notin> cur" if "b \<in> set (remove1 a (sy_live s))" for b
    using remove_live(3) [OF inv that a] remove_live(1) [OF inv, of a] live_current [OF inv, of b] cur that by auto
qed (use f hist out in auto)

lemma inv_refuse:
  assumes inv: "send_inv s" and a: "a \<in> set (sy_live s)" "at_answer a = None"
  shows "send_inv (s\<lparr>sy_rows := update_row pd_id (at_row a)
        (\<lambda>d. mark_failed (sy_now s) err None m b False (d\<lparr>pd_channel := ch, pd_recipient := r\<rparr>)) (sy_rows s),
      sy_live := remove1 a (sy_live s)\<rparr>)"
proof -
  have n: "\<not> outstanding (at_row a) (sy_log s)" using inv_parts(4) [OF inv a(1)] a(2) by (simp add: in_flight_def)
  have "send_inv (s\<lparr>sy_rows := update_row pd_id (at_row a)
        (\<lambda>d. mark_failed (sy_now s) err None m b False (d\<lparr>pd_channel := ch, pd_recipient := r\<rparr>)) (sy_rows s),
      sy_live := remove1 a (sy_live s), sy_log := sy_log s, sy_current := sy_current s\<rparr>)"
    by (rule send_inv_retire [OF inv a(1)]) (use n inv_parts(3) [OF inv] in auto)
  then show ?thesis by simp
qed

lemma inv_outcome:
  assumes inv: "send_inv s" and a: "a \<in> set (sy_live s)"
  shows "send_inv (s\<lparr>sy_rows := update_row pd_id (at_row a)
        (\<lambda>d. record_outcome (sy_now s) m b res (d\<lparr>pd_channel := ch, pd_recipient := r\<rparr>)) (sy_rows s),
      sy_live := remove1 a (sy_live s),
      sy_log := (if not_sent res then Refuted (at_row a) # sy_log s else sy_log s),
      sy_current := (if sr_ok res \<and> \<not> unset (sr_message_id res) then insert (at_row a) (sy_current s) else sy_current s)\<rparr>)"
  by (rule send_inv_retire [OF inv a]) (use inv_parts(3) [OF inv] in \<open>auto simp: not_sent_def split: if_splits\<close>)

lemma inv_crash: "send_inv s \<Longrightarrow> send_inv (s\<lparr>sy_live := remove1 a (sy_live s)\<rparr>)"
  using send_inv_rows [of s "sy_rows s" "\<lambda>d. d" "remove1 a (sy_live s)" "sy_log s" "sy_current s"]
    remove_live [of s a] inv_parts(3) [of s] live_current [of s] by simp

text \<open>A step that rewrites rows without touching the attempts.\<close>

lemma send_inv_table:
  assumes inv: "send_inv s" and rows: "rows = map h (sy_rows s)" "\<And>d. pd_id (h d) = pd_id d"
    and keep: "\<And>a d. a \<in> set (sy_live s) \<Longrightarrow> d \<in> set (sy_rows s) \<Longrightarrow> pd_id d = at_row a \<Longrightarrow> pd_status d = DELIVERY_SENDING \<Longrightarrow>
      pd_claimed_at d = Some (at_claimed a) \<Longrightarrow> h d = d"
    and out: "\<And>d. d \<in> set (sy_rows s) \<Longrightarrow> may_be_out (pd_status d) \<Longrightarrow> \<not> (c \<and> pd_id d = k) \<Longrightarrow> may_be_out (pd_status (h d))"
  shows "send_inv (s\<lparr>sy_rows := rows, sy_log := (if c then Refuted k # sy_log s else sy_log s)\<rparr>)"
proof -
  have "send_inv (s\<lparr>sy_rows := rows, sy_live := sy_live s, sy_log := (if c then Refuted k # sy_log s else sy_log s),
      sy_current := sy_current s\<rparr>)"
  proof (rule send_inv_rows [OF inv rows])
    show "may_be_out (pd_status (h d))"
      if "d \<in> set (sy_rows s)" "outstanding (pd_id d) (if c then Refuted k # sy_log s else sy_log s)" "may_be_out (pd_status d)" for d
      using that by (intro out) (auto split: if_splits)
    show "pd_status (h d) = DELIVERY_SENDING \<and> pd_claimed_at (h d) = pd_claimed_at d"
      if "a \<in> set (sy_live s)" "d \<in> set (sy_rows s)" "pd_id d = at_row a" "pd_status d = DELIVERY_SENDING"
        "pd_claimed_at d = Some (at_claimed a)" for a d
      using keep [OF that] that(4) by simp
    show "outstanding j (sy_log s)" if "outstanding j (if c then Refuted k # sy_log s else sy_log s)" for j
      using that by (rule outstanding_Refuted)
    show "no_double (if c then Refuted k # sy_log s else sy_log s)" using inv_parts(3) [OF inv] by simp
    show "distinct (map at_row (sy_live s))" by (rule inv_parts(2) [OF inv])
    show "at_row a \<notin> sy_current s" if "a \<in> set (sy_live s)" for a using live_current [OF inv that] .
  qed simp
  then show ?thesis by simp
qed

lemma send_inv_table_quiet:
  assumes inv: "send_inv s" and rows: "rows = map h (sy_rows s)" "\<And>d. pd_id (h d) = pd_id d"
    and keep: "\<And>a d. a \<in> set (sy_live s) \<Longrightarrow> d \<in> set (sy_rows s) \<Longrightarrow> pd_id d = at_row a \<Longrightarrow> pd_status d = DELIVERY_SENDING \<Longrightarrow>
      pd_claimed_at d = Some (at_claimed a) \<Longrightarrow> h d = d"
    and out: "\<And>d. d \<in> set (sy_rows s) \<Longrightarrow> may_be_out (pd_status d) \<Longrightarrow> may_be_out (pd_status (h d))"
  shows "send_inv (s\<lparr>sy_rows := rows\<rparr>)"
proof -
  have "send_inv (s\<lparr>sy_rows := rows, sy_log := (if False then Refuted 0 # sy_log s else sy_log s)\<rparr>)"
    by (rule send_inv_table [OF inv rows keep]) (assumption+, rule out)
  then show ?thesis by simp
qed

lemma inv_cancel:
  assumes inv: "send_inv s" and timely: "timely_cancel s ids"
  shows "send_inv (s\<lparr>sy_rows := map (cancel_retry ids) (sy_rows s), sy_cancels := cs\<rparr>)"
proof -
  have "send_inv (s\<lparr>sy_rows := map (cancel_retry ids) (sy_rows s)\<rparr>)"
  proof (rule send_inv_table_quiet [OF inv refl])
    show "cancel_retry ids d = d" if "d \<in> set (sy_rows s)" "pd_status d = DELIVERY_SENDING" for d
      using timely that by (auto simp: timely_cancel_def cancel_retry_def)
    show "may_be_out (pd_status (cancel_retry ids d))" if "d \<in> set (sy_rows s)" "may_be_out (pd_status d)" for d
      using timely that by (auto simp: timely_cancel_def cancel_retry_def)
  qed (simp add: cancel_retry_def)
  then show ?thesis by (simp only: send_inv_reads)
qed

lemma inv_settle:
  assumes inv: "send_inv s" and upd: "settle_unknown (sy_now s) k verdict (sy_rows s) = (rows, won)"
  shows "send_inv (s\<lparr>sy_rows := rows, sy_log := (if won \<and> verdict = Settle_not_sent then Refuted k # sy_log s else sy_log s)\<rparr>)"
proof -
  define h where "h d = (if pd_id d = k \<and> pd_status d = DELIVERY_UNKNOWN then (case verdict of
      Settle_sent \<Rightarrow> d\<lparr>pd_status := DELIVERY_SENT, pd_error := None, pd_next_retry_at := None,
        pd_sent_at := Some (case pd_claimed_at d of Some t \<Rightarrow> t | None \<Rightarrow> sy_now s)\<rparr>
    | Settle_not_sent \<Rightarrow> d\<lparr>pd_status := DELIVERY_FAILED, pd_next_retry_at := None,
        pd_error := Some ''Operator confirmed not sent (SasuSync portal)''\<rparr>) else d)" for d :: payslip_delivery
  have rows: "rows = map h (sy_rows s)" using upd by (auto simp: settle_unknown_def update_where_def h_def [abs_def])
  have won: "won \<longleftrightarrow> (\<exists>d\<in>set (sy_rows s). pd_id d = k \<and> unsettled_row d)"
    using settlement.won_iff [OF inv_parts(1) [OF inv], of "sy_now s" k verdict] upd by simp
  show ?thesis
  proof (rule send_inv_table [OF inv rows])
    show "pd_id (h d) = pd_id d" for d by (simp add: h_def split: settle_outcome.split)
    show "h d = d" if "pd_status d = DELIVERY_SENDING" for d using that by (simp add: h_def delivery_status_defs)
    show "may_be_out (pd_status (h d))"
      if "d \<in> set (sy_rows s)" "may_be_out (pd_status d)" "\<not> ((won \<and> verdict = Settle_not_sent) \<and> pd_id d = k)" for d
      using that won by (cases verdict) (auto simp: h_def unsettled_row_def)
  qed
qed

lemma inv_report:
  assumes inv: "send_inv s" and timely: "timely_report s k message"
  shows "send_inv (s\<lparr>sy_rows := update_row pd_id k (receipt_effect (sy_now s) verdict raw reason) (sy_rows s), sy_reports := rs,
      sy_log := (if verdict = RECEIPT_FAILED \<and> current_report s k message then Refuted k # sy_log s else sy_log s)\<rparr>)"
proof -
  have notlive: "at_row a \<noteq> k" if "a \<in> set (sy_live s)" for a
    using timely live_current [OF inv that] inv_parts(4) [OF inv that]
    unfolding timely_report_def current_report_def in_flight_def by fastforce
  let ?h = "\<lambda>d. if pd_id d = k then receipt_effect (sy_now s) verdict raw reason d else d"
  have "send_inv (s\<lparr>sy_rows := map ?h (sy_rows s),
      sy_log := (if verdict = RECEIPT_FAILED \<and> current_report s k message then Refuted k # sy_log s else sy_log s)\<rparr>)"
  proof (rule send_inv_table [OF inv refl])
    show "pd_id (?h d) = pd_id d" for d by simp
    show "?h d = d" if "a \<in> set (sy_live s)" "pd_id d = at_row a" for a d using notlive that by simp
    show "may_be_out (pd_status (?h d))"
      if "d \<in> set (sy_rows s)" "may_be_out (pd_status d)" "\<not> ((verdict = RECEIPT_FAILED \<and> current_report s k message) \<and> pd_id d = k)" for d
      using that timely by (auto simp: timely_report_def)
  qed
  then show ?thesis by (simp only: send_inv_reads update_row_as_map)
qed

lemma recover_as_map:
  "\<exists>h. fst (foldl (\<lambda>(rows, changed) seen. (fst (recover_one seen rows), changed + (if snd (recover_one seen rows) then 1 else (0 :: nat))))
       (rows, n) seens) = map h rows \<and>
     (\<forall>d. pd_id (h d) = pd_id d \<and> (h d = d \<or> pd_status (h d) = DELIVERY_UNKNOWN \<and> pd_status d = DELIVERY_SENDING \<and>
        (\<exists>seen\<in>set seens. pd_id seen = pd_id d \<and> pd_claimed_at seen = pd_claimed_at d)))"
proof (induction seens arbitrary: rows n)
  case Nil
  then show ?case by (intro exI [of _ "\<lambda>d. d"]) simp
next
  case (Cons seen seens)
  define g where "g d = (if pd_id d = pd_id seen \<and> pd_status d = DELIVERY_SENDING \<and> pd_claimed_at d = pd_claimed_at seen
    then d\<lparr>pd_status := DELIVERY_UNKNOWN, pd_next_retry_at := None,
      pd_error := Some ''Sending stopped mid-way; this message may have been sent.''\<rparr> else d)" for d :: payslip_delivery
  have one: "fst (recover_one seen rows) = map g rows" by (auto simp: recover_one_def update_where_def g_def [abs_def])
  obtain h where h: "fst (foldl (\<lambda>(rows, changed) seen. (fst (recover_one seen rows), changed + (if snd (recover_one seen rows) then 1 else 0)))
       (map g rows, n + (if snd (recover_one seen rows) then 1 else 0)) seens) = map h (map g rows)"
    and hd: "\<And>d. pd_id (h d) = pd_id d \<and> (h d = d \<or> pd_status (h d) = DELIVERY_UNKNOWN \<and> pd_status d = DELIVERY_SENDING \<and>
        (\<exists>seen\<in>set seens. pd_id seen = pd_id d \<and> pd_claimed_at seen = pd_claimed_at d))"
    using Cons.IH [of "map g rows" "n + (if snd (recover_one seen rows) then 1 else 0)"] by blast
  have g: "pd_id (g d) = pd_id d \<and> (g d = d \<or> pd_status (g d) = DELIVERY_UNKNOWN \<and> pd_status d = DELIVERY_SENDING \<and>
      pd_id seen = pd_id d \<and> pd_claimed_at seen = pd_claimed_at d)" for d
    by (simp add: g_def)
  have unk: "DELIVERY_UNKNOWN \<noteq> DELIVERY_SENDING" by (simp add: delivery_status_defs)
  have "pd_id (h (g d)) = pd_id d \<and> (h (g d) = d \<or> pd_status (h (g d)) = DELIVERY_UNKNOWN \<and> pd_status d = DELIVERY_SENDING \<and>
      (\<exists>s\<in>set (seen # seens). pd_id s = pd_id d \<and> pd_claimed_at s = pd_claimed_at d))" for d
    using hd [of "g d"] g [of d] unk by (metis list.set_intros(1) list.set_intros(2))
  then show ?case using h one by (intro exI [of _ "h \<circ> g"]) simp
qed

lemma inv_recover:
  assumes inv: "send_inv s"
  shows "send_inv (s\<lparr>sy_rows := fst (recover_stale_claims (sy_now s) (sy_rows s))\<rparr>)"
proof -
  obtain h where rows: "fst (recover_stale_claims (sy_now s) (sy_rows s)) = map h (sy_rows s)"
    and h: "\<And>d. pd_id (h d) = pd_id d \<and> (h d = d \<or> pd_status (h d) = DELIVERY_UNKNOWN \<and> pd_status d = DELIVERY_SENDING \<and>
      (\<exists>seen\<in>set (filter (stale_claim (sy_now s)) (sy_rows s)). pd_id seen = pd_id d \<and> pd_claimed_at seen = pd_claimed_at d))"
    unfolding recover_stale_claims_def using recover_as_map by blast
  have fresh: "h d = d" if "a \<in> set (sy_live s)" "d \<in> set (sy_rows s)" "pd_id d = at_row a" "pd_claimed_at d = Some (at_claimed a)" for a d
  proof (rule ccontr)
    assume "h d \<noteq> d"
    then obtain seen where "stale_claim (sy_now s) seen" "pd_claimed_at seen = pd_claimed_at d" using h [of d] by auto
    then show False using inv_parts(4) [OF inv that(1)] that(4) by (simp add: stale_claim_def claim_age_base_def in_flight_def)
  qed
  show ?thesis unfolding rows
  proof (rule send_inv_table_quiet [OF inv refl])
    show "pd_id (h d) = pd_id d" for d using h [of d] by simp
    show "may_be_out (pd_status (h d))" if "may_be_out (pd_status d)" for d using h [of d] that by auto
  qed (rule fresh)
qed

lemma inv_tick:
  assumes "send_inv s" "\<forall>a\<in>set (sy_live s). t \<le> at_claimed a + 60 * STALE_CLAIM_MINUTES"
  shows "send_inv (s\<lparr>sy_now := t\<rparr>)"
  using assms by (simp add: send_inv_def in_flight_def)

lemma inv_call:
  assumes inv: "send_inv s" and a: "a \<in> set (sy_live s)" "at_answer a = None"
  shows "send_inv (s\<lparr>sy_live := a\<lparr>at_answer := Some res\<rparr> # remove1 a (sy_live s), sy_log := Called (at_row a) # sy_log s\<rparr>)"
proof -
  let ?s = "s\<lparr>sy_live := a\<lparr>at_answer := Some res\<rparr> # remove1 a (sy_live s), sy_log := Called (at_row a) # sy_log s\<rparr>"
  have fa: "in_flight s a" by (rule inv_parts(4) [OF inv a(1)])
  have "in_flight ?s (a\<lparr>at_answer := Some res\<rparr>)" using fa by (simp add: in_flight_def)
  moreover have "in_flight ?s b" if "b \<in> set (remove1 a (sy_live s))" for b
  proof -
    have "in_flight s b" using that remove_live(1) [OF inv, of a] inv_parts(4) [OF inv, of b] by auto
    moreover have "at_row b \<noteq> at_row a" by (rule remove_live(3) [OF inv that a(1)])
    ultimately show ?thesis by (simp add: in_flight_def)
  qed
  moreover have "distinct (map at_row (sy_live ?s))"
    using remove_live(2) [OF inv, of a] remove_live(3) [OF inv _ a(1)] by fastforce
  moreover have "no_double (sy_log ?s)"
    using inv_parts(3) [OF inv] fa a(2) by (simp add: in_flight_def)
  moreover have "\<exists>d\<in>set (sy_rows ?s). pd_id d = k \<and> may_be_out (pd_status d)" if "outstanding k (sy_log ?s)" for k
  proof (cases "k = at_row a")
    case True
    then show ?thesis using fa by (auto simp: in_flight_def)
  next
    case False
    then show ?thesis using that inv by (simp add: send_inv_def)
  qed
  ultimately show ?thesis using inv_parts(1) [OF inv] by (simp add: send_inv_def)
qed

lemma fresh_id_new: "fresh_id rows \<notin> pd_id ` set rows"
proof -
  have "pd_id d \<le> foldr max (map pd_id rows) 0" if "d \<in> set rows" for d
    using that by (induction rows) auto
  then show ?thesis by (force simp: fresh_id_def)
qed

lemma inv_insert:
  assumes inv: "send_inv s" and ins: "insert_pending now item ch (sy_rows s) = (rows, d)"
  shows "send_inv (s\<lparr>sy_rows := rows\<rparr>)"
proof (cases "latest_delivery (item_id item) ch (sy_rows s)")
  case (Some x)
  then have "rows = sy_rows s" using ins by (simp add: insert_pending_def)
  then show ?thesis using inv by simp
next
  case None
  then have rows: "rows = sy_rows s @ [new_delivery now (fresh_id (sy_rows s)) item ch]"
    using ins by (auto simp: insert_pending_def)
  have "in_flight (s\<lparr>sy_rows := rows\<rparr>) a" if "a \<in> set (sy_live s)" for a
    using inv_parts(4) [OF inv that] by (auto simp: in_flight_def rows)
  moreover have "distinct (map pd_id rows)"
    using inv_parts(1) [OF inv] fresh_id_new [of "sy_rows s"] by (simp add: rows new_delivery_def)
  ultimately show ?thesis using inv by (auto simp: send_inv_def rows)
qed

lemma inv_claim:
  assumes inv: "send_inv s" and cl: "claimable \<in> {CLAIMABLE_FOR_SEND, CLAIMABLE_FOR_RETRY}"
    and upd: "claim_delivery (sy_now s) k claimable batch sched (sy_rows s) = (rows, True)"
  shows "send_inv (s\<lparr>sy_rows := rows, sy_live := \<lparr>at_row = k, at_claimed = sy_now s, at_answer = None\<rparr> # sy_live s,
      sy_current := sy_current s - {k}\<rparr>)" (is "send_inv ?s")
proof -
  define p where "p d \<longleftrightarrow> pd_id d = k \<and> pd_status d \<in> set claimable \<and> (sched \<longrightarrow> pd_next_retry_at d \<noteq> None)"
    for d :: payslip_delivery
  define h where "h d = (if p d then d\<lparr>pd_status := DELIVERY_SENDING, pd_claimed_at := Some (sy_now s),
      pd_attempts := pd_attempts d + 1, pd_batch := (case batch of None \<Rightarrow> pd_batch d | Some b \<Rightarrow> Some b)\<rparr> else d)"
    for d :: payslip_delivery
  have rows: "rows = map h (sy_rows s)"
    using upd by (simp add: claim_delivery_def update_where_def h_def [abs_def] p_def)
  have D: "distinct (map pd_id (sy_rows s))" by (rule inv_parts(1) [OF inv])
  have won: "snd (claim_delivery (sy_now s) k claimable batch sched (sy_rows s))" using upd by simp
  obtain d where d: "d \<in> set (sy_rows s)" "pd_id d = k" "pd_status d \<in> set claimable"
    using claim_in_flight_loses [OF D] won by blast
  have claimable: "\<not> may_be_out x" if "x \<in> set claimable" for x
    using that cl by (auto simp: claimable_defs)
  have idle: "\<not> outstanding k (sy_log s)"
  proof
    assume "outstanding k (sy_log s)"
    from inv_out [OF inv this] obtain x where "x \<in> set (sy_rows s)" "pd_id x = k" "may_be_out (pd_status x)" by blast
    then show False using same_row [OF D, of x d] d claimable by auto
  qed
  have other: "at_row a \<noteq> k" if "a \<in> set (sy_live s)" for a
  proof
    assume "at_row a = k"
    then have "pd_status d = DELIVERY_SENDING" using live_row [OF inv that d(1)] d(2) by simp
    then show False using claimable [OF d(3)] by simp
  qed
  have "h d \<in> set rows" using d(1) rows by simp
  moreover have "pd_id (h d) = k" using d(2) by (simp add: h_def)
  ultimately have new: "\<exists>x\<in>set rows. pd_id x = k \<and> pd_status x = DELIVERY_SENDING \<and> pd_claimed_at x = Some (sy_now s)"
    using claimed_sending [OF D won, of "h d"] upd by auto
  have ids: "pd_id (h x) = pd_id x" and frame: "pd_id x \<noteq> k \<Longrightarrow> h x = x" for x by (simp_all add: h_def p_def)
  have "in_flight ?s \<lparr>at_row = k, at_claimed = sy_now s, at_answer = None\<rparr>"
    using new idle by (simp add: in_flight_def STALE_CLAIM_MINUTES_def)
  moreover have "in_flight ?s a" if a: "a \<in> set (sy_live s)" for a
  proof -
    obtain x where "x \<in> set (sy_rows s)" "pd_id x = at_row a" "pd_status x = DELIVERY_SENDING" "pd_claimed_at x = Some (at_claimed a)"
      using inv_parts(4) [OF inv a] by (auto simp: in_flight_def)
    then have "x \<in> set rows" using frame [of x] other [OF a] rows by force
    then show ?thesis using inv_parts(4) [OF inv a] \<open>pd_id x = at_row a\<close> \<open>pd_status x = DELIVERY_SENDING\<close>
      \<open>pd_claimed_at x = Some (at_claimed a)\<close> by (auto simp: in_flight_def)
  qed
  moreover have "\<exists>x\<in>set rows. pd_id x = j \<and> may_be_out (pd_status x)" if "outstanding j (sy_log s)" for j
  proof -
    have "\<exists>x\<in>set (sy_rows s). pd_id x = j \<and> may_be_out (pd_status x)" by (rule inv_out [OF inv that])
    then obtain x where x: "x \<in> set (sy_rows s)" "pd_id x = j" "may_be_out (pd_status x)" by blast
    moreover have "j \<noteq> k" using idle that by auto
    ultimately show ?thesis using frame [of x] rows by force
  qed
  moreover have "distinct (map pd_id rows)" using D by (simp add: rows ids comp_def)
  moreover have "distinct (map at_row (sy_live ?s))" using inv_parts(2) [OF inv] other by auto
  ultimately show ?thesis using inv_parts(3) [OF inv] unfolding send_inv_def by simp
qed

lemma send_inv_step: "send_step True True s s' \<Longrightarrow> send_inv s \<Longrightarrow> send_inv s'"
proof (induction rule: send_step.induct)
  case (insert now item ch s rows d)
  then show ?case by (rule inv_insert [rotated])
next
  case (claim claimable s k batch sched rows)
  then show ?case by (intro inv_claim)
next
  case (refuse a s err m b ch r)
  then show ?case by (intro inv_refuse)
next
  case (call a s res)
  then show ?case by (intro inv_call)
next
  case (outcome a s res m b ch r)
  then show ?case by (intro inv_outcome)
next
  case (write_cancel ids s)
  then show ?case by (intro inv_cancel) auto
next
  case (write_report k message raw reason s verdict)
  then show ?case by (intro inv_report) auto
next
  case (tick s t)
  then show ?case by (intro inv_tick)
qed (simp_all add: inv_crash inv_recover inv_settle)

lemma send_reachable_inv: "send_reachable True True s \<Longrightarrow> send_inv s"
proof (induction rule: send_reachable.induct)
  case start
  then show ?case by (simp add: empty_system_def send_inv_def)
next
  case (step s s')
  then show ?case by (blast intro: send_inv_step)
qed

subsection \<open>No payslip twice\<close>

text \<open>Histories of one delivery, for the concrete runs.\<close>

definition one_row :: "payslip_delivery \<Rightarrow> attempt list \<Rightarrow> history list \<Rightarrow> int set \<Rightarrow> int set list \<Rightarrow> send_system" where
  "one_row d live hist cur cancels =
     \<lparr>sy_rows = [d], sy_live = live, sy_now = 0, sy_log = hist, sy_current = cur, sy_cancels = cancels, sy_reports = []\<rparr>"

definition attempt_of :: "send_result option \<Rightarrow> attempt" where
  "attempt_of res = \<lparr>at_row = 1, at_claimed = 0, at_answer = res\<rparr>"

lemma reach_inserted:
  obtains d where "send_reachable g h (one_row d [] [] {} [])" "pd_id d = 1" "pd_status d = DELIVERY_PENDING" "pd_attempts d = 0"
proof -
  obtain item :: payroll_item where True by simp
  have "insert_pending 0 item ''sms'' [] = ([new_delivery 0 1 item ''sms''], new_delivery 0 1 item ''sms'')"
    by (simp add: insert_pending_def latest_delivery_def fresh_id_def)
  from send_reachable.step [OF send_reachable.start send_step.insert, of 0 item "''sms''"] this
  have "send_reachable g h (one_row (new_delivery 0 1 item ''sms'') [] [] {} [])" by (simp add: empty_system_def one_row_def)
  then show thesis by (rule that) (simp_all add: new_delivery_def)
qed

lemma reach_called:
  assumes r: "send_reachable g h (one_row d live hist cur cs)" and d: "pd_id d = 1" "pd_status d \<in> set CLAIMABLE_FOR_SEND"
  obtains d' where "send_reachable g h (one_row d' (attempt_of (Some res) # live) (Called 1 # hist) (cur - {1}) cs)"
    "pd_id d' = 1" "pd_status d' = DELIVERY_SENDING" "pd_message_id d' = pd_message_id d" "pd_attempts d' = pd_attempts d + 1"
proof -
  obtain d' where upd: "claim_delivery 0 1 CLAIMABLE_FOR_SEND None False [d] = ([d'], True)"
    and d': "pd_id d' = 1" "pd_status d' = DELIVERY_SENDING" "pd_message_id d' = pd_message_id d" "pd_attempts d' = pd_attempts d + 1"
    using d by (simp add: claim_delivery_def update_where_def)
  have "send_reachable g h (one_row d' (attempt_of None # live) hist (cur - {1}) cs)"
    using send_reachable.step [OF r send_step.claim [of CLAIMABLE_FOR_SEND "one_row d live hist cur cs" 1 None False "[d']"]] upd
    by (simp add: one_row_def attempt_of_def)
  from send_reachable.step [OF this send_step.call [where a = "attempt_of None" and res = res]]
  have "send_reachable g h (one_row d' (attempt_of (Some res) # live) (Called 1 # hist) (cur - {1}) cs)"
    by (simp add: one_row_def attempt_of_def)
  then show thesis by (rule that [OF _ d'])
qed

definition accepted :: send_result where
  "accepted = \<lparr>sr_ok = True, sr_provider = ''sms'', sr_error = None, sr_message_id = Some ''m1'', sr_units = None,
     sr_retryable = None, sr_ambiguous = False\<rparr>"

lemma reach_sent:
  assumes r: "send_reachable g h (one_row d [attempt_of (Some accepted)] hist cur cs)" and d: "pd_id d = 1"
  obtains d' where "send_reachable g h (one_row d' [] hist (insert 1 cur) cs)" "pd_id d' = 1" "pd_message_id d' = Some ''m1''"
proof -
  let ?d = "record_outcome 0 3 60 accepted (d\<lparr>pd_channel := ''sms'', pd_recipient := None\<rparr>)"
  have "send_reachable g h (one_row ?d [] hist (insert 1 cur) cs)"
    using send_reachable.step [OF r send_step.outcome [where a = "attempt_of (Some accepted)" and res = accepted
        and m = 3 and b = 60 and ch = "''sms''" and r = None]] d
    by (simp add: one_row_def attempt_of_def update_row_def not_sent_def accepted_def unset_def text_or_def)
  then show thesis
    by (rule that) (simp_all add: d record_outcome_def mark_sent_def accepted_def unset_def text_or_def)
qed

lemma reach_failure_report:
  assumes r: "send_reachable g h (one_row d live hist cur cs)" and d: "pd_id d = 1" "pd_message_id d = Some ''m1''"
    and g: "g \<Longrightarrow> 1 \<in> cur"
  obtains d' where "send_reachable g h (one_row d' live (if 1 \<in> cur then Refuted 1 # hist else hist) cur cs)"
    "pd_id d' = 1" "pd_status d' = DELIVERY_FAILED" "pd_message_id d' = Some ''m1''"
proof -
  have c: "classify_receipt (Some ''failed'') = Some RECEIPT_FAILED"
    by (simp add: classify_receipt_def text_or_def receipt_success_def receipt_failure_def text_eval)
  let ?d = "receipt_effect 0 RECEIPT_FAILED ''failed'' None d"
  let ?report = "(1, Some ''m1'', Some ''failed'', None)"
  have upd: "apply_receipt 0 (Some ''m1'') (Some ''failed'') None [d] = ([?d], Some 1)"
    using d by (simp add: apply_receipt_def c unset_def text_or_def update_row_def)
  have "send_reachable g h ((one_row d live hist cur cs)\<lparr>sy_reports := [?report]\<rparr>)"
    using send_reachable.step [OF r send_step.read_report [where message = "Some ''m1''" and raw = "Some ''failed''"
        and reason = None and rows = "[?d]" and k = 1]] upd
    by (simp add: one_row_def)
  from send_reachable.step [OF this send_step.write_report [where k = 1 and message = "Some ''m1''" and raw = "Some ''failed''"
        and reason = None and verdict = RECEIPT_FAILED]] c d g
  have "send_reachable g h (one_row ?d live (if 1 \<in> cur then Refuted 1 # hist else hist) cur cs)"
    by (simp add: one_row_def timely_report_def current_report_def update_row_def text_or_def split: if_splits)
  then show thesis
    by (rule that) (simp_all add: d receipt_effect_def mark_failed_def RECEIPT_FAILED_def RECEIPT_DELIVERED_def RECEIPT_READ_def)
qed

text \<open>
  C26: no payslip twice.  Whatever workers, resends, automatic retries, recoveries, settlements,
  cancellations and delivery reports interleave, a provider is called for a delivery only when
  every earlier message of it is known not to have gone out: the provider refused it, reported
  it undelivered, or an operator settled it as not sent.  Two writes that the code makes
  without looking at the row again must be timely: a delivery report is about the latest message,
  and no delivery that a cancellation read was claimed before the cancellation is written.
\<close>
theorem no_double_send:
  assumes "send_reachable True True s"
  shows "no_double (sy_log s)"
  by (rule inv_parts(3) [OF send_reachable_inv [OF assms]])

lemma no_double_send_witness:
  "\<exists>s. send_reachable True True s \<and> sy_log s = [Called 1, Refuted 1, Called 1] \<and> no_double (sy_log s)"
proof -
  obtain d0 where 0: "send_reachable True True (one_row d0 [] [] {} [])" "pd_id d0 = 1" "pd_status d0 = DELIVERY_PENDING"
    by (rule reach_inserted)
  have "pd_status d0 \<in> set CLAIMABLE_FOR_SEND" by (simp add: 0 CLAIMABLE_FOR_SEND_def)
  from reach_called [OF 0(1,2) this, of accepted]
  obtain d1 where 1: "send_reachable True True (one_row d1 [attempt_of (Some accepted)] [Called 1] {} [])" "pd_id d1 = 1" by auto
  obtain d2 where 2: "send_reachable True True (one_row d2 [] [Called 1] {1} [])" "pd_id d2 = 1" "pd_message_id d2 = Some ''m1''"
    using reach_sent [OF 1] by auto
  obtain d3 where 3: "send_reachable True True (one_row d3 [] [Refuted 1, Called 1] {1} [])" "pd_id d3 = 1" "pd_status d3 = DELIVERY_FAILED"
    using reach_failure_report [OF 2] by auto
  have "pd_status d3 \<in> set CLAIMABLE_FOR_SEND" by (simp add: 3 CLAIMABLE_FOR_SEND_def)
  from reach_called [OF 3(1,2) this, of accepted]
  obtain d4 where 4: "send_reachable True True (one_row d4 [attempt_of (Some accepted)] [Called 1, Refuted 1, Called 1] {} [])" by auto
  show ?thesis using no_double_send [OF 4] 4 by (intro exI conjI) (auto simp: one_row_def)
qed

text \<open>
  C27: a late report sends a payslip twice.  Delivery reports are matched by the stored message
  id whatever the delivery's status: after a message was reported undelivered and the payslip
  was sent again, a repeated report of the first message turns the delivery in flight back to
  failed, and a resend then calls the provider while the second message may be out.
\<close>
theorem late_report_doubles_send: "\<exists>s. send_reachable False True s \<and> \<not> no_double (sy_log s)"
proof -
  obtain d0 where 0: "send_reachable False True (one_row d0 [] [] {} [])" "pd_id d0 = 1" "pd_status d0 = DELIVERY_PENDING"
    by (rule reach_inserted)
  have "pd_status d0 \<in> set CLAIMABLE_FOR_SEND" by (simp add: 0 CLAIMABLE_FOR_SEND_def)
  from reach_called [OF 0(1,2) this, of accepted]
  obtain d1 where 1: "send_reachable False True (one_row d1 [attempt_of (Some accepted)] [Called 1] {} [])" "pd_id d1 = 1" by auto
  obtain d2 where 2: "send_reachable False True (one_row d2 [] [Called 1] {1} [])" "pd_id d2 = 1" "pd_message_id d2 = Some ''m1''"
    using reach_sent [OF 1] by auto
  obtain d3 where 3: "send_reachable False True (one_row d3 [] [Refuted 1, Called 1] {1} [])" "pd_id d3 = 1"
      "pd_status d3 = DELIVERY_FAILED" "pd_message_id d3 = Some ''m1''"
    using reach_failure_report [OF 2] by auto
  have "pd_status d3 \<in> set CLAIMABLE_FOR_SEND" by (simp add: 3 CLAIMABLE_FOR_SEND_def)
  from reach_called [OF 3(1,2) this, of accepted] 3(4)
  obtain d4 where 4: "send_reachable False True (one_row d4 [attempt_of (Some accepted)] [Called 1, Refuted 1, Called 1] {} [])"
      "pd_id d4 = 1" "pd_message_id d4 = Some ''m1''" by auto
  obtain d5 where 5: "send_reachable False True (one_row d5 [attempt_of (Some accepted)] [Called 1, Refuted 1, Called 1] {} [])"
      "pd_id d5 = 1" "pd_status d5 = DELIVERY_FAILED"
    using reach_failure_report [OF 4] by auto
  have "pd_status d5 \<in> set CLAIMABLE_FOR_SEND" by (simp add: 5 CLAIMABLE_FOR_SEND_def)
  from reach_called [OF 5(1,2) this, of accepted]
  obtain d6 where "send_reachable False True (one_row d6 [attempt_of (Some accepted), attempt_of (Some accepted)]
      [Called 1, Called 1, Refuted 1, Called 1] {} [])" by auto
  moreover have "\<not> no_double [Called 1, Called 1, Refuted 1, Called 1]" by simp
  ultimately show ?thesis by (metis one_row_def send_system.select_convs(4))
qed

definition busy_line :: send_result where
  "busy_line = accepted\<lparr>sr_ok := False, sr_message_id := None, sr_retryable := Some True\<rparr>"

text \<open>
  A cancellation sends a payslip twice.  It overwrites the deliveries it read by their id alone:
  when one of them is claimed again before it commits, the delivery in flight becomes
  cancelled, which a resend may claim, and the provider is called while the message may be out.
\<close>
theorem cancel_race_doubles_send: "\<exists>s. send_reachable True False s \<and> \<not> no_double (sy_log s)"
proof -
  obtain d0 where 0: "send_reachable True False (one_row d0 [] [] {} [])" "pd_id d0 = 1" "pd_status d0 = DELIVERY_PENDING" "pd_attempts d0 = 0"
    by (rule reach_inserted)
  have "pd_status d0 \<in> set CLAIMABLE_FOR_SEND" by (simp add: 0 CLAIMABLE_FOR_SEND_def)
  from reach_called [OF 0(1,2) this, of busy_line] 0(4)
  obtain d1 where 1: "send_reachable True False (one_row d1 [attempt_of (Some busy_line)] [Called 1] {} [])" "pd_id d1 = 1" "pd_attempts d1 = 1"
    by auto
  let ?d = "record_outcome 0 3 60 busy_line (d1\<lparr>pd_channel := ''sms'', pd_recipient := None\<rparr>)"
  have d: "pd_id ?d = 1" "pd_status ?d = DELIVERY_FAILED" "pd_next_retry_at ?d \<noteq> None"
    using 1 by (simp_all add: record_outcome_def busy_line_def accepted_def mark_failed_def)
  have "send_reachable True False (one_row ?d [] [Refuted 1, Called 1] {} [])"
    using send_reachable.step [OF 1(1) send_step.outcome [where a = "attempt_of (Some busy_line)" and res = busy_line
        and m = 3 and b = 60 and ch = "''sms''" and r = None]] 1(2)
    by (simp add: one_row_def attempt_of_def update_row_def not_sent_def busy_line_def accepted_def)
  from send_reachable.step [OF this send_step.read_cancel [where run = "pd_run ?d"]]
  have "send_reachable True False (one_row ?d [] [Refuted 1, Called 1] {} [{1}])"
    using d by (simp add: one_row_def waiting_retries_def del: mark_frame)
  from reach_called [OF this d(1), of busy_line] d(2)
  obtain d2 where 2: "send_reachable True False (one_row d2 [attempt_of (Some busy_line)] [Called 1, Refuted 1, Called 1] {} [{1}])"
      "pd_id d2 = 1" by (auto simp: CLAIMABLE_FOR_SEND_def)
  from send_reachable.step [OF 2(1) send_step.write_cancel [where ids = "{1}"]] 2(2)
  have "send_reachable True False (one_row (cancel_retry {1} d2) [attempt_of (Some busy_line)] [Called 1, Refuted 1, Called 1] {} [])"
    by (simp add: one_row_def)
  from reach_called [OF this, of busy_line] 2(2)
  obtain d3 where "send_reachable True False (one_row d3 [attempt_of (Some busy_line), attempt_of (Some busy_line)]
      [Called 1, Called 1, Refuted 1, Called 1] {} [])" by (auto simp: cancel_retry_def CLAIMABLE_FOR_SEND_def)
  moreover have "\<not> no_double [Called 1, Called 1, Refuted 1, Called 1]" by simp
  ultimately show ?thesis by (metis one_row_def send_system.select_convs(4))
qed

text \<open>
  What a delivery report can change.  A report never confirms or settles anything: it
  leaves every delivery's status as it was, except that a report of failure turns the one
  delivery holding that message id, whatever its status, into a failed one that is not retried
  automatically.  An unconfirmed delivery is never settled as sent by a report.
\<close>
theorem report_changes:
  "list_all2 (\<lambda>d d'. pd_id d' = pd_id d \<and> pd_attempts d' = pd_attempts d \<and> pd_message_id d' = pd_message_id d \<and>
      (if snd (apply_receipt now message raw reason rows) = Some (pd_id d) \<and> classify_receipt raw = Some RECEIPT_FAILED
       then pd_status d' = DELIVERY_FAILED \<and> pd_next_retry_at d' = None
       else pd_status d' = pd_status d \<and> pd_next_retry_at d' = pd_next_retry_at d))
     rows (fst (apply_receipt now message raw reason rows))"
  by (auto simp: apply_receipt_def update_row_def list_all2_conv_all_nth receipt_effect_def mark_failed_def Let_def
      RECEIPT_FAILED_def RECEIPT_DELIVERED_def RECEIPT_READ_def split: option.splits)

end
