(* ===== verification/SendRun.thy ===== *)
theory SendRun
  imports DeliverySafety
begin

text \<open>
  The send of one run (\<open>distribute_run\<close> in \<open>app/distribution/service.py\<close>) as a whole: what it
  counts, whom it calls the provider for, and what it leaves alone.
\<close>

subsection \<open>One attempt\<close>

lemma update_row_set:
  "pd_id d \<noteq> k \<Longrightarrow> (\<And>x. pd_id (f x) = pd_id x) \<Longrightarrow> d \<in> set (update_row pd_id k f rows) \<longleftrightarrow> d \<in> set rows"
  by (force simp: update_row_def)

lemma claim_set:
  "pd_id d \<noteq> k \<Longrightarrow> d \<in> set (fst (claim_delivery now k claimable batch sched rows)) \<longleftrightarrow> d \<in> set rows"
  by (force simp: claim_delivery_def update_where_def)

lemma update_row_frame: "(\<And>d. g (f d) = g d) \<Longrightarrow> map g (update_row key k f rows) = map g rows"
  by (simp add: update_row_def)

lemma outcome_item [simp]:
  "pd_item (mark_failed now e p m b r d) = pd_item d" "pd_item (record_outcome now m b res d) = pd_item d"
  by (simp_all add: record_outcome_def mark_sent_def mark_unknown_def mark_failed_def Let_def)

lemma claim_items [simp]:
  "map pd_item (fst (claim_delivery now k claimable batch sched rows)) = map pd_item rows"
  unfolding claim_delivery_def by (rule update_where_key) simp

text \<open>What an attempt at the delivery \<open>k\<close> may change: its row, and the calls by at most \<open>k\<close> itself.\<close>

definition only_touches :: "int \<Rightarrow> send_db \<Rightarrow> send_db \<Rightarrow> bool" where
  "only_touches k db db' \<longleftrightarrow> sd_items db' = sd_items db \<and> sd_runs db' = sd_runs db \<and> sd_employees db' = sd_employees db \<and>
     map pd_id (sd_deliveries db') = map pd_id (sd_deliveries db) \<and>
     map pd_item (sd_deliveries db') = map pd_item (sd_deliveries db) \<and>
     (\<forall>d. pd_id d \<noteq> k \<longrightarrow> (d \<in> set (sd_deliveries db') \<longleftrightarrow> d \<in> set (sd_deliveries db)))"

lemma attempt_touches: "only_touches k db (fst (attempt_send cfg w k item ch claimable batch sched db))"
proof -
  obtain rows won where c: "claim_delivery (aw_now w) k claimable batch sched (sd_deliveries db) = (rows, won)"
    by fastforce
  have rows: "map pd_id rows = map pd_id (sd_deliveries db)" "map pd_item rows = map pd_item (sd_deliveries db)"
    using claim_keys [of "aw_now w" k claimable batch sched "sd_deliveries db"]
      claim_items [of "aw_now w" k claimable batch sched "sd_deliveries db"] by (simp_all add: c)
  have keep: "d \<in> set rows \<longleftrightarrow> d \<in> set (sd_deliveries db)" if "pd_id d \<noteq> k" for d
    using claim_set [OF that, of "aw_now w" claimable batch sched "sd_deliveries db"] by (simp add: c)
  show ?thesis
    by (auto simp: attempt_send_def only_touches_def Let_def c update_row_frame update_row_set rows keep split: sum.splits)
qed

lemma attempt_calls:
  assumes "distinct (map pd_id (sd_deliveries db))" "d \<in> set (sd_deliveries db)" "pd_id d = k"
  shows "sd_calls (fst (attempt_send cfg w k item ch claimable batch sched db)) \<in> {sd_calls db, sd_calls db @ [k]}"
    and "pd_status d \<notin> set claimable \<Longrightarrow> fst (attempt_send cfg w k item ch claimable batch sched db) = db"
    and "pd_status d \<notin> set claimable \<Longrightarrow> snd (attempt_send cfg w k item ch claimable batch sched db) = None"
proof -
  show "sd_calls (fst (attempt_send cfg w k item ch claimable batch sched db)) \<in> {sd_calls db, sd_calls db @ [k]}"
    by (auto simp: attempt_send_def Let_def split: sum.splits prod.splits)
  assume n: "pd_status d \<notin> set claimable"
  then have no: "\<not> (pd_id x = k \<and> pd_status x \<in> set claimable \<and> (sched \<longrightarrow> pd_next_retry_at x \<noteq> None))"
    if "x \<in> set (sd_deliveries db)" for x
    using same_row [OF assms(1) that assms(2)] assms(3) by auto
  have "fst (claim_delivery (aw_now w) k claimable batch sched (sd_deliveries db)) = sd_deliveries db"
    unfolding claim_delivery_def by (rule update_where_same) (rule no)
  moreover have "\<not> snd (claim_delivery (aw_now w) k claimable batch sched (sd_deliveries db))"
    using same_row [OF assms(1) assms(2)] assms(3) n by (intro claim_in_flight_loses [OF assms(1)]) auto
  ultimately have "claim_delivery (aw_now w) k claimable batch sched (sd_deliveries db) = (sd_deliveries db, False)"
    by (metis prod.collapse)
  then show "fst (attempt_send cfg w k item ch claimable batch sched db) = db"
    "snd (attempt_send cfg w k item ch claimable batch sched db) = None"
    by (simp_all add: attempt_send_def)
qed

subsection \<open>One payroll item\<close>

definition counted :: "send_summary \<Rightarrow> bool" where
  "counted s \<longleftrightarrow> ss_total s = ss_sent s + ss_failed s + ss_unknown s + ss_skipped s \<and>
     length (ss_failed_workers s) = ss_failed s \<and> length (ss_unknown_workers s) = ss_unknown s"

lemma counted_skip: "counted s \<Longrightarrow> counted (s\<lparr>ss_total := ss_total s + 1, ss_skipped := ss_skipped s + 1\<rparr>)"
  by (simp add: counted_def)

lemma counted_count: "counted s \<Longrightarrow> counted (count_status ref status (s\<lparr>ss_total := ss_total s + 1\<rparr>))"
  by (auto simp: counted_def count_status_def split: option.splits)

lemma total_count [simp]: "ss_total (count_status ref status s) = ss_total s"
  by (auto simp: count_status_def split: option.splits)

text \<open>What sending to one item does to the database: \<open>k\<close> is the delivery it is about.\<close>

definition item_effect :: "string list \<Rightarrow> int \<Rightarrow> int \<Rightarrow> send_db \<Rightarrow> send_db \<Rightarrow> bool" where
  "item_effect claimable i k db db' \<longleftrightarrow>
     sd_items db' = sd_items db \<and> distinct (map pd_id (sd_deliveries db')) \<and>
     (\<forall>d\<in>set (sd_deliveries db). pd_id d = k \<longrightarrow> pd_item d = i) \<and>
     (\<forall>d\<in>set (sd_deliveries db). pd_id d \<noteq> k \<or> pd_status d \<notin> set claimable \<longrightarrow> d \<in> set (sd_deliveries db')) \<and>
     (\<forall>d\<in>set (sd_deliveries db'). pd_id d = k \<and> pd_item d = i \<or> d \<in> set (sd_deliveries db)) \<and>
     (sd_calls db' = sd_calls db \<or> sd_calls db' = sd_calls db @ [k] \<and> k \<in> pd_id ` set (sd_deliveries db') \<and>
        (\<forall>d\<in>set (sd_deliveries db). pd_id d = k \<longrightarrow> pd_status d \<in> set claimable))"

lemma effect_none: "distinct (map pd_id (sd_deliveries db)) \<Longrightarrow> item_effect claimable i (fresh_id (sd_deliveries db)) db db"
  using fresh_id_new [of "sd_deliveries db"] by (force simp: item_effect_def)

lemma attempt_effect:
  assumes D: "distinct (map pd_id (sd_deliveries db))" and d: "d \<in> set (sd_deliveries db)" "pd_id d = k" "pd_item d = i"
  shows "item_effect claimable i k db (fst (attempt_send cfg w k item ch claimable batch sched db))"
proof -
  define db' where "db' = fst (attempt_send cfg w k item ch claimable batch sched db)"
  have t: "only_touches k db db'" unfolding db'_def by (rule attempt_touches)
  have ids: "map pd_id (sd_deliveries db') = map pd_id (sd_deliveries db)" using t by (simp add: only_touches_def)
  have uniq: "x = d" if "x \<in> set (sd_deliveries db)" "pd_id x = k" for x using same_row [OF D that(1) d(1)] d(2) that by simp
  have item: "pd_item x = i" if x: "x \<in> set (sd_deliveries db')" "pd_id x = k" for x
  proof -
    obtain n where n: "n < length (sd_deliveries db')" "sd_deliveries db' ! n = x" using x(1) unfolding in_set_conv_nth by blast
    have len: "length (sd_deliveries db') = length (sd_deliveries db)" using ids by (metis length_map)
    have "pd_id (sd_deliveries db ! n) = k" "pd_item (sd_deliveries db ! n) = pd_item x"
      using n len x(2) ids t unfolding only_touches_def by (metis nth_map)+
    moreover have "sd_deliveries db ! n \<in> set (sd_deliveries db)" using n len by simp
    ultimately show ?thesis using uniq d(3) by metis
  qed
  have "k \<in> pd_id ` set (sd_deliveries db')" using d(1,2) ids by (metis image_eqI image_set)
  moreover have "sd_calls db' = sd_calls db \<or> sd_calls db' = sd_calls db @ [k] \<and> pd_status d \<in> set claimable"
  proof (cases "pd_status d \<in> set claimable")
    case True
    have "sd_calls db' \<in> {sd_calls db, sd_calls db @ [k]}" unfolding db'_def by (rule attempt_calls(1) [OF D d(1,2)])
    then show ?thesis using True by auto
  next
    case False
    have "db' = db" unfolding db'_def by (rule attempt_calls(2) [OF D d(1,2) False])
    then show ?thesis by simp
  qed
  moreover have "d \<in> set (sd_deliveries db')" if "pd_status d \<notin> set claimable"
    using attempt_calls(2) [OF D d(1,2) that] d(1) unfolding db'_def by simp
  ultimately show ?thesis
  proof -
    assume calls: "k \<in> pd_id ` set (sd_deliveries db')"
      "sd_calls db' = sd_calls db \<or> sd_calls db' = sd_calls db @ [k] \<and> pd_status d \<in> set claimable"
      and same: "pd_status d \<notin> set claimable \<Longrightarrow> d \<in> set (sd_deliveries db')"
    show ?thesis unfolding item_effect_def db'_def [symmetric]
    proof (intro conjI ballI impI)
      show "sd_items db' = sd_items db" using t by (simp add: only_touches_def)
      show "distinct (map pd_id (sd_deliveries db'))" using ids D by simp
      show "pd_item x = i" if "x \<in> set (sd_deliveries db)" "pd_id x = k" for x using uniq [OF that] d(3) by simp
      show "x \<in> set (sd_deliveries db')"
        if "x \<in> set (sd_deliveries db)" "pd_id x \<noteq> k \<or> pd_status x \<notin> set claimable" for x
      proof (cases "pd_id x = k")
        case True
        then show ?thesis using uniq [OF that(1)] that(2) same by simp
      next
        case False
        then show ?thesis using t that(1) by (simp add: only_touches_def)
      qed
      show "pd_id x = k \<and> pd_item x = i \<or> x \<in> set (sd_deliveries db)" if "x \<in> set (sd_deliveries db')" for x
        using t item [OF that] that by (cases "pd_id x = k") (simp_all add: only_touches_def)
      show "sd_calls db' = sd_calls db \<or> sd_calls db' = sd_calls db @ [k] \<and> k \<in> pd_id ` set (sd_deliveries db') \<and>
          (\<forall>x\<in>set (sd_deliveries db). pd_id x = k \<longrightarrow> pd_status x \<in> set claimable)"
        using calls uniq by metis
    qed
  qed
qed

definition send_claimable :: "bool \<Rightarrow> string list" where
  "send_claimable only_failed = (if only_failed then CLAIMABLE_FOR_RETRY else CLAIMABLE_FOR_SEND)"

lemma effect_insert:
  assumes "item_effect claimable i k (db\<lparr>sd_deliveries := sd_deliveries db @ [d]\<rparr>) db'"
    "pd_id d = k" "pd_item d = i" "k \<notin> pd_id ` set (sd_deliveries db)"
  shows "item_effect claimable i k db db'"
  using assms unfolding item_effect_def by auto

lemma inserted_effect:
  assumes D: "distinct (map pd_id (sd_deliveries db))" and n: "latest_delivery (item_id item) ch (sd_deliveries db) = None"
  shows "item_effect claimable (item_id item) (fresh_id (sd_deliveries db)) db
     (fst (attempt_send cfg w (fresh_id (sd_deliveries db)) item ch claimable batch sched
        (db\<lparr>sd_deliveries := sd_deliveries db @ [new_delivery now (fresh_id (sd_deliveries db)) item ch]\<rparr>)))"
    (is "item_effect _ _ ?k _ (fst (attempt_send _ _ _ _ _ _ _ _ ?db))")
proof -
  let ?d = "new_delivery now ?k item ch"
  have new: "?k \<notin> pd_id ` set (sd_deliveries db)" by (rule fresh_id_new)
  have d: "?d \<in> set (sd_deliveries ?db)" "pd_id ?d = ?k" "pd_item ?d = item_id item" by (simp_all add: new_delivery_def)
  have "distinct (map pd_id (sd_deliveries ?db))" using D new d(2) by simp
  from attempt_effect [OF this d] show ?thesis by (rule effect_insert) (use d new in auto)
qed

lemma distribute_item_effect:
  assumes D: "distinct (map pd_id (sd_deliveries db))"
    and run: "distribute_item cfg world channel only_failed batch (db, s) item = (db', s')"
  shows "\<exists>k. item_effect (send_claimable only_failed) (item_id item) k db db'"
    and "counted s \<Longrightarrow> counted s'" and "ss_total s' = ss_total s + 1"
proof -
  define ch where "ch = (if channel = CHANNEL_AUTO
    then resolve_channel (cfg_desktop cfg) item (roster_employee_of (sd_employees db) (sd_runs db) item) else channel)"
  consider (skip) "db' = db" "s' = s\<lparr>ss_total := ss_total s + 1, ss_skipped := ss_skipped s + 1\<rparr>"
    | (old) d status where "latest_delivery (item_id item) ch (sd_deliveries db) = Some d"
        "db' = fst (attempt_send cfg (world (item_id item)) (pd_id d) item ch (send_claimable only_failed) batch False db)"
        "s' = count_status (item_id item) status (s\<lparr>ss_total := ss_total s + 1\<rparr>)"
    | (new) status where "latest_delivery (item_id item) ch (sd_deliveries db) = None"
        "db' = fst (attempt_send cfg (world (item_id item)) (fresh_id (sd_deliveries db)) item ch (send_claimable only_failed) batch False
           (db\<lparr>sd_deliveries := sd_deliveries db @ [new_delivery (aw_now (world (item_id item))) (fresh_id (sd_deliveries db)) item ch]\<rparr>))"
        "s' = count_status (item_id item) status (s\<lparr>ss_total := ss_total s + 1\<rparr>)"
    using run by (auto simp: distribute_item_def Let_def ch_def [symmetric] insert_pending_def send_claimable_def new_delivery_def
        split: option.splits if_splits prod.splits)
  note cases = this
  show "ss_total s' = ss_total s + 1" by (rule cases) auto
  show "counted s'" if "counted s" by (rule cases) (use that counted_skip counted_count in auto)
  show "\<exists>k. item_effect (send_claimable only_failed) (item_id item) k db db'"
  proof (rule cases)
    assume "db' = db" then show ?thesis using effect_none [OF D] by blast
  next
    fix d status
    assume d: "latest_delivery (item_id item) ch (sd_deliveries db) = Some d"
      and db': "db' = fst (attempt_send cfg (world (item_id item)) (pd_id d) item ch (send_claimable only_failed) batch False db)"
    have "d \<in> set (sd_deliveries db)" "pd_item d = item_id item"
      using d max_row_SomeD by (fastforce simp: latest_delivery_def)+
    then show ?thesis using attempt_effect [OF D _ refl] unfolding db' by blast
  next
    assume "latest_delivery (item_id item) ch (sd_deliveries db) = None"
    from inserted_effect [OF D this] show "db' = fst (attempt_send cfg (world (item_id item)) (fresh_id (sd_deliveries db)) item ch
        (send_claimable only_failed) batch False (db\<lparr>sd_deliveries := sd_deliveries db @
          [new_delivery (aw_now (world (item_id item))) (fresh_id (sd_deliveries db)) item ch]\<rparr>)) \<Longrightarrow> ?thesis" by blast
  qed
qed

subsection \<open>The run\<close>

text \<open>What holds after the items \<open>is\<close>, relative to the database the send started from.\<close>

definition sent_so_far :: "string list \<Rightarrow> send_db \<Rightarrow> payroll_item list \<Rightarrow> send_db \<Rightarrow> bool" where
  "sent_so_far claimable db0 items db \<longleftrightarrow>
     distinct (map pd_id (sd_deliveries db)) \<and>
     (\<forall>d\<in>set (sd_deliveries db0). pd_item d \<notin> item_id ` set items \<or> pd_status d \<notin> set claimable \<longrightarrow> d \<in> set (sd_deliveries db)) \<and>
     (\<forall>d\<in>set (sd_deliveries db). pd_item d \<in> item_id ` set items \<or> d \<in> set (sd_deliveries db0)) \<and>
     (\<exists>new. sd_calls db = sd_calls db0 @ new \<and> distinct new \<and>
        (\<forall>k\<in>set new. \<exists>d\<in>set (sd_deliveries db). pd_id d = k \<and> pd_item d \<in> item_id ` set items) \<and>
        (\<forall>d\<in>set (sd_deliveries db0). pd_id d \<in> set new \<longrightarrow> pd_status d \<in> set claimable))"

lemma sent_so_far_step:
  assumes J: "sent_so_far claimable db0 items db" and e: "item_effect claimable (item_id item) k db db'"
    and new_item: "item_id item \<notin> item_id ` set items"
  shows "sent_so_far claimable db0 (items @ [item]) db'"
proof -
  obtain new where new: "sd_calls db = sd_calls db0 @ new" "distinct new"
      "\<And>k. k \<in> set new \<Longrightarrow> \<exists>d\<in>set (sd_deliveries db). pd_id d = k \<and> pd_item d \<in> item_id ` set items"
      "\<And>d. d \<in> set (sd_deliveries db0) \<Longrightarrow> pd_id d \<in> set new \<Longrightarrow> pd_status d \<in> set claimable"
    using J unfolding sent_so_far_def by blast
  have keep0: "d \<in> set (sd_deliveries db)"
    if "d \<in> set (sd_deliveries db0)" "pd_item d \<notin> item_id ` set items \<or> pd_status d \<notin> set claimable" for d
    using J that unfolding sent_so_far_def by blast
  have only0: "pd_item d \<in> item_id ` set items \<or> d \<in> set (sd_deliveries db0)" if "d \<in> set (sd_deliveries db)" for d
    using J that unfolding sent_so_far_def by blast
  have item: "pd_item d = item_id item" if "d \<in> set (sd_deliveries db)" "pd_id d = k" for d
    using e that unfolding item_effect_def by blast
  have keep: "d \<in> set (sd_deliveries db')" if "d \<in> set (sd_deliveries db)" "pd_id d \<noteq> k \<or> pd_status d \<notin> set claimable" for d
    using e that unfolding item_effect_def by blast
  have only: "pd_id d = k \<and> pd_item d = item_id item \<or> d \<in> set (sd_deliveries db)" if "d \<in> set (sd_deliveries db')" for d
    using e that unfolding item_effect_def by blast
  have knew: "k \<notin> set new" using new(3) [of k] item new_item by auto
  have "distinct (map pd_id (sd_deliveries db'))" using e unfolding item_effect_def by blast
  moreover have "d \<in> set (sd_deliveries db')"
    if "d \<in> set (sd_deliveries db0)" "pd_item d \<notin> item_id ` set (items @ [item]) \<or> pd_status d \<notin> set claimable" for d
  proof (rule keep)
    show "d \<in> set (sd_deliveries db)" using that(2) by (intro keep0 [OF that(1)]) auto
    then show "pd_id d \<noteq> k \<or> pd_status d \<notin> set claimable" using item [of d] that(2) by auto
  qed
  moreover have "pd_item d \<in> item_id ` set (items @ [item]) \<or> d \<in> set (sd_deliveries db0)" if "d \<in> set (sd_deliveries db')" for d
    using only [OF that] only0 [of d] by auto
  moreover have "\<exists>new. sd_calls db' = sd_calls db0 @ new \<and> distinct new \<and>
      (\<forall>j\<in>set new. \<exists>d\<in>set (sd_deliveries db'). pd_id d = j \<and> pd_item d \<in> item_id ` set (items @ [item])) \<and>
      (\<forall>d\<in>set (sd_deliveries db0). pd_id d \<in> set new \<longrightarrow> pd_status d \<in> set claimable)"
  proof -
    have old: "\<exists>d\<in>set (sd_deliveries db'). pd_id d = j \<and> pd_item d \<in> item_id ` set (items @ [item])" if "j \<in> set new" for j
    proof -
      obtain d where "d \<in> set (sd_deliveries db)" "pd_id d = j" "pd_item d \<in> item_id ` set items" using new(3) [OF \<open>j \<in> set new\<close>] by blast
      moreover have "j \<noteq> k" using knew that by blast
      ultimately show ?thesis using keep [of d] by auto
    qed
    have "sd_calls db' = sd_calls db \<or> sd_calls db' = sd_calls db @ [k] \<and> k \<in> pd_id ` set (sd_deliveries db') \<and>
        (\<forall>d\<in>set (sd_deliveries db). pd_id d = k \<longrightarrow> pd_status d \<in> set claimable)"
      using e unfolding item_effect_def by blast
    then show ?thesis
    proof (elim disjE conjE)
      assume "sd_calls db' = sd_calls db"
      then show ?thesis using old new by (intro exI [of _ new]) auto
    next
      assume c: "sd_calls db' = sd_calls db @ [k]" and k: "k \<in> pd_id ` set (sd_deliveries db')"
        and st: "\<forall>d\<in>set (sd_deliveries db). pd_id d = k \<longrightarrow> pd_status d \<in> set claimable"
      have "pd_status d \<in> set claimable" if "d \<in> set (sd_deliveries db0)" "pd_id d = k" for d
        using keep0 [OF that(1)] st that(2) by blast
      moreover have "\<exists>d\<in>set (sd_deliveries db'). pd_id d = k \<and> pd_item d \<in> item_id ` set (items @ [item])"
        using k only item by fastforce
      ultimately show ?thesis using old new c knew by (intro exI [of _ "new @ [k]"]) auto
    qed
  qed
  ultimately show ?thesis unfolding sent_so_far_def by blast
qed

lemma distribute_items_effect:
  assumes "distinct (map item_id (done @ items))" "sent_so_far (send_claimable only_failed) db0 done db" "counted s"
    "ss_total s = length done"
    "foldl (distribute_item cfg world channel only_failed batch) (db, s) items = (db', s')"
  shows "sent_so_far (send_claimable only_failed) db0 (done @ items) db' \<and> counted s' \<and> ss_total s' = length (done @ items)"
  using assms
proof (induction items arbitrary: "done" db s)
  case Nil
  then show ?case by simp
next
  case (Cons item items)
  obtain db1 s1 where one: "distribute_item cfg world channel only_failed batch (db, s) item = (db1, s1)" by fastforce
  have D: "distinct (map pd_id (sd_deliveries db))" using Cons.prems(2) by (simp add: sent_so_far_def)
  obtain k where "item_effect (send_claimable only_failed) (item_id item) k db db1"
    using distribute_item_effect(1) [OF D one] by blast
  then have "sent_so_far (send_claimable only_failed) db0 (done @ [item]) db1"
    using Cons.prems(1,2) by (intro sent_so_far_step) auto
  then show ?case
    using Cons.IH [of "done @ [item]" db1 s1] Cons.prems distribute_item_effect(2,3) [OF D one] one by simp
qed

text \<open>
  C28: sending a run.  A send of a whole run goes once through its items and accounts for each of
  them: the totals add up, and every worker who failed or is unconfirmed is listed.  It calls
  the provider at most once per delivery and only for deliveries that were in a status the
  send may claim (for "resend failed", only failed ones); deliveries that were sent, in
  flight or unconfirmed, and deliveries of other runs, are left exactly as they were.
\<close>
theorem distribute_run_sends:
  assumes "distinct (map item_id (sd_items db))" "distinct (map pd_id (sd_deliveries db))"
    "distribute_run cfg world run channel only_failed batch db = (db', s)"
  shows "ss_total s = length (items_of run (sd_items db)) \<and> ss_total s = ss_sent s + ss_failed s + ss_unknown s + ss_skipped s \<and>
     length (ss_failed_workers s) = ss_failed s \<and> length (ss_unknown_workers s) = ss_unknown s \<and>
     (\<exists>new. sd_calls db' = sd_calls db @ new \<and> distinct new \<and>
        (\<forall>d\<in>set (sd_deliveries db). pd_id d \<in> set new \<longrightarrow>
           pd_status d \<in> set (if only_failed then CLAIMABLE_FOR_RETRY else CLAIMABLE_FOR_SEND))) \<and>
     (\<forall>d\<in>set (sd_deliveries db). pd_status d \<in> set SKIPPED_BY_SEND \<or> pd_item d \<notin> item_id ` set (items_of run (sd_items db)) \<longrightarrow>
        d \<in> set (sd_deliveries db'))"
proof -
  have "sent_so_far (send_claimable only_failed) db [] db" using assms(2) by (simp add: sent_so_far_def)
  moreover have "counted empty_summary" "ss_total empty_summary = 0" by (simp_all add: counted_def empty_summary_def)
  moreover have "distinct (map item_id (items_of run (sd_items db)))"
    using assms(1) by (auto simp: items_of_def distinct_map_filter)
  ultimately have "sent_so_far (send_claimable only_failed) db (items_of run (sd_items db)) db' \<and> counted s \<and>
      ss_total s = length (items_of run (sd_items db))"
    using distribute_items_effect [of "[]" "items_of run (sd_items db)" only_failed db db empty_summary cfg world channel batch db' s]
      assms(3) by (simp add: distribute_run_def)
  moreover have "status \<notin> set (send_claimable only_failed)" if "status \<in> set SKIPPED_BY_SEND" for status
    using that delivery_status_neq by (auto simp: send_claimable_def claimable_defs)
  ultimately show ?thesis unfolding sent_so_far_def counted_def send_claimable_def by blast
qed

definition sample_item :: "int \<Rightarrow> payroll_item" where
  "sample_item k = \<lparr>item_id = k, item_run = 1, item_employee = None, item_staff_id = None, item_full_name = None,
     item_email = Some ''a@b'', item_momo_number = None, item_bank_branch = None, item_money = (\<lambda>_. None),
     item_validation_status = ''valid'', item_warning_notes = None, item_token_version = 0\<rparr>"

definition sample_send_db :: send_db where
  "sample_send_db = \<lparr>sd_items = [sample_item 1, sample_item 2], sd_runs = [], sd_employees = [],
     sd_deliveries = [(new_delivery 0 5 (sample_item 1) CHANNEL_EMAIL)\<lparr>pd_status := DELIVERY_SENT\<rparr>,
       (new_delivery 0 6 (sample_item 2) CHANNEL_EMAIL)\<lparr>pd_status := DELIVERY_FAILED\<rparr>], sd_calls = []\<rparr>"

definition sample_world :: "int \<Rightarrow> attempt_world" where
  "sample_world k = \<lparr>aw_now = 100, aw_prepared = True, aw_result = accepted\<rparr>"

definition sample_config :: send_config where
  "sample_config = \<lparr>cfg_desktop = False, cfg_max_attempts = 3, cfg_backoff_base = 60\<rparr>"

lemma sample_latest:
  "latest_delivery 1 CHANNEL_EMAIL (sd_deliveries sample_send_db) = Some ((new_delivery 0 5 (sample_item 1) CHANNEL_EMAIL)\<lparr>pd_status := DELIVERY_SENT\<rparr>)"
  "latest_delivery 2 CHANNEL_EMAIL (sd_deliveries sample_send_db) = Some ((new_delivery 0 6 (sample_item 2) CHANNEL_EMAIL)\<lparr>pd_status := DELIVERY_FAILED\<rparr>)"
  by (simp_all add: latest_delivery_def sample_send_db_def new_delivery_def sample_item_def)

lemma sample_recipient: "recipient_for CHANNEL_EMAIL (sample_item 2) (roster_employee_of [] [] (sample_item 2)) = return ''a@b''"
  by (simp add: recipient_for_def contact_for_def roster_employee_of_def or_text_def text_or_def sample_item_def channel_defs)

lemma sample_attempt:
  "attempt_send sample_config (sample_world 2) 6 (sample_item 2) CHANNEL_EMAIL CLAIMABLE_FOR_SEND None False sample_send_db = (db', st) \<Longrightarrow>
     sd_calls db' = [6] \<and> st = Some DELIVERY_SENT"
  using sample_recipient delivery_status_neq
  by (auto simp: attempt_send_def claim_delivery_def update_where_def sample_send_db_def new_delivery_def update_row_def
      sample_world_def record_outcome_def mark_sent_def accepted_def delivery_status_def Let_def CLAIMABLE_FOR_SEND_def)

lemma sample_send:
  assumes "distribute_run sample_config sample_world 1 CHANNEL_EMAIL False None sample_send_db = (db', s)"
  shows "sd_calls db' = [6] \<and> ss_total s = 2 \<and> ss_sent s = 1 \<and> ss_skipped s = 1"
proof -
  obtain db1 st where a: "attempt_send sample_config (sample_world 2) 6 (sample_item 2) CHANNEL_EMAIL CLAIMABLE_FOR_SEND None False sample_send_db
      = (db1, st)" by fastforce
  have items: "items_of 1 (sd_items sample_send_db) = [sample_item 1, sample_item 2]"
    by (simp add: sample_send_db_def items_of_def sample_item_def)
  have ids: "item_id (sample_item k) = k" for k by (simp add: sample_item_def)
  have auto_no: "CHANNEL_EMAIL \<noteq> CHANNEL_AUTO" by (simp add: channel_defs)
  show ?thesis
    using assms sample_attempt [OF a] delivery_status_neq
    by (auto simp: distribute_run_def items ids auto_no distribute_item_def sample_latest Let_def a count_status_def
        empty_summary_def SKIPPED_BY_SEND_def new_delivery_def)
qed

theorem distribute_run_sends_witness:
  "\<exists>db' s. distribute_run sample_config sample_world 1 CHANNEL_EMAIL False None sample_send_db = (db', s) \<and>
     sd_calls db' = [6] \<and> ss_total s = ss_sent s + ss_failed s + ss_unknown s + ss_skipped s \<and>
     (new_delivery 0 5 (sample_item 1) CHANNEL_EMAIL)\<lparr>pd_status := DELIVERY_SENT\<rparr> \<in> set (sd_deliveries db')"
proof -
  obtain db' s where r: "distribute_run sample_config sample_world 1 CHANNEL_EMAIL False None sample_send_db = (db', s)"
    by fastforce
  have "distinct (map item_id (sd_items sample_send_db))" "distinct (map pd_id (sd_deliveries sample_send_db))"
    by (simp_all add: sample_send_db_def sample_item_def new_delivery_def)
  note all = distribute_run_sends [OF this r]
  have "(new_delivery 0 5 (sample_item 1) CHANNEL_EMAIL)\<lparr>pd_status := DELIVERY_SENT\<rparr> \<in> set (sd_deliveries sample_send_db)"
    by (simp add: sample_send_db_def)
  moreover have "pd_status ((new_delivery 0 5 (sample_item 1) CHANNEL_EMAIL)\<lparr>pd_status := DELIVERY_SENT\<rparr>) \<in> set SKIPPED_BY_SEND"
    by (simp add: SKIPPED_BY_SEND_def)
  ultimately have "(new_delivery 0 5 (sample_item 1) CHANNEL_EMAIL)\<lparr>pd_status := DELIVERY_SENT\<rparr> \<in> set (sd_deliveries db')"
    using all by blast
  then show ?thesis using r sample_send [OF r] all by blast
qed

end
