(* ===== verification/Queue.thy ===== *)
theory Queue
  imports Delivery
begin

text \<open>
  The distribution queue (\<open>app/distribution/queue.py\<close>): batches of a run, their scheduling,
  cancellation, claim, recovery and processing, one pass of the worker, and the state shown to
  the portals (\<open>status.py\<close>).  Every operation is one transaction on the database; times are
  whole seconds.
\<close>

subsection \<open>Batches\<close>

definition BATCH_SCHEDULED :: string where "BATCH_SCHEDULED = ''scheduled''"
definition BATCH_QUEUED :: string where "BATCH_QUEUED = ''queued''"
definition BATCH_RUNNING :: string where "BATCH_RUNNING = ''running''"
definition BATCH_COMPLETED :: string where "BATCH_COMPLETED = ''completed''"
definition BATCH_FAILED :: string where "BATCH_FAILED = ''failed''"
definition BATCH_CANCELLED :: string where "BATCH_CANCELLED = ''cancelled''"

lemmas batch_status_defs = BATCH_SCHEDULED_def BATCH_QUEUED_def BATCH_RUNNING_def BATCH_COMPLETED_def
  BATCH_FAILED_def BATCH_CANCELLED_def

lemma batch_status_neq: "distinct [BATCH_SCHEDULED, BATCH_QUEUED, BATCH_RUNNING, BATCH_COMPLETED, BATCH_FAILED, BATCH_CANCELLED]"
  by (simp add: batch_status_defs)

definition BATCH_PENDING_STATUSES :: "string list" where
  "BATCH_PENDING_STATUSES = [BATCH_SCHEDULED, BATCH_QUEUED, BATCH_RUNNING]"

text \<open>The stored error texts, as constructors with the figures they carry.\<close>

datatype batch_error = Batch_error_generic | Batch_abandoned int

record distribution_batch =
  bt_id :: int
  bt_run :: int
  bt_client :: "int option"
  bt_channel :: string
  bt_only_failed :: bool
  bt_status :: string
  bt_by_user :: "int option"
  bt_by_role :: "string option"
  bt_total :: "nat option"
  bt_sent :: "nat option"
  bt_failed :: "nat option"
  bt_unknown :: "nat option"
  bt_skipped :: "nat option"
  bt_error :: "batch_error option"
  bt_scheduled_for :: "int option"
  bt_created_at :: int
  bt_started_at :: "int option"
  bt_finished_at :: "int option"
  bt_worker :: "string option"
  bt_reclaims :: int

record queue_db =
  qd_send :: send_db
  qd_batches :: "distribution_batch list"

definition in_flight_batch :: "int \<Rightarrow> distribution_batch list \<Rightarrow> distribution_batch option" where
  "in_flight_batch run batches = first_row (\<lambda>b. bt_run b = run \<and> bt_status b \<in> set BATCH_PENDING_STATUSES) batches"

definition fresh_batch_id :: "distribution_batch list \<Rightarrow> int" where
  "fresh_batch_id batches = 1 + foldr max (map bt_id batches) 0"

text \<open>The actor: the id and role of the user, when there is one.\<close>

definition enqueue_distribution ::
  "int \<Rightarrow> payroll_run \<Rightarrow> string \<Rightarrow> bool \<Rightarrow> (int \<times> string) option \<Rightarrow> int option \<Rightarrow> queue_db
    \<Rightarrow> queue_db \<times> distribution_batch \<times> bool" where
  "enqueue_distribution now run channel only_failed actor scheduled_for db =
     (case in_flight_batch (run_id run) (qd_batches db) of
        Some existing \<Rightarrow> (db, existing, True)
      | None \<Rightarrow>
          (let is_scheduled = (case scheduled_for of None \<Rightarrow> False | Some t \<Rightarrow> now < t);
               batch = \<lparr>bt_id = fresh_batch_id (qd_batches db), bt_run = run_id run, bt_client = run_client_company_id run,
                 bt_channel = channel, bt_only_failed = only_failed,
                 bt_status = (if is_scheduled then BATCH_SCHEDULED else BATCH_QUEUED),
                 bt_by_user = map_option fst actor, bt_by_role = map_option snd actor,
                 bt_total = Some (length (items_of (run_id run) (sd_items (qd_send db)))),
                 bt_sent = None, bt_failed = None, bt_unknown = None, bt_skipped = None, bt_error = None,
                 bt_scheduled_for = (if is_scheduled then scheduled_for else None), bt_created_at = now,
                 bt_started_at = None, bt_finished_at = None, bt_worker = None, bt_reclaims = 0\<rparr>
           in (db\<lparr>qd_batches := qd_batches db @ [batch]\<rparr>, batch, False)))"

datatype reschedule_outcome = No_scheduled_batch | Not_future | Rescheduled int

definition reschedule_distribution ::
  "int \<Rightarrow> int \<Rightarrow> int option \<Rightarrow> distribution_batch list \<Rightarrow> distribution_batch list \<times> reschedule_outcome" where
  "reschedule_distribution now run new_time batches =
     (case first_row (\<lambda>b. bt_run b = run \<and> bt_status b = BATCH_SCHEDULED) batches of
        None \<Rightarrow> (batches, No_scheduled_batch)
      | Some b \<Rightarrow>
          (case new_time of
             None \<Rightarrow> (batches, Not_future)
           | Some t \<Rightarrow>
               if t \<le> now then (batches, Not_future)
               else (update_row bt_id (bt_id b) (\<lambda>b. b\<lparr>bt_scheduled_for := Some t\<rparr>) batches, Rescheduled (bt_id b))))"

definition due_batch :: "int \<Rightarrow> distribution_batch \<Rightarrow> bool" where
  "due_batch now b \<longleftrightarrow> bt_status b = BATCH_SCHEDULED \<and> (case bt_scheduled_for b of None \<Rightarrow> False | Some t \<Rightarrow> t \<le> now)"

definition activate_due_scheduled :: "int \<Rightarrow> distribution_batch list \<Rightarrow> distribution_batch list" where
  "activate_due_scheduled now = map (\<lambda>b. if due_batch now b then b\<lparr>bt_status := BATCH_QUEUED\<rparr> else b)"

subsection \<open>Cancelling\<close>

record cancel_result =
  cr_batch :: bool
  cr_retries :: nat
  cr_blocked :: bool

definition scheduled_retry :: "int \<Rightarrow> payslip_delivery \<Rightarrow> bool" where
  "scheduled_retry run d \<longleftrightarrow> pd_run d = run \<and> pd_status d = DELIVERY_FAILED \<and> pd_next_retry_at d \<noteq> None"

definition cancel_distribution :: "int \<Rightarrow> int \<Rightarrow> queue_db \<Rightarrow> queue_db \<times> cancel_result" where
  "cancel_distribution now run db =
     (if first_row (\<lambda>b. bt_run b = run \<and> bt_status b = BATCH_RUNNING) (qd_batches db) \<noteq> None
      then (db, \<lparr>cr_batch = False, cr_retries = 0, cr_blocked = True\<rparr>)
      else
        let pending = first_row (\<lambda>b. bt_run b = run \<and> bt_status b \<in> {BATCH_SCHEDULED, BATCH_QUEUED}) (qd_batches db);
            batches = (case pending of
                None \<Rightarrow> qd_batches db
              | Some p \<Rightarrow> update_row bt_id (bt_id p) (\<lambda>b. b\<lparr>bt_status := BATCH_CANCELLED, bt_finished_at := Some now\<rparr>) (qd_batches db));
            rows = sd_deliveries (qd_send db);
            cancelled = map (\<lambda>d. if scheduled_retry run d then d\<lparr>pd_status := DELIVERY_CANCELLED, pd_next_retry_at := None\<rparr> else d) rows
        in (db\<lparr>qd_batches := batches, qd_send := (qd_send db)\<lparr>sd_deliveries := cancelled\<rparr>\<rparr>,
            \<lparr>cr_batch = (pending \<noteq> None), cr_retries = length (filter (scheduled_retry run) rows), cr_blocked = False\<rparr>))"

subsection \<open>Claiming and recovering batches\<close>

definition claim_next_batch :: "int \<Rightarrow> string \<Rightarrow> distribution_batch list \<Rightarrow> distribution_batch list \<times> distribution_batch option" where
  "claim_next_batch now worker batches =
     (case max_row (\<lambda>b. - bt_created_at b) (filter (\<lambda>b. bt_status b = BATCH_QUEUED) batches) of
        None \<Rightarrow> (batches, None)
      | Some b \<Rightarrow>
          (let claimed = (\<lambda>b. b\<lparr>bt_status := BATCH_RUNNING, bt_started_at := Some now, bt_worker := Some worker\<rparr>)
           in (update_row bt_id (bt_id b) claimed batches, Some (claimed b))))"

definition stale_batch :: "int \<Rightarrow> int \<Rightarrow> distribution_batch \<Rightarrow> bool" where
  "stale_batch now stale_seconds b \<longleftrightarrow> bt_status b = BATCH_RUNNING \<and>
     (case bt_started_at b of None \<Rightarrow> False | Some t \<Rightarrow> \<not> t > now - stale_seconds)"

definition reclaim_one :: "int \<Rightarrow> int \<Rightarrow> distribution_batch \<Rightarrow> distribution_batch" where
  "reclaim_one now max_reclaims b =
     (if bt_reclaims b \<ge> max_reclaims
      then b\<lparr>bt_status := BATCH_FAILED, bt_finished_at := Some now, bt_error := Some (Batch_abandoned max_reclaims)\<rparr>
      else b\<lparr>bt_reclaims := bt_reclaims b + 1, bt_status := BATCH_QUEUED, bt_started_at := None\<rparr>)"

definition reclaim_stale_batches :: "int \<Rightarrow> int \<Rightarrow> int \<Rightarrow> distribution_batch list \<Rightarrow> distribution_batch list" where
  "reclaim_stale_batches now stale_seconds max_reclaims =
     map (\<lambda>b. if stale_batch now stale_seconds b then reclaim_one now max_reclaims b else b)"

subsection \<open>Processing\<close>

text \<open>
  What happens while the worker runs: when each batch is claimed and finished, what each attempt
  of it meets, and whether the send of the batch raises, after how many items.  A failure between a claim and its outcome leaves the delivery in flight, as a
  stopped worker does.
\<close>

record queue_world =
  qw_started :: "int \<Rightarrow> int"
  qw_finished :: "int \<Rightarrow> int"
  qw_attempt :: "int \<Rightarrow> int \<Rightarrow> attempt_world"
  qw_raises :: "int \<Rightarrow> nat option"

definition finish_failed :: "int \<Rightarrow> distribution_batch \<Rightarrow> distribution_batch" where
  "finish_failed now b = b\<lparr>bt_status := BATCH_FAILED, bt_error := Some Batch_error_generic, bt_finished_at := Some now\<rparr>"

definition finish_completed :: "int \<Rightarrow> send_summary \<Rightarrow> distribution_batch \<Rightarrow> distribution_batch" where
  "finish_completed now s b =
     b\<lparr>bt_status := BATCH_COMPLETED, bt_sent := Some (ss_sent s), bt_failed := Some (ss_failed s),
       bt_unknown := Some (ss_unknown s), bt_skipped := Some (ss_skipped s), bt_finished_at := Some now\<rparr>"

definition process_batch :: "send_config \<Rightarrow> queue_world \<Rightarrow> distribution_batch \<Rightarrow> queue_db \<Rightarrow> queue_db" where
  "process_batch cfg w b db =
     (let finish = (\<lambda>f. update_row bt_id (bt_id b) f (qd_batches db))
      in case (first_row (\<lambda>r. run_id r = bt_run b) (sd_runs (qd_send db)), qw_raises w (bt_id b)) of
        (Some run, None) \<Rightarrow>
          (let (send, s) = distribute_run cfg (qw_attempt w (bt_id b)) (run_id run) (bt_channel b) (bt_only_failed b)
                             (Some (bt_id b)) (qd_send db)
           in db\<lparr>qd_send := send, qd_batches := finish (finish_completed (qw_finished w (bt_id b)) s)\<rparr>)
      | (Some run, Some n) \<Rightarrow>
          db\<lparr>qd_send := fst (foldl (distribute_item cfg (qw_attempt w (bt_id b)) (bt_channel b) (bt_only_failed b) (Some (bt_id b)))
                            (qd_send db, empty_summary) (take n (items_of (run_id run) (sd_items (qd_send db))))),
             qd_batches := finish (finish_failed (qw_finished w (bt_id b)))\<rparr>
      | (None, _) \<Rightarrow> db\<lparr>qd_batches := finish (finish_failed (qw_finished w (bt_id b)))\<rparr>)"

definition queued_count :: "queue_db \<Rightarrow> nat" where
  "queued_count db = length (filter (\<lambda>b. bt_status b = BATCH_QUEUED) (qd_batches db))"

text \<open>The worker's inner loop; it stops when nothing is queued, and \<open>QueueSafety\<close> shows that it does.\<close>

partial_function (option) process_all_queued ::
  "send_config \<Rightarrow> queue_world \<Rightarrow> string \<Rightarrow> queue_db \<Rightarrow> int list \<Rightarrow> (queue_db \<times> int list) option" where
  "process_all_queued cfg w worker db processed =
     (case max_row (\<lambda>b. - bt_created_at b) (filter (\<lambda>b. bt_status b = BATCH_QUEUED) (qd_batches db)) of
        None \<Rightarrow> Some (db, processed)
      | Some oldest \<Rightarrow>
          (case claim_next_batch (qw_started w (bt_id oldest)) worker (qd_batches db) of
             (batches, None) \<Rightarrow> Some (db, processed)
           | (batches, Some b) \<Rightarrow>
               process_all_queued cfg w worker (process_batch cfg w b (db\<lparr>qd_batches := batches\<rparr>)) (processed @ [bt_id b])))"

text \<open>The sweep of the automatic retries, grouped by run; the second result lists the runs told of a last failure.\<close>

definition due_retry :: "int \<Rightarrow> payslip_delivery \<Rightarrow> bool" where
  "due_retry now d \<longleftrightarrow> pd_status d = DELIVERY_FAILED \<and> (case pd_next_retry_at d of None \<Rightarrow> False | Some t \<Rightarrow> t \<le> now)"

definition retry_in_place :: "send_config \<Rightarrow> (int \<Rightarrow> attempt_world) \<Rightarrow> send_db \<Rightarrow> int \<Rightarrow> send_db" where
  "retry_in_place cfg world db k =
     (case first_row (\<lambda>d. pd_id d = k) (sd_deliveries db) of
        None \<Rightarrow> db
      | Some d \<Rightarrow> fst (retry_delivery cfg (world k) d db))"

definition exhausted_count :: "payslip_delivery list \<Rightarrow> int list \<Rightarrow> nat" where
  "exhausted_count rows ids =
     length (filter (\<lambda>k. case first_row (\<lambda>d. pd_id d = k) rows of None \<Rightarrow> False
       | Some d \<Rightarrow> pd_status d = DELIVERY_FAILED \<and> pd_next_retry_at d = None) ids)"

definition process_due_retries ::
  "int \<Rightarrow> send_config \<Rightarrow> (int \<Rightarrow> attempt_world) \<Rightarrow> send_db \<Rightarrow> send_db \<times> int list \<times> (int \<times> nat) list" where
  "process_due_retries now cfg world db =
     (let due = filter (due_retry now) (sd_deliveries db);
          by_run = map (\<lambda>r. (r, map pd_id (filter (\<lambda>d. pd_run d = r) due))) (fromkeys (map pd_run due))
      in foldl (\<lambda>(db, processed, told) (r, ids).
                  let db = foldl (retry_in_place cfg world) db ids;
                      n = exhausted_count (sd_deliveries db) ids
                  in (db, processed @ ids, if n = 0 then told else told @ [(r, n)]))
           (db, [], []) by_run)"

definition drain_once ::
  "int \<Rightarrow> int \<Rightarrow> int \<Rightarrow> send_config \<Rightarrow> queue_world \<Rightarrow> (int \<Rightarrow> attempt_world) \<Rightarrow> string \<Rightarrow> queue_db \<Rightarrow> (queue_db \<times> bool) option" where
  "drain_once now stale_seconds max_reclaims cfg w world worker db =
     (let db = db\<lparr>qd_batches := activate_due_scheduled now (qd_batches db)\<rparr>;
          send = qd_send db;
          db = db\<lparr>qd_send := send\<lparr>sd_deliveries := fst (recover_stale_claims now (sd_deliveries send))\<rparr>\<rparr>;
          db = db\<lparr>qd_batches := reclaim_stale_batches now stale_seconds max_reclaims (qd_batches db)\<rparr>
      in case process_all_queued cfg w worker db [] of
           None \<Rightarrow> None
         | Some (db, processed) \<Rightarrow>
             (let (send, retried, told) = process_due_retries now cfg world (qd_send db)
              in Some (db\<lparr>qd_send := send\<rparr>, processed \<noteq> [] \<or> retried \<noteq> [])))"

subsection \<open>What the portals show\<close>

definition ACTIVE_BATCH_STATUSES :: "string list" where
  "ACTIVE_BATCH_STATUSES = [BATCH_QUEUED, BATCH_RUNNING]"

definition latest_batch :: "int \<Rightarrow> distribution_batch list \<Rightarrow> distribution_batch option" where
  "latest_batch run batches = max_row bt_created_at (filter (\<lambda>b. bt_run b = run) batches)"

record delivery_context =
  dc_sent :: nat
  dc_failed :: nat
  dc_unknown :: nat
  dc_in_flight :: bool
  dc_live :: bool
  dc_scheduled :: bool
  dc_seconds_until :: "int option"
  dc_cancellable :: bool

definition delivery_status_context :: "int \<Rightarrow> int \<Rightarrow> queue_db \<Rightarrow> delivery_context" where
  "delivery_status_context now run db =
     (let items = items_of run (sd_items (qd_send db));
          latest = latest_deliveries_by_item (map item_id items) (sd_deliveries (qd_send db));
          rows = map (\<lambda>i. latest (item_id i)) items;
          count = (\<lambda>st. length (filter (\<lambda>d. case d of None \<Rightarrow> False | Some d \<Rightarrow> pd_status d = st) rows));
          batch = latest_batch run (qd_batches db);
          pending_retry = list_ex (\<lambda>d. case d of None \<Rightarrow> False | Some d \<Rightarrow> pd_status d = DELIVERY_FAILED \<and> pd_next_retry_at d \<noteq> None) rows;
          status = (case batch of None \<Rightarrow> [] | Some b \<Rightarrow> bt_status b);
          active = (status \<in> set ACTIVE_BATCH_STATUSES);
          scheduled = (status = BATCH_SCHEDULED)
      in \<lparr>dc_sent = count DELIVERY_SENT, dc_failed = count DELIVERY_FAILED, dc_unknown = count DELIVERY_UNKNOWN,
          dc_in_flight = (active \<or> pending_retry \<or> scheduled), dc_live = (active \<or> pending_retry), dc_scheduled = scheduled,
          dc_seconds_until = (if scheduled then map_option (\<lambda>t. t - now) (case batch of None \<Rightarrow> None | Some b \<Rightarrow> bt_scheduled_for b) else None),
          dc_cancellable = (scheduled \<or> status = BATCH_QUEUED \<or> pending_retry)\<rparr>)"

end
