(* ===== verification/QueueSafety.thy ===== *)
theory QueueSafety
  imports Queue DeliverySafety
begin

text \<open>
  The distribution queue never piles up work for a run, never reopens a finished batch, gives
  up on a batch whose worker keeps dying, and is emptied by every pass of the worker.
\<close>

subsection \<open>A batch table under interleaved operations\<close>

text \<open>
  Every operation of the queue rewrites batches one by one or appends one; the claims are logged,
  newest first.  A worker that was presumed dead may still finish: \<open>q_finish\<close> takes any batch that
  was claimed.
\<close>

record queue_system =
  qs_batches :: "distribution_batch list"
  qs_claims :: "int list"

definition unfinished :: "distribution_batch \<Rightarrow> bool" where
  "unfinished b \<longleftrightarrow> bt_status b \<in> set BATCH_PENDING_STATUSES"

inductive queue_step :: "int \<Rightarrow> queue_system \<Rightarrow> queue_system \<Rightarrow> bool" for max_reclaims where
  q_enqueue: "enqueue_distribution now run ch only_failed actor scheduled \<lparr>qd_send = send, qd_batches = qs_batches q\<rparr> = (db, b, again) \<Longrightarrow>
    queue_step max_reclaims q (q\<lparr>qs_batches := qd_batches db\<rparr>)"
| q_reschedule: "reschedule_distribution now run t (qs_batches q) = (batches, out) \<Longrightarrow>
    queue_step max_reclaims q (q\<lparr>qs_batches := batches\<rparr>)"
| q_activate: "queue_step max_reclaims q (q\<lparr>qs_batches := activate_due_scheduled now (qs_batches q)\<rparr>)"
| q_cancel: "cancel_distribution now run \<lparr>qd_send = send, qd_batches = qs_batches q\<rparr> = (db, res) \<Longrightarrow>
    queue_step max_reclaims q (q\<lparr>qs_batches := qd_batches db\<rparr>)"
| q_claim: "claim_next_batch now worker (qs_batches q) = (batches, Some b) \<Longrightarrow>
    queue_step max_reclaims q (q\<lparr>qs_batches := batches, qs_claims := bt_id b # qs_claims q\<rparr>)"
| q_finish: "k \<in> set (qs_claims q) \<Longrightarrow>
    queue_step max_reclaims q (q\<lparr>qs_batches := update_row bt_id k (if failed then finish_failed now else finish_completed now s) (qs_batches q)\<rparr>)"
| q_reclaim: "queue_step max_reclaims q (q\<lparr>qs_batches := reclaim_stale_batches now stale max_reclaims (qs_batches q)\<rparr>)"

inductive queue_reachable :: "int \<Rightarrow> queue_system \<Rightarrow> bool" for max_reclaims where
  q_start: "queue_reachable max_reclaims \<lparr>qs_batches = [], qs_claims = []\<rparr>"
| q_step: "queue_reachable max_reclaims q \<Longrightarrow> queue_step max_reclaims q q' \<Longrightarrow> queue_reachable max_reclaims q'"

text \<open>One batch of the table: its recoveries are bounded, and its claims by its recoveries.\<close>

definition batch_ok :: "int \<Rightarrow> int list \<Rightarrow> distribution_batch \<Rightarrow> bool" where
  "batch_ok max_reclaims claims b \<longleftrightarrow> 0 \<le> bt_reclaims b \<and> bt_reclaims b \<le> max_reclaims \<and>
     int (count_list claims (bt_id b)) \<le> bt_reclaims b + (if bt_status b \<in> {BATCH_SCHEDULED, BATCH_QUEUED} then 0 else 1)"

definition queue_inv :: "int \<Rightarrow> queue_system \<Rightarrow> bool" where
  "queue_inv max_reclaims q \<longleftrightarrow> distinct (map bt_id (qs_batches q)) \<and>
     distinct (map bt_run (filter unfinished (qs_batches q))) \<and>
     set (qs_claims q) \<subseteq> bt_id ` set (qs_batches q) \<and>
     (\<forall>b\<in>set (qs_batches q). batch_ok max_reclaims (qs_claims q) b)"

text \<open>A step that rewrites batches in place: none is reopened, each stays within its bound.\<close>

lemma queue_inv_map:
  assumes inv: "queue_inv m q" and h: "\<And>b. bt_id (h b) = bt_id b" "\<And>b. bt_run (h b) = bt_run b"
    "\<And>b. b \<in> set (qs_batches q) \<Longrightarrow> unfinished (h b) \<Longrightarrow> unfinished b"
    and ok: "\<And>b. b \<in> set (qs_batches q) \<Longrightarrow> batch_ok m (qs_claims q) b \<Longrightarrow> batch_ok m claims (h b)"
    and claims: "set claims \<subseteq> bt_id ` set (qs_batches q)"
  shows "queue_inv m \<lparr>qs_batches = map h (qs_batches q), qs_claims = claims\<rparr>"
proof -
  have sub: "distinct (map bt_run (filter unfinished (map h bs)))"
    if "distinct (map bt_run (filter unfinished bs))" "\<And>b. b \<in> set bs \<Longrightarrow> unfinished (h b) \<Longrightarrow> unfinished b" for bs
    using that
  proof (induction bs)
    case (Cons a bs)
    have "bt_run ` set (filter unfinished (map h bs)) \<subseteq> bt_run ` set (filter unfinished bs)"
      using Cons.prems(2) h(2) by fastforce
    moreover have "distinct (map bt_run (filter unfinished (map h bs)))"
      using Cons.prems by (intro Cons.IH) (auto split: if_splits)
    ultimately show ?case using Cons.prems by (auto simp: h(2) split: if_splits)
  qed simp
  show ?thesis
    using inv ok claims sub h by (auto simp: queue_inv_def comp_def image_image)
qed

lemma update_row_map: "update_row key k f rows = map (\<lambda>x. if key x = k then f x else x) rows"
  by (simp add: update_row_def)

lemma pending_statuses: "set BATCH_PENDING_STATUSES = {BATCH_SCHEDULED, BATCH_QUEUED, BATCH_RUNNING}"
  by (simp add: BATCH_PENDING_STATUSES_def)

lemma batch_neq [simp]:
  "BATCH_SCHEDULED \<noteq> BATCH_QUEUED" "BATCH_SCHEDULED \<noteq> BATCH_RUNNING" "BATCH_SCHEDULED \<noteq> BATCH_COMPLETED"
  "BATCH_SCHEDULED \<noteq> BATCH_FAILED" "BATCH_SCHEDULED \<noteq> BATCH_CANCELLED" "BATCH_QUEUED \<noteq> BATCH_SCHEDULED"
  "BATCH_QUEUED \<noteq> BATCH_RUNNING" "BATCH_QUEUED \<noteq> BATCH_COMPLETED" "BATCH_QUEUED \<noteq> BATCH_FAILED" "BATCH_QUEUED \<noteq> BATCH_CANCELLED"
  "BATCH_RUNNING \<noteq> BATCH_SCHEDULED" "BATCH_RUNNING \<noteq> BATCH_QUEUED" "BATCH_RUNNING \<noteq> BATCH_COMPLETED" "BATCH_RUNNING \<noteq> BATCH_FAILED"
  "BATCH_RUNNING \<noteq> BATCH_CANCELLED" "BATCH_COMPLETED \<noteq> BATCH_SCHEDULED" "BATCH_COMPLETED \<noteq> BATCH_QUEUED"
  "BATCH_COMPLETED \<noteq> BATCH_RUNNING" "BATCH_FAILED \<noteq> BATCH_SCHEDULED" "BATCH_FAILED \<noteq> BATCH_QUEUED" "BATCH_FAILED \<noteq> BATCH_RUNNING"
  "BATCH_CANCELLED \<noteq> BATCH_SCHEDULED" "BATCH_CANCELLED \<noteq> BATCH_QUEUED" "BATCH_CANCELLED \<noteq> BATCH_RUNNING"
  by (simp_all add: batch_status_defs)

lemma same_key: "distinct (map key rows) \<Longrightarrow> x \<in> set rows \<Longrightarrow> y \<in> set rows \<Longrightarrow> key x = key y \<Longrightarrow> x = y"
  by (auto simp: distinct_map dest: inj_onD)

lemma queue_same: "q\<lparr>qs_batches := bs\<rparr> = \<lparr>qs_batches = bs, qs_claims = qs_claims q\<rparr>"
  "q\<lparr>qs_batches := bs, qs_claims := c\<rparr> = \<lparr>qs_batches = bs, qs_claims = c\<rparr>"
  by simp_all

lemma queue_claims: "queue_inv m q \<Longrightarrow> set (qs_claims q) \<subseteq> bt_id ` set (qs_batches q)"
  by (simp add: queue_inv_def)

lemma fresh_batch_new: "fresh_batch_id bs \<notin> bt_id ` set bs"
proof -
  have "bt_id b \<le> foldr max (map bt_id bs) 0" if "b \<in> set bs" for b using that by (induction bs) auto
  then show ?thesis by (force simp: fresh_batch_id_def)
qed

lemma inv_enqueue:
  assumes inv: "queue_inv m q" and m: "0 \<le> m"
    and e: "enqueue_distribution now run ch only_failed actor scheduled \<lparr>qd_send = send, qd_batches = qs_batches q\<rparr> = (db, b, again)"
  shows "queue_inv m (q\<lparr>qs_batches := qd_batches db\<rparr>)"
proof (cases "in_flight_batch (run_id run) (qs_batches q)")
  case (Some x)
  then show ?thesis using e inv by (auto simp: enqueue_distribution_def)
next
  case None
  then have batches: "qd_batches db = qs_batches q @ [b]" and b: "bt_id b = fresh_batch_id (qs_batches q)" "bt_run b = run_id run"
      "bt_reclaims b = 0" "bt_status b \<in> {BATCH_SCHEDULED, BATCH_QUEUED}"
    using e by (auto simp: enqueue_distribution_def Let_def split: if_splits)
  have new: "bt_id b \<notin> bt_id ` set (qs_batches q)" using fresh_batch_new b(1) by simp
  have free: "\<not> unfinished x" if "x \<in> set (qs_batches q)" "bt_run x = run_id run" for x
    using None that by (simp add: in_flight_batch_def first_row_None_iff unfinished_def)
  have "bt_id b \<notin> set (qs_claims q)" using queue_claims [OF inv] new by blast
  then have "batch_ok m (qs_claims q) b" using b m by (simp add: batch_ok_def)
  then show ?thesis using inv new free b(2) by (auto simp: queue_inv_def batches)
qed

lemma inv_claim_batch:
  assumes inv: "queue_inv m q" and c: "claim_next_batch now worker (qs_batches q) = (batches, Some b)"
  shows "queue_inv m (q\<lparr>qs_batches := batches, qs_claims := bt_id b # qs_claims q\<rparr>)"
proof -
  obtain x where x: "x \<in> set (qs_batches q)" "bt_status x = BATCH_QUEUED" "bt_id b = bt_id x"
    and batches: "batches = update_row bt_id (bt_id x) (\<lambda>b. b\<lparr>bt_status := BATCH_RUNNING, bt_started_at := Some now, bt_worker := Some worker\<rparr>) (qs_batches q)"
    using c max_row_SomeD by (fastforce simp: claim_next_batch_def Let_def split: option.splits)
  have same: "y = x" if "y \<in> set (qs_batches q)" "bt_id y = bt_id x" for y
    using inv x(1) that by (auto simp: queue_inv_def distinct_map dest: inj_onD)
  show ?thesis unfolding queue_same(2) batches update_row_map
  proof (rule queue_inv_map [OF inv])
    show "batch_ok m (bt_id b # qs_claims q) (if bt_id y = bt_id x then y\<lparr>bt_status := BATCH_RUNNING, bt_started_at := Some now, bt_worker := Some worker\<rparr> else y)"
      if "y \<in> set (qs_batches q)" "batch_ok m (qs_claims q) y" for y
      using that x same [OF that(1)] by (auto simp: batch_ok_def)
    show "unfinished y"
      if "y \<in> set (qs_batches q)" "unfinished (if bt_id y = bt_id x then y\<lparr>bt_status := BATCH_RUNNING, bt_started_at := Some now, bt_worker := Some worker\<rparr> else y)" for y
      using that x same [OF that(1)] by (auto simp: unfinished_def pending_statuses split: if_splits)
    show "set (bt_id b # qs_claims q) \<subseteq> bt_id ` set (qs_batches q)" using queue_claims [OF inv] x by auto
  qed auto
qed

lemma inv_in_place:
  assumes inv: "queue_inv m q" and h: "\<And>b. bt_id (h b) = bt_id b" "\<And>b. bt_run (h b) = bt_run b"
    "\<And>b. b \<in> set (qs_batches q) \<Longrightarrow> unfinished (h b) \<Longrightarrow> unfinished b"
    and ok: "\<And>b. b \<in> set (qs_batches q) \<Longrightarrow> batch_ok m (qs_claims q) b \<Longrightarrow> batch_ok m (qs_claims q) (h b)"
  shows "queue_inv m (q\<lparr>qs_batches := map h (qs_batches q)\<rparr>)"
  unfolding queue_same(1) by (rule queue_inv_map [OF inv h ok queue_claims [OF inv]])

lemma queue_inv_step:
  assumes "queue_step m q q'" "queue_inv m q" "0 \<le> m"
  shows "queue_inv m q'"
  using assms
proof (induction rule: queue_step.induct)
  case (q_enqueue now run ch only_failed actor scheduled send q db b again)
  then show ?case by (intro inv_enqueue)
next
  case (q_reschedule now run t q batches out)
  show ?case
  proof (cases "batches = qs_batches q")
    case True
    then show ?thesis using q_reschedule by simp
  next
    case False
    then obtain k where "batches = update_row bt_id k (\<lambda>b. b\<lparr>bt_scheduled_for := t\<rparr>) (qs_batches q)"
      using q_reschedule(1) by (auto simp: reschedule_distribution_def split: option.splits if_splits)
    then show ?thesis unfolding update_row_map
      by (simp only:) (rule inv_in_place [OF q_reschedule(2)], auto simp: unfinished_def batch_ok_def split: if_splits)
  qed
next
  case (q_activate q now)
  show ?case unfolding activate_due_scheduled_def
    by (rule inv_in_place [OF q_activate(1)])
      (auto simp: unfinished_def batch_ok_def due_batch_def pending_statuses split: if_splits)
next
  case (q_cancel now run send q db res)
  show ?case
  proof (cases "qd_batches db = qs_batches q")
    case True
    then show ?thesis using q_cancel by simp
  next
    case False
    then obtain k where "qd_batches db = update_row bt_id k (\<lambda>b. b\<lparr>bt_status := BATCH_CANCELLED, bt_finished_at := Some now\<rparr>) (qs_batches q)"
      using q_cancel(1) by (auto simp: cancel_distribution_def Let_def split: option.splits if_splits)
    then show ?thesis unfolding update_row_map
      by (simp only:) (rule inv_in_place [OF q_cancel(2)], auto simp: unfinished_def batch_ok_def pending_statuses split: if_splits)
  qed
next
  case (q_claim now worker q batches b)
  then show ?case by (intro inv_claim_batch)
next
  case (q_finish k q failed now s)
  show ?case unfolding update_row_map
    by (rule inv_in_place [OF q_finish(2)])
      (auto simp: unfinished_def batch_ok_def pending_statuses finish_failed_def finish_completed_def split: if_splits)
next
  case (q_reclaim q now stale)
  show ?case unfolding reclaim_stale_batches_def
    by (rule inv_in_place [OF q_reclaim(1)])
      (auto simp: unfinished_def batch_ok_def pending_statuses reclaim_one_def stale_batch_def split: if_splits)
qed

lemma queue_reachable_inv: "queue_reachable m q \<Longrightarrow> 0 \<le> m \<Longrightarrow> queue_inv m q"
proof (induction rule: queue_reachable.induct)
  case q_start
  then show ?case by (simp add: queue_inv_def)
next
  case (q_step q q')
  then show ?case by (blast intro: queue_inv_step)
qed

text \<open>
  C31: a run has one unfinished batch, and a batch is abandoned in the end.  Whatever sequence of
  operations, each a transaction of its own (enqueuing, scheduling, cancelling, claiming, finishing also by workers presumed dead,
  recovering) led here, no run has two unfinished batches, no batch was recovered more than
  the configured number of times, and none was claimed more than once beyond that.
\<close>
theorem queue_stays_bounded:
  assumes "queue_reachable max_reclaims q" "0 \<le> max_reclaims"
  shows "distinct (map bt_run (filter unfinished (qs_batches q))) \<and>
    (\<forall>b\<in>set (qs_batches q). 0 \<le> bt_reclaims b \<and> bt_reclaims b \<le> max_reclaims \<and>
       int (count_list (qs_claims q) (bt_id b)) \<le> max_reclaims + 1)"
proof -
  have inv: "queue_inv max_reclaims q" by (rule queue_reachable_inv [OF assms])
  have "0 \<le> bt_reclaims b \<and> bt_reclaims b \<le> max_reclaims \<and> int (count_list (qs_claims q) (bt_id b)) \<le> max_reclaims + 1"
    if "b \<in> set (qs_batches q)" for b
  proof -
    have "batch_ok max_reclaims (qs_claims q) b" using inv that by (simp add: queue_inv_def)
    then show ?thesis by (auto simp: batch_ok_def split: if_splits)
  qed
  then show ?thesis using inv by (simp add: queue_inv_def)
qed

text \<open>A batch whose first worker died: queued, claimed, recovered and claimed again.\<close>

lemma queue_stays_bounded_witness:
  "\<exists>q b. queue_reachable 3 q \<and> qs_claims q = [1, 1] \<and> qs_batches q = [b] \<and> unfinished b \<and> bt_reclaims b \<le> 3"
proof -
  obtain run :: payroll_run and send :: send_db where True by simp
  define b0 where "b0 = fst (snd (enqueue_distribution 0 run ''auto'' False None None \<lparr>qd_send = send, qd_batches = []\<rparr>))"
  have e: "enqueue_distribution 0 run ''auto'' False None None \<lparr>qd_send = send, qd_batches = []\<rparr>
      = (\<lparr>qd_send = send, qd_batches = [b0]\<rparr>, b0, False)" and b0: "bt_id b0 = 1" "bt_status b0 = BATCH_QUEUED" "bt_reclaims b0 = 0"
    by (simp_all add: b0_def enqueue_distribution_def in_flight_batch_def Let_def fresh_batch_id_def)
  have q0: "queue_reachable 3 \<lparr>qs_batches = [b0], qs_claims = []\<rparr>"
    using queue_reachable.q_step [OF queue_reachable.q_start queue_step.q_enqueue] e by fastforce
  define run1 where "run1 t b = b\<lparr>bt_status := BATCH_RUNNING, bt_started_at := Some t, bt_worker := Some ''w''\<rparr>" for t and b :: distribution_batch
  have claim: "claim_next_batch t ''w'' [b] = ([run1 t b], Some (run1 t b))" if "bt_status b = BATCH_QUEUED" for t b
    using that by (simp add: claim_next_batch_def run1_def update_row_def)
  have q1: "queue_reachable 3 \<lparr>qs_batches = [run1 0 b0], qs_claims = [1]\<rparr>"
    using queue_reachable.q_step [OF q0 queue_step.q_claim, of 0 "''w''"] claim [of b0 0] b0 by (simp add: run1_def)
  define b2 where "b2 = reclaim_one 2000 3 (run1 0 b0)"
  have b2: "bt_status b2 = BATCH_QUEUED" "bt_id b2 = 1" "bt_reclaims b2 = 1" by (simp_all add: b2_def reclaim_one_def run1_def b0)
  have q2: "queue_reachable 3 \<lparr>qs_batches = [b2], qs_claims = [1]\<rparr>"
    using queue_reachable.q_step [OF q1 queue_step.q_reclaim, of 2000 900]
    by (simp add: reclaim_stale_batches_def stale_batch_def b2_def run1_def)
  have q3: "queue_reachable 3 \<lparr>qs_batches = [run1 2000 b2], qs_claims = [1, 1]\<rparr>"
    using queue_reachable.q_step [OF q2 queue_step.q_claim, of 2000 "''w''"] claim [of b2 2000] b2 by (simp add: run1_def)
  have "unfinished (run1 2000 b2)" by (simp add: unfinished_def run1_def pending_statuses)
  then show ?thesis using queue_stays_bounded [OF q3] q3 by (intro exI [of _ "\<lparr>qs_batches = [run1 2000 b2], qs_claims = [1, 1]\<rparr>"]) auto
qed

subsection \<open>Emptying the queue\<close>

definition queued :: "distribution_batch \<Rightarrow> bool" where
  "queued b \<longleftrightarrow> bt_status b = BATCH_QUEUED"

lemma oldest_first:
  "max_row (\<lambda>b. - f b :: int) xs = Some x \<Longrightarrow> sort_key f xs = x # sort_key f (remove1 x xs)"
proof (induction xs arbitrary: x)
  case (Cons a xs)
  show ?case
  proof (cases "max_row (\<lambda>b. - f b) xs")
    case None
    then show ?thesis using Cons.prems by simp
  next
    case (Some y)
    note y = Cons.IH [OF Some]
    have least: "f y \<le> f z" if "z \<in> set xs" for z using max_row_SomeD [OF Some] that by auto
    show ?thesis
    proof (cases "f y < f a")
      case True
      then have "x = y" "a \<noteq> y" using Cons.prems Some by auto
      then show ?thesis using y True by simp
    next
      case False
      then have "x = a" using Cons.prems Some by simp
      moreover have "insort_key f a (sort_key f xs) = a # sort_key f xs"
        using False least by (intro insort_is_Cons) force
      ultimately show ?thesis by simp
    qed
  qed
qed simp

lemma filter_update_gone:
  assumes "distinct (map key rows)" "x \<in> set rows" "p x" "\<And>y. \<not> p (f y)"
  shows "filter p (update_row key (key x) f rows) = remove1 x (filter p rows)"
  using assms(1,2)
proof (induction rows)
  case (Cons y rows)
  have same: "update_row key (key x) f rows = rows" if "key x \<notin> key ` set rows"
    unfolding update_row_def by (rule map_idI) (metis image_eqI that)
  show ?case using Cons assms(3,4) same by (auto simp: update_row_def)
qed simp

lemma filter_update_same:
  assumes "\<And>y. y \<in> set rows \<Longrightarrow> key y = k \<Longrightarrow> \<not> p y" "\<And>y. \<not> p (f y)"
  shows "filter p (update_row key k f rows) = filter p rows"
  using assms by (induction rows) (auto simp: update_row_def)

lemma process_batches:
  "\<exists>f. qd_batches (process_batch cfg w b db) = update_row bt_id (bt_id b) f (qd_batches db) \<and>
     (\<forall>y. bt_status (f y) \<in> {BATCH_COMPLETED, BATCH_FAILED} \<and> bt_id (f y) = bt_id y)"
  by (auto simp: process_batch_def Let_def finish_completed_def finish_failed_def split: option.splits prod.splits)

text \<open>What a pass does to each batch.\<close>

definition worked_off :: "distribution_batch \<Rightarrow> distribution_batch \<Rightarrow> bool" where
  "worked_off b b' \<longleftrightarrow> bt_id b' = bt_id b \<and>
     (if queued b then bt_status b' \<in> {BATCH_COMPLETED, BATCH_FAILED} else b' = b)"

definition worked_step :: "distribution_batch \<Rightarrow> distribution_batch \<Rightarrow> bool" where
  "worked_step b b' \<longleftrightarrow> b' = b \<or> queued b \<and> bt_id b' = bt_id b \<and> bt_status b' \<in> {BATCH_COMPLETED, BATCH_FAILED}"

lemma worked_compose: "list_all2 worked_step bs bs1 \<Longrightarrow> list_all2 worked_off bs1 bs' \<Longrightarrow> list_all2 worked_off bs bs'"
  by (rule list_all2_trans [where ?P1.0 = worked_step and ?P2.0 = worked_off])
    (auto simp: worked_step_def worked_off_def queued_def split: if_splits)

lemma one_batch:
  assumes D: "distinct (map bt_id (qd_batches db))"
    and x: "max_row (\<lambda>b. - bt_created_at b) (filter queued (qd_batches db)) = Some x"
    and c: "claim_next_batch now worker (qd_batches db) = (batches, Some b)"
  shows "bt_id b = bt_id x" and "filter queued (qd_batches (process_batch cfg w b (db\<lparr>qd_batches := batches\<rparr>))) = remove1 x (filter queued (qd_batches db))"
    and "list_all2 worked_step (qd_batches db) (qd_batches (process_batch cfg w b (db\<lparr>qd_batches := batches\<rparr>)))"
proof -
  define g :: "distribution_batch \<Rightarrow> distribution_batch" where "g = (\<lambda>b. b\<lparr>bt_status := BATCH_RUNNING, bt_started_at := Some now, bt_worker := Some worker\<rparr>)"
  have xin: "x \<in> set (qd_batches db)" "queued x" using max_row_SomeD [OF x] by auto
  have b: "b = g x" "batches = update_row bt_id (bt_id x) g (qd_batches db)"
    using c x by (auto simp: claim_next_batch_def g_def queued_def [abs_def] Let_def)
  show id: "bt_id b = bt_id x" by (simp add: b g_def)
  obtain f where f: "qd_batches (process_batch cfg w b (db\<lparr>qd_batches := batches\<rparr>)) = update_row bt_id (bt_id x) f batches"
    "\<And>y. bt_status (f y) \<in> {BATCH_COMPLETED, BATCH_FAILED}" "\<And>y. bt_id (f y) = bt_id y"
    using process_batches [of cfg w b "db\<lparr>qd_batches := batches\<rparr>"] id by auto
  have nf: "\<not> queued (f y)" for y using f(2) [of y] batch_neq by (auto simp: queued_def)
  have ng: "\<not> queued (g y)" for y by (simp add: g_def queued_def)
  have "filter queued (update_row bt_id (bt_id x) f batches) = filter queued batches"
    using nf ng by (intro filter_update_same) (auto simp: b update_row_def g_def)
  also have "\<dots> = remove1 x (filter queued (qd_batches db))"
    unfolding b by (rule filter_update_gone [OF D xin ng])
  finally show "filter queued (qd_batches (process_batch cfg w b (db\<lparr>qd_batches := batches\<rparr>))) = remove1 x (filter queued (qd_batches db))"
    by (simp add: f(1))
  have "worked_step y (if bt_id y = bt_id x then f (g y) else y)" if "y \<in> set (qd_batches db)" for y
    using same_key [OF D that xin(1)] xin(2) f(2,3) by (auto simp: worked_step_def g_def)
  moreover have "update_row bt_id (bt_id x) f batches = map (\<lambda>y. if bt_id y = bt_id x then f (g y) else y) (qd_batches db)"
    by (auto simp: b update_row_def g_def)
  ultimately show "list_all2 worked_step (qd_batches db) (qd_batches (process_batch cfg w b (db\<lparr>qd_batches := batches\<rparr>)))"
    by (simp add: f(1) list_all2_map2 list.rel_refl_strong)
qed

text \<open>
  C32: the worker empties the queue.  The loop that claims and processes queued batches ends,
  whatever the sends of the batches meet.  It takes the queued batches oldest first, each once,
  leaves every one of them completed or failed, and touches no other batch.
\<close>
theorem queue_drained:
  assumes "distinct (map bt_id (qd_batches db))"
  shows "\<exists>db'. process_all_queued cfg w worker db earlier =
      Some (db', earlier @ map bt_id (sort_key bt_created_at (filter queued (qd_batches db)))) \<and>
    queued_count db' = 0 \<and> list_all2 worked_off (qd_batches db) (qd_batches db')"
  using assms
proof (induction "length (filter queued (qd_batches db))" arbitrary: db earlier)
  case 0
  then have none: "filter queued (qd_batches db) = []" by simp
  have "list_all2 worked_off (qd_batches db) (qd_batches db)"
    using none by (auto simp: list.rel_refl_strong worked_off_def filter_empty_conv)
  then show ?case using none
    by (subst process_all_queued.simps) (simp add: queued_def [abs_def] queued_count_def)
next
  case (Suc n)
  obtain x where x: "max_row (\<lambda>b. - bt_created_at b) (filter queued (qd_batches db)) = Some x"
    using Suc.hyps(2) by (cases "max_row (\<lambda>b. - bt_created_at b) (filter queued (qd_batches db))") auto
  obtain batches b where c: "claim_next_batch (qw_started w (bt_id x)) worker (qd_batches db) = (batches, Some b)"
    using x by (simp add: claim_next_batch_def queued_def [abs_def] Let_def)
  note one = one_batch(1) [OF Suc.prems x c] one_batch(2,3) [OF Suc.prems x c, of cfg w]
  define db1 where "db1 = process_batch cfg w b (db\<lparr>qd_batches := batches\<rparr>)"
  have "map bt_id (qd_batches db1) = map bt_id (qd_batches db)"
    using one(3) unfolding db1_def by (induction rule: list_all2_induct) (auto simp: worked_step_def)
  then have D: "distinct (map bt_id (qd_batches db1))" using Suc.prems by simp
  have "x \<in> set (filter queued (qd_batches db))" using max_row_SomeD [OF x] by simp
  then have "n = length (filter queued (qd_batches db1))"
    using Suc.hyps(2) one(2) by (simp add: db1_def length_remove1)
  from Suc.hyps(1) [OF this D, of "earlier @ [bt_id b]"]
  obtain db' where db': "process_all_queued cfg w worker db1 (earlier @ [bt_id b]) =
      Some (db', earlier @ [bt_id b] @ map bt_id (sort_key bt_created_at (filter queued (qd_batches db1))))"
    "queued_count db' = 0" "list_all2 worked_off (qd_batches db1) (qd_batches db')" by auto
  have "process_all_queued cfg w worker db earlier = process_all_queued cfg w worker db1 (earlier @ [bt_id b])"
    using x c by (subst process_all_queued.simps) (simp add: queued_def [abs_def] db1_def)
  moreover have "map bt_id (sort_key bt_created_at (filter queued (qd_batches db))) =
      bt_id b # map bt_id (sort_key bt_created_at (filter queued (qd_batches db1)))"
    using oldest_first [OF x] one(1,2) by (simp add: db1_def)
  ultimately show ?case using db' worked_compose [OF one(3)] by (auto simp: db1_def)
qed

text \<open>Two queued batches, the younger one first in the table.\<close>

definition sample_batch :: "int \<Rightarrow> int \<Rightarrow> string \<Rightarrow> distribution_batch" where
  "sample_batch k created status = \<lparr>bt_id = k, bt_run = k, bt_client = Some 1, bt_channel = CHANNEL_AUTO, bt_only_failed = False,
     bt_status = status, bt_by_user = None, bt_by_role = None, bt_total = Some 0, bt_sent = None, bt_failed = None,
     bt_unknown = None, bt_skipped = None, bt_error = None, bt_scheduled_for = None, bt_created_at = created,
     bt_started_at = None, bt_finished_at = None, bt_worker = None, bt_reclaims = 0\<rparr>"

definition sample_queue :: "string \<Rightarrow> payslip_delivery list \<Rightarrow> queue_db" where
  "sample_queue status rows = \<lparr>qd_send = \<lparr>sd_items = [], sd_runs = [], sd_employees = [], sd_deliveries = rows, sd_calls = []\<rparr>,
     qd_batches = [sample_batch 1 20 status, sample_batch 2 10 BATCH_QUEUED]\<rparr>"

lemma queue_drained_witness:
  "\<exists>db'. process_all_queued \<lparr>cfg_desktop = False, cfg_max_attempts = 3, cfg_backoff_base = 60\<rparr>
      \<lparr>qw_started = (\<lambda>_. 30), qw_finished = (\<lambda>_. 31),
       qw_attempt = (\<lambda>_ _. \<lparr>aw_now = 30, aw_prepared = True, aw_result = accepted\<rparr>), qw_raises = (\<lambda>_. None)\<rparr>
      ''w'' (sample_queue BATCH_QUEUED []) [] = Some (db', [2, 1]) \<and> queued_count db' = 0"
proof -
  have d: "distinct (map bt_id (qd_batches (sample_queue BATCH_QUEUED [])))" by (simp add: sample_queue_def sample_batch_def)
  have s: "map bt_id (sort_key bt_created_at (filter queued (qd_batches (sample_queue BATCH_QUEUED [])))) = [2, 1]"
    by (simp add: sample_queue_def sample_batch_def queued_def)
  show ?thesis using queue_drained [OF d, where earlier = "[]"] unfolding s by fastforce
qed

subsection \<open>Cancelling\<close>

lemma cancelled_no_retry:
  "\<not> scheduled_retry run (if scheduled_retry run d then d\<lparr>pd_status := DELIVERY_CANCELLED, pd_next_retry_at := None\<rparr> else d)"
  by (simp add: scheduled_retry_def)

text \<open>
  Cancelling stops everything that is not yet sent.  A cancellation is refused exactly while
  a batch of the run is running, and then changes nothing.  Otherwise no unfinished batch of the
  run and no automatic retry of its deliveries remains, while finished batches, the batches of
  other runs and every delivery that was not waiting for a retry are as they were.
\<close>
theorem cancel_stops_unsent:
  assumes "distinct (map bt_id (qd_batches db))" "distinct (map bt_run (filter unfinished (qd_batches db)))"
    "cancel_distribution now run db = (db', r)"
  shows "(cr_blocked r \<longleftrightarrow> (\<exists>b\<in>set (qd_batches db). bt_run b = run \<and> bt_status b = BATCH_RUNNING)) \<and>
    (if cr_blocked r then db' = db
     else (\<forall>b\<in>set (qd_batches db'). bt_run b = run \<longrightarrow> \<not> unfinished b) \<and>
       (\<forall>d\<in>set (sd_deliveries (qd_send db')). \<not> scheduled_retry run d) \<and>
       (\<forall>b\<in>set (qd_batches db). bt_run b \<noteq> run \<or> \<not> unfinished b \<longrightarrow> b \<in> set (qd_batches db')) \<and>
       (\<forall>d\<in>set (sd_deliveries (qd_send db)). \<not> scheduled_retry run d \<longrightarrow> d \<in> set (sd_deliveries (qd_send db'))))"
proof -
  have blocked: "cr_blocked r \<longleftrightarrow> (\<exists>b\<in>set (qd_batches db). bt_run b = run \<and> bt_status b = BATCH_RUNNING)"
    using assms(3) by (auto simp: cancel_distribution_def Let_def first_row_None_iff split: if_splits
        dest: first_row_SomeD)
  show ?thesis
  proof (cases "cr_blocked r")
    case True
    then show ?thesis using assms(3) blocked by (auto simp: cancel_distribution_def Let_def split: if_splits)
  next
    case False
    define pending where "pending = first_row (\<lambda>b. bt_run b = run \<and> bt_status b \<in> {BATCH_SCHEDULED, BATCH_QUEUED}) (qd_batches db)"
    define cancel :: "distribution_batch \<Rightarrow> distribution_batch" where
      "cancel = (\<lambda>b. b\<lparr>bt_status := BATCH_CANCELLED, bt_finished_at := Some now\<rparr>)"
    have batches: "qd_batches db' = (case pending of None \<Rightarrow> qd_batches db | Some p \<Rightarrow> update_row bt_id (bt_id p) cancel (qd_batches db))"
      and rows: "sd_deliveries (qd_send db') = map (\<lambda>d. if scheduled_retry run d
        then d\<lparr>pd_status := DELIVERY_CANCELLED, pd_next_retry_at := None\<rparr> else d) (sd_deliveries (qd_send db))"
      using assms(3) False unfolding pending_def cancel_def by (auto simp: cancel_distribution_def Let_def split: if_splits)
    have idle: "unfinished b \<longleftrightarrow> bt_status b \<in> {BATCH_SCHEDULED, BATCH_QUEUED}" if "b \<in> set (qd_batches db)" "bt_run b = run" for b
      using that False blocked by (auto simp: unfinished_def pending_statuses)
    have one: "b = p" if "pending = Some p" "b \<in> set (qd_batches db)" "bt_run b = run" "unfinished b" for b p
    proof -
      have p: "p \<in> set (qd_batches db)" "bt_run p = run" "bt_status p \<in> {BATCH_SCHEDULED, BATCH_QUEUED}"
        using first_row_SomeD [OF that(1) [unfolded pending_def]] by auto
      then have "p \<in> set (filter unfinished (qd_batches db))" "b \<in> set (filter unfinished (qd_batches db))"
        using idle [OF p(1,2)] that by auto
      then show ?thesis using assms(2) that(3) p(2) by (auto simp: distinct_map dest: inj_onD)
    qed
    have retries: "\<not> scheduled_retry run d" if "d \<in> set (sd_deliveries (qd_send db'))" for d
      using that cancelled_no_retry unfolding rows set_map by blast
    have kept_rows: "d \<in> set (sd_deliveries (qd_send db'))"
      if "d \<in> set (sd_deliveries (qd_send db))" "\<not> scheduled_retry run d" for d
      using that rows by force
    show ?thesis
    proof (cases pending)
      case None
      then have "\<not> unfinished b" if "b \<in> set (qd_batches db)" "bt_run b = run" for b
        using that idle [OF that] by (auto simp: pending_def first_row_None_iff)
      moreover have same: "qd_batches db' = qd_batches db" using None batches by (simp only: option.case)
      ultimately show ?thesis unfolding if_not_P [OF False] same
        using blocked retries kept_rows by (intro conjI ballI impI) blast+
    next
      case (Some p)
      have p: "p \<in> set (qd_batches db)" "bt_run p = run" "unfinished p"
        using first_row_SomeD [OF Some [unfolded pending_def]] idle by auto
      have b': "qd_batches db' = map (\<lambda>b. if b = p then cancel b else b) (qd_batches db)"
        using Some batches same_key [OF assms(1)] p(1) by (auto simp: update_row_def)
      have "\<not> unfinished (cancel b)" for b by (simp add: unfinished_def pending_statuses cancel_def)
      then have "\<not> unfinished b" if "b \<in> set (qd_batches db')" "bt_run b = run" for b
        using that one [OF Some] b' by (auto split: if_splits)
      moreover have "b \<in> set (qd_batches db')" if "b \<in> set (qd_batches db)" "bt_run b \<noteq> run \<or> \<not> unfinished b" for b
      proof -
        have "(if b = p then cancel b else b) \<in> set (qd_batches db')" unfolding b' set_map by (rule imageI [OF that(1)])
        moreover have "b \<noteq> p" using that(2) p by auto
        ultimately show ?thesis by simp
      qed
      ultimately show ?thesis unfolding if_not_P [OF False] using blocked retries kept_rows by (intro conjI ballI impI) blast+
    qed
  qed
qed

lemma cancel_stops_unsent_witness:
  "\<exists>db' r. cancel_distribution 40 2 (sample_queue BATCH_RUNNING []) = (db', r) \<and> \<not> cr_blocked r \<and>
     (\<forall>b\<in>set (qd_batches db'). bt_run b = 2 \<longrightarrow> \<not> unfinished b) \<and> sample_batch 1 20 BATCH_RUNNING \<in> set (qd_batches db')"
proof -
  obtain db' r where c: "cancel_distribution 40 2 (sample_queue BATCH_RUNNING []) = (db', r)" by fastforce
  have d: "distinct (map bt_id (qd_batches (sample_queue BATCH_RUNNING [])))"
    "distinct (map bt_run (filter unfinished (qd_batches (sample_queue BATCH_RUNNING []))))"
    by (simp_all add: sample_queue_def sample_batch_def unfinished_def)
  have "\<not> (\<exists>b\<in>set (qd_batches (sample_queue BATCH_RUNNING [])). bt_run b = 2 \<and> bt_status b = BATCH_RUNNING)"
    "sample_batch 1 20 BATCH_RUNNING \<in> set (qd_batches (sample_queue BATCH_RUNNING []))" "bt_run (sample_batch 1 20 BATCH_RUNNING) = 1"
    by (simp_all add: sample_queue_def sample_batch_def)
  then show ?thesis using cancel_stops_unsent [OF d c] c by fastforce
qed

text \<open>
  The portals call a run's distribution cancellable whenever one of its rows waits for a retry,
  also while a batch of the run is running, when a cancellation is refused.
\<close>

lemma cancellable_while_sending:
  "\<exists>db. dc_cancellable (delivery_status_context 50 1 db) \<and> cr_blocked (snd (cancel_distribution 50 1 db))"
proof -
  obtain i0 :: payroll_item where True by simp
  define i where "i = i0\<lparr>item_id := 7, item_run := 1\<rparr>"
  define d where "d = (new_delivery 0 5 i CHANNEL_SMS)\<lparr>pd_status := DELIVERY_FAILED, pd_next_retry_at := Some 90\<rparr>"
  define db where "db = (sample_queue BATCH_RUNNING [d])\<lparr>qd_send := \<lparr>sd_items = [i], sd_runs = [], sd_employees = [], sd_deliveries = [d], sd_calls = []\<rparr>\<rparr>"
  have "dc_cancellable (delivery_status_context 50 1 db)"
    by (simp add: delivery_status_context_def Let_def db_def sample_queue_def sample_batch_def items_of_def i_def d_def
        latest_deliveries_by_item_def new_delivery_def)
  moreover have "cr_blocked (snd (cancel_distribution 50 1 db))"
    by (simp add: cancel_distribution_def Let_def db_def sample_queue_def sample_batch_def)
  ultimately show ?thesis by blast
qed

end
