(* ===== verification/Preview.thy ===== *)
theory Preview
  imports Queue Access
begin

text \<open>
  The confirm step before an SMS or automatic send (\<open>app/distribution/confirm.py\<close>): whom a send
  would reach and how, for one run or for a selection of runs.  Labels, buttons and page
  parameters are not modelled.
\<close>

definition CONFIRMED_CHANNELS :: "string list" where
  "CONFIRMED_CHANNELS = [CHANNEL_SMS, CHANNEL_AUTO]"

definition needs_confirm :: "string \<Rightarrow> bool \<Rightarrow> bool" where
  "needs_confirm channel confirmed \<longleftrightarrow> channel \<in> set CONFIRMED_CHANNELS \<and> \<not> confirmed"

datatype preview_reason = No_number_on_record | No_contact_on_record | Invalid_on_record

datatype preview_line = To_skip | To_phone | To_momo | By_email | By_whatsapp | Unreachable preview_reason

text \<open>The delivery of an item on a channel, from the dictionary built over the run's deliveries.\<close>

definition run_delivery :: "int \<Rightarrow> payslip_delivery list \<Rightarrow> int \<Rightarrow> string \<Rightarrow> payslip_delivery option" where
  "run_delivery run rows item ch =
     first_row (\<lambda>d. pd_item d = item \<and> pd_channel d = ch) (rev (filter (\<lambda>d. pd_run d = run) rows))"

definition preview_channel :: "bool \<Rightarrow> string \<Rightarrow> payroll_item \<Rightarrow> raw_employee option \<Rightarrow> string" where
  "preview_channel desktop channel item employee =
     (if channel = CHANNEL_AUTO then resolve_channel desktop item employee else channel)"

definition preview_item ::
  "string \<Rightarrow> bool \<Rightarrow> string \<Rightarrow> payslip_delivery option \<Rightarrow> payroll_item \<Rightarrow> raw_employee option \<Rightarrow> preview_line" where
  "preview_item channel only_failed ch delivery item employee =
     (let skip = (if only_failed then (case delivery of None \<Rightarrow> True | Some d \<Rightarrow> pd_status d \<noteq> DELIVERY_FAILED)
                  else (case delivery of None \<Rightarrow> False | Some d \<Rightarrow> pd_status d \<in> set SKIPPED_BY_SEND))
      in if skip then To_skip
         else if ch = CHANNEL_SMS
         then (case sms_contact item employee of
                 (Some number, source) \<Rightarrow> if source = Roster_phone then To_phone else To_momo
               | (None, source) \<Rightarrow>
                   Unreachable (if source = Invalid_number then Invalid_on_record
                                else if channel = CHANNEL_AUTO then No_contact_on_record else No_number_on_record))
         else if text_or (contact_for ch item employee) [] \<noteq> []
         then (if ch = CHANNEL_EMAIL then By_email else By_whatsapp)
         else Unreachable No_contact_on_record)"

record send_preview_counts =
  sp_to_phone :: nat
  sp_to_momo :: nat
  sp_by_email :: nat
  sp_by_whatsapp :: nat
  sp_no_contact :: nat
  sp_invalid :: nat
  sp_skipped :: nat
  sp_problems :: "(int \<times> preview_reason) list"

definition empty_preview :: send_preview_counts where
  "empty_preview = \<lparr>sp_to_phone = 0, sp_to_momo = 0, sp_by_email = 0, sp_by_whatsapp = 0, sp_no_contact = 0,
     sp_invalid = 0, sp_skipped = 0, sp_problems = []\<rparr>"

fun count_line :: "int \<Rightarrow> preview_line \<Rightarrow> send_preview_counts \<Rightarrow> send_preview_counts" where
  "count_line i To_skip c = c\<lparr>sp_skipped := sp_skipped c + 1\<rparr>"
| "count_line i To_phone c = c\<lparr>sp_to_phone := sp_to_phone c + 1\<rparr>"
| "count_line i To_momo c = c\<lparr>sp_to_momo := sp_to_momo c + 1\<rparr>"
| "count_line i By_email c = c\<lparr>sp_by_email := sp_by_email c + 1\<rparr>"
| "count_line i By_whatsapp c = c\<lparr>sp_by_whatsapp := sp_by_whatsapp c + 1\<rparr>"
| "count_line i (Unreachable r) c =
     (if r = Invalid_on_record then c\<lparr>sp_invalid := sp_invalid c + 1, sp_problems := sp_problems c @ [(i, r)]\<rparr>
      else c\<lparr>sp_no_contact := sp_no_contact c + 1, sp_problems := sp_problems c @ [(i, r)]\<rparr>)"

definition item_line :: "bool \<Rightarrow> int \<Rightarrow> string \<Rightarrow> bool \<Rightarrow> send_db \<Rightarrow> payroll_item \<Rightarrow> preview_line" where
  "item_line desktop run channel only_failed db item =
     (let employee = roster_employee_of (sd_employees db) (sd_runs db) item;
          ch = preview_channel desktop channel item employee
      in preview_item channel only_failed ch (run_delivery run (sd_deliveries db) (item_id item) ch) item employee)"

definition send_preview :: "bool \<Rightarrow> int \<Rightarrow> string \<Rightarrow> bool \<Rightarrow> send_db \<Rightarrow> send_preview_counts" where
  "send_preview desktop run channel only_failed db =
     foldl (\<lambda>c item. count_line (item_id item) (item_line desktop run channel only_failed db item) c)
       empty_preview (items_of run (sd_items db))"

definition sms_recipients :: "send_preview_counts \<Rightarrow> nat" where
  "sms_recipients c = sp_to_phone c + sp_to_momo c"

definition reachable_workers :: "send_preview_counts \<Rightarrow> nat" where
  "reachable_workers c = sms_recipients c + sp_by_email c + sp_by_whatsapp c"

subsection \<open>A selection of runs\<close>

text \<open>The submitted ids; \<open>None\<close> is one that \<open>int\<close> refuses.\<close>

definition selected_ids :: "int option list \<Rightarrow> int list" where
  "selected_ids raw = fromkeys (List.map_filter id raw)"

datatype bulk_row = Run_missing int | Run_not_eligible int string | Run_in_flight int | Run_previewed int send_preview_counts

definition bulk_confirm_row :: "bool \<Rightarrow> string option \<Rightarrow> queue_db \<Rightarrow> int \<Rightarrow> bulk_row" where
  "bulk_confirm_row desktop role db k =
     (case first_row (\<lambda>r. run_id r = k) (sd_runs (qd_send db)) of
        None \<Rightarrow> Run_missing k
      | Some run \<Rightarrow>
          if \<not> can_distribute_run role run then Run_not_eligible k (run_status run)
          else if in_flight_batch (run_id run) (qd_batches db) \<noteq> None then Run_in_flight k
          else Run_previewed k (send_preview desktop (run_id run) CHANNEL_AUTO False (qd_send db)))"

fun previewed_run :: "bulk_row \<Rightarrow> int list" where
  "previewed_run (Run_previewed k c) = [k]"
| "previewed_run _ = []"

fun row_reachable :: "bulk_row \<Rightarrow> nat" where
  "row_reachable (Run_previewed k c) = reachable_workers c"
| "row_reachable _ = 0"

text \<open>The rows shown, the runs posted back and the number of workers on the button.\<close>

definition bulk_confirm_context ::
  "bool \<Rightarrow> string option \<Rightarrow> int option list \<Rightarrow> queue_db \<Rightarrow> (bulk_row list \<times> int list \<times> nat) option" where
  "bulk_confirm_context desktop role raw db =
     (if selected_ids raw = [] then None
      else let rows = map (bulk_confirm_row desktop role db) (selected_ids raw)
           in Some (rows, concat (map previewed_run rows), sum_list (map row_reachable rows)))"

end
