(* ===== verification/PreviewSend.thy ===== *)
theory PreviewSend
  imports Preview SendRun
begin

text \<open>
  The confirm step and the send agree: the preview of a run counts exactly whom the provider is
  then called for, whom the send leaves out and whom it cannot reach.
\<close>

subsection \<open>Looking up deliveries\<close>

lemma first_row_unique:
  "length (filter p rows) \<le> 1 \<Longrightarrow> first_row p (rev rows) = (case filter p rows of [] \<Rightarrow> None | d # _ \<Rightarrow> Some d)"
proof (induction rows rule: rev_induct)
  case (snoc x rows)
  then show ?case by (cases "filter p rows") (auto simp: filter_empty_conv first_row_None_iff)
qed simp

lemma latest_unique: "length xs \<le> 1 \<Longrightarrow> max_row f xs = (case xs of [] \<Rightarrow> None | d # _ \<Rightarrow> Some d)"
  by (cases xs) auto

text \<open>The table's constraints: one row per item and channel, every row under its item's run.\<close>

definition delivery_table :: "payroll_item list \<Rightarrow> payslip_delivery list \<Rightarrow> bool" where
  "delivery_table items rows \<longleftrightarrow> distinct (map pd_id rows) \<and> distinct (map (\<lambda>d. (pd_item d, pd_channel d)) rows) \<and>
     (\<forall>d\<in>set rows. pd_status d \<in> set CLAIMABLE_FOR_SEND \<union> set SKIPPED_BY_SEND) \<and>
     (\<forall>i\<in>set items. \<forall>d\<in>set rows. pd_item d = item_id i \<longrightarrow> pd_run d = item_run i)"

lemma one_per_channel:
  "distinct (map (\<lambda>d. (pd_item d, pd_channel d)) rows) \<Longrightarrow> length (filter (\<lambda>d. pd_item d = i \<and> pd_channel d = ch) rows) \<le> 1"
  by (rule filter_key_at_most_one [where key = "\<lambda>d. (pd_item d, pd_channel d)" and k = "(i, ch)"]) auto

lemma run_delivery_latest:
  assumes "delivery_table items rows" "i \<in> set items" "item_run i = run"
  shows "run_delivery run rows (item_id i) ch = latest_delivery (item_id i) ch rows"
proof -
  let ?p = "\<lambda>d. pd_item d = item_id i \<and> pd_channel d = ch"
  have same: "filter ?p (filter (\<lambda>d. pd_run d = run) rows) = filter ?p rows"
    using assms by (auto simp: delivery_table_def intro!: filter_cong)
  have one: "length (filter ?p rows) \<le> 1" using assms(1) by (intro one_per_channel) (simp add: delivery_table_def)
  show ?thesis
    using first_row_unique [of ?p "filter (\<lambda>d. pd_run d = run) rows"] latest_unique [OF one, of pd_created_at] one
    unfolding run_delivery_def latest_delivery_def same by simp
qed

subsection \<open>One attempt\<close>

lemma claim_wins:
  assumes "distinct (map pd_id rows)" "d \<in> set rows" "pd_status d \<in> set claimable"
  obtains rows' where "claim_delivery now (pd_id d) claimable batch False rows = (rows', True)"
    "first_row (\<lambda>x. pd_id x = pd_id d) rows' \<noteq> None"
proof -
  obtain rows' won where c: "claim_delivery now (pd_id d) claimable batch False rows = (rows', won)" by fastforce
  have "snd (claim_delivery now (pd_id d) claimable batch False rows)"
    unfolding claim_delivery_def by (subst update_where_won [OF assms(1), where k = "pd_id d"]) (use assms(2,3) in auto)
  then have won: "won = True" using c by simp
  have "map pd_id rows' = map pd_id rows" using claim_keys [of now "pd_id d" claimable batch False rows] c by simp
  then have "pd_id d \<in> pd_id ` set rows'" using assms(2) by (metis image_eqI image_set)
  then have "first_row (\<lambda>x. pd_id x = pd_id d) rows' \<noteq> None" by (auto simp: first_row_None_iff)
  then show thesis using that c won by blast
qed

lemma attempt_outcome:
  assumes "distinct (map pd_id (sd_deliveries db))" "d \<in> set (sd_deliveries db)" "pd_status d \<in> set claimable"
    and a: "attempt_send cfg w (pd_id d) item ch claimable batch False db = (db', st)" and prepared: "aw_prepared w"
  shows "case recipient_for ch item (roster_employee_of (sd_employees db) (sd_runs db) item) of
      Inl _ \<Rightarrow> sd_calls db' = sd_calls db \<and> st = Some DELIVERY_FAILED
    | Inr _ \<Rightarrow> sd_calls db' = sd_calls db @ [pd_id d] \<and> st \<noteq> None \<and> (sr_ok (aw_result w) \<longrightarrow> st = Some DELIVERY_SENT)"
proof -
  obtain rows' where c: "claim_delivery (aw_now w) (pd_id d) claimable batch False (sd_deliveries db) = (rows', True)"
    "first_row (\<lambda>x. pd_id x = pd_id d) rows' \<noteq> None" by (rule claim_wins [OF assms(1-3)])
  show ?thesis
  proof (cases "recipient_for ch item (roster_employee_of (sd_employees db) (sd_runs db) item)")
    case (Inl p)
    then show ?thesis using a c(1) by (auto simp: attempt_send_def Let_def)
  next
    case (Inr r)
    let ?f = "\<lambda>d. record_outcome (aw_now w) (cfg_max_attempts cfg) (cfg_backoff_base cfg) (aw_result w)
      (d\<lparr>pd_channel := ch, pd_recipient := Some r\<rparr>)"
    have st: "st = delivery_status (pd_id d) (update_row pd_id (pd_id d) ?f rows')" and calls: "sd_calls db' = sd_calls db @ [pd_id d]"
      using a c(1) Inr prepared by (auto simp: attempt_send_def Let_def)
    have f: "pd_id (?f x) = pd_id x" for x by simp
    obtain x where x: "first_row (\<lambda>x. pd_id x = pd_id d) rows' = Some x" using c(2) by auto
    have u: "first_row (\<lambda>x. pd_id x = pd_id d) (update_row pd_id (pd_id d) ?f rows') = Some (?f x)"
      by (subst first_row_update_row) (use f in \<open>simp_all add: x\<close>)
    have "st = Some (pd_status (?f x))" unfolding st delivery_status_def u by simp
    then show ?thesis using calls Inr by simp
  qed
qed

text \<open>Deliveries of other items keep their rows, in order.\<close>

lemma filter_update_row:
  assumes "\<And>y. y \<in> set rows \<Longrightarrow> pd_id y = k \<Longrightarrow> pd_item y \<noteq> j" "\<And>y. pd_item (f y) = pd_item y"
  shows "filter (\<lambda>d. pd_item d = j) (update_row pd_id k f rows) = filter (\<lambda>d. pd_item d = j) rows"
  using assms(1) by (induction rows) (auto simp: update_row_def assms(2))

lemma filter_claim:
  assumes "\<And>y. y \<in> set rows \<Longrightarrow> pd_id y = k \<Longrightarrow> pd_item y \<noteq> j"
  shows "filter (\<lambda>d. pd_item d = j) (fst (claim_delivery now k claimable batch sched rows)) = filter (\<lambda>d. pd_item d = j) rows"
  using assms by (induction rows) (auto simp: claim_delivery_def update_where_def)

lemma attempt_others:
  assumes "\<And>y. y \<in> set (sd_deliveries db) \<Longrightarrow> pd_id y = k \<Longrightarrow> pd_item y \<noteq> j"
  shows "filter (\<lambda>d. pd_item d = j) (sd_deliveries (fst (attempt_send cfg w k item ch claimable batch sched db))) =
    filter (\<lambda>d. pd_item d = j) (sd_deliveries db)"
proof -
  obtain rows won where c: "claim_delivery (aw_now w) k claimable batch sched (sd_deliveries db) = (rows, won)" by fastforce
  have rows: "filter (\<lambda>d. pd_item d = j) rows = filter (\<lambda>d. pd_item d = j) (sd_deliveries db)"
  proof -
    have "filter (\<lambda>d. pd_item d = j) (fst (claim_delivery (aw_now w) k claimable batch sched (sd_deliveries db))) =
        filter (\<lambda>d. pd_item d = j) (sd_deliveries db)" by (rule filter_claim) (rule assms)
    then show ?thesis by (simp add: c)
  qed
  have k: "pd_item y \<noteq> j" if "y \<in> set rows" "pd_id y = k" for y
  proof
    assume "pd_item y = j"
    then have "y \<in> set (filter (\<lambda>d. pd_item d = j) (sd_deliveries db))" using that(1) rows [symmetric] by simp
    then show False using assms that(2) \<open>pd_item y = j\<close> by simp
  qed
  show ?thesis
    using rows k by (auto simp: attempt_send_def Let_def c filter_update_row split: sum.splits)
qed

subsection \<open>One item\<close>

definition is_reached :: "preview_line \<Rightarrow> bool" where
  "is_reached l \<longleftrightarrow> l \<in> {To_phone, To_momo, By_email, By_whatsapp}"

lemma preview_recipient:
  assumes "preview_item channel only_failed ch delivery item employee = line" "line \<noteq> To_skip"
  shows "case recipient_for ch item employee of Inl _ \<Rightarrow> (\<exists>r. line = Unreachable r) | Inr _ \<Rightarrow> is_reached line"
  using assms
  by (auto simp: preview_item_def recipient_for_def is_reached_def text_or_def Let_def split: if_splits option.splits prod.splits)

definition sendable_now :: "bool \<Rightarrow> payslip_delivery option \<Rightarrow> bool" where
  "sendable_now only_failed delivery \<longleftrightarrow>
     (if only_failed then (case delivery of None \<Rightarrow> False | Some d \<Rightarrow> pd_status d = DELIVERY_FAILED)
      else (case delivery of None \<Rightarrow> True | Some d \<Rightarrow> pd_status d \<notin> set SKIPPED_BY_SEND))"

lemma preview_skips: "preview_item channel only_failed ch delivery item employee = To_skip \<longleftrightarrow> \<not> sendable_now only_failed delivery"
  by (auto simp: preview_item_def sendable_now_def Let_def split: if_splits option.splits prod.splits)

text \<open>The effect of one item on the calls and the summary, as the preview announces it.\<close>

definition as_announced ::
  "(int \<Rightarrow> attempt_world) \<Rightarrow> payroll_item \<Rightarrow> preview_line \<Rightarrow> send_db \<times> send_summary \<Rightarrow> send_db \<times> send_summary \<Rightarrow> bool" where
  "as_announced world item line st st' \<longleftrightarrow>
     (if line = To_skip
      then sd_calls (fst st') = sd_calls (fst st) \<and> ss_skipped (snd st') = ss_skipped (snd st) + 1 \<and>
        ss_sent (snd st') = ss_sent (snd st) \<and> ss_failed_workers (snd st') = ss_failed_workers (snd st)
      else if is_reached line
      then (\<exists>k. sd_calls (fst st') = sd_calls (fst st) @ [k]) \<and> ss_skipped (snd st') = ss_skipped (snd st) \<and>
        (sr_ok (aw_result (world (item_id item))) \<longrightarrow>
           ss_sent (snd st') = ss_sent (snd st) + 1 \<and> ss_failed_workers (snd st') = ss_failed_workers (snd st))
      else sd_calls (fst st') = sd_calls (fst st) \<and> ss_skipped (snd st') = ss_skipped (snd st) \<and>
        ss_sent (snd st') = ss_sent (snd st) \<and> ss_failed_workers (snd st') = ss_failed_workers (snd st) @ [item_id item])"

lemma sent_counted:
  assumes "preview_item channel only_failed ch delivery item employee = line" "line \<noteq> To_skip"
    and "case recipient_for ch item employee of
      Inl _ \<Rightarrow> sd_calls db' = sd_calls db \<and> st = Some DELIVERY_FAILED
    | Inr _ \<Rightarrow> sd_calls db' = sd_calls db @ [k] \<and> st \<noteq> None \<and> (sr_ok (aw_result (world (item_id item))) \<longrightarrow> st = Some DELIVERY_SENT)"
  shows "as_announced world item line (db, s) (db', count_status (item_id item) st (s\<lparr>ss_total := ss_total s + 1\<rparr>))"
  using preview_recipient [OF assms(1,2)] assms(2,3)
  by (cases "recipient_for ch item employee") (auto simp: as_announced_def is_reached_def count_status_def delivery_status_defs)

lemma claimable_when_sendable:
  "sendable_now only_failed (Some d) \<Longrightarrow> pd_status d \<in> set CLAIMABLE_FOR_SEND \<union> set SKIPPED_BY_SEND \<Longrightarrow>
    pd_status d \<in> set (send_claimable only_failed)"
  by (auto simp: sendable_now_def send_claimable_def CLAIMABLE_FOR_RETRY_def split: if_splits)

lemma latest_in:
  "latest_delivery i ch rows = Some d \<Longrightarrow> d \<in> set rows \<and> pd_item d = i"
  using max_row_SomeD by (fastforce simp: latest_delivery_def)

lemma latest_by_item: "latest_delivery i ch rows = max_row pd_created_at (filter (\<lambda>d. pd_channel d = ch) (filter (\<lambda>d. pd_item d = i) rows))"
proof -
  have "filter (\<lambda>d. pd_item d = i \<and> pd_channel d = ch) rows = filter (\<lambda>d. pd_channel d = ch) (filter (\<lambda>d. pd_item d = i) rows)"
    by (induction rows) auto
  then show ?thesis by (simp add: latest_delivery_def)
qed

lemma distribute_item_announced:
  assumes D: "distinct (map pd_id (sd_deliveries db))"
    and st: "\<forall>d\<in>set (sd_deliveries db). pd_item d = item_id item \<longrightarrow> pd_status d \<in> set CLAIMABLE_FOR_SEND \<union> set SKIPPED_BY_SEND"
    and prepared: "aw_prepared (world (item_id item))"
    and emp: "employee = roster_employee_of (sd_employees db) (sd_runs db) item"
    and ch: "ch = preview_channel (cfg_desktop cfg) channel item employee"
    and line: "preview_item channel only_failed ch (latest_delivery (item_id item) ch (sd_deliveries db)) item employee = line"
  shows "as_announced world item line (db, s) (distribute_item cfg world channel only_failed batch (db, s) item)"
    and "j \<noteq> item_id item \<Longrightarrow> filter (\<lambda>d. pd_item d = j) (sd_deliveries (fst (distribute_item cfg world channel only_failed batch (db, s) item))) =
      filter (\<lambda>d. pd_item d = j) (sd_deliveries db)"
    and "sd_employees (fst (distribute_item cfg world channel only_failed batch (db, s) item)) = sd_employees db"
    and "sd_runs (fst (distribute_item cfg world channel only_failed batch (db, s) item)) = sd_runs db"
proof -
  let ?i = "item_id item" let ?w = "world (item_id item)" let ?rows = "sd_deliveries db"
  have ch': "ch = (if channel = CHANNEL_AUTO then resolve_channel (cfg_desktop cfg) item (roster_employee_of (sd_employees db) (sd_runs db) item) else channel)"
    by (simp add: ch emp preview_channel_def)
  note unfold = distribute_item_def Let_def ch' [symmetric]
  define all where "all st' \<longleftrightarrow> as_announced world item line (db, s) st' \<and>
      (\<forall>j. j \<noteq> ?i \<longrightarrow> filter (\<lambda>d. pd_item d = j) (sd_deliveries (fst st')) = filter (\<lambda>d. pd_item d = j) ?rows) \<and>
      sd_employees (fst st') = sd_employees db \<and> sd_runs (fst st') = sd_runs db" for st' :: "send_db \<times> send_summary"
  have sent: "all (db', count_status ?i st (s\<lparr>ss_total := ss_total s + 1\<rparr>))"
    if a: "attempt_send cfg ?w (pd_id d) item ch (send_claimable only_failed) batch False db1 = (db', st)"
      and d: "d \<in> set (sd_deliveries db1)" "pd_item d = ?i" "pd_status d \<in> set (send_claimable only_failed)"
      and db1: "distinct (map pd_id (sd_deliveries db1))" "sd_calls db1 = sd_calls db" "sd_employees db1 = sd_employees db"
        "sd_runs db1 = sd_runs db" "\<And>j. j \<noteq> ?i \<Longrightarrow> filter (\<lambda>d. pd_item d = j) (sd_deliveries db1) = filter (\<lambda>d. pd_item d = j) ?rows"
      and go: "line \<noteq> To_skip" for db1 d db' st
  proof -
    have "case recipient_for ch item employee of
        Inl _ \<Rightarrow> sd_calls db' = sd_calls db \<and> st = Some DELIVERY_FAILED
      | Inr _ \<Rightarrow> sd_calls db' = sd_calls db @ [pd_id d] \<and> st \<noteq> None \<and> (sr_ok (aw_result ?w) \<longrightarrow> st = Some DELIVERY_SENT)"
      using attempt_outcome [OF db1(1) d(1,3) a prepared] unfolding emp db1(2,3,4) .
    then have ann: "as_announced world item line (db, s) (db', count_status ?i st (s\<lparr>ss_total := ss_total s + 1\<rparr>))"
      by (rule sent_counted [OF line go])
    have "filter (\<lambda>d. pd_item d = j) (sd_deliveries db') = filter (\<lambda>d. pd_item d = j) ?rows" if "j \<noteq> ?i" for j
    proof -
      have other: "pd_item y \<noteq> j" if "y \<in> set (sd_deliveries db1)" "pd_id y = pd_id d" for y
        using same_row [OF db1(1) that(1) d(1) that(2)] d(2) \<open>j \<noteq> ?i\<close> by simp
      have "filter (\<lambda>d. pd_item d = j) (sd_deliveries (fst (attempt_send cfg ?w (pd_id d) item ch (send_claimable only_failed) batch False db1))) =
          filter (\<lambda>d. pd_item d = j) (sd_deliveries db1)" by (rule attempt_others) (rule other)
      then show ?thesis using a db1(5) [OF that] by simp
    qed
    moreover have "only_touches (pd_id d) db1 db'" using attempt_touches a by (metis fst_conv)
    ultimately show ?thesis using ann db1(3,4) by (simp add: all_def only_touches_def)
  qed
  have "all (distribute_item cfg world channel only_failed batch (db, s) item)"
  proof (cases "latest_delivery ?i ch ?rows")
    case (Some d)
    have d: "d \<in> set ?rows" "pd_item d = ?i" using latest_in [OF Some] by auto
    show ?thesis
    proof (cases "sendable_now only_failed (Some d)")
      case True
      obtain db' st where a: "attempt_send cfg ?w (pd_id d) item ch (send_claimable only_failed) batch False db = (db', st)" by fastforce
      have go: "line \<noteq> To_skip" using line preview_skips True unfolding Some by metis
      have "distribute_item cfg world channel only_failed batch (db, s) item = (db', count_status ?i st (s\<lparr>ss_total := ss_total s + 1\<rparr>))"
        using True a Some by (auto simp: unfold sendable_now_def send_claimable_def split: if_splits)
      moreover have "pd_status d \<in> set (send_claimable only_failed)" by (rule claimable_when_sendable [OF True st [rule_format, OF d]])
      ultimately show ?thesis using sent [OF a d _ D] go by simp
    next
      case False
      then have "line = To_skip" using line preview_skips unfolding Some by metis
      moreover have "distribute_item cfg world channel only_failed batch (db, s) item =
          (db, s\<lparr>ss_total := ss_total s + 1, ss_skipped := ss_skipped s + 1\<rparr>)"
        using False Some by (auto simp: unfold sendable_now_def split: if_splits)
      ultimately show ?thesis by (simp add: all_def as_announced_def)
    qed
  next
    case None
    show ?thesis
    proof (cases only_failed)
      case True
      then have "line = To_skip" using line preview_skips by (metis None option.simps(4) sendable_now_def)
      moreover have "distribute_item cfg world channel only_failed batch (db, s) item =
          (db, s\<lparr>ss_total := ss_total s + 1, ss_skipped := ss_skipped s + 1\<rparr>)"
        using True None by (simp add: unfold)
      ultimately show ?thesis by (simp add: all_def as_announced_def)
    next
      case False
      define d where "d = new_delivery (aw_now ?w) (fresh_id ?rows) item ch"
      define db1 where "db1 = db\<lparr>sd_deliveries := ?rows @ [d]\<rparr>"
      have d: "pd_id d = fresh_id ?rows" "pd_item d = ?i" "pd_status d = DELIVERY_PENDING" by (simp_all add: d_def new_delivery_def)
      obtain db' st where a: "attempt_send cfg ?w (pd_id d) item ch (send_claimable only_failed) batch False db1 = (db', st)" by fastforce
      have go: "line \<noteq> To_skip" using line preview_skips False by (metis None option.simps(4) sendable_now_def)
      have "distribute_item cfg world channel only_failed batch (db, s) item = (db', count_status ?i st (s\<lparr>ss_total := ss_total s + 1\<rparr>))"
        using False None a by (simp add: unfold insert_pending_def d_def db1_def send_claimable_def)
      moreover have "all (db', count_status ?i st (s\<lparr>ss_total := ss_total s + 1\<rparr>))"
      proof (rule sent [OF a _ d(2)])
        show "pd_status d \<in> set (send_claimable only_failed)" using False d(3) by (simp add: send_claimable_def CLAIMABLE_FOR_SEND_def)
        show "distinct (map pd_id (sd_deliveries db1))" using D fresh_id_new [of ?rows] d(1) by (simp add: db1_def)
      qed (use d go in \<open>auto simp: db1_def\<close>)
      ultimately show ?thesis by simp
    qed
  qed
  then show "as_announced world item line (db, s) (distribute_item cfg world channel only_failed batch (db, s) item)"
    "j \<noteq> item_id item \<Longrightarrow> filter (\<lambda>d. pd_item d = j) (sd_deliveries (fst (distribute_item cfg world channel only_failed batch (db, s) item))) =
      filter (\<lambda>d. pd_item d = j) (sd_deliveries db)"
    "sd_employees (fst (distribute_item cfg world channel only_failed batch (db, s) item)) = sd_employees db"
    "sd_runs (fst (distribute_item cfg world channel only_failed batch (db, s) item)) = sd_runs db"
    by (auto simp: all_def)
qed

subsection \<open>The run\<close>

definition agrees :: "nat \<Rightarrow> bool \<Rightarrow> send_db \<times> send_summary \<Rightarrow> send_preview_counts \<Rightarrow> bool" where
  "agrees calls ok st c \<longleftrightarrow> length (sd_calls (fst st)) = calls + reachable_workers c \<and> ss_skipped (snd st) = sp_skipped c \<and>
     (ok \<longrightarrow> ss_sent (snd st) = reachable_workers c \<and> ss_failed_workers (snd st) = map fst (sp_problems c))"

lemma agrees_step:
  assumes "agrees calls ok st c" "as_announced world item line st st'" "ok \<Longrightarrow> sr_ok (aw_result (world (item_id item)))"
  shows "agrees calls ok st' (count_line (item_id item) line c)"
  using assms by (cases line) (auto simp: agrees_def as_announced_def is_reached_def reachable_workers_def sms_recipients_def)

lemma send_follows_preview:
  assumes "distinct (map item_id its)" "\<And>i. i \<in> set its \<Longrightarrow> item_run i = run \<and> i \<in> set (sd_items db0)"
    and "\<And>i. i \<in> set its \<Longrightarrow> filter (\<lambda>d. pd_item d = item_id i) (sd_deliveries db) = filter (\<lambda>d. pd_item d = item_id i) (sd_deliveries db0)"
    and "sd_employees db = sd_employees db0" "sd_runs db = sd_runs db0" "distinct (map pd_id (sd_deliveries db))"
    and "delivery_table (sd_items db0) (sd_deliveries db0)" "\<And>i. aw_prepared (world i)" "agrees calls ok (db, s) c"
    and "\<And>i. ok \<Longrightarrow> sr_ok (aw_result (world i))"
  shows "agrees calls ok (foldl (distribute_item cfg world channel only_failed batch) (db, s) its)
    (foldl (\<lambda>c item. count_line (item_id item) (item_line (cfg_desktop cfg) run channel only_failed db0 item) c) c its)"
  using assms
proof (induction its arbitrary: db s c)
  case (Cons i its)
  define employee where "employee = roster_employee_of (sd_employees db) (sd_runs db) i"
  define ch where "ch = preview_channel (cfg_desktop cfg) channel i employee"
  have mine: "filter (\<lambda>d. pd_item d = item_id i) (sd_deliveries db) = filter (\<lambda>d. pd_item d = item_id i) (sd_deliveries db0)"
    by (rule Cons.prems(3)) simp
  have latest: "latest_delivery (item_id i) ch (sd_deliveries db) = latest_delivery (item_id i) ch (sd_deliveries db0)"
    unfolding latest_by_item mine ..
  have i: "item_run i = run" "i \<in> set (sd_items db0)" using Cons.prems(2) by auto
  have line: "preview_item channel only_failed ch (latest_delivery (item_id i) ch (sd_deliveries db)) i employee =
      item_line (cfg_desktop cfg) run channel only_failed db0 i"
    unfolding latest run_delivery_latest [OF Cons.prems(7) i(2,1), symmetric]
    by (simp add: item_line_def Let_def employee_def ch_def Cons.prems(4,5))
  have status: "\<forall>d\<in>set (sd_deliveries db). pd_item d = item_id i \<longrightarrow> pd_status d \<in> set CLAIMABLE_FOR_SEND \<union> set SKIPPED_BY_SEND"
  proof (intro ballI impI)
    fix d assume "d \<in> set (sd_deliveries db)" "pd_item d = item_id i"
    then have "d \<in> set (filter (\<lambda>d. pd_item d = item_id i) (sd_deliveries db0))" using mine [symmetric] by simp
    then show "pd_status d \<in> set CLAIMABLE_FOR_SEND \<union> set SKIPPED_BY_SEND" using Cons.prems(7) by (simp add: delivery_table_def)
  qed
  obtain db1 s1 where one: "distribute_item cfg world channel only_failed batch (db, s) i = (db1, s1)" by fastforce
  note announced = distribute_item_announced [OF Cons.prems(6) status Cons.prems(8) employee_def ch_def line]
  have step1: "as_announced world i (item_line (cfg_desktop cfg) run channel only_failed db0 i) (db, s) (db1, s1)"
    unfolding one [symmetric] by (rule announced(1))
  have step2: "filter (\<lambda>d. pd_item d = k) (sd_deliveries (fst (db1, s1))) = filter (\<lambda>d. pd_item d = k) (sd_deliveries db)"
    if "k \<noteq> item_id i" for k unfolding one [symmetric] by (rule announced(2) [OF that])
  have step3: "sd_employees (fst (db1, s1)) = sd_employees db" "sd_runs (fst (db1, s1)) = sd_runs db"
    unfolding one [symmetric] by (rule announced(3), rule announced(4))
  have "agrees calls ok (db1, s1) (count_line (item_id i) (item_line (cfg_desktop cfg) run channel only_failed db0 i) c)"
    by (rule agrees_step [OF Cons.prems(9) step1]) (rule Cons.prems(10))
  moreover have "distinct (map pd_id (sd_deliveries db1))"
    using distribute_item_effect(1) [OF Cons.prems(6) one] by (auto simp: item_effect_def)
  moreover have "filter (\<lambda>d. pd_item d = item_id j) (sd_deliveries db1) = filter (\<lambda>d. pd_item d = item_id j) (sd_deliveries db0)"
    if "j \<in> set its" for j
  proof -
    have "item_id j \<noteq> item_id i" using Cons.prems(1) imageI [OF that, of item_id] by auto
    then show ?thesis using step2 [of "item_id j"] Cons.prems(3) [of j] that by simp
  qed
  ultimately show ?case
    using Cons.IH [of db1 s1] Cons.prems step3 one by simp
qed simp

text \<open>
  C33: the confirm step and the send agree.  When every message can be prepared, a send of a run
  calls the provider for exactly as many payslips as its preview announced to reach and leaves
  out as many as the preview announced to skip.  When moreover the provider accepts them all,
  the workers it reports as failed are the ones the preview listed as unreachable, in order.
\<close>
theorem preview_agrees_with_send:
  assumes "distinct (map item_id (sd_items db))" "delivery_table (sd_items db) (sd_deliveries db)" "\<And>i. aw_prepared (world i)"
    and "distribute_run cfg world run channel only_failed batch db = (db', s)"
    and "send_preview (cfg_desktop cfg) run channel only_failed db = p"
  shows "length (sd_calls db') = length (sd_calls db) + reachable_workers p \<and> ss_skipped s = sp_skipped p \<and>
    ((\<forall>i. sr_ok (aw_result (world i))) \<longrightarrow> ss_sent s = reachable_workers p \<and> ss_failed_workers s = map fst (sp_problems p))"
proof -
  have "distinct (map item_id (items_of run (sd_items db)))"
    using assms(1) by (simp add: items_of_def distinct_map_filter)
  moreover have "agrees (length (sd_calls db)) (\<forall>i. sr_ok (aw_result (world i))) (db, empty_summary) empty_preview"
    by (simp add: agrees_def reachable_workers_def sms_recipients_def empty_preview_def empty_summary_def)
  ultimately have "agrees (length (sd_calls db)) (\<forall>i. sr_ok (aw_result (world i))) (db', s) p"
    unfolding assms(4) [symmetric] assms(5) [symmetric] distribute_run_def send_preview_def
    using assms(2,3) by (intro send_follows_preview) (auto simp: items_of_def delivery_table_def)
  then show ?thesis by (simp add: agrees_def)
qed

lemma sample_table: "delivery_table (sd_items sample_send_db) (sd_deliveries sample_send_db)"
  by (simp add: delivery_table_def sample_send_db_def new_delivery_def sample_item_def CLAIMABLE_FOR_SEND_def SKIPPED_BY_SEND_def)

lemma preview_agrees_with_send_witness:
  "\<exists>db' s. distribute_run sample_config sample_world 1 CHANNEL_EMAIL False None sample_send_db = (db', s) \<and>
     ss_sent s = reachable_workers (send_preview (cfg_desktop sample_config) 1 CHANNEL_EMAIL False sample_send_db) \<and>
     ss_skipped s = sp_skipped (send_preview (cfg_desktop sample_config) 1 CHANNEL_EMAIL False sample_send_db) \<and> ss_sent s = 1"
proof -
  obtain db' s where r: "distribute_run sample_config sample_world 1 CHANNEL_EMAIL False None sample_send_db = (db', s)" by fastforce
  have items: "distinct (map item_id (sd_items sample_send_db))" by (simp add: sample_send_db_def sample_item_def)
  have w: "aw_prepared (sample_world i)" "sr_ok (aw_result (sample_world i))" for i by (simp_all add: sample_world_def accepted_def)
  from preview_agrees_with_send [OF items sample_table w(1) r refl] w(2) sample_send [OF r] r show ?thesis by fastforce
qed

end
