(* ===== verification/Lifecycle.thy ===== *)
theory Lifecycle
  imports Preview Risk Hourly
begin

text \<open>
  The lifecycle routes of a run: submission, approval, rejection, their bulk forms, marking as
  paid, the risk gate and its release (\<open>app/payroll.py\<close>, \<open>app/oversight/__init__.py\<close>), and
  deletion and replacement of runs (\<open>app/payroll.py\<close>, \<open>app/client/__init__.py\<close>).
\<close>

subsection \<open>The database\<close>

text \<open>
  The queue's database with the tables a run's deletion looks at.  Vouchers are pairs of number
  and run, remittances and expenses the run they belong to, archives likewise, import batches
  pairs of id and run; the audit log keeps action and run.
\<close>

record life_db =
  lf_queue :: queue_db
  lf_vouchers :: "(string \<times> int option) list"
  lf_remittances :: "int option list"
  lf_expenses :: "int option list"
  lf_entries :: "raw_pay_entry list"
  lf_archives :: "int list"
  lf_imports :: "(int \<times> int option) list"
  lf_audit :: "(string \<times> int) list"

definition runs_in :: "life_db \<Rightarrow> payroll_run list" where
  "runs_in db = sd_runs (qd_send (lf_queue db))"

definition find_run :: "int \<Rightarrow> life_db \<Rightarrow> payroll_run option" where
  "find_run k db = first_row (\<lambda>r. run_id r = k) (runs_in db)"

definition map_send :: "(send_db \<Rightarrow> send_db) \<Rightarrow> life_db \<Rightarrow> life_db" where
  "map_send f db = db\<lparr>lf_queue := (lf_queue db)\<lparr>qd_send := f (qd_send (lf_queue db))\<rparr>\<rparr>"

definition set_run :: "int \<Rightarrow> (payroll_run \<Rightarrow> payroll_run) \<Rightarrow> life_db \<Rightarrow> life_db" where
  "set_run k f = map_send (\<lambda>s. s\<lparr>sd_runs := update_row run_id k f (sd_runs s)\<rparr>)"

definition record_audit :: "string \<Rightarrow> int \<Rightarrow> life_db \<Rightarrow> life_db" where
  "record_audit action k db = db\<lparr>lf_audit := lf_audit db @ [(action, k)]\<rparr>"

subsection \<open>Single-run routes\<close>

datatype 'a reply = Refused guard_outcome | Run_not_found | Served 'a

text \<open>A route behind a role guard: the guard, \<open>get_or_404\<close>, then the body.\<close>

definition run_route ::
  "guard_outcome \<Rightarrow> int \<Rightarrow> (payroll_run \<Rightarrow> life_db \<Rightarrow> life_db \<times> 'a) \<Rightarrow> life_db \<Rightarrow> life_db \<times> 'a reply" where
  "run_route guard k body db =
     (if guard \<noteq> Serve then (db, Refused guard)
      else case find_run k db of
        None \<Rightarrow> (db, Run_not_found)
      | Some run \<Rightarrow> (case body run db of (db, x) \<Rightarrow> (db, Served x)))"

definition submit_for_approval :: "user \<Rightarrow> int \<Rightarrow> life_db \<Rightarrow> life_db \<times> unit reply" where
  "submit_for_approval u k =
     run_route (role_required SUBMIT_APPROVAL_ROLES u) k (\<lambda>run db.
       (record_audit ''Payroll edit'' k (set_run k (\<lambda>r. r\<lparr>run_status := PENDING_APPROVAL\<rparr>) db), ()))"

definition approve_run :: "int \<Rightarrow> user \<Rightarrow> payroll_run \<Rightarrow> life_db \<Rightarrow> life_db" where
  "approve_run now u run db =
     record_audit ''Payroll approval'' (run_id run)
       (set_run (run_id run) (\<lambda>r. r\<lparr>run_status := APPROVED, run_approved_by := Some (user_id u), run_approved_at := Some now\<rparr>) db)"

definition reject_run :: "int \<Rightarrow> string option \<Rightarrow> payroll_run \<Rightarrow> life_db \<Rightarrow> life_db" where
  "reject_run now notes run db =
     record_audit ''Payroll rejection'' (run_id run)
       (set_run (run_id run) (\<lambda>r. r\<lparr>run_status := REJECTED, run_rejected_at := Some now,
          run_notes := or_text notes (run_notes r)\<rparr>) db)"

definition approve :: "int \<Rightarrow> user \<Rightarrow> int \<Rightarrow> life_db \<Rightarrow> life_db \<times> unit reply" where
  "approve now u k = run_route (role_required APPROVAL_ROLES u) k (\<lambda>run db. (approve_run now u run db, ()))"

definition reject :: "int \<Rightarrow> user \<Rightarrow> string option \<Rightarrow> int \<Rightarrow> life_db \<Rightarrow> life_db \<times> unit reply" where
  "reject now u notes k = run_route (role_required APPROVAL_ROLES u) k (\<lambda>run db. (reject_run now notes run db, ()))"

definition mark_paid :: "user \<Rightarrow> int \<Rightarrow> life_db \<Rightarrow> life_db \<times> unit reply" where
  "mark_paid u k =
     run_route (role_required MARK_PROCESSED_ROLES u) k (\<lambda>run db.
       (record_audit ''Payroll processed'' k (set_run k (\<lambda>r. r\<lparr>run_status := PROCESSED\<rparr>) db), ()))"

subsection \<open>Bulk actions\<close>

datatype skip_reason = Skipped_missing int | Skipped_ineligible int string

fun bulk_loop ::
  "(string option \<Rightarrow> payroll_run \<Rightarrow> bool) \<Rightarrow> (payroll_run \<Rightarrow> life_db \<Rightarrow> life_db \<times> 'a) \<Rightarrow> string option \<Rightarrow> int list
    \<Rightarrow> life_db \<Rightarrow> life_db \<times> (int \<times> 'a) list \<times> skip_reason list" where
  "bulk_loop predicate action role [] db = (db, [], [])"
| "bulk_loop predicate action role (k # ks) db =
     (case find_run k db of
        None \<Rightarrow> (let (db, finished, skipped) = bulk_loop predicate action role ks db in (db, finished, Skipped_missing k # skipped))
      | Some run \<Rightarrow>
          if \<not> predicate role run
          then (let (db, finished, skipped) = bulk_loop predicate action role ks db
                in (db, finished, Skipped_ineligible k (run_status run) # skipped))
          else (let (db, x) = action run db; (db, finished, skipped) = bulk_loop predicate action role ks db
                in (db, (k, x) # finished, skipped)))"

definition bulk_apply ::
  "(string option \<Rightarrow> payroll_run \<Rightarrow> bool) \<Rightarrow> (payroll_run \<Rightarrow> life_db \<Rightarrow> life_db \<times> 'a) \<Rightarrow> string option \<Rightarrow> int option list
    \<Rightarrow> life_db \<Rightarrow> life_db \<times> (int \<times> 'a) list \<times> skip_reason list" where
  "bulk_apply predicate action role raw_ids = bulk_loop predicate action role (selected_ids raw_ids)"

datatype 'a bulk_reply = Bulk_refused guard_outcome | Confirm_first | Bulk_done "(int \<times> 'a) list" "skip_reason list"

definition bulk_route ::
  "guard_outcome \<Rightarrow> (life_db \<Rightarrow> life_db \<times> (int \<times> 'a) list \<times> skip_reason list) \<Rightarrow> life_db \<Rightarrow> life_db \<times> 'a bulk_reply" where
  "bulk_route guard body db =
     (if guard \<noteq> Serve then (db, Bulk_refused guard)
      else case body db of (db, finished, skipped) \<Rightarrow> (db, Bulk_done finished skipped))"

definition bulk_approve :: "int \<Rightarrow> user \<Rightarrow> int option list \<Rightarrow> life_db \<Rightarrow> life_db \<times> unit bulk_reply" where
  "bulk_approve now u ids =
     bulk_route (role_required APPROVAL_ROLES u)
       (bulk_apply can_approve_run (\<lambda>run db. (approve_run now u run db, ())) (user_role u) ids)"

definition bulk_reject :: "int \<Rightarrow> user \<Rightarrow> string option \<Rightarrow> int option list \<Rightarrow> life_db \<Rightarrow> life_db \<times> unit bulk_reply" where
  "bulk_reject now u notes ids =
     bulk_route (role_required APPROVAL_ROLES u)
       (bulk_apply can_reject_run (\<lambda>run db. (reject_run now notes run db, ())) (user_role u) ids)"

definition enqueue_for :: "int \<Rightarrow> user \<Rightarrow> string \<Rightarrow> bool \<Rightarrow> int option \<Rightarrow> payroll_run \<Rightarrow> life_db \<Rightarrow> life_db \<times> distribution_batch \<times> bool" where
  "enqueue_for now u channel only_failed scheduled_for run db =
     (let (queue, batch, again) = enqueue_distribution now run channel only_failed
            (Some (user_id u, text_or (user_role u) [])) scheduled_for (lf_queue db)
      in (db\<lparr>lf_queue := queue\<rparr>, batch, again))"

definition bulk_distribute :: "int \<Rightarrow> user \<Rightarrow> bool \<Rightarrow> int option list \<Rightarrow> life_db \<Rightarrow> life_db \<times> (distribution_batch \<times> bool) bulk_reply" where
  "bulk_distribute now u confirmed ids db =
     (if role_required PAYROLL_ROLES u \<noteq> Serve then (db, Bulk_refused (role_required PAYROLL_ROLES u))
      else if ids \<noteq> [] \<and> needs_confirm CHANNEL_AUTO confirmed then (db, Confirm_first)
      else bulk_route Serve
             (bulk_apply can_distribute_run (enqueue_for now u CHANNEL_AUTO False None) (user_role u) ids) db)"

subsection \<open>The risk gate\<close>

definition risk_check :: "int \<Rightarrow> user \<Rightarrow> int \<Rightarrow> life_db \<Rightarrow> life_db \<times> bool reply" where
  "risk_check now u k =
     run_route (platform_required u) k (\<lambda>run db.
       if run_status run \<notin> set RISK_GATED_STATUSES then (db, False)
       else let (gated, verdict) = apply_risk_gate (runs_in db) (Some now) run
            in (record_audit ''Risk gate evaluated'' k
                  (set_run k (\<lambda>_. gated\<lparr>run_status := (if verdict_held verdict then HELD else AUTO_ACCEPTED)\<rparr>) db), True))"

definition release_hold :: "user \<Rightarrow> int \<Rightarrow> life_db \<Rightarrow> life_db \<times> bool reply" where
  "release_hold u k =
     run_route (platform_required u) k (\<lambda>run db.
       if run_status run \<noteq> HELD then (db, False)
       else (record_audit ''Risk hold released'' k
               (set_run k (\<lambda>r. release_risk_hold (r\<lparr>run_status := PENDING_APPROVAL\<rparr>)) db), True))"

subsection \<open>Deleting and replacing runs\<close>

definition has_duplicate_payroll :: "int \<Rightarrow> string \<Rightarrow> int \<Rightarrow> life_db \<Rightarrow> bool" where
  "has_duplicate_payroll client month year db \<longleftrightarrow>
     first_row (\<lambda>r. run_client_company_id r = Some client \<and> run_month r = month \<and> run_year r = year) (runs_in db) \<noteq> None"

definition period_runs :: "int \<Rightarrow> string \<Rightarrow> int \<Rightarrow> life_db \<Rightarrow> payroll_run list" where
  "period_runs client month year db =
     filter (\<lambda>r. run_client_company_id r = Some client \<and> run_month r = month \<and> run_year r = year) (runs_in db)"

definition distributed_run_ids :: "int list \<Rightarrow> payslip_delivery list \<Rightarrow> int list" where
  "distributed_run_ids ids rows =
     fromkeys (map pd_run (filter (\<lambda>d. pd_run d \<in> set ids \<and> pd_status d = DELIVERY_SENT) rows))"

datatype blocker = Status_blocks string | Voucher_exists string | Remittances_exist nat | Payslips_sent nat | Expenses_linked nat

definition record_blockers :: "payroll_run \<Rightarrow> life_db \<Rightarrow> blocker list" where
  "record_blockers run db =
     (let k = run_id run;
          remitted = length (filter (\<lambda>r. r = Some k) (lf_remittances db));
          sent = length (filter (\<lambda>d. pd_run d = k \<and> pd_status d = DELIVERY_SENT) (sd_deliveries (qd_send (lf_queue db))));
          spent = length (filter (\<lambda>r. r = Some k) (lf_expenses db))
      in (case first_row (\<lambda>v. snd v = Some k) (lf_vouchers db) of None \<Rightarrow> [] | Some (number, _) \<Rightarrow> [Voucher_exists number]) @
         (if remitted = 0 then [] else [Remittances_exist remitted]) @
         (if sent = 0 then [] else [Payslips_sent sent]) @
         (if spent = 0 then [] else [Expenses_linked spent]))"

definition delete_blockers :: "payroll_run \<Rightarrow> life_db \<Rightarrow> blocker list" where
  "delete_blockers run db =
     (if run_status run \<in> set DELETABLE_STATUSES then [] else [Status_blocks (run_status run)]) @ record_blockers run db"

text \<open>
  Deleting the run row deletes its items with it and detaches its voucher and remittances; its
  deliveries, raw entries, archives and import batches are deleted first.
\<close>

definition detach :: "int \<Rightarrow> int option \<Rightarrow> int option" where
  "detach k r = (if r = Some k then None else r)"

definition purge_payroll_run :: "payroll_run \<Rightarrow> life_db \<Rightarrow> life_db" where
  "purge_payroll_run run db =
     (let k = run_id run;
          db = record_audit ''Payroll run hard-deleted'' k db;
          db = map_send (\<lambda>s. s\<lparr>sd_deliveries := filter (\<lambda>d. pd_run d \<noteq> k) (sd_deliveries s)\<rparr>) db;
          db = db\<lparr>lf_entries := filter (\<lambda>e. re_run e \<noteq> k) (lf_entries db)\<rparr>;
          db = db\<lparr>lf_archives := filter (\<lambda>r. r \<noteq> k) (lf_archives db)\<rparr>;
          db = db\<lparr>lf_imports := filter (\<lambda>b. snd b \<noteq> Some k) (lf_imports db)\<rparr>;
          db = db\<lparr>lf_vouchers := map (\<lambda>(n, r). (n, detach k r)) (lf_vouchers db),
                  lf_remittances := map (detach k) (lf_remittances db)\<rparr>
      in map_send (\<lambda>s. s\<lparr>sd_runs := filter (\<lambda>r. run_id r \<noteq> k) (sd_runs s),
                        sd_items := filter (\<lambda>i. item_run i \<noteq> k) (sd_items s)\<rparr>) db)"

definition hard_delete_payroll_run :: "payroll_run \<Rightarrow> life_db \<Rightarrow> life_db \<times> blocker list" where
  "hard_delete_payroll_run run db =
     (let blockers = delete_blockers run db
      in if blockers \<noteq> [] then (db, blockers) else (purge_payroll_run run db, []))"

text \<open>
  The foreign keys on runs that hold no deletion rule.  PostgreSQL checks them; the desktop
  database does not.
\<close>

definition foreign_keys_hold :: "life_db \<Rightarrow> bool" where
  "foreign_keys_hold db \<longleftrightarrow>
     (let ids = map run_id (runs_in db)
      in list_all (\<lambda>b. bt_run b \<in> set ids) (qd_batches (lf_queue db)) \<and>
         list_all (\<lambda>d. pd_run d \<in> set ids) (sd_deliveries (qd_send (lf_queue db))) \<and>
         list_all (\<lambda>e. re_run e \<in> set ids) (lf_entries db) \<and>
         list_all (\<lambda>r. r \<in> set ids) (lf_archives db))"

datatype delete_reply = Delete_refused guard_outcome | Delete_no_run | Delete_blocked "blocker list" | Delete_fails | Deleted

definition delete_run :: "bool \<Rightarrow> user \<Rightarrow> int \<Rightarrow> life_db \<Rightarrow> life_db \<times> delete_reply" where
  "delete_run enforced u k db =
     (if role_required DELETE_ROLES u \<noteq> Serve then (db, Delete_refused (role_required DELETE_ROLES u))
      else case find_run k db of
        None \<Rightarrow> (db, Delete_no_run)
      | Some run \<Rightarrow>
          (let (db', blockers) = hard_delete_payroll_run run db
           in if blockers \<noteq> [] then (db, Delete_blocked blockers)
              else if enforced \<and> \<not> foreign_keys_hold db' then (db, Delete_fails)
              else (db', Deleted)))"

fun delete_all :: "payroll_run list \<Rightarrow> life_db \<Rightarrow> life_db \<times> blocker list" where
  "delete_all [] db = (db, [])"
| "delete_all (run # rs) db =
     (let (db', blockers) = hard_delete_payroll_run run db
      in if blockers \<noteq> [] then (db', blockers) else delete_all rs db')"

definition replace_existing_runs :: "int \<Rightarrow> string \<Rightarrow> int \<Rightarrow> life_db \<Rightarrow> life_db \<times> (bool \<times> blocker list)" where
  "replace_existing_runs client month year db =
     (let existing = period_runs client month year db
      in case first_row (\<lambda>r. delete_blockers r db \<noteq> []) existing of
           Some r \<Rightarrow> (db, False, delete_blockers r db)
         | None \<Rightarrow> (let (db', blockers) = delete_all existing db in (db', blockers = [], blockers)))"

datatype replace_refusal = Already_closed int | Record_blocks "blocker list"

definition replace_precheck :: "int \<Rightarrow> string \<Rightarrow> int \<Rightarrow> life_db \<Rightarrow> replace_refusal option" where
  "replace_precheck client month year db =
     (case first_row (\<lambda>r. run_status r = PROCESSED \<or> record_blockers r db \<noteq> []) (period_runs client month year db) of
        None \<Rightarrow> None
      | Some r \<Rightarrow> Some (if run_status r = PROCESSED then Already_closed (run_id r) else Record_blocks (record_blockers r db)))"

definition client_replace_runs :: "int \<Rightarrow> string \<Rightarrow> int \<Rightarrow> life_db \<Rightarrow> life_db \<times> replace_refusal option" where
  "client_replace_runs client month year db =
     (case replace_precheck client month year db of
        Some why \<Rightarrow> (db, Some why)
      | None \<Rightarrow> (foldl (\<lambda>db run. purge_payroll_run run db) db (period_runs client month year db), None))"

end
