(* ===== verification/LifecycleSafety.thy ===== *)
theory LifecycleSafety
  imports Lifecycle
begin

text \<open>
  What the lifecycle routes guarantee and what they do not: bulk actions obey the predicates,
  the single-run routes check the role alone, the worker sends whatever became of the run, and
  a replacement deletes all runs of a period or none, but not their distribution batches.
\<close>

subsection \<open>Rows of the run table\<close>

lemma runs_in_frame [simp]:
  "runs_in (record_audit a k db) = runs_in db" "find_run j (record_audit a k db) = find_run j db"
  "runs_in (set_run k f db) = update_row run_id k f (runs_in db)"
  by (simp_all add: runs_in_def find_run_def record_audit_def set_run_def map_send_def)

lemma find_set_run:
  "(\<And>r. run_id (f r) = run_id r) \<Longrightarrow>
     find_run j (set_run k f db) = (if j = k then map_option f (find_run k db) else find_run j db)"
  by (auto simp: find_run_def runs_in_def set_run_def map_send_def first_row_update_row [where key = run_id] option.map_ident)

lemma find_run_id: "find_run k db = Some run \<Longrightarrow> run_id run = k \<and> run \<in> set (runs_in db)"
  using first_row_SomeD by (fastforce simp: find_run_def)

subsection \<open>Single-run routes\<close>

text \<open>
  The single-run routes check the role only.  Whoever passes the role guard of a route moves
  any run with it, whatever the run's status and headcount: approval approves, rejection rejects,
  submission reopens, payment closes.  The lifecycle predicates on status and workers are not
  consulted.
\<close>
theorem single_routes_check_role_only:
  assumes "find_run k db = Some run"
  shows "(role_required APPROVAL_ROLES u = Serve \<longrightarrow>
      map_option run_status (find_run k (fst (approve now u k db))) = Some APPROVED \<and>
      map_option run_status (find_run k (fst (reject now u notes k db))) = Some REJECTED) \<and>
    (role_required SUBMIT_APPROVAL_ROLES u = Serve \<longrightarrow>
      map_option run_status (find_run k (fst (submit_for_approval u k db))) = Some PENDING_APPROVAL) \<and>
    (role_required MARK_PROCESSED_ROLES u = Serve \<longrightarrow>
      map_option run_status (find_run k (fst (mark_paid u k db))) = Some PROCESSED)"
  using assms find_run_id [OF assms]
  by (auto simp: approve_def reject_def submit_for_approval_def mark_paid_def run_route_def approve_run_def reject_run_def find_set_run)

definition empty_life :: "payroll_run list \<Rightarrow> life_db" where
  "empty_life runs = \<lparr>lf_queue = \<lparr>qd_send = \<lparr>sd_items = [], sd_runs = runs, sd_employees = [], sd_deliveries = [], sd_calls = []\<rparr>,
     qd_batches = []\<rparr>, lf_vouchers = [], lf_remittances = [], lf_expenses = [], lf_entries = [], lf_archives = [], lf_imports = [],
     lf_audit = []\<rparr>"

definition an_admin :: user where
  "an_admin = \<lparr>user_id = 1, user_role = Some ''admin'', user_company = None, user_authenticated = True\<rparr>"

lemma admin_guards:
  "role_required APPROVAL_ROLES an_admin = Serve" "role_required SUBMIT_APPROVAL_ROLES an_admin = Serve"
  by (simp_all add: role_required_def an_admin_def capability_defs normalise_role_def text_or_def LEGACY_ROLE_ALIASES_def role_defs text_eval)

text \<open>An empty run is approved, and a paid run goes back to the approval queue.\<close>

lemma single_routes_check_role_only_witness:
  "map_option run_status (find_run 1 (fst (approve 5 an_admin 1 (empty_life [sample_run DRAFT 0])))) = Some APPROVED \<and>
   \<not> can_approve_run (user_role an_admin) (sample_run DRAFT 0) \<and>
   map_option run_status (find_run 1 (fst (submit_for_approval an_admin 1 (empty_life [sample_run PROCESSED 3])))) = Some PENDING_APPROVAL \<and>
   \<not> can_submit_run_for_approval (user_role an_admin) (sample_run PROCESSED 3)"
proof -
  have f: "find_run 1 (empty_life [sample_run st n]) = Some (sample_run st n)" for st n
    by (simp add: find_run_def runs_in_def empty_life_def sample_run_def)
  show ?thesis
    using single_routes_check_role_only [OF f [of DRAFT 0], of an_admin 5 None]
      single_routes_check_role_only [OF f [of PROCESSED 3], of an_admin 5 None] admin_guards
    by (simp add: can_approve_run_def can_submit_run_for_approval_def sample_run_def DRAFT_def PROCESSED_def)
qed

subsection \<open>Bulk actions\<close>

lemma bulk_loop_acts:
  assumes "distinct ks" "distinct (map run_id (runs_in db))"
    and act: "\<And>run db. runs_in (fst (action run db)) = update_row run_id (run_id run) f (runs_in db)" "\<And>r. run_id (f r) = run_id r"
    and "bulk_loop predicate action role ks db = (db', finished, skipped)"
  shows "map fst finished = filter (\<lambda>k. \<exists>run\<in>set (runs_in db). run_id run = k \<and> predicate role run) ks \<and>
    length finished + length skipped = length ks \<and>
    runs_in db' = map (\<lambda>r. if run_id r \<in> set ks \<and> predicate role r then f r else r) (runs_in db)"
  using assms(1,2,5)
proof (induction ks arbitrary: db finished skipped)
  case (Cons k ks)
  have uniq: "r = run" if "find_run k db = Some run" "r \<in> set (runs_in db)" "run_id r = k" for r run
    using find_run_id [OF that(1)] that Cons.prems(2) by (auto simp: distinct_map dest: inj_onD)
  consider (missing) "find_run k db = None" | (no) run where "find_run k db = Some run" "\<not> predicate role run"
    | (yes) run where "find_run k db = Some run" "predicate role run" by (cases "find_run k db") auto
  then show ?case
  proof cases
    case missing
    then have absent: "run_id r \<noteq> k" if "r \<in> set (runs_in db)" for r
      using that by (auto simp: find_run_def first_row_None_iff)
    obtain s where "bulk_loop predicate action role ks db = (db', finished, s)" "skipped = Skipped_missing k # s"
      using Cons.prems(3) missing by (auto simp: Let_def split: prod.splits)
    then show ?thesis using Cons.IH [of db finished s] Cons.prems(1,2) absent by auto
  next
    case no
    obtain s where s: "bulk_loop predicate action role ks db = (db', finished, s)" "skipped = Skipped_ineligible k (run_status run) # s"
      using Cons.prems(3) no by (auto simp: Let_def split: prod.splits)
    have "\<not> predicate role r" if "r \<in> set (runs_in db)" "run_id r = k" for r using uniq [OF no(1) that] no(2) by simp
    then show ?thesis using Cons.IH [OF _ Cons.prems(2) s(1)] Cons.prems(1) s(2) by auto
  next
    case yes
    obtain db1 x rest where s: "action run db = (db1, x)" "bulk_loop predicate action role ks db1 = (db', rest, skipped)" "finished = (k, x) # rest"
      using Cons.prems(3) yes by (auto simp: Let_def split: prod.splits)
    have run: "run_id run = k" "run \<in> set (runs_in db)" using find_run_id [OF yes(1)] by auto
    have db1: "runs_in db1 = map (\<lambda>r. if run_id r = k then f r else r) (runs_in db)"
      using act(1) [of run db] s(1) run(1) by (simp add: update_row_def)
    have ids: "map run_id (runs_in db1) = map run_id (runs_in db)" by (simp add: db1 act(2))
    have step: "map fst rest = filter (\<lambda>k. \<exists>run\<in>set (runs_in db1). run_id run = k \<and> predicate role run) ks \<and>
        length rest + length skipped = length ks \<and>
        runs_in db' = map (\<lambda>r. if run_id r \<in> set ks \<and> predicate role r then f r else r) (runs_in db1)"
      using Cons.IH [OF _ _ s(2)] Cons.prems(1,2) ids by simp
    have same: "(\<exists>run\<in>set (runs_in db1). run_id run = j \<and> predicate role run) \<longleftrightarrow> (\<exists>run\<in>set (runs_in db). run_id run = j \<and> predicate role run)"
      if "j \<in> set ks" for j
    proof -
      have "j \<noteq> k" using that Cons.prems(1) by auto
      then show ?thesis by (auto simp: db1 act(2))
    qed
    have "map fst rest = filter (\<lambda>k. \<exists>run\<in>set (runs_in db). run_id run = k \<and> predicate role run) ks"
      using step same by (simp cong: filter_cong)
    moreover have "runs_in db' = map (\<lambda>r. if run_id r \<in> set (k # ks) \<and> predicate role r then f r else r) (runs_in db)"
    proof -
      define g where "g r = (if run_id r = k then f r else r)" for r
      have "(if run_id (g r) \<in> set ks \<and> predicate role (g r) then f (g r) else g r) =
          (if run_id r \<in> set (k # ks) \<and> predicate role r then f r else r)" if "r \<in> set (runs_in db)" for r
      proof (cases "run_id r = k")
        case True
        then have "r = run" using uniq [OF yes(1) that] by simp
        then show ?thesis using True yes(2) Cons.prems(1) by (simp add: g_def act(2))
      next
        case False
        then show ?thesis by (simp add: g_def)
      qed
      moreover have "runs_in db1 = map g (runs_in db)" by (simp add: db1 g_def)
      ultimately show ?thesis using step by simp
    qed
    ultimately show ?thesis using step s(3) run yes(2) by auto
  qed
qed simp

lemma selected_distinct: "distinct (selected_ids raw)"
  by (simp add: selected_ids_def fromkeys_def)

text \<open>
  C34: bulk actions obey the predicates.  A bulk approval or rejection goes once through the
  selected runs, each ends up finished or reported as skipped, the finished ones are exactly
  those the predicate allows for the user's role, and no other run changes.
\<close>
theorem bulk_actions_obey_predicates:
  assumes "distinct (map run_id (runs_in db))"
    and "bulk_approve now u ids db = (db1, Bulk_done finished1 skipped1)"
    and "bulk_reject now u notes ids db = (db2, Bulk_done finished2 skipped2)"
  shows "map fst finished1 = filter (\<lambda>k. \<exists>run\<in>set (runs_in db). run_id run = k \<and> can_approve_run (user_role u) run) (selected_ids ids) \<and>
    length finished1 + length skipped1 = length (selected_ids ids) \<and>
    list_all2 (\<lambda>r r'. if run_id r \<in> set (selected_ids ids) \<and> can_approve_run (user_role u) r
       then run_status r' = APPROVED \<and> run_approved_by r' = Some (user_id u) else r' = r) (runs_in db) (runs_in db1) \<and>
    map fst finished2 = filter (\<lambda>k. \<exists>run\<in>set (runs_in db). run_id run = k \<and> can_reject_run (user_role u) run) (selected_ids ids) \<and>
    length finished2 + length skipped2 = length (selected_ids ids) \<and>
    list_all2 (\<lambda>r r'. if run_id r \<in> set (selected_ids ids) \<and> can_reject_run (user_role u) r
       then run_status r' = REJECTED else r' = r) (runs_in db) (runs_in db2)"
proof -
  have a: "bulk_loop can_approve_run (\<lambda>run db. (approve_run now u run db, ())) (user_role u) (selected_ids ids) db = (db1, finished1, skipped1)"
    using assms(2) by (auto simp: bulk_approve_def bulk_route_def bulk_apply_def split: if_splits prod.splits)
  have r: "bulk_loop can_reject_run (\<lambda>run db. (reject_run now notes run db, ())) (user_role u) (selected_ids ids) db = (db2, finished2, skipped2)"
    using assms(3) by (auto simp: bulk_reject_def bulk_route_def bulk_apply_def split: if_splits prod.splits)
  note approved = bulk_loop_acts [OF selected_distinct assms(1) _ _ a,
      of "\<lambda>r. r\<lparr>run_status := APPROVED, run_approved_by := Some (user_id u), run_approved_at := Some now\<rparr>"]
  note rejected = bulk_loop_acts [OF selected_distinct assms(1) _ _ r,
      of "\<lambda>r. r\<lparr>run_status := REJECTED, run_rejected_at := Some now, run_notes := or_text notes (run_notes r)\<rparr>"]
  show ?thesis
    using approved rejected by (simp add: approve_run_def reject_run_def list_all2_map2 list.rel_refl_strong)
qed

lemma bulk_actions_obey_predicates_witness:
  "\<exists>db1 db2. bulk_approve 5 an_admin [Some 1, None, Some 1] (empty_life [sample_run DRAFT 0]) = (db1, Bulk_done [] [Skipped_ineligible 1 DRAFT]) \<and>
     bulk_reject 5 an_admin None [Some 1] (empty_life [sample_run DRAFT 0]) = (db2, Bulk_done [(1, ())] []) \<and>
     runs_in db1 = [sample_run DRAFT 0] \<and> map run_status (runs_in db2) = [REJECTED]"
proof -
  have g: "role_required APPROVAL_ROLES an_admin = Serve" by (rule admin_guards)
  have f: "find_run 1 (empty_life [sample_run DRAFT 0]) = Some (sample_run DRAFT 0)"
    by (simp add: find_run_def runs_in_def empty_life_def sample_run_def)
  have sel: "selected_ids [Some 1, None, Some 1] = [1]" "selected_ids [Some 1] = [1]"
    by (simp_all add: selected_ids_def List.map_filter_def fromkeys_def)
  have p: "\<not> can_approve_run (user_role an_admin) (sample_run DRAFT 0)" "can_reject_run (user_role an_admin) (sample_run DRAFT 0)"
    by (simp_all add: can_approve_run_def can_reject_run_def sample_run_def in_group_def an_admin_def normalise_literals capability_defs PENDING_STATUSES_def)
  obtain db1 where 1: "bulk_approve 5 an_admin [Some 1, None, Some 1] (empty_life [sample_run DRAFT 0]) = (db1, Bulk_done [] [Skipped_ineligible 1 DRAFT])"
    using p(1) by (simp add: bulk_approve_def bulk_route_def bulk_apply_def sel g f) (simp add: sample_run_def)
  obtain db2 where 2: "bulk_reject 5 an_admin None [Some 1, None, Some 1] (empty_life [sample_run DRAFT 0]) = (db2, Bulk_done [(1, ())] [])"
    using p(2) by (simp add: bulk_reject_def bulk_route_def bulk_apply_def sel g f)
  have 3: "bulk_reject 5 an_admin None [Some 1] = bulk_reject 5 an_admin None [Some 1, None, Some 1]"
    by (simp add: bulk_reject_def bulk_apply_def sel)
  have rows: "runs_in (empty_life [sample_run DRAFT 0]) = [sample_run DRAFT 0]" "run_id (sample_run DRAFT 0) = 1"
    by (simp_all add: runs_in_def empty_life_def sample_run_def)
  have "distinct (map run_id (runs_in (empty_life [sample_run DRAFT 0])))" by (simp add: rows)
  from bulk_actions_obey_predicates [OF this 1 2] p have "runs_in db1 = [sample_run DRAFT 0]" "map run_status (runs_in db2) = [REJECTED]"
    by (auto simp: rows sel list_all2_Cons1)
  then show ?thesis using 1 2 3 by auto
qed

subsection \<open>Sending and the status of the run\<close>

definition restatus :: "int \<Rightarrow> string \<Rightarrow> send_db \<Rightarrow> send_db" where
  "restatus k st db = db\<lparr>sd_runs := update_row run_id k (\<lambda>r. r\<lparr>run_status := st\<rparr>) (sd_runs db)\<rparr>"

lemma restatus_frame [simp]:
  "sd_items (restatus k st db) = sd_items db" "sd_employees (restatus k st db) = sd_employees db"
  "sd_deliveries (restatus k st db) = sd_deliveries db" "sd_calls (restatus k st db) = sd_calls db"
  by (simp_all add: restatus_def)

lemma restatus_find: "first_row (\<lambda>r. run_id r = j) (sd_runs (restatus k st db)) =
    map_option (\<lambda>r. if j = k then r\<lparr>run_status := st\<rparr> else r) (first_row (\<lambda>r. run_id r = j) (sd_runs db))"
  by (simp add: restatus_def first_row_update_row option.map_ident)

lemma restatus_roster: "roster_employee_of emps (sd_runs (restatus k st db)) item = roster_employee_of emps (sd_runs db) item"
  by (auto simp: roster_employee_of_def restatus_find split: option.splits)

lemma restatus_update [simp]:
  "(restatus k st db)\<lparr>sd_deliveries := rows\<rparr> = restatus k st (db\<lparr>sd_deliveries := rows\<rparr>)"
  "(restatus k st db)\<lparr>sd_calls := calls\<rparr> = restatus k st (db\<lparr>sd_calls := calls\<rparr>)"
  by (simp_all add: restatus_def)

lemma attempt_restatus:
  "attempt_send cfg w d item ch claimable batch sched (restatus k st db) =
     apfst (restatus k st) (attempt_send cfg w d item ch claimable batch sched db)"
  by (auto simp: attempt_send_def Let_def restatus_roster split: prod.splits sum.splits)

lemma item_restatus:
  "distribute_item cfg world channel only_failed batch (restatus k st db, s) item =
     apfst (restatus k st) (distribute_item cfg world channel only_failed batch (db, s) item)"
  by (auto simp: distribute_item_def Let_def restatus_roster attempt_restatus split: prod.splits option.splits)

lemma items_restatus:
  "foldl (distribute_item cfg world channel only_failed batch) (restatus k st db, s) items =
     apfst (restatus k st) (foldl (distribute_item cfg world channel only_failed batch) (db, s) items)"
  by (induction items arbitrary: db s) (simp_all add: item_restatus apfst_def map_prod_def split: prod.splits)

definition restatus_queue :: "int \<Rightarrow> string \<Rightarrow> queue_db \<Rightarrow> queue_db" where
  "restatus_queue k st db = db\<lparr>qd_send := restatus k st (qd_send db)\<rparr>"

text \<open>
  A run's status does not stop its sending.  Once a batch of a run is queued, the worker's
  processing of it is the same whatever status the run is given in the meantime, rejection
  included; so is the automatic retry of its failed payslips.  The rule that payslips only go
  out after approval is checked when a send is requested, never when it happens.
\<close>
theorem sending_ignores_run_status:
  "process_batch cfg w b (restatus_queue k st db) = restatus_queue k st (process_batch cfg w b db) \<and>
   retry_delivery cfg aw d (restatus k st sdb) = apfst (restatus k st) (retry_delivery cfg aw d sdb)"
proof
  show "process_batch cfg w b (restatus_queue k st db) = restatus_queue k st (process_batch cfg w b db)"
    by (auto simp: process_batch_def restatus_queue_def restatus_find Let_def distribute_run_def items_restatus
        split: option.splits prod.splits)
  show "retry_delivery cfg aw d (restatus k st sdb) = apfst (restatus k st) (retry_delivery cfg aw d sdb)"
    by (auto simp: retry_delivery_def restatus_find attempt_restatus split: option.splits prod.splits)
qed

subsection \<open>Replacing the runs of a period\<close>

abbreviation deliveries_in :: "life_db \<Rightarrow> payslip_delivery list" where
  "deliveries_in db \<equiv> sd_deliveries (qd_send (lf_queue db))"

abbreviation items_in :: "life_db \<Rightarrow> payroll_item list" where
  "items_in db \<equiv> sd_items (qd_send (lf_queue db))"

lemma purge_rows [simp]:
  "runs_in (purge_payroll_run run db) = filter (\<lambda>r. run_id r \<noteq> run_id run) (runs_in db)"
  "items_in (purge_payroll_run run db) = filter (\<lambda>i. item_run i \<noteq> run_id run) (items_in db)"
  "deliveries_in (purge_payroll_run run db) = filter (\<lambda>d. pd_run d \<noteq> run_id run) (deliveries_in db)"
  "qd_batches (lf_queue (purge_payroll_run run db)) = qd_batches (lf_queue db)"
  "lf_entries (purge_payroll_run run db) = filter (\<lambda>e. re_run e \<noteq> run_id run) (lf_entries db)"
  "lf_archives (purge_payroll_run run db) = filter (\<lambda>r. r \<noteq> run_id run) (lf_archives db)"
  "lf_vouchers (purge_payroll_run run db) = map (\<lambda>(n, r). (n, detach (run_id run) r)) (lf_vouchers db)"
  "lf_remittances (purge_payroll_run run db) = map (detach (run_id run)) (lf_remittances db)"
  "lf_expenses (purge_payroll_run run db) = lf_expenses db"
  by (simp_all add: purge_payroll_run_def Let_def record_audit_def map_send_def runs_in_def)

lemma detach_other: "k \<noteq> j \<Longrightarrow> (detach j r = Some k) = (r = Some k)"
  by (simp add: detach_def)

lemma first_voucher:
  assumes "k \<noteq> j"
  shows "first_row (\<lambda>v. snd v = Some k) (map (\<lambda>(n, r). (n, detach j r)) vs) = first_row (\<lambda>v. snd v = Some k) vs"
proof (induction vs)
  case (Cons v vs)
  then show ?case using assms by (cases v) (auto simp: detach_def)
qed simp

lemma count_detach: "k \<noteq> j \<Longrightarrow> length (filter (\<lambda>r. r = Some k) (map (detach j) rs)) = length (filter (\<lambda>r. r = Some k) rs)"
  unfolding filter_map length_map o_def by (simp add: detach_other)

lemma sent_after_purge:
  "k \<noteq> j \<Longrightarrow> filter (\<lambda>d. pd_run d = k \<and> P d) (filter (\<lambda>d. pd_run d \<noteq> j) ds) = filter (\<lambda>d. pd_run d = k \<and> P d) ds"
  by (induction ds) auto

lemma blockers_after_purge:
  assumes "run_id r \<noteq> run_id run"
  shows "delete_blockers r (purge_payroll_run run db) = delete_blockers r db"
proof -
  have "record_blockers r (purge_payroll_run run db) = record_blockers r db"
    unfolding record_blockers_def Let_def purge_rows
      first_voucher [OF assms] count_detach [OF assms] sent_after_purge [OF assms] by (rule refl)
  then show ?thesis by (simp add: delete_blockers_def)
qed

lemma delete_all_purges:
  assumes "distinct (map run_id rs)" "\<And>r. r \<in> set rs \<Longrightarrow> delete_blockers r db = []"
  shows "delete_all rs db = (foldl (\<lambda>db run. purge_payroll_run run db) db rs, [])"
  using assms
proof (induction rs arbitrary: db)
  case (Cons run rs)
  have "delete_blockers r (purge_payroll_run run db) = []" if "r \<in> set rs" for r
  proof -
    have "run_id r \<noteq> run_id run" using Cons.prems(1) imageI [OF that, of run_id] by auto
    then show ?thesis using blockers_after_purge Cons.prems(2) that by simp
  qed
  then show ?case using Cons by (simp add: hard_delete_payroll_run_def)
qed simp

lemma purge_all_rows:
  "runs_in (foldl (\<lambda>db run. purge_payroll_run run db) db rs) = filter (\<lambda>r. run_id r \<notin> run_id ` set rs) (runs_in db)"
  "items_in (foldl (\<lambda>db run. purge_payroll_run run db) db rs) = filter (\<lambda>i. item_run i \<notin> run_id ` set rs) (items_in db)"
  "deliveries_in (foldl (\<lambda>db run. purge_payroll_run run db) db rs) = filter (\<lambda>d. pd_run d \<notin> run_id ` set rs) (deliveries_in db)"
  "qd_batches (lf_queue (foldl (\<lambda>db run. purge_payroll_run run db) db rs)) = qd_batches (lf_queue db)"
  "lf_entries (foldl (\<lambda>db run. purge_payroll_run run db) db rs) = filter (\<lambda>e. re_run e \<notin> run_id ` set rs) (lf_entries db)"
  "lf_archives (foldl (\<lambda>db run. purge_payroll_run run db) db rs) = filter (\<lambda>r. r \<notin> run_id ` set rs) (lf_archives db)"
  by (induction rs arbitrary: db) (simp_all add: filter_filter conj_commute)

text \<open>A deletion keeps the foreign keys exactly when no distribution batch belongs to a deleted run.\<close>

lemma image_without: "x \<in> f ` {r \<in> A. f r \<notin> S} \<longleftrightarrow> x \<in> f ` A \<and> x \<notin> S"
  by auto

lemma purge_foreign_keys:
  assumes "foreign_keys_hold db"
  shows "foreign_keys_hold (foldl (\<lambda>db run. purge_payroll_run run db) db rs) \<longleftrightarrow>
    (\<forall>b\<in>set (qd_batches (lf_queue db)). bt_run b \<notin> run_id ` set rs)"
  using assms by (auto simp: foreign_keys_hold_def Let_def purge_all_rows list_all_iff image_without)

text \<open>
  C35: replacing a period is all or nothing, but forgets the batches.  Either some run of the
  period is not deletable, then nothing changes and its blockers are reported; or none is
  blocked, then all of them go with their rows, and every other run and row stays.  The
  distribution batches stay in every case: the foreign keys of the result hold exactly when no
  deleted run ever had a batch, so on PostgreSQL such a replacement cannot be committed.
\<close>
theorem replace_all_or_nothing:
  assumes "distinct (map run_id (runs_in db))" "replace_existing_runs client month year db = (db', ok, blockers)"
  shows "if ok
    then (\<forall>r\<in>set (period_runs client month year db). delete_blockers r db = []) \<and>
      period_runs client month year db' = [] \<and>
      (\<forall>r\<in>set (runs_in db). r \<notin> set (period_runs client month year db) \<longrightarrow> r \<in> set (runs_in db')) \<and>
      (\<forall>i\<in>set (items_in db). item_run i \<notin> run_id ` set (period_runs client month year db) \<longrightarrow> i \<in> set (items_in db')) \<and>
      (foreign_keys_hold db \<longrightarrow> (foreign_keys_hold db' \<longleftrightarrow>
         (\<forall>b\<in>set (qd_batches (lf_queue db)). bt_run b \<notin> run_id ` set (period_runs client month year db))))
    else db' = db \<and> (\<exists>r\<in>set (period_runs client month year db). delete_blockers r db = blockers \<and> blockers \<noteq> [])"
proof (cases "first_row (\<lambda>r. delete_blockers r db \<noteq> []) (period_runs client month year db)")
  case (Some r)
  then have "db' = db" "\<not> ok" "blockers = delete_blockers r db" using assms(2) by (auto simp: replace_existing_runs_def Let_def)
  then show ?thesis using first_row_SomeD [OF Some] by auto
next
  case None
  let ?rs = "period_runs client month year db"
  have free: "delete_blockers r db = []" if "r \<in> set ?rs" for r using None that by (auto simp: first_row_None_iff)
  have "distinct (map run_id ?rs)" using assms(1) by (simp add: period_runs_def distinct_map_filter)
  from delete_all_purges [OF this free]
  have db': "db' = foldl (\<lambda>db run. purge_payroll_run run db) db ?rs" and ok: "ok"
    using assms(2) None by (auto simp: replace_existing_runs_def Let_def)
  have "r \<in> set ?rs" if "r \<in> set (runs_in db)" "run_id r \<in> run_id ` set ?rs" for r
  proof -
    from that(2) obtain p where "p \<in> set ?rs" "run_id r = run_id p" by auto
    moreover have "p \<in> set (runs_in db)" using \<open>p \<in> set ?rs\<close> by (simp add: period_runs_def)
    ultimately show ?thesis using assms(1) that(1) by (metis distinct_map inj_onD)
  qed
  then have kept: "\<forall>r\<in>set (runs_in db). r \<notin> set ?rs \<longrightarrow> r \<in> set (runs_in db')"
    by (auto simp: db' purge_all_rows)
  have gone: "period_runs client month year db' = []"
    by (auto simp: period_runs_def db' purge_all_rows filter_empty_conv)
  have items: "\<forall>i\<in>set (items_in db). item_run i \<notin> run_id ` set ?rs \<longrightarrow> i \<in> set (items_in db')"
    by (simp add: db' purge_all_rows)
  have keys: "foreign_keys_hold db \<longrightarrow> (foreign_keys_hold db' \<longleftrightarrow> (\<forall>b\<in>set (qd_batches (lf_queue db)). bt_run b \<notin> run_id ` set ?rs))"
    unfolding db' using purge_foreign_keys by blast
  show ?thesis unfolding if_P [OF ok] using free gone kept items keys by blast
qed

theorem replace_all_or_nothing_witness:
  "replace_existing_runs 7 ''January'' 2026 (empty_life [sample_run DRAFT 0]) =
     (purge_payroll_run (sample_run DRAFT 0) (empty_life [sample_run DRAFT 0]), True, []) \<and>
   period_runs 7 ''January'' 2026 (purge_payroll_run (sample_run DRAFT 0) (empty_life [sample_run DRAFT 0])) = []"
proof -
  let ?db = "empty_life [sample_run DRAFT 0]"
  have runs: "period_runs 7 ''January'' 2026 ?db = [sample_run DRAFT 0]"
    by (simp add: period_runs_def runs_in_def empty_life_def sample_run_def)
  have free: "delete_blockers (sample_run DRAFT 0) ?db = []"
    by (simp add: delete_blockers_def record_blockers_def empty_life_def DELETABLE_STATUSES_def text_eval status_defs sample_run_def)
  have 1: "replace_existing_runs 7 ''January'' 2026 ?db = (purge_payroll_run (sample_run DRAFT 0) ?db, True, [])"
    by (simp add: replace_existing_runs_def runs free hard_delete_payroll_run_def)
  have "distinct (map run_id (runs_in ?db))" by (simp add: runs_in_def empty_life_def)
  from replace_all_or_nothing [OF this 1] show ?thesis using 1 by simp
qed

end
