(* ===== verification/SendRoutes.thy ===== *)
theory SendRoutes
  imports Preview
begin

text \<open>
  The routes that request, schedule and stop a distribution, of the operator
  (\<open>app/distribution/__init__.py\<close>, \<open>run_actions.py\<close>) and of a client (\<open>app/client/__init__.py\<close>), and the
  replay of a repeated request (\<open>app/distribution/idempotency.py\<close>).  A scheduled time is given as
  parsed by \<open>_parse_schedule\<close>: seconds, or none when it does not parse.
\<close>

subsection \<open>Replay of a repeated request\<close>

text \<open>
  The summary of \<open>enqueue_distribution\<close>, and the answer to a request whose first instance has
  stored no result.  \<open>json.dumps\<close> writes every field but a \<open>datetime\<close>; what it writes is read
  back unchanged.
\<close>

datatype send_summary =
    Summary (sm_batch: int) (sm_total: "nat option") (sm_scheduled_for: "int option") (sm_already: bool)
  | Replay_in_progress

record idempotency_key =
  ik_key :: string
  ik_response :: "send_summary option"

record web_db =
  wd_queue :: queue_db
  wd_keys :: "idempotency_key list"

definition json_dumps :: "send_summary \<Rightarrow> send_summary option" where
  "json_dumps s = (case s of Summary _ _ (Some _) _ \<Rightarrow> None | _ \<Rightarrow> Some s)"

text \<open>
  A result of \<open>None\<close> is an exception that leaves the function: of \<open>run_fn\<close>, whose claim on the
  key is then given back, or of \<open>json.dumps\<close>, whose claim stays.
\<close>

definition replay_or_run ::
  "string option \<Rightarrow> (queue_db \<Rightarrow> queue_db \<times> send_summary option) \<Rightarrow> web_db \<Rightarrow> web_db \<times> (send_summary \<times> bool) option" where
  "replay_or_run key run_fn db =
     (case key of
        None \<Rightarrow> (case run_fn (wd_queue db) of (q, result) \<Rightarrow> (db\<lparr>wd_queue := q\<rparr>, map_option (\<lambda>s. (s, False)) result))
      | Some k \<Rightarrow>
          (case first_row (\<lambda>r. ik_key r = k) (wd_keys db) of
             Some existing \<Rightarrow>
               (db, Some (case ik_response existing of Some s \<Rightarrow> (s, True) | None \<Rightarrow> (Replay_in_progress, True)))
           | None \<Rightarrow>
               (case run_fn (wd_queue db) of
                  (q, None) \<Rightarrow> (db\<lparr>wd_queue := q\<rparr>, None)
                | (q, Some s) \<Rightarrow>
                    (db\<lparr>wd_queue := q, wd_keys := wd_keys db @ [\<lparr>ik_key = k, ik_response = json_dumps s\<rparr>]\<rparr>,
                     map_option (\<lambda>_. (s, False)) (json_dumps s)))))"

definition enqueue_summary ::
  "int \<Rightarrow> payroll_run \<Rightarrow> string \<Rightarrow> bool \<Rightarrow> user \<Rightarrow> int option \<Rightarrow> queue_db \<Rightarrow> queue_db \<times> send_summary option" where
  "enqueue_summary now run channel only_failed u scheduled_for q =
     (case enqueue_distribution now run channel only_failed (Some (user_id u, text_or (user_role u) [])) scheduled_for q of
        (q', batch, already) \<Rightarrow> (q', Some (Summary (bt_id batch) (bt_total batch) (bt_scheduled_for batch) already)))"

subsection \<open>Requests\<close>

record send_form =
  sf_channel :: "string option"
  sf_confirmed :: "string option"
  sf_nonce :: "string option"
  sf_when :: "int option"

datatype send_reply =
    Turned_away guard_outcome | Not_found_404 | Not_sendable | Unknown_channel | Sms_blocked
  | Bad_time | Confirm_first | Internal_error | Already_in_progress | Queued bool "nat option"
  | Scheduled_at int "nat option" | Time_changed int | No_schedule | Cancel_reply cancel_result

definition VALID_SEND_CHANNELS :: "string list" where
  "VALID_SEND_CHANNELS = DELIVERY_CHANNELS @ [CHANNEL_AUTO]"

definition sms_refused :: "bool \<Rightarrow> string \<Rightarrow> bool" where
  "sms_refused desktop channel \<longleftrightarrow> channel = ''sms'' \<and> desktop"

definition form_channel :: "send_form \<Rightarrow> string" where
  "form_channel form = (case sf_channel form of None \<Rightarrow> CHANNEL_AUTO | Some c \<Rightarrow> c)"

definition form_nonce :: "send_form \<Rightarrow> string option" where
  "form_nonce form = (case sf_nonce form of None \<Rightarrow> None | Some n \<Rightarrow> if n = [] then None else Some n)"

text \<open>What a send checks before it queues anything, in the order of the code.\<close>

definition send_problem :: "bool \<Rightarrow> payroll_run \<Rightarrow> send_form \<Rightarrow> send_reply option" where
  "send_problem desktop run form =
     (if run_status run \<notin> set SENDABLE_STATUSES then Some Not_sendable
      else if form_channel form \<notin> set VALID_SEND_CHANNELS then Some Unknown_channel
      else if sms_refused desktop (form_channel form) then Some Sms_blocked
      else None)"

definition unconfirmed :: "send_form \<Rightarrow> bool" where
  "unconfirmed form \<longleftrightarrow> needs_confirm (form_channel form) (sf_confirmed form = Some ''1'')"

definition send_key :: "string \<Rightarrow> int \<Rightarrow> bool \<Rightarrow> send_form \<Rightarrow> string option" where
  "send_key portal run only_failed form =
     map_option (\<lambda>nonce. portal @ '':'' @ str_int run @ '':'' @ (if only_failed then ''resend-failed'' else ''send'') @ '':''
        @ form_channel form @ '':'' @ nonce) (form_nonce form)"

definition send_request ::
  "string \<Rightarrow> int \<Rightarrow> bool \<Rightarrow> user \<Rightarrow> bool \<Rightarrow> send_form \<Rightarrow> payroll_run \<Rightarrow> web_db \<Rightarrow> web_db \<times> send_reply" where
  "send_request portal now desktop u only_failed form run db =
     (case send_problem desktop run form of
        Some problem \<Rightarrow> (db, problem)
      | None \<Rightarrow>
          if unconfirmed form then (db, Confirm_first)
          else (case replay_or_run (send_key portal (run_id run) only_failed form)
                       (enqueue_summary now run (form_channel form) only_failed u None) db of
                  (db', None) \<Rightarrow> (db', Internal_error)
                | (db', Some (Replay_in_progress, replayed)) \<Rightarrow> (db', Queued replayed (Some 0))
                | (db', Some (Summary _ payslips _ already, replayed)) \<Rightarrow>
                    (db', if already then Already_in_progress else Queued replayed payslips)))"

subsection \<open>The routes\<close>

definition run_with_id :: "int \<Rightarrow> web_db \<Rightarrow> payroll_run option" where
  "run_with_id k db = first_row (\<lambda>r. run_id r = k) (sd_runs (qd_send (wd_queue db)))"

text \<open>An operator's route: the role, then \<open>get_or_404\<close>.  A client's: the role, then the tenant's own run.\<close>

definition operator_route ::
  "user \<Rightarrow> int \<Rightarrow> (payroll_run \<Rightarrow> web_db \<Rightarrow> web_db \<times> send_reply) \<Rightarrow> web_db \<Rightarrow> web_db \<times> send_reply" where
  "operator_route u k body db =
     (if role_required PAYROLL_ROLES u \<noteq> Serve then (db, Turned_away (role_required PAYROLL_ROLES u))
      else case run_with_id k db of None \<Rightarrow> (db, Not_found_404) | Some run \<Rightarrow> body run db)"

definition run_row :: "payroll_run \<Rightarrow> row" where
  "run_row r = \<lparr>row_model = M_PayrollRun, row_id = run_id r, row_company = run_client_company_id r, row_run = None\<rparr>"

definition client_route ::
  "user \<Rightarrow> int \<Rightarrow> (payroll_run \<Rightarrow> web_db \<Rightarrow> web_db \<times> send_reply) \<Rightarrow> web_db \<Rightarrow> web_db \<times> send_reply" where
  "client_route u k body db =
     (if tenant_role_required [CLIENT_ADMIN] u \<noteq> Serve then (db, Turned_away (tenant_role_required [CLIENT_ADMIN] u))
      else case tenant_get_or_404 u M_PayrollRun k (map run_row (sd_runs (qd_send (wd_queue db)))) of
             Inl _ \<Rightarrow> (db, Not_found_404)
           | Inr _ \<Rightarrow> (case run_with_id k db of None \<Rightarrow> (db, Not_found_404) | Some run \<Rightarrow> body run db))"

definition do_send :: "int \<Rightarrow> bool \<Rightarrow> user \<Rightarrow> int \<Rightarrow> bool \<Rightarrow> send_form \<Rightarrow> web_db \<Rightarrow> web_db \<times> send_reply" where
  "do_send now desktop u k only_failed form =
     operator_route u k (send_request ''distribute'' now desktop u only_failed form)"

definition do_client_send :: "int \<Rightarrow> bool \<Rightarrow> user \<Rightarrow> int \<Rightarrow> bool \<Rightarrow> send_form \<Rightarrow> web_db \<Rightarrow> web_db \<times> send_reply" where
  "do_client_send now desktop u k only_failed form =
     client_route u k (send_request ''client-distribute'' now desktop u only_failed form)"

definition schedule :: "int \<Rightarrow> bool \<Rightarrow> user \<Rightarrow> int \<Rightarrow> send_form \<Rightarrow> web_db \<Rightarrow> web_db \<times> send_reply" where
  "schedule now desktop u k form =
     operator_route u k (\<lambda>run db.
       case send_problem desktop run form of
         Some problem \<Rightarrow> (db, problem)
       | None \<Rightarrow>
           (case sf_when form of
              None \<Rightarrow> (db, Bad_time)
            | Some t \<Rightarrow>
                if t \<le> now then (db, Bad_time)
                else if unconfirmed form then (db, Confirm_first)
                else (case enqueue_distribution now run (form_channel form) False
                             (Some (user_id u, text_or (user_role u) [])) (Some t) (wd_queue db) of
                        (q, batch, already) \<Rightarrow>
                          (db\<lparr>wd_queue := q\<rparr>, if already then Already_in_progress else Scheduled_at t (bt_total batch)))))"

definition reschedule :: "int \<Rightarrow> user \<Rightarrow> int \<Rightarrow> send_form \<Rightarrow> web_db \<Rightarrow> web_db \<times> send_reply" where
  "reschedule now u k form =
     operator_route u k (\<lambda>run db.
       case reschedule_distribution now (run_id run) (sf_when form) (qd_batches (wd_queue db)) of
         (batches, outcome) \<Rightarrow>
           (db\<lparr>wd_queue := (wd_queue db)\<lparr>qd_batches := batches\<rparr>\<rparr>,
            case outcome of Rescheduled b \<Rightarrow> Time_changed b | Not_future \<Rightarrow> Bad_time | No_scheduled_batch \<Rightarrow> No_schedule))"

definition cancel_body :: "int \<Rightarrow> payroll_run \<Rightarrow> web_db \<Rightarrow> web_db \<times> send_reply" where
  "cancel_body now run db =
     (case cancel_distribution now (run_id run) (wd_queue db) of (q, result) \<Rightarrow> (db\<lparr>wd_queue := q\<rparr>, Cancel_reply result))"

definition cancel :: "int \<Rightarrow> user \<Rightarrow> int \<Rightarrow> web_db \<Rightarrow> web_db \<times> send_reply" where
  "cancel now u k = operator_route u k (cancel_body now)"

definition client_cancel :: "int \<Rightarrow> user \<Rightarrow> int \<Rightarrow> web_db \<Rightarrow> web_db \<times> send_reply" where
  "client_cancel now u k = client_route u k (cancel_body now)"

datatype cancel_text = Still_sending | Nothing_to_cancel | Cancelled_parts bool nat

definition cancel_flash_message :: "cancel_result \<Rightarrow> cancel_text" where
  "cancel_flash_message r =
     (if cr_blocked r then Still_sending
      else if \<not> cr_batch r \<and> cr_retries r = 0 then Nothing_to_cancel
      else Cancelled_parts (cr_batch r) (cr_retries r))"

subsection \<open>Settling an unconfirmed payslip; the preferred channel\<close>

datatype settle_reply = Settle_turned_away guard_outcome | Settle_404 | Settle_400 | Settle_conflict | Settle_done

definition settle_outcome_of :: "string option \<Rightarrow> settle_outcome option" where
  "settle_outcome_of s = (if s = Some ''sent'' then Some Settle_sent else if s = Some ''not_sent'' then Some Settle_not_sent else None)"

definition settle_delivery :: "int \<Rightarrow> user \<Rightarrow> int \<Rightarrow> int \<Rightarrow> string option \<Rightarrow> web_db \<Rightarrow> web_db \<times> settle_reply" where
  "settle_delivery now u k delivery_id outcome db =
     (if role_required PAYROLL_ROLES u \<noteq> Serve then (db, Settle_turned_away (role_required PAYROLL_ROLES u))
      else case run_with_id k db of
        None \<Rightarrow> (db, Settle_404)
      | Some run \<Rightarrow>
          (case first_row (\<lambda>d. pd_id d = delivery_id) (sd_deliveries (qd_send (wd_queue db))) of
             None \<Rightarrow> (db, Settle_404)
           | Some d \<Rightarrow>
               if pd_run d \<noteq> run_id run then (db, Settle_404)
               else case settle_outcome_of outcome of
                 None \<Rightarrow> (db, Settle_400)
               | Some what \<Rightarrow>
                   (case settle_unknown now delivery_id what (sd_deliveries (qd_send (wd_queue db))) of
                      (rows, won) \<Rightarrow>
                        if \<not> won then (db, Settle_conflict)
                        else (db\<lparr>wd_queue := (wd_queue db)\<lparr>qd_send := (qd_send (wd_queue db))\<lparr>sd_deliveries := rows\<rparr>\<rparr>\<rparr>,
                              Settle_done))))"

datatype prefer_reply = Prefer_turned_away guard_outcome | Prefer_404 | Prefer_unknown | Prefer_unlinked | Preferred

definition set_preferred_channel :: "user \<Rightarrow> int \<Rightarrow> string option \<Rightarrow> web_db \<Rightarrow> web_db \<times> prefer_reply" where
  "set_preferred_channel u item_key form_value db =
     (if role_required PAYROLL_ROLES u \<noteq> Serve then (db, Prefer_turned_away (role_required PAYROLL_ROLES u))
      else case first_row (\<lambda>i. item_id i = item_key) (sd_items (qd_send (wd_queue db))) of
        None \<Rightarrow> (db, Prefer_404)
      | Some item \<Rightarrow>
          (let channel = (if form_value = Some [] then None else form_value)
           in if (case channel of None \<Rightarrow> False | Some c \<Rightarrow> c \<notin> set DELIVERY_CHANNELS) then (db, Prefer_unknown)
              else case item_employee item of
                None \<Rightarrow> (db, Prefer_unlinked)
              | Some e \<Rightarrow>
                  (db\<lparr>wd_queue := (wd_queue db)\<lparr>qd_send := (qd_send (wd_queue db))\<lparr>sd_employees :=
                     update_row emp_id e (\<lambda>x. x\<lparr>emp_preferred_channel := channel\<rparr>) (sd_employees (qd_send (wd_queue db)))\<rparr>\<rparr>\<rparr>,
                   Preferred)))"

end
