(* ===== verification/SendGuards.thy ===== *)
theory SendGuards
  imports Lifecycle SendRoutes
begin

text \<open>
  What the send routes guarantee: nothing is queued without approval, authority and
  confirmation, a repeated request queues nothing a second time; and where they fail: a send
  requested while a scheduled batch is unfinished.
\<close>

subsection \<open>Requests as they reach the server\<close>

datatype send_action = Send | Resend_failed | Client_send | Client_resend | Schedule | Reschedule | Cancel | Client_cancel

record send_req =
  rq_now :: int
  rq_user :: user
  rq_run :: int
  rq_form :: send_form
  rq_action :: send_action

definition serve :: "bool \<Rightarrow> send_req \<Rightarrow> web_db \<Rightarrow> web_db \<times> send_reply" where
  "serve desktop r =
     (case rq_action r of
        Send \<Rightarrow> do_send (rq_now r) desktop (rq_user r) (rq_run r) False (rq_form r)
      | Resend_failed \<Rightarrow> do_send (rq_now r) desktop (rq_user r) (rq_run r) True (rq_form r)
      | Client_send \<Rightarrow> do_client_send (rq_now r) desktop (rq_user r) (rq_run r) False (rq_form r)
      | Client_resend \<Rightarrow> do_client_send (rq_now r) desktop (rq_user r) (rq_run r) True (rq_form r)
      | Schedule \<Rightarrow> schedule (rq_now r) desktop (rq_user r) (rq_run r) (rq_form r)
      | Reschedule \<Rightarrow> reschedule (rq_now r) (rq_user r) (rq_run r) (rq_form r)
      | Cancel \<Rightarrow> cancel (rq_now r) (rq_user r) (rq_run r)
      | Client_cancel \<Rightarrow> client_cancel (rq_now r) (rq_user r) (rq_run r))"

definition req_key :: "send_req \<Rightarrow> string option" where
  "req_key r =
     (case rq_action r of
        Send \<Rightarrow> send_key ''distribute'' (rq_run r) False (rq_form r)
      | Resend_failed \<Rightarrow> send_key ''distribute'' (rq_run r) True (rq_form r)
      | Client_send \<Rightarrow> send_key ''client-distribute'' (rq_run r) False (rq_form r)
      | Client_resend \<Rightarrow> send_key ''client-distribute'' (rq_run r) True (rq_form r)
      | _ \<Rightarrow> None)"

abbreviation batches_of :: "web_db \<Rightarrow> distribution_batch list" where
  "batches_of db \<equiv> qd_batches (wd_queue db)"

subsection \<open>What a request may queue\<close>

lemma enqueue_batches:
  assumes "enqueue_distribution now run channel only_failed actor sched q = (q', b, already)"
  shows "qd_send q' = qd_send q" "qd_batches q' = (if already then qd_batches q else qd_batches q @ [b])"
    "\<not> already \<Longrightarrow> bt_run b = run_id run \<and> bt_channel b = channel \<and> bt_only_failed b = only_failed"
    "already \<Longrightarrow> b \<in> set (qd_batches q)"
    "sched = None \<Longrightarrow> \<not> already \<Longrightarrow> bt_scheduled_for b = None"
  using assms by (auto simp: enqueue_distribution_def Let_def in_flight_batch_def split: option.splits dest: first_row_SomeD)

text \<open>
  The outcome of a send request: nothing changes, or the checks have passed and one batch of the
  run is queued.
\<close>

definition may_send :: "bool \<Rightarrow> payroll_run \<Rightarrow> send_form \<Rightarrow> bool" where
  "may_send desktop run form \<longleftrightarrow>
     run_status run \<in> set SENDABLE_STATUSES \<and> form_channel form \<in> set VALID_SEND_CHANNELS \<and>
     (desktop \<longrightarrow> form_channel form \<noteq> CHANNEL_SMS) \<and>
     (form_channel form \<in> {CHANNEL_SMS, CHANNEL_AUTO} \<longrightarrow> sf_confirmed form = Some ''1'')"

lemma may_sendI: "send_problem desktop run form = None \<Longrightarrow> \<not> unconfirmed form \<Longrightarrow> may_send desktop run form"
  by (auto simp: send_problem_def may_send_def unconfirmed_def needs_confirm_def CONFIRMED_CHANNELS_def sms_refused_def
      CHANNEL_SMS_def split: if_splits)

lemma enqueue_summary_effect:
  assumes "enqueue_summary now run channel only_failed u sched q = (q', result)"
  shows "result \<noteq> None" "qd_send q' = qd_send q"
    "qd_batches q' = qd_batches q \<or> (\<exists>b. qd_batches q' = qd_batches q @ [b] \<and> bt_run b = run_id run \<and> bt_channel b = channel)"
proof -
  obtain q2 b already where e: "enqueue_distribution now run channel only_failed
      (Some (user_id u, text_or (user_role u) [])) sched q = (q2, b, already)" by (metis surj_pair)
  note effect = enqueue_batches [OF e]
  have "q' = q2" "result \<noteq> None" using assms e by (auto simp: enqueue_summary_def)
  with effect show "result \<noteq> None" "qd_send q' = qd_send q"
    "qd_batches q' = qd_batches q \<or> (\<exists>b. qd_batches q' = qd_batches q @ [b] \<and> bt_run b = run_id run \<and> bt_channel b = channel)"
    by (cases already; auto)+
qed

lemma replay_effect:
  assumes "replay_or_run key (enqueue_summary now run channel only_failed u None) db = (db', result)"
  shows "batches_of db' = batches_of db \<or>
       (\<exists>b. batches_of db' = batches_of db @ [b] \<and> bt_run b = run_id run \<and> bt_channel b = channel)"
proof -
  obtain q s where e: "enqueue_summary now run channel only_failed u None (wd_queue db) = (q, s)" by fastforce
  have "wd_queue db' = q \<or> wd_queue db' = wd_queue db"
    using assms by (auto simp: replay_or_run_def e split: option.splits)
  then show ?thesis using enqueue_summary_effect(3) [OF e] by auto
qed

lemma send_request_effect:
  assumes "send_request portal now desktop u only_failed form run db = (db', reply)"
  shows "batches_of db' = batches_of db \<or>
    (\<exists>b. batches_of db' = batches_of db @ [b] \<and> bt_run b = run_id run \<and> bt_channel b = form_channel form \<and> may_send desktop run form)"
proof (cases "send_problem desktop run form = None \<and> \<not> unconfirmed form")
  case False
  then show ?thesis using assms by (auto simp: send_request_def split: option.splits)
next
  case True
  obtain db2 result where r: "replay_or_run (send_key portal (run_id run) only_failed form)
      (enqueue_summary now run (form_channel form) only_failed u None) db = (db2, result)" by fastforce
  have "db' = db2" using assms True r by (auto simp: send_request_def split: option.splits send_summary.splits prod.splits)
  then show ?thesis using replay_effect [OF r] may_sendI True by blast
qed

lemma operator_route_effect:
  assumes "operator_route u k body db = (db', reply)"
  obtains "db' = db"
  | run where "role_required PAYROLL_ROLES u = Serve" "run_with_id k db = Some run" "body run db = (db', reply)"
  using assms by (auto simp: operator_route_def split: if_splits option.splits)

lemma serve_operator: "role_required roles u = Serve \<Longrightarrow> user_company u = None"
  by (auto simp: role_required_def split: if_splits)

lemma run_row_found:
  "first_row (\<lambda>r. row_id r = k) (rows_of M_PayrollRun (map run_row runs)) = map_option run_row (first_row (\<lambda>r. run_id r = k) runs)"
  by (induction runs) (auto simp: rows_of_def run_row_def)

lemma tenant_owns:
  assumes "active_tenant_id u \<noteq> None" "tenant_get_or_404 u M_PayrollRun k (map run_row runs) = Inr row"
  obtains run where "first_row (\<lambda>r. run_id r = k) runs = Some run" "run_client_company_id run = user_company u" "user_company u \<noteq> None"
proof -
  from assms(1) have t: "active_tenant_id u = user_company u" "user_company u \<noteq> None"
    by (auto simp: active_tenant_id_def split: if_splits)
  obtain run where run: "first_row (\<lambda>r. run_id r = k) runs = Some run"
    using assms(2) by (auto simp: tenant_get_or_404_def run_row_found split: option.splits)
  have "run_client_company_id run = user_company u"
    using assms(2) t by (auto simp: tenant_get_or_404_def run_row_found run owns_object_def run_row_def TENANT_OWNED_MODELS_def
        split: option.splits if_splits)
  with run t show thesis using that by blast
qed

lemma client_is_tenant: "tenant_role_required roles u = Serve \<Longrightarrow> active_tenant_id u \<noteq> None"
  by (auto simp: tenant_role_required_def Let_def split: if_splits)

lemma client_route_effect:
  assumes "client_route u k body db = (db', reply)"
  obtains "db' = db"
  | run where "tenant_role_required [CLIENT_ADMIN] u = Serve" "run_client_company_id run = user_company u" "user_company u \<noteq> None"
      "run_with_id k db = Some run" "body run db = (db', reply)"
proof (cases "db' = db")
  case False
  then have guard: "tenant_role_required [CLIENT_ADMIN] u = Serve" using assms by (auto simp: client_route_def split: if_splits)
  with False assms obtain row where row: "tenant_get_or_404 u M_PayrollRun k (map run_row (sd_runs (qd_send (wd_queue db)))) = Inr row"
    by (auto simp: client_route_def split: sum.splits)
  obtain run where run: "run_with_id k db = Some run" "run_client_company_id run = user_company u" "user_company u \<noteq> None"
    using tenant_owns [OF client_is_tenant [OF guard] row] by (auto simp: run_with_id_def)
  moreover have "body run db = (db', reply)" using assms guard row run(1) by (simp add: client_route_def)
  ultimately show thesis using that(2) guard by blast
qed (rule that(1))

lemma found_run: "run_with_id k db = Some run \<Longrightarrow> run_id run = k"
  by (auto simp: run_with_id_def dest: first_row_SomeD)

lemma schedule_effect:
  assumes "schedule now desktop u k form db = (db', reply)" "batches_of db' \<noteq> batches_of db"
  obtains run b where "role_required PAYROLL_ROLES u = Serve" "run_with_id k db = Some run"
    "batches_of db' = batches_of db @ [b]" "bt_run b = run_id run" "bt_channel b = form_channel form" "may_send desktop run form"
  using assms(1)[unfolded schedule_def]
proof (cases rule: operator_route_effect)
  case (2 run)
  obtain t where go: "send_problem desktop run form = None" "\<not> unconfirmed form" "sf_when form = Some t" "\<not> t \<le> now"
    using 2(3) assms(2) by (auto split: option.splits if_splits)
  obtain q b already where e: "enqueue_distribution now run (form_channel form) False
      (Some (user_id u, text_or (user_role u) [])) (Some t) (wd_queue db) = (q, b, already)" by (metis surj_pair)
  have "wd_queue db' = q" using 2(3) go e by auto
  with enqueue_batches [OF e] assms(2) have "batches_of db' = batches_of db @ [b]" "bt_run b = run_id run" "bt_channel b = form_channel form"
    by (auto split: if_splits)
  with 2 may_sendI go(1,2) that show thesis by blast
qed (use assms(2) in simp)

lemma reschedule_ids: "reschedule now u k form db = (db', reply) \<Longrightarrow> map bt_id (batches_of db') = map bt_id (batches_of db)"
  by (auto simp: reschedule_def operator_route_def reschedule_distribution_def keys_update_row split: if_splits option.splits)

lemma cancel_ids: "cancel_body now run db = (db', reply) \<Longrightarrow> map bt_id (batches_of db') = map bt_id (batches_of db)"
  by (auto simp: cancel_body_def cancel_distribution_def Let_def keys_update_row split: if_splits option.splits)

lemma cancel_route_ids:
  "cancel now u k db = (db', reply) \<Longrightarrow> map bt_id (batches_of db') = map bt_id (batches_of db)"
  "client_cancel now u k db = (db', reply) \<Longrightarrow> map bt_id (batches_of db') = map bt_id (batches_of db)"
  unfolding cancel_def client_cancel_def
  by (erule operator_route_effect; simp add: cancel_ids) (erule client_route_effect; simp add: cancel_ids)

text \<open>The requests that queue: the others keep the batches' ids.\<close>

lemma serve_cases:
  assumes "serve desktop r db = (db', reply)"
  obtains (same) "map bt_id (batches_of db') = map bt_id (batches_of db)" "req_key r = None" "wd_keys db' = wd_keys db"
  | (client) only_failed where "rq_action r = (if only_failed then Client_resend else Client_send)"
      "do_client_send (rq_now r) desktop (rq_user r) (rq_run r) only_failed (rq_form r) db = (db', reply)"
      "req_key r = send_key ''client-distribute'' (rq_run r) only_failed (rq_form r)"
  | (operator) only_failed where "rq_action r = (if only_failed then Resend_failed else Send)"
      "do_send (rq_now r) desktop (rq_user r) (rq_run r) only_failed (rq_form r) db = (db', reply)"
      "req_key r = send_key ''distribute'' (rq_run r) only_failed (rq_form r)"
  | (schedule) "rq_action r = Schedule" "schedule (rq_now r) desktop (rq_user r) (rq_run r) (rq_form r) db = (db', reply)"
      "req_key r = None"
proof (cases "rq_action r")
  case Send then show ?thesis using assms operator [of False] by (simp add: serve_def req_key_def)
next
  case Resend_failed then show ?thesis using assms operator [of True] by (simp add: serve_def req_key_def)
next
  case Client_send then show ?thesis using assms client [of False] by (simp add: serve_def req_key_def)
next
  case Client_resend then show ?thesis using assms client [of True] by (simp add: serve_def req_key_def)
next
  case Schedule then show ?thesis using assms schedule by (simp add: serve_def req_key_def)
next
  case Reschedule
  then have e: "reschedule (rq_now r) (rq_user r) (rq_run r) (rq_form r) db = (db', reply)" using assms by (simp add: serve_def)
  then have "wd_keys db' = wd_keys db" by (auto simp: reschedule_def operator_route_def split: if_splits option.splits prod.splits)
  then show ?thesis using same reschedule_ids [OF e] Reschedule by (simp add: req_key_def)
next
  case Cancel
  then have e: "cancel (rq_now r) (rq_user r) (rq_run r) db = (db', reply)" using assms by (simp add: serve_def)
  then have "wd_keys db' = wd_keys db"
    by (auto simp: cancel_def cancel_body_def operator_route_def split: if_splits option.splits prod.splits)
  then show ?thesis using same cancel_route_ids(1) [OF e] Cancel by (simp add: req_key_def)
next
  case Client_cancel
  then have e: "client_cancel (rq_now r) (rq_user r) (rq_run r) db = (db', reply)" using assms by (simp add: serve_def)
  then have "wd_keys db' = wd_keys db"
    by (auto simp: client_cancel_def cancel_body_def client_route_def split: if_splits option.splits prod.splits sum.splits)
  then show ?thesis using same cancel_route_ids(2) [OF e] Client_cancel by (simp add: req_key_def)
qed

lemma serve_queues:
  assumes "serve desktop r db = (db', reply)" "b \<in> set (batches_of db')" "bt_id b \<notin> bt_id ` set (batches_of db)"
  shows "\<exists>run. run_with_id (rq_run r) db = Some run \<and> bt_run b = rq_run r \<and> bt_channel b = form_channel (rq_form r) \<and>
    may_send desktop run (rq_form r) \<and>
    (if rq_action r \<in> {Client_send, Client_resend}
     then tenant_role_required [CLIENT_ADMIN] (rq_user r) = Serve \<and> run_client_company_id run = user_company (rq_user r) \<and>
       user_company (rq_user r) \<noteq> None
     else rq_action r \<in> {Send, Resend_failed, Schedule} \<and> role_required PAYROLL_ROLES (rq_user r) = Serve \<and>
       user_company (rq_user r) = None)"
proof -
  have changed: "batches_of db' \<noteq> batches_of db" using assms(2,3) by auto
  have new: "bt_run b = run_id run \<and> bt_channel b = form_channel (rq_form r) \<and> may_send desktop run (rq_form r)"
    if "batches_of db' = batches_of db \<or> (\<exists>b. batches_of db' = batches_of db @ [b] \<and> bt_run b = run_id run \<and>
      bt_channel b = form_channel (rq_form r) \<and> may_send desktop run (rq_form r))" for run
    using that assms(2,3) changed by auto
  from assms(1) show ?thesis
  proof (cases rule: serve_cases)
    case same
    then have "bt_id ` set (batches_of db') = bt_id ` set (batches_of db)" by (metis set_map)
    then show ?thesis using assms(2,3) by blast
  next
    case (client only_failed)
    from client(2) show ?thesis unfolding do_client_send_def
    proof (cases rule: client_route_effect)
      case (2 run)
      from new [OF send_request_effect [OF 2(5)]] 2 found_run [OF 2(4)] client(1) show ?thesis by auto
    qed (use changed in auto)
  next
    case (operator only_failed)
    from operator(2) show ?thesis unfolding do_send_def
    proof (cases rule: operator_route_effect)
      case (2 run)
      from new [OF send_request_effect [OF 2(3)]] 2 found_run [OF 2(2)] operator(1) serve_operator [OF 2(1)] show ?thesis by auto
    qed (use changed in auto)
  next
    case schedule
    from schedule(2) changed obtain run where "role_required PAYROLL_ROLES (rq_user r) = Serve" "run_with_id (rq_run r) db = Some run"
      "bt_run b = run_id run" "bt_channel b = form_channel (rq_form r)" "may_send desktop run (rq_form r)"
      by (rule schedule_effect) (use assms(2,3) in auto)
    then show ?thesis using schedule(1) found_run serve_operator by auto
  qed
qed

text \<open>The bulk form enqueues run by run.\<close>

lemma bulk_loop_queues:
  assumes "bulk_loop can_distribute_run (enqueue_for now u CHANNEL_AUTO False None) role ks db = (db', finished, skipped)"
    and "b \<in> set (qd_batches (lf_queue db'))" "b \<notin> set (qd_batches (lf_queue db))"
  shows "\<exists>run. find_run (bt_run b) db = Some run \<and> bt_run b \<in> set ks \<and> can_distribute_run role run \<and>
    bt_channel b = CHANNEL_AUTO \<and> \<not> bt_only_failed b \<and> bt_scheduled_for b = None"
  using assms
proof (induction ks arbitrary: db finished skipped)
  case (Cons k ks)
  show ?case
  proof (cases "\<exists>run. find_run k db = Some run \<and> can_distribute_run role run")
    case False
    then obtain f s where "bulk_loop can_distribute_run (enqueue_for now u CHANNEL_AUTO False None) role ks db = (db', f, s)"
      using Cons.prems(1) by (auto simp: Let_def split: option.splits prod.splits if_splits)
    from Cons.IH [OF this Cons.prems(2,3)] show ?thesis by auto
  next
    case True
    then obtain run where run: "find_run k db = Some run" "can_distribute_run role run" by blast
    obtain q x again where e: "enqueue_distribution now run CHANNEL_AUTO False (Some (user_id u, text_or (user_role u) [])) None (lf_queue db) = (q, x, again)"
      by (metis surj_pair)
    have step: "enqueue_for now u CHANNEL_AUTO False None run db = (db\<lparr>lf_queue := q\<rparr>, x, again)"
      by (simp add: enqueue_for_def e)
    have k: "run_id run = k" using run(1) by (auto simp: find_run_def dest: first_row_SomeD)
    obtain f s where rest: "bulk_loop can_distribute_run (enqueue_for now u CHANNEL_AUTO False None) role ks (db\<lparr>lf_queue := q\<rparr>) = (db', f, s)"
      using Cons.prems(1) run by (auto simp: step Let_def split: prod.splits)
    have same: "find_run j (db\<lparr>lf_queue := q\<rparr>) = find_run j db" for j
      using enqueue_batches(1) [OF e] by (simp add: find_run_def runs_in_def)
    show ?thesis
    proof (cases "b \<in> set (qd_batches q)")
      case False
      then show ?thesis using Cons.IH [OF rest Cons.prems(2)] same by auto
    next
      case queued: True
      then have "\<not> again" "b = x" using enqueue_batches(2) [OF e] Cons.prems(3) by (auto split: if_splits)
      then show ?thesis using enqueue_batches(3,5) [OF e] run k by auto
    qed
  qed
qed simp

text \<open>
  C36: nothing is queued without approval, authority and confirmation.  Whatever request for one
  run adds a batch (send, resend and schedule, by the operator or the client), the batch belongs
  to the requested run and asked channel, the run is approved or processed, SMS and automatic
  sends have been confirmed, a desktop install queues no SMS, and the requester is an operator
  with a payroll role or the company's own administrator.  Every batch the bulk form adds is an
  unscheduled automatic send to all workers of a selected run that the user's role may distribute,
  and so an approved or processed one, after an operator with a payroll role has confirmed.
\<close>
theorem queued_with_authority:
  "(serve desktop r db = (db', reply) \<and> b \<in> set (batches_of db') \<and> bt_id b \<notin> bt_id ` set (batches_of db) \<longrightarrow>
     (\<exists>run. run_with_id (rq_run r) db = Some run \<and> bt_run b = rq_run r \<and> bt_channel b = form_channel (rq_form r) \<and>
       may_send desktop run (rq_form r) \<and>
       (if rq_action r \<in> {Client_send, Client_resend}
        then tenant_role_required [CLIENT_ADMIN] (rq_user r) = Serve \<and> run_client_company_id run = user_company (rq_user r) \<and>
          user_company (rq_user r) \<noteq> None
        else rq_action r \<in> {Send, Resend_failed, Schedule} \<and> role_required PAYROLL_ROLES (rq_user r) = Serve \<and>
          user_company (rq_user r) = None))) \<and>
   (bulk_distribute now u confirmed ids life = (life', bulk_reply) \<and> c \<in> set (qd_batches (lf_queue life')) \<and>
       bt_id c \<notin> bt_id ` set (qd_batches (lf_queue life)) \<longrightarrow>
     (\<exists>run. find_run (bt_run c) life = Some run \<and> bt_run c \<in> set (selected_ids ids) \<and> can_distribute_run (user_role u) run \<and>
       run_status run \<in> set SENDABLE_STATUSES \<and> bt_channel c = CHANNEL_AUTO \<and> \<not> bt_only_failed c \<and> bt_scheduled_for c = None \<and>
       confirmed \<and> role_required PAYROLL_ROLES u = Serve \<and> user_company u = None))"
proof (intro conjI impI)
  assume "serve desktop r db = (db', reply) \<and> b \<in> set (batches_of db') \<and> bt_id b \<notin> bt_id ` set (batches_of db)"
  then show "\<exists>run. run_with_id (rq_run r) db = Some run \<and> bt_run b = rq_run r \<and> bt_channel b = form_channel (rq_form r) \<and>
       may_send desktop run (rq_form r) \<and>
       (if rq_action r \<in> {Client_send, Client_resend}
        then tenant_role_required [CLIENT_ADMIN] (rq_user r) = Serve \<and> run_client_company_id run = user_company (rq_user r) \<and>
          user_company (rq_user r) \<noteq> None
        else rq_action r \<in> {Send, Resend_failed, Schedule} \<and> role_required PAYROLL_ROLES (rq_user r) = Serve \<and>
          user_company (rq_user r) = None)"
    by (elim conjE) (rule serve_queues)
next
  assume bulk: "bulk_distribute now u confirmed ids life = (life', bulk_reply) \<and> c \<in> set (qd_batches (lf_queue life')) \<and>
    bt_id c \<notin> bt_id ` set (qd_batches (lf_queue life))"
  then have new: "c \<in> set (qd_batches (lf_queue life'))" "c \<notin> set (qd_batches (lf_queue life))" by auto
  have role: "role_required PAYROLL_ROLES u = Serve" "ids = [] \<or> confirmed"
    using bulk new by (auto simp: bulk_distribute_def needs_confirm_def CONFIRMED_CHANNELS_def split: if_splits)
  obtain finished skipped where "bulk_loop can_distribute_run (enqueue_for now u CHANNEL_AUTO False None) (user_role u) (selected_ids ids) life
      = (life', finished, skipped)"
    using bulk new by (auto simp: bulk_distribute_def bulk_route_def bulk_apply_def split: if_splits prod.splits)
  from bulk_loop_queues [OF this new] obtain run where run: "find_run (bt_run c) life = Some run" "bt_run c \<in> set (selected_ids ids)"
    "can_distribute_run (user_role u) run" "bt_channel c = CHANNEL_AUTO" "\<not> bt_only_failed c" "bt_scheduled_for c = None" by blast
  have "ids \<noteq> []" using run(2) by (auto simp: selected_ids_def List.map_filter_def fromkeys_def)
  then show "\<exists>run. find_run (bt_run c) life = Some run \<and> bt_run c \<in> set (selected_ids ids) \<and> can_distribute_run (user_role u) run \<and>
       run_status run \<in> set SENDABLE_STATUSES \<and> bt_channel c = CHANNEL_AUTO \<and> \<not> bt_only_failed c \<and> bt_scheduled_for c = None \<and>
       confirmed \<and> role_required PAYROLL_ROLES u = Serve \<and> user_company u = None"
    using run role serve_operator [OF role(1)] by (auto simp: can_distribute_run_def)
qed

subsection \<open>A repeated request\<close>

definition answered :: "string \<Rightarrow> web_db \<Rightarrow> send_summary option option" where
  "answered k db = map_option ik_response (first_row (\<lambda>r. ik_key r = k) (wd_keys db))"

lemma answered_None: "answered k db = None \<longleftrightarrow> first_row (\<lambda>r. ik_key r = k) (wd_keys db) = None"
  by (simp add: answered_def)

text \<open>What the replay does with a request that carries a key: answer it again, or run and record it.\<close>

lemma replay_known:
  assumes "answered k db = Some stored"
  shows "replay_or_run (Some k) f db = (db, Some (case stored of Some s \<Rightarrow> (s, True) | None \<Rightarrow> (Replay_in_progress, True)))"
  using assms by (auto simp: answered_def replay_or_run_def split: option.splits)

lemma replay_new:
  assumes "answered k db = None" "enqueue_summary now run channel only_failed u None (wd_queue db) = (q, result)"
  shows "\<exists>s. result = Some s \<and> replay_or_run (Some k) (enqueue_summary now run channel only_failed u None) db =
    (db\<lparr>wd_queue := q, wd_keys := wd_keys db @ [\<lparr>ik_key = k, ik_response = json_dumps s\<rparr>]\<rparr>, map_option (\<lambda>_. (s, False)) (json_dumps s))"
  using assms enqueue_summary_effect(1) [OF assms(2)] by (auto simp: answered_None replay_or_run_def)

lemma answered_record:
  "answered j (db\<lparr>wd_queue := q, wd_keys := wd_keys db @ [\<lparr>ik_key = k, ik_response = w\<rparr>]\<rparr>) =
     (case answered j db of Some stored \<Rightarrow> Some stored | None \<Rightarrow> if j = k then Some w else None)"
  by (auto simp: answered_def first_row_append split: option.splits)

lemma replay_keeps_answers:
  assumes "replay_or_run key (enqueue_summary now run channel only_failed u None) db = (db', result)" "answered j db = Some stored"
  shows "answered j db' = Some stored"
proof (cases key)
  case None
  then show ?thesis using assms by (auto simp: replay_or_run_def answered_def split: prod.splits)
next
  case (Some k)
  obtain q s where e: "enqueue_summary now run channel only_failed u None (wd_queue db) = (q, s)" by fastforce
  show ?thesis
  proof (cases "answered k db")
    case None
    then show ?thesis using replay_new [OF None e] assms Some by (auto simp: answered_record)
  next
    case (Some w)
    then show ?thesis using replay_known assms \<open>key = Some k\<close> by simp
  qed
qed

datatype web_event = Request send_req | Background queue_db

fun web_step :: "bool \<Rightarrow> web_event \<Rightarrow> web_db \<Rightarrow> web_db" where
  "web_step desktop (Request r) db = fst (serve desktop r db)"
| "web_step desktop (Background q) db = db\<lparr>wd_queue := q\<rparr>"

text \<open>How often requests with a key add a batch along a history.\<close>

fun times_queued :: "bool \<Rightarrow> string \<Rightarrow> web_event list \<Rightarrow> web_db \<Rightarrow> nat" where
  "times_queued desktop k [] db = 0"
| "times_queued desktop k (e # es) db =
     (case e of
        Request r \<Rightarrow>
          if req_key r = Some k \<and> length (batches_of (web_step desktop e db)) > length (batches_of db) then 1 else 0
      | Background _ \<Rightarrow> 0) + times_queued desktop k es (web_step desktop e db)"

lemma send_request_db:
  assumes "send_request portal now desktop u only_failed form run db = (db', reply)"
  obtains "db' = db"
  | result where "replay_or_run (send_key portal (run_id run) only_failed form)
      (enqueue_summary now run (form_channel form) only_failed u None) db = (db', result)"
proof (cases "send_problem desktop run form = None \<and> \<not> unconfirmed form")
  case False
  then show ?thesis using that(1) assms by (auto simp: send_request_def split: option.splits)
next
  case True
  then have "fst (send_request portal now desktop u only_failed form run db) =
      fst (replay_or_run (send_key portal (run_id run) only_failed form)
        (enqueue_summary now run (form_channel form) only_failed u None) db)"
    by (auto simp: send_request_def split: option.splits send_summary.splits prod.splits)
  then show ?thesis using that(2) assms by (metis fst_conv prod.collapse)
qed

lemma send_request_keeps:
  assumes "send_request portal now desktop u only_failed form run db = (db', reply)" "answered j db = Some stored"
  shows "answered j db' = Some stored"
  using assms(1) by (cases rule: send_request_db) (use assms(2) replay_keeps_answers in auto)

lemma send_request_once:
  assumes "send_request portal now desktop u only_failed form run db = (db', reply)"
    "send_key portal (run_id run) only_failed form = Some k"
  shows "answered k db \<noteq> None \<Longrightarrow> db' = db" and "db' \<noteq> db \<Longrightarrow> answered k db' \<noteq> None"
proof -
  have "(answered k db \<noteq> None \<longrightarrow> db' = db) \<and> (db' \<noteq> db \<longrightarrow> answered k db' \<noteq> None)"
    using assms(1)
  proof (cases rule: send_request_db)
    case (2 result)
    obtain q s where e: "enqueue_summary now run (form_channel form) only_failed u None (wd_queue db) = (q, s)" by fastforce
    show ?thesis
    proof (cases "answered k db")
      case None
      with replay_new [OF None e] 2 show ?thesis by (auto simp: assms(2) answered_record)
    next
      case (Some stored)
      with replay_known [OF Some] 2 show ?thesis by (simp add: assms(2))
    qed
  qed auto
  then show "answered k db \<noteq> None \<Longrightarrow> db' = db" "db' \<noteq> db \<Longrightarrow> answered k db' \<noteq> None" by blast+
qed

lemma answered_queue [simp]: "answered k (db\<lparr>wd_queue := q\<rparr>) = answered k db"
  by (simp add: answered_def)

lemma schedule_keys: "schedule now desktop u k form db = (db', reply) \<Longrightarrow> wd_keys db' = wd_keys db"
  by (auto simp: schedule_def operator_route_def split: if_splits option.splits prod.splits)

lemma serve_keeps:
  assumes "serve desktop r db = (db', reply)" "answered j db = Some stored"
  shows "answered j db' = Some stored"
  using assms(1)
proof (cases rule: serve_cases)
  case same
  then show ?thesis using assms(2) by (simp add: answered_def)
next
  case (client only_failed)
  from client(2) show ?thesis unfolding do_client_send_def
    by (cases rule: client_route_effect) (use assms(2) send_request_keeps in auto)
next
  case (operator only_failed)
  from operator(2) show ?thesis unfolding do_send_def
    by (cases rule: operator_route_effect) (use assms(2) send_request_keeps in auto)
next
  case schedule
  then show ?thesis using assms(2) schedule_keys [OF schedule(2)] by (simp add: answered_def)
qed

lemma serve_once:
  assumes "serve desktop r db = (db', reply)" "req_key r = Some k"
  shows "answered k db \<noteq> None \<Longrightarrow> db' = db" and "db' \<noteq> db \<Longrightarrow> answered k db' \<noteq> None"
proof -
  have "(answered k db \<noteq> None \<longrightarrow> db' = db) \<and> (db' \<noteq> db \<longrightarrow> answered k db' \<noteq> None)"
    using assms(1)
  proof (cases rule: serve_cases)
    case (client only_failed)
    from client(2) show ?thesis unfolding do_client_send_def
    proof (cases rule: client_route_effect)
      case (2 run)
      then show ?thesis using send_request_once [OF 2(5), of k] found_run [OF 2(4)] client(3) assms(2) by auto
    qed simp
  next
    case (operator only_failed)
    from operator(2) show ?thesis unfolding do_send_def
    proof (cases rule: operator_route_effect)
      case (2 run)
      then show ?thesis using send_request_once [OF 2(3), of k] found_run [OF 2(2)] operator(3) assms(2) by auto
    qed simp
  qed (use assms(2) in auto)
  then show "answered k db \<noteq> None \<Longrightarrow> db' = db" "db' \<noteq> db \<Longrightarrow> answered k db' \<noteq> None" by blast+
qed

lemma web_step_keeps: "answered k db = Some stored \<Longrightarrow> answered k (web_step desktop e db) = Some stored"
  using serve_keeps [OF surjective_pairing] by (cases e) auto

lemma times_queued_answered: "answered k db \<noteq> None \<Longrightarrow> times_queued desktop k es db = 0"
proof (induction es arbitrary: db)
  case (Cons e es)
  then obtain stored where stored: "answered k db = Some stored" by auto
  from Cons.IH web_step_keeps [OF this] have "times_queued desktop k es (web_step desktop e db) = 0" by simp
  moreover have "web_step desktop e db = db" if "e = Request r" "req_key r = Some k" for r
    using serve_once(1) [of desktop r db _ _ k] stored that by (metis option.distinct(1) prod.collapse web_step.simps(1))
  ultimately show ?case by (auto split: web_event.splits)
qed simp

text \<open>
  C37: a repeated request queues once.  Along any history of requests, of any users, actions and
  times, and of any work of the queue in between, the requests that carry one nonce key add a
  batch at most once; and a key that has been used stays answered, so repeating its request
  changes nothing at all.
\<close>
theorem nonce_queues_once:
  "times_queued desktop k es db \<le> 1 \<and>
   (answered k db \<noteq> None \<longrightarrow> (\<forall>r. req_key r = Some k \<longrightarrow> fst (serve desktop r (foldl (\<lambda>db e. web_step desktop e db) db es)) =
      foldl (\<lambda>db e. web_step desktop e db) db es))"
proof
  show "times_queued desktop k es db \<le> 1"
  proof (induction es arbitrary: db)
    case (Cons e es)
    have "answered k (web_step desktop e db) \<noteq> None"
      if "e = Request r" "req_key r = Some k" "length (batches_of (web_step desktop e db)) > length (batches_of db)" for r
      using serve_once(2) [of desktop r db _ _ k] that by (metis less_irrefl prod.collapse web_step.simps(1))
    then show ?case using Cons.IH times_queued_answered by (fastforce split: web_event.splits)
  qed simp
  have "answered k (foldl (\<lambda>db e. web_step desktop e db) db es) \<noteq> None" if "answered k db \<noteq> None"
    using that
  proof (induction es arbitrary: db)
    case (Cons e es)
    then show ?case using web_step_keeps by fastforce
  qed simp
  then show "answered k db \<noteq> None \<longrightarrow> (\<forall>r. req_key r = Some k \<longrightarrow> fst (serve desktop r (foldl (\<lambda>db e. web_step desktop e db) db es)) =
      foldl (\<lambda>db e. web_step desktop e db) db es)"
    using serve_once(1) by (metis prod.collapse)
qed

text \<open>
  A send over a scheduled distribution fails.  When an operator asks for a send of a run
  that already has an unfinished batch with a scheduled time, the summary cannot be stored and
  the request ends in an internal error instead of the warning; nothing is queued, and the
  repeated request then announces a queued distribution of no payslips.
\<close>
theorem scheduled_send_fails:
  assumes "role_required PAYROLL_ROLES u = Serve" "run_with_id k db = Some run" "may_send desktop run form"
    and "send_key ''distribute'' k only_failed form = Some key" "answered key db = None"
    and "in_flight_batch k (batches_of db) = Some b" "bt_scheduled_for b = Some t"
  shows "\<exists>db'. do_send now desktop u k only_failed form db = (db', Internal_error) \<and> batches_of db' = batches_of db \<and>
    do_send later desktop u k only_failed form db' = (db', Queued True (Some 0))"
proof -
  have run: "run_id run = k" by (rule found_run [OF assms(2)])
  have go: "send_problem desktop run form = None" "\<not> unconfirmed form"
    using assms(3) by (auto simp: may_send_def send_problem_def sms_refused_def unconfirmed_def needs_confirm_def
        CONFIRMED_CHANNELS_def CHANNEL_SMS_def)
  have e: "enqueue_summary now run (form_channel form) only_failed u None (wd_queue db) =
      (wd_queue db, Some (Summary (bt_id b) (bt_total b) (Some t) True))"
    using assms(6,7) run by (simp add: enqueue_summary_def enqueue_distribution_def)
  define db' where "db' = db\<lparr>wd_keys := wd_keys db @ [\<lparr>ik_key = key, ik_response = None\<rparr>]\<rparr>"
  have "answered key db' = Some None" "run_with_id k db' = Some run"
    using assms(2,5) by (simp_all add: db'_def answered_def first_row_append run_with_id_def)
  then have again: "replay_or_run (Some key) f db' = (db', Some (Replay_in_progress, True))" for f
    using replay_known by simp
  have "do_send now desktop u k only_failed form db = (db', Internal_error)"
    using assms(1,2,4,5) go e run
    by (simp add: do_send_def operator_route_def send_request_def replay_or_run_def answered_None json_dumps_def db'_def)
  moreover have "do_send later desktop u k only_failed form db' = (db', Queued True (Some 0))"
    using assms(1,4) \<open>run_with_id k db' = Some run\<close> go again run
    by (simp add: do_send_def operator_route_def send_request_def)
  ultimately show ?thesis by (auto simp: db'_def)
qed

subsection \<open>Concrete requests\<close>

definition an_operator :: user where
  "an_operator = \<lparr>user_id = 1, user_role = Some ''admin'', user_company = None, user_authenticated = True\<rparr>"

definition email_form :: send_form where
  "email_form = \<lparr>sf_channel = Some ''email'', sf_confirmed = None, sf_nonce = Some ''n1'', sf_when = Some 60\<rparr>"

definition send_now :: "send_action \<Rightarrow> send_req" where
  "send_now action = \<lparr>rq_now = 5, rq_user = an_operator, rq_run = 1, rq_form = email_form, rq_action = action\<rparr>"

definition approved_db :: web_db where
  "approved_db = \<lparr>wd_queue = \<lparr>qd_send = \<lparr>sd_items = [], sd_runs = [sample_run APPROVED 3], sd_employees = [],
     sd_deliveries = [], sd_calls = []\<rparr>, qd_batches = []\<rparr>, wd_keys = []\<rparr>"

lemma sample_serve:
  "map bt_id (batches_of (fst (serve False (send_now Send) approved_db))) = [1]"
  "times_queued False ''distribute:1:send:email:n1'' [Request (send_now Send), Request (send_now Cancel), Request (send_now Send)] approved_db = 1"
  "req_key (send_now Send) = Some ''distribute:1:send:email:n1''"
  "answered ''distribute:1:send:email:n1'' (fst (serve False (send_now Send) approved_db)) \<noteq> None"
  by code_simp+

definition approved_life :: life_db where
  "approved_life = \<lparr>lf_queue = wd_queue approved_db, lf_vouchers = [], lf_remittances = [], lf_expenses = [], lf_entries = [],
     lf_archives = [], lf_imports = [], lf_audit = []\<rparr>"

text \<open>An administrator's e-mail send of an approved run is queued, and so is the bulk form's send of it.\<close>

lemma queued_with_authority_witness:
  "(\<exists>db' reply b. serve False (send_now Send) approved_db = (db', reply) \<and> batches_of db' = [b] \<and> bt_run b = 1 \<and>
    bt_channel b = CHANNEL_EMAIL \<and> role_required PAYROLL_ROLES an_operator = Serve) \<and>
   (\<exists>life' reply c. bulk_distribute 5 an_operator True [Some 1] approved_life = (life', reply) \<and>
    qd_batches (lf_queue life') = [c] \<and> bt_run c = 1 \<and> bt_channel c = CHANNEL_AUTO)"
proof (rule conjI)
  obtain db' reply where s: "serve False (send_now Send) approved_db = (db', reply)" by fastforce
  obtain b where b: "batches_of db' = [b]" using sample_serve(1) s by (auto simp: length_Suc_conv map_eq_Cons_conv)
  have "bt_id b \<notin> bt_id ` set (batches_of approved_db)" by (simp add: approved_db_def)
  with queued_with_authority [of False "send_now Send" approved_db db' reply b] b s
  show "\<exists>db' reply b. serve False (send_now Send) approved_db = (db', reply) \<and> batches_of db' = [b] \<and> bt_run b = 1 \<and>
    bt_channel b = CHANNEL_EMAIL \<and> role_required PAYROLL_ROLES an_operator = Serve"
    by (auto simp: send_now_def email_form_def form_channel_def CHANNEL_EMAIL_def)
next
  obtain life' reply2 where l: "bulk_distribute 5 an_operator True [Some 1] approved_life = (life', reply2)" by fastforce
  have "map bt_id (qd_batches (lf_queue (fst (bulk_distribute 5 an_operator True [Some 1] approved_life)))) = [1]" by code_simp
  then obtain c where c: "qd_batches (lf_queue life') = [c]" using l by (auto simp: map_eq_Cons_conv)
  have "bt_id c \<notin> bt_id ` set (qd_batches (lf_queue approved_life))" by (simp add: approved_life_def approved_db_def)
  with queued_with_authority [where now = 5 and u = an_operator and confirmed = True and ids = "[Some 1]" and life = approved_life
      and life' = life' and bulk_reply = reply2 and c = c] c l
  show "\<exists>life' reply c. bulk_distribute 5 an_operator True [Some 1] approved_life = (life', reply) \<and>
    qd_batches (lf_queue life') = [c] \<and> bt_run c = 1 \<and> bt_channel c = CHANNEL_AUTO"
    by (auto simp: selected_ids_def List.map_filter_def fromkeys_def)
qed

text \<open>The click, a cancellation and the second click: one batch, and a third click changes nothing.\<close>

lemma nonce_queues_once_witness:
  "times_queued False ''distribute:1:send:email:n1'' [Request (send_now Send), Request (send_now Cancel), Request (send_now Send)] approved_db = 1 \<and>
   (let db = web_step False (Request (send_now Cancel)) (fst (serve False (send_now Send) approved_db))
    in fst (serve False (send_now Send) db) = db)"
  using nonce_queues_once [of False "''distribute:1:send:email:n1''" "[Request (send_now Cancel)]" "fst (serve False (send_now Send) approved_db)"]
    sample_serve by (simp add: Let_def)

text \<open>Scheduled for later, then sent at once: the second request fails.\<close>

lemma scheduled_send_fails_witness:
  "snd (do_send 6 False an_operator 1 False email_form (fst (serve False (send_now Schedule) approved_db))) = Internal_error"
proof -
  let ?db = "fst (serve False (send_now Schedule) approved_db)"
  have c: "role_required PAYROLL_ROLES an_operator = Serve" "send_key ''distribute'' 1 False email_form = Some ''distribute:1:send:email:n1''"
    "answered ''distribute:1:send:email:n1'' ?db = None"
    "map_option bt_scheduled_for (in_flight_batch 1 (batches_of ?db)) = Some (Some 60)"
    "map_option run_status (run_with_id 1 ?db) = Some APPROVED"
    by code_simp+
  obtain run b where r: "run_with_id 1 ?db = Some run" "run_status run = APPROVED" and
    b: "in_flight_batch 1 (batches_of ?db) = Some b" "bt_scheduled_for b = Some 60" using c(4,5) by auto
  have "may_send False run email_form"
    using r by (simp add: may_send_def SENDABLE_STATUSES_def email_form_def form_channel_def VALID_SEND_CHANNELS_def channel_defs)
  from scheduled_send_fails [OF c(1) r(1) this c(2,3) b, where now = 6 and later = 7] show ?thesis by auto
qed

end
