(* ===== verification/SmsText.thy ===== *)
theory SmsText
  imports PyText "HOL-Library.Sublist"
begin

text \<open>
  The text of a payslip SMS (\<open>app/distribution/gsm7.py\<close> and \<open>render_payslip_sms\<close> of
  \<open>app/distribution/render.py\<close>).  Names can hold any Unicode character, so text is here a list
  of code points.  \<open>unicodedata\<close>'s NFKD decomposition and its test for combining marks are
  parameters: the results hold for any such functions.
\<close>

type_synonym utext = "nat list"

definition utext :: "string \<Rightarrow> utext" where
  "utext s = map of_char s"

subsection \<open>GSM-7\<close>

definition GSM7_BASIC :: "nat list" where
  "GSM7_BASIC =
     [64, 163, 36, 165, 232, 233, 249, 236, 242, 199, 10, 216, 248, 13, 197, 229,
      916, 95, 934, 915, 923, 937, 928, 936, 931, 920, 926, 198, 230, 223, 201,
      32, 33, 34, 35, 164, 37, 38, 39, 40, 41, 42, 43, 44, 45, 46, 47,
      48, 49, 50, 51, 52, 53, 54, 55, 56, 57, 58, 59, 60, 61, 62, 63,
      161, 65, 66, 67, 68, 69, 70, 71, 72, 73, 74, 75, 76, 77, 78, 79, 80, 81, 82, 83, 84, 85, 86, 87, 88, 89, 90,
      196, 214, 209, 220, 167,
      191, 97, 98, 99, 100, 101, 102, 103, 104, 105, 106, 107, 108, 109, 110, 111, 112, 113, 114, 115, 116, 117, 118,
      119, 120, 121, 122, 228, 246, 241, 252, 224]"

definition GSM7_EXTENSION :: "nat list" where
  "GSM7_EXTENSION = [0x0C, 0x5E, 0x7B, 0x7D, 0x5C, 0x5B, 0x7E, 0x5D, 0x7C, 0x20AC]"

fun septets :: "utext \<Rightarrow> nat option" where
  "septets [] = Some 0"
| "septets (c # cs) =
     (if c \<in> set GSM7_BASIC then map_option (\<lambda>n. 1 + n) (septets cs)
      else if c \<in> set GSM7_EXTENSION then map_option (\<lambda>n. 2 + n) (septets cs)
      else None)"

definition REPLACEMENTS :: "nat \<Rightarrow> nat" where
  "REPLACEMENTS c =
     (if c \<in> {0x2018, 0x2019, 0x201A, 0x201B, 0x2032} then 0x27
      else if c \<in> {0x201C, 0x201D, 0x201E, 0x201F, 0x2033} then 0x22
      else if c \<in> {0x2010, 0x2011, 0x2012, 0x2013, 0x2014, 0x2015, 0x2212} then 0x2D
      else if c \<in> {0xA0, 0x2007, 0x202F, 0x2009, 0x200A} then 0x20
      else c)"

text \<open>What \<open>\s\<close> and \<open>str.strip\<close> take for white space.\<close>

definition u_space :: "nat \<Rightarrow> bool" where
  "u_space c \<longleftrightarrow> c \<in> {9, 10, 11, 12, 13, 28, 29, 30, 31, 32, 0x85, 0xA0, 0x1680, 0x2028, 0x2029, 0x202F, 0x205F, 0x3000} \<or>
     0x2000 \<le> c \<and> c \<le> 0x200A"

text \<open>\<open>_WHITESPACE.sub(" ", text)\<close>: every run of white space becomes one space.\<close>

function squeeze_spaces :: "utext \<Rightarrow> utext" where
  "squeeze_spaces [] = []"
| "squeeze_spaces (c # cs) = (if u_space c then 32 # squeeze_spaces (dropWhile u_space cs) else c # squeeze_spaces cs)"
  by pat_completeness auto

termination
  by (relation "measure length") (auto simp: le_imp_less_Suc length_dropWhile_le)

definition u_strip :: "utext \<Rightarrow> utext" where
  "u_strip s = rev (dropWhile u_space (rev (dropWhile u_space s)))"

definition clean_for_sms :: "(utext \<Rightarrow> utext) \<Rightarrow> (nat \<Rightarrow> bool) \<Rightarrow> utext \<Rightarrow> utext" where
  "clean_for_sms nfkd combining text =
     (let v = map REPLACEMENTS text;
          v = nfkd v;
          v = filter (\<lambda>c. \<not> combining c) v;
          v = squeeze_spaces v;
          kept = filter (\<lambda>c. c \<in> set GSM7_BASIC \<or> c \<in> set GSM7_EXTENSION) v
      in u_strip (squeeze_spaces kept))"

text \<open>\<open>fit\<close>: the loop over the text, the cut back to a whole word, and the trailing marks removed.\<close>

definition char_cost :: "nat \<Rightarrow> nat" where
  "char_cost c = (if c \<in> set GSM7_EXTENSION then 2 else 1)"

fun fit_end :: "int \<Rightarrow> int \<Rightarrow> utext \<Rightarrow> nat" where
  "fit_end budget used [] = 0"
| "fit_end budget used (c # cs) =
     (if used + int (char_cost c) > budget then 0 else Suc (fit_end budget (used + int (char_cost c)) cs))"

definition last_space :: "utext \<Rightarrow> utext" where
  "last_space head = (if 32 \<in> set head then rev (tl (dropWhile (\<lambda>c. c \<noteq> 32) (rev head))) else head)"

definition trailing_mark :: "nat \<Rightarrow> bool" where
  "trailing_mark c \<longleftrightarrow> c \<in> {0x20, 0x2D, 0x2C, 0x3B, 0x3A}"

definition fit :: "utext \<Rightarrow> int \<Rightarrow> bool \<Rightarrow> utext" where
  "fit text budget whole_words =
     (let stop = fit_end budget 0 text;
          head = take stop text;
          head = (if whole_words \<and> stop < length text \<and> text ! stop \<noteq> 32 \<and> 32 \<in> set head then last_space head else head)
      in rev (dropWhile trailing_mark (rev head)))"

subsection \<open>The message\<close>

definition SMS_MAX_SEPTETS :: nat where "SMS_MAX_SEPTETS = 160"

text \<open>
  The run is given by its month and year, as in \<open>_period\<close>; \<open>days\<close> is \<open>PAYSLIP_SMS_LINK_DAYS\<close> and
  \<open>brand\<close> is \<open>APP_BRAND_NAME\<close>.  An empty link is no link.
\<close>

datatype sms_error = Link_not_gsm7 | No_room | Sms_too_long "nat option"

definition period_text :: "(utext \<times> int) option \<Rightarrow> utext" where
  "period_text run = (case run of None \<Rightarrow> utext ''this period''
     | Some (month, year) \<Rightarrow> u_strip (month @ utext '' '' @ utext (str_int year)))"

definition sms_tail ::
  "(utext \<Rightarrow> utext) \<Rightarrow> (nat \<Rightarrow> bool) \<Rightarrow> int \<Rightarrow> (utext \<times> int) option \<Rightarrow> utext option \<Rightarrow> utext" where
  "sms_tail nfkd combining days run link =
     utext '': your '' @ clean_for_sms nfkd combining (period_text run) @ utext '' payslip is ready.'' @
     (case link of None \<Rightarrow> [] | Some l \<Rightarrow>
        if l = [] then []
        else utext '' View (valid '' @ utext (str_int days) @ utext '' day'' @ (if days = 1 then [] else utext ''s'') @ utext ''): '' @ l)"

definition render_payslip_sms ::
  "(utext \<Rightarrow> utext) \<Rightarrow> (nat \<Rightarrow> bool) \<Rightarrow> int \<Rightarrow> utext \<Rightarrow> (utext \<times> int) option \<Rightarrow> utext option \<Rightarrow> utext option
    \<Rightarrow> sms_error + utext" where
  "render_payslip_sms nfkd combining days brand run client link =
     (let tail = sms_tail nfkd combining days run link
      in case septets tail of
           None \<Rightarrow> raise Link_not_gsm7
         | Some tail_cost \<Rightarrow>
             (let budget = int SMS_MAX_SEPTETS - int tail_cost;
                  company = fit (clean_for_sms nfkd combining (case client of None \<Rightarrow> [] | Some c \<Rightarrow> c)) budget True;
                  name = (if company = [] then fit (clean_for_sms nfkd combining brand) budget True else company)
              in if name = [] then raise No_room
                 else let body = name @ tail; cost = septets body
                      in if (case cost of None \<Rightarrow> True | Some n \<Rightarrow> n > SMS_MAX_SEPTETS) then raise (Sms_too_long cost)
                         else return body))"

subsection \<open>Costs\<close>

lemma septets_append: "septets (xs @ ys) = (case (septets xs, septets ys) of (Some m, Some n) \<Rightarrow> Some (m + n) | _ \<Rightarrow> None)"
  by (induction xs) (auto split: option.splits)

definition gsm7 :: "utext \<Rightarrow> bool" where
  "gsm7 s \<longleftrightarrow> (\<forall>c\<in>set s. c \<in> set GSM7_BASIC \<or> c \<in> set GSM7_EXTENSION)"

lemma gsm7_simps [simp]: "gsm7 []" "gsm7 (c # cs) \<longleftrightarrow> (c \<in> set GSM7_BASIC \<or> c \<in> set GSM7_EXTENSION) \<and> gsm7 cs"
  "gsm7 (xs @ ys) \<longleftrightarrow> gsm7 xs \<and> gsm7 ys"
  by (auto simp: gsm7_def)

lemma septets_None: "septets s = None \<longleftrightarrow> \<not> gsm7 s"
  by (induction s) auto

lemma disjoint_tables: "c \<in> set GSM7_BASIC \<Longrightarrow> c \<notin> set GSM7_EXTENSION"
proof -
  have "list_all (\<lambda>c. c \<notin> set GSM7_EXTENSION) GSM7_BASIC" by (simp add: GSM7_BASIC_def GSM7_EXTENSION_def)
  then show "c \<in> set GSM7_BASIC \<Longrightarrow> c \<notin> set GSM7_EXTENSION" by (simp add: list_all_iff)
qed

lemma septets_cost: "gsm7 s \<Longrightarrow> septets s = Some (sum_list (map char_cost s))"
  by (induction s) (auto simp: char_cost_def dest: disjoint_tables)

lemma cost_prefix: "prefix xs ys \<Longrightarrow> sum_list (map char_cost xs) \<le> sum_list (map char_cost ys)"
  by (auto simp: prefix_def)

lemma gsm7_prefix: "prefix xs ys \<Longrightarrow> gsm7 ys \<Longrightarrow> gsm7 xs"
  by (auto simp: prefix_def)

lemma char_cost_pos: "char_cost c > 0"
  by (simp add: char_cost_def)

subsection \<open>What cleaning and fitting leave\<close>

lemma set_squeeze_spaces: "set (squeeze_spaces s) \<subseteq> insert 32 (set s)"
  by (induction s rule: squeeze_spaces.induct) (auto dest: set_dropWhileD)

lemma set_u_strip: "set (u_strip s) \<subseteq> set s"
  by (auto simp: u_strip_def dest!: set_dropWhileD)

lemma clean_gsm7: "gsm7 (clean_for_sms nfkd combining text)"
proof -
  have "32 \<in> set GSM7_BASIC" by (simp add: GSM7_BASIC_def)
  then show ?thesis
    unfolding gsm7_def clean_for_sms_def Let_def using set_u_strip set_squeeze_spaces by fastforce
qed

lemma fit_end_cost: "used \<le> budget \<Longrightarrow> used + int (sum_list (map char_cost (take (fit_end budget used s) s))) \<le> budget"
proof (induction s arbitrary: used)
  case (Cons c cs)
  show ?case
  proof (cases "used + int (char_cost c) > budget")
    case False
    then show ?thesis using Cons.IH [of "used + int (char_cost c)"] by simp
  qed (use Cons.prems in simp)
qed simp

lemma fit_end_negative: "budget < used \<Longrightarrow> fit_end budget used s = 0"
  by (cases s) auto

lemma prefix_rev_dropWhile: "prefix (rev (dropWhile P (rev s))) s"
  by (metis rev_rev_ident suffix_dropWhile suffix_to_prefix)

lemma last_space_prefix: "prefix (last_space s) s"
proof (cases "32 \<in> set s")
  case True
  have "suffix (tl (dropWhile (\<lambda>c. c \<noteq> 32) (rev s))) (rev s)"
    by (meson suffix_dropWhile suffix_order.trans suffix_tl)
  then show ?thesis using True by (simp add: last_space_def suffix_to_prefix)
qed (simp add: last_space_def)

lemma fit_prefix: "prefix (fit text budget w) (take (fit_end budget 0 text) text)"
  unfolding fit_def Let_def
  by (auto intro: prefix_order.trans [OF prefix_rev_dropWhile] last_space_prefix prefix_rev_dropWhile)

lemma fit_of_text: "prefix (fit text budget w) text"
  using fit_prefix prefix_order.trans take_is_prefix by blast

lemma fit_cost:
  assumes "fit text budget w \<noteq> []"
  shows "int (sum_list (map char_cost (fit text budget w))) \<le> budget"
proof (cases "budget < 0")
  case True
  then show ?thesis using assms fit_prefix [of "text" budget w] by (simp add: fit_end_negative)
next
  case False
  then show ?thesis using fit_end_cost [of 0 budget "text"] cost_prefix [OF fit_prefix [of "text" budget w]] by simp
qed

text \<open>A text that starts with a visible character is never cut to nothing when that character fits.\<close>

lemma rev_dropWhile_Cons: "\<not> P c \<Longrightarrow> rev (dropWhile P (rev (c # cs))) \<noteq> []"
  by (auto simp: dropWhile_eq_Nil_conv)

lemma last_space_Cons: "c \<noteq> 32 \<Longrightarrow> last_space (c # cs) \<noteq> [] \<and> hd (last_space (c # cs)) = c"
proof -
  assume c: "c \<noteq> 32"
  show ?thesis
  proof (cases "32 \<in> set cs")
    case True
    then have "dropWhile (\<lambda>c. c \<noteq> 32) (rev cs @ [c]) = dropWhile (\<lambda>c. c \<noteq> 32) (rev cs) @ [c]"
      by (auto simp: dropWhile_append)
    moreover have "dropWhile (\<lambda>c. c \<noteq> 32) (rev cs) \<noteq> []" using True by (auto simp: dropWhile_eq_Nil_conv)
    ultimately show ?thesis using True c by (simp add: last_space_def)
  qed (use c in \<open>simp add: last_space_def\<close>)
qed

lemma fit_nonempty:
  assumes "\<not> trailing_mark c" "int (char_cost c) \<le> budget"
  shows "fit (c # cs) budget w \<noteq> []"
proof -
  let ?stop = "fit_end budget 0 (c # cs)"
  obtain n where "?stop = Suc n" using assms(2) by simp
  then have cut: "take ?stop (c # cs) = c # take n cs" by simp
  have "c \<noteq> 32" using assms(1) by (auto simp: trailing_mark_def)
  with last_space_Cons obtain ds where "last_space (c # take n cs) = c # ds" by (metis list.exhaust_sel)
  with cut rev_dropWhile_Cons [of trailing_mark, OF assms(1)] show ?thesis unfolding fit_def Let_def by auto
qed

subsection \<open>One part\<close>

lemma gsm7_texts: "gsm7 (utext '': your '')" "gsm7 (utext '' payslip is ready.'')" "gsm7 (utext '' View (valid '')"
  "gsm7 (utext '' day'')" "gsm7 (utext ''s'')" "gsm7 (utext ''): '')"
  by (simp_all add: gsm7_def utext_def GSM7_BASIC_def)

lemma gsm7_digits: "gsm7 (utext (digits n))"
proof (induction n rule: digits.induct)
  case (1 n)
  have "of_char (char_of (48 + n mod 10) :: char) = 48 + n mod 10" by simp
  moreover have "48 + n mod 10 \<in> set GSM7_BASIC"
  proof -
    have "n mod 10 = 0 \<or> n mod 10 = 1 \<or> n mod 10 = 2 \<or> n mod 10 = 3 \<or> n mod 10 = 4 \<or> n mod 10 = 5 \<or> n mod 10 = 6 \<or>
        n mod 10 = 7 \<or> n mod 10 = 8 \<or> n mod 10 = 9" by presburger
    then show ?thesis by (elim disjE) (simp_all add: GSM7_BASIC_def)
  qed
  ultimately show ?case using 1 by (auto simp: digits.simps [of n] utext_def)
qed

lemma gsm7_str_int: "gsm7 (utext (str_int i))"
proof -
  have "utext (''-'' @ s) = 45 # utext s" for s by (simp add: utext_def)
  moreover have "45 \<in> set GSM7_BASIC" by (simp add: GSM7_BASIC_def)
  ultimately show ?thesis using gsm7_digits by (simp add: str_int_def)
qed

lemma tail_gsm7: "gsm7 (sms_tail nfkd combining days run link) \<longleftrightarrow> (\<forall>l. link = Some l \<longrightarrow> gsm7 l)"
  by (auto simp: sms_tail_def clean_gsm7 gsm7_texts gsm7_str_int split: option.splits)

text \<open>
  C38: a payslip SMS is one part and carries its link whole.  A message that is rendered is a
  cut of the company's or the product's cleaned name followed by the complete text and link, is
  all GSM-7 and costs at most 160 septets.  Rendering fails only when the link itself is not
  GSM-7, or when not even the first character of the product's name fits; the last check of
  the code never fails.
\<close>
theorem sms_fits_one_part:
  "(render_payslip_sms nfkd combining days brand run client link = Inr body \<longrightarrow>
     (\<exists>name n. body = name @ sms_tail nfkd combining days run link \<and> name \<noteq> [] \<and>
        (prefix name (clean_for_sms nfkd combining brand) \<or> prefix name (clean_for_sms nfkd combining (case client of None \<Rightarrow> [] | Some c \<Rightarrow> c))) \<and>
        (\<forall>l. link = Some l \<longrightarrow> suffix l body) \<and> septets body = Some n \<and> n \<le> 160)) \<and>
   (render_payslip_sms nfkd combining days brand run client link = Inl e \<longrightarrow>
     e = Link_not_gsm7 \<and> (\<exists>l. link = Some l \<and> septets l = None) \<or>
     e = No_room \<and> (\<forall>c cs n. clean_for_sms nfkd combining brand = c # cs \<and> \<not> trailing_mark c \<and>
       septets (sms_tail nfkd combining days run link) = Some n \<longrightarrow> 160 < n + char_cost c))"
proof -
  let ?tail = "sms_tail nfkd combining days run link"
  show ?thesis
  proof (cases "septets ?tail")
    case None
    then have "render_payslip_sms nfkd combining days brand run client link = Inl Link_not_gsm7"
      by (simp add: render_payslip_sms_def)
    moreover have "\<exists>l. link = Some l \<and> septets l = None"
      using None tail_gsm7 [of nfkd combining days run link] by (auto simp: septets_None)
    ultimately show ?thesis by auto
  next
    case (Some n)
    define budget where "budget = int SMS_MAX_SEPTETS - int n"
    define company where "company = fit (clean_for_sms nfkd combining (case client of None \<Rightarrow> [] | Some c \<Rightarrow> c)) budget True"
    define name where "name = (if company = [] then fit (clean_for_sms nfkd combining brand) budget True else company)"
    have render: "render_payslip_sms nfkd combining days brand run client link =
        (if name = [] then raise No_room
         else if (case septets (name @ ?tail) of None \<Rightarrow> True | Some n \<Rightarrow> n > SMS_MAX_SEPTETS) then raise (Sms_too_long (septets (name @ ?tail)))
         else return (name @ ?tail))"
      by (simp add: render_payslip_sms_def Some Let_def budget_def name_def company_def)
    have from_names: "prefix name (clean_for_sms nfkd combining brand) \<or>
        prefix name (clean_for_sms nfkd combining (case client of None \<Rightarrow> [] | Some c \<Rightarrow> c))" if "name \<noteq> []"
      using that fit_of_text by (auto simp: name_def company_def split: option.splits if_splits)
    show ?thesis
    proof (cases "name = []")
      case True
      have "160 < n + char_cost c" if "clean_for_sms nfkd combining brand = c # cs" "\<not> trailing_mark c" for c cs
      proof -
        have "\<not> int (char_cost c) \<le> budget"
          using fit_nonempty [OF that(2), of budget cs True] True that(1) by (auto simp: name_def split: if_splits)
        then show ?thesis by (simp add: budget_def SMS_MAX_SEPTETS_def)
      qed
      then show ?thesis using True Some by (auto simp: render)
    next
      case False
      have "gsm7 name" using from_names [OF False] clean_gsm7 gsm7_prefix by blast
      moreover have "int (sum_list (map char_cost name)) \<le> budget"
        using False fit_cost by (auto simp: name_def company_def split: if_splits)
      ultimately have cost: "septets (name @ ?tail) = Some (sum_list (map char_cost name) + n)"
        "sum_list (map char_cost name) + n \<le> 160"
        by (auto simp: septets_append septets_cost Some budget_def SMS_MAX_SEPTETS_def)
      have "suffix l ?tail" if "link = Some l" for l using that by (auto simp: sms_tail_def suffix_def)
      then have "\<forall>l. link = Some l \<longrightarrow> suffix l (name @ ?tail)" by (auto intro: suffix_appendI)
      then show ?thesis using cost from_names [OF False] False by (auto simp: render SMS_MAX_SEPTETS_def)
    qed
  qed
qed

lemma sms_fits_one_part_witness:
  "render_payslip_sms (\<lambda>s. s) (\<lambda>_. False) 9 (utext ''Payrolla'') None (Some (utext ''ACS Ltd'')) (Some (utext ''p.co/s/x'')) =
     Inr (utext ''ACS Ltd: your this period payslip is ready. View (valid 9 days): p.co/s/x'') \<and>
   (\<exists>n\<le>160. septets (utext ''ACS Ltd: your this period payslip is ready. View (valid 9 days): p.co/s/x'') = Some n)"
proof -
  have r: "render_payslip_sms (\<lambda>s. s) (\<lambda>_. False) 9 (utext ''Payrolla'') None (Some (utext ''ACS Ltd'')) (Some (utext ''p.co/s/x'')) =
     Inr (utext ''ACS Ltd: your this period payslip is ready. View (valid 9 days): p.co/s/x'')"
    by (simp add: render_payslip_sms_def Let_def sms_tail_def period_text_def clean_for_sms_def u_strip_def REPLACEMENTS_def
        u_space_def utext_def GSM7_BASIC_def GSM7_EXTENSION_def fit_def trailing_mark_def char_cost_def SMS_MAX_SEPTETS_def
        str_int_def digits.simps)
  from sms_fits_one_part [THEN conjunct1, THEN mp, OF r] r show ?thesis by blast
qed

end
