(* ===== verification/PayslipLinks.thy ===== *)
theory PayslipLinks
  imports Items
begin

text \<open>
  Links that open one payslip without a login: the signed \<open>/p/\<close> tokens
  (\<open>app/distribution/tokens.py\<close>) and the short \<open>/s/\<close> codes of an SMS (\<open>app/distribution/links.py\<close>).
  The keyed hash, the signing and its inverse are parameters; times are seconds.
\<close>

subsection \<open>Signed tokens\<close>

text \<open>
  What \<open>loads\<close> returns for a token that verifies and is young enough: the payload, whose
  \<open>item\<close> and \<open>v\<close> entries may each be missing, or something that is no dictionary.
\<close>

datatype token_data = Not_a_dict | Payload "int option" "int option"

definition version_of :: "payroll_item \<Rightarrow> int" where
  "version_of item = item_token_version item"

definition find_item :: "int \<Rightarrow> payroll_item list \<Rightarrow> payroll_item option" where
  "find_item k items = first_row (\<lambda>i. item_id i = k) items"

text \<open>\<open>_identify\<close>: a row is taken as it is, a bare id is looked up.\<close>

definition identify :: "payroll_item + int \<Rightarrow> payroll_item list \<Rightarrow> int \<times> int" where
  "identify item_or_id items =
     (case item_or_id of
        Inl item \<Rightarrow> (item_id item, version_of item)
      | Inr k \<Rightarrow> (k, case find_item k items of Some item \<Rightarrow> version_of item | None \<Rightarrow> 0))"

definition issue_payslip_token ::
  "(token_data \<Rightarrow> int \<Rightarrow> 'tok) \<Rightarrow> int \<Rightarrow> payroll_item + int \<Rightarrow> payroll_item list \<Rightarrow> 'tok" where
  "issue_payslip_token dumps now item_or_id items =
     (case identify item_or_id items of (k, v) \<Rightarrow> dumps (Payload (Some k) (Some v)) now)"

definition verify_payslip_token :: "('tok \<Rightarrow> int \<Rightarrow> int \<Rightarrow> token_data option) \<Rightarrow> int \<Rightarrow> int \<Rightarrow> 'tok \<Rightarrow> int option" where
  "verify_payslip_token loads max_age now token =
     (case loads token max_age now of Some (Payload k _) \<Rightarrow> k | _ \<Rightarrow> None)"

definition resolve_payslip_item ::
  "('tok \<Rightarrow> int \<Rightarrow> int \<Rightarrow> token_data option) \<Rightarrow> int \<Rightarrow> int \<Rightarrow> 'tok \<Rightarrow> payroll_item list \<Rightarrow> payroll_item option" where
  "resolve_payslip_item loads max_age now token items =
     (case loads token max_age now of
        None \<Rightarrow> None
      | Some Not_a_dict \<Rightarrow> None
      | Some (Payload None _) \<Rightarrow> None
      | Some (Payload (Some k) v) \<Rightarrow>
          (case find_item k items of
             None \<Rightarrow> None
           | Some item \<Rightarrow>
               (case v of None \<Rightarrow> None | Some v \<Rightarrow> if v \<noteq> version_of item then None else Some item)))"

definition revoke_payslip_links :: "int \<Rightarrow> payroll_item list \<Rightarrow> payroll_item list" where
  "revoke_payslip_links k items = update_row item_id k (\<lambda>i. i\<lparr>item_token_version := version_of i + 1\<rparr>) items"

text \<open>The configured base, else the host of the request, if there is one.\<close>

definition public_base :: "string option \<Rightarrow> string option \<Rightarrow> string option" where
  "public_base configured request_root =
     (let base = (if configured = None \<or> configured = Some [] then request_root else configured)
      in case base of None \<Rightarrow> None
         | Some b \<Rightarrow> if b = [] then None else Some (rev (dropWhile (\<lambda>c. c = CHR ''/'') (rev b))))"

definition public_payslip_url ::
  "(token_data \<Rightarrow> int \<Rightarrow> string) \<Rightarrow> string option \<Rightarrow> string option \<Rightarrow> int \<Rightarrow> payroll_item + int \<Rightarrow> payroll_item list \<Rightarrow> string option" where
  "public_payslip_url dumps configured request_root now item_or_id items =
     map_option (\<lambda>base. base @ ''/p/'' @ issue_payslip_token dumps now item_or_id items) (public_base configured request_root)"

subsection \<open>Short codes\<close>

record payslip_link =
  pl_hash :: string
  pl_item :: int
  pl_delivery :: "int option"
  pl_version :: int
  pl_expires :: int
  pl_revoked :: "int option"
  pl_created :: int

record link_db =
  ld_items :: "payroll_item list"
  ld_links :: "payslip_link list"

definition CODE_LENGTH :: nat where "CODE_LENGTH = 12"

definition ALPHABET :: string where
  "ALPHABET = lower_letters @ upper_letters @ ''0123456789''"

definition well_formed_code :: "string \<Rightarrow> bool" where
  "well_formed_code code \<longleftrightarrow> length code = CODE_LENGTH \<and> set code \<subseteq> set ALPHABET"

definition link_of :: "(string \<Rightarrow> string) \<Rightarrow> string \<Rightarrow> payslip_link list \<Rightarrow> payslip_link option" where
  "link_of code_hash code links = first_row (\<lambda>l. pl_hash l = code_hash code) links"

definition revoke_delivery_links :: "int \<Rightarrow> int \<Rightarrow> payslip_link list \<Rightarrow> payslip_link list" where
  "revoke_delivery_links now delivery links =
     map (\<lambda>l. if pl_delivery l = Some delivery \<and> pl_revoked l = None then l\<lparr>pl_revoked := Some now\<rparr> else l) links"

text \<open>
  Minting: the code is the random choice; the unique column refuses a hash that is in use, and
  then the transaction, revocation included, is undone.
\<close>

definition mint_payslip_link ::
  "(string \<Rightarrow> string) \<Rightarrow> int \<Rightarrow> int \<Rightarrow> string \<Rightarrow> payroll_item \<Rightarrow> int option \<Rightarrow> link_db \<Rightarrow> link_db \<times> string option" where
  "mint_payslip_link code_hash days now code item delivery db =
     (let links = (case delivery of None \<Rightarrow> ld_links db | Some d \<Rightarrow> revoke_delivery_links now d (ld_links db));
          link = \<lparr>pl_hash = code_hash code, pl_item = item_id item, pl_delivery = delivery, pl_version = version_of item,
                  pl_expires = now + days * 86400, pl_revoked = None, pl_created = now\<rparr>
      in if link_of code_hash code links \<noteq> None then (db, None)
         else (db\<lparr>ld_links := links @ [link]\<rparr>, Some code))"

definition short_payslip_url ::
  "(string \<Rightarrow> string) \<Rightarrow> string option \<Rightarrow> string option \<Rightarrow> int \<Rightarrow> int \<Rightarrow> string \<Rightarrow> payroll_item \<Rightarrow> int option \<Rightarrow> link_db
    \<Rightarrow> link_db \<times> string option" where
  "short_payslip_url code_hash configured request_root days now code item delivery db =
     (case public_base configured request_root of
        None \<Rightarrow> (db, None)
      | Some base \<Rightarrow> (case mint_payslip_link code_hash days now code item delivery db of
          (db', minted) \<Rightarrow> (db', map_option (\<lambda>c. base @ ''/s/'' @ c) minted)))"

definition resolve_payslip_link :: "(string \<Rightarrow> string) \<Rightarrow> int \<Rightarrow> string \<Rightarrow> link_db \<Rightarrow> payroll_item option" where
  "resolve_payslip_link code_hash now code db =
     (if \<not> well_formed_code code then None
      else case link_of code_hash code (ld_links db) of
        None \<Rightarrow> None
      | Some link \<Rightarrow>
          if pl_revoked link \<noteq> None then None
          else if pl_expires link \<le> now then None
          else case find_item (pl_item link) (ld_items db) of
            None \<Rightarrow> None
          | Some item \<Rightarrow> if pl_version link \<noteq> version_of item then None else Some item)"

definition revoke_code :: "(string \<Rightarrow> string) \<Rightarrow> int \<Rightarrow> string \<Rightarrow> link_db \<Rightarrow> link_db \<times> bool" where
  "revoke_code code_hash now code db =
     (if \<not> well_formed_code code then (db, False)
      else case link_of code_hash code (ld_links db) of
        None \<Rightarrow> (db, False)
      | Some link \<Rightarrow>
          if pl_revoked link \<noteq> None then (db, False)
          else (db\<lparr>ld_links := update_row pl_hash (code_hash code) (\<lambda>l. l\<lparr>pl_revoked := Some now\<rparr>) (ld_links db)\<rparr>, True))"

subsection \<open>Histories and what they grant\<close>

datatype link_event =
    Mint int string int "int option"
  | Revoke_delivery int int
  | Revoke_code int string
  | Revoke_item int

fun link_step :: "(string \<Rightarrow> string) \<Rightarrow> int \<Rightarrow> link_event \<Rightarrow> link_db \<Rightarrow> link_db" where
  "link_step h days (Mint now code k delivery) db =
     (case find_item k (ld_items db) of None \<Rightarrow> db | Some item \<Rightarrow> fst (mint_payslip_link h days now code item delivery db))"
| "link_step h days (Revoke_delivery now d) db = db\<lparr>ld_links := revoke_delivery_links now d (ld_links db)\<rparr>"
| "link_step h days (Revoke_code now code) db = fst (revoke_code h now code db)"
| "link_step h days (Revoke_item k) db = db\<lparr>ld_items := revoke_payslip_links k (ld_items db)\<rparr>"

text \<open>
  The reference: which codes are good, for which item, from which delivery, until when.  It
  knows no hashes, versions or tables.  A code is used up for ever once minted.
\<close>

record grants =
  gr_used :: "string set"
  gr_good :: "(string \<times> int \<times> int option \<times> int) list"

fun grant_step :: "int list \<Rightarrow> int \<Rightarrow> link_event \<Rightarrow> grants \<Rightarrow> grants" where
  "grant_step ids days (Mint now code k delivery) g =
     (if k \<notin> set ids \<or> code \<in> gr_used g then g
      else g\<lparr>gr_used := insert code (gr_used g),
             gr_good := filter (\<lambda>(c, i, d, e). delivery = None \<or> d \<noteq> delivery) (gr_good g) @ [(code, k, delivery, now + days * 86400)]\<rparr>)"
| "grant_step ids days (Revoke_delivery now d) g = g\<lparr>gr_good := filter (\<lambda>(c, i, d', e). d' \<noteq> Some d) (gr_good g)\<rparr>"
| "grant_step ids days (Revoke_code now code) g =
     g\<lparr>gr_good := filter (\<lambda>(c, i, d, e). c \<noteq> code) (gr_good g)\<rparr>"
| "grant_step ids days (Revoke_item k) g = g\<lparr>gr_good := filter (\<lambda>(c, i, d, e). i \<noteq> k) (gr_good g)\<rparr>"

fun event_codes :: "link_event \<Rightarrow> string set" where
  "event_codes (Mint now code k delivery) = {code}"
| "event_codes (Revoke_code now code) = {code}"
| "event_codes _ = {}"

definition live_grant :: "(string \<Rightarrow> string) \<Rightarrow> link_db \<Rightarrow> string \<Rightarrow> int \<Rightarrow> int option \<Rightarrow> int \<Rightarrow> bool" where
  "live_grant h db c i d e \<longleftrightarrow>
     (\<exists>l\<in>set (ld_links db). pl_hash l = h c \<and> pl_item l = i \<and> pl_delivery l = d \<and> pl_expires l = e \<and> pl_revoked l = None \<and>
        (\<exists>item\<in>set (ld_items db). item_id item = i \<and> item_token_version item = pl_version l))"

definition refines_grants :: "(string \<Rightarrow> string) \<Rightarrow> string set \<Rightarrow> int list \<Rightarrow> link_db \<Rightarrow> grants \<Rightarrow> bool" where
  "refines_grants h codes ids db g \<longleftrightarrow>
     map item_id (ld_items db) = ids \<and> distinct ids \<and> gr_used g \<subseteq> codes \<and>
     pl_hash ` set (ld_links db) = h ` gr_used g \<and> distinct (map pl_hash (ld_links db)) \<and>
     (\<forall>l\<in>set (ld_links db). \<forall>item\<in>set (ld_items db). item_id item = pl_item l \<longrightarrow> pl_version l \<le> item_token_version item) \<and>
     (\<forall>c i d e. c \<in> codes \<and> well_formed_code c \<longrightarrow> ((c, i, d, e) \<in> set (gr_good g) \<longleftrightarrow> live_grant h db c i d e))"

lemma find_item_iff:
  assumes "distinct (map item_id items)"
  shows "find_item k items = Some i \<longleftrightarrow> i \<in> set items \<and> item_id i = k"
  unfolding find_item_def by (rule first_row_key [OF assms])

lemma find_item_None: "find_item k items = None \<longleftrightarrow> k \<notin> item_id ` set items"
  by (auto simp: find_item_def first_row_None_iff)

lemma link_of_None: "link_of h code links = None \<longleftrightarrow> h code \<notin> pl_hash ` set links"
  unfolding link_of_def first_row_None_iff by (metis (mono_tags) image_iff)

lemma link_of_iff:
  assumes "distinct (map pl_hash links)"
  shows "link_of h code links = Some l \<longleftrightarrow> l \<in> set links \<and> pl_hash l = h code"
  unfolding link_of_def by (rule first_row_key [OF assms])

text \<open>Steps that change rows in place.\<close>

lemma refines_in_place:
  assumes "refines_grants h codes ids db g"
    and "map item_id (ld_items db') = map item_id (ld_items db)" "map pl_hash (ld_links db') = map pl_hash (ld_links db)"
    and "gr_used g' = gr_used g"
    and "\<And>l item. l \<in> set (ld_links db') \<Longrightarrow> item \<in> set (ld_items db') \<Longrightarrow> item_id item = pl_item l \<Longrightarrow> pl_version l \<le> item_token_version item"
    and "\<And>c i d e. c \<in> codes \<Longrightarrow> well_formed_code c \<Longrightarrow> (c, i, d, e) \<in> set (gr_good g') \<longleftrightarrow> live_grant h db' c i d e"
  shows "refines_grants h codes ids db' g'"
proof -
  have "pl_hash ` set (ld_links db') = pl_hash ` set (ld_links db)" using assms(3) by (metis set_map)
  then show ?thesis using assms unfolding refines_grants_def by simp
qed

lemma refinesD:
  assumes "refines_grants h codes ids db g"
  shows "map item_id (ld_items db) = ids" "distinct (map item_id (ld_items db))" "pl_hash ` set (ld_links db) = h ` gr_used g"
    "distinct (map pl_hash (ld_links db))" "gr_used g \<subseteq> codes"
    "l \<in> set (ld_links db) \<Longrightarrow> item \<in> set (ld_items db) \<Longrightarrow> item_id item = pl_item l \<Longrightarrow> pl_version l \<le> item_token_version item"
    "c \<in> codes \<Longrightarrow> well_formed_code c \<Longrightarrow> (c, i, d, e) \<in> set (gr_good g) \<longleftrightarrow> live_grant h db c i d e"
  using assms unfolding refines_grants_def by blast+

definition delivery_revoked :: "int \<Rightarrow> int \<Rightarrow> payslip_link \<Rightarrow> payslip_link" where
  "delivery_revoked now x l = (if pl_delivery l = Some x \<and> pl_revoked l = None then l\<lparr>pl_revoked := Some now\<rparr> else l)"

lemma delivery_revoked_simps [simp]:
  "pl_hash (delivery_revoked now x l) = pl_hash l" "pl_item (delivery_revoked now x l) = pl_item l"
  "pl_version (delivery_revoked now x l) = pl_version l" "pl_delivery (delivery_revoked now x l) = pl_delivery l"
  "pl_expires (delivery_revoked now x l) = pl_expires l"
  "pl_revoked (delivery_revoked now x l) = None \<longleftrightarrow> pl_revoked l = None \<and> pl_delivery l \<noteq> Some x"
  by (auto simp: delivery_revoked_def)

lemma revoke_delivery_map: "revoke_delivery_links now x links = map (delivery_revoked now x) links"
  by (simp add: revoke_delivery_links_def delivery_revoked_def)

lemma live_delivery:
  "live_grant h (db\<lparr>ld_links := revoke_delivery_links now x (ld_links db)\<rparr>) c i d e \<longleftrightarrow> live_grant h db c i d e \<and> d \<noteq> Some x"
  by (auto simp: live_grant_def revoke_delivery_map)

lemma refines_delivery:
  assumes "refines_grants h codes ids db g"
  shows "refines_grants h codes ids (db\<lparr>ld_links := revoke_delivery_links now x (ld_links db)\<rparr>)
    (g\<lparr>gr_good := filter (\<lambda>(c, i, d, e). d \<noteq> Some x) (gr_good g)\<rparr>)"
proof (rule refines_in_place [OF assms])
  show "(c, i, d, e) \<in> set (gr_good (g\<lparr>gr_good := filter (\<lambda>(c, i, d, e). d \<noteq> Some x) (gr_good g)\<rparr>)) \<longleftrightarrow>
      live_grant h (db\<lparr>ld_links := revoke_delivery_links now x (ld_links db)\<rparr>) c i d e"
    if "c \<in> codes" "well_formed_code c" for c i d e
    using refinesD(7) [OF assms that] by (simp add: live_delivery)
qed (use refinesD(6) [OF assms] in \<open>auto simp: revoke_delivery_map o_def\<close>)

definition bumped :: "int \<Rightarrow> payroll_item \<Rightarrow> payroll_item" where
  "bumped k i = (if item_id i = k then i\<lparr>item_token_version := version_of i + 1\<rparr> else i)"

lemma bumped_simps [simp]: "item_id (bumped k i) = item_id i"
  "item_token_version (bumped k i) = (if item_id i = k then item_token_version i + 1 else item_token_version i)"
  by (simp_all add: bumped_def version_of_def)

lemma revoke_item_map: "revoke_payslip_links k items = map (bumped k) items"
  by (simp add: revoke_payslip_links_def update_row_def bumped_def)

lemma live_item:
  assumes "refines_grants h codes ids db g"
  shows "live_grant h (db\<lparr>ld_items := revoke_payslip_links k (ld_items db)\<rparr>) c i d e \<longleftrightarrow> live_grant h db c i d e \<and> i \<noteq> k"
proof
  assume "live_grant h (db\<lparr>ld_items := revoke_payslip_links k (ld_items db)\<rparr>) c i d e"
  then obtain l item where l: "l \<in> set (ld_links db)" "pl_hash l = h c" "pl_item l = i" "pl_delivery l = d" "pl_expires l = e"
      "pl_revoked l = None" and item: "item \<in> set (ld_items db)" "item_id item = i" "item_token_version (bumped k item) = pl_version l"
    by (auto simp: live_grant_def revoke_item_map)
  have "i \<noteq> k" using refinesD(6) [OF assms l(1) item(1)] l(3) item(2,3) by auto
  then show "live_grant h db c i d e \<and> i \<noteq> k" using l item unfolding live_grant_def by auto
next
  assume live: "live_grant h db c i d e \<and> i \<noteq> k"
  then obtain l item where l: "l \<in> set (ld_links db)" "pl_hash l = h c" "pl_item l = i" "pl_delivery l = d" "pl_expires l = e"
      "pl_revoked l = None" and item: "item \<in> set (ld_items db)" "item_id item = i" "item_token_version item = pl_version l"
    by (auto simp: live_grant_def)
  have "bumped k item = item" using live item(2) by (simp add: bumped_def)
  then have "item \<in> set (ld_items (db\<lparr>ld_items := revoke_payslip_links k (ld_items db)\<rparr>))"
    using imageI [OF item(1), of "bumped k"] by (simp add: revoke_item_map)
  then show "live_grant h (db\<lparr>ld_items := revoke_payslip_links k (ld_items db)\<rparr>) c i d e"
    using l item(2,3) unfolding live_grant_def by (intro bexI [of _ l] conjI bexI [of _ item]) simp_all
qed

lemma refines_item:
  assumes "refines_grants h codes ids db g"
  shows "refines_grants h codes ids (db\<lparr>ld_items := revoke_payslip_links k (ld_items db)\<rparr>)
    (g\<lparr>gr_good := filter (\<lambda>(c, i, d, e). i \<noteq> k) (gr_good g)\<rparr>)"
proof (rule refines_in_place [OF assms])
  show "(c, i, d, e) \<in> set (gr_good (g\<lparr>gr_good := filter (\<lambda>(c, i, d, e). i \<noteq> k) (gr_good g)\<rparr>)) \<longleftrightarrow>
      live_grant h (db\<lparr>ld_items := revoke_payslip_links k (ld_items db)\<rparr>) c i d e"
    if "c \<in> codes" "well_formed_code c" for c i d e
    using refinesD(7) [OF assms that] by (simp add: live_item [OF assms])
  show "pl_version l \<le> item_token_version item"
    if "l \<in> set (ld_links (db\<lparr>ld_items := revoke_payslip_links k (ld_items db)\<rparr>))"
      "item \<in> set (ld_items (db\<lparr>ld_items := revoke_payslip_links k (ld_items db)\<rparr>))" "item_id item = pl_item l" for l item
  proof -
    from that(2) obtain j where "j \<in> set (ld_items db)" "item = bumped k j" by (auto simp: revoke_item_map)
    then show ?thesis using refinesD(6) [OF assms, of l j] that by auto
  qed
qed (simp_all add: revoke_item_map o_def)

definition code_revoked :: "int \<Rightarrow> string \<Rightarrow> payslip_link \<Rightarrow> payslip_link" where
  "code_revoked now x l = (if pl_hash l = x then l\<lparr>pl_revoked := Some now\<rparr> else l)"

lemma code_revoked_simps [simp]:
  "pl_hash (code_revoked now x l) = pl_hash l" "pl_item (code_revoked now x l) = pl_item l"
  "pl_version (code_revoked now x l) = pl_version l" "pl_delivery (code_revoked now x l) = pl_delivery l"
  "pl_expires (code_revoked now x l) = pl_expires l"
  "pl_revoked (code_revoked now x l) = None \<longleftrightarrow> pl_revoked l = None \<and> pl_hash l \<noteq> x"
  by (auto simp: code_revoked_def)

text \<open>Revoking a code that is unknown or revoked already changes nothing either way.\<close>

lemma refines_code:
  assumes "refines_grants h codes ids db g" "inj_on h codes" "code \<in> codes"
  shows "refines_grants h codes ids (fst (revoke_code h now code db)) (g\<lparr>gr_good := filter (\<lambda>(c, i, d, e). c \<noteq> code) (gr_good g)\<rparr>)"
proof -
  define db' where "db' = fst (revoke_code h now code db)"
  define f where "f = (if db' = db then (\<lambda>l. l) else code_revoked now (h code))"
  have links: "ld_links db' = map f (ld_links db)" "ld_items db' = ld_items db"
    by (auto simp: db'_def f_def revoke_code_def update_row_def code_revoked_def split: option.splits)
  have f: "pl_hash (f l) = pl_hash l" "pl_item (f l) = pl_item l" "pl_version (f l) = pl_version l" for l by (simp_all add: f_def)
  have live: "live_grant h db' c i d e \<longleftrightarrow> live_grant h db c i d e \<and> c \<noteq> code" if c: "c \<in> codes" "well_formed_code c" for c i d e
  proof (cases "db' = db")
    case False
    then have "f = code_revoked now (h code)" by (simp add: f_def)
    moreover have "h c = h code \<longleftrightarrow> c = code" using assms(2,3) c(1) by (auto dest: inj_onD)
    ultimately show ?thesis unfolding live_grant_def links by auto
  next
    case True
    have "\<not> live_grant h db code i d e" if "c = code"
    proof
      assume live: "live_grant h db code i d e"
      then obtain l where l: "l \<in> set (ld_links db)" "pl_hash l = h code" "pl_revoked l = None" by (auto simp: live_grant_def)
      then have "link_of h code (ld_links db) = Some l" using link_of_iff [OF refinesD(4) [OF assms(1)]] by blast
      then have "ld_links db' = map (code_revoked now (h code)) (ld_links db)"
        using l(3) c(2) that by (simp add: db'_def revoke_code_def update_row_def code_revoked_def)
      moreover have "\<not> (\<exists>m\<in>set (map (code_revoked now (h code)) (ld_links db)). pl_hash m = h code \<and> pl_revoked m = None)" by auto
      ultimately show False using True l by auto
    qed
    then show ?thesis using True by auto
  qed
  have "refines_grants h codes ids db' (g\<lparr>gr_good := filter (\<lambda>(c, i, d, e). c \<noteq> code) (gr_good g)\<rparr>)"
  proof (rule refines_in_place [OF assms(1)])
    show "(c, i, d, e) \<in> set (gr_good (g\<lparr>gr_good := filter (\<lambda>(c, i, d, e). c \<noteq> code) (gr_good g)\<rparr>)) \<longleftrightarrow> live_grant h db' c i d e"
      if "c \<in> codes" "well_formed_code c" for c i d e
      using refinesD(7) [OF assms(1) that] live [OF that] by simp
  qed (use refinesD(6) [OF assms(1)] f in \<open>auto simp: links o_def\<close>)
  then show ?thesis by (simp add: db'_def)
qed

text \<open>Minting.\<close>

lemma refines_mint:
  assumes "refines_grants h codes ids db g" "inj_on h codes" "code \<in> codes" "find_item k (ld_items db) = Some item"
  shows "refines_grants h codes ids (fst (mint_payslip_link h days now code item delivery db)) (grant_step ids days (Mint now code k delivery) g)"
proof (cases "code \<in> gr_used g")
  case True
  then have "h code \<in> pl_hash ` set (ld_links db)" using refinesD(3) [OF assms(1)] by blast
  then have "fst (mint_payslip_link h days now code item delivery db) = db"
    by (auto simp: mint_payslip_link_def link_of_None revoke_delivery_map image_image split: option.splits)
  then show ?thesis using True assms(1) by simp
next
  case False
  have item: "item \<in> set (ld_items db)" "item_id item = k"
    using assms(4) find_item_iff [OF refinesD(2) [OF assms(1)]] by blast+
  then have k: "k \<in> set ids" using refinesD(1) [OF assms(1)] by (metis imageI set_map)
  define db1 where "db1 = (case delivery of None \<Rightarrow> db | Some d \<Rightarrow> db\<lparr>ld_links := revoke_delivery_links now d (ld_links db)\<rparr>)"
  define g1 where "g1 = (case delivery of None \<Rightarrow> g | Some x \<Rightarrow> g\<lparr>gr_good := filter (\<lambda>(c, i, d, e). d \<noteq> Some x) (gr_good g)\<rparr>)"
  define link where "link = \<lparr>pl_hash = h code, pl_item = k, pl_delivery = delivery, pl_version = version_of item,
      pl_expires = now + days * 86400, pl_revoked = None, pl_created = now\<rparr>"
  have r1: "refines_grants h codes ids db1 g1"
    using assms(1) refines_delivery [OF assms(1)] by (simp add: db1_def g1_def split: option.split)
  have used: "gr_used g1 = gr_used g" "ld_items db1 = ld_items db" by (simp_all add: g1_def db1_def split: option.split)
  have hnew: "h code \<notin> pl_hash ` set (ld_links db1)"
  proof
    assume "h code \<in> pl_hash ` set (ld_links db1)"
    then obtain c where "c \<in> gr_used g" "h c = h code" using refinesD(3) [OF r1] used by auto
    then show False using False assms(2,3) refinesD(5) [OF assms(1)] by (metis inj_onD subsetD)
  qed
  have db': "fst (mint_payslip_link h days now code item delivery db) = db1\<lparr>ld_links := ld_links db1 @ [link]\<rparr>"
    using hnew item(2) by (auto simp: mint_payslip_link_def link_of_None db1_def link_def Let_def split: option.splits)
  have g': "grant_step ids days (Mint now code k delivery) g =
      g1\<lparr>gr_used := insert code (gr_used g1), gr_good := gr_good g1 @ [(code, k, delivery, now + days * 86400)]\<rparr>"
    using False k by (cases delivery) (simp_all add: g1_def filter_True)
  have live: "live_grant h (db1\<lparr>ld_links := ld_links db1 @ [link]\<rparr>) c i d e \<longleftrightarrow>
      live_grant h db1 c i d e \<or> c = code \<and> i = k \<and> d = delivery \<and> e = now + days * 86400" if "c \<in> codes" for c i d e
  proof -
    have "h c = h code \<longleftrightarrow> c = code" using assms(2,3) that by (auto dest: inj_onD)
    then show ?thesis using item used(2) by (auto simp: live_grant_def link_def version_of_def)
  qed
  have "refines_grants h codes ids (db1\<lparr>ld_links := ld_links db1 @ [link]\<rparr>)
      (g1\<lparr>gr_used := insert code (gr_used g1), gr_good := gr_good g1 @ [(code, k, delivery, now + days * 86400)]\<rparr>)"
    unfolding refines_grants_def
  proof (intro conjI)
    show "\<forall>l\<in>set (ld_links (db1\<lparr>ld_links := ld_links db1 @ [link]\<rparr>)). \<forall>item\<in>set (ld_items (db1\<lparr>ld_links := ld_links db1 @ [link]\<rparr>)).
        item_id item = pl_item l \<longrightarrow> pl_version l \<le> item_token_version item"
    proof (intro ballI impI)
      fix l j assume l: "l \<in> set (ld_links (db1\<lparr>ld_links := ld_links db1 @ [link]\<rparr>))"
        and j: "j \<in> set (ld_items (db1\<lparr>ld_links := ld_links db1 @ [link]\<rparr>))" "item_id j = pl_item l"
      show "pl_version l \<le> item_token_version j"
      proof (cases "l = link")
        case True
        have "find_item k (ld_items db) = Some j"
          using find_item_iff [OF refinesD(2) [OF assms(1)]] j used(2) True by (simp add: link_def)
        then have "j = item" using assms(4) by simp
        then show ?thesis using True by (simp add: link_def version_of_def)
      next
        case False
        then show ?thesis using l j refinesD(6) [OF r1] by auto
      qed
    qed
    show "\<forall>c i d e. c \<in> codes \<and> well_formed_code c \<longrightarrow>
        ((c, i, d, e) \<in> set (gr_good (g1\<lparr>gr_used := insert code (gr_used g1), gr_good := gr_good g1 @ [(code, k, delivery, now + days * 86400)]\<rparr>)) \<longleftrightarrow>
         live_grant h (db1\<lparr>ld_links := ld_links db1 @ [link]\<rparr>) c i d e)"
      using refinesD(7) [OF r1] live by auto
  qed (use refinesD(1-5) [OF r1] hnew assms(3) in \<open>auto simp: link_def\<close>)
  then show ?thesis unfolding db' g' .
qed

lemma refines_step:
  assumes "refines_grants h codes ids db g" "inj_on h codes" "event_codes ev \<subseteq> codes"
  shows "refines_grants h codes ids (link_step h days ev db) (grant_step ids days ev g)"
proof (cases ev)
  case (Mint now code k delivery)
  show ?thesis
  proof (cases "find_item k (ld_items db)")
    case None
    then have "k \<notin> set ids" using refinesD(1) [OF assms(1)] by (auto simp: find_item_None)
    then show ?thesis using None Mint assms(1) by simp
  next
    case (Some item)
    then show ?thesis using refines_mint [OF assms(1,2) _ Some] Mint assms(3) by simp
  qed
next
  case (Revoke_code now code)
  then show ?thesis using refines_code [OF assms(1,2)] assms(3) by simp
qed (use refines_delivery [OF assms(1)] refines_item [OF assms(1)] in simp_all)

lemma refines_history:
  assumes "refines_grants h codes ids db g" "inj_on h codes" "\<Union> (event_codes ` set es) \<subseteq> codes"
  shows "refines_grants h codes ids (foldl (\<lambda>db ev. link_step h days ev db) db es) (foldl (\<lambda>g ev. grant_step ids days ev g) g es)"
  using assms
proof (induction es arbitrary: db g)
  case (Cons ev es)
  then show ?case using refines_step [OF Cons.prems(1,2)] by simp
qed simp

lemma resolve_live:
  assumes "refines_grants h codes ids db g" "well_formed_code code"
  shows "resolve_payslip_link h now code db = Some item \<longleftrightarrow>
    item \<in> set (ld_items db) \<and> (\<exists>d e. live_grant h db code (item_id item) d e \<and> now < e)"
proof
  assume r: "resolve_payslip_link h now code db = Some item"
  then obtain l where l: "link_of h code (ld_links db) = Some l" "pl_revoked l = None" "now < pl_expires l"
      "find_item (pl_item l) (ld_items db) = Some item" "pl_version l = version_of item"
    by (auto simp: resolve_payslip_link_def split: if_splits option.splits)
  then show "item \<in> set (ld_items db) \<and> (\<exists>d e. live_grant h db code (item_id item) d e \<and> now < e)"
    using link_of_iff [OF refinesD(4) [OF assms(1)]] find_item_iff [OF refinesD(2) [OF assms(1)]]
    unfolding live_grant_def version_of_def by (intro conjI exI [of _ "pl_delivery l"] exI [of _ "pl_expires l"] bexI [of _ l]) auto
next
  assume "item \<in> set (ld_items db) \<and> (\<exists>d e. live_grant h db code (item_id item) d e \<and> now < e)"
  then obtain l j where l: "l \<in> set (ld_links db)" "pl_hash l = h code" "pl_item l = item_id item" "pl_revoked l = None" "now < pl_expires l"
    and j: "j \<in> set (ld_items db)" "item_id j = item_id item" "item_token_version j = pl_version l" and item: "item \<in> set (ld_items db)"
    by (auto simp: live_grant_def)
  have find: "find_item (item_id item) (ld_items db) = Some i \<longleftrightarrow> i \<in> set (ld_items db) \<and> item_id i = item_id item" for i
    by (rule find_item_iff [OF refinesD(2) [OF assms(1)]])
  have "j = item" using find [of j] find [of item] j item by simp
  moreover have "link_of h code (ld_links db) = Some l" using link_of_iff [OF refinesD(4) [OF assms(1)]] l by blast
  ultimately show "resolve_payslip_link h now code db = Some item"
    using assms(2) l j find [of item] item by (simp add: resolve_payslip_link_def version_of_def)
qed

text \<open>
  C39: a short code opens exactly what it was granted for.  After any history of mintings, resends
  and revocations, in which no two codes collide under the keyed hash, a code opens a payslip
  exactly when it is well formed and still good for that payslip: minted for it, not expired,
  and since then neither revoked, nor replaced by a newer code for the same delivery, nor
  cancelled by the revocation of all links of the payslip.
\<close>
theorem short_codes_refine_grants:
  assumes "distinct (map item_id items)" "inj_on h (insert code (\<Union> (event_codes ` set es)))"
    and "db = foldl (\<lambda>db ev. link_step h days ev db) \<lparr>ld_items = items, ld_links = []\<rparr> es"
    and "g = foldl (\<lambda>g ev. grant_step (map item_id items) days ev g) \<lparr>gr_used = {}, gr_good = []\<rparr> es"
  shows "resolve_payslip_link h now code db = Some item \<longleftrightarrow>
    well_formed_code code \<and> item \<in> set (ld_items db) \<and> (\<exists>d e. (code, item_id item, d, e) \<in> set (gr_good g) \<and> now < e)"
proof -
  let ?codes = "insert code (\<Union> (event_codes ` set es))"
  have "refines_grants h ?codes (map item_id items) \<lparr>ld_items = items, ld_links = []\<rparr> \<lparr>gr_used = {}, gr_good = []\<rparr>"
    using assms(1) by (simp add: refines_grants_def live_grant_def)
  from refines_history [OF this assms(2), of es days] have r: "refines_grants h ?codes (map item_id items) db g"
    unfolding assms(3,4) by blast
  show ?thesis
  proof (cases "well_formed_code code")
    case True
    with resolve_live [OF r True] refinesD(7) [OF r _ True] show ?thesis by auto
  qed (simp add: resolve_payslip_link_def)
qed

subsection \<open>Revoking the signed tokens\<close>

lemma find_revoked: "find_item j (revoke_payslip_links k items) = map_option (bumped k) (find_item j items)"
  unfolding find_item_def revoke_item_map by (induction items) auto

text \<open>
  Revoking a payslip's links kills every token issued for it before, and no other.  With a
  signature that gives back the payload it signed, a token issued for a payslip at any earlier
  version resolves to nothing after the revocation, the next token resolves to the payslip, and
  every token of another payslip resolves as before.
\<close>
theorem revocation_kills_tokens:
  assumes "distinct (map item_id items)" "item \<in> set items" "item' \<in> set items" "item_id item' \<noteq> item_id item"
    and "\<And>p t. loads (dumps p t) max_age now = (if now \<le> t + max_age then Some p else None)"
    and "now \<le> t + max_age" "now \<le> t' + max_age" "v \<le> version_of item"
    and "after = revoke_payslip_links (item_id item) items"
  shows "resolve_payslip_item loads max_age now (dumps (Payload (Some (item_id item)) (Some v)) t0) after = None \<and>
    resolve_payslip_item loads max_age now (issue_payslip_token dumps t (Inr (item_id item)) after) after = Some (bumped (item_id item) item) \<and>
    resolve_payslip_item loads max_age now (issue_payslip_token dumps t' (Inl item') items) after = Some item'"
proof (intro conjI)
  have found: "find_item (item_id i) after = Some (bumped (item_id item) i)" if "i \<in> set items" for i
  proof -
    have "find_item (item_id i) items = Some i" using that find_item_iff [OF assms(1)] by blast
    then show ?thesis by (simp add: assms(9) find_revoked)
  qed
  show "resolve_payslip_item loads max_age now (dumps (Payload (Some (item_id item)) (Some v)) t0) after = None"
    using assms(5,8) found [OF assms(2)] by (simp add: resolve_payslip_item_def version_of_def)
  show "resolve_payslip_item loads max_age now (issue_payslip_token dumps t (Inr (item_id item)) after) after = Some (bumped (item_id item) item)"
    using assms(5,6) found [OF assms(2)] by (simp add: resolve_payslip_item_def issue_payslip_token_def identify_def)
  show "resolve_payslip_item loads max_age now (issue_payslip_token dumps t' (Inl item') items) after = Some item'"
    using assms(4,5,7) found [OF assms(3)] by (simp add: resolve_payslip_item_def issue_payslip_token_def identify_def bumped_def)
qed

subsection \<open>A concrete history\<close>

definition link_item :: "int \<Rightarrow> payroll_item" where
  "link_item k = \<lparr>item_id = k, item_run = 1, item_employee = None, item_staff_id = None, item_full_name = None, item_email = None,
     item_momo_number = None, item_bank_branch = None, item_money = (\<lambda>_. None), item_validation_status = ''Valid'',
     item_warning_notes = None, item_token_version = 0\<rparr>"

text \<open>A payslip is sent twice: the first code is dead, the second opens it until it expires.\<close>

lemma short_codes_refine_grants_witness:
  "let db = foldl (\<lambda>db ev. link_step (\<lambda>c. c) 30 ev db) \<lparr>ld_items = [link_item 4], ld_links = []\<rparr>
         [Mint 0 ''aaaaaaaaaaaa'' 4 (Some 9), Mint 50 ''bbbbbbbbbbbb'' 4 (Some 9)]
   in resolve_payslip_link (\<lambda>c. c) 60 ''aaaaaaaaaaaa'' db = None \<and> resolve_payslip_link (\<lambda>c. c) 60 ''bbbbbbbbbbbb'' db \<noteq> None"
proof -
  let ?es = "[Mint 0 ''aaaaaaaaaaaa'' 4 (Some 9), Mint 50 ''bbbbbbbbbbbb'' 4 (Some 9)]"
  define db where "db = foldl (\<lambda>db ev. link_step (\<lambda>c. c) 30 ev db) \<lparr>ld_items = [link_item 4], ld_links = []\<rparr> ?es"
  define g where "g = foldl (\<lambda>g ev. grant_step (map item_id [link_item 4]) 30 ev g) \<lparr>gr_used = {}, gr_good = []\<rparr> ?es"
  have g: "gr_good g = [(''bbbbbbbbbbbb'', 4, Some 9, 2592050)]" by (simp add: g_def link_item_def)
  have items: "ld_items db = [link_item 4]"
    by (simp add: db_def link_item_def find_item_def mint_payslip_link_def revoke_delivery_links_def link_of_def Let_def)
  have wf: "well_formed_code ''bbbbbbbbbbbb''"
    by (simp add: well_formed_code_def CODE_LENGTH_def ALPHABET_def lower_letters_def upper_letters_def)
  have d: "distinct (map item_id [link_item 4])" by simp
  have inj: "inj_on (\<lambda>c. c) (insert code (\<Union> (event_codes ` set ?es)))" for code by simp
  note codes = short_codes_refine_grants [OF d inj db_def g_def, of 60, unfolded g items]
  have "resolve_payslip_link (\<lambda>c. c) 60 ''aaaaaaaaaaaa'' db \<noteq> Some i" for i
    using codes [of "''aaaaaaaaaaaa''" i] by simp
  moreover have "resolve_payslip_link (\<lambda>c. c) 60 ''bbbbbbbbbbbb'' db = Some (link_item 4)"
    using codes [of "''bbbbbbbbbbbb''" "link_item 4"] wf by (simp add: link_item_def)
  ultimately show ?thesis unfolding db_def [symmetric] Let_def by (metis option.distinct(1) option.exhaust)
qed

text \<open>Tokens as pairs of payload and time: the old one is dead, the new one and another payslip's open.\<close>

lemma revocation_kills_tokens_witness:
  "let items = [link_item 4, link_item 5]; after = revoke_payslip_links 4 items;
       dumps = (\<lambda>p t. (p, t)); loads = (\<lambda>(p, t) max_age now. if now \<le> t + max_age then Some p else None)
   in resolve_payslip_item loads 100 60 (dumps (Payload (Some 4) (Some 0)) (50 :: int)) after = None \<and>
      resolve_payslip_item loads 100 60 (issue_payslip_token dumps 55 (Inr 4) after) after = Some (bumped 4 (link_item 4)) \<and>
      resolve_payslip_item loads 100 60 (issue_payslip_token dumps 50 (Inl (link_item 5)) items) after = Some (link_item 5)"
  using revocation_kills_tokens [of "[link_item 4, link_item 5]" "link_item 4" "link_item 5"
      "\<lambda>(p, t) max_age now. if now \<le> t + max_age then Some p else None" "\<lambda>p t. (p, t)" 100 60 55 50 0 _ 50, OF _ _ _ _ _ _ _ _ refl]
  by (simp add: Let_def link_item_def version_of_def)

end
