(* ===== verification/Throttle.thy ===== *)
theory Throttle
  imports Money PyText
begin

text \<open>
  The three in-process limiters: requests of public routes (\<open>app/distribution/request_limit.py\<close>),
  login attempts (\<open>app/login_throttle.py\<close> and its use in \<open>app/auth.py\<close>) and the pace of a channel
  (\<open>app/distribution/throttle.py\<close>).  The clock is \<open>time.monotonic\<close>, a float; each operation runs
  under its lock, as one step, and a login takes two of them, between which other threads may run.
\<close>

subsection \<open>Requests\<close>

type_synonym hit_key = "string \<times> string"

text \<open>The dictionary in insertion order: a key and its timestamps, oldest first.\<close>

record hit_entry =
  he_key :: hit_key
  he_hits :: "rat list"

definition MAX_TRACKED_KEYS :: nat where "MAX_TRACKED_KEYS = 10000"

definition hits_of :: "hit_key \<Rightarrow> hit_entry list \<Rightarrow> rat list" where
  "hits_of k st = (case first_row (\<lambda>e. he_key e = k) st of None \<Rightarrow> [] | Some e \<Rightarrow> he_hits e)"

definition prune_hits :: "rat \<Rightarrow> hit_entry list \<Rightarrow> hit_entry list" where
  "prune_hits window_start st = filter (\<lambda>e. \<not> (he_hits e = [] \<or> last (he_hits e) \<le> window_start)) st"

definition store_hits :: "hit_key \<Rightarrow> rat list \<Rightarrow> hit_entry list \<Rightarrow> hit_entry list" where
  "store_hits k hits st =
     (if first_row (\<lambda>e. he_key e = k) st = None then st @ [\<lparr>he_key = k, he_hits = hits\<rparr>]
      else update_row he_key k (\<lambda>e. e\<lparr>he_hits := hits\<rparr>) st)"

definition allow :: "hit_key \<Rightarrow> int \<Rightarrow> rat \<Rightarrow> hit_entry list \<Rightarrow> hit_entry list \<times> bool" where
  "allow k per_minute current st =
     (if per_minute \<le> 0 then (st, True)
      else
        let window_start = fsub current 60;
            st = (if length st \<ge> MAX_TRACKED_KEYS then prune_hits window_start st else st);
            hits = dropWhile (\<lambda>t. t \<le> window_start) (hits_of k st)
        in if int (length hits) \<ge> per_minute then (store_hits k hits st, False)
           else (store_hits k (hits @ [current]) st, True))"

subsection \<open>Logins\<close>

record attempt_entry =
  ae_key :: string
  ae_failures :: int
  ae_first_at :: rat
  ae_locked_until :: "rat option"

record login_config =
  lc_limit :: int
  lc_window :: int
  lc_lock :: int

definition entry_of :: "string \<Rightarrow> attempt_entry list \<Rightarrow> attempt_entry option" where
  "entry_of k st = first_row (\<lambda>e. ae_key e = k) st"

definition ip_key :: "string \<Rightarrow> string" where
  "ip_key address = ''ip:'' @ (if address = [] then ''unknown'' else address)"

definition account_key :: "string \<Rightarrow> string" where
  "account_key email = ''account:'' @ lower (strip email)"

text \<open>An entry that is neither locked nor inside its window.\<close>

definition expired_entry :: "login_config \<Rightarrow> rat \<Rightarrow> attempt_entry \<Rightarrow> bool" where
  "expired_entry cfg now e \<longleftrightarrow>
     \<not> (case ae_locked_until e of None \<Rightarrow> False | Some t \<Rightarrow> t > now) \<and> \<not> fsub now (ae_first_at e) < of_int (lc_window cfg)"

definition prune_attempts :: "login_config \<Rightarrow> rat \<Rightarrow> attempt_entry list \<Rightarrow> attempt_entry list" where
  "prune_attempts cfg now st = filter (\<lambda>e. \<not> expired_entry cfg now e) st"

definition retry_after :: "rat \<Rightarrow> string list \<Rightarrow> attempt_entry list \<Rightarrow> rat" where
  "retry_after now keys st =
     foldl (\<lambda>longest k. case entry_of k st of
         None \<Rightarrow> longest
       | Some e \<Rightarrow> (case ae_locked_until e of
             None \<Rightarrow> longest
           | Some t \<Rightarrow> if t > now then max longest (fsub t now) else longest)) 0 keys"

text \<open>One failure of one key: a fresh window when there is none or it aged out, a fresh count when a lock ran out.\<close>

definition count_failure :: "login_config \<Rightarrow> rat \<Rightarrow> string \<Rightarrow> attempt_entry option \<Rightarrow> attempt_entry" where
  "count_failure cfg now k entry =
     (let fresh = \<lparr>ae_key = k, ae_failures = 0, ae_first_at = now, ae_locked_until = None\<rparr>;
          e = (case entry of
                 None \<Rightarrow> fresh
               | Some e \<Rightarrow> if ae_locked_until e = None \<and> fsub now (ae_first_at e) \<ge> of_int (lc_window cfg) then fresh else e);
          e = (case ae_locked_until e of
                 None \<Rightarrow> e
               | Some t \<Rightarrow> if t \<le> now then e\<lparr>ae_failures := 0, ae_first_at := now, ae_locked_until := None\<rparr> else e);
          e = e\<lparr>ae_failures := ae_failures e + 1\<rparr>
      in if ae_failures e \<ge> lc_limit cfg then e\<lparr>ae_locked_until := Some (fadd now (of_int (lc_lock cfg)))\<rparr> else e)"

definition store_entry :: "attempt_entry \<Rightarrow> attempt_entry list \<Rightarrow> attempt_entry list" where
  "store_entry e st = (if entry_of (ae_key e) st = None then st @ [e] else update_row ae_key (ae_key e) (\<lambda>_. e) st)"

fun register_keys :: "login_config \<Rightarrow> rat \<Rightarrow> string list \<Rightarrow> attempt_entry list \<Rightarrow> attempt_entry list \<times> bool" where
  "register_keys cfg now [] st = (st, False)"
| "register_keys cfg now (k # ks) st =
     (let e = count_failure cfg now k (entry_of k st);
          (st', locked) = register_keys cfg now ks (store_entry e st)
      in (st', ae_failures e \<ge> lc_limit cfg \<or> locked))"

definition register_failure :: "login_config \<Rightarrow> rat \<Rightarrow> string list \<Rightarrow> attempt_entry list \<Rightarrow> attempt_entry list \<times> bool" where
  "register_failure cfg now keys st =
     register_keys cfg now keys (if length st \<ge> MAX_TRACKED_KEYS then prune_attempts cfg now st else st)"

definition clear_keys :: "string list \<Rightarrow> attempt_entry list \<Rightarrow> attempt_entry list" where
  "clear_keys keys st = filter (\<lambda>e. ae_key e \<notin> set keys) st"

text \<open>
  The login route reads the clock and takes the lock twice: once to check the keys before the
  lookup, which may end the request, and once to count the outcome of the password.
\<close>

datatype login_reply = Login_blocked | Login_success | Login_failure bool

definition login_keys :: "string \<Rightarrow> string \<Rightarrow> string list" where
  "login_keys address email = [ip_key address, account_key (lower (strip email))]"

definition login_check :: "rat \<Rightarrow> string \<Rightarrow> string \<Rightarrow> attempt_entry list \<Rightarrow> login_reply option" where
  "login_check now address email st = (if retry_after now (login_keys address email) st > 0 then Some Login_blocked else None)"

definition login_finish :: "login_config \<Rightarrow> rat \<Rightarrow> string \<Rightarrow> string \<Rightarrow> bool \<Rightarrow> attempt_entry list \<Rightarrow> attempt_entry list \<times> login_reply" where
  "login_finish cfg now address email credentials_ok st =
     (if credentials_ok then (clear_keys [account_key (lower (strip email))] st, Login_success)
      else (case register_failure cfg now (login_keys address email) st of (st', locked) \<Rightarrow> (st', Login_failure locked)))"

subsection \<open>The pace of a channel\<close>

text \<open>The time of the next free slot per channel, and the seconds waited.\<close>

definition throttle :: "(string \<Rightarrow> rat) \<Rightarrow> string \<Rightarrow> rat \<Rightarrow> (string \<rightharpoonup> rat) \<Rightarrow> (string \<rightharpoonup> rat) \<times> rat" where
  "throttle rate_per_sec channel current slots =
     (let rate = rate_per_sec channel
      in if rate \<le> 0 then (slots, 0)
         else
           let min_interval = fdiv 1 rate;
               earliest = (case slots channel of None \<Rightarrow> current | Some t \<Rightarrow> t);
               start = max current earliest
           in (slots(channel \<mapsto> fadd start min_interval), fsub start current))"

subsection \<open>The sliding window of requests\<close>

lemma fl_mono: "x \<le> y \<Longrightarrow> fl x \<le> fl y"
  unfolding fl_def by (rule sig_round_mono) simp_all

lemma fsub_mono: "a \<le> b \<Longrightarrow> fsub a c \<le> fsub b c"
  unfolding fsub_def by (rule fl_mono) simp

text \<open>A history of calls, and which of them were counted.\<close>

record call =
  cl_key :: hit_key
  cl_limit :: int
  cl_at :: rat

fun counted :: "call list \<Rightarrow> hit_entry list \<Rightarrow> (hit_key \<times> rat) list" where
  "counted [] st = []"
| "counted (c # cs) st =
     (case allow (cl_key c) (cl_limit c) (cl_at c) st of
        (st', granted) \<Rightarrow> (if granted \<and> cl_limit c > 0 then [(cl_key c, cl_at c)] else []) @ counted cs st')"

definition after_calls :: "call list \<Rightarrow> hit_entry list \<Rightarrow> hit_entry list" where
  "after_calls cs st = foldl (\<lambda>st c. fst (allow (cl_key c) (cl_limit c) (cl_at c) st)) st cs"

text \<open>The table remembers of the counted requests at least those of the current minute.\<close>

definition remembers :: "rat \<Rightarrow> (hit_key \<times> rat) list \<Rightarrow> hit_entry list \<Rightarrow> bool" where
  "remembers now grants st \<longleftrightarrow>
     distinct (map he_key st) \<and> (\<forall>e\<in>set st. sorted (he_hits e) \<and> (\<forall>t\<in>set (he_hits e). t \<le> now)) \<and>
     (\<forall>k s. fsub now 60 \<le> s \<longrightarrow>
        length (filter (\<lambda>t. s < t) (hits_of k st)) = length (filter (\<lambda>(j, t). j = k \<and> s < t) grants))"

lemma hits_store: "hits_of j (store_hits k hits st) = (if j = k then hits else hits_of j st)"
  by (auto simp: hits_of_def store_hits_def first_row_append first_row_update_row [where key = he_key]
      split: option.splits dest: first_row_SomeD)

lemma keys_store: "distinct (map he_key st) \<Longrightarrow> distinct (map he_key (store_hits k hits st))"
proof -
  have "map he_key (update_row he_key k (\<lambda>e. e\<lparr>he_hits := hits\<rparr>) st) = map he_key st" by (rule keys_update_row) simp
  moreover assume "distinct (map he_key st)"
  ultimately show ?thesis by (auto simp: store_hits_def first_row_None_iff)
qed

lemma set_store: "e \<in> set (store_hits k hits st) \<Longrightarrow> e \<in> set st \<or> he_hits e = hits"
  by (auto simp: store_hits_def update_row_def split: if_splits)

lemma hits_filter:
  "distinct (map he_key st) \<Longrightarrow>
     hits_of k (filter P st) = (case first_row (\<lambda>e. he_key e = k) st of None \<Rightarrow> [] | Some e \<Rightarrow> if P e then he_hits e else [])"
  by (auto simp: hits_of_def first_row_filter split: option.split)

lemma hits_in: "hits_of k st \<noteq> [] \<Longrightarrow> \<exists>e\<in>set st. hits_of k st = he_hits e"
  by (auto simp: hits_of_def split: option.splits dest: first_row_SomeD)

lemma dropWhile_sorted: "sorted xs \<Longrightarrow> dropWhile (\<lambda>t. t \<le> w) xs = filter (\<lambda>t. w < t) xs" for w :: "'a :: linorder"
  by (induction xs) (auto intro!: sym [OF filter_True] intro: order_less_le_trans)

lemma sorted_last: "sorted xs \<Longrightarrow> t \<in> set xs \<Longrightarrow> t \<le> last xs" for t :: "'a :: linorder"
  by (induction xs) auto

text \<open>Forgetting idle keys loses no request of the current minute.\<close>

lemma prune_keeps:
  assumes "distinct (map he_key st)" "\<forall>e\<in>set st. sorted (he_hits e)" "w \<le> s"
  shows "filter (\<lambda>t. s < t) (hits_of k (prune_hits w st)) = filter (\<lambda>t. s < t) (hits_of k st)"
proof (cases "first_row (\<lambda>e. he_key e = k) st")
  case (Some e)
  have "filter (\<lambda>t. s < t) (he_hits e) = []" if "he_hits e = [] \<or> last (he_hits e) \<le> w"
  proof -
    have "sorted (he_hits e)" using assms(2) first_row_SomeD [OF Some] by blast
    then have "t \<le> w" if "t \<in> set (he_hits e)" for t
      using sorted_last [OF _ that] that \<open>he_hits e = [] \<or> last (he_hits e) \<le> w\<close> by fastforce
    then show ?thesis using assms(3) by (fastforce simp: filter_empty_conv)
  qed
  then show ?thesis using Some by (auto simp: prune_hits_def hits_filter [OF assms(1)] hits_of_def [of k st])
qed (simp add: prune_hits_def hits_filter [OF assms(1)] hits_of_def [of k st])

lemma allow_step:
  assumes "remembers now grants st" "now \<le> T" "allow k limit T st = (st', granted)"
  shows "granted \<longleftrightarrow> limit \<le> 0 \<or> int (length (filter (\<lambda>(j, t). j = k \<and> fsub T 60 < t) grants)) < limit"
    and "remembers T (grants @ (if granted \<and> limit > 0 then [(k, T)] else [])) st'"
proof -
  let ?w = "fsub T 60"
  note table = assms(1)[unfolded remembers_def]
  have w: "fsub now 60 \<le> ?w" using assms(2) by (rule fsub_mono)
  define st1 where "st1 = (if length st \<ge> MAX_TRACKED_KEYS then prune_hits ?w st else st)"
  define hits where "hits = dropWhile (\<lambda>t. t \<le> ?w) (hits_of k st1)"
  have st1: "distinct (map he_key st1)" "\<forall>e\<in>set st1. sorted (he_hits e) \<and> (\<forall>t\<in>set (he_hits e). t \<le> now)"
    using table by (auto simp: st1_def prune_hits_def distinct_map_filter)
  have same: "filter (\<lambda>t. s < t) (hits_of j st1) = filter (\<lambda>t. s < t) (hits_of j st)" if "?w \<le> s" for s j
    using prune_keeps [of st ?w s j] table that by (auto simp: st1_def)
  have sorted: "sorted (hits_of j st1)" "\<forall>t\<in>set (hits_of j st1). t \<le> now" for j
    using st1(2) hits_in [of j st1] by (cases "hits_of j st1 = []"; fastforce)+
  have hits: "hits = filter (\<lambda>t. ?w < t) (hits_of k st1)" unfolding hits_def by (rule dropWhile_sorted [OF sorted(1)])
  have counts: "length (filter (\<lambda>t. s < t) (hits_of j st)) = length (filter (\<lambda>(i, t). i = j \<and> s < t) grants)"
    if "fsub now 60 \<le> s" for s j using table that by blast
  have count: "length (filter (\<lambda>t. s < t) (hits_of j st1)) = length (filter (\<lambda>(i, t). i = j \<and> s < t) grants)" if "?w \<le> s" for s j
    using same [OF that, of j] counts [of s j] w that by simp
  have form: "allow k limit T st = (if limit \<le> 0 then (st, True) else if int (length hits) \<ge> limit then (store_hits k hits st1, False)
      else (store_hits k (hits @ [T]) st1, True))"
    unfolding allow_def Let_def hits_def st1_def by (rule refl)
  show g: "granted \<longleftrightarrow> limit \<le> 0 \<or> int (length (filter (\<lambda>(j, t). j = k \<and> ?w < t) grants)) < limit"
    using assms(3) count [of ?w k] by (auto simp: form hits split: if_splits)
  define new where "new = (if granted \<and> limit > 0 then [T] else [])"
  show "remembers T (grants @ (if granted \<and> limit > 0 then [(k, T)] else [])) st'"
  proof (cases "limit \<le> 0")
    case True
    then have "st' = st" using assms(3) by (simp add: allow_def)
    then show ?thesis using True table w assms(2) by (fastforce simp: remembers_def)
  next
    case False
    then have st': "st' = store_hits k (hits @ new) st1"
      using assms(3) by (auto simp: form new_def split: if_splits)
    have old: "sorted (hits @ new)" "\<forall>t\<in>set (hits @ new). t \<le> T"
      using sorted [of k] assms(2) by (auto simp: hits new_def sorted_append intro: sorted_filter [where f = "\<lambda>t. t", simplified])
    show ?thesis unfolding remembers_def
    proof (intro conjI)
      show "distinct (map he_key st')" unfolding st' by (rule keys_store [OF st1(1)])
      show "\<forall>e\<in>set st'. sorted (he_hits e) \<and> (\<forall>t\<in>set (he_hits e). t \<le> T)"
        using set_store [of _ k "hits @ new" st1] st1(2) old assms(2) unfolding st' by fastforce
      show "\<forall>j s. ?w \<le> s \<longrightarrow> length (filter (\<lambda>t. s < t) (hits_of j st')) =
          length (filter (\<lambda>(i, t). i = j \<and> s < t) (grants @ (if granted \<and> limit > 0 then [(k, T)] else [])))"
      proof (intro allI impI)
        fix j s assume s: "?w \<le> s"
        have "filter (\<lambda>t. s < t) hits = filter (\<lambda>t. s < t) (hits_of k st1)" using s by (auto simp: hits filter_filter intro!: filter_cong)
        then show "length (filter (\<lambda>t. s < t) (hits_of j st')) =
            length (filter (\<lambda>(i, t). i = j \<and> s < t) (grants @ (if granted \<and> limit > 0 then [(k, T)] else [])))"
          using count [OF s, of j] count [OF s, of k] by (auto simp: st' hits_store new_def)
      qed
    qed
  qed
qed

lemma remembers_later:
  assumes "remembers now grants st" "now \<le> T"
  shows "remembers T grants st"
  using assms fsub_mono [OF assms(2), of 60] unfolding remembers_def by fastforce

lemma calls_remembered:
  assumes "remembers now grants st" "sorted (now # map cl_at (cs @ [c]))"
  shows "remembers (cl_at c) (grants @ counted cs st) (after_calls cs st)"
  using assms
proof (induction cs arbitrary: now grants st)
  case Nil
  then show ?case using remembers_later by (simp add: after_calls_def)
next
  case (Cons d cs)
  obtain st' granted where a: "allow (cl_key d) (cl_limit d) (cl_at d) st = (st', granted)" by fastforce
  have "now \<le> cl_at d" using Cons.prems(2) by simp
  from allow_step(2) [OF Cons.prems(1) this a] have "remembers (cl_at d) (grants @ (if granted \<and> cl_limit d > 0 then [(cl_key d, cl_at d)] else [])) st'" .
  from Cons.IH [OF this] Cons.prems(2) show ?case by (simp add: after_calls_def a)
qed

text \<open>
  The request limit is an exact sliding minute.  After any history of requests in time
  order, of any keys, a request is served exactly when fewer than its limit of requests of its
  key were served in the sixty seconds before it; refused requests never count, and forgetting
  idle keys when the table is full changes no answer.
\<close>
theorem sliding_minute:
  assumes "sorted (map cl_at (cs @ [c]))"
  shows "snd (allow (cl_key c) (cl_limit c) (cl_at c) (after_calls cs [])) \<longleftrightarrow>
    cl_limit c \<le> 0 \<or> int (length (filter (\<lambda>(k, t). k = cl_key c \<and> fsub (cl_at c) 60 < t) (counted cs []))) < cl_limit c"
proof -
  obtain now where now: "sorted (now # map cl_at (cs @ [c]))"
  proof (cases "map cl_at (cs @ [c])")
    case (Cons t ts)
    then show ?thesis using assms that [of t] by auto
  qed simp
  have "remembers now [] []" by (simp add: remembers_def hits_of_def)
  from calls_remembered [OF this now] have r: "remembers (cl_at c) (counted cs []) (after_calls cs [])" by simp
  obtain st' granted where "allow (cl_key c) (cl_limit c) (cl_at c) (after_calls cs []) = (st', granted)" by fastforce
  with allow_step(1) [OF r order_refl this] show ?thesis by simp
qed

text \<open>Two requests a minute: the third within the minute is refused, and served after the first has aged.\<close>

lemma sliding_minute_witness:
  "let hit = (\<lambda>t. \<lparr>cl_key = (''payslip-link'', ''x''), cl_limit = 2, cl_at = t\<rparr>); st = after_calls [hit 0, hit 30] []
   in \<not> snd (allow (''payslip-link'', ''x'') 2 59 st) \<and> snd (allow (''payslip-link'', ''x'') 2 60 st)"
proof -
  define hit where "hit = (\<lambda>t. \<lparr>cl_key = (''payslip-link'', ''x''), cl_limit = 2, cl_at = t\<rparr>)"
  have f: "fsub 0 60 = - 60" "fsub 30 60 = - 30" "fsub 59 60 = - 1" "fsub 60 60 = 0"
    using fl_of_int [of "- 60"] fl_of_int [of "- 30"] fl_of_int [of "- 1"] fl_of_int [of 0] by (simp_all add: fsub_def)
  have c: "counted [hit 0, hit 30] [] = [((''payslip-link'', ''x''), 0), ((''payslip-link'', ''x''), 30)]"
    by (simp add: hit_def allow_def hits_of_def store_hits_def MAX_TRACKED_KEYS_def f Let_def)
  have h: "cl_key (hit t) = (''payslip-link'', ''x'')" "cl_limit (hit t) = 2" "cl_at (hit t) = t" for t by (simp_all add: hit_def)
  have "\<not> snd (allow (''payslip-link'', ''x'') 2 59 (after_calls [hit 0, hit 30] []))"
    using sliding_minute [of "[hit 0, hit 30]" "hit 59", unfolded c h f] by (simp add: h)
  moreover have "snd (allow (''payslip-link'', ''x'') 2 60 (after_calls [hit 0, hit 30] []))"
    using sliding_minute [of "[hit 0, hit 30]" "hit 60", unfolded c h f] by (simp add: h)
  ultimately show ?thesis unfolding hit_def [symmetric] Let_def by blast
qed

subsection \<open>How many passwords can be tried\<close>

lemma entry_filter:
  "distinct (map ae_key st) \<Longrightarrow>
     entry_of k (filter P st) = (case entry_of k st of None \<Rightarrow> None | Some e \<Rightarrow> if P e then Some e else None)"
  unfolding entry_of_def by (rule first_row_filter)

lemma entry_store: "entry_of k (store_entry e st) = (if k = ae_key e then Some e else entry_of k st)"
  by (auto simp: entry_of_def store_entry_def first_row_append first_row_update_row [where key = ae_key]
      split: option.splits dest: first_row_SomeD)

lemma keys_store_entry: "distinct (map ae_key st) \<Longrightarrow> distinct (map ae_key (store_entry e st))"
proof -
  have "map ae_key (update_row ae_key (ae_key e) (\<lambda>_. e) st) = map ae_key st" by (rule keys_update_row) simp
  moreover assume "distinct (map ae_key st)"
  ultimately show ?thesis by (auto simp: store_entry_def entry_of_def first_row_None_iff)
qed

lemma count_failure_key: "(case entry of None \<Rightarrow> True | Some e \<Rightarrow> ae_key e = k) \<Longrightarrow> ae_key (count_failure cfg now k entry) = k"
  by (auto simp: count_failure_def Let_def split: option.splits)

lemma entry_key: "entry_of k st = Some e \<Longrightarrow> ae_key e = k"
  by (auto simp: entry_of_def dest: first_row_SomeD)

definition lock_left :: "rat \<Rightarrow> attempt_entry list \<Rightarrow> string \<Rightarrow> rat" where
  "lock_left now st k = (case entry_of k st of None \<Rightarrow> 0
     | Some e \<Rightarrow> (case ae_locked_until e of None \<Rightarrow> 0 | Some t \<Rightarrow> if t > now then fsub t now else 0))"

lemma lock_left_pos: "lock_left now st k > 0 \<longleftrightarrow> (\<exists>e t. entry_of k st = Some e \<and> ae_locked_until e = Some t \<and> now < t)"
  by (auto simp: lock_left_def fsub_def b64.pos_iff split: option.splits)

lemma lock_left_nonneg: "lock_left now st k \<ge> 0"
  using lock_left_pos [of now st k] by (auto simp: lock_left_def fsub_def b64.pos_iff less_imp_le split: option.splits)

lemma retry_after_max: "retry_after now keys st = foldl (\<lambda>m k. max m (lock_left now st k)) 0 keys"
proof -
  have "foldl (\<lambda>longest k. case entry_of k st of
         None \<Rightarrow> longest
       | Some e \<Rightarrow> (case ae_locked_until e of
             None \<Rightarrow> longest
           | Some t \<Rightarrow> if t > now then max longest (fsub t now) else longest)) x keys =
      foldl (\<lambda>m k. max m (lock_left now st k)) x keys" if "0 \<le> x" for x
    using that
  proof (induction keys arbitrary: x)
    case (Cons k keys)
    have "(case entry_of k st of None \<Rightarrow> x | Some e \<Rightarrow> (case ae_locked_until e of None \<Rightarrow> x
           | Some t \<Rightarrow> if t > now then max x (fsub t now) else x)) = max x (lock_left now st k)"
      using Cons.prems by (auto simp: lock_left_def split: option.split)
    then show ?case using Cons.IH [of "max x (lock_left now st k)"] Cons.prems by simp
  qed simp
  then show ?thesis by (simp add: retry_after_def)
qed

lemma foldl_max_pos: "(0 :: rat) \<le> x \<Longrightarrow> foldl (\<lambda>m k. max m (f k)) x keys > 0 \<longleftrightarrow> x > 0 \<or> (\<exists>k\<in>set keys. f k > 0)"
proof (induction keys arbitrary: x)
  case (Cons k keys)
  then show ?case by (auto simp: less_max_iff_disj)
qed simp

lemma retry_after_pos:
  "retry_after now keys st > 0 \<longleftrightarrow> (\<exists>k\<in>set keys. \<exists>e t. entry_of k st = Some e \<and> ae_locked_until e = Some t \<and> now < t)"
  unfolding retry_after_max by (subst foldl_max_pos) (simp_all add: lock_left_pos)

subsection \<open>The attempts an account has left\<close>

text \<open>The table of reachable states: unique keys, and a lock exactly on the entries that have counted to the limit.\<close>

definition valid_entry :: "login_config \<Rightarrow> attempt_entry \<Rightarrow> bool" where
  "valid_entry cfg e \<longleftrightarrow> 1 \<le> ae_failures e \<and> (ae_locked_until e = None \<longleftrightarrow> ae_failures e < lc_limit cfg)"

definition table_ok :: "login_config \<Rightarrow> attempt_entry list \<Rightarrow> bool" where
  "table_ok cfg st \<longleftrightarrow> distinct (map ae_key st) \<and> (\<forall>e\<in>set st. valid_entry cfg e)"

lemma tableD: "table_ok cfg st \<Longrightarrow> entry_of k st = Some e \<Longrightarrow> valid_entry cfg e"
  by (auto simp: table_ok_def entry_of_def dest: first_row_SomeD)

text \<open>Removing entries keeps a table well formed.\<close>

lemma table_filter: "table_ok cfg st \<Longrightarrow> table_ok cfg (filter P st)"
  by (simp add: table_ok_def distinct_map_filter)

text \<open>An entry that stays locked until after a time.\<close>

definition shut :: "rat \<Rightarrow> attempt_entry option \<Rightarrow> bool" where
  "shut t1 entry = (case entry of None \<Rightarrow> False | Some e \<Rightarrow> (case ae_locked_until e of None \<Rightarrow> False | Some t \<Rightarrow> t1 < t))"

text \<open>
  An upper bound on the wrong passwords still to be checked for a key between two times closer
  than the window and the lock.
\<close>

definition attempts_left :: "login_config \<Rightarrow> rat \<Rightarrow> rat \<Rightarrow> attempt_entry option \<Rightarrow> int" where
  "attempts_left cfg t0 t1 entry =
     (case entry of
        None \<Rightarrow> lc_limit cfg
      | Some e \<Rightarrow>
          (case ae_locked_until e of
             Some t \<Rightarrow> if t1 < t then 0 else lc_limit cfg
           | None \<Rightarrow> if t0 \<le> ae_first_at e then lc_limit cfg - ae_failures e else 2 * lc_limit cfg - 1 - ae_failures e))"

definition interval_ok :: "login_config \<Rightarrow> rat \<Rightarrow> rat \<Rightarrow> bool" where
  "interval_ok cfg t0 t1 \<longleftrightarrow> 1 \<le> lc_limit cfg \<and> fsub t1 t0 < of_int (lc_window cfg) \<and> t1 < fadd t0 (of_int (lc_lock cfg))"

lemma young_window:
  assumes "interval_ok cfg t0 t1" "t0 \<le> first" "now \<le> t1"
  shows "fsub now first < of_int (lc_window cfg)"
proof -
  have "fsub now first \<le> fsub t1 t0" unfolding fsub_def by (rule fl_mono) (use assms in simp)
  then show ?thesis using assms(1) by (simp add: interval_ok_def)
qed

lemma late_lock: "interval_ok cfg t0 t1 \<Longrightarrow> t0 \<le> now \<Longrightarrow> t1 < fadd now (of_int (lc_lock cfg))"
  using fl_mono [of "t0 + of_int (lc_lock cfg)" "now + of_int (lc_lock cfg)"] by (auto simp: interval_ok_def fadd_def)

lemma attempts_left_nonneg: "1 \<le> lc_limit cfg \<Longrightarrow> table_ok cfg st \<Longrightarrow> 0 \<le> attempts_left cfg t0 t1 (entry_of k st)"
  by (auto simp: attempts_left_def valid_entry_def split: option.split dest: tableD)

lemma attempts_left_le:
  assumes "1 \<le> lc_limit cfg" "table_ok cfg st"
  shows "attempts_left cfg t0 t1 (entry_of k st) \<le> max (lc_limit cfg) (2 * lc_limit cfg - 2)"
  using assms(1) tableD [OF assms(2), of k] by (auto simp: attempts_left_def valid_entry_def split: option.split)

text \<open>Pruning only removes entries that allow no more than a fresh one, and none that stays locked.\<close>

lemma prune_attempts_left:
  assumes "interval_ok cfg t0 t1" "table_ok cfg st" "t0 \<le> now" "now \<le> t1"
  shows "attempts_left cfg t0 t1 (entry_of k (prune_attempts cfg now st)) \<le> attempts_left cfg t0 t1 (entry_of k st)"
    and "shut t1 (entry_of k (prune_attempts cfg now st)) = shut t1 (entry_of k st)"
proof -
  have d: "distinct (map ae_key st)" using assms(2) by (simp add: table_ok_def)
  have left: "lc_limit cfg \<le> attempts_left cfg t0 t1 (Some e) \<and> \<not> shut t1 (Some e)"
    if "entry_of k st = Some e" "expired_entry cfg now e" for e
  proof (cases "ae_locked_until e")
    case None
    then have "ae_failures e < lc_limit cfg" using tableD [OF assms(2) that(1)] by (simp add: valid_entry_def)
    moreover have "\<not> t0 \<le> ae_first_at e" using young_window [OF assms(1) _ assms(4)] that(2) by (auto simp: expired_entry_def)
    ultimately show ?thesis using None by (simp add: attempts_left_def shut_def)
  next
    case (Some t)
    then have "\<not> t1 < t" using that(2) assms(4) by (auto simp: expired_entry_def)
    then show ?thesis using Some by (simp add: attempts_left_def shut_def)
  qed
  show "attempts_left cfg t0 t1 (entry_of k (prune_attempts cfg now st)) \<le> attempts_left cfg t0 t1 (entry_of k st)"
    unfolding prune_attempts_def entry_filter [OF d]
    using left by (auto split: option.split) (simp add: attempts_left_def)
  show "shut t1 (entry_of k (prune_attempts cfg now st)) = shut t1 (entry_of k st)"
    unfolding prune_attempts_def entry_filter [OF d] using left by (auto simp: shut_def split: option.split)
qed

text \<open>A failure keeps an entry valid and a lock shut, and uses up one attempt of a key that is not shut.\<close>

lemma failure_valid:
  assumes "\<And>e. entry = Some e \<Longrightarrow> valid_entry cfg e"
  shows "valid_entry cfg (count_failure cfg now k entry)"
proof (cases entry)
  case (Some e)
  then show ?thesis using assms by (cases "ae_locked_until e") (auto simp: count_failure_def valid_entry_def Let_def)
qed (simp add: count_failure_def valid_entry_def Let_def)

lemma failure_shut:
  assumes "interval_ok cfg t0 t1" "t0 \<le> now" "now \<le> t1" "\<And>e. entry = Some e \<Longrightarrow> valid_entry cfg e" "shut t1 entry"
  shows "shut t1 (Some (count_failure cfg now k entry))"
proof -
  obtain e t where e: "entry = Some e" "ae_locked_until e = Some t" "t1 < t"
    using assms(5) by (auto simp: shut_def split: option.splits)
  then show ?thesis
    using assms(3,4) late_lock [OF assms(1,2)] by (simp add: count_failure_def shut_def valid_entry_def)
qed

lemma failure_uses_one:
  assumes "interval_ok cfg t0 t1" "t0 \<le> now" "now \<le> t1" "\<And>e. entry = Some e \<Longrightarrow> valid_entry cfg e" "\<not> shut t1 entry"
  shows "attempts_left cfg t0 t1 (Some (count_failure cfg now k entry)) + 1 \<le> attempts_left cfg t0 t1 entry"
proof -
  have limit: "1 \<le> lc_limit cfg" using assms(1) by (simp add: interval_ok_def)
  note l = late_lock [OF assms(1,2)]
  consider "entry = None" | e where "entry = Some e" "ae_locked_until e = None" | e t where "entry = Some e" "ae_locked_until e = Some t"
    by (metis not_Some_eq)
  then show ?thesis
  proof cases
    case 1
    then show ?thesis using l limit assms(2) by (auto simp: count_failure_def attempts_left_def Let_def)
  next
    case (2 e)
    have "\<not> t0 \<le> ae_first_at e" if "fsub now (ae_first_at e) \<ge> of_int (lc_window cfg)"
      using young_window [OF assms(1) _ assms(3)] that by fastforce
    then show ?thesis using 2 l limit assms(2) assms(4) [OF 2(1)] by (auto simp: count_failure_def attempts_left_def valid_entry_def Let_def)
  next
    case (3 e t)
    have "\<not> t1 < t" using assms(5) 3 by (simp add: shut_def)
    then show ?thesis using 3 l limit assms(2) assms(4) [OF 3(1)] by (auto simp: count_failure_def attempts_left_def valid_entry_def Let_def)
  qed
qed

subsection \<open>The effect of a failure on the table\<close>

lemma count_key: "ae_key (count_failure cfg now k (entry_of k st)) = k"
  by (rule count_failure_key) (auto split: option.split dest: entry_key)

lemma table_store: "table_ok cfg st \<Longrightarrow> valid_entry cfg e \<Longrightarrow> table_ok cfg (store_entry e st)"
  using keys_store_entry [of st e] by (auto simp: table_ok_def store_entry_def update_row_def split: if_splits)

lemma register_keys_Cons:
  "fst (register_keys cfg now (k # ks) st) = fst (register_keys cfg now ks (store_entry (count_failure cfg now k (entry_of k st)) st))"
  by (simp add: Let_def split: prod.split)

lemma register_keys_table: "table_ok cfg st \<Longrightarrow> table_ok cfg (fst (register_keys cfg now keys st))"
proof (induction keys arbitrary: st)
  case (Cons j keys)
  have "valid_entry cfg (count_failure cfg now j (entry_of j st))" by (rule failure_valid) (rule tableD [OF Cons.prems])
  from Cons.IH [OF table_store [OF Cons.prems this]] show ?case by (simp only: register_keys_Cons)
qed simp

lemma register_keys_entry:
  "distinct keys \<Longrightarrow> entry_of k (fst (register_keys cfg now keys st)) =
     (if k \<in> set keys then Some (count_failure cfg now k (entry_of k st)) else entry_of k st)"
proof (induction keys arbitrary: st)
  case (Cons j keys)
  then show ?case unfolding register_keys_Cons by (auto simp: entry_store count_key)
qed simp

lemma register_failure_table: "table_ok cfg st \<Longrightarrow> table_ok cfg (fst (register_failure cfg now keys st))"
  by (simp add: register_failure_def prune_attempts_def register_keys_table table_filter)

lemma register_failure_effect:
  assumes "interval_ok cfg t0 t1" "t0 \<le> now" "now \<le> t1" "table_ok cfg st" "distinct keys"
  shows "shut t1 (entry_of k st) \<Longrightarrow> shut t1 (entry_of k (fst (register_failure cfg now keys st)))"
    and "k \<notin> set keys \<Longrightarrow> shut t1 (entry_of k (fst (register_failure cfg now keys st))) = shut t1 (entry_of k st)"
    and "attempts_left cfg t0 t1 (entry_of k (fst (register_failure cfg now keys st))) +
      (if k \<in> set keys \<and> \<not> shut t1 (entry_of k st) then 1 else 0) \<le> attempts_left cfg t0 t1 (entry_of k st)"
proof -
  define st1 where "st1 = (if length st \<ge> MAX_TRACKED_KEYS then prune_attempts cfg now st else st)"
  have t: "table_ok cfg st1" using table_filter assms(4) by (simp add: st1_def prune_attempts_def)
  have p: "attempts_left cfg t0 t1 (entry_of k st1) \<le> attempts_left cfg t0 t1 (entry_of k st)" "shut t1 (entry_of k st1) = shut t1 (entry_of k st)"
    using prune_attempts_left [OF assms(1,4,2,3)] by (simp_all add: st1_def)
  have e: "entry_of k (fst (register_failure cfg now keys st)) =
      (if k \<in> set keys then Some (count_failure cfg now k (entry_of k st1)) else entry_of k st1)"
    by (simp add: register_failure_def st1_def register_keys_entry [OF assms(5)])
  have shut: "shut t1 (Some (count_failure cfg now k (entry_of k st1)))" if "shut t1 (entry_of k st1)"
    by (rule failure_shut [OF assms(1-3) _ that]) (rule tableD [OF t])
  have one: "attempts_left cfg t0 t1 (Some (count_failure cfg now k (entry_of k st1))) + 1 \<le> attempts_left cfg t0 t1 (entry_of k st1)"
    if "\<not> shut t1 (entry_of k st1)"
    by (rule failure_uses_one [OF assms(1-3) _ that]) (rule tableD [OF t])
  have zero: "attempts_left cfg t0 t1 entry = 0" if "shut t1 entry" for entry
    using that by (auto simp: shut_def attempts_left_def split: option.splits)
  show "shut t1 (entry_of k st) \<Longrightarrow> shut t1 (entry_of k (fst (register_failure cfg now keys st)))"
    "k \<notin> set keys \<Longrightarrow> shut t1 (entry_of k (fst (register_failure cfg now keys st))) = shut t1 (entry_of k st)"
    using shut p(2) by (simp_all add: e)
  show "attempts_left cfg t0 t1 (entry_of k (fst (register_failure cfg now keys st))) +
      (if k \<in> set keys \<and> \<not> shut t1 (entry_of k st) then 1 else 0) \<le> attempts_left cfg t0 t1 (entry_of k st)"
    using one p zero [OF shut] zero [of "entry_of k st1"] by (cases "shut t1 (entry_of k st1)") (auto simp: e)
qed

subsection \<open>Logins on several threads\<close>

lemma account_key_idem [simp]: "account_key (lower (strip email)) = account_key email"
  by (simp add: account_key_def strip_lower)

lemma keys_differ [simp]: "ip_key address \<noteq> account_key email"
  by (simp add: ip_key_def account_key_def)

lemma clear_other: "table_ok cfg st \<Longrightarrow> k \<noteq> j \<Longrightarrow> entry_of k (clear_keys [j] st) = entry_of k st"
  unfolding clear_keys_def by (auto simp: table_ok_def entry_filter split: option.splits dest: entry_key)

lemma clear_same: "table_ok cfg st \<Longrightarrow> entry_of k (clear_keys [k] st) = None"
  unfolding clear_keys_def by (auto simp: table_ok_def entry_filter split: option.splits dest: entry_key)

text \<open>
  The process serves requests on a fixed number of threads.  A request that finds a thread and
  whose keys are not locked stays open until its password is checked and counted, or until it
  fails before that; other requests take their steps in between.
\<close>

record attempt =
  at_address :: string
  at_email :: string
  at_ok :: bool

record login_state =
  ls_attempts :: "attempt_entry list"
  ls_open :: "attempt list"

datatype login_event = Check_login rat attempt | Finish_login rat attempt | Lose_login attempt

fun event_time :: "login_event \<Rightarrow> rat option" where
  "event_time (Check_login t a) = Some t"
| "event_time (Finish_login t a) = Some t"
| "event_time (Lose_login a) = None"

fun login_step :: "login_config \<Rightarrow> nat \<Rightarrow> login_event \<Rightarrow> login_state \<Rightarrow> login_state" where
  "login_step cfg threads (Check_login now a) st =
     (if length (ls_open st) < threads \<and> login_check now (at_address a) (at_email a) (ls_attempts st) = None
      then st\<lparr>ls_open := a # ls_open st\<rparr> else st)"
| "login_step cfg threads (Finish_login now a) st =
     (if a \<in> set (ls_open st)
      then st\<lparr>ls_attempts := fst (login_finish cfg now (at_address a) (at_email a) (at_ok a) (ls_attempts st)),
              ls_open := remove1 a (ls_open st)\<rparr>
      else st)"
| "login_step cfg threads (Lose_login a) st = st\<lparr>ls_open := remove1 a (ls_open st)\<rparr>"

definition after_logins :: "login_config \<Rightarrow> nat \<Rightarrow> login_event list \<Rightarrow> login_state" where
  "after_logins cfg threads events = foldl (\<lambda>st ev. login_step cfg threads ev st) \<lparr>ls_attempts = [], ls_open = []\<rparr> events"

text \<open>The passwords of an account that a sequence of events finds wrong (or right).\<close>

fun finishes :: "string \<Rightarrow> bool \<Rightarrow> login_event \<Rightarrow> login_state \<Rightarrow> bool" where
  "finishes k ok (Finish_login now a) st \<longleftrightarrow> a \<in> set (ls_open st) \<and> account_key (at_email a) = k \<and> at_ok a = ok"
| "finishes k ok _ st \<longleftrightarrow> False"

fun checked :: "login_config \<Rightarrow> nat \<Rightarrow> string \<Rightarrow> bool \<Rightarrow> login_event list \<Rightarrow> login_state \<Rightarrow> nat" where
  "checked cfg threads k ok [] st = 0"
| "checked cfg threads k ok (ev # events) st =
     (if finishes k ok ev st then 1 else 0) + checked cfg threads k ok events (login_step cfg threads ev st)"

definition login_ok :: "login_config \<Rightarrow> nat \<Rightarrow> login_state \<Rightarrow> bool" where
  "login_ok cfg threads st \<longleftrightarrow> table_ok cfg (ls_attempts st) \<and> length (ls_open st) \<le> threads"

lemma login_keys_eq [simp]: "login_keys address email = [ip_key address, account_key email]"
  by (simp add: login_keys_def)

lemma login_check_shut:
  "now \<le> t1 \<Longrightarrow> shut t1 (entry_of (account_key email) st) \<Longrightarrow> login_check now address email st = Some Login_blocked"
  by (fastforce simp: login_check_def retry_after_pos shut_def split: option.splits)

lemma login_finish_simps:
  "fst (login_finish cfg now address email True st) = clear_keys [account_key email] st"
  "fst (login_finish cfg now address email False st) = fst (register_failure cfg now [ip_key address, account_key email] st)"
  by (simp_all add: login_finish_def split: prod.split)

lemma login_step_ok: "login_ok cfg threads st \<Longrightarrow> login_ok cfg threads (login_step cfg threads ev st)"
proof (induction cfg threads ev st rule: login_step.induct)
  case (2 cfg threads now a st)
  then show ?case
    by (cases "at_ok a") (auto simp: login_ok_def login_finish_simps length_remove1 register_failure_table clear_keys_def table_filter)
qed (auto simp: login_ok_def length_remove1)

lemma after_logins_ok: "login_ok cfg threads (after_logins cfg threads events)"
proof -
  have "login_ok cfg threads (foldl (\<lambda>st ev. login_step cfg threads ev st) st events)" if "login_ok cfg threads st" for st
    using that by (induction events arbitrary: st) (simp_all add: login_step_ok)
  moreover have "login_ok cfg threads \<lparr>ls_attempts = [], ls_open = []\<rparr>" by (simp add: login_ok_def table_ok_def)
  ultimately show ?thesis unfolding after_logins_def by blast
qed

text \<open>
  The passwords that may still be found wrong: those the counter allows, and the open requests
  that passed the check before the lock.
\<close>

definition open_for :: "string \<Rightarrow> login_state \<Rightarrow> nat" where
  "open_for k st = length (filter (\<lambda>a. account_key (at_email a) = k) (ls_open st))"

definition guesses_left :: "login_config \<Rightarrow> nat \<Rightarrow> rat \<Rightarrow> rat \<Rightarrow> string \<Rightarrow> login_state \<Rightarrow> int" where
  "guesses_left cfg threads t0 t1 k st = attempts_left cfg t0 t1 (entry_of k (ls_attempts st)) +
     (if shut t1 (entry_of k (ls_attempts st)) then int (open_for k st) else int threads - 1)"

lemma open_for_le: "login_ok cfg threads st \<Longrightarrow> open_for k st \<le> threads"
  using length_filter_le [of "\<lambda>a. account_key (at_email a) = k" "ls_open st"] unfolding login_ok_def open_for_def by linarith

lemma open_for_remove:
  "a \<in> set open_logins \<Longrightarrow> length (filter P (remove1 a open_logins)) + (if P a then 1 else 0) = length (filter P open_logins)"
  by (induction open_logins) auto

lemma finish_uses:
  assumes "interval_ok cfg t0 t1" "t0 \<le> now" "now \<le> t1" "login_ok cfg threads st" "a \<in> set (ls_open st)" "k = account_key email"
  shows "guesses_left cfg threads t0 t1 k (login_step cfg threads (Finish_login now a) st) +
      (if account_key (at_email a) = k \<and> \<not> at_ok a then 1 else 0)
    \<le> guesses_left cfg threads t0 t1 k st + (if account_key (at_email a) = k \<and> at_ok a then lc_limit cfg + int threads - 1 else 0)"
proof -
  have table: "table_ok cfg (ls_attempts st)" and limit: "1 \<le> lc_limit cfg" using assms(1,4) by (simp_all add: login_ok_def interval_ok_def)
  let ?k = "account_key (at_email a)"
  define next_state where "next_state = login_step cfg threads (Finish_login now a) st"
  have o: "open_for k next_state + (if ?k = k then 1 else 0) = open_for k st"
    using open_for_remove [OF assms(5), of "\<lambda>a. account_key (at_email a) = k"] assms(5) by (simp add: open_for_def next_state_def)
  have threads: "1 \<le> threads" using assms(4,5) by (cases "ls_open st") (auto simp: login_ok_def)
  note le = open_for_le [OF assms(4), of k]
  have none: "attempts_left cfg t0 t1 None = lc_limit cfg" "\<not> shut t1 None" by (simp_all add: attempts_left_def shut_def)
  show ?thesis
  proof (cases "at_ok a")
    case True
    then have e: "entry_of k (ls_attempts next_state) = (if ?k = k then None else entry_of k (ls_attempts st))"
      using assms(5) clear_same [OF table, of k] clear_other [OF table, of k ?k] by (auto simp: login_finish_simps next_state_def)
    have "0 \<le> attempts_left cfg t0 t1 (entry_of k (ls_attempts st))" by (rule attempts_left_nonneg [OF limit table])
    then show ?thesis
      using True o threads none unfolding guesses_left_def next_state_def [symmetric] e by (auto split: if_splits)
  next
    case False
    have d: "distinct [ip_key (at_address a), ?k]" by simp
    have "ls_attempts next_state = fst (register_failure cfg now [ip_key (at_address a), ?k] (ls_attempts st))"
      using False assms(5) by (simp add: login_finish_simps next_state_def)
    note eff = register_failure_effect [OF assms(1-3) table d, of k, folded this]
    have k: "k \<in> set [ip_key (at_address a), ?k] \<longleftrightarrow> ?k = k" using keys_differ [of "at_address a" email, symmetric] by (auto simp: assms(6))
    show ?thesis
      using False eff [unfolded k] o le unfolding guesses_left_def next_state_def [symmetric] by (auto split: if_splits)
  qed
qed

lemma login_step_uses:
  assumes "interval_ok cfg t0 t1" "\<forall>t. event_time ev = Some t \<longrightarrow> t0 \<le> t \<and> t \<le> t1" "login_ok cfg threads st" "1 \<le> threads"
    and k: "k = account_key email"
  shows "guesses_left cfg threads t0 t1 k (login_step cfg threads ev st) + (if finishes k False ev st then 1 else 0)
    \<le> guesses_left cfg threads t0 t1 k st + (if finishes k True ev st then lc_limit cfg + int threads - 1 else 0)"
proof (cases ev)
  case (Check_login now a)
  have "open_for k (login_step cfg threads ev st) = open_for k st" if "shut t1 (entry_of k (ls_attempts st))"
    using that login_check_shut [of now t1 "at_email a" "ls_attempts st" "at_address a"] assms(2) Check_login by (auto simp: open_for_def)
  then show ?thesis using Check_login by (auto simp: guesses_left_def)
next
  case (Finish_login now a)
  show ?thesis
  proof (cases "a \<in> set (ls_open st)")
    case True
    have "t0 \<le> now" "now \<le> t1" using assms(2) Finish_login by simp_all
    from finish_uses [OF assms(1) this assms(3) True k] show ?thesis using True Finish_login by (auto split: if_splits)
  next
    case False
    then show ?thesis using Finish_login by simp
  qed
next
  case (Lose_login a)
  have "length (filter P (remove1 a xs)) \<le> length (filter P xs)" for P xs by (induction xs) auto
  then have "open_for k (login_step cfg threads ev st) \<le> open_for k st" using Lose_login by (simp add: open_for_def)
  then show ?thesis using Lose_login by (simp add: guesses_left_def)
qed

lemma guesses_left_bounds:
  assumes "1 \<le> lc_limit cfg" "login_ok cfg threads st" "1 \<le> threads"
  shows "0 \<le> guesses_left cfg threads t0 t1 k st"
    and "guesses_left cfg threads t0 t1 k st \<le> max (lc_limit cfg) (2 * lc_limit cfg - 2) + int threads - 1"
proof -
  have table: "table_ok cfg (ls_attempts st)" using assms(2) by (simp add: login_ok_def)
  note left = attempts_left_nonneg [OF assms(1) table, of t0 t1 k] attempts_left_le [OF assms(1) table, of t0 t1 k]
    and le = open_for_le [OF assms(2), of k]
  show "0 \<le> guesses_left cfg threads t0 t1 k st" using left assms(3) by (auto simp: guesses_left_def)
  have "attempts_left cfg t0 t1 entry = 0" if "shut t1 entry" for entry
    using that by (auto simp: shut_def attempts_left_def split: option.splits)
  then show "guesses_left cfg threads t0 t1 k st \<le> max (lc_limit cfg) (2 * lc_limit cfg - 2) + int threads - 1"
    using left le assms(1) by (auto simp: guesses_left_def)
qed

text \<open>
  C40: how many passwords can be tried.  A process serves logins on a number of threads; from any
  state it has reached, by whatever earlier requests and with requests still open, take any
  interleaving of checks and outcomes whose clock readings lie in an interval shorter than the window and the
  lock.  The passwords found wrong for an account, from any addresses, are at most the larger of
  the limit and twice the limit less two, one more for each further thread, since the check and
  the count are two steps, and a full allowance anew, the limit and the further threads, for each
  time the right password is given in the interval, which clears the account's counter.
\<close>
theorem lockout_bounds_guessing:
  assumes "1 \<le> lc_limit cfg" "1 \<le> threads" "fsub t1 t0 < of_int (lc_window cfg)" "t1 < fadd t0 (of_int (lc_lock cfg))"
    and "\<forall>ev\<in>set events. \<forall>t. event_time ev = Some t \<longrightarrow> t0 \<le> t \<and> t \<le> t1"
  shows "int (checked cfg threads (account_key email) False events (after_logins cfg threads earlier))
    \<le> max (lc_limit cfg) (2 * lc_limit cfg - 2) + (int threads - 1) +
      int (checked cfg threads (account_key email) True events (after_logins cfg threads earlier)) * (lc_limit cfg + int threads - 1)"
proof -
  let ?k = "account_key email" and ?A = "lc_limit cfg + int threads - 1"
  have i: "interval_ok cfg t0 t1" using assms by (simp add: interval_ok_def)
  have "int (checked cfg threads ?k False events st) \<le> guesses_left cfg threads t0 t1 ?k st + int (checked cfg threads ?k True events st) * ?A"
    if "login_ok cfg threads st" for st
    using that assms(5)
  proof (induction events arbitrary: st)
    case Nil
    then show ?case using guesses_left_bounds(1) [OF assms(1) _ assms(2)] by simp
  next
    case (Cons ev events)
    let ?st = "login_step cfg threads ev st"
    have "int (checked cfg threads ?k False events ?st) \<le> guesses_left cfg threads t0 t1 ?k ?st + int (checked cfg threads ?k True events ?st) * ?A"
      by (rule Cons.IH) (use Cons.prems login_step_ok in auto)
    moreover have "guesses_left cfg threads t0 t1 ?k ?st + (if finishes ?k False ev st then 1 else 0)
        \<le> guesses_left cfg threads t0 t1 ?k st + (if finishes ?k True ev st then ?A else 0)"
      by (rule login_step_uses [OF i _ _ assms(2) refl]) (use Cons.prems in auto)
    ultimately show ?case by (auto simp: algebra_simps split: if_splits)
  qed
  from this [OF after_logins_ok, of earlier] guesses_left_bounds(2) [OF assms(1) after_logins_ok assms(2), of t0 t1 ?k earlier]
  show ?thesis by simp
qed

text \<open>
  The bound is reached with the settings of the deployment, a limit of five per quarter of an hour
  and four threads: after one wrong password, a window later, three and four more within a second
  and then four at once, eleven in all.
\<close>

definition default_login :: login_config where
  "default_login = \<lparr>lc_limit = 5, lc_window = 900, lc_lock = 900\<rparr>"

definition guess :: attempt where
  "guess = \<lparr>at_address = ''1'', at_email = ''a'', at_ok = False\<rparr>"

definition guess_at :: "rat \<Rightarrow> login_event list" where
  "guess_at t = [Check_login t guess, Finish_login t guess]"

definition burst :: "login_event list" where
  "burst = concat (map guess_at [899, 899, 899, 900, 900, 900, 900]) @
     replicate 4 (Check_login 900 guess) @ replicate 4 (Finish_login 900 guess)"

text \<open>The states of the example: the two keys always have the same counts, and some guesses are open.\<close>

definition entry_with :: "int \<Rightarrow> rat \<Rightarrow> rat option \<Rightarrow> attempt_entry" where
  "entry_with f t l = \<lparr>ae_key = [], ae_failures = f, ae_first_at = t, ae_locked_until = l\<rparr>"

definition guessing :: "attempt_entry \<Rightarrow> nat \<Rightarrow> login_state" where
  "guessing e n = \<lparr>ls_attempts = [e\<lparr>ae_key := ''ip:1''\<rparr>, e\<lparr>ae_key := ''account:a''\<rparr>], ls_open = replicate n guess\<rparr>"

lemma sample_keys [simp]: "account_key ''a'' = ''account:a''" "ip_key ''1'' = ''ip:1''"
  by (simp_all add: account_key_def ip_key_def strip_def lstrip_def rstrip_def lower_def text_eval)

lemma count_failure_rekey:
  "count_failure cfg now k (Some (e\<lparr>ae_key := k\<rparr>)) = (count_failure cfg now j (Some e))\<lparr>ae_key := k\<rparr>"
  by (auto simp: count_failure_def Let_def split: option.split)

lemma guess_check:
  "\<not> shut now (Some e) \<Longrightarrow> n < 4 \<Longrightarrow> login_step default_login 4 (Check_login now guess) (guessing e n) = guessing e (Suc n)"
  by (auto simp: guessing_def guess_def login_check_def retry_after_def entry_of_def shut_def split: option.splits)

lemma guess_finish:
  "login_step default_login 4 (Finish_login now guess) (guessing e (Suc n)) = guessing (count_failure default_login now [] (Some e)) n"
  by (simp add: guessing_def guess_def login_finish_def register_failure_def MAX_TRACKED_KEYS_def entry_of_def
      count_failure_rekey [where j = "[]"] store_entry_def Let_def)

lemma guess_counts: "finishes ''account:a'' False (Finish_login now guess) (guessing e (Suc n))" "\<not> finishes k ok (Check_login now guess) st"
    "\<not> finishes ''account:a'' True (Finish_login now guess) st"
  by (simp_all add: guessing_def guess_def)

lemma entry_with_failures:
  "f < 4 \<Longrightarrow> fsub now t < 900 \<Longrightarrow> count_failure default_login now [] (Some (entry_with f t None)) = entry_with (f + 1) t None"
  "fsub now t < 900 \<Longrightarrow> count_failure default_login now [] (Some (entry_with 4 t None)) = entry_with 5 t (Some (fadd now 900))"
  "900 \<le> fsub now t \<Longrightarrow> count_failure default_login now [] (Some (entry_with f t None)) = entry_with 1 now None"
  "4 \<le> f \<Longrightarrow> now < u \<Longrightarrow> count_failure default_login now [] (Some (entry_with f t (Some u))) = entry_with (f + 1) t (Some (fadd now 900))"
  by (simp_all add: count_failure_def entry_with_def default_login_def Let_def)

lemma lockout_bounds_guessing_witness:
  "checked default_login 4 ''account:a'' False burst (after_logins default_login 4 (guess_at 0)) = 11 \<and>
   int (checked default_login 4 ''account:a'' False burst (after_logins default_login 4 (guess_at 0)))
     \<le> max (lc_limit default_login) (2 * lc_limit default_login - 2) + 3"
proof -
  let ?st = "after_logins default_login 4 (guess_at 0)"
  have f: "fsub 899 0 = 899" "fsub 900 0 = 900" "fsub 900 900 = 0" "fadd 900 900 = 1800" "fsub 900 899 = 1" "fadd 899 900 = 1799"
    using fl_of_int [of 0] fl_of_int [of 899] fl_of_int [of 900] fl_of_int [of 1] fl_of_int [of 1800] fl_of_int [of 1799]
    by (simp_all add: fsub_def fadd_def)
  have st: "?st = guessing (entry_with 1 0 None) 0"
    by (simp add: after_logins_def guess_at_def guess_def login_check_def login_finish_def retry_after_def entry_of_def register_failure_def
        MAX_TRACKED_KEYS_def count_failure_def store_entry_def default_login_def guessing_def entry_with_def Let_def)
  have open_entry: "\<not> shut now (Some (entry_with n t None))" for now n t by (simp add: shut_def entry_with_def)
  have events: "burst = [Check_login 899 guess, Finish_login 899 guess, Check_login 899 guess, Finish_login 899 guess,
      Check_login 899 guess, Finish_login 899 guess, Check_login 900 guess, Finish_login 900 guess, Check_login 900 guess,
      Finish_login 900 guess, Check_login 900 guess, Finish_login 900 guess, Check_login 900 guess, Finish_login 900 guess,
      Check_login 900 guess, Check_login 900 guess, Check_login 900 guess, Check_login 900 guess,
      Finish_login 900 guess, Finish_login 900 guess, Finish_login 900 guess, Finish_login 900 guess]"
    by (simp add: burst_def guess_at_def numeral_eq_Suc)
  have run: "checked default_login 4 ''account:a'' False burst ?st = 11" "checked default_login 4 ''account:a'' True burst ?st = 0"
    unfolding st events
    by (simp_all add: guess_check guess_finish guess_counts entry_with_failures open_entry f del: login_step.simps finishes.simps)
  have "int (checked default_login 4 (account_key ''a'') False burst ?st)
      \<le> max (lc_limit default_login) (2 * lc_limit default_login - 2) + (int 4 - 1) +
        int (checked default_login 4 (account_key ''a'') True burst ?st) * (lc_limit default_login + int 4 - 1)"
    by (rule lockout_bounds_guessing [of _ _ 900 899]) (auto simp: default_login_def f events)
  then show ?thesis using run by simp
qed

end
