(* ===== verification/ImportSheet.thy ===== *)
theory ImportSheet
  imports Items "HOL-Library.AList"
begin

text \<open>
  The standard workbook import (\<open>app/excel_utils.py\<close>): header detection, the mapping of columns
  to payroll fields, the reading of rows and their counts.  A sheet is the list of rows pandas
  returns for it with \<open>dtype=str\<close> and no header row: texts, all rows of the same width, a missing
  value being the empty text.  Reading the file itself is pandas' and openpyxl's part.
\<close>

subsection \<open>Labels\<close>

definition is_digit :: "char \<Rightarrow> bool" where
  "is_digit c \<longleftrightarrow> c \<in> set ''0123456789''"

definition label_char :: "char \<Rightarrow> bool" where
  "label_char c \<longleftrightarrow> c \<in> set lower_letters \<or> is_digit c"

text \<open>\<open>re.sub(r"[...]+", " ", s)\<close>: every maximal run of the class becomes one space.\<close>

function collapse :: "(char \<Rightarrow> bool) \<Rightarrow> string \<Rightarrow> string" where
  "collapse p [] = []"
| "collapse p (c # cs) = (if p c then CHR '' '' # collapse p (dropWhile p cs) else c # collapse p cs)"
  by pat_completeness auto
termination
  by (relation "measure (length \<circ> snd)") (auto simp: le_imp_less_Suc length_dropWhile_le)

definition normalize_label :: "string \<Rightarrow> string" where
  "normalize_label value = strip (collapse is_space (collapse (\<lambda>c. \<not> label_char c) (lower (strip value))))"

abbreviation (input) normalize_worker :: "string \<Rightarrow> string" where
  "normalize_worker \<equiv> normalize_label"

definition text_words :: "string \<Rightarrow> string list" where
  "text_words s = filter (\<lambda>w. w \<noteq> []) (split_on (CHR '' '') s)"

definition normalize_company_key :: "bool \<Rightarrow> string \<Rightarrow> string" where
  "normalize_company_key strip_suffix value =
     (let parts = text_words (normalize_label value)
      in concat (if strip_suffix then filter (\<lambda>w. w \<notin> set [''ltd'', ''limited'']) parts else parts))"

definition company_tokens :: "string \<Rightarrow> string list" where
  "company_tokens value =
     remdups (filter (\<lambda>w. w \<notin> set [''ltd'', ''limited'', ''company'', ''co'']) (text_words (normalize_label value)))"

subsection \<open>The field vocabulary\<close>

definition COLUMN_ALIASES :: "(string \<times> string list) list" where
  "COLUMN_ALIASES =
    [(''staff_id'', [''staff no'', ''staff no.'', ''staff id'', ''employee id'', ''emp id'', ''staff number'',
      ''employee no'', ''worker id'', ''s/n'', ''sn'', ''no'', ''serial'', ''irs no'']),
     (''full_name'', [''name'', ''names'', ''employee name'', ''full name'', ''worker name'', ''employee'', ''worker'',
      ''officer'', ''personnel'']),
     (''client_company'', [''client'', ''client company'', ''company'', ''company name'', ''company assigned'', ''assigned client'']),
     (''ssnit_number'', [''ssnit no'', ''ssnit number'', ''ssnit id'', ''ssnit contribution number'', ''s.s number'',
      ''ss number'', ''s.s no'', ''s s number'', ''social security number'', ''social security no'']),
     (''ghana_card_number'', [''ghana card'', ''ghana card no'', ''ghana card number'', ''gh card'', ''gh card no'', ''gh card number'']),
     (''momo_number'', [''momo'', ''momo number'', ''momo no'', ''mobile money'', ''mobile money number'', ''phone'',
      ''phone number'', ''phone no'', ''telephone'', ''tel'', ''mobile'', ''mobile number'', ''mobile no'',
      ''cell'', ''cellphone'', ''contact number'', ''contact no'']),
     (''email'', [''email'', ''e-mail'', ''e mail'', ''email address'', ''email id'', ''mail'']),
     (''bank_name'', [''bank'', ''bank name'']),
     (''bank_branch'', [''bank branch'', ''branch'', ''branch name'']),
     (''bank_account_number'', [''account no'', ''account number'', ''bank account'', ''bank account number'', ''a/c number'', ''a/c no'']),
     (''status'', [''status'', ''employee status'', ''worker status'', ''employment status'']),
     (''service_line'', [''service line'', ''department'', ''unit'']),
     (''job_role'', [''job role'', ''job title'', ''role'', ''position'', ''designation'']),
     (''payroll_month'', [''payroll month'', ''month'']),
     (''basic_salary'', [''basic'', ''basic salary'', ''base pay'', ''basic pay'', ''base salary'', ''monthly salary'',
      ''salary'', ''basic wage'']),
     (''transport_allowance'', [''transport'', ''transport allowance'', ''transportation'']),
     (''housing_allowance'', [''housing'', ''housing allowance'', ''rent allowance'']),
     (''medical_allowance'', [''medical'', ''medical allowance'', ''medical allow'', ''med allowance'', ''med. allowance'']),
     (''meal_allowance'', [''meal allowance'', ''meals allowance'', ''meals'', ''meal'']),
     (''end_of_year_bonus'', [''end of year bonus'', ''end-of-year bonus'', ''13th month'', ''13th month bonus'', ''annual bonus'',
      ''eoy bonus'']),
     (''productivity_bonus'', [''productivity bonus'', ''productivity'', ''prod bonus'', ''prod. bonus'', ''bonus'']),
     (''overtime_hours'', [''overtime hours'', ''ot hours'']),
     (''overtime_pay'', [''overtime'', ''ot pay'', ''overtime pay'', ''overtime allowance'', ''overtime allow'']),
     (''other_allowances'', [''other allowance'', ''other allowances'', ''allowances'', ''allowance'']),
     (''pay_difference'', [''pay difference'', ''pay diff'', ''pay differece'']),
     (''gross_pay'', [''gross'', ''gross pay'', ''gross salary'', ''total earnings'', ''gross earnings'', ''gross amount'']),
     (''paye'', [''paye'', ''tax'', ''income tax'', ''paye tax'', ''tax deducted'']),
     (''ssnit'', [''ssnit'', ''ssnit contribution'', ''ssnit employee'', ''ssnit emp'', ''ssnit (employee)'',
      ''ssnit deduction'']),
     (''tier_2_pension'', [''tier 2'', ''tier 2 pension'', ''tier two pension'', ''pension'']),
     (''pf_fund_employer'', [''pf fund employer'', ''pf fund / employer'', ''employer provident fund'', ''provident fund employer'']),
     (''pf_fund_employee'', [''pf fund / employee'', ''pf fund employee'', ''pf fund'', ''pf employee'', ''provident fund'',
      ''provident fund employee'']),
     (''loan_deduction'', [''loan deduction'', ''loan deductions'', ''loan repayment'', ''loan'', ''loan adv'']),
     (''loan_advance'', [''loan advance'', ''loan advances'', ''salary advance'']),
     (''welfare_deduction'', [''welfare'', ''welfare deduction'', ''welfare deductions'', ''welfare supplies'']),
     (''iou_deduction'', [''iou deduction'', ''iou deductions'', ''i o u'', ''i o u deduction'', ''iou'']),
     (''other_deductions'', [''deduction'', ''deductions'', ''other deduction'', ''other deductions'']),
     (''total_deductions'', [''total deductions'', ''total deduction'']),
     (''net_pay'', [''net'', ''net pay'', ''net salary'', ''take home'', ''take home pay'', ''net amount'',
      ''amount payable'', ''net earnings''])]"

definition DERIVED_OUTPUT_HEADERS :: "string list" where
  "DERIVED_OUTPUT_HEADERS =
    [''net basic wage'', ''annual salary'', ''15 of annual salary'', ''15 percent of annual salary'',
     ''15 of annual'', ''basic tax'', ''overtime tax'', ''ot tax'', ''o t tax'', ''bonus tax'', ''total tax'']"

definition MANDATORY_IMPORT_FIELDS :: "string list" where
  "MANDATORY_IMPORT_FIELDS =
    [''staff_id'', ''full_name'', ''basic_salary'']"

definition MONEY_FIELDS :: "string list" where
  "MONEY_FIELDS =
    [''basic_salary'', ''transport_allowance'', ''housing_allowance'', ''medical_allowance'',
     ''meal_allowance'', ''productivity_bonus'', ''end_of_year_bonus'', ''pf_fund_employee'',
     ''pf_fund_employer'', ''overtime_hours'', ''overtime_pay'', ''other_allowances'', ''pay_difference'',
     ''gross_pay'', ''paye'', ''ssnit'', ''tier_2_pension'', ''loan_deduction'', ''loan_advance'',
     ''welfare_deduction'', ''iou_deduction'', ''other_deductions'', ''total_deductions'', ''net_pay'']"

definition META_SHEET_NAMES :: "string list" where
  "META_SHEET_NAMES =
    [''stress test guide'', ''client companies'', ''expected summary'', ''expected validation'',
     ''upload test cases'', ''summary'', ''guide'', ''instructions'', ''readme'']"

definition PAYROLL_HEADER_KEYWORDS :: "string list" where
  "PAYROLL_HEADER_KEYWORDS =
    [''staff id'', ''staff no'', ''staff no.'', ''employee id'', ''emp id'', ''worker id'', ''s/n'', ''sn'',
     ''serial'', ''employee'', ''name'', ''employee name'', ''full name'', ''worker'', ''officer'',
     ''personnel'', ''status'', ''service line'', ''job role'', ''basic salary'', ''basic'', ''base pay'',
     ''basic pay'', ''base salary'', ''monthly salary'', ''gross pay'', ''gross salary'', ''total earnings'',
     ''gross earnings'', ''gross amount'', ''paye'', ''income tax'', ''tax deducted'', ''ssnit'',
     ''ssnit employee'', ''ssnit emp'', ''social security'', ''tier 2 pension'', ''net pay'', ''net salary'',
     ''net amount'', ''amount payable'', ''net earnings'', ''take home'', ''bank'', ''bank name'',
     ''bank account'', ''momo'', ''ghana card'', ''ghana card no'', ''ssnit number'', ''payroll month'',
     ''transport allowance'', ''housing allowance'', ''overtime'', ''overtime pay'', ''allowance'',
     ''deduction'', ''total deductions'']"

definition PAYROLL_SHEET_NAME_KEYWORDS :: "string list" where
  "PAYROLL_SHEET_NAME_KEYWORDS =
    [''payroll'', ''salary'', ''wages'', ''staff'', ''workers'', ''personnel'']"

subsection \<open>Mapping columns to fields\<close>

definition alias_lookup :: "string \<Rightarrow> string option" where
  "alias_lookup =
     foldl (\<lambda>m (field, aliases). foldl (\<lambda>m a. m(normalize_label a \<mapsto> field)) m aliases) Map.empty COLUMN_ALIASES"

text \<open>\<open>re.sub(r"\s*\(\d+\)\s*$", "", s)\<close>: the suffix of a repeated label goes.\<close>

definition drop_count_suffix :: "string \<Rightarrow> string" where
  "drop_count_suffix s =
     (case dropWhile is_space (rev s) of
        [] \<Rightarrow> s
      | c # cs \<Rightarrow>
          (let rest = dropWhile is_digit cs
           in if c = CHR '')'' \<and> takeWhile is_digit cs \<noteq> [] \<and> rest \<noteq> [] \<and> hd rest = CHR ''(''
              then rstrip (rev (tl rest)) else s))"

definition header_label :: "string \<Rightarrow> string" where
  "header_label column = normalize_label (drop_count_suffix column)"

definition column_field :: "string \<Rightarrow> string" where
  "column_field column =
     (let normalized = header_label column
      in if normalized \<in> set DERIVED_OUTPUT_HEADERS then ''unmapped''
         else text_or (alias_lookup normalized) ''unmapped'')"

text \<open>The mapping is a dictionary: a column seen again is assigned again.\<close>

definition map_columns :: "string list \<Rightarrow> (string \<times> string) list" where
  "map_columns columns = foldl (\<lambda>m column. AList.update column (column_field column) m) [] columns"

text \<open>\<open>setdefault(k, []).append(v)\<close>.\<close>

fun append_to :: "'k \<Rightarrow> 'v \<Rightarrow> ('k \<times> 'v list) list \<Rightarrow> ('k \<times> 'v list) list" where
  "append_to k v [] = [(k, [v])]"
| "append_to k v ((k', vs) # kvs) = (if k = k' then (k', vs @ [v]) # kvs else (k', vs) # append_to k v kvs)"

definition by_field :: "(string \<times> string) list \<Rightarrow> (string \<times> string list) list" where
  "by_field mapping =
     foldl (\<lambda>d (column, field). if field \<noteq> [] \<and> field \<noteq> ''unmapped'' then append_to field column d else d) [] mapping"

datatype mapping_error = Claimed_by string "string list" | Mandatory_missing string

definition mapping_conflicts :: "(string \<times> string) list \<Rightarrow> mapping_error list" where
  "mapping_conflicts mapping =
     map (\<lambda>(field, columns). Claimed_by field columns) (filter (\<lambda>(_, columns). length columns > 1) (by_field mapping)) @
     map Mandatory_missing (filter (\<lambda>field. map_of (by_field mapping) field = None) MANDATORY_IMPORT_FIELDS)"

subsection \<open>Finding the header and the data\<close>

definition known_header_labels :: "string list" where
  "known_header_labels =
     concat (map (\<lambda>(field, aliases). normalize_label field # map normalize_label aliases) COLUMN_ALIASES) @
     PAYROLL_HEADER_KEYWORDS"

text \<open>\<open>re.fullmatch(r"-?\d+(?:\.\d+)?", s)\<close>.\<close>

definition bare_number :: "string \<Rightarrow> bool" where
  "bare_number s =
     (let body = (case s of [] \<Rightarrow> [] | c # cs \<Rightarrow> if c = CHR ''-'' then cs else s)
      in takeWhile is_digit body \<noteq> [] \<and>
         (case dropWhile is_digit body of
            [] \<Rightarrow> True
          | c # ds \<Rightarrow> c = CHR ''.'' \<and> ds \<noteq> [] \<and> list_all is_digit ds))"

definition looks_like_header_label :: "bool \<Rightarrow> string \<Rightarrow> bool" where
  "looks_like_header_label numeric_is_suspicious value =
     (let label = normalize_label value
      in label \<noteq> [] \<and>
         (label \<in> set known_header_labels \<or> label \<in> set DERIVED_OUTPUT_HEADERS \<or>
          numeric_is_suspicious \<and> bare_number (strip value)))"

definition label_score :: "string \<Rightarrow> nat" where
  "label_score label =
     (if label \<in> set known_header_labels then 2
      else if list_ex (\<lambda>keyword. contains keyword label) PAYROLL_HEADER_KEYWORDS then 1 else 0)"

definition header_score :: "string list \<Rightarrow> nat" where
  "header_score row = sum_list (map (\<lambda>value. label_score (normalize_label value)) (filter (\<lambda>v. v \<noteq> []) row))"

text \<open>Rows are numbered from 1 in the loop; the result counts from 0.\<close>

definition find_header_row :: "string list list \<Rightarrow> nat" where
  "find_header_row rows =
     (case foldl (\<lambda>(best_row, best_score) (row_index, row).
                    if header_score row > best_score then (row_index, header_score row) else (best_row, best_score))
             (1, 0) (enumerate 1 (take 20 rows)) of
        (best_row, best_score) \<Rightarrow> if best_score \<ge> 2 then best_row - 1 else 0)"

text \<open>\<open>^[A-Z]{2,4}\d{2,}$\<close>, on a stripped text.\<close>

definition staff_id_shape :: "string \<Rightarrow> bool" where
  "staff_id_shape s =
     (let letters = takeWhile (\<lambda>c. c \<in> set upper_letters) s;
          numbers = dropWhile (\<lambda>c. c \<in> set upper_letters) s
      in 2 \<le> length letters \<and> length letters \<le> 4 \<and> 2 \<le> length numbers \<and> list_all is_digit numbers)"

definition STACKED_HEADER_MAX_DEPTH :: nat where
  "STACKED_HEADER_MAX_DEPTH = 5"

definition first_cell :: "string list \<Rightarrow> string" where
  "first_cell row = (case row of [] \<Rightarrow> [] | c # _ \<Rightarrow> c)"

fun data_anchor :: "nat \<Rightarrow> nat \<Rightarrow> string list list \<Rightarrow> nat" where
  "data_anchor fallback index [] = fallback"
| "data_anchor fallback index (row # rows) =
     (let first = strip (first_cell row)
      in if staff_id_shape first then index
         else if first \<noteq> [] then fallback
         else data_anchor fallback (index + 1) rows)"

definition find_data_start :: "string list list \<Rightarrow> nat \<Rightarrow> nat" where
  "find_data_start rows header_row =
     data_anchor (header_row + 1) (header_row + 1) (take STACKED_HEADER_MAX_DEPTH (drop (header_row + 1) rows))"

text \<open>One label per column: the stacked texts joined, and a count for a repeated label.\<close>

definition stacked_label :: "string list list \<Rightarrow> nat \<Rightarrow> string" where
  "stacked_label block c =
     (let parts = filter (\<lambda>cell. cell \<noteq> [] \<and> lower cell \<notin> set [''nan'', ''none''])
                    (map (\<lambda>row. strip (if c < length row then row ! c else [])) block);
          name = strip (collapse is_space (join_with '' '' parts))
      in if name = [] then ''Unnamed: '' @ digits c else name)"

fun count_labels :: "(string \<Rightarrow> nat) \<Rightarrow> string list \<Rightarrow> string list" where
  "count_labels seen [] = []"
| "count_labels seen (name # names) =
     (let count = seen name + 1
      in (if count > 1 then name @ '' ('' @ digits count @ '')'' else name) #
         count_labels (seen(name := count)) names)"

definition build_composite_columns :: "string list list \<Rightarrow> nat \<Rightarrow> nat \<Rightarrow> string list" where
  "build_composite_columns rows header_row data_start =
     (let block = drop header_row (take data_start rows);
          width = foldr max (map length block) 0
      in count_labels (\<lambda>_. 0) (map (stacked_label block) [0..<width]))"

subsection \<open>Choosing a sheet\<close>

type_synonym sheet = "string \<times> string list list"

definition is_meta_sheet :: "string \<Rightarrow> bool" where
  "is_meta_sheet sheet_name \<longleftrightarrow> normalize_label sheet_name \<in> set META_SHEET_NAMES"

definition sheet_name_suggests_payroll :: "string \<Rightarrow> bool" where
  "sheet_name_suggests_payroll sheet_name \<longleftrightarrow>
     list_ex (\<lambda>keyword. contains keyword (normalize_label sheet_name)) PAYROLL_SHEET_NAME_KEYWORDS"

definition payroll_sheet_candidates :: "sheet list \<Rightarrow> sheet list" where
  "payroll_sheet_candidates workbook =
     filter (\<lambda>(name, rows).
       \<not> is_meta_sheet name \<and>
       (let sample = take 20 rows; header_row = find_header_row rows;
            score = (if header_row < length sample then header_score (sample ! header_row) else 0)
        in score \<ge> 2 \<or> sheet_name_suggests_payroll name)) workbook"

definition match_client_sheet :: "string \<Rightarrow> string list \<Rightarrow> string option" where
  "match_client_sheet client_name sheet_names =
     (let key = normalize_company_key True; client_key = key client_name; client_tokens = company_tokens client_name
      in case first_row (\<lambda>s. client_key = key s) sheet_names of
           Some s \<Rightarrow> Some s
         | None \<Rightarrow>
             (case first_row (\<lambda>s. contains client_key (key s) \<or> contains (key s) client_key) sheet_names of
                Some s \<Rightarrow> Some s
              | None \<Rightarrow>
                  first_row (\<lambda>s. 2 \<le> length (filter (\<lambda>w. w \<in> set (company_tokens s)) client_tokens)) sheet_names))"

subsection \<open>Reading numbers\<close>

text \<open>\<open>s.replace(old, "")\<close>.\<close>

function remove_all :: "string \<Rightarrow> string \<Rightarrow> string" where
  "remove_all old [] = []"
| "remove_all old (c # cs) =
     (if old \<noteq> [] \<and> starts_with old (c # cs) then remove_all old (drop (length old) (c # cs))
      else c # remove_all old cs)"
  by pat_completeness auto
termination
  by (relation "measure (length \<circ> snd)") (auto simp: diff_less)

definition digit_value :: "char \<Rightarrow> nat" where
  "digit_value c = of_char c - 48"

definition decimal_value :: "string \<Rightarrow> nat" where
  "decimal_value s = foldl (\<lambda>n c. 10 * n + digit_value c) 0 s"

text \<open>\<open>float(s)\<close> on a text of digits, points and minus signs; \<open>None\<close> is \<open>ValueError\<close>.\<close>

definition read_float :: "string \<Rightarrow> rat option" where
  "read_float s =
     (let (sign, body) = (case s of [] \<Rightarrow> (1, []) | c # cs \<Rightarrow> if c = CHR ''-'' then (-1, cs) else (1, s));
          whole = takeWhile is_digit body
      in case dropWhile is_digit body of
           [] \<Rightarrow> if whole = [] then None else Some (sign * fl (rat_of_nat (decimal_value whole)))
         | c # ds \<Rightarrow>
             if c = CHR ''.'' \<and> list_all is_digit ds \<and> whole @ ds \<noteq> []
             then Some (sign * fl (rat_of_nat (decimal_value (whole @ ds)) / 10 ^ length ds))
             else None)"

text \<open>
  The cedi sign has no \<open>char\<close>; its two replacements only delete characters that the last
  substitution, which keeps digits, points and minus signs, deletes as well.
\<close>

definition number_char :: "char \<Rightarrow> bool" where
  "number_char c \<longleftrightarrow> is_digit c \<or> c = CHR ''.'' \<or> c = CHR ''-''"

definition to_number :: "string \<Rightarrow> rat" where
  "to_number value =
     (if value = [] then 0
      else let cleaned = strip (remove_all [CHR 0xA2] (remove_all (''GH'' @ [CHR 0xA2])
                          (remove_all ''GHS'' (remove_all '','' value))));
               cleaned = filter number_char (remove_all ''GHC'' cleaned)
           in if cleaned = [] then 0 else case read_float cleaned of None \<Rightarrow> 0 | Some v \<Rightarrow> v)"

subsection \<open>Reading rows\<close>

text \<open>
  A mapped row: its text fields, its money fields, and the flags the preview and the checks
  read.
\<close>

record import_row =
  ir_text :: "string \<Rightarrow> string option"
  ir_money :: "string \<Rightarrow> rat option"
  ir_invalid_employer_pf :: bool
  ir_missing_net_pay :: bool
  ir_missing_gross_pay :: bool
  ir_missing_total_deductions :: bool

definition rtext :: "import_row \<Rightarrow> string \<Rightarrow> string" where
  "rtext row field = text_or (ir_text row field) []"

definition rnum :: "import_row \<Rightarrow> string \<Rightarrow> rat" where
  "rnum row field = num_or_0 (ir_money row field)"

definition empty_row :: import_row where
  "empty_row = \<lparr>ir_text = Map.empty, ir_money = Map.empty, ir_invalid_employer_pf = False,
     ir_missing_net_pay = False, ir_missing_gross_pay = False, ir_missing_total_deductions = False\<rparr>"

text \<open>The value of a column: of several columns of one name, the first that is not empty.\<close>

definition scalar_cell_value :: "string list \<Rightarrow> string list \<Rightarrow> string \<Rightarrow> string" where
  "scalar_cell_value columns cells column =
     first_cell (filter (\<lambda>v. v \<noteq> []) (map snd (filter (\<lambda>(c, _). c = column) (zip columns cells))))"

definition INFINITE_TEXTS :: "string list" where
  "INFINITE_TEXTS = [''inf'', ''+inf'', ''-inf'', ''infinity'', ''+infinity'', ''-infinity'']"

definition TOTAL_LABELS :: "string list" where
  "TOTAL_LABELS = [''total'', ''grand total'', ''subtotal'', ''summary'']"

text \<open>One mapped column read into the row and into \<open>original_presence\<close>.\<close>

definition read_field ::
  "string list \<Rightarrow> string list \<Rightarrow> import_row \<times> (string \<Rightarrow> bool option) \<Rightarrow> string \<times> string
    \<Rightarrow> import_row \<times> (string \<Rightarrow> bool option)" where
  "read_field columns cells acc entry =
     (case (acc, entry) of ((row, presence), (column, field)) \<Rightarrow>
        if field = ''unmapped'' then (row, presence)
        else let value = scalar_cell_value columns cells column;
                 lowered = lower (strip value);
                 row = (if field = ''pf_fund_employer'' \<and> (lowered \<in> set INFINITE_TEXTS \<or> lowered = ''nan'')
                        then row\<lparr>ir_invalid_employer_pf := True\<rparr> else row)
             in (if field \<in> set MONEY_FIELDS then row\<lparr>ir_money := (ir_money row)(field \<mapsto> to_number value)\<rparr>
                 else row\<lparr>ir_text := (ir_text row)(field \<mapsto> strip value)\<rparr>,
                 presence(field \<mapsto> strip value \<notin> set [[], ''nan'', ''None''])))"

text \<open>\<open>" ".join\<close> of the identity fields is blank exactly when each is; a zero amount gives no text.\<close>

definition blank_row :: "import_row \<Rightarrow> bool" where
  "blank_row row \<longleftrightarrow>
     strip (rtext row ''staff_id'') = [] \<and> strip (rtext row ''full_name'') = [] \<and>
     list_all (\<lambda>f. rnum row f = 0) [''basic_salary'', ''gross_pay'', ''net_pay''] \<and>
     list_all (\<lambda>f. rnum row f = 0) MONEY_FIELDS"

definition DEFAULT_TEXTS :: "string list" where
  "DEFAULT_TEXTS =
     [''staff_id'', ''full_name'', ''ssnit_number'', ''ghana_card_number'', ''momo_number'', ''bank_name'', ''bank_branch'',
      ''bank_account_number'', ''status'', ''service_line'', ''job_role'', ''payroll_month'']"

definition set_defaults :: "(string \<Rightarrow> bool option) \<Rightarrow> import_row \<Rightarrow> import_row" where
  "set_defaults presence row =
     (let missing = (\<lambda>f. presence f \<noteq> Some True)
      in row\<lparr>ir_money := (\<lambda>f. if f \<in> set MONEY_FIELDS \<and> ir_money row f = None then Some 0 else ir_money row f),
             ir_text := (\<lambda>f. if f \<in> set DEFAULT_TEXTS \<and> ir_text row f = None then Some [] else ir_text row f),
             ir_missing_net_pay := missing ''net_pay'',
             ir_missing_gross_pay := missing ''gross_pay'',
             ir_missing_total_deductions := missing ''total_deductions''\<rparr>)"

definition put_money :: "string \<Rightarrow> rat \<Rightarrow> import_row \<Rightarrow> import_row" where
  "put_money field v row = row\<lparr>ir_money := (ir_money row)(field \<mapsto> v)\<rparr>"

definition fill_totals :: "import_row \<Rightarrow> import_row" where
  "fill_totals row =
     (let calculated_gross =
            fsum (rnum row ''basic_salary'')
              (map (rnum row) [''transport_allowance'', ''housing_allowance'', ''medical_allowance'', ''meal_allowance'',
                 ''productivity_bonus'', ''overtime_pay'', ''other_allowances'', ''pay_difference'', ''end_of_year_bonus'']);
          row = (if rnum row ''gross_pay'' = 0 \<and> calculated_gross \<noteq> 0 then put_money ''gross_pay'' calculated_gross row else row);
          statutory = fsum (rnum row ''paye'') (map (rnum row) [''ssnit'', ''tier_2_pension'']);
          itemized = fsum (rnum row ''loan_deduction'')
                       (map (rnum row) [''welfare_deduction'', ''iou_deduction'', ''other_deductions'']);
          row = (if rnum row ''total_deductions'' \<noteq> 0 then row
                 else if rnum row ''other_deductions'' \<ge> statutory \<and> statutory \<noteq> 0
                 then put_money ''total_deductions'' (rnum row ''other_deductions'') row
                 else put_money ''total_deductions'' (fadd statutory itemized) row)
      in if rnum row ''net_pay'' = 0 \<and> rnum row ''gross_pay'' \<noteq> 0
         then put_money ''net_pay'' (fsub (rnum row ''gross_pay'') (rnum row ''total_deductions'')) row else row)"

definition mapped_row :: "string list \<Rightarrow> (string \<times> string) list \<Rightarrow> string list \<Rightarrow> import_row option" where
  "mapped_row columns mapping cells =
     (if normalize_label (first_cell cells) \<in> set TOTAL_LABELS then None
      else case foldl (read_field columns cells) (empty_row, Map.empty) mapping of (row, presence) \<Rightarrow>
        if list_all (\<lambda>(_, field). field = ''unmapped'') mapping then None
        else if blank_row row then None
        else if normalize_label (if rtext row ''staff_id'' \<noteq> [] then rtext row ''staff_id'' else rtext row ''full_name'')
                  \<in> set TOTAL_LABELS then None
        else Some (fill_totals (set_defaults presence row)))"

definition mapped_rows_from_dataframe :: "string list \<Rightarrow> (string \<times> string) list \<Rightarrow> string list list \<Rightarrow> import_row list" where
  "mapped_rows_from_dataframe columns mapping data = List.map_filter (mapped_row columns mapping) data"

subsection \<open>Counts and totals\<close>

record worker_stats =
  ws_total_rows :: nat
  ws_total_unique_workers :: nat
  ws_duplicate_count :: nat

definition build_worker_key :: "import_row \<Rightarrow> string" where
  "build_worker_key row =
     (let staff_id = normalize_worker (rtext row ''staff_id''); full_name = normalize_worker (rtext row ''full_name'')
      in if staff_id \<noteq> [] then ''staff:'' @ staff_id else if full_name \<noteq> [] then ''name:'' @ full_name else [])"

fun count_workers :: "string list \<Rightarrow> nat \<Rightarrow> nat \<Rightarrow> import_row list \<Rightarrow> worker_stats" where
  "count_workers seen duplicates rows [] =
     \<lparr>ws_total_rows = rows, ws_total_unique_workers = length seen, ws_duplicate_count = duplicates\<rparr>"
| "count_workers seen duplicates rows (row # rest) =
     (let key = build_worker_key row
      in if key = [] then count_workers seen duplicates rows rest
         else if key \<in> set seen then count_workers seen (duplicates + 1) (rows + 1) rest
         else count_workers (key # seen) duplicates (rows + 1) rest)"

definition calculate_worker_stats :: "import_row list \<Rightarrow> worker_stats" where
  "calculate_worker_stats mapped_rows = count_workers [] 0 0 mapped_rows"

datatype worker_status = Terminated_worker | Inactive_worker | On_leave | Active_worker | Unknown_status

definition status_class :: "string \<Rightarrow> worker_status" where
  "status_class raw =
     (let status = normalize_label raw
      in if contains ''terminated'' status then Terminated_worker
         else if contains ''inactive'' status then Inactive_worker
         else if contains ''leave'' status then On_leave
         else if contains ''active'' status then Active_worker else Unknown_status)"

definition calculate_status_breakdown :: "import_row list \<Rightarrow> worker_status \<Rightarrow> nat" where
  "calculate_status_breakdown mapped_rows k =
     length (filter (\<lambda>row. status_class (rtext row ''status'') = k) mapped_rows)"

definition row_total :: "string \<Rightarrow> import_row list \<Rightarrow> rat" where
  "row_total field mapped_rows = fsum 0 (map (\<lambda>row. rnum row field) mapped_rows)"

subsection \<open>Extracting a sheet\<close>

record extraction =
  ex_sheet_name :: string
  ex_detected_header_row :: nat
  ex_data_start_row :: nat
  ex_columns :: "string list"
  ex_mapping :: "(string \<times> string) list"
  ex_mapping_errors :: "mapping_error list"
  ex_mapped_rows :: "import_row list"
  ex_ignored_rows :: nat

text \<open>\<open>_read_sheet_frame\<close>: the labelled columns, the non-empty data rows and the layout.\<close>

definition read_sheet_frame :: "string list list \<Rightarrow> string list \<times> string list list \<times> nat \<times> nat" where
  "read_sheet_frame rows =
     (let header_row = find_header_row rows; data_start = find_data_start rows header_row
      in (build_composite_columns rows header_row data_start,
          filter (\<lambda>row. \<not> list_all (\<lambda>v. v = []) row) (drop data_start rows), header_row, data_start))"

definition extract_payroll_sheet :: "sheet \<Rightarrow> extraction" where
  "extract_payroll_sheet sheet =
     (case read_sheet_frame (snd sheet) of (columns, data, header_row, data_start) \<Rightarrow>
        let mapping = map_columns columns;
            mapped_rows = mapped_rows_from_dataframe columns mapping data
        in \<lparr>ex_sheet_name = fst sheet, ex_detected_header_row = header_row + 1, ex_data_start_row = data_start + 1,
            ex_columns = columns, ex_mapping = mapping, ex_mapping_errors = mapping_conflicts mapping,
            ex_mapped_rows = mapped_rows, ex_ignored_rows = length data - length mapped_rows\<rparr>)"

end
