(* ===== verification/ImportChecks.thy ===== *)
theory ImportChecks
  imports ImportSheet Lifecycle
begin

text \<open>
  The checks of an import and its preview: warnings per row and per upload and the errors that
  stop a confirmation (\<open>app/validators.py\<close>), and the payload built from a workbook, from one
  sheet or from one sheet per client (\<open>app/payroll.py\<close>).
\<close>

subsection \<open>The database of the import\<close>

text \<open>
  The lifecycle's database with what the import reads and writes beside it: clients, rate
  versions, and the columns of employees, items and runs that no other part reads, by row id.
  An import batch is its entry in \<open>lf_imports\<close>, which the deletion of a run removes, and the rest
  of its columns.
\<close>

record client_company =
  cc_id :: int
  cc_name :: string
  cc_status :: string

record validation =
  vd_summary_warnings :: "string list"
  vd_per_row_warnings :: "(nat \<times> string list) list"
  vd_duplicate_keys :: "string list"

record import_summary =
  is_total_rows :: nat
  is_valid_rows :: nat
  is_invalid_rows :: nat
  is_gross_total :: rat
  is_net_total :: rat
  is_paye_total :: rat
  is_ssnit_total :: rat
  is_deductions_total :: rat

record run_payload =
  ip_source_filename :: string
  ip_matched_sheet_name :: string
  ip_detected_header_row :: nat
  ip_client_company_id :: int
  ip_client_company_name :: string
  ip_month :: string
  ip_year :: int
  ip_columns :: "string list"
  ip_mapping :: "(string \<times> string) list"
  ip_mapped_rows :: "import_row list"
  ip_worker_stats :: worker_stats
  ip_status_breakdown :: "worker_status \<Rightarrow> nat"
  ip_import_summary :: import_summary
  ip_detected_company_name :: "string option"
  ip_validation :: "validation option"

text \<open>A stored payload; a payload stored before validations were has none.\<close>

datatype payload = Single_client run_payload | Multi_client "run_payload list" | Empty_payload

record import_batch =
  ib_id :: int
  ib_client :: int
  ib_month :: string
  ib_year :: int
  ib_uploaded_by :: int
  ib_original_filename :: string
  ib_status :: string
  ib_total_rows :: nat
  ib_valid_rows :: nat
  ib_invalid_rows :: nat
  ib_total_workers :: nat
  ib_gross_total :: rat
  ib_net_total :: rat
  ib_paye_total :: rat
  ib_ssnit_total :: rat
  ib_validation_summary :: "string list"
  ib_payload :: payload

record run_import =
  ri_created_by :: int
  ri_unique_workers :: nat
  ri_rows_imported :: nat
  ri_duplicates_found :: nat
  ri_source_filename :: string
  ri_source_sheet_name :: string
  ri_detected_header_row :: nat
  ri_import_mode :: string
  ri_import_type :: string
  ri_detected_company_name :: "string option"
  ri_status_breakdown :: "worker_status \<Rightarrow> nat"

record import_db =
  im_life :: life_db
  im_rates :: "statutory_rate list"
  im_clients :: "client_company list"
  im_employee_text :: "int \<Rightarrow> string \<Rightarrow> string option"
  im_item_text :: "int \<Rightarrow> string \<Rightarrow> string option"
  im_run_import :: "int \<Rightarrow> run_import option"
  im_batches :: "import_batch list"

definition send_of :: "import_db \<Rightarrow> send_db" where
  "send_of db = qd_send (lf_queue (im_life db))"

definition client_of :: "import_db \<Rightarrow> int \<Rightarrow> client_company option" where
  "client_of db k = first_row (\<lambda>c. cc_id c = k) (im_clients db)"

subsection \<open>Errors that stop a confirmation\<close>

datatype blocking_error =
    Mapping_conflict mapping_error
  | Bad_employer_pf string
  | Shifted_rows string nat
  | No_basic_salary "string list"

definition row_who :: "import_row \<Rightarrow> string \<Rightarrow> string" where
  "row_who row fallback =
     (if rtext row ''staff_id'' \<noteq> [] then rtext row ''staff_id''
      else if rtext row ''full_name'' \<noteq> [] then rtext row ''full_name'' else fallback)"

text \<open>A status that excuses a row from having a basic salary.\<close>

definition left_status :: "import_row \<Rightarrow> bool" where
  "left_status row \<longleftrightarrow>
     (let status = normalize_label (rtext row ''status'') in contains ''inactive'' status \<or> contains ''terminated'' status)"

definition collect_blocking_errors :: "import_row list \<Rightarrow> string option \<Rightarrow> blocking_error list" where
  "collect_blocking_errors mapped_rows detected_company_name =
     (let detected = text_or detected_company_name [];
          shifted = filter (\<lambda>row. build_worker_key row \<noteq> [] \<and> looks_like_header_label True (rtext row ''full_name'')) mapped_rows;
          zero_basic = filter (\<lambda>row. build_worker_key row \<noteq> [] \<and> \<not> left_status row \<and> rnum row ''basic_salary'' \<le> 0) mapped_rows
      in map (\<lambda>row. Bad_employer_pf (row_who row ''Unknown employee''))
           (filter (\<lambda>row. ir_invalid_employer_pf row \<or> \<not> 0 \<le> rnum row ''pf_fund_employer'') mapped_rows) @
         (if detected \<noteq> [] \<and> looks_like_header_label False detected \<and> shifted \<noteq> []
          then [Shifted_rows detected (length shifted)] else []) @
         (if zero_basic \<noteq> [] then [No_basic_salary (map (\<lambda>row. strip (row_who row ''?'')) zero_basic)] else []))"

definition import_blocking_errors :: "run_payload \<Rightarrow> blocking_error list" where
  "import_blocking_errors p =
     map Mapping_conflict (mapping_conflicts (ip_mapping p)) @
     collect_blocking_errors (ip_mapped_rows p) (ip_detected_company_name p)"

subsection \<open>Warnings\<close>

text \<open>The em dash of the messages, in UTF-8.\<close>

definition em_dash :: string where
  "em_dash = [CHR 0xE2, CHR 0x80, CHR 0x94]"

definition warn_if :: "bool \<Rightarrow> string \<Rightarrow> string list" where
  "warn_if b message = (if b then [message] else [])"

text \<open>\<open>employees_by_staff_id\<close> gives the SSNIT number the roster holds for a staff id.\<close>

definition validate_single_row :: "(string \<Rightarrow> string option) \<Rightarrow> import_row \<Rightarrow> string list" where
  "validate_single_row roster_ssnit row =
     (let staff_id = strip (rtext row ''staff_id''); full_name = strip (rtext row ''full_name'');
          ssnit_number = strip (rtext row ''ssnit_number''); ghana_card_number = strip (rtext row ''ghana_card_number'');
          bank_account_number = strip (rtext row ''bank_account_number''); momo_number = strip (rtext row ''momo_number'');
          status = normalize_label (rtext row ''status''); n = rnum row; net_pay = n ''net_pay'';
          gross_pay = n ''gross_pay''; basic_salary = n ''basic_salary'';
          calculated_gross = fsum basic_salary (map n
            [''transport_allowance'', ''housing_allowance'', ''medical_allowance'', ''meal_allowance'', ''productivity_bonus'',
             ''end_of_year_bonus'', ''overtime_pay'', ''other_allowances'', ''pay_difference'']);
          total_deductions = fsum (n ''paye'') (map n
            [''ssnit'', ''tier_2_pension'', ''pf_fund_employee'', ''loan_deduction'', ''welfare_deduction'', ''iou_deduction'',
             ''other_deductions'']);
          expected_net_pay = fadd (fsub gross_pay total_deductions) (n ''loan_advance'')
      in warn_if (staff_id = []) ''Missing staff ID.'' @
         (if full_name = [] then [''Missing employee name.'']
          else warn_if (looks_like_header_label True full_name)
                 (''Employee name \"'' @ full_name @ ''\" looks like a column heading or placeholder, not a real name '' @
                  em_dash @ '' the upload may have the wrong header row.'')) @
         warn_if (ssnit_number = [] \<and> (staff_id = [] \<or> text_or (roster_ssnit staff_id) [] = [])) ''Missing SSNIT number.'' @
         warn_if (ghana_card_number = []) ''Missing Ghana Card number.'' @
         warn_if (bank_account_number = [] \<and> momo_number = []) ''Missing bank and MoMo details.'' @
         warn_if (ir_missing_net_pay row) ''Net pay not provided; Payrolla will calculate it on confirm.'' @
         warn_if (net_pay < 0) ''Negative net pay.'' @
         warn_if (list_ex (\<lambda>f. n f < 0)
             [''basic_salary'', ''gross_pay'', ''paye'', ''ssnit'', ''tier_2_pension'', ''pf_fund_employee'', ''pf_fund_employer'',
              ''loan_deduction'', ''welfare_deduction'', ''iou_deduction'', ''other_deductions'', ''total_deductions'', ''net_pay''])
           ''Negative salary or deduction value.'' @
         warn_if (basic_salary \<le> 0 \<and> \<not> contains ''inactive'' status \<and> \<not> contains ''terminated'' status)
           (''No basic salary '' @ em_dash @ '' every derived figure will be zero; the import will be blocked until this is fixed.'') @
         warn_if (gross_pay < basic_salary) ''Gross pay is less than basic salary.'' @
         warn_if (\<bar>fsub gross_pay calculated_gross\<bar> > 1) ''Gross pay does not match allowance calculation.'' @
         warn_if (\<bar>fsub net_pay expected_net_pay\<bar> > 1)
           ''Uploaded net pay doesn't reconcile with its components; Payrolla recalculates all figures on confirm.'' @
         warn_if (n ''paye'' = 0) ''PAYE not provided; Payrolla will calculate it on confirm.'' @
         warn_if (n ''ssnit'' = 0) ''SSNIT not provided; Payrolla will calculate it on confirm.'' @
         warn_if (contains ''inactive'' status) ''Inactive worker appears in payroll.'' @
         warn_if (contains ''terminated'' status) ''Terminated worker appears in payroll.'' @
         warn_if (gross_pay \<ge> 20000) ''Very high salary.'' @
         warn_if (gross_pay \<le> 0 \<and> net_pay \<le> 0) ''Zero salary.'' @
         warn_if (gross_pay \<noteq> 0 \<and> n ''total_deductions'' > fmul gross_pay (fl (6 / 10))) ''Very high deductions.'')"

text \<open>Keys in order, and those that occur again.\<close>

fun repeated_keys :: "string list \<Rightarrow> string list \<Rightarrow> string list" where
  "repeated_keys seen [] = []"
| "repeated_keys seen (key # keys) =
     (if key \<in> set seen then List.insert key (repeated_keys seen keys) else repeated_keys (key # seen) keys)"

definition worker_keys :: "import_row list \<Rightarrow> string list" where
  "worker_keys rows = filter (\<lambda>k. k \<noteq> []) (map build_worker_key rows)"

definition file_values :: "string \<Rightarrow> import_row list \<Rightarrow> string list" where
  "file_values field rows = filter (\<lambda>v. v \<noteq> []) (map (\<lambda>row. strip (rtext row field)) rows)"

text \<open>
  Workers of other clients' runs of the period; a run without a client does not satisfy
  \<open>client_company_id != id\<close> in SQL.
\<close>

definition cross_client_items :: "import_db \<Rightarrow> int \<Rightarrow> string \<Rightarrow> int \<Rightarrow> import_row list \<Rightarrow> (payroll_item \<times> string) list" where
  "cross_client_items db client month year rows =
     List.map_filter (\<lambda>item.
       case first_row (\<lambda>r. run_id r = item_run item) (sd_runs (send_of db)) of
         None \<Rightarrow> None
       | Some run \<Rightarrow>
           (case run_client_company_id run of
              None \<Rightarrow> None
            | Some c \<Rightarrow>
                if run_month run = month \<and> run_year run = year \<and> c \<noteq> client \<and>
                   (text_or (item_staff_id item) [] \<in> set (file_values ''staff_id'' rows) \<or>
                    text_or (item_full_name item) [] \<in> set (file_values ''full_name'' rows))
                then Some (item, case client_of db c of Some o' \<Rightarrow> cc_name o' | None \<Rightarrow> ''another client'')
                else None)) (sd_items (send_of db))"

definition other_client :: "(payroll_item \<times> string) list \<Rightarrow> import_row \<Rightarrow> string option" where
  "other_client items row =
     (let by = (\<lambda>f key. map_option snd (first_row (\<lambda>(i, _). text_or (f i) [] = key \<and> key \<noteq> []) items));
          named = (\<lambda>o'. if o' = Some [] then None else o')
      in case named (by item_staff_id (strip (rtext row ''staff_id''))) of
           Some name \<Rightarrow> Some name
         | None \<Rightarrow> named (by item_full_name (strip (rtext row ''full_name''))))"

text \<open>The employees with a staff id of the file, of any client, last of equal ids.\<close>

definition ssnit_by_staff_id :: "import_db \<Rightarrow> import_row list \<Rightarrow> string \<Rightarrow> string option" where
  "ssnit_by_staff_id db rows =
     map_of (rev (map (\<lambda>e. (emp_staff_id e, text_or (im_employee_text db (emp_id e) ''ssnit_number'') []))
                    (filter (\<lambda>e. emp_staff_id e \<in> set (file_values ''staff_id'' rows)) (sd_employees (send_of db)))))"

definition latest_closed_run :: "import_db \<Rightarrow> int \<Rightarrow> payroll_run option" where
  "latest_closed_run db client =
     (let closed = filter (\<lambda>r. run_client_company_id r = Some client \<and> run_status r \<in> set CLOSED_STATUSES) (sd_runs (send_of db))
      in case max_row run_year closed of
           None \<Rightarrow> None
         | Some latest \<Rightarrow> max_row run_created_at (filter (\<lambda>r. run_year r = run_year latest) closed))"

definition previous_run_warnings :: "payroll_run option \<Rightarrow> import_row list \<Rightarrow> string list" where
  "previous_run_warnings previous rows =
     (case previous of
        None \<Rightarrow> []
      | Some run \<Rightarrow>
          (let net = num_or_0 (run_total_net_pay run); workers = (case run_total_workers run of None \<Rightarrow> 0 | Some w \<Rightarrow> w);
               current = int (card (set (worker_keys rows)))
           in if net = 0 then []
              else warn_if (row_total ''net_pay'' rows > fmul net (3 / 2))
                     ''Payroll total is unusually higher than a previous approved payroll.'' @
                   warn_if (workers \<noteq> 0 \<and> rat_of_int \<bar>current - workers\<bar> > max 5 (fmul (rat_of_int workers) (1 / 4)))
                     ''Worker count changed significantly from a previous approved payroll.''))"

definition row_warnings :: "import_db \<Rightarrow> int \<Rightarrow> string \<Rightarrow> int \<Rightarrow> import_row list \<Rightarrow> import_row \<Rightarrow> string list" where
  "row_warnings db client month year rows row =
     (let key = build_worker_key row
      in validate_single_row (ssnit_by_staff_id db rows) row @
         warn_if (key \<noteq> [] \<and> key \<in> set (repeated_keys [] (worker_keys rows)))
           ''Worker appears more than once in this client payroll.'' @
         (if key = [] then []
          else case other_client (cross_client_items db client month year rows) row of
                 None \<Rightarrow> []
               | Some name \<Rightarrow> [''Worker also appears in '' @ name @ '' payroll for '' @ month @ '' '' @ str_int year @ ''.'']))"

definition validate_payroll_rows :: "import_db \<Rightarrow> client_company \<Rightarrow> string \<Rightarrow> int \<Rightarrow> import_row list \<Rightarrow> validation" where
  "validate_payroll_rows db client month year rows =
     (let duplicate_keys = repeated_keys [] (worker_keys rows);
          missing_bank = length (filter (\<lambda>row. strip (rtext row ''bank_account_number'') = []) rows);
          non_blank = length (worker_keys rows);
          warnings = map (\<lambda>row. row_warnings db (cc_id client) month year rows row) rows
      in \<lparr>vd_summary_warnings =
            warn_if (has_duplicate_payroll (cc_id client) month year (im_life db))
              (''Payroll already exists for '' @ cc_name client @ '' in '' @ month @ '' '' @ str_int year @ ''.'') @
            warn_if (duplicate_keys \<noteq> [])
              (str_int (int (length duplicate_keys)) @ '' worker identifier(s) appear more than once in this upload.'') @
            warn_if (non_blank \<noteq> 0 \<and> fdiv (rat_of_nat missing_bank) (rat_of_nat non_blank) \<ge> 1 / 2)
              ''Majority of workers are missing bank account details.'' @
            warn_if (row_total ''paye'' rows \<le> 0)
              (''No PAYE in the upload '' @ em_dash @ '' Payrolla will calculate it when the run is confirmed.'') @
            warn_if (row_total ''ssnit'' rows \<le> 0)
              (''No SSNIT in the upload '' @ em_dash @ '' Payrolla will calculate it when the run is confirmed.'') @
            previous_run_warnings (latest_closed_run db (cc_id client)) rows,
          vd_per_row_warnings = filter (\<lambda>(_, ws). ws \<noteq> []) (enumerate 1 warnings),
          vd_duplicate_keys = duplicate_keys\<rparr>)"

end
