(* ===== verification/ImportConfirm.thy ===== *)
theory ImportConfirm
  imports ImportChecks
begin

text \<open>
  The import routes: the upload that builds and stores a payload (\<open>app/payroll.py\<close>), and its
  confirmation, which creates the run, its rows and the missing employees and calculates it, by
  the operator (\<open>app/payroll.py\<close>) or by the client itself (\<open>app/client/__init__.py\<close>).
\<close>

subsection \<open>Building a payload\<close>

definition quoted :: "string \<Rightarrow> string" where
  "quoted s = [CHR 0x27] @ s @ [CHR 0x27]"

definition mapping_error_text :: "mapping_error \<Rightarrow> string" where
  "mapping_error_text e =
     (case e of
        Claimed_by field columns \<Rightarrow>
          ''Field '' @ quoted field @ '' is claimed by '' @ digits (length columns) @ '' columns ('' @ join_with '', '' columns @
          ''). Each payroll figure must come from exactly one column '' @ em_dash @ '' refusing to guess which.''
      | Mandatory_missing field \<Rightarrow>
          ''Mandatory column '' @ quoted field @ '' was not found in the sheet header '' @ em_dash @
          '' the import cannot proceed without it.'')"

definition summarize_import :: "import_row list \<Rightarrow> validation \<Rightarrow> import_summary" where
  "summarize_import rows v =
     (let invalid = length (vd_per_row_warnings v)
      in \<lparr>is_total_rows = length rows, is_valid_rows = length rows - invalid, is_invalid_rows = invalid,
          is_gross_total = row_total ''gross_pay'' rows, is_net_total = row_total ''net_pay'' rows,
          is_paye_total = row_total ''paye'' rows, is_ssnit_total = row_total ''ssnit'' rows,
          is_deductions_total = row_total ''total_deductions'' rows\<rparr>)"

definition basename :: "string \<Rightarrow> string" where
  "basename path = last (split_on (CHR ''/'') path)"

definition build_run_payload_from_extraction ::
  "import_db \<Rightarrow> extraction \<Rightarrow> import_row list \<Rightarrow> string \<Rightarrow> client_company \<Rightarrow> string \<Rightarrow> int \<Rightarrow> run_payload" where
  "build_run_payload_from_extraction db ex rows source_filename client month year =
     (let v = validate_payroll_rows db client month year rows;
          v = v\<lparr>vd_summary_warnings := vd_summary_warnings v @ map mapping_error_text (ex_mapping_errors ex)\<rparr>
      in \<lparr>ip_source_filename = basename source_filename, ip_matched_sheet_name = ex_sheet_name ex,
          ip_detected_header_row = ex_detected_header_row ex, ip_client_company_id = cc_id client,
          ip_client_company_name = cc_name client, ip_month = month, ip_year = year, ip_columns = ex_columns ex,
          ip_mapping = ex_mapping ex, ip_mapped_rows = rows, ip_worker_stats = calculate_worker_stats rows,
          ip_status_breakdown = calculate_status_breakdown rows, ip_import_summary = summarize_import rows v,
          ip_detected_company_name = None, ip_validation = Some v\<rparr>)"

datatype upload_error = No_candidates | No_matching_sheet "string list" | No_worker_rows string | No_matched_client

definition build_single_payload ::
  "import_db \<Rightarrow> sheet list \<Rightarrow> string \<Rightarrow> client_company \<Rightarrow> string \<Rightarrow> int \<Rightarrow> string option \<Rightarrow> upload_error + run_payload" where
  "build_single_payload db workbook source_filename client month year selected =
     (let candidates = map fst (payroll_sheet_candidates workbook);
          named = (\<lambda>s. text_or s [] \<noteq> []);
          matched = (if named selected then selected else match_client_sheet (cc_name client) candidates);
          matched = (if \<not> named matched \<and> length candidates = 1 then Some (hd candidates) else matched)
      in if candidates = [] then raise No_candidates
         else if \<not> named matched then raise (No_matching_sheet candidates)
         else let name = text_or matched [];
                  ex = extract_payroll_sheet (name, case map_of workbook name of Some rows \<Rightarrow> rows | None \<Rightarrow> []);
                  rows = ex_mapped_rows ex
              in if rows = [] then raise (No_worker_rows name)
                 else return ((build_run_payload_from_extraction db ex rows source_filename client month year)
                                \<lparr>ip_source_filename := source_filename\<rparr>))"

definition match_client_for_sheet :: "string \<Rightarrow> client_company list \<Rightarrow> client_company option" where
  "match_client_for_sheet sheet_name clients =
     first_row (\<lambda>c. text_or (match_client_sheet (cc_name c) [sheet_name]) [] \<noteq> []) clients"

definition is_consolidated_sheet :: "string \<Rightarrow> bool" where
  "is_consolidated_sheet sheet_name \<longleftrightarrow>
     (let normalized = normalize_company_key False sheet_name
      in starts_with ''consolidated'' normalized \<or> starts_with ''mixed'' normalized)"

text \<open>The rows of a consolidated sheet by the text of their client column, in order of appearance.\<close>

definition grouped_rows :: "import_row list \<Rightarrow> (string \<times> import_row list) list" where
  "grouped_rows rows =
     foldl (\<lambda>groups row. let name = strip (rtext row ''client_company'') in if name = [] then groups else append_to name row groups)
       [] rows"

text \<open>One sheet: the runs it adds and the names it leaves unmatched.\<close>

definition sheet_runs ::
  "import_db \<Rightarrow> client_company list \<Rightarrow> string \<Rightarrow> string \<Rightarrow> int \<Rightarrow> sheet \<Rightarrow> upload_error + (run_payload list \<times> string list)" where
  "sheet_runs db clients source_filename month year sheet =
     (let ex = extract_payroll_sheet sheet;
          payload = (\<lambda>rows client. build_run_payload_from_extraction db ex rows source_filename client month year)
      in if is_consolidated_sheet (fst sheet) then
           if ex_mapped_rows ex = [] then raise (No_worker_rows (fst sheet))
           else let groups = grouped_rows (ex_mapped_rows ex)
                in if groups = [] then return ([], [fst sheet])
                   else return
                     (List.map_filter (\<lambda>(name, rows). map_option (payload rows) (match_client_for_sheet name clients)) groups,
                      map (\<lambda>(name, _). fst sheet @ '' - '' @ name)
                        (filter (\<lambda>(name, _). match_client_for_sheet name clients = None) groups))
         else case match_client_for_sheet (fst sheet) clients of
             None \<Rightarrow> return ([], [fst sheet])
           | Some client \<Rightarrow>
               if ex_mapped_rows ex = [] then raise (No_worker_rows (fst sheet))
               else return ([payload (ex_mapped_rows ex) client], []))"

fun all_sheet_runs ::
  "(sheet \<Rightarrow> upload_error + (run_payload list \<times> string list)) \<Rightarrow> sheet list \<Rightarrow> upload_error + (run_payload list \<times> string list)" where
  "all_sheet_runs runs_of [] = return ([], [])"
| "all_sheet_runs runs_of (sheet # sheets) =
     bind_result (runs_of sheet) (\<lambda>(runs, unmatched).
       bind_result (all_sheet_runs runs_of sheets) (\<lambda>(runs', unmatched'). return (runs @ runs', unmatched @ unmatched')))"

definition build_multi_client_payload ::
  "import_db \<Rightarrow> sheet list \<Rightarrow> string \<Rightarrow> string \<Rightarrow> int \<Rightarrow> upload_error + (run_payload list \<times> string list)" where
  "build_multi_client_payload db workbook source_filename month year =
     (let clients = filter (\<lambda>c. cc_status c = ''Active'') (im_clients db); candidates = payroll_sheet_candidates workbook
      in if candidates = [] then raise No_candidates
         else bind_result (all_sheet_runs (sheet_runs db clients source_filename month year) candidates) (\<lambda>(runs, unmatched).
           if runs = [] then raise No_matched_client else return (runs, unmatched)))"

subsection \<open>The upload\<close>

text \<open>What the upload's checks and pandas make of the file.\<close>

datatype uploaded_file = Refused_file | Raw_hours_file | Workbook "sheet list"

definition allowed_excel_file :: "string \<Rightarrow> bool" where
  "allowed_excel_file filename \<longleftrightarrow>
     CHR ''.'' \<in> set filename \<and> lower (last (split_on (CHR ''.'') filename)) \<in> set [''xlsx'', ''xls'', ''csv'']"

datatype upload_reply =
    Upload_refused guard_outcome | Select_client | Choose_file | Wrong_type | Unsafe_file | Use_raw_tab | Unknown_client
  | Not_imported upload_error | Previewed int

definition fresh_key :: "int list \<Rightarrow> int" where
  "fresh_key ids = 1 + foldr max ids 0"

definition store_batch :: "int \<Rightarrow> string \<Rightarrow> string \<Rightarrow> int \<Rightarrow> string \<Rightarrow> string \<Rightarrow> int \<Rightarrow> run_payload list \<Rightarrow> payload \<Rightarrow> import_db \<Rightarrow> import_db \<times> int" where
  "store_batch uploader action status client source_filename month year runs payload db =
     (let k = fresh_key (map ib_id (im_batches db));
          total = (\<lambda>f. fsum 0 (map (f \<circ> ip_import_summary) runs)); count = (\<lambda>f. sum_list (map (f \<circ> ip_import_summary) runs));
          batch = \<lparr>ib_id = k, ib_client = client, ib_month = month, ib_year = year, ib_uploaded_by = uploader,
                   ib_original_filename = source_filename, ib_status = status, ib_total_rows = count is_total_rows,
                   ib_valid_rows = count is_valid_rows, ib_invalid_rows = count is_invalid_rows,
                   ib_total_workers = sum_list (map (ws_total_unique_workers \<circ> ip_worker_stats) runs),
                   ib_gross_total = total is_gross_total, ib_net_total = total is_net_total, ib_paye_total = total is_paye_total,
                   ib_ssnit_total = total is_ssnit_total,
                   ib_validation_summary = concat (map (\<lambda>p. case ip_validation p of None \<Rightarrow> [] | Some v \<Rightarrow> vd_summary_warnings v) runs),
                   ib_payload = payload\<rparr>;
          life = im_life db
      in (db\<lparr>im_batches := im_batches db @ [batch],
             im_life := record_audit action k (life\<lparr>lf_imports := lf_imports life @ [(k, None)]\<rparr>)\<rparr>, k))"

definition handle_payroll_upload ::
  "user \<Rightarrow> bool \<Rightarrow> int option \<Rightarrow> string \<Rightarrow> int \<Rightarrow> (string \<times> uploaded_file) option \<Rightarrow> import_db \<Rightarrow> import_db \<times> upload_reply" where
  "handle_payroll_upload u multi client_id month year upload db =
     (if role_required PAYROLL_IMPORT_ROLES u \<noteq> Serve then (db, Upload_refused (role_required PAYROLL_IMPORT_ROLES u))
      else if \<not> multi \<and> client_id = None then (db, Select_client)
      else case upload of
        None \<Rightarrow> (db, Choose_file)
      | Some (filename, file) \<Rightarrow>
          if filename = [] then (db, Choose_file)
          else if \<not> allowed_excel_file filename then (db, Wrong_type)
          else (case file of
            Refused_file \<Rightarrow> (db, Unsafe_file)
          | Raw_hours_file \<Rightarrow> (db, Use_raw_tab)
          | Workbook workbook \<Rightarrow>
              if multi then
                (case build_multi_client_payload db workbook filename month year of
                   Inl e \<Rightarrow> (db, Not_imported e)
                 | Inr (runs, _) \<Rightarrow>
                     (case store_batch (user_id u) ''Payroll upload'' ''Previewed'' (ip_client_company_id (hd runs)) filename month year
                             runs (Multi_client runs) db of (db, k) \<Rightarrow> (db, Previewed k)))
              else
                (case Option.bind client_id (client_of db) of
                   None \<Rightarrow> (db, Unknown_client)
                 | Some client \<Rightarrow>
                     (case build_single_payload db workbook filename client month year None of
                        Inl e \<Rightarrow> (db, Not_imported e)
                      | Inr p \<Rightarrow>
                          (case store_batch (user_id u) ''Payroll upload'' ''Previewed'' (cc_id client) filename month year [p]
                                  (Single_client p) db of (db, k) \<Rightarrow> (db, Previewed k))))))"

subsection \<open>Employees and items of a confirmed import\<close>

text \<open>\<open>xs or ys\<close> on a text column that may be absent.\<close>

definition or_text :: "string option \<Rightarrow> string option \<Rightarrow> string option" where
  "or_text a b = (if text_or a [] = [] then b else a)"

definition map_life_send :: "(send_db \<Rightarrow> send_db) \<Rightarrow> import_db \<Rightarrow> import_db" where
  "map_life_send f db = db\<lparr>im_life := map_send f (im_life db)\<rparr>"

definition imported_employee :: "int \<Rightarrow> string \<Rightarrow> int \<Rightarrow> raw_employee" where
  "imported_employee k staff_id client =
     \<lparr>emp_id = k, emp_staff_id = staff_id, emp_basic_salary = Some 0, emp_tax_relief_monthly = Some 0,
      emp_overtime_is_junior = None, emp_overtime_qualifying_annual_income = None, emp_overtime_income_year = None,
      emp_pf_scheme_approved = Some False, emp_pf_scheme_reference = None, emp_tax_relief_approvals = [],
      emp_tax_relief_approval_ref = None, emp_tax_relief_valid_from = None, emp_tax_relief_valid_to = None,
      emp_client = client, emp_full_name = [], emp_bank_branch = None, emp_email = None, emp_phone = None,
      emp_momo_number = None, emp_status = Some ''Active'', emp_preferred_channel = None, emp_pay_type = None,
      emp_icu_member = Some False\<rparr>"

definition IMPORTED_TEXT :: "string \<Rightarrow> string option" where
  "IMPORTED_TEXT = [''employment_type'' \<mapsto> ''Imported Payroll Worker'', ''service_line'' \<mapsto> ''Personnel Outsourcing'']"

definition import_staff_id :: "int \<Rightarrow> int \<Rightarrow> nat \<Rightarrow> import_row \<Rightarrow> string" where
  "import_staff_id client run index row =
     (let staff_id = normalise_emp_id (rtext row ''staff_id'')
      in if staff_id \<noteq> [] then staff_id
         else ''IMPORT-'' @ str_int client @ ''-'' @ str_int run @ ''-'' @ digits index)"

definition import_full_name :: "string \<Rightarrow> import_row \<Rightarrow> string" where
  "import_full_name staff_id row =
     (let full_name = strip (rtext row ''full_name'') in if full_name \<noteq> [] then full_name else ''Imported Worker '' @ staff_id)"

definition update_employee :: "string \<Rightarrow> import_row \<Rightarrow> raw_employee \<Rightarrow> raw_employee" where
  "update_employee full_name row e =
     (let t = ir_text row; basic = rnum row ''basic_salary''
      in e\<lparr>emp_full_name := full_name,
           emp_bank_branch := or_text (t ''bank_branch'') (emp_bank_branch e),
           emp_momo_number := or_text (t ''momo_number'') (emp_momo_number e),
           emp_email := or_text (t ''email'') (emp_email e),
           emp_status := or_text (t ''status'') (emp_status e),
           emp_basic_salary := Some (if basic \<noteq> 0 then basic else num_or_0 (emp_basic_salary e))\<rparr>)"

definition update_employee_text :: "string \<Rightarrow> import_row \<Rightarrow> (string \<Rightarrow> string option) \<Rightarrow> string \<Rightarrow> string option" where
  "update_employee_text client_name row old =
     (\<lambda>f. if f \<in> set [''ssnit_number'', ''ghana_card_number'', ''bank_name'', ''bank_account_number'', ''service_line'']
          then or_text (ir_text row f) (old f)
          else if f = ''assigned_client'' then Some client_name else old f)"

text \<open>The roster maps normalised staff ids to employees, found or made; the employee's id is returned.\<close>

definition create_or_update_employee_from_import ::
  "client_company \<Rightarrow> int \<Rightarrow> nat \<Rightarrow> import_row \<Rightarrow> import_db \<times> (string \<Rightarrow> int option) \<Rightarrow> (import_db \<times> (string \<Rightarrow> int option)) \<times> int" where
  "create_or_update_employee_from_import client run index row acc =
     (case acc of (db, roster) \<Rightarrow>
        let staff_id = import_staff_id (cc_id client) run index row;
            (db, roster, k) =
              (case roster staff_id of
                 Some k \<Rightarrow> (db, roster, k)
               | None \<Rightarrow>
                   (let k = fresh_key (map emp_id (sd_employees (send_of db)))
                    in ((map_life_send (\<lambda>s. s\<lparr>sd_employees := sd_employees s @ [imported_employee k staff_id (cc_id client)]\<rparr>) db)
                          \<lparr>im_employee_text := (im_employee_text db)(k := IMPORTED_TEXT)\<rparr>,
                        roster(staff_id \<mapsto> k), k)));
            db = map_life_send (\<lambda>s. s\<lparr>sd_employees :=
                   update_row emp_id k (update_employee (import_full_name staff_id row) row) (sd_employees s)\<rparr>) db;
            db = db\<lparr>im_employee_text := (im_employee_text db)(k := update_employee_text (cc_name client) row (im_employee_text db k))\<rparr>
        in ((db, roster), k))"

definition import_item :: "int \<Rightarrow> int \<Rightarrow> int \<Rightarrow> string list \<Rightarrow> import_row \<Rightarrow> payroll_item" where
  "import_item k run employee warnings row =
     \<lparr>item_id = k, item_run = run, item_employee = Some employee, item_staff_id = ir_text row ''staff_id'',
      item_full_name = ir_text row ''full_name'', item_email = ir_text row ''email'',
      item_momo_number = ir_text row ''momo_number'', item_bank_branch = ir_text row ''bank_branch'',
      item_money = (\<lambda>f. if f \<in> set MONEY_FIELDS then Some (rnum row f) else None),
      item_validation_status = (if warnings \<noteq> [] then ''Warning'' else ''OK''),
      item_warning_notes = Some (join_with ''; '' warnings), item_token_version = 0\<rparr>"

definition import_item_text :: "import_row \<Rightarrow> string \<Rightarrow> string option" where
  "import_item_text row =
     (\<lambda>f. if f \<in> set [''status'', ''service_line'', ''job_role'', ''payroll_month'', ''ssnit_number'', ''ghana_card_number'',
                       ''bank_name'', ''bank_account_number'']
          then ir_text row f else if f = ''overtime_source'' then Some ''manual'' else None)"

definition nameless :: "import_row \<Rightarrow> bool" where
  "nameless row \<longleftrightarrow> strip (rtext row ''staff_id'') = [] \<and> strip (rtext row ''full_name'') = []"

definition import_one_row ::
  "client_company \<Rightarrow> int \<Rightarrow> validation \<Rightarrow> import_db \<times> (string \<Rightarrow> int option) \<Rightarrow> nat \<times> import_row
    \<Rightarrow> import_db \<times> (string \<Rightarrow> int option)" where
  "import_one_row client run v acc entry =
     (case entry of (index, row) \<Rightarrow>
        if nameless row then acc
        else case create_or_update_employee_from_import client run index row acc of ((db, roster), employee) \<Rightarrow>
          let k = fresh_key (map item_id (sd_items (send_of db)));
              warnings = (case map_of (vd_per_row_warnings v) index of None \<Rightarrow> [] | Some ws \<Rightarrow> ws);
              db = map_life_send (\<lambda>s. s\<lparr>sd_items := sd_items s @ [import_item k run employee warnings row]\<rparr>) db
          in (db\<lparr>im_item_text := (im_item_text db)(k := import_item_text row)\<rparr>, roster))"

text \<open>\<open>{normalise_emp_id(e.staff_id): e}\<close> over the client's employees.\<close>

definition roster_keys :: "int \<Rightarrow> raw_employee list \<Rightarrow> string \<Rightarrow> int option" where
  "roster_keys client employees key = map_option emp_id (roster_of client employees key)"

subsection \<open>The run\<close>

definition calculate_on_confirm :: "payroll_run \<Rightarrow> import_db \<Rightarrow> import_db \<times> auto_outcome" where
  "calculate_on_confirm run db =
     (let s = send_of db;
          pay = \<lparr>pay_runs = sd_runs s, pay_items = sd_items s, pay_employees = map employee.truncate (sd_employees s),
                 pay_rates = im_rates db\<rparr>;
          (pay', result) = auto_calculate_on_confirm run pay;
          db = map_life_send (\<lambda>s. s\<lparr>sd_runs := pay_runs pay', sd_items := pay_items pay'\<rparr>) db;
          audit = (case result of
                     Skipped_no_rates _ \<Rightarrow> record_audit ''Payroll auto-calculation skipped'' (run_id run)
                   | Calculation_failed _ \<Rightarrow> record_audit ''Payroll auto-calculation failed'' (run_id run)
                   | Calculated \<Rightarrow> (\<lambda>life. life))
      in (db\<lparr>im_life := audit (im_life db)\<rparr>, result))"

definition new_import_run :: "int \<Rightarrow> int \<Rightarrow> client_company \<Rightarrow> validation \<Rightarrow> run_payload \<Rightarrow> payroll_run" where
  "new_import_run now k client v p =
     \<lparr>run_id = k, run_month = ip_month p, run_year = ip_year p, run_status = DRAFT,
      run_client_company_id = Some (cc_id client), run_statutory_rate_id = None, run_upload_type = None,
      run_total_workers = Some (int (ws_total_unique_workers (ip_worker_stats p))),
      run_total_gross_pay = Some 0, run_total_deductions = Some 0, run_total_net_pay = Some 0, run_total_paye = Some 0,
      run_total_ssnit = Some 0, run_total_ssnit_employer = Some 0, run_created_at = now, run_approved_by = None,
      run_approved_at = None, run_rejected_at = None, run_notes = Some (join_with [CHR 0x0A] (vd_summary_warnings v)),
      run_risk_status = None, run_risk_reasons = [], run_risk_checked_at = None\<rparr>"

definition import_totals :: "payroll_item list \<Rightarrow> payroll_run \<Rightarrow> payroll_run" where
  "import_totals items run =
     (let total_of = (\<lambda>f. Some (fsum 0 (map (\<lambda>i. col i f) items)))
      in run\<lparr>run_total_gross_pay := total_of ''gross_pay'', run_total_deductions := total_of ''total_deductions'',
             run_total_net_pay := total_of ''net_pay'', run_total_paye := total_of ''paye'',
             run_total_ssnit := total_of ''ssnit''\<rparr>)"

definition run_import_of :: "int \<Rightarrow> string \<Rightarrow> run_payload \<Rightarrow> run_import" where
  "run_import_of actor mode p =
     \<lparr>ri_created_by = actor, ri_unique_workers = ws_total_unique_workers (ip_worker_stats p),
      ri_rows_imported = ws_total_rows (ip_worker_stats p), ri_duplicates_found = ws_duplicate_count (ip_worker_stats p),
      ri_source_filename = ip_source_filename p, ri_source_sheet_name = ip_matched_sheet_name p,
      ri_detected_header_row = ip_detected_header_row p, ri_import_mode = mode,
      ri_import_type = (if mode = ''multi_client'' then ''Multi-Sheet Upload'' else ''Single Company Upload''),
      ri_detected_company_name = ip_detected_company_name p,
      ri_status_breakdown = ip_status_breakdown p\<rparr>"

text \<open>The run with its employees and items, before it is calculated.\<close>

definition import_rows :: "int \<Rightarrow> client_company \<Rightarrow> validation \<Rightarrow> string \<Rightarrow> int \<Rightarrow> run_payload \<Rightarrow> import_db \<Rightarrow> import_db \<times> payroll_run" where
  "import_rows now client v mode actor p db =
     (let k = fresh_key (map run_id (sd_runs (send_of db)));
          run = new_import_run now k client v p;
          db = map_life_send (\<lambda>s. s\<lparr>sd_runs := sd_runs s @ [run]\<rparr>) db;
          db = db\<lparr>im_run_import := (im_run_import db)(k \<mapsto> run_import_of actor mode p)\<rparr>;
          roster = roster_keys (cc_id client) (sd_employees (send_of db));
          db = fst (foldl (import_one_row client k v) (db, roster) (enumerate 1 (ip_mapped_rows p)));
          run = import_totals (items_of k (sd_items (send_of db))) run
      in (map_life_send (\<lambda>s. s\<lparr>sd_runs := update_row run_id k (\<lambda>_. run) (sd_runs s)\<rparr>) db, run))"

definition create_payroll_run_from_payload ::
  "int \<Rightarrow> client_company \<Rightarrow> validation \<Rightarrow> string \<Rightarrow> int \<Rightarrow> run_payload \<Rightarrow> import_db \<Rightarrow> import_db \<times> int \<times> auto_outcome" where
  "create_payroll_run_from_payload now client v mode actor p db =
     (case import_rows now client v mode actor p db of (db, run) \<Rightarrow>
        case calculate_on_confirm run db of (db, result) \<Rightarrow> (db, run_id run, result))"

subsection \<open>The operator's confirmation\<close>

definition find_import :: "int \<Rightarrow> import_db \<Rightarrow> (import_batch \<times> int option) option" where
  "find_import k db =
     (case map_of (lf_imports (im_life db)) k of
        None \<Rightarrow> None
      | Some run \<Rightarrow> map_option (\<lambda>b. (b, run)) (first_row (\<lambda>b. ib_id b = k) (im_batches db)))"

definition mark_imported :: "int \<Rightarrow> int option \<Rightarrow> import_db \<Rightarrow> import_db" where
  "mark_imported k run db =
     db\<lparr>im_batches := update_row ib_id k (\<lambda>b. b\<lparr>ib_status := ''Imported''\<rparr>) (im_batches db),
        im_life := (im_life db)\<lparr>lf_imports :=
          map (\<lambda>(i, r). (i, if i = k \<and> run \<noteq> None then run else r)) (lf_imports (im_life db))\<rparr>\<rparr>"

definition audit_import :: "string \<Rightarrow> int \<Rightarrow> import_db \<Rightarrow> import_db" where
  "audit_import action k db = db\<lparr>im_life := record_audit action k (im_life db)\<rparr>"

datatype import_reply =
    Confirm_refused guard_outcome
  | No_such_import
  | No_import_rows
  | No_such_client
  | Already_imported int
  | Import_blocked "(string \<times> blocking_error) list"
  | Tick_replace
  | Cannot_replace "blocker list"
  | Closed_period replace_refusal
  | Import_fails
  | Imported "(int \<times> auto_outcome) list"

definition validation_of :: "run_payload \<Rightarrow> client_company \<Rightarrow> import_db \<Rightarrow> validation" where
  "validation_of p client db =
     (case ip_validation p of
        Some v \<Rightarrow> v
      | None \<Rightarrow> validate_payroll_rows db client (ip_month p) (ip_year p) (ip_mapped_rows p))"

definition period_taken :: "run_payload \<Rightarrow> int \<Rightarrow> import_db \<Rightarrow> bool" where
  "period_taken p client db = has_duplicate_payroll client (ip_month p) (ip_year p) (im_life db)"

text \<open>
  Every refusal and every failure leaves the transaction uncommitted.  \<open>enforced\<close> tells whether
  the database checks foreign keys, as PostgreSQL does at the next flush.
\<close>

definition confirm_single :: "bool \<Rightarrow> int \<Rightarrow> int \<Rightarrow> int \<Rightarrow> bool \<Rightarrow> run_payload \<Rightarrow> import_db \<Rightarrow> import_db \<times> import_reply" where
  "confirm_single enforced now actor k replace p db =
     (if ip_mapped_rows p = [] then (db, No_import_rows)
      else case client_of db (ip_client_company_id p) of
        None \<Rightarrow> (db, No_such_client)
      | Some client \<Rightarrow>
          if import_blocking_errors p \<noteq> []
          then (db, Import_blocked (map (Pair (ip_client_company_name p)) (import_blocking_errors p)))
          else let v = validation_of p client db; duplicate = period_taken p (cc_id client) db
          in if duplicate \<and> \<not> replace then (db, Tick_replace)
             else let (life, ok, why) = (if duplicate then replace_existing_runs (cc_id client) (ip_month p) (ip_year p) (im_life db)
                                         else (im_life db, True, []))
             in if \<not> ok then (db, Cannot_replace why)
                else if duplicate \<and> enforced \<and> \<not> foreign_keys_hold life then (db, Import_fails)
                else case create_payroll_run_from_payload now client v ''single_client'' actor p (db\<lparr>im_life := life\<rparr>) of
                  (db', run, result) \<Rightarrow>
                    let db' = (if find_import k db' = None then db' else mark_imported k (Some run) db')
                    in (audit_import ''Payroll import confirmed'' run db', Imported [(run, result)]))"

fun replace_duplicates :: "run_payload list \<Rightarrow> life_db \<Rightarrow> life_db \<times> blocker list option" where
  "replace_duplicates [] life = (life, None)"
| "replace_duplicates (p # ps) life =
     (case replace_existing_runs (ip_client_company_id p) (ip_month p) (ip_year p) life of
        (life, ok, why) \<Rightarrow> if \<not> ok then (life, Some why) else replace_duplicates ps life)"

text \<open>\<open>None\<close>: a client is not found, the request ends with 404.\<close>

fun create_runs :: "int \<Rightarrow> int \<Rightarrow> run_payload list \<Rightarrow> import_db \<Rightarrow> (import_db \<times> (int \<times> auto_outcome) list) option" where
  "create_runs now actor [] db = Some (db, [])"
| "create_runs now actor (p # ps) db =
     (case client_of db (ip_client_company_id p) of
        None \<Rightarrow> None
      | Some client \<Rightarrow>
          (case create_payroll_run_from_payload now client (validation_of p client db) ''multi_client'' actor p db of
             (db, run, result) \<Rightarrow>
               map_option (\<lambda>(db, created). (db, (run, result) # created))
                 (create_runs now actor ps (audit_import ''Payroll import confirmed'' run db))))"

definition confirm_multi_client_import ::
  "bool \<Rightarrow> int \<Rightarrow> int \<Rightarrow> int \<Rightarrow> bool \<Rightarrow> run_payload list \<Rightarrow> import_db \<Rightarrow> import_db \<times> import_reply" where
  "confirm_multi_client_import enforced now actor k replace runs db =
     (let blocking = concat (map (\<lambda>p. map (Pair (ip_client_company_name p)) (import_blocking_errors p)) runs);
          duplicates = filter (\<lambda>p. period_taken p (ip_client_company_id p) db) runs
      in if runs = [] then (db, No_import_rows)
         else if blocking \<noteq> [] then (db, Import_blocked blocking)
         else if duplicates \<noteq> [] \<and> \<not> replace then (db, Tick_replace)
         else case replace_duplicates duplicates (im_life db) of
           (_, Some why) \<Rightarrow> (db, Cannot_replace why)
         | (life, None) \<Rightarrow>
             if duplicates \<noteq> [] \<and> enforced \<and> \<not> foreign_keys_hold life then (db, Import_fails)
             else (case create_runs now actor runs (db\<lparr>im_life := life\<rparr>) of
               None \<Rightarrow> (db, No_such_client)
             | Some (db', created) \<Rightarrow>
                 if find_import k db' = None then (db, Import_fails)
                 else (mark_imported k (Some (fst (hd created))) db', Imported created)))"

definition confirm :: "bool \<Rightarrow> int \<Rightarrow> user \<Rightarrow> int option \<Rightarrow> bool \<Rightarrow> import_db \<Rightarrow> import_db \<times> import_reply" where
  "confirm enforced now u import_id replace db =
     (if role_required PAYROLL_IMPORT_ROLES u \<noteq> Serve then (db, Confirm_refused (role_required PAYROLL_IMPORT_ROLES u))
      else case Option.bind import_id (\<lambda>k. find_import k db) of
        None \<Rightarrow> (db, No_such_import)
      | Some (batch, _) \<Rightarrow>
          (case ib_payload batch of
             Empty_payload \<Rightarrow> (db, No_import_rows)
           | Single_client p \<Rightarrow> confirm_single enforced now (user_id u) (ib_id batch) replace p db
           | Multi_client runs \<Rightarrow> confirm_multi_client_import enforced now (user_id u) (ib_id batch) replace runs db))"

subsection \<open>The client's own import\<close>

datatype client_upload_reply = Client_upload_refused guard_outcome | Client_no_file | Client_upload_error upload_error | Draft_stored int

definition run_upload ::
  "user \<Rightarrow> string \<Rightarrow> int \<Rightarrow> (string \<times> uploaded_file) option \<Rightarrow> import_db \<Rightarrow> import_db \<times> client_upload_reply" where
  "run_upload u month year upload db =
     (let guard = tenant_role_required [CLIENT_ADMIN, CLIENT_PREPARER] u
      in if guard \<noteq> Serve then (db, Client_upload_refused guard)
         else case (upload, Option.bind (active_tenant_id u) (client_of db)) of
           (Some (filename, Workbook workbook), Some company) \<Rightarrow>
             if \<not> allowed_excel_file filename then (db, Client_no_file)
             else (case build_single_payload db workbook filename company month year None of
                     Inl e \<Rightarrow> (db, Client_upload_error e)
                   | Inr p \<Rightarrow>
                       (case store_batch (user_id u) ''Client import draft'' ''Draft'' (cc_id company) (basename filename) month year
                               [p] (Single_client p) db of (db, k) \<Rightarrow> (db, Draft_stored k)))
         | _ \<Rightarrow> (db, Client_no_file))"

text \<open>\<open>tenant_get_or_404(ImportBatch, id)\<close>: the batch of another company is not found.\<close>

definition tenant_import :: "user \<Rightarrow> int \<Rightarrow> import_db \<Rightarrow> (import_batch \<times> int option) option" where
  "tenant_import u k db =
     (case find_import k db of
        None \<Rightarrow> None
      | Some (batch, run) \<Rightarrow> if active_tenant_id u = Some (ib_client batch) then Some (batch, run) else None)"

definition import_confirm :: "bool \<Rightarrow> int \<Rightarrow> user \<Rightarrow> int \<Rightarrow> import_db \<Rightarrow> import_db \<times> import_reply" where
  "import_confirm enforced now u k db =
     (let guard = tenant_role_required [CLIENT_ADMIN, CLIENT_PREPARER] u
      in if guard \<noteq> Serve then (db, Confirm_refused guard)
         else case (Option.bind (active_tenant_id u) (client_of db), tenant_import u k db) of
           (None, _) \<Rightarrow> (db, No_such_client)
         | (_, None) \<Rightarrow> (db, No_such_import)
         | (Some company, Some (_, Some run)) \<Rightarrow> (db, Already_imported run)
         | (Some company, Some (batch, None)) \<Rightarrow>
             (case ib_payload batch of
                Single_client p \<Rightarrow>
                  if ip_mapped_rows p = [] then (db, No_import_rows)
                  else if import_blocking_errors p \<noteq> []
                  then (db, Import_blocked (map (Pair (cc_name company)) (import_blocking_errors p)))
                  else let duplicate = period_taken p (cc_id company) db;
                           (life, refusal) = (if duplicate then client_replace_runs (cc_id company) (ip_month p) (ip_year p) (im_life db)
                                              else (im_life db, None))
                  in (case refusal of
                        Some why \<Rightarrow> (db, Closed_period why)
                      | None \<Rightarrow>
                          if duplicate \<and> enforced \<and> \<not> foreign_keys_hold life then (db, Import_fails)
                          else (case ip_validation p of
                            None \<Rightarrow> (db, Import_fails)
                          | Some v \<Rightarrow>
                              (case create_payroll_run_from_payload now company v ''single_client'' (user_id u) p (db\<lparr>im_life := life\<rparr>) of
                                 (db', run, result) \<Rightarrow>
                                   let gate = (\<lambda>r. let (gated, verdict) = apply_risk_gate (runs_in (im_life db')) (Some now)
                                                                            (r\<lparr>run_status := SUBMITTED\<rparr>)
                                                   in gated\<lparr>run_status := (if verdict_held verdict then HELD else AUTO_ACCEPTED)\<rparr>);
                                       db' = db'\<lparr>im_life := set_run run gate (im_life db')\<rparr>;
                                       db' = mark_imported k (Some run) db'
                                   in (audit_import ''Client run imported'' run db', Imported [(run, result)]))))
              | _ \<Rightarrow> (db, No_import_rows)))"

datatype discard_reply = Discard_refused guard_outcome | Discard_unknown | Discard_confirmed int | Discarded

definition import_discard :: "user \<Rightarrow> int \<Rightarrow> import_db \<Rightarrow> import_db \<times> discard_reply" where
  "import_discard u k db =
     (let guard = tenant_role_required [CLIENT_ADMIN, CLIENT_PREPARER] u
      in if guard \<noteq> Serve then (db, Discard_refused guard)
         else case tenant_import u k db of
           None \<Rightarrow> (db, Discard_unknown)
         | Some (_, Some run) \<Rightarrow> (db, Discard_confirmed run)
         | Some (_, None) \<Rightarrow>
             (db\<lparr>im_life := record_audit ''Client import discarded'' k
                  ((im_life db)\<lparr>lf_imports := filter (\<lambda>b. fst b \<noteq> k) (lf_imports (im_life db))\<rparr>)\<rparr>, Discarded))"

end
