(* ===== verification/ImportNumbers.thy ===== *)
theory ImportNumbers
  imports ImportSheet
begin

text \<open>
  Numbers in workbooks: \<open>to_number\<close> reads the digits, points and minus signs of a cell, so an amount
  the application has printed, with its thousands separators and any currency prefix, is read
  back as the same float.
\<close>

subsection \<open>Grouping\<close>

lemma append_to_lookup:
  "map_of (append_to k v kvs) k' =
     (if k' = k then Some ((case map_of kvs k of None \<Rightarrow> [] | Some vs \<Rightarrow> vs) @ [v]) else map_of kvs k')"
  by (induction kvs) auto

lemma append_to_keys:
  "map fst (append_to k v kvs) = (if k \<in> fst ` set kvs then map fst kvs else map fst kvs @ [k])"
  by (induction kvs) (auto simp: image_iff split: if_splits)

subsection \<open>Digits\<close>

lemma char_digit:
  fixes k :: nat
  assumes "k < 10"
  shows "is_digit (char_of (48 + k)) \<and> digit_value (char_of (48 + k)) = k"
proof -
  have "k = 0 \<or> k = 1 \<or> k = 2 \<or> k = 3 \<or> k = 4 \<or> k = 5 \<or> k = 6 \<or> k = 7 \<or> k = 8 \<or> k = 9" using assms by presburger
  then show ?thesis by (elim disjE) (simp_all add: is_digit_def digit_value_def char_of_eq_iff take_bit_eq_mod)
qed

lemma digits_facts: "list_all is_digit (digits n) \<and> digits n \<noteq> [] \<and> decimal_value (digits n) = n"
proof (induction n rule: digits.induct)
  case (1 n)
  show ?case
  proof (cases "n < 10")
    case True
    with char_digit [of n] show ?thesis by (simp add: digits.simps [of n] decimal_value_def)
  next
    case False
    with 1 have "list_all is_digit (digits (n div 10))" "decimal_value (digits (n div 10)) = n div 10" by simp_all
    with False char_digit [of "n mod 10"] show ?thesis
      by (simp add: digits.simps [of n] decimal_value_def)
  qed
qed

lemma digits_inj: "digits m = digits n \<Longrightarrow> m = n"
  using digits_facts by metis

lemma takeWhile_digits: "list_all p xs \<Longrightarrow> \<not> p y \<Longrightarrow> takeWhile p (xs @ y # ys) = xs \<and> dropWhile p (xs @ y # ys) = y # ys"
  by (induction xs) auto

lemma digit_not_space: "is_digit c \<Longrightarrow> \<not> is_space c"
  by (auto simp: is_digit_def is_space_def white_space_def)

lemma decimal_value_snoc: "decimal_value (a @ [c]) = 10 * decimal_value a + digit_value c"
  by (simp add: decimal_value_def)

lemma decimal_value_append: "decimal_value (a @ b) = decimal_value a * 10 ^ length b + decimal_value b"
proof (induction b rule: rev_induct)
  case (snoc c b)
  have "decimal_value (a @ b @ [c]) = 10 * decimal_value (a @ b) + digit_value c"
    using decimal_value_snoc [of "a @ b" c] by simp
  then show ?case by (simp add: snoc.IH decimal_value_snoc)
qed (simp add: decimal_value_def)

lemma nat_digits_digits: "nat_digits n = digits n"
proof (induction n rule: nat_digits.induct)
  case (1 n)
  then show ?case unfolding nat_digits.simps [of n] digits.simps [of n] by (cases "n < 10") simp_all
qed

subsection \<open>What \<open>to_number\<close> reads\<close>

lemma remove_all_filter: "list_all (\<lambda>c. \<not> p c) old \<Longrightarrow> filter p (remove_all old s) = filter p s"
proof (induction old s rule: remove_all.induct)
  case (2 old c cs)
  show ?case
  proof (cases "old \<noteq> [] \<and> starts_with old (c # cs)")
    case True
    then have "c # cs = old @ drop (length old) (c # cs)"
      unfolding starts_with_def by (metis append_take_drop_id)
    moreover have "filter p old = []" using 2(3) by (simp add: filter_empty_conv list_all_iff)
    ultimately have "filter p (c # cs) = filter p (drop (length old) (c # cs))" by (metis filter_append append_Nil)
    with True 2(1) [OF True 2(3)] show ?thesis by (simp del: filter.simps drop_Cons)
  next
    case False
    with 2(2) [OF False 2(3)] show ?thesis by auto
  qed
qed simp

lemma filter_dropWhile: "(\<And>c. q c \<Longrightarrow> \<not> p c) \<Longrightarrow> filter p (dropWhile q s) = filter p s"
  by (induction s) auto

lemma filter_strip: "(\<And>c. is_space c \<Longrightarrow> \<not> p c) \<Longrightarrow> filter p (strip s) = filter p s"
  by (simp add: strip_def rstrip_def lstrip_def filter_dropWhile rev_filter [symmetric])

lemma space_not_number: "is_space c \<Longrightarrow> \<not> number_char c"
  by (auto simp: is_space_def white_space_def number_char_def is_digit_def)

lemma strip_number: "filter number_char (strip s) = filter number_char s"
  by (rule filter_strip) (rule space_not_number)

lemma currency_not_number: "list_all (\<lambda>c. \<not> number_char c) '',''" "list_all (\<lambda>c. \<not> number_char c) ''GHS''"
  "list_all (\<lambda>c. \<not> number_char c) (''GH'' @ [CHR 0xA2])" "list_all (\<lambda>c. \<not> number_char c) [CHR 0xA2]"
  "list_all (\<lambda>c. \<not> number_char c) ''GHC''"
  by (simp_all add: number_char_def is_digit_def)

lemmas currency_removed = currency_not_number [THEN remove_all_filter]

lemma to_number_eq:
  "to_number v = (let cleaned = filter number_char v
     in if cleaned = [] then 0 else case read_float cleaned of None \<Rightarrow> 0 | Some x \<Rightarrow> x)"
proof -
  have "filter number_char (remove_all ''GHC'' (strip (remove_all [CHR 0xA2] (remove_all (''GH'' @ [CHR 0xA2])
      (remove_all ''GHS'' (remove_all '','' v)))))) = filter number_char v"
    unfolding currency_removed strip_number by (rule refl)
  then show ?thesis by (simp only: to_number_def Let_def) simp
qed

subsection \<open>Printed amounts\<close>

lemma rhe_near: "\<bar>q - of_int n\<bar> < 1 / 2 \<Longrightarrow> rhe q = n"
proof -
  assume near: "\<bar>q - of_int n\<bar> < 1 / 2"
  have "\<bar>of_int (rhe q) - q\<bar> \<le> 1 / 2" by (rule rhe_error)
  with near have "\<bar>of_int (rhe q) - of_int n\<bar> < (1 :: rat)" by linarith
  then have "\<bar>rhe q - n\<bar> < 1" by (metis of_int_1 of_int_abs of_int_diff of_int_less_iff)
  then show ?thesis by simp
qed

lemma rhe_cents:
  assumes "\<bar>n\<bar> < 2 ^ 51"
  shows "rhe (fl (of_int n / 100) * 100) = n"
proof (rule rhe_near)
  let ?q = "of_int n / 100 :: rat"
  have "\<bar>fl ?q - ?q\<bar> \<le> \<bar>?q\<bar> * (1 / 2 ^ 53)" by (rule b64.error)
  moreover have "fl ?q * 100 - of_int n = 100 * (fl ?q - ?q)" by (simp add: algebra_simps)
  then have "\<bar>fl ?q * 100 - of_int n\<bar> = 100 * \<bar>fl ?q - ?q\<bar>" by (simp only: abs_mult abs_numeral)
  moreover have "\<bar>?q\<bar> * 100 = of_int \<bar>n\<bar>" by simp
  moreover have "of_int \<bar>n\<bar> < (2 ^ 51 :: rat)" using assms by (metis of_int_less_iff of_int_numeral of_int_power)
  ultimately show "\<bar>fl ?q * 100 - of_int n\<bar> < 1 / 2" by simp
qed

lemma number_char_digits: "list_all is_digit s \<Longrightarrow> filter number_char s = s"
  by (induction s) (auto simp: number_char_def)

lemma filter_group3: "filter number_char (group3 s) = filter number_char s"
  by (induction s rule: group3.induct) (simp_all add: number_char_def is_digit_def)

lemma grouped_digits: "filter number_char (rev (group3 (rev (digits n)))) = digits n"
  using digits_facts [of n] by (simp add: rev_filter [symmetric] filter_group3 number_char_digits)

lemma plain_digits: "filter number_char (digits k) = digits k"
  using digits_facts by (simp add: number_char_digits)

lemma two_digits: "k < 100 \<Longrightarrow> length (digits (k div 10) @ digits (k mod 10)) = 2 \<and> decimal_value (digits (k div 10) @ digits (k mod 10)) = k"
proof -
  assume k: "k < 100"
  have len: "length (digits d) = 1" if "d < 10" for d using that by (simp add: digits.simps)
  show ?thesis using k len digits_facts by (simp add: decimal_value_append)
qed

lemma read_plain:
  assumes "list_all is_digit whole" "whole \<noteq> []" "list_all is_digit cents"
  shows "read_float (whole @ CHR ''.'' # cents) = Some (fl (rat_of_nat (decimal_value (whole @ cents)) / 10 ^ length cents))"
    "read_float (CHR ''-'' # whole @ CHR ''.'' # cents) = Some (- fl (rat_of_nat (decimal_value (whole @ cents)) / 10 ^ length cents))"
proof -
  have dot: "\<not> is_digit (CHR ''.'')" "\<not> is_digit (CHR ''-'')" by (simp_all add: is_digit_def)
  obtain w ws where w: "whole = w # ws" "is_digit w" using assms(1,2) by (cases whole) auto
  then have "w \<noteq> CHR ''-''" using dot by auto
  with takeWhile_digits [OF assms(1) dot(1), of cents] assms(3) w
  show "read_float (whole @ CHR ''.'' # cents) = Some (fl (rat_of_nat (decimal_value (whole @ cents)) / 10 ^ length cents))"
    "read_float (CHR ''-'' # whole @ CHR ''.'' # cents) = Some (- fl (rat_of_nat (decimal_value (whole @ cents)) / 10 ^ length cents))"
    by (simp_all add: read_float_def Let_def)
qed

text \<open>
  C18: a printed amount reads back.  Any amount of whole pesewas below \<open>2^51\<close>, printed by the
  application with thousands separators and two decimals, after any prefix without digits,
  points and minus signs, as \<open>GHS\<close>, is read from the cell as the same float.
\<close>
theorem printed_amount_reads_back:
  assumes "\<bar>n\<bar> < 2 ^ 51" "list_all (\<lambda>c. \<not> number_char c) prefix"
  shows "to_number (prefix @ fmt2_grouped (fl (of_int n / 100))) = fl (of_int n / 100)"
proof -
  define m where "m = nat \<bar>n\<bar>"
  let ?cents = "digits (m mod 100 div 10) @ digits (m mod 100 mod 10)"
  have pre: "filter number_char prefix = []" using assms(2) by (simp add: filter_empty_conv list_all_iff)
  have whole: "list_all is_digit (digits (m div 100))" "digits (m div 100) \<noteq> []" "list_all is_digit ?cents"
    using digits_facts by simp_all
  have val: "decimal_value (digits (m div 100) @ ?cents) = m"
    using two_digits [of "m mod 100"] digits_facts [of "m div 100"] by (simp only: decimal_value_append) simp
  have "filter number_char (fmt2_grouped (fl (of_int n / 100))) =
      (if n < 0 then [CHR ''-''] else []) @ digits (m div 100) @ CHR ''.'' # ?cents"
    using whole by (simp add: fmt2_grouped_def fixed2_def rhe_cents [OF assms(1)] m_def nat_digits_digits grouped_digits
        plain_digits Let_def) (simp add: number_char_def)
  then have cleaned: "filter number_char (prefix @ fmt2_grouped (fl (of_int n / 100))) =
      (if n < 0 then CHR ''-'' # digits (m div 100) @ CHR ''.'' # ?cents else digits (m div 100) @ CHR ''.'' # ?cents)"
    by (simp add: pre)
  have "length ?cents = 2" using two_digits [of "m mod 100"] by simp
  with read_plain [OF whole] val
  have "read_float (filter number_char (prefix @ fmt2_grouped (fl (of_int n / 100)))) =
      Some (if n < 0 then - fl (rat_of_nat m / 10 ^ 2) else fl (rat_of_nat m / 10 ^ 2))"
    unfolding cleaned by simp
  moreover have "(if n < 0 then - fl (rat_of_nat m / 10 ^ 2) else fl (rat_of_nat m / 10 ^ 2)) = fl (of_int n / 100)"
    by (simp add: m_def flip: b64.odd)
  ultimately show ?thesis unfolding to_number_eq Let_def using cleaned by simp
qed

theorem printed_amount_reads_back_witness:
  "fmt2_grouped (fl (1234567890 / 100)) = ''12,345,678.90'' \<and> to_number (''GHS 12,345,678.90'') = fl (1234567890 / 100)"
proof -
  have "fmt2_grouped (fl (of_int 1234567890 / 100)) = ''12,345,678.90''"
    unfolding fmt2_grouped_def fixed2_def using rhe_cents [of 1234567890]
    by (simp add: nat_digits.simps char_of_eq_iff take_bit_eq_mod)
  moreover have "to_number (''GHS '' @ fmt2_grouped (fl (of_int 1234567890 / 100))) = fl (of_int 1234567890 / 100)"
    by (rule printed_amount_reads_back) (simp_all add: number_char_def is_digit_def)
  ultimately show ?thesis by simp
qed

text \<open>
  Other texts are read without complaint: accountants' parentheses lose their sign, a currency
  abbreviation with a point shifts the amount, and an amount that cannot be read is zero.
\<close>

lemma misread_amounts:
  "to_number ''(500)'' = fl 500" "to_number ''GHS. 500'' = fl (500 / 10 ^ 3)" "to_number ''1-2'' = 0" "to_number ''n/a'' = 0"
  by (simp_all add: to_number_eq number_char_def is_digit_def read_float_def decimal_value_def digit_value_def Let_def)

end
