(* ===== verification/ImportMapping.thy ===== *)
theory ImportMapping
  imports ImportNumbers
begin

text \<open>
  What the reading of a workbook guarantees: a mapping without conflicts binds every payroll
  figure to one column, and two columns of one label are refused.
\<close>

subsection \<open>The columns of a field\<close>

definition claimed :: "string \<Rightarrow> (string \<times> string) list \<Rightarrow> string list" where
  "claimed f mapping = (if f = [] \<or> f = ''unmapped'' then [] else map fst (filter (\<lambda>(_, g). g = f) mapping))"

lemma by_field_snoc:
  "by_field (m @ [(c, f)]) =
     (if f \<noteq> [] \<and> f \<noteq> ''unmapped'' then append_to f c (by_field m) else by_field m)"
  by (simp add: by_field_def)

lemma claimed_snoc:
  "claimed f (m @ [(c, g)]) = claimed f m @ (if g = f \<and> f \<noteq> [] \<and> f \<noteq> ''unmapped'' then [c] else [])"
  by (simp add: claimed_def)

lemma by_field_lookup: "map_of (by_field m) f = (if claimed f m = [] then None else Some (claimed f m))"
proof (induction m rule: rev_induct)
  case Nil
  show ?case by (simp add: by_field_def claimed_def)
next
  case (snoc x m)
  obtain c g where [simp]: "x = (c, g)" by (cases x)
  show ?case using snoc.IH by (auto simp: by_field_snoc append_to_lookup claimed_snoc)
qed

lemma by_field_distinct: "distinct (map fst (by_field m))"
proof (induction m rule: rev_induct)
  case (snoc x m)
  then show ?case by (cases x) (auto simp: by_field_snoc append_to_keys)
qed (simp add: by_field_def)

lemma by_field_entry: "(f, cs) \<in> set (by_field m) \<longleftrightarrow> claimed f m = cs \<and> cs \<noteq> []"
  using map_of_eq_Some_iff [OF by_field_distinct, of m f cs] by (auto simp: by_field_lookup split: if_splits)

lemma no_conflicts_iff:
  "mapping_conflicts m = [] \<longleftrightarrow>
     (\<forall>f. length (claimed f m) \<le> 1) \<and> (\<forall>f\<in>set MANDATORY_IMPORT_FIELDS. length (claimed f m) = 1)"
proof -
  have "(\<forall>(f, cs)\<in>set (by_field m). \<not> length cs > 1) \<longleftrightarrow> (\<forall>f. length (claimed f m) \<le> 1)"
  proof (intro iffI allI ballI)
    fix f assume le: "\<forall>(f, cs)\<in>set (by_field m). \<not> length cs > 1"
    show "length (claimed f m) \<le> 1"
    proof (cases "claimed f m = []")
      case False
      then have "(f, claimed f m) \<in> set (by_field m)" by (simp add: by_field_entry)
      with le show ?thesis by auto
    qed simp
  qed (use by_field_entry in \<open>auto simp: not_less\<close>)
  moreover have "(\<forall>f\<in>set MANDATORY_IMPORT_FIELDS. map_of (by_field m) f \<noteq> None) \<longleftrightarrow>
    (\<forall>f\<in>set MANDATORY_IMPORT_FIELDS. claimed f m \<noteq> [])" by (simp add: by_field_lookup)
  moreover have "claimed f m \<noteq> [] \<and> length (claimed f m) \<le> 1 \<longleftrightarrow> length (claimed f m) = 1" for f
    by (cases "claimed f m") auto
  ultimately show ?thesis by (simp add: mapping_conflicts_def filter_empty_conv case_prod_beta') metis
qed

subsection \<open>The mapping of a list of labels\<close>

lemma map_columns_snoc: "map_columns (cs @ [c]) = AList.update c (column_field c) (map_columns cs)"
  by (simp add: map_columns_def)

lemma map_columns_lookup: "map_of (map_columns cs) c = (if c \<in> set cs then Some (column_field c) else None)"
  by (induction cs rule: rev_induct) (auto simp: map_columns_snoc update_conv' map_columns_def)

lemma map_columns_distinct: "distinct (map fst (map_columns cs))"
  by (induction cs rule: rev_induct) (auto simp: map_columns_snoc distinct_update map_columns_def)

lemma map_columns_set: "set (map_columns cs) = (\<lambda>c. (c, column_field c)) ` set cs"
proof -
  have "(c, f) \<in> set (map_columns cs) \<longleftrightarrow> c \<in> set cs \<and> f = column_field c" for c f
    using map_of_eq_Some_iff [OF map_columns_distinct, of cs c f] by (auto simp: map_columns_lookup split: if_splits)
  then show ?thesis by (auto simp: image_iff)
qed

lemma claimed_columns:
  assumes "f \<noteq> []" "f \<noteq> ''unmapped''"
  shows "set (claimed f (map_columns cs)) = {c \<in> set cs. column_field c = f}" "distinct (claimed f (map_columns cs))"
  using assms map_columns_distinct [of cs] by (force simp: claimed_def map_columns_set, simp add: claimed_def distinct_map_filter)

lemma alias_sound: "alias_lookup n = Some f \<Longrightarrow> \<exists>aliases. (f, aliases) \<in> set COLUMN_ALIASES \<and> n \<in> normalize_label ` set aliases"
proof -
  have one: "foldl (\<lambda>m a. m(normalize_label a \<mapsto> g)) m as n = Some f \<Longrightarrow>
      m n = Some f \<or> f = g \<and> n \<in> normalize_label ` set as" for m g as
  proof (induction as arbitrary: m)
    case (Cons a as)
    from Cons.IH [OF Cons.prems [unfolded foldl_Cons]] show ?case by (auto split: if_splits)
  qed simp
  have "foldl (\<lambda>m (field, aliases). foldl (\<lambda>m a. m(normalize_label a \<mapsto> field)) m aliases) m cas n = Some f \<Longrightarrow>
      m n = Some f \<or> (\<exists>aliases. (f, aliases) \<in> set cas \<and> n \<in> normalize_label ` set aliases)" for m cas
    by (induction cas arbitrary: m) (auto dest!: one)
  from this [of Map.empty COLUMN_ALIASES] show "alias_lookup n = Some f \<Longrightarrow> ?thesis" by (simp add: alias_lookup_def)
qed

subsection \<open>Composite labels are told apart\<close>

lemma not_space: "\<not> is_space (CHR '')'')" "\<not> is_digit (CHR ''('')" "is_space (CHR '' '')"
  by (simp_all add: is_space_def white_space_def is_digit_def)

lemma drop_suffix_added:
  assumes "rstrip n = n"
  shows "drop_count_suffix (n @ '' ('' @ digits k @ '')'') = n"
proof -
  let ?ds = "rev (digits k)"
  have all: "list_all is_digit ?ds" "?ds \<noteq> []" using digits_facts [of k] by simp_all
  note cut = takeWhile_digits [OF all(1) not_space(2), of "CHR '' '' # rev n"]
  have rev: "dropWhile is_space (rev (n @ '' ('' @ digits k @ '')'')) = CHR '')'' # ?ds @ CHR ''('' # CHR '' '' # rev n"
    by (simp add: not_space)
  have "rstrip (rev (CHR '' '' # rev n)) = n" using assms by (simp add: rstrip_def not_space)
  then show ?thesis unfolding drop_count_suffix_def rev list.case Let_def cut [THEN conjunct1] cut [THEN conjunct2]
    using all(2) by (simp del: rev.simps)
qed

lemma length_count_labels [simp]: "length (count_labels seen ns) = length ns"
  by (induction ns arbitrary: seen) (simp_all add: Let_def del: fun_upd_apply)

definition counted :: "string \<Rightarrow> nat \<Rightarrow> string" where
  "counted n k = (if k > 1 then n @ '' ('' @ digits k @ '')'' else n)"

lemma count_labels_Cons:
  "count_labels seen (n # ns) = counted n (seen n + 1) # count_labels (seen(n := seen n + 1)) ns"
  by (simp add: Let_def counted_def)

declare count_labels.simps(2) [simp del]

lemma count_labels_nth:
  "i < length ns \<Longrightarrow> count_labels seen ns ! i = counted (ns ! i) (seen (ns ! i) + length (filter ((=) (ns ! i)) (take i ns)) + 1)"
proof (induction ns arbitrary: seen i)
  case (Cons n ns)
  then show ?case by (cases i) (auto simp: count_labels_Cons)
qed simp

lemma counted_field:
  assumes "rstrip n = n" "drop_count_suffix n = n"
  shows "drop_count_suffix (counted n k) = n"
  using assms drop_suffix_added [OF assms(1)] unfolding counted_def by simp

lemma column_field_counted:
  assumes "rstrip n = n" "drop_count_suffix n = n"
  shows "column_field (counted n k) = column_field n"
  using counted_field [OF assms] assms by (simp add: column_field_def header_label_def)

lemma counted_inj: "counted n k = counted n l \<Longrightarrow> k \<noteq> l \<Longrightarrow> k \<le> 1 \<and> l \<le> 1"
  by (auto simp: counted_def split: if_splits dest: digits_inj)

lemma count_labels_distinct:
  assumes "\<forall>n\<in>set ns. rstrip n = n \<and> drop_count_suffix n = n"
  shows "distinct (count_labels (\<lambda>_. 0) ns)"
proof -
  let ?c = "\<lambda>i. length (filter ((=) (ns ! i)) (take i ns)) + 1"
  have "count_labels (\<lambda>_. 0) ns ! i \<noteq> count_labels (\<lambda>_. 0) ns ! j" if "i < j" "j < length ns" for i j
  proof
    assume "count_labels (\<lambda>_. 0) ns ! i = count_labels (\<lambda>_. 0) ns ! j"
    with that have eq: "counted (ns ! i) (?c i) = counted (ns ! j) (?c j)" by (simp add: count_labels_nth)
    have "ns ! i = ns ! j"
      using arg_cong [OF eq, of drop_count_suffix] assms that by (simp add: counted_field)
    moreover have "?c i < ?c j"
    proof -
      have "take j ns = take i ns @ ns ! i # take (j - Suc i) (drop (Suc i) ns)"
        using that id_take_nth_drop [of i "take j ns"] by (simp add: drop_take min_def)
      then show ?thesis using \<open>ns ! i = ns ! j\<close> by simp
    qed
    ultimately show False using counted_inj [of "ns ! i" "?c i" "?c j"] eq by force
  qed
  then show ?thesis unfolding distinct_conv_nth by (metis length_count_labels linorder_neqE_nat)
qed

lemma rstrip_stripped: "stripped s \<Longrightarrow> rstrip s = s"
  by (cases s rule: rev_cases) (auto simp: stripped_def rstrip_def)

lemma stacked_label_rstrip: "rstrip (stacked_label block c) = stacked_label block c"
proof -
  have "\<not> is_space (last (digits c))" using digits_facts [of c] digit_not_space by (simp add: list_all_iff)
  then have "stripped (''Unnamed: '' @ digits c)" using digits_facts [of c]
    by (simp add: stripped_def is_space_def white_space_def)
  then show ?thesis by (simp add: stacked_label_def Let_def rstrip_stripped stripped_strip)
qed

definition sheet_labels :: "string list list \<Rightarrow> nat \<Rightarrow> nat \<Rightarrow> string list" where
  "sheet_labels rows header_row data_start =
     (let block = drop header_row (take data_start rows)
      in map (stacked_label block) [0..<foldr max (map length block) 0])"

lemma composite_labels: "build_composite_columns rows h d = count_labels (\<lambda>_. 0) (sheet_labels rows h d)"
  by (simp add: build_composite_columns_def sheet_labels_def Let_def)

lemma card_le_one: "card A \<le> 1" if "finite A" "\<And>x y. x \<in> A \<Longrightarrow> y \<in> A \<Longrightarrow> x = y"
  using that by (metis One_nat_def card_le_Suc0_iff_eq)

text \<open>
  C17: every figure comes from one column.  If the mapping of a sheet has no conflict and no label
  of its stacked header ends in a count of its own, then every payroll field is bound by at most
  one column of the sheet, the staff id, the name and the basic salary by exactly one, repeated
  labels included; and a column is bound only by an exact alias of its field, never by a label
  of a figure the system derives itself.
\<close>
theorem columns_bound_once:
  assumes "mapping_conflicts (map_columns (build_composite_columns rows h d)) = []"
    "\<forall>label\<in>set (sheet_labels rows h d). drop_count_suffix label = label"
  shows "\<forall>f. f \<noteq> [] \<and> f \<noteq> ''unmapped'' \<longrightarrow>
      (let bound = {i. i < length (sheet_labels rows h d) \<and> column_field (sheet_labels rows h d ! i) = f}
       in card bound \<le> 1 \<and> (f \<in> set MANDATORY_IMPORT_FIELDS \<longrightarrow> card bound = 1) \<and>
          (\<forall>i\<in>bound. header_label (sheet_labels rows h d ! i) \<notin> set DERIVED_OUTPUT_HEADERS \<and>
            (\<exists>aliases. (f, aliases) \<in> set COLUMN_ALIASES \<and>
               header_label (sheet_labels rows h d ! i) \<in> normalize_label ` set aliases)))"
proof (intro allI impI)
  fix f :: string assume f: "f \<noteq> [] \<and> f \<noteq> ''unmapped''"
  let ?L = "sheet_labels rows h d"
  let ?C = "build_composite_columns rows h d"
  let ?bound = "{i. i < length ?L \<and> column_field (?L ! i) = f}"
  have free: "\<forall>n\<in>set ?L. rstrip n = n \<and> drop_count_suffix n = n"
    using assms(2) by (auto simp: sheet_labels_def Let_def stacked_label_rstrip)
  have len: "length ?C = length ?L" by (simp add: composite_labels)
  have field: "column_field (?C ! i) = column_field (?L ! i)" if "i < length ?L" for i
    using that free by (simp add: composite_labels count_labels_nth column_field_counted)
  have dist: "distinct ?C" using count_labels_distinct [OF free] by (simp add: composite_labels)
  have claims: "length (claimed f (map_columns ?C)) \<le> 1" using assms(1) by (simp add: no_conflicts_iff)
  have same: "c = c'" if "c \<in> set ?C" "c' \<in> set ?C" "column_field c = f" "column_field c' = f" for c c'
  proof -
    have "c \<in> set (claimed f (map_columns ?C))" "c' \<in> set (claimed f (map_columns ?C))"
      using that f claimed_columns(1) [of f ?C] by auto
    with claims show ?thesis by (cases "claimed f (map_columns ?C)") auto
  qed
  have le: "card ?bound \<le> 1"
  proof (rule card_le_one)
    fix i j assume "i \<in> ?bound" "j \<in> ?bound"
    then have "?C ! i = ?C ! j" using same [of "?C ! i" "?C ! j"] field len by simp
    with dist \<open>i \<in> ?bound\<close> \<open>j \<in> ?bound\<close> show "i = j" by (simp add: nth_eq_iff_index_eq len)
  qed simp
  have one: "card ?bound = 1" if "f \<in> set MANDATORY_IMPORT_FIELDS"
  proof -
    from assms(1) that have "length (claimed f (map_columns ?C)) = 1" by (simp add: no_conflicts_iff)
    then obtain c where "claimed f (map_columns ?C) = [c]" by (auto simp: length_Suc_conv)
    then have "c \<in> set ?C" "column_field c = f" using f claimed_columns(1) [of f ?C] by auto
    then obtain i where "i < length ?L" "?C ! i = c" by (auto simp: in_set_conv_nth len)
    then have "i \<in> ?bound" using field \<open>column_field c = f\<close> by auto
    then have "0 < card ?bound" by (auto simp: card_gt_0_iff)
    with le show ?thesis by simp
  qed
  have exact: "header_label (?L ! i) \<notin> set DERIVED_OUTPUT_HEADERS \<and>
      (\<exists>aliases. (f, aliases) \<in> set COLUMN_ALIASES \<and> header_label (?L ! i) \<in> normalize_label ` set aliases)"
    if "i \<in> ?bound" for i
    using that f alias_sound [of "header_label (?L ! i)" f]
    by (auto simp: column_field_def Let_def text_or_def split: if_splits option.splits)
  show "let bound = ?bound in card bound \<le> 1 \<and> (f \<in> set MANDATORY_IMPORT_FIELDS \<longrightarrow> card bound = 1) \<and>
      (\<forall>i\<in>bound. header_label (?L ! i) \<notin> set DERIVED_OUTPUT_HEADERS \<and>
        (\<exists>aliases. (f, aliases) \<in> set COLUMN_ALIASES \<and> header_label (?L ! i) \<in> normalize_label ` set aliases))"
    unfolding Let_def using le one exact by blast
qed

subsection \<open>The alias table, evaluated\<close>

definition alias_table :: "(string \<times> string list) list" where
  "alias_table =
    [(''staff_id'', [''staff no'', ''staff no'', ''staff id'', ''employee id'', ''emp id'', ''staff number'',
      ''employee no'', ''worker id'', ''s n'', ''sn'', ''no'', ''serial'', ''irs no'']),
     (''full_name'', [''name'', ''names'', ''employee name'', ''full name'', ''worker name'', ''employee'',
      ''worker'', ''officer'', ''personnel'']),
     (''client_company'', [''client'', ''client company'', ''company'', ''company name'', ''company assigned'',
      ''assigned client'']),
     (''ssnit_number'', [''ssnit no'', ''ssnit number'', ''ssnit id'', ''ssnit contribution number'', ''s s number'',
      ''ss number'', ''s s no'', ''s s number'', ''social security number'', ''social security no'']),
     (''ghana_card_number'', [''ghana card'', ''ghana card no'', ''ghana card number'', ''gh card'', ''gh card no'',
      ''gh card number'']),
     (''momo_number'', [''momo'', ''momo number'', ''momo no'', ''mobile money'', ''mobile money number'', ''phone'',
      ''phone number'', ''phone no'', ''telephone'', ''tel'', ''mobile'', ''mobile number'', ''mobile no'',
      ''cell'', ''cellphone'', ''contact number'', ''contact no'']),
     (''email'', [''email'', ''e mail'', ''e mail'', ''email address'', ''email id'', ''mail'']),
     (''bank_name'', [''bank'', ''bank name'']),
     (''bank_branch'', [''bank branch'', ''branch'', ''branch name'']),
     (''bank_account_number'', [''account no'', ''account number'', ''bank account'', ''bank account number'',
      ''a c number'', ''a c no'']),
     (''status'', [''status'', ''employee status'', ''worker status'', ''employment status'']),
     (''service_line'', [''service line'', ''department'', ''unit'']),
     (''job_role'', [''job role'', ''job title'', ''role'', ''position'', ''designation'']),
     (''payroll_month'', [''payroll month'', ''month'']),
     (''basic_salary'', [''basic'', ''basic salary'', ''base pay'', ''basic pay'', ''base salary'',
      ''monthly salary'', ''salary'', ''basic wage'']),
     (''transport_allowance'', [''transport'', ''transport allowance'', ''transportation'']),
     (''housing_allowance'', [''housing'', ''housing allowance'', ''rent allowance'']),
     (''medical_allowance'', [''medical'', ''medical allowance'', ''medical allow'', ''med allowance'',
      ''med allowance'']),
     (''meal_allowance'', [''meal allowance'', ''meals allowance'', ''meals'', ''meal'']),
     (''end_of_year_bonus'', [''end of year bonus'', ''end of year bonus'', ''13th month'', ''13th month bonus'',
      ''annual bonus'', ''eoy bonus'']),
     (''productivity_bonus'', [''productivity bonus'', ''productivity'', ''prod bonus'', ''prod bonus'', ''bonus'']),
     (''overtime_hours'', [''overtime hours'', ''ot hours'']),
     (''overtime_pay'', [''overtime'', ''ot pay'', ''overtime pay'', ''overtime allowance'', ''overtime allow'']),
     (''other_allowances'', [''other allowance'', ''other allowances'', ''allowances'', ''allowance'']),
     (''pay_difference'', [''pay difference'', ''pay diff'', ''pay differece'']),
     (''gross_pay'', [''gross'', ''gross pay'', ''gross salary'', ''total earnings'', ''gross earnings'',
      ''gross amount'']),
     (''paye'', [''paye'', ''tax'', ''income tax'', ''paye tax'', ''tax deducted'']),
     (''ssnit'', [''ssnit'', ''ssnit contribution'', ''ssnit employee'', ''ssnit emp'', ''ssnit employee'',
      ''ssnit deduction'']),
     (''tier_2_pension'', [''tier 2'', ''tier 2 pension'', ''tier two pension'', ''pension'']),
     (''pf_fund_employer'', [''pf fund employer'', ''pf fund employer'', ''employer provident fund'',
      ''provident fund employer'']),
     (''pf_fund_employee'', [''pf fund employee'', ''pf fund employee'', ''pf fund'', ''pf employee'',
      ''provident fund'', ''provident fund employee'']),
     (''loan_deduction'', [''loan deduction'', ''loan deductions'', ''loan repayment'', ''loan'', ''loan adv'']),
     (''loan_advance'', [''loan advance'', ''loan advances'', ''salary advance'']),
     (''welfare_deduction'', [''welfare'', ''welfare deduction'', ''welfare deductions'', ''welfare supplies'']),
     (''iou_deduction'', [''iou deduction'', ''iou deductions'', ''i o u'', ''i o u deduction'', ''iou'']),
     (''other_deductions'', [''deduction'', ''deductions'', ''other deduction'', ''other deductions'']),
     (''total_deductions'', [''total deductions'', ''total deduction'']),
     (''net_pay'', [''net'', ''net pay'', ''net salary'', ''take home'', ''take home pay'', ''net amount'',
      ''amount payable'', ''net earnings''])]"

lemma aliases_normalized: "map (\<lambda>(f, aliases). (f, map normalize_label aliases)) COLUMN_ALIASES = alias_table"
  by code_simp

definition alias_pairs :: "(string \<times> string) list" where
  "alias_pairs = concat (map (\<lambda>(f, aliases). map (\<lambda>a. (a, f)) aliases) alias_table)"

lemma alias_lookup_table: "alias_lookup n = map_of (rev alias_pairs) n"
proof -
  have inner: "foldl (\<lambda>m a. m(normalize_label a \<mapsto> f)) m as = m ++ map_of (rev (map (\<lambda>a. (normalize_label a, f)) as))" for f m as
    by (induction as arbitrary: m) (simp, auto simp: map_add_def fun_eq_iff split: option.splits)
  have "foldl (\<lambda>m (f, aliases). foldl (\<lambda>m a. m(normalize_label a \<mapsto> f)) m aliases) m cas =
      m ++ map_of (rev (concat (map (\<lambda>(f, aliases). map (\<lambda>a. (normalize_label a, f)) aliases) cas)))" for m cas
  proof (induction cas arbitrary: m)
    case (Cons c cas)
    then show ?case by (cases c) (simp add: inner del: fun_upd_apply)
  qed simp
  from this [of Map.empty COLUMN_ALIASES]
  show ?thesis by (simp add: alias_lookup_def alias_pairs_def aliases_normalized [symmetric] o_def case_prod_beta')
qed

lemma sample_aliases:
  "map alias_lookup [''staff id'', ''names'', ''basic salary''] = [Some ''staff_id'', Some ''full_name'', Some ''basic_salary'']"
  unfolding list.map alias_lookup_table by code_simp

definition stacked_sheet :: "string list list" where
  "stacked_sheet = [[''STAFF ID'', ''NAMES'', ''BASIC'', ''BASIC''], [[], [], ''SALARY'', ''TAX'']]"

lemma stacked_sheet_labels: "sheet_labels stacked_sheet 0 2 = [''STAFF ID'', ''NAMES'', ''BASIC SALARY'', ''BASIC TAX'']"
  by code_simp

lemma sample_header_labels:
  "map header_label [''STAFF ID'', ''NAMES'', ''BASIC SALARY'', ''BASIC TAX''] = [''staff id'', ''names'', ''basic salary'', ''basic tax'']"
  "list_all (\<lambda>n. drop_count_suffix n = n) [''STAFF ID'', ''NAMES'', ''BASIC SALARY'', ''BASIC TAX'']"
  by code_simp+

lemma sample_fields:
  "map column_field [''STAFF ID'', ''NAMES'', ''BASIC SALARY'', ''BASIC TAX''] =
     [''staff_id'', ''full_name'', ''basic_salary'', ''unmapped'']"
  using sample_header_labels(1) sample_aliases
  by (simp add: column_field_def DERIVED_OUTPUT_HEADERS_def text_or_def)

theorem columns_bound_once_witness:
  "mapping_conflicts (map_columns (build_composite_columns stacked_sheet 0 2)) = [] \<and>
   {i. i < 4 \<and> column_field (sheet_labels stacked_sheet 0 2 ! i) = ''basic_salary''} = {2}"
proof -
  have columns: "build_composite_columns stacked_sheet 0 2 = [''STAFF ID'', ''NAMES'', ''BASIC SALARY'', ''BASIC TAX'']"
    by (simp add: composite_labels stacked_sheet_labels count_labels_Cons counted_def)
  have ok: "mapping_conflicts (map_columns (build_composite_columns stacked_sheet 0 2)) = []"
    unfolding columns map_columns_def using sample_fields
    by (simp add: mapping_conflicts_def by_field_def MANDATORY_IMPORT_FIELDS_def)
  let ?S = "{i. i < 4 \<and> column_field (sheet_labels stacked_sheet 0 2 ! i) = ''basic_salary''}"
  have "card ?S = 1"
  proof -
    have free: "\<forall>label\<in>set (sheet_labels stacked_sheet 0 2). drop_count_suffix label = label"
      using sample_header_labels(2) by (simp add: stacked_sheet_labels)
    have "''basic_salary'' \<in> set MANDATORY_IMPORT_FIELDS" by (simp add: MANDATORY_IMPORT_FIELDS_def)
    moreover have "length (sheet_labels stacked_sheet 0 2) = 4" by (simp add: stacked_sheet_labels)
    ultimately show ?thesis using columns_bound_once [OF ok free, rule_format, of "''basic_salary''"]
      by (simp only: Let_def) simp
  qed
  then obtain a where single: "?S = {a}" by (rule card_1_singletonE)
  have "2 \<in> ?S" using sample_fields by (simp add: stacked_sheet_labels)
  then have "?S = {2}" unfolding single by simp
  with ok show ?thesis by blast
qed

end
