(* ===== verification/ImportFrames.thy ===== *)
theory ImportFrames
  imports ImportNumbers ImportConfirm RunTotals LifecycleSafety
begin

text \<open>
  What each step of a confirmed import changes and what it leaves alone: the roster while rows
  are read, the items and the run they make, the calculation, the deletion of the runs that are
  replaced, and the two confirm routes as cases over them.
\<close>

subsection \<open>Frames\<close>

lemma send_of_simps [simp]:
  "send_of (map_life_send f db) = f (send_of db)"
  "send_of (db\<lparr>im_employee_text := et\<rparr>) = send_of db" "send_of (db\<lparr>im_item_text := it\<rparr>) = send_of db"
  "send_of (db\<lparr>im_run_import := ri\<rparr>) = send_of db" "send_of (db\<lparr>im_batches := bs\<rparr>) = send_of db"
  "send_of (audit_import a k db) = send_of db" "send_of (mark_imported k r db) = send_of db"
  by (simp_all add: send_of_def map_life_send_def map_send_def audit_import_def record_audit_def mark_imported_def)

lemma runs_in_life: "runs_in (im_life db) = sd_runs (send_of db)"
  by (simp add: runs_in_def send_of_def)

lemma items_in_life: "items_in (im_life db) = sd_items (send_of db)"
  by (simp add: send_of_def)

text \<open>The tables the creation of a run leaves alone.\<close>

definition side :: "import_db \<Rightarrow> (int \<times> int option) list \<times> import_batch list \<times> client_company list \<times> statutory_rate list" where
  "side db = (lf_imports (im_life db), im_batches db, im_clients db, im_rates db)"

lemma side_simps [simp]:
  "side (map_life_send f db) = side db" "side (db\<lparr>im_employee_text := et\<rparr>) = side db"
  "side (db\<lparr>im_item_text := it\<rparr>) = side db" "side (db\<lparr>im_run_import := ri\<rparr>) = side db" "side (audit_import a k db) = side db"
  by (simp_all add: side_def map_life_send_def map_send_def audit_import_def record_audit_def)

lemma side_eqD:
  assumes "side db' = side db"
  shows "lf_imports (im_life db') = lf_imports (im_life db)" "im_batches db' = im_batches db" "im_clients db' = im_clients db"
    "client_of db' = client_of db" "find_import k db' = find_import k db"
  using assms by (simp_all add: side_def client_of_def fun_eq_iff find_import_def split: option.split)

lemma fresh_key_gt: "k \<in> set ks \<Longrightarrow> k < fresh_key ks"
proof -
  have "k \<le> foldr max ks 0" if "k \<in> set ks" using that by (induction ks) (auto simp: max.coboundedI2)
  then show "k \<in> set ks \<Longrightarrow> k < fresh_key ks" by (simp add: fresh_key_def)
qed

lemma fresh_key_new: "fresh_key ks \<notin> set ks"
  using fresh_key_gt by fastforce

subsection \<open>Staff ids\<close>

definition id_char :: "char \<Rightarrow> bool" where
  "id_char c \<longleftrightarrow> \<not> is_space c \<and> to_upper c = c"

lemma no_space_strip: "list_all id_char s \<Longrightarrow> strip s = s"
proof -
  have "dropWhile is_space t = t" if "list_all id_char t" for t using that by (cases t) (auto simp: id_char_def)
  then show "list_all id_char s \<Longrightarrow> strip s = s" by (simp add: strip_def lstrip_def rstrip_def)
qed

lemma normalise_id_char: "list_all id_char s \<Longrightarrow> normalise_emp_id s = s"
proof -
  assume s: "list_all id_char s"
  then have "upper s = s" by (simp add: upper_def map_idI id_char_def list_all_iff)
  with s no_space_strip [OF s] show ?thesis by (simp add: normalise_emp_id_def filter_id_conv id_char_def list_all_iff)
qed

lemma normalised_chars: "list_all id_char (normalise_emp_id s)"
  by (auto simp: normalise_emp_id_def list_all_iff id_char_def upper_def)

lemma digit_id_char: "is_digit c \<Longrightarrow> id_char c"
proof -
  have "list_all id_char ''0123456789''" by (simp add: id_char_def text_eval)
  then show "is_digit c \<Longrightarrow> id_char c" unfolding is_digit_def list_all_iff by blast
qed

lemma id_char_literals: "list_all id_char ''IMPORT-''" "list_all id_char ''-''"
  by (simp_all add: id_char_def text_eval)

lemma digits_id: "list_all id_char (digits n)"
  using digits_facts [of n] digit_id_char by (auto simp: list_all_iff)

lemma str_int_id: "list_all id_char (str_int i)"
  using digits_id id_char_literals(2) by (simp add: str_int_def)

lemma import_staff_id_normal: "normalise_emp_id (import_staff_id c r n row) = import_staff_id c r n row"
proof (rule normalise_id_char)
  have "list_all id_char (''IMPORT-'' @ str_int c @ ''-'' @ str_int r @ ''-'' @ digits n)"
    unfolding list_all_append using id_char_literals str_int_id digits_id by blast
  then show "list_all id_char (import_staff_id c r n row)"
    unfolding import_staff_id_def Let_def using normalised_chars by (cases "normalise_emp_id (rtext row ''staff_id'') = []") simp_all
qed

subsection \<open>Well-formed tables and what stays untouched\<close>

definition employee_key :: "raw_employee \<Rightarrow> int \<times> string" where
  "employee_key e = (emp_client e, normalise_emp_id (emp_staff_id e))"

text \<open>Primary keys are unique, no client has two employees of one staff id, and items have a run.\<close>

definition keys_ok :: "send_db \<Rightarrow> bool" where
  "keys_ok s \<longleftrightarrow>
     distinct (map emp_id (sd_employees s)) \<and> distinct (map employee_key (sd_employees s)) \<and>
     distinct (map run_id (sd_runs s)) \<and> distinct (map item_id (sd_items s)) \<and>
     (\<forall>i\<in>set (sd_items s). item_run i \<in> run_id ` set (sd_runs s))"

text \<open>Employees, runs and rows of every client outside \<open>C\<close> are as before.\<close>

definition untouched :: "int set \<Rightarrow> import_db \<Rightarrow> import_db \<Rightarrow> bool" where
  "untouched C db db' \<longleftrightarrow>
     filter (\<lambda>e. emp_client e \<notin> C) (sd_employees (send_of db')) = filter (\<lambda>e. emp_client e \<notin> C) (sd_employees (send_of db)) \<and>
     (\<forall>e\<in>set (sd_employees (send_of db)). emp_client e \<notin> C \<longrightarrow>
        im_employee_text db' (emp_id e) = im_employee_text db (emp_id e)) \<and>
     filter (\<lambda>r. run_client_company_id r \<notin> Some ` C) (sd_runs (send_of db')) =
       filter (\<lambda>r. run_client_company_id r \<notin> Some ` C) (sd_runs (send_of db)) \<and>
     (\<forall>r\<in>set (sd_runs (send_of db)). run_client_company_id r \<notin> Some ` C \<longrightarrow>
        items_of (run_id r) (sd_items (send_of db')) = items_of (run_id r) (sd_items (send_of db)))"

lemma untouched_refl [simp]: "untouched C db db"
  by (simp add: untouched_def)

lemma filter_eq_member: "filter P ys = filter P xs \<Longrightarrow> x \<in> set xs \<Longrightarrow> P x \<Longrightarrow> x \<in> set ys"
  by (metis (mono_tags, lifting) mem_Collect_eq set_filter)

lemma untouched_trans: "untouched C a b \<Longrightarrow> untouched C b c \<Longrightarrow> untouched C a c"
  unfolding untouched_def
  by (elim conjE, intro conjI ballI impI) (simp, metis filter_eq_member, simp, metis filter_eq_member)

lemma untouched_mono: "untouched C db db' \<Longrightarrow> C \<subseteq> E \<Longrightarrow> untouched E db db'"
proof -
  assume u: "untouched C db db'" and sub: "C \<subseteq> E"
  have weaker: "filter Q ys = filter Q xs" if "filter P ys = filter P xs" "\<And>x. Q x \<Longrightarrow> P x" for P Q and xs ys :: "'a list"
  proof -
    have "filter Q zs = filter Q (filter P zs)" for zs using that(2) by (auto intro!: filter_cong)
    then show ?thesis using that(1) by metis
  qed
  show ?thesis using u sub unfolding untouched_def
    by (elim conjE, intro conjI ballI impI) (erule weaker, blast, blast, erule weaker, blast, blast)
qed

lemma untouched_side [simp]:
  "untouched C db (audit_import a k db') = untouched C db db'" "untouched C db (mark_imported k r db') = untouched C db db'"
  "untouched C db (db'\<lparr>im_item_text := it\<rparr>) = untouched C db db'" "untouched C db (db'\<lparr>im_run_import := ri\<rparr>) = untouched C db db'"
  by (simp_all add: untouched_def audit_import_def mark_imported_def map_life_send_def)
    (simp_all add: send_of_def record_audit_def)

lemma filter_changed_row:
  "(\<And>x. x \<in> set xs \<Longrightarrow> key x = k \<Longrightarrow> \<not> P x \<and> \<not> P (f x)) \<Longrightarrow> filter P (update_row key k f xs) = filter P xs"
  by (induction xs) auto

subsection \<open>The roster\<close>

definition roster_ok :: "int \<Rightarrow> send_db \<Rightarrow> (string \<Rightarrow> int option) \<Rightarrow> bool" where
  "roster_ok c s roster \<longleftrightarrow>
     (\<forall>key k. roster key = Some k \<longleftrightarrow> (\<exists>e\<in>set (sd_employees s). emp_id e = k \<and> employee_key e = (c, key)))"

definition kept :: "send_db \<Rightarrow> send_db \<Rightarrow> bool" where
  "kept s s' \<longleftrightarrow> (\<forall>e\<in>set (sd_employees s). \<exists>e'\<in>set (sd_employees s'). emp_id e' = emp_id e \<and> employee_key e' = employee_key e)"

lemma kept_refl [simp]: "kept s s"
  by (auto simp: kept_def)

lemma kept_trans: "kept a b \<Longrightarrow> kept b c \<Longrightarrow> kept a c"
  unfolding kept_def by metis

lemma kept_items [simp]: "kept s (s'\<lparr>sd_items := is\<rparr>) = kept s s'" "kept (s\<lparr>sd_items := is\<rparr>) s' = kept s s'"
  by (simp_all add: kept_def)

lemma roster_keys_ok:
  assumes "keys_ok s"
  shows "roster_ok c s (roster_keys c (sd_employees s))"
proof -
  let ?mine = "filter (\<lambda>e. emp_client e = c) (sd_employees s)"
  let ?pairs = "map (\<lambda>e. (normalise_emp_id (emp_staff_id e), e)) ?mine"
  have "inj_on (\<lambda>e. normalise_emp_id (emp_staff_id e)) (set ?mine)"
    using assms by (auto simp: keys_ok_def distinct_map employee_key_def inj_on_def)
  then have d: "distinct (map fst (rev ?pairs))"
    using assms by (simp add: distinct_map keys_ok_def o_def rev_map [symmetric])
  have "roster_of c (sd_employees s) key = Some e \<longleftrightarrow> e \<in> set (sd_employees s) \<and> employee_key e = (c, key)" for key e
    using map_of_eq_Some_iff [OF d] by (auto simp: roster_of_def employee_key_def)
  then show ?thesis by (auto simp: roster_ok_def roster_keys_def)
qed

lemma update_employee_frame [simp]:
  "emp_id (update_employee nm row e) = emp_id e" "employee_key (update_employee nm row e) = employee_key e"
  "emp_client (update_employee nm row e) = emp_client e"
  by (simp_all add: update_employee_def employee_key_def Let_def)

lemma set_emp_keys: "distinct (map key xs) \<Longrightarrow> x \<in> set xs \<Longrightarrow> y \<in> set xs \<Longrightarrow> key x = key y \<Longrightarrow> x = y"
  by (simp add: distinct_map inj_on_def)

lemma map_update_row: "(\<And>x. g (f x) = g x) \<Longrightarrow> map g (update_row key k f xs) = map g xs"
  by (simp add: update_row_def)

lemma employee_step:
  assumes "keys_ok (send_of db)" "roster_ok (cc_id client) (send_of db) roster" "cc_id client \<in> C"
    "create_or_update_employee_from_import client run index row (db, roster) = ((db', roster'), k)"
  shows "keys_ok (send_of db')" "roster_ok (cc_id client) (send_of db') roster'" "untouched C db db'"
    "sd_runs (send_of db') = sd_runs (send_of db)" "sd_items (send_of db') = sd_items (send_of db)" "side db' = side db"
    "\<exists>e\<in>set (sd_employees (send_of db')). emp_id e = k \<and> employee_key e = (cc_id client, import_staff_id (cc_id client) run index row)"
    "kept (send_of db) (send_of db')"
proof -
  let ?c = "cc_id client"
  let ?sid = "import_staff_id ?c run index row"
  let ?f = "update_employee (import_full_name ?sid row) row"
  let ?es = "sd_employees (send_of db)"
  let ?new = "imported_employee k ?sid ?c"
  define es1 where "es1 = (case roster ?sid of Some _ \<Rightarrow> ?es | None \<Rightarrow> ?es @ [?new])"
  have new: "emp_id ?new = k" "employee_key ?new = (?c, ?sid)" "emp_client ?new = ?c"
    by (simp_all add: imported_employee_def employee_key_def import_staff_id_normal)
  have kk: "k = (case roster ?sid of Some k \<Rightarrow> k | None \<Rightarrow> fresh_key (map emp_id ?es))"
    using assms(4) by (auto simp: create_or_update_employee_from_import_def Let_def split: option.splits)
  have emps: "sd_employees (send_of db') = update_row emp_id k ?f es1"
    and rest: "sd_runs (send_of db') = sd_runs (send_of db)" "sd_items (send_of db') = sd_items (send_of db)" "side db' = side db"
    and ro: "roster' = roster(?sid \<mapsto> k)"
    using assms(4) by (auto simp: create_or_update_employee_from_import_def Let_def es1_def fun_upd_idem split: option.splits)
  have "im_employee_text db' x = im_employee_text db x" if "x \<noteq> k" for x
    using assms(4) that by (auto simp: create_or_update_employee_from_import_def Let_def map_life_send_def split: option.splits)
  note texts = this
  have ks: "map emp_id (sd_employees (send_of db')) = map emp_id es1"
      "map employee_key (sd_employees (send_of db')) = map employee_key es1"
    unfolding emps by (simp_all add: map_update_row)
  have mem: "\<exists>e\<in>set es1. emp_id e = k \<and> employee_key e = (?c, ?sid)"
  proof (cases "roster ?sid")
    case None
    then show ?thesis using new by (simp add: es1_def)
  next
    case (Some j)
    then have "es1 = ?es" "k = j" using kk by (simp_all add: es1_def)
    then show ?thesis using assms(2) [unfolded roster_ok_def, rule_format, of ?sid j] Some by simp
  qed
  have fresh: "k \<notin> emp_id ` set ?es \<and> (?c, ?sid) \<notin> employee_key ` set ?es" if "roster ?sid = None"
  proof
    show "k \<notin> emp_id ` set ?es" using that kk fresh_key_new [of "map emp_id ?es"] by simp
    have "employee_key e \<noteq> (?c, ?sid)" if "e \<in> set ?es" for e
      using assms(2) [unfolded roster_ok_def, rule_format, of ?sid "emp_id e"] that \<open>roster ?sid = None\<close> by auto
    then show "(?c, ?sid) \<notin> employee_key ` set ?es" by (metis imageE)
  qed
  have d: "distinct (map emp_id es1)" "distinct (map employee_key es1)"
    using assms(1) fresh new by (auto simp: es1_def keys_ok_def split: option.splits)
  show "keys_ok (send_of db')" using assms(1) d by (simp add: keys_ok_def ks rest)
  show "sd_runs (send_of db') = sd_runs (send_of db)" "sd_items (send_of db') = sd_items (send_of db)" "side db' = side db" by fact+
  have same: "(\<exists>e\<in>set (sd_employees (send_of db')). emp_id e = j \<and> employee_key e = q) \<longleftrightarrow> (\<exists>e\<in>set es1. emp_id e = j \<and> employee_key e = q)" for j q
  proof -
    let ?g = "\<lambda>e. (emp_id e, employee_key e)"
    have "map ?g (sd_employees (send_of db')) = map ?g es1" unfolding emps by (simp add: map_update_row)
    then have "(j, q) \<in> set (map ?g (sd_employees (send_of db'))) \<longleftrightarrow> (j, q) \<in> set (map ?g es1)" by simp
    then show ?thesis by (auto simp: image_iff)
  qed
  show "\<exists>e\<in>set (sd_employees (send_of db')). emp_id e = k \<and> employee_key e = (?c, ?sid)" using mem same by simp
  show "kept (send_of db) (send_of db')"
    unfolding kept_def same by (auto simp: es1_def split: option.splits)
  show "roster_ok ?c (send_of db') roster'"
    unfolding roster_ok_def same
  proof (intro allI)
    fix key j
    show "(roster' key = Some j) = (\<exists>e\<in>set es1. emp_id e = j \<and> employee_key e = (?c, key))"
    proof (cases "key = ?sid")
      case True
      obtain e0 where e0: "e0 \<in> set es1" "emp_id e0 = k" "employee_key e0 = (?c, ?sid)" using mem by blast
      have "e = e0" if "e \<in> set es1" "employee_key e = (?c, ?sid)" for e
        by (rule set_emp_keys [OF d(2) that(1) e0(1)]) (simp add: that(2) e0(3))
      then have "(\<exists>e\<in>set es1. emp_id e = j \<and> employee_key e = (?c, ?sid)) \<longleftrightarrow> k = j" using e0 by blast
      then show ?thesis by (simp add: ro True)
    next
      case False
      then have "(\<exists>e\<in>set es1. emp_id e = j \<and> employee_key e = (?c, key)) \<longleftrightarrow> (\<exists>e\<in>set ?es. emp_id e = j \<and> employee_key e = (?c, key))"
        using new by (auto simp: es1_def split: option.splits)
      then show ?thesis using False assms(2) by (simp add: ro roster_ok_def)
    qed
  qed
  have clk: "emp_client e = ?c" if "e \<in> set es1" "emp_id e = k" for e
  proof -
    obtain e0 where e0: "e0 \<in> set es1" "emp_id e0 = k" "employee_key e0 = (?c, ?sid)" using mem by blast
    have "e = e0" by (rule set_emp_keys [OF d(1) that(1) e0(1)]) (simp add: that(2) e0(2))
    then show ?thesis using e0(3) by (simp add: employee_key_def)
  qed
  have "filter (\<lambda>e. emp_client e \<notin> C) (update_row emp_id k ?f es1) = filter (\<lambda>e. emp_client e \<notin> C) es1"
    using clk assms(3) by (intro filter_changed_row) auto
  moreover have "filter (\<lambda>e. emp_client e \<notin> C) es1 = filter (\<lambda>e. emp_client e \<notin> C) ?es"
    using new assms(3) by (auto simp: es1_def split: option.splits)
  moreover have "emp_id e \<noteq> k" if "e \<in> set ?es" "emp_client e \<notin> C" for e
    using clk [of e] that assms(3) by (auto simp: es1_def split: option.splits)
  ultimately show "untouched C db db'" using texts by (simp add: untouched_def emps rest)
qed

text \<open>An item carries the row it comes from: its texts, its figures, its warnings and the worker's record.\<close>

definition item_key :: "payroll_item \<Rightarrow> int \<times> int \<times> int option \<times> string option \<times> string option" where
  "item_key i = (item_id i, item_run i, item_employee i, item_staff_id i, item_full_name i)"

definition item_of_row :: "int \<Rightarrow> int \<Rightarrow> (nat \<times> string list) list \<Rightarrow> send_db \<Rightarrow> nat \<times> import_row \<Rightarrow> payroll_item \<Rightarrow> bool" where
  "item_of_row c run warned s entry i \<longleftrightarrow>
     (case entry of (index, row) \<Rightarrow>
        (\<exists>e\<in>set (sd_employees s). employee_key e = (c, import_staff_id c run index row) \<and>
           i = import_item (item_id i) run (emp_id e) (case map_of warned index of None \<Rightarrow> [] | Some ws \<Rightarrow> ws) row))"

lemma item_of_rowD:
  assumes "item_of_row c run warned s (index, row) i"
  obtains e j ws where "e \<in> set (sd_employees s)" "employee_key e = (c, import_staff_id c run index row)"
    "i = import_item j run (emp_id e) ws row" "ws = (case map_of warned index of None \<Rightarrow> [] | Some ws \<Rightarrow> ws)"
  using assms by (auto simp: item_of_row_def)

lemma item_of_row_run: "item_of_row c run warned s entry i \<Longrightarrow> item_run i = run"
  by (cases entry) (auto elim!: item_of_rowD simp: import_item_def)

lemma rows_step:
  assumes "keys_ok (send_of db)" "roster_ok (cc_id client) (send_of db) roster" "cc_id client \<in> C"
    "run \<in> run_id ` set (sd_runs (send_of db))" "\<forall>r\<in>set (sd_runs (send_of db)). run_id r = run \<longrightarrow> run_client_company_id r = Some (cc_id client)"
    "foldl (import_one_row client run v) (db, roster) entries = (db', roster')"
  shows "keys_ok (send_of db') \<and> untouched C db db' \<and> sd_runs (send_of db') = sd_runs (send_of db) \<and> side db' = side db \<and>
    kept (send_of db) (send_of db') \<and>
    (\<exists>written. sd_items (send_of db') = sd_items (send_of db) @ written \<and>
       list_all2 (item_of_row (cc_id client) run (vd_per_row_warnings v) (send_of db')) (filter (\<lambda>(_, row). \<not> nameless row) entries) written)"
  using assms
proof (induction entries arbitrary: db roster)
  case Nil
  then show ?case by auto
next
  case (Cons entry entries)
  obtain index row where entry: "entry = (index, row)" by (cases entry)
  show ?case
  proof (cases "nameless row")
    case True
    with Cons show ?thesis by (simp add: entry import_one_row_def)
  next
    case False
    obtain db1 roster1 k where made: "create_or_update_employee_from_import client run index row (db, roster) = ((db1, roster1), k)"
      by (metis surj_pair)
    note step = employee_step [OF Cons.prems(1-3) made]
    let ?s1 = "send_of db1"
    let ?j = "fresh_key (map item_id (sd_items ?s1))"
    let ?ws = "case map_of (vd_per_row_warnings v) index of None \<Rightarrow> [] | Some ws \<Rightarrow> ws"
    let ?i = "import_item ?j run k ?ws row"
    define db2 where "db2 = (map_life_send (\<lambda>s. s\<lparr>sd_items := sd_items s @ [?i]\<rparr>) db1)\<lparr>im_item_text := (im_item_text
        (map_life_send (\<lambda>s. s\<lparr>sd_items := sd_items s @ [?i]\<rparr>) db1))(?j := import_item_text row)\<rparr>"
    have "import_one_row client run v (db, roster) entry = (db2, roster1)"
      using False by (simp add: entry import_one_row_def made Let_def db2_def)
    then have fold: "foldl (import_one_row client run v) (db2, roster1) entries = (db', roster')"
      using Cons.prems(6) by simp
    have s2: "send_of db2 = ?s1\<lparr>sd_items := sd_items ?s1 @ [?i]\<rparr>" "side db2 = side db1" by (simp_all add: db2_def)
    have i: "item_id ?i = ?j" "item_run ?i = run" by (simp_all add: import_item_def)
    have ok2: "keys_ok (send_of db2)"
      using step(1,4) Cons.prems(4) fresh_key_new [of "map item_id (sd_items ?s1)"] i by (auto simp: keys_ok_def s2)
    have "roster_ok (cc_id client) (send_of db2) roster1" using step(2) by (simp add: roster_ok_def s2)
    from Cons.IH [OF ok2 this Cons.prems(3) _ _ fold] Cons.prems(4,5) step(4)
    have IH: "keys_ok (send_of db')" "untouched C db2 db'" "sd_runs (send_of db') = sd_runs (send_of db2)" "side db' = side db2"
      "kept (send_of db2) (send_of db')"
      "\<exists>written. sd_items (send_of db') = sd_items (send_of db2) @ written \<and>
         list_all2 (item_of_row (cc_id client) run (vd_per_row_warnings v) (send_of db')) (filter (\<lambda>(_, row). \<not> nameless row) entries) written"
      by (simp_all add: s2)
    obtain e where e: "e \<in> set (sd_employees ?s1)" "emp_id e = k" "employee_key e = (cc_id client, import_staff_id (cc_id client) run index row)"
      using step(7) by auto
    then obtain e' where "e' \<in> set (sd_employees (send_of db'))" "emp_id e' = k" "employee_key e' = employee_key e"
      using IH(5) by (auto simp: s2 kept_def)
    then have "item_of_row (cc_id client) run (vd_per_row_warnings v) (send_of db') entry ?i"
      using e(3) by (auto simp: item_of_row_def entry i)
    moreover have "untouched C db1 db2"
    proof -
      have "run_id r \<noteq> run" if "r \<in> set (sd_runs ?s1)" "run_client_company_id r \<notin> Some ` C" for r
        using that Cons.prems(3,5) step(4) by auto
      then show ?thesis by (auto simp: untouched_def s2 items_of_def i) (simp_all add: db2_def map_life_send_def)
    qed
    moreover have "kept (send_of db) (send_of db')"
      using kept_trans [OF step(8), of "send_of db'"] IH(5) by (simp add: s2)
    moreover obtain written where "sd_items (send_of db') = sd_items (send_of db2) @ written"
      "list_all2 (item_of_row (cc_id client) run (vd_per_row_warnings v) (send_of db')) (filter (\<lambda>(_, row). \<not> nameless row) entries) written"
      using IH(6) by blast
    ultimately show ?thesis
      using IH(1,3,4) step(4,5,6) False s2 untouched_trans [OF untouched_trans [OF step(3)], of db2 db'] IH(2)
      by (auto simp: entry)
  qed
qed

subsection \<open>What the calculation leaves in place\<close>

lemma item_key_frame [simp]:
  "item_key (set_fields kvs item) = item_key item" "item_key (merge_calculation_warnings ws item) = item_key item"
  "item_key (apply_overtime_concession_warning rate item) = item_key item" "item_key (write_result rate item res) = item_key item"
  by (simp_all add: item_key_def set_fields_def merge_calculation_warnings_def apply_overtime_concession_warning_def set_notes_def
      write_result_def Let_def)

definition run_key :: "payroll_run \<Rightarrow> int \<times> string \<times> int \<times> string \<times> int option" where
  "run_key r = (run_id r, run_month r, run_year r, run_status r, run_client_company_id r)"

lemma run_key_frame [simp]: "run_key (refresh_run_totals items run) = run_key run" "run_key (import_totals items run) = run_key run"
  "run_key (run\<lparr>run_statutory_rate_id := x\<rparr>) = run_key run"
  by (simp_all add: run_key_def refresh_run_totals_def import_totals_def Let_def)

lemma rated_run_key: "statutory_rate_for_run rates run = Inr (rate, run') \<Longrightarrow> run_key run' = run_key run"
  by (auto simp: statutory_rate_for_run_def split: sum.splits option.splits if_splits)

lemma recalculated_keys:
  "recalculate_salaried_items runs items emps run rate = (written, e) \<Longrightarrow> map item_key written = map item_key (items_of (run_id run) items)"
proof -
  assume calc: "recalculate_salaried_items runs items emps run rate = (written, e)"
  have "map item_key (map (\<lambda>(item, res). write_result rate item res) staged) = map item_key (map fst staged)" for staged
    by (induction staged) auto
  note staged = this
  let ?mine = "items_of (run_id run) items"
  let ?used = "bonus_concession_used_ytd_bulk runs items (map item_employee ?mine) (run_year run) (Some (run_id run))"
  show ?thesis
  proof (cases "stage_results rate run emps ?used ?mine")
    case (Inl err)
    then show ?thesis using calc by (simp add: recalculate_salaried_items_def Let_def)
  next
    case (Inr st)
    then have "written = map (\<lambda>(item, res). write_result rate item res) st"
      using calc by (simp add: recalculate_salaried_items_def Let_def)
    then show ?thesis using staged [of st] stage_results_Inr [OF Inr] by simp
  qed
qed

lemma replace_keys:
  assumes "distinct (map item_id items)" "map item_key written = map item_key (items_of run items)"
  shows "\<exists>g. replace_items run written items = map g items \<and> (\<forall>i\<in>set items. item_key (g i) = item_key i \<and> (item_run i \<noteq> run \<longrightarrow> g i = i))"
proof -
  define g where "g i = (case map_of (map (\<lambda>w. (item_id w, w)) written) (item_id i) of
      Some w \<Rightarrow> if item_run i = run then w else i | None \<Rightarrow> i)" for i
  have "item_key (g i) = item_key i \<and> (item_run i \<noteq> run \<longrightarrow> g i = i)" if i: "i \<in> set items" for i
  proof (cases "map_of (map (\<lambda>w. (item_id w, w)) written) (item_id i)")
    case (Some w)
    then have w: "w \<in> set written" "item_id w = item_id i" by (auto dest!: map_of_SomeD)
    then have "item_key w \<in> item_key ` set (items_of run items)" using assms(2) by (metis imageI set_map)
    then obtain j where j: "j \<in> set items" "item_key w = item_key j" by (auto simp: items_of_def)
    then have "item_id j = item_id i" using w(2) by (simp add: item_key_def)
    then have "j = i" using assms(1) i j(1) by (simp add: distinct_map inj_on_def)
    then show ?thesis using Some j(2) by (simp add: g_def)
  qed (simp add: g_def)
  then show ?thesis by (intro exI [of _ g]) (simp add: replace_items_def g_def)
qed

lemma auto_shape:
  assumes "auto_calculate_on_confirm run db = (db', out)"
  shows "db' = db \<or> (\<exists>run'' written. db' = put_run run'' (put_items (run_id run) written db) \<and> run_key run'' = run_key run \<and>
      map item_key written = map item_key (items_of (run_id run) (pay_items db)) \<and> (\<forall>e. out \<noteq> Skipped_no_rates e))"
proof (cases "statutory_rate_for_run (pay_rates db) run")
  case (Inl err)
  then show ?thesis using assms by (simp add: auto_calculate_on_confirm_def)
next
  case (Inr p)
  obtain rate run' where p: "p = (rate, run')" by (cases p)
  note key = rated_run_key [OF Inr [unfolded p]]
  then have id: "run_id run' = run_id run" by (simp add: run_key_def)
  obtain written oe where calc: "recalculate_salaried_items (pay_runs db) (pay_items db) (pay_employees db) run' rate = (written, oe)"
    by (metis surj_pair)
  have "\<exists>run''. db' = put_run run'' (put_items (run_id run) written db) \<and> run_key run'' = run_key run \<and> (\<forall>e. out \<noteq> Skipped_no_rates e)"
  proof (cases oe)
    case None
    then show ?thesis using assms Inr p calc id key by (auto simp: auto_calculate_on_confirm_def Let_def)
  next
    case (Some err)
    then show ?thesis using assms Inr p calc id key by (auto simp: auto_calculate_on_confirm_def Let_def)
  qed
  then show ?thesis using recalculated_keys [OF calc] id by metis
qed

lemma auto_frame:
  assumes "distinct (map item_id (pay_items db))" "auto_calculate_on_confirm run db = (db', out)"
  shows "\<exists>g. pay_items db' = map g (pay_items db) \<and>
      (\<forall>i\<in>set (pay_items db). item_key (g i) = item_key i \<and> (item_run i \<noteq> run_id run \<longrightarrow> g i = i))"
    and "\<exists>h. pay_runs db' = update_row run_id (run_id run) h (pay_runs db) \<and> run_key (h run) = run_key run"
    and "out = Skipped_no_rates e \<Longrightarrow> db' = db"
proof -
  have same: "pay_items db = map (\<lambda>i. i) (pay_items db)" "pay_runs db = update_row run_id (run_id run) (\<lambda>r. r) (pay_runs db)"
    by (simp_all add: update_row_def)
  consider "db' = db" | run'' written where "db' = put_run run'' (put_items (run_id run) written db)" "run_key run'' = run_key run"
      "map item_key written = map item_key (items_of (run_id run) (pay_items db))"
    using auto_shape [OF assms(2)] by blast
  note cases = this
  show "\<exists>g. pay_items db' = map g (pay_items db) \<and>
      (\<forall>i\<in>set (pay_items db). item_key (g i) = item_key i \<and> (item_run i \<noteq> run_id run \<longrightarrow> g i = i))"
  proof (rule cases)
    assume "db' = db" then show ?thesis using same(1) by (intro exI [of _ "\<lambda>i. i"]) simp
  next
    fix run'' written assume d: "db' = put_run run'' (put_items (run_id run) written db)"
      "map item_key written = map item_key (items_of (run_id run) (pay_items db))"
    have "pay_items db' = replace_items (run_id run) written (pay_items db)" by (simp add: d(1) put_run_def put_items_def)
    then show ?thesis using replace_keys [OF assms(1) d(2)] by simp
  qed
  show "\<exists>h. pay_runs db' = update_row run_id (run_id run) h (pay_runs db) \<and> run_key (h run) = run_key run"
  proof (rule cases)
    assume "db' = db" then show ?thesis using same(2) by (intro exI [of _ "\<lambda>r. r"]) simp
  next
    fix run'' written assume d: "db' = put_run run'' (put_items (run_id run) written db)" "run_key run'' = run_key run"
    then have "run_id run'' = run_id run" by (simp add: run_key_def)
    then show ?thesis using d by (intro exI [of _ "\<lambda>_. run''"]) (simp add: put_run_def put_items_def)
  qed
  show "out = Skipped_no_rates e \<Longrightarrow> db' = db" using auto_shape [OF assms(2)] by blast
qed

lemma calculate_step:
  assumes "keys_ok (send_of db)" "run \<in> set (sd_runs (send_of db))" "run_client_company_id run \<in> Some ` C"
    "calculate_on_confirm run db = (db', out)"
  shows "keys_ok (send_of db')" "untouched C db db'" "side db' = side db" "sd_employees (send_of db') = sd_employees (send_of db)"
    "map item_key (sd_items (send_of db')) = map item_key (sd_items (send_of db))"
    "map run_key (sd_runs (send_of db')) = map run_key (sd_runs (send_of db))"
    "out = Skipped_no_rates e \<Longrightarrow> send_of db' = send_of db"
proof -
  let ?s = "send_of db"
  define pay where "pay = \<lparr>pay_runs = sd_runs ?s, pay_items = sd_items ?s, pay_employees = map employee.truncate (sd_employees ?s),
    pay_rates = im_rates db\<rparr>"
  obtain pay' where auto: "auto_calculate_on_confirm run pay = (pay', out)"
    using assms(4) by (auto simp: calculate_on_confirm_def pay_def Let_def split: prod.splits)
  define life where "life = (case out of Skipped_no_rates _ \<Rightarrow> record_audit ''Payroll auto-calculation skipped'' (run_id run)
      | Calculation_failed _ \<Rightarrow> record_audit ''Payroll auto-calculation failed'' (run_id run) | Calculated \<Rightarrow> (\<lambda>life. life))"
  have db': "db' = (map_life_send (\<lambda>s. s\<lparr>sd_runs := pay_runs pay', sd_items := pay_items pay'\<rparr>) db)
      \<lparr>im_life := life (im_life (map_life_send (\<lambda>s. s\<lparr>sd_runs := pay_runs pay', sd_items := pay_items pay'\<rparr>) db))\<rparr>"
    using assms(4) auto by (simp add: calculate_on_confirm_def pay_def [symmetric] Let_def life_def)
  have s': "send_of db' = ?s\<lparr>sd_runs := pay_runs pay', sd_items := pay_items pay'\<rparr>"
    by (simp add: db' send_of_def map_life_send_def map_send_def life_def record_audit_def split: auto_outcome.split)
  show "side db' = side db"
    by (simp add: db' side_def map_life_send_def map_send_def life_def record_audit_def split: auto_outcome.split)
  have d: "distinct (map item_id (pay_items pay))" using assms(1) by (simp add: keys_ok_def pay_def)
  obtain g where g: "pay_items pay' = map g (sd_items ?s)"
    "\<And>i. i \<in> set (sd_items ?s) \<Longrightarrow> item_key (g i) = item_key i \<and> (item_run i \<noteq> run_id run \<longrightarrow> g i = i)"
    using auto_frame(1) [OF d auto] by (auto simp: pay_def)
  obtain h where h: "pay_runs pay' = update_row run_id (run_id run) h (sd_runs ?s)" "run_key (h run) = run_key run"
    using auto_frame(2) [OF d auto] by (auto simp: pay_def)
  have only: "r = run" if "r \<in> set (sd_runs ?s)" "run_id r = run_id run" for r
    using assms(1,2) that by (simp add: keys_ok_def distinct_map inj_on_def)
  show "sd_employees (send_of db') = sd_employees ?s" by (simp add: s')
  show ik: "map item_key (sd_items (send_of db')) = map item_key (sd_items ?s)" using g by (simp add: s')
  show rk: "map run_key (sd_runs (send_of db')) = map run_key (sd_runs ?s)"
    using h by (simp add: s' update_row_def) (metis only)
  have ids: "map item_id xs = map item_id ys" "map item_run xs = map item_run ys" if "map item_key xs = map item_key ys" for xs ys
    using arg_cong [OF that, of "map fst"] arg_cong [OF that, of "map (fst \<circ> snd)"] by (simp_all add: item_key_def o_def)
  have rids: "map run_id (sd_runs (send_of db')) = map run_id (sd_runs ?s)"
    using arg_cong [OF rk, of "map fst"] by (simp add: run_key_def o_def)
  have "item_run ` set (sd_items (send_of db')) = item_run ` set (sd_items ?s)"
    using ids(2) [OF ik] by (metis set_map)
  moreover have "run_id ` set (sd_runs (send_of db')) = run_id ` set (sd_runs ?s)" using rids by (metis set_map)
  ultimately show "keys_ok (send_of db')"
    using assms(1) ids(1) [OF ik] rids unfolding keys_ok_def by (simp add: s') (metis imageE imageI)
  have "filter (\<lambda>r. run_client_company_id r \<notin> Some ` C) (sd_runs (send_of db')) = filter (\<lambda>r. run_client_company_id r \<notin> Some ` C) (sd_runs ?s)"
  proof -
    have "run_client_company_id x \<in> Some ` C \<and> run_client_company_id (h x) \<in> Some ` C"
      if "x \<in> set (sd_runs ?s)" "run_id x = run_id run" for x
      using only [OF that] h(2) assms(3) by (simp add: run_key_def)
    then show ?thesis unfolding s' by (simp add: h(1) filter_changed_row)
  qed
  moreover have "items_of (run_id r) (sd_items (send_of db')) = items_of (run_id r) (sd_items ?s)"
    if "r \<in> set (sd_runs ?s)" "run_client_company_id r \<notin> Some ` C" for r
  proof -
    have ne: "run_id r \<noteq> run_id run" using only that assms(3) by auto
    have "filter (\<lambda>i. item_run i = run_id r) (map g xs) = filter (\<lambda>i. item_run i = run_id r) xs" if "set xs \<subseteq> set (sd_items ?s)" for xs
      using that
    proof (induction xs)
      case (Cons x xs)
      then have "item_key (g x) = item_key x" "item_run x \<noteq> run_id run \<longrightarrow> g x = x" using g(2) by auto
      then show ?case using Cons ne by (auto simp: item_key_def)
    qed simp
    then show ?thesis by (simp add: s' g(1) items_of_def)
  qed
  moreover have "im_employee_text db' = im_employee_text db" by (simp add: db' map_life_send_def)
  ultimately show "untouched C db db'" by (simp add: untouched_def s')
  show "out = Skipped_no_rates e \<Longrightarrow> send_of db' = ?s" using auto_frame(3) [OF d auto] by (simp add: s' pay_def)
qed

subsection \<open>The creation of a run\<close>

definition named_rows :: "run_payload \<Rightarrow> (nat \<times> import_row) list" where
  "named_rows p = filter (\<lambda>(_, row). \<not> nameless row) (enumerate 1 (ip_mapped_rows p))"

lemma new_run_step:
  assumes "keys_ok (send_of db)" "run_client_company_id run \<in> Some ` C" "run_id run = fresh_key (map run_id (sd_runs (send_of db)))"
  shows "keys_ok (send_of (map_life_send (\<lambda>s. s\<lparr>sd_runs := sd_runs s @ [run]\<rparr>) db))"
    "untouched C db (map_life_send (\<lambda>s. s\<lparr>sd_runs := sd_runs s @ [run]\<rparr>) db)"
  using assms fresh_key_new [of "map run_id (sd_runs (send_of db))"]
  by (auto simp: keys_ok_def untouched_def) (simp add: map_life_send_def)

lemma import_rows_step:
  assumes "keys_ok (send_of db)" "cc_id client \<in> C" "import_rows now client v mode actor p db = (db', run)"
  shows "keys_ok (send_of db') \<and> untouched C db db' \<and> side db' = side db \<and>
    run_id run = fresh_key (map run_id (sd_runs (send_of db))) \<and> sd_runs (send_of db') = sd_runs (send_of db) @ [run] \<and>
    run_key run = (run_id run, ip_month p, ip_year p, DRAFT, Some (cc_id client)) \<and>
    (\<exists>written. sd_items (send_of db') = sd_items (send_of db) @ written \<and>
       list_all2 (item_of_row (cc_id client) (run_id run) (vd_per_row_warnings v) (send_of db')) (named_rows p) written \<and>
       run_total_net_pay run = Some (fsum 0 (map (\<lambda>i. col i ''net_pay'') written)))"
proof -
  let ?k = "fresh_key (map run_id (sd_runs (send_of db)))"
  let ?run = "new_import_run now ?k client v p"
  define db1 where "db1 = map_life_send (\<lambda>s. s\<lparr>sd_runs := sd_runs s @ [?run]\<rparr>) db"
  define db2 where "db2 = db1\<lparr>im_run_import := (im_run_import db1)(?k \<mapsto> run_import_of actor mode p)\<rparr>"
  obtain db3 roster3 where fold: "foldl (import_one_row client ?k v) (db2, roster_keys (cc_id client) (sd_employees (send_of db2)))
      (enumerate 1 (ip_mapped_rows p)) = (db3, roster3)" by (metis surj_pair)
  define final where "final = import_totals (items_of ?k (sd_items (send_of db3))) ?run"
  have out: "db' = map_life_send (\<lambda>s. s\<lparr>sd_runs := update_row run_id ?k (\<lambda>_. final) (sd_runs s)\<rparr>) db3" "run = final"
  proof -
    have "import_rows now client v mode actor p db =
        (map_life_send (\<lambda>s. s\<lparr>sd_runs := update_row run_id ?k (\<lambda>_. final) (sd_runs s)\<rparr>) db3, final)"
      unfolding import_rows_def Let_def db1_def [symmetric] db2_def [symmetric] fold fst_conv final_def by (rule refl)
    then show "db' = map_life_send (\<lambda>s. s\<lparr>sd_runs := update_row run_id ?k (\<lambda>_. final) (sd_runs s)\<rparr>) db3" "run = final"
      using assms(3) by simp_all
  qed
  have rk: "run_id ?run = ?k" "run_client_company_id ?run = Some (cc_id client)" by (simp_all add: new_import_run_def)
  have new: "keys_ok (send_of db1)" "untouched C db db1"
    using new_run_step [OF assms(1), of ?run C] assms(2) rk by (simp_all add: db1_def)
  have s2: "send_of db2 = send_of db1" "side db2 = side db" "sd_runs (send_of db1) = sd_runs (send_of db) @ [?run]"
      "sd_items (send_of db1) = sd_items (send_of db)" by (simp_all add: db2_def db1_def)
  have fresh: "?k \<notin> run_id ` set (sd_runs (send_of db))" using fresh_key_new [of "map run_id (sd_runs (send_of db))"] by simp
  have ok2: "keys_ok (send_of db2)" using new(1) s2 by simp
  have there: "?k \<in> run_id ` set (sd_runs (send_of db2))" using s2 rk by simp
  have only: "\<forall>r\<in>set (sd_runs (send_of db2)). run_id r = ?k \<longrightarrow> run_client_company_id r = Some (cc_id client)"
    using s2 rk fresh by (auto simp: image_iff)
  note step = rows_step [OF ok2 roster_keys_ok [OF ok2] assms(2) there only fold]
  obtain written where w: "sd_items (send_of db3) = sd_items (send_of db) @ written"
    "list_all2 (item_of_row (cc_id client) ?k (vd_per_row_warnings v) (send_of db3)) (named_rows p) written"
    using step s2 by (auto simp: named_rows_def)
  have final: "run_key final = run_key ?run" "run_id final = ?k"
    using rk by (simp_all add: final_def run_key_def import_totals_def Let_def)
  have runs: "sd_runs (send_of db') = sd_runs (send_of db) @ [final]"
  proof -
    have "update_row run_id ?k (\<lambda>_. final) (sd_runs (send_of db)) = sd_runs (send_of db)"
      unfolding update_row_def by (rule map_idI) (use fresh in \<open>simp; metis imageI\<close>)
    then show ?thesis using step s2 rk by (simp add: out(1) update_row_def)
  qed
  have s': "sd_items (send_of db') = sd_items (send_of db3)" "sd_employees (send_of db') = sd_employees (send_of db3)"
    "side db' = side db3" by (simp_all add: out(1))
  have "map run_id (sd_runs (send_of db')) = map run_id (sd_runs (send_of db3))"
    using step s2 runs rk final by simp
  then have ok: "keys_ok (send_of db')" using step s' unfolding keys_ok_def by (metis set_map)
  have un: "untouched C db db'"
  proof -
    have "untouched C db3 db'"
      using step s2 runs rk final fresh assms(2)
      by (simp add: untouched_def s' run_key_def) (simp add: out(1) map_life_send_def)
    moreover have "untouched C db db3" using new(2) step untouched_trans [of C db db2 db3] by (simp add: db2_def)
    ultimately show ?thesis using untouched_trans by blast
  qed
  have "\<forall>i\<in>set (sd_items (send_of db)). item_run i \<noteq> ?k" using assms(1) fresh unfolding keys_ok_def by metis
  moreover have "\<forall>i\<in>set written. item_run i = ?k"
  proof
    fix i assume "i \<in> set written"
    then obtain entry where "item_of_row (cc_id client) ?k (vd_per_row_warnings v) (send_of db3) entry i"
      using w(2) by (metis list_all2_conv_all_nth in_set_conv_nth)
    then show "item_run i = ?k" by (rule item_of_row_run)
  qed
  ultimately have mine: "items_of ?k (sd_items (send_of db3)) = written" by (simp add: w(1) items_of_def filter_empty_conv filter_id_conv)
  have "item_of_row (cc_id client) ?k (vd_per_row_warnings v) (send_of db') = item_of_row (cc_id client) ?k (vd_per_row_warnings v) (send_of db3)"
    by (simp add: fun_eq_iff item_of_row_def s')
  then have "\<exists>written. sd_items (send_of db') = sd_items (send_of db) @ written \<and>
       list_all2 (item_of_row (cc_id client) (run_id run) (vd_per_row_warnings v) (send_of db')) (named_rows p) written \<and>
       run_total_net_pay run = Some (fsum 0 (map (\<lambda>i. col i ''net_pay'') written))"
    using w mine final(2) by (intro exI [of _ written]) (simp add: s' out(2) final_def import_totals_def Let_def)
  then show ?thesis using ok un runs step s' s2 final rk out(2) by (simp add: run_key_def new_import_run_def)
qed

text \<open>What a created run is: its key, and the rows of the sheet as its items.\<close>

definition created_run :: "client_company \<Rightarrow> validation \<Rightarrow> run_payload \<Rightarrow> int \<Rightarrow> import_db \<Rightarrow> import_db \<Rightarrow> bool" where
  "created_run client v p k db db' \<longleftrightarrow>
     map run_key (sd_runs (send_of db')) = map run_key (sd_runs (send_of db)) @ [(k, ip_month p, ip_year p, DRAFT, Some (cc_id client))] \<and>
     (\<exists>written. map item_key (sd_items (send_of db')) = map item_key (sd_items (send_of db) @ written) \<and>
        list_all2 (item_of_row (cc_id client) k (vd_per_row_warnings v) (send_of db')) (named_rows p) written)"

lemma create_step:
  assumes "keys_ok (send_of db)" "cc_id client \<in> C"
    "create_payroll_run_from_payload now client v mode actor p db = (db', k, out)"
  shows "keys_ok (send_of db')" "untouched C db db'" "side db' = side db" "k = fresh_key (map run_id (sd_runs (send_of db)))"
    "created_run client v p k db db'"
    "out = Skipped_no_rates e \<Longrightarrow> \<exists>run written. sd_runs (send_of db') = sd_runs (send_of db) @ [run] \<and> run_id run = k \<and>
       list_all2 (item_of_row (cc_id client) k (vd_per_row_warnings v) (send_of db')) (named_rows p) written \<and>
       sd_items (send_of db') = sd_items (send_of db) @ written \<and>
       run_total_net_pay run = Some (fsum 0 (map (\<lambda>i. col i ''net_pay'') written))"
proof -
  obtain db1 run where rows: "import_rows now client v mode actor p db = (db1, run)" by (metis surj_pair)
  then have calc: "calculate_on_confirm run db1 = (db', out)" and k: "k = run_id run"
    using assms(3) by (auto simp: create_payroll_run_from_payload_def split: prod.splits)
  note one = import_rows_step [OF assms(1,2) rows]
  have "run \<in> set (sd_runs (send_of db1))" "run_client_company_id run \<in> Some ` C" using one assms(2) by (auto simp: run_key_def)
  note two = calculate_step [OF _ this calc]
  obtain written where w: "sd_items (send_of db1) = sd_items (send_of db) @ written"
    "list_all2 (item_of_row (cc_id client) k (vd_per_row_warnings v) (send_of db1)) (named_rows p) written"
    "run_total_net_pay run = Some (fsum 0 (map (\<lambda>i. col i ''net_pay'') written))" using one k by auto
  have emps: "sd_employees (send_of db') = sd_employees (send_of db1)" using two(4) one by blast
  then have rel: "item_of_row c j ws (send_of db') = item_of_row c j ws (send_of db1)" for c j ws
    by (simp add: fun_eq_iff item_of_row_def)
  show "keys_ok (send_of db')" "untouched C db db'" "side db' = side db" "k = fresh_key (map run_id (sd_runs (send_of db)))"
    using one two(1-3) untouched_trans k by auto
  show "created_run client v p k db db'"
    unfolding created_run_def using one two(5,6) w rel k by (intro conjI exI [of _ written]) auto
  assume "out = Skipped_no_rates e"
  then have "send_of db' = send_of db1" using two(7) one by blast
  then show "\<exists>run written. sd_runs (send_of db') = sd_runs (send_of db) @ [run] \<and> run_id run = k \<and>
       list_all2 (item_of_row (cc_id client) k (vd_per_row_warnings v) (send_of db')) (named_rows p) written \<and>
       sd_items (send_of db') = sd_items (send_of db) @ written \<and>
       run_total_net_pay run = Some (fsum 0 (map (\<lambda>i. col i ''net_pay'') written))"
    using one w k by (intro exI [of _ run] exI [of _ written]) simp
qed

subsection \<open>Replacing the runs of a period\<close>

definition with_life :: "life_db \<Rightarrow> import_db \<Rightarrow> import_db" where
  "with_life life db = db\<lparr>im_life := life\<rparr>"

lemma purge_all_frame:
  "sd_employees (qd_send (lf_queue (foldl (\<lambda>db run. purge_payroll_run run db) life rs))) = sd_employees (qd_send (lf_queue life))"
  "lf_imports (foldl (\<lambda>db run. purge_payroll_run run db) life rs) = filter (\<lambda>b. snd b \<notin> Some ` run_id ` set rs) (lf_imports life)"
proof (induction rs arbitrary: life)
  case (Cons r rs)
  { case 1 show ?case using Cons(1) by (simp add: purge_payroll_run_def record_audit_def map_send_def Let_def) }
  { case 2 show ?case using Cons(2) by (auto simp: purge_payroll_run_def record_audit_def map_send_def Let_def intro!: filter_cong) }
qed simp_all

lemma replace_shape:
  assumes "distinct (map run_id (runs_in life))" "replace_existing_runs c m y life = (life', ok, why)"
  shows "ok \<longleftrightarrow> (\<forall>r\<in>set (period_runs c m y life). delete_blockers r life = [])"
    "life' = (if ok then foldl (\<lambda>db run. purge_payroll_run run db) life (period_runs c m y life) else life)"
proof -
  let ?rs = "period_runs c m y life"
  have d: "distinct (map run_id ?rs)" using assms(1) by (simp add: period_runs_def distinct_map_filter)
  have "(ok \<longleftrightarrow> (\<forall>r\<in>set ?rs. delete_blockers r life = [])) \<and>
      life' = (if ok then foldl (\<lambda>db run. purge_payroll_run run db) life ?rs else life)"
  proof (cases "first_row (\<lambda>r. delete_blockers r life \<noteq> []) ?rs")
    case None
    then have free: "\<And>r. r \<in> set ?rs \<Longrightarrow> delete_blockers r life = []" by (auto simp: first_row_None_iff)
    then show ?thesis using assms(2) None delete_all_purges [OF d free] by (auto simp: replace_existing_runs_def Let_def)
  next
    case (Some r)
    then show ?thesis using assms(2) first_row_SomeD [OF Some] by (auto simp: replace_existing_runs_def Let_def)
  qed
  then show "ok \<longleftrightarrow> (\<forall>r\<in>set ?rs. delete_blockers r life = [])"
    "life' = (if ok then foldl (\<lambda>db run. purge_payroll_run run db) life ?rs else life)" by blast+
qed

lemma purge_step:
  assumes "keys_ok (send_of db)" "c \<in> C" "life = foldl (\<lambda>db run. purge_payroll_run run db) (im_life db) (period_runs c m y (im_life db))"
  shows "keys_ok (send_of (with_life life db))" "untouched C db (with_life life db)"
    "lf_imports life = filter (\<lambda>b. snd b \<notin> Some ` run_id ` set (period_runs c m y (im_life db))) (lf_imports (im_life db))"
    "runs_in life = filter (\<lambda>r. r \<notin> set (period_runs c m y (im_life db))) (runs_in (im_life db))"
proof -
  let ?rs = "period_runs c m y (im_life db)"
  have s: "send_of (with_life life db) = qd_send (lf_queue life)" by (simp add: send_of_def with_life_def)
  have d: "distinct (map run_id (runs_in (im_life db)))" using assms(1) by (simp add: keys_ok_def runs_in_life)
  have mem: "run_id r \<in> run_id ` set ?rs \<longleftrightarrow> r \<in> set ?rs" if "r \<in> set (runs_in (im_life db))" for r
    using d that by (auto simp: period_runs_def distinct_map inj_on_def image_iff)
  have runs: "sd_runs (qd_send (lf_queue life)) = filter (\<lambda>r. run_id r \<notin> run_id ` set ?rs) (runs_in (im_life db))"
    using purge_all_rows(1) [of "im_life db" ?rs] by (simp add: runs_in_def assms(3))
  have items: "sd_items (qd_send (lf_queue life)) = filter (\<lambda>i. item_run i \<notin> run_id ` set ?rs) (sd_items (send_of db))"
    using purge_all_rows(2) [of "im_life db" ?rs] by (simp add: assms(3) send_of_def)
  have emps: "sd_employees (qd_send (lf_queue life)) = sd_employees (send_of db)"
    using purge_all_frame(1) [of "im_life db" ?rs] by (simp add: assms(3) send_of_def)
  show "lf_imports life = filter (\<lambda>b. snd b \<notin> Some ` run_id ` set ?rs) (lf_imports (im_life db))"
    using purge_all_frame(2) [of "im_life db" ?rs] by (simp add: assms(3))
  show "runs_in life = filter (\<lambda>r. r \<notin> set ?rs) (runs_in (im_life db))"
    using runs mem by (simp add: runs_in_def [of life] cong: filter_cong)
  show "keys_ok (send_of (with_life life db))"
    using assms(1) unfolding s keys_ok_def runs items emps runs_in_life by (auto simp: distinct_map_filter image_iff) metis
  have other: "r \<notin> set ?rs" if "run_client_company_id r \<notin> Some ` C" for r
    using that assms(2) by (auto simp: period_runs_def)
  have "filter (\<lambda>r. run_client_company_id r \<notin> Some ` C) (filter (\<lambda>r. run_id r \<notin> run_id ` set ?rs) (runs_in (im_life db))) =
      filter (\<lambda>r. run_client_company_id r \<notin> Some ` C) (runs_in (im_life db))"
    unfolding filter_filter using other mem by (intro filter_cong) auto
  moreover have "items_of (run_id r) (filter (\<lambda>i. item_run i \<notin> run_id ` set ?rs) (sd_items (send_of db))) = items_of (run_id r) (sd_items (send_of db))"
    if "r \<in> set (runs_in (im_life db))" "run_client_company_id r \<notin> Some ` C" for r
    using other [OF that(2)] mem [OF that(1)] by (simp add: items_of_def) (rule filter_cong; simp; metis)
  ultimately show "untouched C db (with_life life db)"
    unfolding untouched_def s runs items emps by (simp add: runs_in_life with_life_def)
qed

definition cleared :: "int \<Rightarrow> string \<Rightarrow> int \<Rightarrow> life_db \<Rightarrow> life_db" where
  "cleared c m y life = foldl (\<lambda>db run. purge_payroll_run run db) life (period_runs c m y life)"

lemma not_taken: "\<not> period_taken p c db \<longleftrightarrow> period_runs c (ip_month p) (ip_year p) (im_life db) = []"
  by (auto simp: period_taken_def has_duplicate_payroll_def period_runs_def first_row_None_iff filter_empty_conv)

lemma cleared_free [simp]: "period_runs c m y life = [] \<Longrightarrow> cleared c m y life = life"
  by (simp add: cleared_def)

lemma with_life_same [simp]: "with_life (im_life db) db = db"
  by (simp add: with_life_def)

lemma cleared_step:
  assumes "keys_ok (send_of db)" "c \<in> C"
  shows "keys_ok (send_of (with_life (cleared c m y (im_life db)) db))" "untouched C db (with_life (cleared c m y (im_life db)) db)"
    "period_runs c m y (cleared c m y (im_life db)) = []"
    "lf_imports (cleared c m y (im_life db)) =
       filter (\<lambda>b. snd b \<notin> Some ` run_id ` set (period_runs c m y (im_life db))) (lf_imports (im_life db))"
    "runs_in (cleared c m y (im_life db)) = filter (\<lambda>r. r \<notin> set (period_runs c m y (im_life db))) (runs_in (im_life db))"
  using purge_step [OF assms cleared_def [of c m y "im_life db"]] by (auto simp: period_runs_def)

lemma client_ofD: "client_of db k = Some client \<Longrightarrow> cc_id client = k"
  by (auto simp: client_of_def dest: first_row_SomeD)

lemma replaced_life:
  assumes "keys_ok (send_of db)" "replace_existing_runs c m y (im_life db) = (life, ok, why)"
  shows "if ok then life = cleared c m y (im_life db) else life = im_life db"
  using replace_shape(2) [OF _ assms(2)] assms(1) by (simp add: cleared_def keys_ok_def runs_in_life)

lemma confirm_single_cases:
  assumes "keys_ok (send_of db)" "confirm_single enforced now actor k replace p db = (db', reply)"
  obtains "db' = db" "\<And>created. reply \<noteq> Imported created"
  | client db1 run out where "client_of db (ip_client_company_id p) = Some client" "import_blocking_errors p = []" "ip_mapped_rows p \<noteq> []"
    "reply = Imported [(run, out)]" "period_taken p (cc_id client) db \<longrightarrow> replace"
    "create_payroll_run_from_payload now client (validation_of p client db) ''single_client'' actor p
       (with_life (cleared (cc_id client) (ip_month p) (ip_year p) (im_life db)) db) = (db1, run, out)"
    "db' = audit_import ''Payroll import confirmed'' run (if find_import k db1 = None then db1 else mark_imported k (Some run) db1)"
proof -
  note result = assms(2) [unfolded confirm_single_def]
  show thesis
  proof (cases "ip_mapped_rows p = [] \<or> client_of db (ip_client_company_id p) = None \<or> import_blocking_errors p \<noteq> []")
    case True
    then show thesis using result that(1) by (auto split: if_splits option.splits)
  next
    case False
    then obtain client where c: "client_of db (ip_client_company_id p) = Some client" by auto
    let ?dup = "period_taken p (cc_id client) db"
    let ?life = "cleared (cc_id client) (ip_month p) (ip_year p) (im_life db)"
    obtain life ok why where rep: "(if ?dup then replace_existing_runs (cc_id client) (ip_month p) (ip_year p) (im_life db)
        else (im_life db, True, [])) = (life, ok, why)" by (metis prod_cases3)
    have life: "ok \<Longrightarrow> life = ?life"
      using rep replaced_life [OF assms(1)] not_taken by (auto split: if_splits)
    show thesis
    proof (cases "(?dup \<and> \<not> replace) \<or> \<not> ok \<or> (?dup \<and> enforced \<and> \<not> foreign_keys_hold life)")
      case True
      then show thesis using result False c rep that(1) by (auto simp: Let_def split: if_splits)
    next
      case ok: False
      obtain db1 run out where made: "create_payroll_run_from_payload now client (validation_of p client db) ''single_client'' actor p
          (with_life ?life db) = (db1, run, out)" by (metis prod_cases3)
      have "(db', reply) = (audit_import ''Payroll import confirmed'' run (if find_import k db1 = None then db1 else mark_imported k (Some run) db1),
          Imported [(run, out)])"
        using result False c rep ok life made by (auto simp: Let_def with_life_def)
      then show thesis using that(2) [OF c _ _ _ _ made] False ok by auto
    qed
  qed
qed

lemma create_runs_step:
  assumes "keys_ok (send_of db)" "\<forall>p\<in>set ps. ip_client_company_id p \<in> C" "create_runs now actor ps db = Some (db', created)"
  shows "keys_ok (send_of db') \<and> untouched C db db' \<and> side db' = side db \<and> length created = length ps \<and>
    map run_key (sd_runs (send_of db')) = map run_key (sd_runs (send_of db)) @
      map (\<lambda>(p, (k, _)). (k, ip_month p, ip_year p, DRAFT, Some (ip_client_company_id p))) (zip ps created)"
  using assms
proof (induction ps arbitrary: db created)
  case Nil
  then show ?case by simp
next
  case (Cons p ps)
  obtain client where c: "client_of db (ip_client_company_id p) = Some client" using Cons.prems(3) by (auto split: option.splits)
  obtain db1 k out where made: "create_payroll_run_from_payload now client (validation_of p client db) ''multi_client'' actor p db = (db1, k, out)"
    by (metis prod_cases3)
  let ?db2 = "audit_import ''Payroll import confirmed'' k db1"
  obtain created' where rest: "create_runs now actor ps ?db2 = Some (db', created')" "created = (k, out) # created'"
    using Cons.prems(3) c made by auto
  have id: "cc_id client = ip_client_company_id p" "cc_id client \<in> C" using client_ofD [OF c] Cons.prems(2) by auto
  note step = create_step [OF Cons.prems(1) id(2) made]
  have "keys_ok (send_of ?db2)" using step(1) by simp
  from Cons.IH [OF this _ rest(1)] Cons.prems(2)
  have IH: "keys_ok (send_of db') \<and> untouched C ?db2 db' \<and> side db' = side ?db2 \<and> length created' = length ps \<and>
    map run_key (sd_runs (send_of db')) = map run_key (sd_runs (send_of ?db2)) @
      map (\<lambda>(p, (k, _)). (k, ip_month p, ip_year p, DRAFT, Some (ip_client_company_id p))) (zip ps created')" by simp
  have "untouched C db ?db2" using step(2) by simp
  then show ?case using IH step(3,5) rest(2) id(1) untouched_trans [of C db ?db2 db'] by (auto simp: created_run_def)
qed

text \<open>The runs of a payload's period, and replacing those of several payloads.\<close>

definition period_of :: "run_payload \<Rightarrow> life_db \<Rightarrow> payroll_run list" where
  "period_of p life = period_runs (ip_client_company_id p) (ip_month p) (ip_year p) life"

lemma with_life_simps [simp]: "im_life (with_life life db) = life" "with_life a (with_life b db) = with_life a db"
  "im_batches (with_life life db) = im_batches db" "im_clients (with_life life db) = im_clients db"
  "client_of (with_life life db) = client_of db"
  by (simp_all add: with_life_def client_of_def fun_eq_iff)

lemma period_of_filter: "runs_in life' = filter P (runs_in life) \<Longrightarrow> period_of p life' = filter P (period_of p life)"
  by (auto simp: period_of_def period_runs_def intro!: filter_cong)

lemma replace_duplicates_step:
  assumes "keys_ok (send_of db)" "\<forall>p\<in>set ps. ip_client_company_id p \<in> C" "replace_duplicates ps (im_life db) = (life, None)"
  shows "keys_ok (send_of (with_life life db)) \<and> untouched C db (with_life life db) \<and> (\<forall>p\<in>set ps. period_of p life = []) \<and>
    (\<exists>P. runs_in life = filter P (runs_in (im_life db))) \<and>
    (\<forall>b\<in>set (lf_imports life). b \<in> set (lf_imports (im_life db)) \<and>
       (\<forall>p\<in>set ps. \<forall>r\<in>set (period_of p (im_life db)). snd b \<noteq> Some (run_id r)))"
  using assms
proof (induction ps arbitrary: db)
  case Nil
  then have "life = im_life db" by simp
  moreover have "\<exists>P. xs = filter P xs" for xs :: "payroll_run list" by (intro exI [of _ "\<lambda>_. True"]) simp
  ultimately show ?case using Nil by simp
next
  case (Cons p ps)
  obtain life1 ok why where one: "replace_existing_runs (ip_client_company_id p) (ip_month p) (ip_year p) (im_life db) = (life1, ok, why)"
    by (metis prod_cases3)
  then have ok: ok and rest: "replace_duplicates ps (im_life (with_life life1 db)) = (life, None)"
    using Cons.prems(3) by (auto split: if_splits)
  have life1: "life1 = cleared (ip_client_company_id p) (ip_month p) (ip_year p) (im_life db)"
    using replaced_life [OF Cons.prems(1) one] ok by simp
  have "ip_client_company_id p \<in> C" using Cons.prems(2) by simp
  note step = cleared_step [OF Cons.prems(1) this, of "ip_month p" "ip_year p", folded life1]
  from Cons.IH [OF step(1) _ rest] Cons.prems(2)
  have IH: "keys_ok (send_of (with_life life db))" "untouched C (with_life life1 db) (with_life life db)" "\<forall>q\<in>set ps. period_of q life = []"
    "\<exists>P. runs_in life = filter P (runs_in life1)"
    "\<forall>b\<in>set (lf_imports life). b \<in> set (lf_imports life1) \<and> (\<forall>q\<in>set ps. \<forall>r\<in>set (period_of q life1). snd b \<noteq> Some (run_id r))"
    by simp_all
  obtain P where P: "runs_in life = filter P (runs_in life1)" using IH(4) by blast
  have "period_of p life = []" using period_of_filter [OF P, of p] step(3) by (simp add: period_of_def)
  moreover have "\<exists>Q. runs_in life = filter Q (runs_in (im_life db))" using P step(5) by (auto simp: filter_filter)
  moreover have "b \<in> set (lf_imports (im_life db)) \<and> (\<forall>q\<in>set (p # ps). \<forall>r\<in>set (period_of q (im_life db)). snd b \<noteq> Some (run_id r))"
    if b: "b \<in> set (lf_imports life)" for b
  proof -
    have in1: "b \<in> set (lf_imports life1)" using IH(5) b by blast
    then have b0: "b \<in> set (lf_imports (im_life db))" and gone: "\<forall>r\<in>set (period_of p (im_life db)). snd b \<noteq> Some (run_id r)"
      using step(4) by (auto simp: period_of_def)
    have "snd b \<noteq> Some (run_id r)" if "q \<in> set ps" "r \<in> set (period_of q (im_life db))" for q r
    proof (cases "r \<in> set (period_of p (im_life db))")
      case True
      then show ?thesis using gone by blast
    next
      case False
      then have "r \<in> set (period_of q life1)" using that(2) period_of_filter [OF step(5), of q] by (simp add: period_of_def)
      then show ?thesis using IH(5) b that(1) by blast
    qed
    then show ?thesis using b0 gone by auto
  qed
  ultimately show ?case using IH(1-3) step(2) untouched_trans by auto
qed

lemma confirm_multi_cases:
  assumes "keys_ok (send_of db)" "confirm_multi_client_import enforced now actor k replace ps db = (db', reply)"
  obtains "db' = db" "\<And>created. reply \<noteq> Imported created"
  | life db1 created where "ps \<noteq> []" "\<forall>p\<in>set ps. import_blocking_errors p = []"
    "replace_duplicates (filter (\<lambda>p. period_taken p (ip_client_company_id p) db) ps) (im_life db) = (life, None)"
    "create_runs now actor ps (with_life life db) = Some (db1, created)" "find_import k db1 \<noteq> None"
    "db' = mark_imported k (Some (fst (hd created))) db1" "reply = Imported created"
proof -
  let ?blocking = "concat (map (\<lambda>p. map (Pair (ip_client_company_name p)) (import_blocking_errors p)) ps)"
  let ?dups = "filter (\<lambda>p. period_taken p (ip_client_company_id p) db) ps"
  note result = assms(2) [unfolded confirm_multi_client_import_def Let_def]
  show thesis
  proof (cases "ps = [] \<or> ?blocking \<noteq> [] \<or> (?dups \<noteq> [] \<and> \<not> replace)")
    case True
    then show thesis using result that(1) by (auto split: if_splits)
  next
    case False
    obtain life why where rep: "replace_duplicates ?dups (im_life db) = (life, why)" by (metis surj_pair)
    show thesis
    proof (cases "why \<noteq> None \<or> (?dups \<noteq> [] \<and> enforced \<and> \<not> foreign_keys_hold life) \<or> create_runs now actor ps (with_life life db) = None")
      case True
      then show thesis using result False rep that(1) by (cases why) (auto simp: with_life_def split: if_splits)
    next
      case ok: False
      then obtain db1 created where made: "create_runs now actor ps (with_life life db) = Some (db1, created)" by auto
      show thesis
      proof (cases "find_import k db1 = None")
        case True
        then show thesis using result False rep ok made that(1) by (auto simp: with_life_def split: if_splits)
      next
        case there: False
        have "\<forall>p\<in>set ps. import_blocking_errors p = []" using False by auto
        then show thesis using result False rep ok made there that(2) by (auto simp: with_life_def split: if_splits)
      qed
    qed
  qed
qed

end
