(* ===== verification/ImportExamples.thy ===== *)
theory ImportExamples
  imports ImportFrames
begin

text \<open>
  A small database with a stored import, on which the properties of the confirmation are applied:
  one client, its sheet with one worker, and no statutory rates.
\<close>

definition acme :: client_company where
  "acme = \<lparr>cc_id = 7, cc_name = ''Acme'', cc_status = ''Active''\<rparr>"

definition ama_row :: import_row where
  "ama_row = empty_row\<lparr>ir_text := [''staff_id'' \<mapsto> ''A1'', ''full_name'' \<mapsto> ''Ama''],
     ir_money := [''basic_salary'' \<mapsto> 1000, ''net_pay'' \<mapsto> 900]\<rparr>"

definition ama_sheet :: run_payload where
  "ama_sheet = \<lparr>ip_source_filename = ''january.xlsx'', ip_matched_sheet_name = ''Acme'', ip_detected_header_row = 0,
     ip_client_company_id = 7, ip_client_company_name = ''Acme'', ip_month = ''January'', ip_year = 2026, ip_columns = [],
     ip_mapping = [(''STAFF ID'', ''staff_id''), (''NAMES'', ''full_name''), (''BASIC SALARY'', ''basic_salary'')],
     ip_mapped_rows = [ama_row], ip_worker_stats = calculate_worker_stats [ama_row],
     ip_status_breakdown = calculate_status_breakdown [ama_row],
     ip_import_summary = summarize_import [ama_row] \<lparr>vd_summary_warnings = [], vd_per_row_warnings = [], vd_duplicate_keys = []\<rparr>,
     ip_detected_company_name = None,
     ip_validation = Some \<lparr>vd_summary_warnings = [], vd_per_row_warnings = [], vd_duplicate_keys = []\<rparr>\<rparr>"

definition stored_import :: "payroll_run list \<Rightarrow> int option \<Rightarrow> payload \<Rightarrow> import_db" where
  "stored_import runs linked payload =
     \<lparr>im_life = (empty_life runs)\<lparr>lf_imports := [(1, linked)]\<rparr>, im_rates = [], im_clients = [acme],
      im_employee_text = (\<lambda>_. Map.empty), im_item_text = (\<lambda>_. Map.empty), im_run_import = Map.empty,
      im_batches = [\<lparr>ib_id = 1, ib_client = 7, ib_month = ''January'', ib_year = 2026, ib_uploaded_by = 1,
        ib_original_filename = ''january.xlsx'', ib_status = ''Previewed'', ib_total_rows = 1, ib_valid_rows = 1, ib_invalid_rows = 0,
        ib_total_workers = 1, ib_gross_total = 0, ib_net_total = 900, ib_paye_total = 0, ib_ssnit_total = 0,
        ib_validation_summary = [], ib_payload = payload\<rparr>]\<rparr>"

definition a_preparer :: user where
  "a_preparer = \<lparr>user_id = 2, user_role = Some ''client_preparer'', user_company = Some 7, user_authenticated = True\<rparr>"

lemma importer_guards:
  "role_required PAYROLL_IMPORT_ROLES an_admin = Serve"
  "tenant_role_required [CLIENT_ADMIN, CLIENT_PREPARER] a_preparer = Serve" "active_tenant_id a_preparer = Some 7"
  "user_id an_admin = 1" "user_id a_preparer = 2"
  by (simp_all add: role_required_def tenant_role_required_def active_tenant_id_def an_admin_def a_preparer_def capability_defs
      normalise_role_def text_or_def LEGACY_ROLE_ALIASES_def role_defs text_eval)

lemma ama_sheet_fields [simp]:
  "ip_client_company_id ama_sheet = 7" "ip_month ama_sheet = ''January''" "ip_year ama_sheet = 2026" "ip_mapped_rows ama_sheet = [ama_row]"
  "ip_validation ama_sheet = Some \<lparr>vd_summary_warnings = [], vd_per_row_warnings = [], vd_duplicate_keys = []\<rparr>"
  by (simp_all add: ama_sheet_def)

lemma ama_not_blocked [simp]: "import_blocking_errors ama_sheet = []"
proof -
  have "mapping_conflicts (ip_mapping ama_sheet) = []"
    by (simp add: ama_sheet_def mapping_conflicts_def by_field_def MANDATORY_IMPORT_FIELDS_def)
  then show ?thesis
    by (simp add: import_blocking_errors_def collect_blocking_errors_def ama_sheet_def ama_row_def empty_row_def rnum_def num_or_0_def text_or_def)
qed

lemma named_ama: "named_rows ama_sheet = [(1, ama_row)]"
proof -
  have "strip ''A1'' \<noteq> []" by code_simp
  then have "\<not> nameless ama_row" by (simp add: nameless_def rtext_def ama_row_def text_or_def)
  then show ?thesis by (simp add: named_rows_def)
qed

lemma stored_facts:
  "send_of (stored_import runs linked payload) =
     \<lparr>sd_items = [], sd_runs = runs, sd_employees = [], sd_deliveries = [], sd_calls = []\<rparr>"
  "client_of (stored_import runs linked payload) 7 = Some acme"
  "\<exists>batch. find_import 1 (stored_import runs linked payload) = Some (batch, linked) \<and> ib_payload batch = payload \<and>
     ib_id batch = 1 \<and> ib_client batch = 7"
  "lf_imports (im_life (stored_import runs linked payload)) = [(1, linked)]" "cc_id acme = 7"
  "im_rates (stored_import runs linked payload) = []"
  by (simp_all add: stored_import_def send_of_def empty_life_def client_of_def find_import_def acme_def)

lemma stored_keys: "distinct (map run_id runs) \<Longrightarrow> keys_ok (send_of (stored_import runs linked payload))"
  by (simp add: keys_ok_def stored_facts)

lemma stored_period: "period_runs c m y (im_life (stored_import runs linked payload)) =
    filter (\<lambda>r. run_client_company_id r = Some c \<and> run_month r = m \<and> run_year r = y) runs"
  by (simp add: period_runs_def runs_in_life stored_facts)

lemma first_key [simp]: "fresh_key [] = 1"
  by (simp add: fresh_key_def)

lemma stored_create_key:
  assumes "create_payroll_run_from_payload now acme v mode actor p (stored_import [] linked payload) = (db', run, out)"
  shows "run = 1"
  using create_step(4) [OF stored_keys, of "[]" acme "{7}"] assms by (simp add: stored_facts)

lemma ratesless:
  assumes "keys_ok (send_of db)" "im_rates db = []" "create_payroll_run_from_payload now client v mode actor p db = (db', run, out)"
  shows "\<exists>e. out = Skipped_no_rates e"
proof -
  obtain db1 r where rows: "import_rows now client v mode actor p db = (db1, r)" by (metis surj_pair)
  have "side db1 = side db" using import_rows_step [OF assms(1) _ rows, of UNIV] by simp
  then have none: "im_rates db1 = []" using assms(2) by (simp add: side_def)
  have "active_for [] d = None" for d by (simp add: active_for_def)
  then have "\<exists>e. statutory_rate_for_run [] r' = Inl e" for r' by (simp add: statutory_rate_for_run_def split: sum.splits)
  then obtain e where "statutory_rate_for_run [] r = Inl e" by blast
  then show ?thesis using assms(3) rows
    by (auto simp: create_payroll_run_from_payload_def calculate_on_confirm_def auto_calculate_on_confirm_def none Let_def)
qed

text \<open>The sheet is confirmed by the operator, and by the client.\<close>

lemma stored_confirm:
  "\<exists>db' out. confirm False 5 an_admin (Some 1) False (stored_import [] None (Single_client ama_sheet)) = (db', Imported [(1, out)])"
proof -
  let ?db = "stored_import [] None (Single_client ama_sheet)"
  obtain batch where b: "find_import 1 ?db = Some (batch, None)" "ib_payload batch = Single_client ama_sheet" "ib_id batch = 1"
    using stored_facts(3) by blast
  obtain db1 run out where made: "create_payroll_run_from_payload 5 acme (validation_of ama_sheet acme ?db) ''single_client'' 1 ama_sheet ?db =
      (db1, run, out)" by (metis prod_cases3)
  have "\<not> period_taken ama_sheet 7 ?db" by (simp add: not_taken stored_period)
  then show ?thesis using made stored_create_key [OF made] with_life_same [of ?db]
    by (simp add: confirm_def importer_guards b confirm_single_def stored_facts with_life_def)
qed

lemma stored_tenant_confirm:
  "\<exists>db' e. import_confirm False 5 a_preparer 1 (stored_import [] None (Single_client ama_sheet)) = (db', Imported [(1, Skipped_no_rates e)])"
proof -
  let ?db = "stored_import [] None (Single_client ama_sheet)"
  obtain batch where b: "find_import 1 ?db = Some (batch, None)" "ib_payload batch = Single_client ama_sheet" "ib_client batch = 7"
    using stored_facts(3) by blast
  obtain db1 run out where made: "create_payroll_run_from_payload 5 acme \<lparr>vd_summary_warnings = [], vd_per_row_warnings = [], vd_duplicate_keys = []\<rparr>
      ''single_client'' 2 ama_sheet ?db = (db1, run, out)" by (metis prod_cases3)
  obtain e where e: "out = Skipped_no_rates e" using ratesless [OF _ _ made] stored_keys by (auto simp: stored_facts)
  have "\<not> period_taken ama_sheet 7 ?db" by (simp add: not_taken stored_period)
  then show ?thesis using made e stored_create_key [OF made] with_life_same [of ?db] b importer_guards
    by (simp add: import_confirm_def tenant_import_def stored_facts with_life_def Let_def)
qed

lemma create_runs_total:
  "keys_ok (send_of db) \<Longrightarrow> \<forall>p\<in>set ps. client_of db (ip_client_company_id p) \<noteq> None \<Longrightarrow> create_runs now actor ps db \<noteq> None"
proof (induction ps arbitrary: db)
  case (Cons p ps)
  then obtain client where c: "client_of db (ip_client_company_id p) = Some client" by auto
  obtain db1 k out where made: "create_payroll_run_from_payload now client (validation_of p client db) ''multi_client'' actor p db = (db1, k, out)"
    by (metis prod_cases3)
  note step = create_step [OF Cons.prems(1) UNIV_I made]
  have "client_of (audit_import ''Payroll import confirmed'' k db1) = client_of db" using side_eqD(4) [OF step(3)]
    by (simp add: client_of_def fun_eq_iff audit_import_def)
  then have "create_runs now actor ps (audit_import ''Payroll import confirmed'' k db1) \<noteq> None"
    using Cons.IH [of "audit_import ''Payroll import confirmed'' k db1"] step(1) Cons.prems(2) by simp
  then show ?case using c made by auto
qed simp

lemma stored_multi_confirm:
  "\<exists>db' created. confirm False 5 an_admin (Some 1) False (stored_import [] None (Multi_client [ama_sheet, ama_sheet])) = (db', Imported created)"
proof -
  let ?db = "stored_import [] None (Multi_client [ama_sheet, ama_sheet])"
  obtain batch where b: "find_import 1 ?db = Some (batch, None)" "ib_payload batch = Multi_client [ama_sheet, ama_sheet]" "ib_id batch = 1"
    using stored_facts(3) by blast
  have keys: "keys_ok (send_of ?db)" using stored_keys by simp
  obtain db1 created where made: "create_runs 5 1 [ama_sheet, ama_sheet] ?db = Some (db1, created)"
    using create_runs_total [OF keys, of "[ama_sheet, ama_sheet]" 5 1] by (auto simp: stored_facts)
  have "side db1 = side ?db" using create_runs_step [OF keys _ made, of UNIV] by simp
  then have there: "find_import 1 db1 \<noteq> None" using side_eqD(5) [of db1 ?db 1] b(1) by simp
  have free: "\<not> period_taken ama_sheet 7 ?db" by (simp add: not_taken stored_period)
  show ?thesis using made there free with_life_same [of ?db]
    by (simp add: confirm_def importer_guards b confirm_multi_client_import_def with_life_def Let_def del: create_runs.simps)
qed

end
