(* ===== verification/ImportSafety.thy ===== *)
theory ImportSafety
  imports ImportExamples
begin

text \<open>
  What a confirmed import guarantees: it creates the run the sheet describes and nothing else,
  for the client it names and no other, keeps the roster free of double staff ids and every key
  unique, and a client's import happens once.  And what it does not: the figures need not have
  been calculated, two sheets of one client make two runs, and a replayed import of several
  clients fails.
\<close>

subsection \<open>The client's confirmation as cases\<close>

definition client_gate :: "int \<Rightarrow> import_db \<Rightarrow> payroll_run \<Rightarrow> payroll_run" where
  "client_gate now db r =
     (let (gated, verdict) = apply_risk_gate (runs_in (im_life db)) (Some now) (r\<lparr>run_status := SUBMITTED\<rparr>)
      in gated\<lparr>run_status := (if verdict_held verdict then HELD else AUTO_ACCEPTED)\<rparr>)"

definition gated_db :: "int \<Rightarrow> int \<Rightarrow> import_db \<Rightarrow> import_db" where
  "gated_db now run db = with_life (set_run run (client_gate now db) (im_life db)) db"

lemma client_gate_frame [simp]:
  "run_id (client_gate now db r) = run_id r" "run_client_company_id (client_gate now db r) = run_client_company_id r"
  "run_status (client_gate now db r) \<in> {HELD, AUTO_ACCEPTED}" "run_total_net_pay (client_gate now db r) = run_total_net_pay r"
  by (simp_all add: client_gate_def apply_risk_gate_def Let_def)

lemma gated_frame [simp]:
  "send_of (gated_db now run db) = (send_of db)\<lparr>sd_runs := update_row run_id run (client_gate now db) (sd_runs (send_of db))\<rparr>"
  "side (gated_db now run db) = side db" "im_employee_text (gated_db now run db) = im_employee_text db"
  by (simp_all add: gated_db_def send_of_def with_life_def set_run_def map_send_def side_def)

lemma tenant_confirm_cases:
  assumes "import_confirm enforced now u k db = (db', reply)"
  obtains "db' = db" "\<And>created. reply \<noteq> Imported created"
  | company batch p v db1 run out where "active_tenant_id u = Some (cc_id company)" "tenant_role_required [CLIENT_ADMIN, CLIENT_PREPARER] u = Serve"
    "client_of db (cc_id company) = Some company" "tenant_import u k db = Some (batch, None)" "ib_payload batch = Single_client p"
    "import_blocking_errors p = []" "ip_validation p = Some v"
    "create_payroll_run_from_payload now company v ''single_client'' (user_id u) p
       (with_life (cleared (cc_id company) (ip_month p) (ip_year p) (im_life db)) db) = (db1, run, out)"
    "db' = audit_import ''Client run imported'' run (mark_imported k (Some run) (gated_db now run db1))" "reply = Imported [(run, out)]"
proof -
  let ?guard = "tenant_role_required [CLIENT_ADMIN, CLIENT_PREPARER] u"
  note result = assms [unfolded import_confirm_def Let_def]
  show thesis
  proof (cases "?guard = Serve")
    case False
    then show thesis using result that(1) by auto
  next
    case guard: True
    show thesis
    proof (cases "Option.bind (active_tenant_id u) (client_of db) = None \<or> tenant_import u k db = None")
      case True
      then show thesis using result guard that(1) by (auto split: option.splits)
    next
      case False
      then obtain company batch linked where c: "Option.bind (active_tenant_id u) (client_of db) = Some company"
        "tenant_import u k db = Some (batch, linked)" by auto
      then have t: "active_tenant_id u = Some (cc_id company)" "client_of db (cc_id company) = Some company"
        using client_ofD by (auto simp: bind_eq_Some_conv)
      show thesis
      proof (cases linked)
        case (Some r)
        then show thesis using result guard c that(1) by auto
      next
        case None
        show thesis
        proof (cases "ib_payload batch")
          case (Single_client p)
          let ?dup = "period_taken p (cc_id company) db"
          let ?life = "cleared (cc_id company) (ip_month p) (ip_year p) (im_life db)"
          obtain life refusal where rep: "(if ?dup then client_replace_runs (cc_id company) (ip_month p) (ip_year p) (im_life db)
              else (im_life db, None)) = (life, refusal)" by (metis surj_pair)
          have life: "refusal = None \<Longrightarrow> life = ?life"
            using rep not_taken by (auto simp: client_replace_runs_def cleared_def split: if_splits option.splits)
          show thesis
          proof (cases "ip_mapped_rows p = [] \<or> import_blocking_errors p \<noteq> [] \<or> refusal \<noteq> None \<or>
              (?dup \<and> enforced \<and> \<not> foreign_keys_hold life) \<or> ip_validation p = None")
            case True
            then show thesis using result guard c None Single_client rep that(1) by (cases refusal) (auto split: if_splits)
          next
            case ok: False
            then obtain v where v: "ip_validation p = Some v" by auto
            obtain db1 run out where made: "create_payroll_run_from_payload now company v ''single_client'' (user_id u) p (with_life ?life db) =
                (db1, run, out)" by (metis prod_cases3)
            have "(db', reply) = (audit_import ''Client run imported'' run (mark_imported k (Some run) (gated_db now run db1)), Imported [(run, out)])"
              using result guard c None Single_client rep ok v life made
              by (auto simp: with_life_def gated_db_def client_gate_def [abs_def] Let_def)
            then show thesis using that(2) [OF t(1) guard t(2) _ Single_client _ v made] c None ok by auto
          qed
        qed (use result guard c None that(1) in auto)
      qed
    qed
  qed
qed

subsection \<open>The confirmations as steps\<close>

lemma gated_step:
  assumes "keys_ok (send_of db)" "\<forall>r\<in>set (sd_runs (send_of db)). run_id r = run \<longrightarrow> run_client_company_id r \<in> Some ` C"
  shows "keys_ok (send_of (gated_db now run db))" "untouched C db (gated_db now run db)"
proof -
  have "map run_id (update_row run_id run (client_gate now db) (sd_runs (send_of db))) = map run_id (sd_runs (send_of db))"
    by (simp add: map_update_row)
  then show "keys_ok (send_of (gated_db now run db))" using assms(1) unfolding keys_ok_def by simp (metis set_map)
  show "untouched C db (gated_db now run db)"
    using assms(2) by (auto simp: untouched_def intro: filter_changed_row)
qed

lemma created_client:
  assumes "keys_ok (send_of db')" "created_run client v p k db db'" "r \<in> set (sd_runs (send_of db'))" "run_id r = k"
  shows "run_key r = (k, ip_month p, ip_year p, DRAFT, Some (cc_id client))"
proof -
  have "(k, ip_month p, ip_year p, DRAFT, Some (cc_id client)) \<in> set (map run_key (sd_runs (send_of db')))"
    using assms(2) by (simp add: created_run_def)
  then obtain r' where r': "r' \<in> set (sd_runs (send_of db'))" "run_key r' = (k, ip_month p, ip_year p, DRAFT, Some (cc_id client))" by auto
  then have "run_id r' = k" by (simp add: run_key_def)
  then have "r = r'" using set_emp_keys [of run_id "sd_runs (send_of db')" r r'] assms(1,3,4) r'(1) by (simp add: keys_ok_def)
  then show ?thesis using r'(2) by simp
qed

lemma single_step:
  assumes "keys_ok (send_of db)" "ip_client_company_id p \<in> C" "confirm_single enforced now actor k replace p db = (db', reply)"
  shows "keys_ok (send_of db') \<and> untouched C db db'"
  using assms(1,3)
proof (cases rule: confirm_single_cases)
  case (2 client db1 run out)
  have c: "cc_id client \<in> C" using client_ofD [OF 2(1)] assms(2) by simp
  note clear = cleared_step [OF assms(1) c, of "ip_month p" "ip_year p"]
  note made = create_step [OF clear(1) c 2(6)]
  show ?thesis using made(1,2) untouched_trans [OF clear(2)] by (auto simp: 2(7))
qed (use assms(1) in simp)

lemma multi_step:
  assumes "keys_ok (send_of db)" "ip_client_company_id ` set ps \<subseteq> C" "confirm_multi_client_import enforced now actor k replace ps db = (db', reply)"
  shows "keys_ok (send_of db') \<and> untouched C db db'"
  using assms(1,3)
proof (cases rule: confirm_multi_cases)
  case (2 life db1 created)
  have sub: "\<forall>p\<in>set (filter (\<lambda>p. period_taken p (ip_client_company_id p) db) ps). ip_client_company_id p \<in> C"
    "\<forall>p\<in>set ps. ip_client_company_id p \<in> C" using assms(2) by auto
  note clear = replace_duplicates_step [OF assms(1) sub(1) 2(3)]
  have "keys_ok (send_of (with_life life db))" using clear by blast
  note made = create_runs_step [OF this sub(2) 2(4)]
  show ?thesis using made clear untouched_trans by (auto simp: 2(6))
qed (use assms(1) in simp)

lemma tenant_step:
  assumes "keys_ok (send_of db)" "import_confirm enforced now u k db = (db', reply)"
  shows "keys_ok (send_of db') \<and> untouched (set_option (active_tenant_id u)) db db'"
  using assms(2)
proof (cases rule: tenant_confirm_cases)
  case (2 company batch p v db1 run out)
  have c: "cc_id company \<in> {cc_id company}" by simp
  note clear = cleared_step [OF assms(1) c, of "ip_month p" "ip_year p"]
  note made = create_step [OF clear(1) c 2(8)]
  have "\<forall>r\<in>set (sd_runs (send_of db1)). run_id r = run \<longrightarrow> run_client_company_id r \<in> Some ` {cc_id company}"
    using created_client [OF made(1,5)] by (auto simp: run_key_def)
  note gate = gated_step [OF made(1) this]
  show ?thesis using gate untouched_trans [OF untouched_trans [OF clear(2) made(2)]] by (auto simp: 2(1,9))
qed (use assms(1) in simp)

subsection \<open>An import stays in its client\<close>

fun payload_clients :: "payload \<Rightarrow> int set" where
  "payload_clients (Single_client p) = {ip_client_company_id p}"
| "payload_clients (Multi_client ps) = ip_client_company_id ` set ps"
| "payload_clients Empty_payload = {}"

text \<open>The clients an import names; none when there is no such import.\<close>

definition named_clients :: "int option \<Rightarrow> import_db \<Rightarrow> int set" where
  "named_clients import_id db =
     (case Option.bind import_id (\<lambda>k. find_import k db) of None \<Rightarrow> {} | Some (batch, _) \<Rightarrow> payload_clients (ib_payload batch))"

text \<open>
  C14: Confirming an import touches the clients it names and no other.  Whatever the stored
  payload, the role of the user and the state of the period, an operator's confirmation leaves
  the employees, the runs and the payroll rows of every client the payload does not name exactly
  as they were, and a client's own confirmation those of every company but the user's; in both
  cases the ids of employees, runs and rows stay unique, no client has two employees of one
  staff id, and every row belongs to a run.
\<close>

theorem imports_stay_in_client:
  assumes "keys_ok (send_of db)"
  shows "keys_ok (send_of (fst (confirm enforced now u import_id replace db))) \<and>
    untouched (named_clients import_id db) db (fst (confirm enforced now u import_id replace db)) \<and>
    keys_ok (send_of (fst (import_confirm enforced now u k db))) \<and>
    untouched (set_option (active_tenant_id u)) db (fst (import_confirm enforced now u k db))"
proof -
  obtain db1 r1 where c: "confirm enforced now u import_id replace db = (db1, r1)" by (metis surj_pair)
  obtain db2 r2 where t: "import_confirm enforced now u k db = (db2, r2)" by (metis surj_pair)
  have "keys_ok (send_of db1) \<and> untouched (named_clients import_id db) db db1"
  proof (cases "role_required PAYROLL_IMPORT_ROLES u = Serve \<and> Option.bind import_id (\<lambda>k. find_import k db) \<noteq> None")
    case False
    then have "db1 = db" using c by (auto simp: confirm_def split: option.splits if_splits)
    then show ?thesis using assms by simp
  next
    case True
    then obtain batch r where b: "Option.bind import_id (\<lambda>k. find_import k db) = Some (batch, r)" by auto
    have n: "named_clients import_id db = payload_clients (ib_payload batch)" by (simp add: named_clients_def b)
    show ?thesis
    proof (cases "ib_payload batch")
      case (Single_client p)
      then have "confirm_single enforced now (user_id u) (ib_id batch) replace p db = (db1, r1)"
        using c True b by (simp add: confirm_def)
      from single_step [OF assms _ this, of "{ip_client_company_id p}"] show ?thesis by (simp add: n Single_client)
    next
      case (Multi_client ps)
      then have "confirm_multi_client_import enforced now (user_id u) (ib_id batch) replace ps db = (db1, r1)"
        using c True b by (simp add: confirm_def)
      from multi_step [OF assms _ this, of "ip_client_company_id ` set ps"] show ?thesis by (simp add: n Multi_client)
    next
      case Empty_payload
      then show ?thesis using c True b assms by (auto simp: confirm_def)
    qed
  qed
  then show ?thesis using tenant_step [OF assms t] by (simp add: c t)
qed

text \<open>The import of one client leaves the run of another as it is.\<close>

lemma imports_stay_in_client_witness:
  "let other = (sample_run DRAFT 0)\<lparr>run_client_company_id := Some 9\<rparr>;
       db = stored_import [other] None (Single_client ama_sheet)
   in filter (\<lambda>r. run_client_company_id r \<noteq> Some 7) (sd_runs (send_of (fst (confirm False 5 an_admin (Some 1) True db)))) = [other]"
proof -
  define other where "other = (sample_run DRAFT 0)\<lparr>run_client_company_id := Some 9\<rparr>"
  let ?db = "stored_import [other] None (Single_client ama_sheet)"
  have c: "run_client_company_id other = Some 9" by (simp add: other_def)
  obtain batch where "find_import 1 ?db = Some (batch, None)" "ib_payload batch = Single_client ama_sheet" using stored_facts(3) by blast
  then have "named_clients (Some 1) ?db = {7}" by (simp add: named_clients_def)
  then show ?thesis using imports_stay_in_client [of ?db False 5 an_admin "Some 1" True] stored_keys [of "[other]"] c
    by (simp add: untouched_def stored_facts Let_def other_def [symmetric])
qed

subsection \<open>A confirmed import is its sheet\<close>

text \<open>The rows of a run by what an import fixes of them, and the runs of the database likewise.\<close>

definition runs_by_key :: "import_db \<Rightarrow> (int \<times> string \<times> int \<times> string \<times> int option) list" where
  "runs_by_key db = map run_key (sd_runs (send_of db))"

definition rows_by_key :: "int \<Rightarrow> import_db \<Rightarrow> (int \<times> int \<times> int option \<times> string option \<times> string option) list" where
  "rows_by_key k db = map item_key (items_of k (sd_items (send_of db)))"

lemma items_of_keys: "map item_key xs = map item_key ys \<Longrightarrow> map item_key (items_of k xs) = map item_key (items_of k ys)"
proof -
  have "map item_key (items_of k zs) = filter (\<lambda>t. fst (snd t) = k) (map item_key zs)" for zs
    by (simp add: items_of_def filter_map o_def item_key_def)
  then show "map item_key xs = map item_key ys \<Longrightarrow> map item_key (items_of k xs) = map item_key (items_of k ys)" by simp
qed

lemma created_rows:
  assumes "keys_ok (send_of db)" "k \<notin> run_id ` set (sd_runs (send_of db))" "created_run client v p k db db'"
  shows "\<exists>written. rows_by_key k db' = map item_key written \<and>
    list_all2 (item_of_row (cc_id client) k (vd_per_row_warnings v) (send_of db')) (named_rows p) written"
proof -
  obtain written where w: "map item_key (sd_items (send_of db')) = map item_key (sd_items (send_of db) @ written)"
    "list_all2 (item_of_row (cc_id client) k (vd_per_row_warnings v) (send_of db')) (named_rows p) written"
    using assms(3) by (auto simp: created_run_def)
  have "item_run i = k" if "i \<in> set written" for i
    using that w(2) item_of_row_run by (metis in_set_conv_nth list_all2_conv_all_nth)
  moreover have "item_run i \<noteq> k" if "i \<in> set (sd_items (send_of db))" for i
    using assms(1,2) that unfolding keys_ok_def by metis
  ultimately have "items_of k (sd_items (send_of db) @ written) = written"
    by (simp add: items_of_def filter_empty_conv filter_id_conv)
  then show ?thesis using items_of_keys [OF w(1), of k] w(2) by (auto simp: rows_by_key_def)
qed

lemma keyed_audit [simp]:
  "runs_by_key (audit_import a j db) = runs_by_key db" "rows_by_key k (audit_import a j db) = rows_by_key k db"
  "runs_by_key (mark_imported j r db) = runs_by_key db" "rows_by_key k (mark_imported j r db) = rows_by_key k db"
  by (simp_all add: runs_by_key_def rows_by_key_def)

text \<open>
  C13: A confirmed import of one client is its sheet.  When the operator's confirmation of a
  single-client payload succeeds, the user may import, the payload has rows and no blocking
  error, and the database's runs are the earlier ones less those of the client's period, followed
  by one new run: a Draft of the payload's client, month and year.  The new run's rows are, in
  the order of the sheet, the mapped rows that give a staff id or a name; each carries its row's
  texts and figures before calculation and the warnings of its row, and belongs to an employee of
  that client with the row's normalised staff id (or the generated one).  A row with warnings is
  imported like any other.
\<close>

theorem confirmed_import_is_its_sheet:
  assumes "keys_ok (send_of db)" "find_import k db = Some (batch, linked)" "ib_payload batch = Single_client p"
    "confirm enforced now u (Some k) replace db = (db', Imported created)"
  shows "\<exists>client run outcome rows. created = [(run, outcome)] \<and> role_required PAYROLL_IMPORT_ROLES u = Serve \<and>
    client_of db (ip_client_company_id p) = Some client \<and> import_blocking_errors p = [] \<and> ip_mapped_rows p \<noteq> [] \<and>
    runs_by_key db' = map run_key (filter (\<lambda>r. r \<notin> set (period_of p (im_life db))) (sd_runs (send_of db))) @
      [(run, ip_month p, ip_year p, DRAFT, Some (ip_client_company_id p))] \<and>
    rows_by_key run db' = map item_key rows \<and>
    list_all2 (item_of_row (ip_client_company_id p) run (vd_per_row_warnings (validation_of p client db)) (send_of db')) (named_rows p) rows"
proof -
  have guard: "role_required PAYROLL_IMPORT_ROLES u = Serve"
    using assms(4) by (auto simp: confirm_def split: if_splits)
  then have "confirm_single enforced now (user_id u) (ib_id batch) replace p db = (db', Imported created)"
    using assms(2-4) by (simp add: confirm_def)
  with assms(1) show ?thesis
  proof (cases rule: confirm_single_cases)
    case (2 client db1 run out)
    have id: "cc_id client = ip_client_company_id p" using client_ofD [OF 2(1)] .
    let ?db0 = "with_life (cleared (cc_id client) (ip_month p) (ip_year p) (im_life db)) db"
    note clear = cleared_step [OF assms(1), of "cc_id client" "{cc_id client}" "ip_month p" "ip_year p", simplified]
    note made = create_step [OF clear(1) _ 2(6), of "{cc_id client}", simplified]
    have "k' \<notin> run_id ` set (sd_runs (send_of ?db0))" if "k' = run" for k'
      using fresh_key_new [of "map run_id (sd_runs (send_of ?db0))"] made(4) that by simp
    from created_rows [OF clear(1) this [OF refl] made(5)] obtain rows where
      rows: "rows_by_key run db1 = map item_key rows"
      "list_all2 (item_of_row (cc_id client) run (vd_per_row_warnings (validation_of p client db)) (send_of db1)) (named_rows p) rows" by blast
    have "runs_by_key db1 = map run_key (filter (\<lambda>r. r \<notin> set (period_of p (im_life db))) (sd_runs (send_of db))) @
        [(run, ip_month p, ip_year p, DRAFT, Some (cc_id client))]"
      using made(5) clear(5) by (simp add: created_run_def runs_by_key_def period_of_def id runs_in_life [symmetric])
    then show ?thesis using rows guard 2(1-4) by (simp add: 2(7) id) blast
  qed blast
qed

lemma confirmed_import_is_its_sheet_witness:
  "\<exists>db' outcome rows. confirm False 5 an_admin (Some 1) False (stored_import [] None (Single_client ama_sheet)) =
      (db', Imported [(1, outcome)]) \<and>
    runs_by_key db' = [(1, ''January'', 2026, DRAFT, Some 7)] \<and> rows_by_key 1 db' = map item_key rows \<and>
    map item_staff_id rows = [Some ''A1'']"
proof -
  let ?db = "stored_import [] None (Single_client ama_sheet)"
  obtain db' out where c: "confirm False 5 an_admin (Some 1) False ?db = (db', Imported [(1, out)])" using stored_confirm by blast
  obtain batch where b: "find_import 1 ?db = Some (batch, None)" "ib_payload batch = Single_client ama_sheet" using stored_facts(3) by blast
  obtain rows v where w: "runs_by_key db' = [(1, ''January'', 2026, DRAFT, Some 7)]" "rows_by_key 1 db' = map item_key rows"
    "list_all2 (item_of_row 7 1 v (send_of db')) [(1, ama_row)] rows"
    using confirmed_import_is_its_sheet [OF stored_keys b c] by (auto simp: stored_facts named_ama)
  then obtain i where i: "rows = [i]" "item_of_row 7 1 v (send_of db') (1, ama_row) i" by (auto simp: list_all2_Cons1)
  then have "item_staff_id i = Some ''A1''" by (auto elim!: item_of_rowD simp: import_item_def ama_row_def)
  then show ?thesis using c w(1,2) i(1) by (intro exI [of _ db'] exI [of _ out] exI [of _ "[i]"]) simp
qed

end
