(* ===== verification/ImportOutcomes.thy ===== *)
theory ImportOutcomes
  imports ImportSafety
begin

text \<open>
  What follows a confirmed import: a client's import happens once; an import the service could
  not calculate enters the risk gate all the same; an upload with two sheets of one client makes
  two runs of one month; and the import of several clients cannot be replayed.
\<close>

subsection \<open>A client's import happens once\<close>

lemma first_row_update: "(\<And>x. key (f x) = key x) \<Longrightarrow>
    first_row (\<lambda>x. key x = k) (update_row key k f xs) = map_option f (first_row (\<lambda>x. key x = k) xs)"
  by (induction xs) auto

lemma map_of_kept_links:
  "map_of (filter (\<lambda>b. snd b \<notin> Some ` S) xs) k = Some None" if "map_of xs k = Some None" for xs :: "(int \<times> int option) list"
  using that by (induction xs) (auto split: if_splits)

lemma map_of_linked: "map_of (map (\<lambda>(i, r). (i, if i = k \<and> run \<noteq> None then run else r)) xs) k =
    map_option (\<lambda>r. if run \<noteq> None then run else r) (map_of xs k)"
  by (induction xs) auto

lemma find_marked:
  assumes "find_import k db = Some (batch, linked)"
  shows "find_import k (mark_imported k (Some run) db) = Some (batch\<lparr>ib_status := ''Imported''\<rparr>, Some run)"
proof -
  have "first_row (\<lambda>b. ib_id b = k) (update_row ib_id k (\<lambda>b. b\<lparr>ib_status := ''Imported''\<rparr>) (im_batches db)) =
      map_option (\<lambda>b. b\<lparr>ib_status := ''Imported''\<rparr>) (first_row (\<lambda>b. ib_id b = k) (im_batches db))"
    by (rule first_row_update) simp
  then show ?thesis using assms map_of_linked [of k "Some run" "lf_imports (im_life db)"]
    by (auto simp: find_import_def mark_imported_def split: option.splits)
qed

lemma find_cleared:
  assumes "find_import k db = Some (batch, None)" "lf_imports life = filter (\<lambda>b. snd b \<notin> Some ` S) (lf_imports (im_life db))"
  shows "find_import k (with_life life db) = Some (batch, None)"
proof -
  have "map_of (lf_imports (im_life db)) k = Some None" "first_row (\<lambda>b. ib_id b = k) (im_batches db) = Some batch"
    using assms(1) by (auto simp: find_import_def split: option.splits)
  then show ?thesis using map_of_kept_links [of "lf_imports (im_life db)" k S] by (simp add: find_import_def assms(2))
qed

lemma tenant_linked:
  assumes "keys_ok (send_of db)" "import_confirm enforced now u k db = (db', Imported [(run, out)])"
  shows "client_of db' = client_of db \<and>
    (\<exists>batch. tenant_import u k db = Some (batch, None) \<and> find_import k db' = Some (batch\<lparr>ib_status := ''Imported''\<rparr>, Some run)) \<and>
    (\<exists>company. active_tenant_id u = Some (cc_id company) \<and> client_of db (cc_id company) = Some company)"
  using assms(2)
proof (cases rule: tenant_confirm_cases)
  case (2 company batch p v db1 run' out')
  let ?life = "cleared (cc_id company) (ip_month p) (ip_year p) (im_life db)"
  note clear = cleared_step [OF assms(1), of "cc_id company" "{cc_id company}" "ip_month p" "ip_year p", simplified]
  note made = create_step [OF clear(1) _ 2(8), of "{cc_id company}", simplified]
  have f: "find_import k db = Some (batch, None)" using 2(4) by (auto simp: tenant_import_def split: option.splits if_splits)
  have "side (gated_db now run' db1) = side (with_life ?life db)" using made(3) by simp
  note same = side_eqD [OF this]
  have "find_import k (gated_db now run' db1) = Some (batch, None)" using find_cleared [OF f clear(4)] same(5) [of k] by simp
  note marked = find_marked [OF this, of run']
  have "side (audit_import a j d) = side d" for a j d by simp
  then have "find_import k db' = find_import k (mark_imported k (Some run') (gated_db now run' db1))" unfolding 2(9) by (rule side_eqD(5))
  moreover have "client_of db' = client_of db"
    using same(4) by (simp add: 2(9) fun_eq_iff client_of_def mark_imported_def audit_import_def)
  ultimately show ?thesis using marked 2(1,3,4,10) by auto
qed blast

text \<open>
  C15: A client's import happens once.  After a confirmation by a client that created a run, every
  later confirmation of the same import by a user of the same company who may import, at any
  time, is answered with the run already created and changes nothing.
\<close>

theorem client_import_once:
  assumes "keys_ok (send_of db)" "import_confirm enforced now u k db = (db', Imported [(run, outcome)])"
    "active_tenant_id u' = active_tenant_id u" "tenant_role_required [CLIENT_ADMIN, CLIENT_PREPARER] u' = Serve"
  shows "import_confirm enforced' now' u' k db' = (db', Already_imported run)"
proof -
  obtain batch company where l: "client_of db' = client_of db" "tenant_import u k db = Some (batch, None)"
    "find_import k db' = Some (batch\<lparr>ib_status := ''Imported''\<rparr>, Some run)" "active_tenant_id u = Some (cc_id company)"
    "client_of db (cc_id company) = Some company" using tenant_linked [OF assms(1,2)] by blast
  have "ib_client batch = cc_id company" using l(2,4) by (auto simp: tenant_import_def split: option.splits if_splits)
  then have "tenant_import u' k db' = Some (batch\<lparr>ib_status := ''Imported''\<rparr>, Some run)"
    using l(3,4) assms(3) by (simp add: tenant_import_def)
  then show ?thesis using assms(3,4) l(1,4,5) by (simp add: import_confirm_def)
qed

lemma client_import_once_witness:
  "\<exists>db' outcome. import_confirm False 5 a_preparer 1 (stored_import [] None (Single_client ama_sheet)) = (db', Imported [(1, outcome)]) \<and>
     import_confirm True 9 a_preparer 1 db' = (db', Already_imported 1)"
proof -
  obtain db' e where c: "import_confirm False 5 a_preparer 1 (stored_import [] None (Single_client ama_sheet)) =
      (db', Imported [(1, Skipped_no_rates e)])" using stored_tenant_confirm by blast
  show ?thesis using c client_import_once [OF stored_keys c refl importer_guards(2), of True 9] by auto
qed

subsection \<open>An uncalculated import\<close>

lemma uploaded_net: "list_all2 (item_of_row c run warned s) rows items \<Longrightarrow>
    map (\<lambda>i. col i ''net_pay'') items = map (\<lambda>(_, row). rnum row ''net_pay'') rows"
proof (induction rows items rule: list_all2_induct)
  case (Cons entry rows i items)
  obtain index row where entry: "entry = (index, row)" by (cases entry)
  then obtain j e ws where "i = import_item j run e ws row" using item_of_rowD Cons(1) by metis
  then show ?case using Cons(3) by (simp add: entry col_def import_item_def num_or_0_def MONEY_FIELDS_def)
qed simp

text \<open>
  An import of a client whose figures the service did not calculate enters the risk gate all
  the same.  When a client confirms an import and no statutory rates are found for the run, the
  calculation is skipped, yet the run does not stay in Draft: it is Held or Auto-accepted, and
  its net total, which the gate judges, is the sum of the net pay the client's sheet gives.
\<close>

theorem unverified_import_is_gated:
  assumes "keys_ok (send_of db)" "tenant_import u k db = Some (batch, None)" "ib_payload batch = Single_client p"
    "import_confirm enforced now u k db = (db', Imported [(run, Skipped_no_rates e)])"
  shows "\<exists>r\<in>set (sd_runs (send_of db')). run_id r = run \<and> run_status r \<in> {HELD, AUTO_ACCEPTED} \<and>
    run_total_net_pay r = Some (fsum 0 (map (\<lambda>(_, row). rnum row ''net_pay'') (named_rows p)))"
  using assms(4)
proof (cases rule: tenant_confirm_cases)
  case (2 company batch' p' v db1 run' out)
  have eq: "p' = p" "run' = run" "out = Skipped_no_rates e" using 2(4,5,10) assms(2,3) by auto
  note clear = cleared_step [OF assms(1), of "cc_id company" "{cc_id company}" "ip_month p'" "ip_year p'", simplified]
  note made = create_step [OF clear(1) _ 2(8), of "{cc_id company}", simplified]
  obtain r written where w: "sd_runs (send_of db1) = sd_runs (send_of (with_life (cleared (cc_id company) (ip_month p') (ip_year p') (im_life db)) db)) @ [r]"
    "run_id r = run" "run_total_net_pay r = Some (fsum 0 (map (\<lambda>i. col i ''net_pay'') written))"
    "list_all2 (item_of_row (cc_id company) run (vd_per_row_warnings v) (send_of db1)) (named_rows p) written"
    using made(6) [of e] eq by auto
  have "client_gate now db1 r \<in> set (sd_runs (send_of db'))" using w(1,2) by (simp add: 2(9) eq(2) update_row_def)
  moreover have "run_status (client_gate now db1 r) \<in> {HELD, AUTO_ACCEPTED}" by (rule client_gate_frame)
  ultimately show ?thesis using w(2,3) uploaded_net [OF w(4)] by (metis client_gate_frame(1,4))
qed blast

lemma unverified_import_is_gated_witness:
  "\<exists>db' e. import_confirm False 5 a_preparer 1 (stored_import [] None (Single_client ama_sheet)) = (db', Imported [(1, Skipped_no_rates e)]) \<and>
     (\<exists>r\<in>set (sd_runs (send_of db')). run_id r = 1 \<and> run_status r \<in> {HELD, AUTO_ACCEPTED} \<and> run_total_net_pay r = Some 900)"
proof -
  let ?db = "stored_import [] None (Single_client ama_sheet)"
  obtain db' e where c: "import_confirm False 5 a_preparer 1 ?db = (db', Imported [(1, Skipped_no_rates e)])" using stored_tenant_confirm by blast
  obtain batch where "tenant_import a_preparer 1 ?db = Some (batch, None)" "ib_payload batch = Single_client ama_sheet"
    using stored_facts(3) [of "[]" None "Single_client ama_sheet"] importer_guards(3) by (auto simp: tenant_import_def)
  from unverified_import_is_gated [OF stored_keys this c] show ?thesis
    using c fl_of_int [of 900] by (simp add: named_ama ama_row_def rnum_def num_or_0_def fadd_def)
qed

subsection \<open>An import of several clients\<close>

definition period_key :: "run_payload \<Rightarrow> int \<times> string \<times> int" where
  "period_key p = (ip_client_company_id p, ip_month p, ip_year p)"

lemma period_count: "length (period_of p life) =
    length (filter (\<lambda>(_, m, y, _, c). (c, m, y) = (Some (ip_client_company_id p), ip_month p, ip_year p)) (map run_key (runs_in life)))"
  by (simp add: period_of_def period_runs_def filter_map o_def run_key_def)

lemma created_count: "length ks = length ps \<Longrightarrow>
    length (filter (\<lambda>(_, m, y, _, c). (c, m, y) = (Some (ip_client_company_id p), ip_month p, ip_year p))
      (map (\<lambda>(q, (k, _)). (k, ip_month q, ip_year q, DRAFT, Some (ip_client_company_id q))) (zip ps ks))) =
    length (filter (\<lambda>q. period_key q = period_key p) ps)"
  by (induction ks ps rule: list_induct2) (auto simp: period_key_def)

lemma multi_confirm_cases:
  assumes "find_import k db = Some (batch, linked)" "ib_payload batch = Multi_client ps"
    "confirm enforced now u (Some k) replace db = (db', Imported created)"
  shows "confirm_multi_client_import enforced now (user_id u) (ib_id batch) replace ps db = (db', Imported created)" "ib_id batch = k"
proof -
  show "confirm_multi_client_import enforced now (user_id u) (ib_id batch) replace ps db = (db', Imported created)"
    using assms by (auto simp: confirm_def split: if_splits)
  show "ib_id batch = k" using assms(1) by (auto simp: find_import_def split: option.splits dest: first_row_SomeD)
qed

text \<open>
  C16: An import of several clients makes as many runs of a client's month as the workbook has
  sheets for it.  After a successful confirmation the runs of the period of each payload are
  exactly as many as the payloads of that client, month and year: one when every client has one
  sheet, but two when two sheets name the same client, although a month with a run is otherwise
  refused or replaced.
\<close>

theorem runs_per_sheet:
  assumes "keys_ok (send_of db)" "find_import k db = Some (batch, linked)" "ib_payload batch = Multi_client ps"
    "confirm enforced now u (Some k) replace db = (db', Imported created)" "p \<in> set ps"
  shows "length (period_of p (im_life db')) = length (filter (\<lambda>q. period_key q = period_key p) ps) \<and> length created = length ps"
proof -
  note multi = multi_confirm_cases [OF assms(2-4)]
  from assms(1) multi(1) show ?thesis
  proof (cases rule: confirm_multi_cases)
    case (2 life db1 created')
    let ?dups = "filter (\<lambda>p. period_taken p (ip_client_company_id p) db) ps"
    have all: "\<forall>p\<in>set ?dups. ip_client_company_id p \<in> UNIV" "\<forall>p\<in>set ps. ip_client_company_id p \<in> UNIV" by simp_all
    note clear = replace_duplicates_step [OF assms(1) all(1) 2(3)]
    then have "keys_ok (send_of (with_life life db))" by blast
    note made = create_runs_step [OF this all(2) 2(4)]
    have free: "period_of p life = []"
    proof (cases "period_taken p (ip_client_company_id p) db")
      case True
      then show ?thesis using clear assms(5) by auto
    next
      case False
      obtain P where "runs_in life = filter P (runs_in (im_life db))" using clear by blast
      from period_of_filter [OF this, of p] show ?thesis using False not_taken by (simp add: period_of_def)
    qed
    have "map run_key (sd_runs (send_of db')) = map run_key (runs_in life) @
        map (\<lambda>(q, (k, _)). (k, ip_month q, ip_year q, DRAFT, Some (ip_client_company_id q))) (zip ps created')"
      using made by (simp add: 2(6) runs_in_life [symmetric])
    then have "length (period_of p (im_life db')) = length (period_of p life) + length (filter (\<lambda>q. period_key q = period_key p) ps)"
      unfolding period_count runs_in_life using created_count [of created' ps p] made by (simp add: runs_in_life)
    then show ?thesis using free made 2(7) by simp
  qed blast
qed

lemma runs_per_sheet_witness:
  "\<exists>db' created. confirm False 5 an_admin (Some 1) False (stored_import [] None (Multi_client [ama_sheet, ama_sheet])) = (db', Imported created) \<and>
     length (period_of ama_sheet (im_life db')) = 2 \<and> length created = 2"
proof -
  let ?db = "stored_import [] None (Multi_client [ama_sheet, ama_sheet])"
  obtain db' created where c: "confirm False 5 an_admin (Some 1) False ?db = (db', Imported created)" using stored_multi_confirm by blast
  obtain batch where b: "find_import 1 ?db = Some (batch, None)" "ib_payload batch = Multi_client [ama_sheet, ama_sheet]"
    using stored_facts(3) by blast
  show ?thesis using c runs_per_sheet [OF stored_keys b c, of ama_sheet] by auto
qed

text \<open>
  An import of several clients cannot be replayed.  Once its batch is linked to a run that
  one of its payloads would replace, confirming it again never succeeds: without the tick it is
  refused, and with it the deletion of that run deletes the batch too, so that setting its status
  fails and nothing is committed.
\<close>

theorem replayed_import_fails:
  assumes "keys_ok (send_of db)" "distinct (map fst (lf_imports (im_life db)))"
    "find_import k db = Some (batch, Some run)" "ib_payload batch = Multi_client ps"
    "run_id r = run" "p \<in> set ps" "r \<in> set (period_of p (im_life db))"
    "confirm enforced now u (Some k) replace db = (db', reply)"
  shows "db' = db \<and> (\<forall>created. reply \<noteq> Imported created)"
proof (cases "\<exists>created. reply = Imported created")
  case True
  then obtain created where reply: "reply = Imported created" by blast
  note multi = multi_confirm_cases [OF assms(3,4) assms(8) [unfolded reply]]
  from assms(1) multi(1) show ?thesis
  proof (cases rule: confirm_multi_cases)
    case (2 life db1 created')
    let ?dups = "filter (\<lambda>p. period_taken p (ip_client_company_id p) db) ps"
    have all: "\<forall>p\<in>set ?dups. ip_client_company_id p \<in> UNIV" "\<forall>p\<in>set ps. ip_client_company_id p \<in> UNIV" by simp_all
    note clear = replace_duplicates_step [OF assms(1) all(1) 2(3)]
    then have "keys_ok (send_of (with_life life db))" by blast
    note made = create_runs_step [OF this all(2) 2(4)]
    have "period_of p (im_life db) \<noteq> []" using assms(7) by auto
    then have "p \<in> set ?dups" using assms(6) not_taken by (auto simp: period_of_def)
    then have gone: "\<forall>b\<in>set (lf_imports life). b \<in> set (lf_imports (im_life db)) \<and> snd b \<noteq> Some run"
      using clear assms(5,7) by blast
    have linked: "map_of (lf_imports (im_life db)) k = Some (Some run)" using assms(3) by (auto simp: find_import_def split: option.splits)
    obtain x where "map_of (lf_imports life) k = Some x"
      using 2(5) made multi(2) side_eqD(1) [of db1 "with_life life db"] by (auto simp: find_import_def split: option.splits)
    then have "(k, x) \<in> set (lf_imports life)" by (rule map_of_SomeD)
    then have "(k, x) \<in> set (lf_imports (im_life db))" "x \<noteq> Some run" using gone by auto
    then show ?thesis using linked assms(2) by simp
  qed blast
next
  case False
  have "db' = db \<or> (\<exists>created. reply = Imported created)"
    using assms(8) assms(1,3,4) by (auto simp: confirm_def split: if_splits elim: confirm_multi_cases)
  then show ?thesis using False by blast
qed

lemma replayed_import_fails_witness:
  "let db = stored_import [sample_run DRAFT 0] (Some 1) (Multi_client [ama_sheet])
   in fst (confirm True 5 an_admin (Some 1) True db) = db \<and> (\<forall>created. snd (confirm True 5 an_admin (Some 1) True db) \<noteq> Imported created)"
proof -
  let ?db = "stored_import [sample_run DRAFT 0] (Some 1) (Multi_client [ama_sheet])"
  obtain batch where b: "find_import 1 ?db = Some (batch, Some 1)" "ib_payload batch = Multi_client [ama_sheet]" using stored_facts(3) by blast
  have r: "run_id (sample_run DRAFT 0) = 1" "sample_run DRAFT 0 \<in> set (period_of ama_sheet (im_life ?db))"
    by (simp_all add: period_of_def stored_period) (simp_all add: sample_run_def)
  have "keys_ok (send_of ?db)" "distinct (map fst (lf_imports (im_life ?db)))" using stored_keys by (simp_all add: stored_facts)
  from replayed_import_fails [OF this b r(1) _ r(2) surjective_pairing] show ?thesis by (simp add: Let_def)
qed

subsection \<open>What the warnings tell\<close>

text \<open>
  A row whose staff id occurs in another client's run of the month is given a warning with that
  client's name, whoever uploads it.
\<close>

lemma warning_names_other_client:
  assumes "sd_items (send_of db) = [item]" "first_row (\<lambda>r. run_id r = item_run item) (sd_runs (send_of db)) = Some run"
    "run_client_company_id run = Some c" "c \<noteq> client" "run_month run = month" "run_year run = year"
    "item_staff_id item = Some (strip (rtext row ''staff_id''))" "strip (rtext row ''staff_id'') \<noteq> []" "row \<in> set rows"
    "client_of db c = Some other" "cc_name other \<noteq> []" "build_worker_key row \<noteq> []"
  shows "''Worker also appears in '' @ cc_name other @ '' payroll for '' @ month @ '' '' @ str_int year @ ''.''
    \<in> set (row_warnings db client month year rows row)"
proof -
  have "strip (rtext row ''staff_id'') \<in> set (file_values ''staff_id'' rows)"
    using assms(8,9) by (auto simp: file_values_def)
  then have "cross_client_items db client month year rows = [(item, cc_name other)]"
    using assms(1-7,10) by (simp add: cross_client_items_def List.map_filter_def text_or_def)
  then have "other_client (cross_client_items db client month year rows) row = Some (cc_name other)"
    using assms(7,8,11) by (simp add: other_client_def text_or_def)
  then show ?thesis using assms(12) by (simp add: row_warnings_def Let_def)
qed

end
