(* ===== verification/Exports.thy ===== *)
theory Exports
  imports ImportConfirm RawRun
begin

text \<open>
  What leaves the service as workbooks: the payroll, the bank listing, the wages sheet and the
  GRA schedule (\<open>app/excel_utils.py\<close>), the transfer schedule, cash list and dues listing of the
  raw-hours engine (\<open>app/raw_engine/exports/\<close>), the escaping of formulas (\<open>app/csv_safety.py\<close>) and
  the export routes.  A sheet is the list of cells written, a later write to a cell replacing an
  earlier one; fonts, fills and widths are left out.
\<close>

subsection \<open>Cells\<close>

datatype cell = Text_cell string | Number_cell rat | None_cell

type_synonym grid = "((nat \<times> nat) \<times> cell) list"

definition cell_at :: "grid \<Rightarrow> nat \<times> nat \<Rightarrow> cell" where
  "cell_at g rc = (case map_of (rev g) rc of None \<Rightarrow> None_cell | Some v \<Rightarrow> v)"

definition FORMULA_TRIGGERS :: string where
  "FORMULA_TRIGGERS = [CHR ''='', CHR ''+'', CHR ''-'', CHR ''@'', CHR 0x09, CHR 0x0D]"

definition escape_formula :: "cell \<Rightarrow> cell" where
  "escape_formula v =
     (case v of
        Text_cell (c # cs) \<Rightarrow> if c \<in> set FORMULA_TRIGGERS then Text_cell (CHR 0x27 # c # cs) else v
      | _ \<Rightarrow> v)"

definition opt_cell :: "string option \<Rightarrow> cell" where
  "opt_cell s = (case s of None \<Rightarrow> None_cell | Some t \<Rightarrow> Text_cell t)"

text \<open>The cells of one row from a column on, rows from a row on.\<close>

definition row_from :: "nat \<Rightarrow> nat \<Rightarrow> cell list \<Rightarrow> grid" where
  "row_from r c cells = map (\<lambda>(k, v). ((r, k), v)) (enumerate c cells)"

definition rows_from :: "nat \<Rightarrow> cell list list \<Rightarrow> grid" where
  "rows_from r rows = concat (map (\<lambda>(k, cells). row_from k 1 cells) (enumerate r rows))"

definition write_table :: "nat \<Rightarrow> string list \<Rightarrow> cell list list \<Rightarrow> grid" where
  "write_table start_row headers rows =
     row_from start_row 1 (map (escape_formula \<circ> Text_cell) headers) @
     rows_from (start_row + 1) (map (map escape_formula) rows)"

subsection \<open>Workbooks\<close>

record report =
  rp_sheet_title :: string
  rp_cells :: grid
  rp_filename :: string

definition INVALID_SHEET_TITLE_CHARS :: string where
  "INVALID_SHEET_TITLE_CHARS = [CHR 0x5C, CHR ''/'', CHR ''?'', CHR ''*'', CHR ''['', CHR '']'', CHR '':'']"

definition safe_sheet_title :: "string \<Rightarrow> string" where
  "safe_sheet_title title =
     (let cleaned = map (\<lambda>ch. if ch \<in> set INVALID_SHEET_TITLE_CHARS then CHR '' '' else ch) title;
          cleaned = strip (take 31 (strip (collapse is_space cleaned)))
      in if cleaned = [] then ''Sheet'' else cleaned)"

text \<open>\<open>re.sub(r"[^A-Za-z0-9]+", "_", value).strip("_")\<close>: a run becomes a space, a space an underscore.\<close>

definition slug_char :: "char \<Rightarrow> bool" where
  "slug_char c \<longleftrightarrow> label_char (to_lower c)"

definition slug_filename :: "string \<Rightarrow> string" where
  "slug_filename value =
     (let cleaned = strip (collapse (\<lambda>c. \<not> slug_char c) value)
      in if cleaned = [] then ''report'' else map (\<lambda>c. if slug_char c then c else CHR ''_'') cleaned)"

definition create_workbook :: "string \<Rightarrow> string \<Rightarrow> string \<Rightarrow> grid" where
  "create_workbook report_title org_name generated =
     [((1, 1), escape_formula (Text_cell org_name)), ((2, 1), escape_formula (Text_cell report_title)),
      ((3, 1), Text_cell (''Date generated: '' @ generated))]"

definition client_label :: "client_company option \<Rightarrow> string" where
  "client_label client = (case client of None \<Rightarrow> ''Client'' | Some c \<Rightarrow> cc_name c)"

definition period_label :: "payroll_run \<Rightarrow> string" where
  "period_label run = run_month run @ '' '' @ str_int (run_year run)"

definition num_cell :: "rat option \<Rightarrow> cell" where
  "num_cell x = (case x of None \<Rightarrow> None_cell | Some v \<Rightarrow> Number_cell v)"

definition by_name :: "payroll_item list \<Rightarrow> payroll_item list" where
  "by_name items = sort_key (\<lambda>i. upper (text_or (item_full_name i) [])) items"

subsection \<open>The payroll and the error report\<close>

definition payroll_row :: "payroll_item \<Rightarrow> cell list" where
  "payroll_row item =
     [opt_cell (item_staff_id item), opt_cell (item_full_name item)] @
     map (\<lambda>f. num_cell (item_money item f))
       [''basic_salary'', ''transport_allowance'', ''housing_allowance'', ''overtime_pay'', ''gross_pay'', ''paye'', ''ssnit'',
        ''total_deductions'', ''net_pay''] @
     [opt_cell (item_warning_notes item)]"

definition export_payroll_run ::
  "string \<Rightarrow> string option \<Rightarrow> client_company option \<Rightarrow> payroll_run \<Rightarrow> payroll_item list \<Rightarrow> report" where
  "export_payroll_run generated org_name client run items =
     (let title = client_label client @ '' Payroll '' @ period_label run;
          total_row = length items + 7
      in \<lparr>rp_sheet_title = safe_sheet_title title,
          rp_cells =
            create_workbook title (text_or org_name ''Chrisnat Limited'') generated @
            write_table 5 [''Staff ID'', ''Name'', ''Basic'', ''Transport'', ''Housing'', ''Overtime'', ''Gross'', ''PAYE'',
                           ''SSNIT'', ''Deductions'', ''Net Pay'', ''Warnings''] (map payroll_row items) @
            [((total_row, 1), Text_cell ''Totals''), ((total_row, 7), num_cell (run_total_gross_pay run)),
             ((total_row, 8), num_cell (run_total_paye run)), ((total_row, 9), num_cell (run_total_ssnit run)),
             ((total_row, 10), num_cell (run_total_deductions run)), ((total_row, 11), num_cell (run_total_net_pay run))],
          rp_filename = slug_filename (client_label client) @ ''_Payroll_'' @ run_month run @ ''_'' @ str_int (run_year run) @ ''.xlsx''\<rparr>)"

text \<open>The warned rows of a stored payload; a row number past the rows gives an empty row.\<close>

definition error_row :: "import_row list \<Rightarrow> nat \<times> string list \<Rightarrow> cell list" where
  "error_row rows entry =
     (case entry of (index, warnings) \<Rightarrow>
        let row = (if index - 1 < length rows then rows ! (index - 1) else empty_row)
        in [Text_cell (digits index), Text_cell (rtext row ''staff_id''), Text_cell (rtext row ''full_name''),
            Text_cell (rtext row ''bank_account_number''), Number_cell (rnum row ''net_pay''),
            Text_cell (join_with ''; '' warnings)])"

definition export_import_error_report :: "string \<Rightarrow> run_payload option \<Rightarrow> report" where
  "export_import_error_report generated payload =
     (let title = ''Payroll Import Error Report'';
          rows = (case payload of None \<Rightarrow> [] | Some p \<Rightarrow>
                    (case ip_validation p of None \<Rightarrow> [] | Some v \<Rightarrow> map (error_row (ip_mapped_rows p)) (vd_per_row_warnings v)))
      in \<lparr>rp_sheet_title = safe_sheet_title title,
          rp_cells =
            create_workbook title ''Chrisnat Limited'' generated @
            write_table 5 [''Row'', ''Staff ID'', ''Name'', ''Bank Account'', ''Net Pay'', ''Warnings''] rows,
          rp_filename = ''Import_Errors_'' @
            slug_filename (case payload of None \<Rightarrow> ''payroll'' | Some p \<Rightarrow> ip_source_filename p) @ ''.xlsx''\<rparr>)"

subsection \<open>The bank listing\<close>

text \<open>Columns of an item that no calculation reads, by item id.\<close>

type_synonym item_texts = "int \<Rightarrow> string \<Rightarrow> string option"

record bank_group =
  bg_bank :: string
  bg_items :: "payroll_item list"
  bg_subtotal :: rat

definition bank_of :: "item_texts \<Rightarrow> payroll_item \<Rightarrow> string" where
  "bank_of texts item =
     (let bank = strip (text_or (texts (item_id item) ''bank_name'') [])
      in if bank = [] then ''NO BANK ON RECORD'' else bank)"

definition buckets :: "('a \<Rightarrow> string) \<Rightarrow> 'a list \<Rightarrow> (string \<times> 'a list) list" where
  "buckets key items = foldl (\<lambda>d item. append_to (key item) item d) [] items"

definition net_total :: "payroll_item list \<Rightarrow> rat" where
  "net_total items = fsum 0 (map (\<lambda>i. col i ''net_pay'') items)"

definition bank_listing_groups :: "item_texts \<Rightarrow> payroll_item list \<Rightarrow> bank_group list \<times> rat" where
  "bank_listing_groups texts items =
     (map (\<lambda>(bank, mine). \<lparr>bg_bank = bank, bg_items = by_name mine, bg_subtotal = py_round2 (net_total (by_name mine))\<rparr>)
        (sort_key fst (buckets (bank_of texts) items)),
      py_round2 (net_total items))"

definition bank_row :: "item_texts \<Rightarrow> payroll_item \<Rightarrow> cell list" where
  "bank_row texts item =
     map escape_formula
       [opt_cell (item_staff_id item), opt_cell (item_full_name item), opt_cell (item_bank_branch item),
        opt_cell (texts (item_id item) ''bank_account_number'')] @
     [Number_cell (py_round2 (col item ''net_pay''))]"

text \<open>The cent sign of the headers.\<close>

definition NET_PAY_HEADER :: string where
  "NET_PAY_HEADER = ''Net Pay (GH'' @ [CHR 0xA2] @ '')''"

definition bank_block :: "item_texts \<Rightarrow> nat \<Rightarrow> bank_group \<Rightarrow> rat \<Rightarrow> grid" where
  "bank_block texts r g subtotal =
     (let n = length (bg_items g)
      in [((r, 1), escape_formula (Text_cell (bg_bank g)))] @
         row_from (r + 1) 1 (map Text_cell [''Staff ID'', ''Employee Name'', ''Bank Branch'', ''Account Number'', NET_PAY_HEADER]) @
         rows_from (r + 2) (map (bank_row texts) (bg_items g)) @
         [((r + 2 + n, 2), escape_formula (Text_cell (bg_bank g @ '' Total ('' @ digits n @ '' workers)''))),
          ((r + 2 + n, 5), Number_cell subtotal)])"

text \<open>The blocks one below the other, and the first row after them.\<close>

fun bank_blocks :: "item_texts \<Rightarrow> nat \<Rightarrow> bank_group list \<Rightarrow> grid \<times> nat" where
  "bank_blocks texts r [] = ([], r)"
| "bank_blocks texts r (g # gs) =
     (let (rest, end_row) = bank_blocks texts (r + 4 + length (bg_items g)) gs
      in (bank_block texts r g (bg_subtotal g) @ rest, end_row))"

definition export_bank_listing ::
  "string \<Rightarrow> string option \<Rightarrow> client_company option \<Rightarrow> item_texts \<Rightarrow> payroll_run \<Rightarrow> payroll_item list \<Rightarrow> report" where
  "export_bank_listing generated org_name client texts run items =
     (let title = client_label client @ '' Bank Listing '' @ period_label run;
          (groups, grand_total) = bank_listing_groups texts items;
          (blocks, row) = bank_blocks texts 5 groups
      in \<lparr>rp_sheet_title = safe_sheet_title title,
          rp_cells = create_workbook title (text_or org_name ''Chrisnat Limited'') generated @ blocks @
            [((row, 2), Text_cell ''GRAND TOTAL''), ((row, 5), Number_cell grand_total)],
          rp_filename = slug_filename (client_label client) @ ''_Bank_Listing_'' @ slug_filename (run_month run) @ ''_'' @
            str_int (run_year run) @ ''.xlsx''\<rparr>)"

subsection \<open>The wages sheet\<close>

text \<open>\<open>any(getattr(item, deductions_policy_version, 0) ...)\<close>: a version other than 0.\<close>

definition strict_item :: "payroll_item \<Rightarrow> bool" where
  "strict_item item \<longleftrightarrow> col item ''deductions_policy_version'' \<noteq> 0"

definition BREAKDOWN_FIELDS :: "(string \<times> string) list" where
  "BREAKDOWN_FIELDS =
     [(''Employer Provident Fund'', ''pf_fund_employer''), (''Tax-Allowable Employee PF'', ''pf_allowable_employee''),
      (''GRA Relief Applied'', ''tax_relief_applied''), (''Ordinary-Taxed Overtime'', ''overtime_ordinary_pay''),
      (''Pensionable Salary'', ''pensionable_salary''), (''SSNIT Remittance'', ''ssnit_remittance''),
      (''Tier 2 Remittance'', ''tier_2_remittance'')]"

definition other_deductions_fold :: "payroll_item \<Rightarrow> rat" where
  "other_deductions_fold item =
     py_round2 (fsum (col item ''loan_deduction'')
       (map (col item) [''welfare_deduction'', ''other_deductions'', ''iou_deduction'']))"

text \<open>The figures of a row, from \<open>Basic Wage\<close> on.\<close>

definition wages_figures :: "(string \<times> string) list \<Rightarrow> payroll_item \<Rightarrow> rat list" where
  "wages_figures breakdown item =
     (let c = (\<lambda>f. py_round2 (col item f))
      in map c [''basic_salary'', ''ssnit'', ''ssf_employer'', ''net_basic_wage'', ''transport_allowance'', ''pay_difference'',
                ''other_allowances'', ''overtime_pay'', ''gross_pay'', ''pf_fund_employee''] @
         [other_deductions_fold item] @ map c [''paye'', ''net_pay''] @ map (c \<circ> snd) breakdown)"

definition WAGES_HEADERS :: "string list" where
  "WAGES_HEADERS =
     [''Staff ID'', ''Name'', ''Basic Wage'', ''SSF 5.5%'', ''SSF 13%'', ''Net Basic Wage'', ''Transport Allowance'',
      ''Pay Difference'', ''Other Allowance'', ''Overtime Allowance'', ''Gross Pay'', ''Provident Fund'', ''Other Deductions'',
      ''Tax (PAYE)'', ''Net Pay'']"

definition wages_totals :: "(string \<times> string) list \<Rightarrow> payroll_item list \<Rightarrow> rat list" where
  "wages_totals breakdown items =
     map (\<lambda>k. py_round2 (fsum 0 (map (\<lambda>i. wages_figures breakdown i ! k) (by_name items)))) [0..<13 + length breakdown]"

definition export_wages_sheet ::
  "string \<Rightarrow> client_company option \<Rightarrow> payroll_run \<Rightarrow> payroll_item list \<Rightarrow> report" where
  "export_wages_sheet generated client run items =
     (let title = client_label client @ '' Wages Sheet '' @ period_label run;
          breakdown = (if list_ex strict_item items then BREAKDOWN_FIELDS else []);
          rows = map (\<lambda>i. [opt_cell (item_staff_id i), opt_cell (item_full_name i)] @ map Number_cell (wages_figures breakdown i))
                   (by_name items);
          total_row = 5 + length rows + 1
      in \<lparr>rp_sheet_title = safe_sheet_title title,
          rp_cells = create_workbook title ''Chrisnat Limited'' generated @
            write_table 5 (WAGES_HEADERS @ map fst breakdown) rows @
            [((total_row, 2), Text_cell ''TOTALS'')] @
            row_from total_row 3 (map Number_cell (wages_totals breakdown items)),
          rp_filename = slug_filename (client_label client) @ ''_Wages_Sheet_'' @ slug_filename (run_month run) @ ''_'' @
            str_int (run_year run) @ ''.xlsx''\<rparr>)"

subsection \<open>The GRA schedule\<close>

text \<open>The month's number after \<open>title()\<close>, which recognises exactly the case variants of the names.\<close>

definition gra_month_code :: "string \<Rightarrow> int \<Rightarrow> string" where
  "gra_month_code month year =
     (case map_of (zip (map lower month_names) [1..<13]) (lower (strip month)) of
        Some n \<Rightarrow> (if n < 10 then ''0'' else []) @ digits n @ ''/'' @ str_int year
      | None \<Rightarrow> month @ '' '' @ str_int year)"

definition GRA_DATA_START_ROW :: nat where
  "GRA_DATA_START_ROW = 18"

text \<open>The figures of a worker's row that the cells repeat.\<close>

record gra_figures =
  gf_bonus_concession :: rat
  gf_cash_allowances :: rat
  gf_ordinary_paye :: rat
  gf_allowed_pf :: rat
  gf_relief_applied :: "rat option"
  gf_ordinary_ot :: rat
  gf_assessable_income :: rat
  gf_total_reliefs :: rat

definition gra_figures_of :: "payroll_item \<Rightarrow> gra_figures" where
  "gra_figures_of item =
     (let c = col item; strict = strict_item item;
          total_bonus = fadd (c ''productivity_bonus'') (c ''end_of_year_bonus'');
          cash = py_round2 (fsum (c ''transport_allowance'')
                   (map c [''housing_allowance'', ''medical_allowance'', ''meal_allowance'', ''other_allowances'', ''pay_difference'']));
          allowed_pf = py_round2 (c (if strict then ''pf_allowable_employee'' else ''pf_fund_employee''));
          relief = (if strict then Some (py_round2 (c ''tax_relief_applied'')) else None);
          ordinary_ot = (if strict then py_round2 (c ''overtime_ordinary_pay'') else 0);
          cash = (if strict then py_round2 (fsum cash [ordinary_ot, c ''pf_employer_taxable'']) else cash)
      in \<lparr>gf_bonus_concession = py_round2 (max (fsub total_bonus (c ''bonus_excess'')) 0),
          gf_cash_allowances = cash,
          gf_ordinary_paye = py_round2 (fsub (fsub (c ''paye'') (c ''overtime_tax'')) (c ''bonus_tax'')),
          gf_allowed_pf = allowed_pf,
          gf_relief_applied = relief,
          gf_ordinary_ot = ordinary_ot,
          gf_assessable_income = py_round2 (if strict then fsum (c ''basic_salary'') [cash, c ''bonus_excess''] else c ''gross_pay''),
          gf_total_reliefs = py_round2 (fsum (c ''ssnit'') [allowed_pf, num_or_0 relief])\<rparr>)"

text \<open>The columns A to AB of the official form; an empty text for a column that is left blank.\<close>

definition gra_row :: "item_texts \<Rightarrow> (int \<Rightarrow> string option) \<Rightarrow> nat \<Rightarrow> payroll_item \<Rightarrow> cell list" where
  "gra_row texts employee_tin number item =
     (let g = gra_figures_of item; c = (\<lambda>f. Number_cell (py_round2 (col item f)));
          blank = Text_cell [];
          tin = (case Option.bind (item_employee item) employee_tin of None \<Rightarrow> [] | Some t \<Rightarrow> t);
          tin = (if tin \<noteq> [] then tin else text_or (texts (item_id item) ''ghana_card_number'') [])
      in [Number_cell (of_nat number), Text_cell tin, opt_cell (item_full_name item), opt_cell (texts (item_id item) ''job_role''),
          blank, c ''basic_salary'', blank, Text_cell (if col item ''ssnit'' > 0 then ''Y'' else ''N''), c ''ssnit'',
          Number_cell (gf_allowed_pf g), Number_cell (gf_cash_allowances g), Number_cell (gf_bonus_concession g), c ''bonus_tax'',
          c ''bonus_excess'', Number_cell (gf_assessable_income g), blank, blank, blank, Number_cell (gf_assessable_income g),
          (case gf_relief_applied g of None \<Rightarrow> blank | Some x \<Rightarrow> Number_cell x), Number_cell (gf_total_reliefs g),
          c ''taxable_income'', Number_cell (gf_ordinary_paye g),
          Number_cell (py_round2 (fsub (col item ''overtime_pay'') (gf_ordinary_ot g))), c ''overtime_tax'', c ''paye'', blank, blank])"

text \<open>
  The cells written into the form: name of employer D9, its TIN D11, month U9, tax office G7 and
  the workers from row 18.  The form itself is an asset of the repository.
\<close>

definition fill_gra_skeleton_workbook ::
  "item_texts \<Rightarrow> (int \<Rightarrow> string option) \<Rightarrow> payroll_run \<Rightarrow> payroll_item list \<Rightarrow> string \<Rightarrow> string \<Rightarrow> string \<Rightarrow> grid" where
  "fill_gra_skeleton_workbook texts employee_tin run items employer_tin tax_office employer_name =
     [((9, 4), escape_formula (Text_cell employer_name)), ((11, 4), escape_formula (Text_cell employer_tin)),
      ((9, 21), Text_cell (gra_month_code (run_month run) (run_year run)))] @
     (if tax_office = [] then [] else [((7, 7), escape_formula (Text_cell tax_office))]) @
     rows_from GRA_DATA_START_ROW
       (map (\<lambda>(k, i). map escape_formula (gra_row texts employee_tin k i)) (enumerate 1 (by_name items)))"

definition gra_filename :: "client_company option \<Rightarrow> payroll_run \<Rightarrow> string" where
  "gra_filename client run =
     slug_filename (client_label client) @ ''_GRA_PAYE_Schedule_'' @ slug_filename (run_month run) @ ''_'' @
     str_int (run_year run) @ ''.xlsx''"

text \<open>The layout used when the form is missing.\<close>

definition GRA_TAX_OFFICES :: "string list" where
  "GRA_TAX_OFFICES = [''LTO'', ''MTO'', ''STO'']"

definition format_tax_office_tickboxes :: "string \<Rightarrow> string" where
  "format_tax_office_tickboxes tax_office =
     (let selected = upper (strip tax_office);
          boxes = join_with ''   '' (map (\<lambda>office. office @ '' ['' @ (if office = selected then ''X'' else '' '') @ '']'') GRA_TAX_OFFICES)
      in if selected \<noteq> [] \<and> selected \<notin> set GRA_TAX_OFFICES then boxes @ ''   Other: '' @ tax_office else boxes)"

definition ASSESSABLE_FIELDS :: "string list" where
  "ASSESSABLE_FIELDS =
     [''basic_salary'', ''transport_allowance'', ''housing_allowance'', ''medical_allowance'', ''meal_allowance'',
      ''other_allowances'', ''pay_difference'', ''bonus_excess'', ''overtime_ordinary_pay'', ''pf_employer_taxable'']"

definition SUMMARY_HEADERS :: "string list" where
  "SUMMARY_HEADERS =
     [''No.'', ''Employee Name'', ''Staff ID'', ''TIN'', ''Ghana Card No.'', ''SSNIT No.'', ''Non-Resident (Y/N)'',
      ''Secondary Employment (Y/N)'', ''Basic Salary'', ''Total Cash Emoluments'', ''Employee SSF'',
      ''Third Tier / Provident Fund'', ''Accommodation Element'', ''Vehicle Element'', ''Non-Cash Benefit'',
      ''Chargeable Income'', ''Tax Deducted (PAYE)'', ''Overtime Income'', ''Overtime Tax'', ''Bonus Income'',
      ''Final Tax on Bonus Income'', ''Excess Bonus'', ''Severance Pay'', ''Total Tax Payable to GRA'', ''Remark'']"

definition summary_row ::
  "item_texts \<Rightarrow> (int \<Rightarrow> string option) \<Rightarrow> bool \<Rightarrow> nat \<Rightarrow> payroll_item \<Rightarrow> cell list" where
  "summary_row texts employee_tin include_relief number item =
     (let c = col item; r = (\<lambda>x. Number_cell (py_round2 x)); strict = strict_item item; blank = Text_cell [];
          text = (\<lambda>f. opt_cell (texts (item_id item) f));
          total_bonus = fadd (c ''productivity_bonus'') (c ''end_of_year_bonus'');
          ordinary_ot = (if strict then c ''overtime_ordinary_pay'' else 0);
          allowed_pf = c (if strict then ''pf_allowable_employee'' else ''pf_fund_employee'');
          assessable = (if strict then fsum 0 (map c ASSESSABLE_FIELDS) else c ''gross_pay'')
      in [Number_cell (of_nat number), opt_cell (item_full_name item), opt_cell (item_staff_id item),
          (case item_employee item of None \<Rightarrow> blank | Some e \<Rightarrow> opt_cell (employee_tin e)),
          text ''ghana_card_number'', text ''ssnit_number'', blank, blank, r (c ''basic_salary''), r assessable, r (c ''ssnit''),
          r allowed_pf, blank, blank, blank, r (c ''taxable_income''),
          r (fsub (fsub (c ''paye'') (c ''overtime_tax'')) (c ''bonus_tax'')), r (fsub (c ''overtime_pay'') ordinary_ot),
          r (c ''overtime_tax''), r (max (fsub total_bonus (c ''bonus_excess'')) 0), r (c ''bonus_tax''), r (c ''bonus_excess''), blank,
          r (c ''paye''), blank] @
         (if include_relief then [if strict then r (c ''tax_relief_applied'') else Number_cell 0] else []))"

definition cell_number :: "cell \<Rightarrow> rat" where
  "cell_number v = (case v of Number_cell x \<Rightarrow> x | _ \<Rightarrow> 0)"

definition SUMMARY_MONEY_COLUMNS :: "nat list" where
  "SUMMARY_MONEY_COLUMNS = [9, 10, 11, 12, 16, 17, 18, 19, 20, 21, 22, 24]"

definition export_gra_summary_layout ::
  "string \<Rightarrow> client_company option \<Rightarrow> item_texts \<Rightarrow> (int \<Rightarrow> string option) \<Rightarrow> payroll_run \<Rightarrow> payroll_item list
    \<Rightarrow> string \<Rightarrow> string \<Rightarrow> string \<Rightarrow> report" where
  "export_gra_summary_layout generated client texts employee_tin run items employer_tin tax_office employer_name =
     (let title = ''GRA PAYE '' @ period_label run;
          include_relief = list_ex strict_item items;
          rows = map (\<lambda>(k, i). summary_row texts employee_tin include_relief k i) (enumerate 1 (by_name items));
          total_row = 10 + length rows + 1;
          columns = SUMMARY_MONEY_COLUMNS @ (if include_relief then [26] else [])
      in \<lparr>rp_sheet_title = safe_sheet_title title,
          rp_cells = create_workbook title employer_name generated @
            [((2, 1), Text_cell (''EMPLOYER'' @ [CHR 0x27] @ ''S MONTHLY TAX DEDUCTIONS SCHEDULE (P.A.Y.E.)'')),
             ((4, 1), Text_cell (''Name of Employer: '' @ employer_name)), ((5, 1), Text_cell (''Employer TIN: '' @ employer_tin)),
             ((6, 1), Text_cell (''Tax Office (tick one): '' @ format_tax_office_tickboxes tax_office)),
             ((7, 1), Text_cell (''Payroll for: '' @ client_label client)), ((8, 1), Text_cell (''Month: '' @ period_label run))] @
            write_table 10 (SUMMARY_HEADERS @ (if include_relief then [''GRA Relief Applied''] else [])) rows @
            [((total_row, 2), Text_cell ''TOTALS'')] @
            map (\<lambda>k. ((total_row, k), Number_cell (py_round2 (fsum 0 (map (\<lambda>row. cell_number (row ! (k - 1))) rows))))) columns,
          rp_filename = gra_filename client run\<rparr>)"

text \<open>\<open>form_title\<close> is the title of the form's sheet, none when the form is missing.\<close>

definition export_gra_paye_schedule ::
  "string option \<Rightarrow> string \<Rightarrow> client_company option \<Rightarrow> item_texts \<Rightarrow> (int \<Rightarrow> string option) \<Rightarrow> payroll_run \<Rightarrow> payroll_item list
    \<Rightarrow> string \<Rightarrow> string \<Rightarrow> string option \<Rightarrow> report" where
  "export_gra_paye_schedule form_title generated client texts employee_tin run items employer_tin tax_office employer_name =
     (let employer = text_or employer_name ''CHRISNAT LIMITED''
      in case form_title of
           Some title \<Rightarrow>
             \<lparr>rp_sheet_title = title,
              rp_cells = fill_gra_skeleton_workbook texts employee_tin run items employer_tin tax_office employer,
              rp_filename = gra_filename client run\<rparr>
         | None \<Rightarrow> export_gra_summary_layout generated client texts employee_tin run items employer_tin tax_office employer)"

subsection \<open>The raw-hours exports\<close>

definition normalise_bank :: "string \<Rightarrow> string" where
  "normalise_bank name = upper (collapse is_space (strip name))"

record payment_routing =
  pr_banked :: "payroll_item list"
  pr_pv :: "payroll_item list"

definition banked_item :: "item_texts \<Rightarrow> string list \<Rightarrow> payroll_item \<Rightarrow> bool" where
  "banked_item texts whitelist item \<longleftrightarrow>
     normalise_bank (text_or (texts (item_id item) ''bank_name'') []) \<in> set (map normalise_bank whitelist) \<and>
     strip (text_or (texts (item_id item) ''bank_account_number'') []) \<noteq> []"

definition route_payments :: "item_texts \<Rightarrow> string list \<Rightarrow> payroll_item list \<Rightarrow> payment_routing" where
  "route_payments texts whitelist items =
     foldl (\<lambda>routing item.
         if banked_item texts whitelist item then routing\<lparr>pr_banked := pr_banked routing @ [item]\<rparr>
         else routing\<lparr>pr_pv := pr_pv routing @ [item]\<rparr>)
       \<lparr>pr_banked = [], pr_pv = []\<rparr> items"

definition banked_total :: "payment_routing \<Rightarrow> rat" where
  "banked_total routing = money (net_total (pr_banked routing))"

definition pv_total :: "payment_routing \<Rightarrow> rat" where
  "pv_total routing = money (net_total (pr_pv routing))"

definition routed_total :: "payment_routing \<Rightarrow> rat" where
  "routed_total routing = money (fadd (banked_total routing) (pv_total routing))"

text \<open>Items are told apart by identity; a row's identity is its id.\<close>

definition is_complete :: "payroll_item list \<Rightarrow> payment_routing \<Rightarrow> bool" where
  "is_complete items routing \<longleftrightarrow>
     list_all (\<lambda>i. item_id i \<notin> set (map item_id (pr_pv routing))) (pr_banked routing) \<and>
     set (map item_id (pr_banked routing @ pr_pv routing)) = set (map item_id items)"

text \<open>The transfer schedule: the listing's blocks over the banked items, a subtotal with \<open>money\<close>.\<close>

definition export_bank_grouping ::
  "string \<Rightarrow> client_company option \<Rightarrow> item_texts \<Rightarrow> payroll_run \<Rightarrow> payment_routing \<Rightarrow> report" where
  "export_bank_grouping generated client texts run routing =
     (let title = client_label client @ '' Bank Grouping (AKOTO) '' @ period_label run;
          groups = map (\<lambda>(bank, mine). \<lparr>bg_bank = bank, bg_items = by_name mine, bg_subtotal = money (net_total (by_name mine))\<rparr>)
                     (sort_key fst (buckets (\<lambda>i. normalise_bank (text_or (texts (item_id i) ''bank_name'') [])) (pr_banked routing)));
          (blocks, row) = bank_blocks texts 5 groups
      in \<lparr>rp_sheet_title = safe_sheet_title title,
          rp_cells = create_workbook title ''Chrisnat Limited'' generated @ blocks @
            [((row, 2), Text_cell ''GRAND TOTAL (BANK)''), ((row, 5), Number_cell (banked_total routing))],
          rp_filename = slug_filename (client_label client) @ ''_Bank_Grouping_'' @ slug_filename (run_month run) @ ''_'' @
            str_int (run_year run) @ ''.xlsx''\<rparr>)"

definition pv_row :: "item_texts \<Rightarrow> payroll_item \<Rightarrow> cell list" where
  "pv_row texts item =
     [opt_cell (item_staff_id item), opt_cell (item_full_name item),
      Text_cell (text_or (texts (item_id item) ''bank_name'') em_dash), Number_cell (py_round2 (col item ''net_pay'')), Text_cell []]"

definition export_pv :: "string \<Rightarrow> client_company option \<Rightarrow> item_texts \<Rightarrow> payroll_run \<Rightarrow> payment_routing \<Rightarrow> report" where
  "export_pv generated client texts run routing =
     (let title = client_label client @ '' Payment Voucher (Cash) '' @ period_label run;
          rows = map (pv_row texts) (by_name (pr_pv routing));
          total_row = 5 + length rows + 1
      in \<lparr>rp_sheet_title = safe_sheet_title title,
          rp_cells = create_workbook title ''Chrisnat Limited'' generated @
            write_table 5 [''Clock/Staff ID'', ''Employee Name'', ''Bank on Record'', NET_PAY_HEADER, ''Signature''] rows @
            [((total_row, 2), Text_cell (''CASH TOTAL ('' @ digits (length rows) @ '' workers)'')),
             ((total_row, 4), Number_cell (pv_total routing))],
          rp_filename = slug_filename (client_label client) @ ''_Payment_Voucher_'' @ slug_filename (run_month run) @ ''_'' @
            str_int (run_year run) @ ''.xlsx''\<rparr>)"

definition export_icu_distribution :: "string \<Rightarrow> client_company option \<Rightarrow> payroll_run \<Rightarrow> payroll_item list \<Rightarrow> report" where
  "export_icu_distribution generated client run items =
     (let title = client_label client @ '' ICU Union Distribution '' @ period_label run;
          members = filter (\<lambda>i. col i ''icu_dues'' > 0) items;
          icu_total = money (fsum 0 (map (\<lambda>i. col i ''icu_dues'') members));
          dist = distribute_union_dues icu_total;
          cedis = [CHR 0xA2] @ '')'';
          line = (\<lambda>label x. [Text_cell label, Number_cell x]);
          cascade =
            [line ''Total ICU dues collected'' icu_total, line ''  Union (50%)'' (ud_union dist),
             line ''    ICU-Accra (75% of union)'' (ud_icu_accra dist), line ''    Local (20% of union)'' (ud_local dist),
             line ''    ICU-Tema (5% of union)'' (ud_icu_tema dist), line ''  Edfund (50%)'' (ud_edfund dist),
             line ''    ICU-EDAC (80% of edfund)'' (ud_icu_edac dist), line ''    DCL-EEF (20% of edfund)'' (ud_dcl_eef dist),
             line ''Total remitted (leaves)'' (total_payout dist)];
          start = 5 + length cascade + 2;
          member_rows = map (\<lambda>i. [opt_cell (item_staff_id i), opt_cell (item_full_name i), Number_cell (py_round2 (col i ''icu_dues''))])
                          (by_name members)
      in \<lparr>rp_sheet_title = safe_sheet_title title,
          rp_cells = create_workbook title ''Chrisnat Limited'' generated @
            write_table 5 [''Distribution'', ''Amount (GH'' @ cedis] cascade @
            [((start, 1), Text_cell (''Members ('' @ digits (length members) @ '')''))] @
            write_table (start + 1) [''Staff ID'', ''Name'', ''ICU Dues (GH'' @ cedis] member_rows,
          rp_filename = slug_filename (client_label client) @ ''_ICU_Distribution_'' @ slug_filename (run_month run) @ ''_'' @
            str_int (run_year run) @ ''.xlsx''\<rparr>)"

end
