(* ===== verification/ExportRoutes.thy ===== *)
theory ExportRoutes
  imports Exports SendRoutes
begin

text \<open>
  The export routes: of the operator (\<open>app/payroll.py\<close>), of a client (\<open>app/client/reports.py\<close>) and of
  the raw-hours engine (\<open>app/raw_engine/exports/service.py\<close>, \<open>web.py\<close>).  The two environment variables of
  the operator's schedule and the clock's text are arguments.
\<close>

definition run_client :: "import_db \<Rightarrow> payroll_run \<Rightarrow> client_company option" where
  "run_client db run = Option.bind (run_client_company_id run) (client_of db)"

definition run_items :: "import_db \<Rightarrow> payroll_run \<Rightarrow> payroll_item list" where
  "run_items db run = items_of (run_id run) (sd_items (send_of db))"

definition employee_tin :: "import_db \<Rightarrow> int \<Rightarrow> string option" where
  "employee_tin db k = im_employee_text db k ''tin''"

subsection \<open>Operator\<close>

text \<open>The report is made of the run as it is found; then the route's change and the audit entry are stored.\<close>

definition operator_report ::
  "user \<Rightarrow> int \<Rightarrow> string \<Rightarrow> (payroll_run \<Rightarrow> payroll_run) \<Rightarrow> (payroll_run \<Rightarrow> report) \<Rightarrow> import_db \<Rightarrow> import_db \<times> report reply" where
  "operator_report u k action change report_of db =
     (case run_route (role_required PAYROLL_ROLES u) k
             (\<lambda>run life. (record_audit action k (set_run k change life), report_of run)) (im_life db) of
        (life, r) \<Rightarrow> (db\<lparr>im_life := life\<rparr>, r))"

definition export :: "user \<Rightarrow> string \<Rightarrow> int \<Rightarrow> import_db \<Rightarrow> import_db \<times> report reply" where
  "export u generated k db =
     operator_report u k ''Payroll export'' (\<lambda>r. r\<lparr>run_status := PROCESSED\<rparr>)
       (\<lambda>run. export_payroll_run generated None (run_client db run) run (run_items db run)) db"

definition export_bank_listing_route :: "user \<Rightarrow> string \<Rightarrow> int \<Rightarrow> import_db \<Rightarrow> import_db \<times> report reply" where
  "export_bank_listing_route u generated k db =
     operator_report u k ''Bank listing export'' (\<lambda>r. r)
       (\<lambda>run. export_bank_listing generated None (run_client db run) (im_item_text db) run (run_items db run)) db"

definition export_wages_sheet_route :: "user \<Rightarrow> string \<Rightarrow> int \<Rightarrow> import_db \<Rightarrow> import_db \<times> report reply" where
  "export_wages_sheet_route u generated k db =
     operator_report u k ''Wages sheet export'' (\<lambda>r. r)
       (\<lambda>run. export_wages_sheet generated (run_client db run) run (run_items db run)) db"

definition export_gra_paye_route ::
  "string option \<Rightarrow> string \<Rightarrow> string \<Rightarrow> user \<Rightarrow> string \<Rightarrow> int \<Rightarrow> import_db \<Rightarrow> import_db \<times> report reply" where
  "export_gra_paye_route form_title employer_tin tax_office u generated k db =
     operator_report u k ''GRA PAYE schedule export'' (\<lambda>r. r)
       (\<lambda>run. export_gra_paye_schedule form_title generated (run_client db run) (im_item_text db) (employee_tin db) run
          (run_items db run) employer_tin tax_office None) db"

subsection \<open>Client\<close>

datatype client_export = Export_refused guard_outcome | Export_not_found | Reports_locked | Exported report

definition employer_name :: "user \<Rightarrow> import_db \<Rightarrow> payroll_run \<Rightarrow> string" where
  "employer_name u db run =
     (case run_client db run of
        Some c \<Rightarrow> cc_name c
      | None \<Rightarrow> (case Option.bind (active_tenant_id u) (client_of db) of Some c \<Rightarrow> cc_name c | None \<Rightarrow> ''Client''))"

definition client_report ::
  "user \<Rightarrow> int \<Rightarrow> string \<Rightarrow> (payroll_run \<Rightarrow> report) \<Rightarrow> import_db \<Rightarrow> import_db \<times> client_export" where
  "client_report u k action report_of db =
     (if tenant_required u \<noteq> Serve then (db, Export_refused (tenant_required u))
      else case tenant_get_or_404 u M_PayrollRun k (map run_row (sd_runs (send_of db))) of
             Inl _ \<Rightarrow> (db, Export_not_found)
           | Inr _ \<Rightarrow>
               (case find_run k (im_life db) of
                  None \<Rightarrow> (db, Export_not_found)
                | Some run \<Rightarrow>
                    if run_status run \<notin> set CLOSED_STATUSES then (db, Reports_locked)
                    else (db\<lparr>im_life := record_audit action k (im_life db)\<rparr>, Exported (report_of run))))"

definition download_payroll :: "user \<Rightarrow> string \<Rightarrow> int \<Rightarrow> import_db \<Rightarrow> import_db \<times> client_export" where
  "download_payroll u generated k db =
     client_report u k ''Client payroll export''
       (\<lambda>run. export_payroll_run generated (Some (employer_name u db run)) (run_client db run) run (run_items db run)) db"

definition download_bank_listing :: "user \<Rightarrow> string \<Rightarrow> int \<Rightarrow> import_db \<Rightarrow> import_db \<times> client_export" where
  "download_bank_listing u generated k db =
     client_report u k ''Client bank listing export''
       (\<lambda>run. export_bank_listing generated (Some (employer_name u db run)) (run_client db run) (im_item_text db) run
          (run_items db run)) db"

definition download_gra_paye :: "string option \<Rightarrow> user \<Rightarrow> string \<Rightarrow> int \<Rightarrow> import_db \<Rightarrow> import_db \<times> client_export" where
  "download_gra_paye form_title u generated k db =
     client_report u k ''Client GRA PAYE export''
       (\<lambda>run. export_gra_paye_schedule form_title generated (run_client db run) (im_item_text db) (employee_tin db) run
          (run_items db run) [] [] (Some (employer_name u db run))) db"

subsection \<open>The raw-hours engine\<close>

record raw_exports =
  rx_wages_sheet :: report
  rx_gra_paye :: report
  rx_bank_grouping :: report
  rx_pv :: report
  rx_icu_distribution :: report
  rx_banked_workers :: nat
  rx_pv_workers :: nat
  rx_banked_total :: rat
  rx_pv_total :: rat
  rx_routed_total :: rat
  rx_complete :: bool

definition generate_run_exports ::
  "string option \<Rightarrow> string \<Rightarrow> string list \<Rightarrow> import_db \<Rightarrow> payroll_run \<Rightarrow> raw_exports" where
  "generate_run_exports form_title generated whitelist db run =
     (let items = run_items db run; texts = im_item_text db; client = run_client db run;
          routing = route_payments texts whitelist items
      in \<lparr>rx_wages_sheet = export_wages_sheet generated client run items,
          rx_gra_paye = export_gra_paye_schedule form_title generated client texts (employee_tin db) run items [] [] None,
          rx_bank_grouping = export_bank_grouping generated client texts run routing,
          rx_pv = export_pv generated client texts run routing,
          rx_icu_distribution = export_icu_distribution generated client run items,
          rx_banked_workers = length (pr_banked routing), rx_pv_workers = length (pr_pv routing),
          rx_banked_total = banked_total routing, rx_pv_total = pv_total routing, rx_routed_total = routed_total routing,
          rx_complete = is_complete items routing\<rparr>)"

definition run_exports :: "string option \<Rightarrow> string list \<Rightarrow> user \<Rightarrow> string \<Rightarrow> int \<Rightarrow> import_db \<Rightarrow> raw_exports option reply" where
  "run_exports form_title whitelist u generated k db =
     snd (run_route (role_required RAW_ENGINE_ROLES u) k
       (\<lambda>run life. (life, if run_upload_type run = Some ''raw'' then Some (generate_run_exports form_title generated whitelist db run) else None))
       (im_life db))"

end
