(* ===== verification/ExportSafety.thy ===== *)
theory ExportSafety
  imports ExportRoutes RunTotals ImportSafety SendGuards
begin

text \<open>
  What the exported workbooks guarantee: no imported text becomes a formula; the bank listing and
  the transfer routing account for every row once and to the pesewa; and what an operator's
  download does to the run.
\<close>

subsection \<open>No cell is a formula\<close>

definition inert :: "cell \<Rightarrow> bool" where
  "inert v \<longleftrightarrow> (case v of Text_cell (c # _) \<Rightarrow> c \<notin> set FORMULA_TRIGGERS | _ \<Rightarrow> True)"

definition inert_grid :: "grid \<Rightarrow> bool" where
  "inert_grid g \<longleftrightarrow> (\<forall>x\<in>set g. inert (snd x))"

definition inert_report :: "report \<Rightarrow> bool" where
  "inert_report r \<longleftrightarrow> inert_grid (rp_cells r)"

lemma inert_simps [simp]:
  "inert (Number_cell x)" "inert None_cell" "inert (Text_cell [])" "inert (num_cell y)" "inert (escape_formula v)"
  by (simp_all add: inert_def num_cell_def escape_formula_def FORMULA_TRIGGERS_def split: cell.split option.split list.split)

lemma inert_text: "inert (Text_cell (c # cs)) \<longleftrightarrow> c \<notin> set FORMULA_TRIGGERS"
  by (simp add: inert_def)

lemma inert_grid_simps [simp]:
  "inert_grid []" "inert_grid ((rc, v) # g) \<longleftrightarrow> inert v \<and> inert_grid g" "inert_grid (g @ h) \<longleftrightarrow> inert_grid g \<and> inert_grid h"
  by (auto simp: inert_grid_def)

lemma inert_grid_map [simp]: "inert_grid (map (\<lambda>k. (f k, Number_cell (h k))) ks)"
  by (auto simp: inert_grid_def)

lemma row_from_inert [simp]: "inert_grid (row_from r c cells) \<longleftrightarrow> (\<forall>v\<in>set cells. inert v)"
  unfolding row_from_def by (induction cells arbitrary: c) auto

lemma rows_from_inert [simp]: "inert_grid (rows_from r rows) \<longleftrightarrow> (\<forall>row\<in>set rows. \<forall>v\<in>set row. inert v)"
proof (induction rows arbitrary: r)
  case (Cons row rows)
  have "rows_from r (row # rows) = row_from r 1 row @ rows_from (Suc r) rows" by (simp add: rows_from_def)
  then show ?case using Cons by simp
qed (simp add: rows_from_def)

lemma write_table_inert [simp]: "inert_grid (write_table r headers rows)"
  by (simp add: write_table_def)

lemma create_workbook_inert [simp]: "inert_grid (create_workbook title org generated)"
  by (simp add: create_workbook_def inert_text FORMULA_TRIGGERS_def)

lemma bank_blocks_inert [simp]: "inert_grid (fst (bank_blocks texts r gs))"
proof (induction gs arbitrary: r)
  case (Cons g gs)
  have "inert_grid (bank_block texts r g s)" for s
    by (auto simp: bank_block_def Let_def bank_row_def inert_text FORMULA_TRIGGERS_def NET_PAY_HEADER_def)
  then show ?case using Cons by (simp add: split_def Let_def)
qed simp

lemma digits_inert: "inert (Text_cell (digits n @ s))"
proof -
  have d: "list_all is_digit (digits n)" "digits n \<noteq> []" using digits_facts [of n] by auto
  obtain c cs where "digits n = c # cs" using d(2) by (cases "digits n") auto
  moreover have "is_digit c \<Longrightarrow> c \<notin> set FORMULA_TRIGGERS" for c by (auto simp: is_digit_def FORMULA_TRIGGERS_def)
  ultimately show ?thesis using d(1) by (simp add: inert_text)
qed

lemma month_code_inert:
  assumes "inert (Text_cell month)" "month \<noteq> []"
  shows "inert (Text_cell (gra_month_code month year))"
proof -
  have "inert (Text_cell (month @ s))" for s using assms by (cases month) (auto simp: inert_def)
  moreover have "inert (Text_cell (''0'' @ s))" for s by (simp add: inert_text FORMULA_TRIGGERS_def)
  ultimately show ?thesis using digits_inert by (auto simp: gra_month_code_def split: option.split)
qed

text \<open>
  C22: No exported workbook holds a formula from imported text.  In the payroll, the bank listing,
  the wages sheet, the import error report and the three raw-hours exports no cell's text begins
  with a character a spreadsheet takes for a formula, whatever names, staff ids, banks, branches,
  account numbers, notes, file and company names are stored; the same holds for the GRA schedule
  in both layouts provided the run's month, which it writes unescaped, does not begin with one.
  Amounts pass the escaping unchanged, as numbers.
\<close>

theorem exports_are_inert:
  "inert_report (export_payroll_run generated org client run items) \<and>
   inert_report (export_bank_listing generated org client texts run items) \<and>
   inert_report (export_wages_sheet generated client run items) \<and>
   inert_report (export_import_error_report generated payload) \<and>
   inert_report (export_bank_grouping generated client texts run routing) \<and>
   inert_report (export_pv generated client texts run routing) \<and>
   inert_report (export_icu_distribution generated client run items) \<and>
   (run_month run \<noteq> [] \<and> inert (Text_cell (run_month run)) \<longrightarrow>
     inert_report (export_gra_paye_schedule form generated client texts tin run items employer_tin office employer)) \<and>
   escape_formula (Number_cell x) = Number_cell x"
proof -
  note defs = inert_report_def Let_def split_def inert_text FORMULA_TRIGGERS_def
  have "inert_report (export_gra_paye_schedule form generated client texts tin run items employer_tin office employer)"
    if "run_month run \<noteq> []" "inert (Text_cell (run_month run))"
    using month_code_inert [OF that(2,1)]
    by (auto simp: export_gra_paye_schedule_def fill_gra_skeleton_workbook_def export_gra_summary_layout_def defs split: option.split)
  then show ?thesis
    by (simp add: export_payroll_run_def export_bank_listing_def export_wages_sheet_def export_import_error_report_def
        export_bank_grouping_def export_pv_def export_icu_distribution_def defs) (simp add: escape_formula_def)
qed

definition formula_item :: payroll_item where
  "formula_item = (item_with no_inputs)\<lparr>item_full_name := Some ''=1+1''\<rparr>"

text \<open>A worker named \<open>=1+1\<close> in the schedule of January.\<close>

lemma exports_are_inert_witness:
  "inert_report (export_gra_paye_schedule (Some ''PAYE'') [] None (\<lambda>_ _. None) (\<lambda>_. None) (sample_run APPROVED 1) [formula_item]
     ''C1'' ''LTO'' None) \<and>
   escape_formula (opt_cell (item_full_name formula_item)) = Text_cell [CHR 0x27, CHR ''='', CHR ''1'', CHR ''+'', CHR ''1'']"
proof -
  have "run_month (sample_run APPROVED 1) = ''January''" by (simp add: sample_run_def)
  then have "run_month (sample_run APPROVED 1) \<noteq> [] \<and> inert (Text_cell (run_month (sample_run APPROVED 1)))"
    by (simp add: inert_text FORMULA_TRIGGERS_def)
  with exports_are_inert [of "[]" None None "sample_run APPROVED 1" "[formula_item]" "\<lambda>_ _. None" None undefined "Some ''PAYE''"
        "\<lambda>_. None" "''C1''" "''LTO''" None 0]
  have "inert_report (export_gra_paye_schedule (Some ''PAYE'') [] None (\<lambda>_ _. None) (\<lambda>_. None) (sample_run APPROVED 1) [formula_item]
     ''C1'' ''LTO'' None)" by blast
  moreover have "escape_formula (opt_cell (item_full_name formula_item)) = Text_cell [CHR 0x27, CHR ''='', CHR ''1'', CHR ''+'', CHR ''1'']"
    by (simp add: formula_item_def opt_cell_def escape_formula_def FORMULA_TRIGGERS_def)
  ultimately show ?thesis by simp
qed

subsection \<open>The bank listing\<close>

lemma buckets_snoc: "buckets key (xs @ [x]) = append_to (key x) x (buckets key xs)"
  by (simp add: buckets_def)

lemma buckets_lookup: "map_of (buckets key xs) k = (let mine = filter (\<lambda>x. key x = k) xs in if mine = [] then None else Some mine)"
proof (induction xs rule: rev_induct)
  case (snoc x xs)
  then show ?case by (auto simp: buckets_snoc append_to_lookup Let_def)
qed (simp add: buckets_def)

lemma buckets_distinct: "distinct (map fst (buckets key xs))"
proof (induction xs rule: rev_induct)
  case (snoc x xs)
  then show ?case by (auto simp: buckets_snoc append_to_keys)
qed (simp add: buckets_def)

lemma buckets_entry: "(k, mine) \<in> set (buckets key xs) \<longleftrightarrow> mine = filter (\<lambda>x. key x = k) xs \<and> mine \<noteq> []"
  using map_of_eq_Some_iff [OF buckets_distinct, of key xs k mine] by (auto simp: buckets_lookup Let_def split: if_splits)

lemma mset_append_to: "mset (concat (map snd (append_to k v d))) = add_mset v (mset (concat (map snd d)))"
  by (induction d) auto

lemma mset_buckets: "mset (concat (map snd (buckets key xs))) = mset xs"
proof (induction xs rule: rev_induct)
  case (snoc x xs)
  then show ?case by (simp add: buckets_snoc mset_append_to)
qed (simp add: buckets_def)

lemma mset_concat_cong: "map mset xss = map mset yss \<Longrightarrow> mset (concat xss) = mset (concat yss)"
  by (metis mset_concat)

lemma column_concat: "sum_list (map (\<lambda>xs. column_pesewas xs f) xss) = column_pesewas (concat xss) f"
  by (induction xss) (simp_all add: column_pesewas_def)

lemma column_mset:
  assumes "mset xs = mset ys"
  shows "column_pesewas xs f = column_pesewas ys f"
proof -
  have "mset (map h xs) = mset (map h ys)" for h :: "payroll_item \<Rightarrow> int" using assms by simp
  then have "sum_list (map h xs) = sum_list (map h ys)" for h :: "payroll_item \<Rightarrow> int"
    by (simp only: sum_mset_sum_list [symmetric])
  then show ?thesis by (simp add: column_pesewas_def)
qed

lemma by_name_members [simp]: "set (by_name xs) = set xs" "length (by_name xs) = length xs" "mset (by_name xs) = mset xs"
  by (simp_all add: by_name_def)

lemma by_name_empty [simp]: "by_name xs = [] \<longleftrightarrow> xs = []"
  by (metis by_name_members(2) length_0_conv)

definition paid_amounts :: "payroll_item list \<Rightarrow> bool" where
  "paid_amounts items \<longleftrightarrow> list_all (\<lambda>i. amt (4 * 10 ^ 8) (col i ''net_pay'')) items \<and> length items \<le> 490"

lemma paid_total:
  assumes "paid_amounts items"
  shows "py_round2 (net_total items) = cedi (column_pesewas items ''net_pay'')"
    "pesewas (py_round2 (net_total items)) = column_pesewas items ''net_pay''"
proof -
  let ?xs = "map (\<lambda>i. col i ''net_pay'') items"
  have "list_all (amt (4 * 10 ^ 8)) ?xs" "length ?xs \<le> 490" using assms by (simp_all add: paid_amounts_def list_all_iff)
  note total = column_total [OF this]
  show t: "py_round2 (net_total items) = cedi (column_pesewas items ''net_pay'')"
    using total(1) by (simp add: net_total_def column_pesewas_def o_def)
  have "\<bar>column_pesewas items ''net_pay''\<bar> \<le> max_pesewas" using total(2) by (simp add: column_pesewas_def o_def)
  then show "pesewas (py_round2 (net_total items)) = column_pesewas items ''net_pay''" by (simp add: t pesewas_cedi)
qed

lemma paid_part: "paid_amounts items \<Longrightarrow> set mine \<subseteq> set items \<Longrightarrow> length mine \<le> length items \<Longrightarrow> paid_amounts mine"
  by (auto simp: paid_amounts_def list_all_iff)

text \<open>
  C20: The bank listing pays every worker once, and to the pesewa.  Its groups are in strict
  alphabetical order of banks, none is empty, and together they hold exactly the rows of the run,
  each once and under its own bank (workers without one under a group of their own).  For up to
  490 workers with net pays in whole pesewas below four million cedis, each subtotal is the exact
  sum of its group, the subtotals add up to the grand total, and the grand total is the net total
  the calculation stores for the run.
\<close>

theorem bank_listing_reconciles:
  assumes "bank_listing_groups texts items = (groups, grand_total)"
  shows "sorted_wrt (<) (map bg_bank groups) \<and> mset (concat (map bg_items groups)) = mset items \<and>
    (\<forall>g\<in>set groups. bg_items g \<noteq> [] \<and> (\<forall>i\<in>set (bg_items g). bank_of texts i = bg_bank g)) \<and>
    (items_of (run_id run) items = items \<longrightarrow> run_total_net_pay (refresh_run_totals items run) = Some grand_total) \<and>
    (paid_amounts items \<longrightarrow>
       (\<forall>g\<in>set groups. bg_subtotal g = cedi (column_pesewas (bg_items g) ''net_pay'')) \<and>
       sum_list (map (pesewas \<circ> bg_subtotal) groups) = pesewas grand_total \<and>
       grand_total = cedi (column_pesewas items ''net_pay''))"
proof -
  define bs where "bs = sort_key fst (buckets (bank_of texts) items)"
  have groups: "groups = map (\<lambda>(bank, mine). \<lparr>bg_bank = bank, bg_items = by_name mine, bg_subtotal = py_round2 (net_total (by_name mine))\<rparr>) bs"
    and total: "grand_total = py_round2 (net_total items)"
    using assms by (simp_all add: bank_listing_groups_def bs_def)
  have banks: "map bg_bank groups = map fst bs" and members: "map bg_items groups = map (by_name \<circ> snd) bs"
    by (simp_all add: groups split_def)
  have perm: "mset bs = mset (buckets (bank_of texts) items)" by (simp add: bs_def)
  then have "distinct (map fst bs)" using buckets_distinct [of "bank_of texts" items] by (metis mset_eq_imp_distinct_iff mset_map)
  then have sorted: "sorted_wrt (<) (map bg_bank groups)" unfolding banks bs_def by (simp add: strict_sorted_iff)
  have "mset (concat (map bg_items groups)) = mset (concat (map snd bs))"
    unfolding members by (rule mset_concat_cong) simp
  also have "\<dots> = mset (concat (map snd (buckets (bank_of texts) items)))"
    using perm unfolding mset_concat by (metis mset_map sum_mset_sum_list)
  finally have all: "mset (concat (map bg_items groups)) = mset items" by (simp add: mset_buckets)
  have entry: "mine = filter (\<lambda>i. bank_of texts i = bank) items \<and> mine \<noteq> []" if "(bank, mine) \<in> set bs" for bank mine
    using that mset_eq_setD [OF perm] buckets_entry [of bank mine "bank_of texts" items] by auto
  have own: "\<forall>g\<in>set groups. bg_items g \<noteq> [] \<and> (\<forall>i\<in>set (bg_items g). bank_of texts i = bg_bank g)"
    unfolding groups by (auto dest!: entry)
  have exact: "bg_subtotal g = cedi (column_pesewas (bg_items g) ''net_pay'') \<and> pesewas (bg_subtotal g) = column_pesewas (bg_items g) ''net_pay''"
    if member: "g \<in> set groups" and paid: "paid_amounts items" for g
  proof -
    obtain bank mine where g: "(bank, mine) \<in> set bs" "g = \<lparr>bg_bank = bank, bg_items = by_name mine, bg_subtotal = py_round2 (net_total (by_name mine))\<rparr>"
      using member unfolding groups by force
    have "set (by_name mine) \<subseteq> set items" "length (by_name mine) \<le> length items"
      using entry [OF g(1)] by auto
    then show ?thesis using paid_total [OF paid_part [OF paid]] by (simp add: g(2))
  qed
  have "sum_list (map (pesewas \<circ> bg_subtotal) groups) = pesewas grand_total" if "paid_amounts items"
  proof -
    have "map (pesewas \<circ> bg_subtotal) groups = map (\<lambda>xs. column_pesewas xs ''net_pay'') (map bg_items groups)"
      using exact [THEN conjunct2] that by simp
    then have "sum_list (map (pesewas \<circ> bg_subtotal) groups) = column_pesewas (concat (map bg_items groups)) ''net_pay''"
      by (simp only: column_concat)
    then show ?thesis using column_mset [OF all] paid_total(2) [OF that] by (simp add: total)
  qed
  then show ?thesis
    using sorted all own exact paid_total(1) by (auto simp: total refresh_run_totals_def Let_def net_total_def)
qed

definition paid_item :: "int \<Rightarrow> int \<Rightarrow> payroll_item" where
  "paid_item k p = (item_with no_inputs)\<lparr>item_id := k, item_money := [''net_pay'' \<mapsto> cedi p]\<rparr>"

definition two_workers :: "payroll_item list" where
  "two_workers = [paid_item 1 125050, paid_item 2 80025]"

definition two_texts :: item_texts where
  "two_texts k f = (if k = 2 then Some (if f = ''bank_name'' then '' GCB '' else ''10051'') else None)"

lemma two_workers_paid: "paid_amounts two_workers" "column_pesewas two_workers ''net_pay'' = 205075"
  by (auto simp: paid_amounts_def two_workers_def paid_item_def col_def num_or_0_def column_pesewas_def pesewas_cedi
      intro: amt_cedi)

text \<open>A worker without a bank and one at GCB: 1250.50 and 800.25 cedis.\<close>

lemma bank_listing_reconciles_witness:
  "snd (bank_listing_groups two_texts two_workers) = cedi 205075 \<and>
   sum_list (map (pesewas \<circ> bg_subtotal) (fst (bank_listing_groups two_texts two_workers))) = 205075"
  using bank_listing_reconciles [of two_texts two_workers "fst (bank_listing_groups two_texts two_workers)"
      "snd (bank_listing_groups two_texts two_workers)" "sample_run APPROVED 1"] two_workers_paid
  by (simp add: pesewas_cedi)

subsection \<open>Transfer or cash\<close>

lemma route_payments_filter:
  "route_payments texts whitelist items =
     \<lparr>pr_banked = filter (banked_item texts whitelist) items, pr_pv = filter (\<lambda>i. \<not> banked_item texts whitelist i) items\<rparr>"
  unfolding route_payments_def by (induction items rule: rev_induct) simp_all

lemma money_total:
  assumes "paid_amounts items"
  shows "money (net_total items) = cedi (column_pesewas items ''net_pay'')" "\<bar>column_pesewas items ''net_pay''\<bar> \<le> 196000000000"
proof -
  let ?xs = "map (\<lambda>i. col i ''net_pay'') items"
  have p: "list_all (amt (4 * 10 ^ 8)) ?xs" "length ?xs \<le> 490" using assms by (simp_all add: paid_amounts_def list_all_iff)
  then have l: "(of_nat (length ?xs) :: rat) \<le> 490" "int (length ?xs) * (4 * 10 ^ 8) \<le> 490 * (4 * 10 ^ 8)"
    by (metis of_nat_le_iff of_nat_numeral) (use p(2) in simp)
  have same: "sum_list (map pesewas ?xs) = column_pesewas items ''net_pay''" by (simp add: column_pesewas_def o_def)
  show bound: "\<bar>column_pesewas items ''net_pay''\<bar> \<le> 196000000000" using column_total(2) [OF p] by (simp only: same)
  have "apx (1 + 2 * of_nat (length ?xs)) (fsum 0 ?xs) (0 + sum_list (map pesewas ?xs))"
    using l p by (intro apx_fsum [of _ _ _ "4 * 10 ^ 8"] apx_cedi [of 0, simplified]) auto
  then show "money (net_total items) = cedi (column_pesewas items ''net_pay'')"
    using l(1) bound unfolding same net_total_def by (intro money_apx) auto
qed

lemma column_filter:
  "column_pesewas (filter P items) f + column_pesewas (filter (\<lambda>i. \<not> P i) items) f = column_pesewas items f"
  by (induction items) (auto simp: column_pesewas_def)

text \<open>
  C21: Nobody is left unpaid or paid twice by the raw-hours exports.  A worker goes to the bank
  transfers exactly when an account number is on record at a bank of the whitelist (compared
  without regard to case and runs of spaces), and to the cash vouchers otherwise; the two lists
  together hold each row of the run once, and the completeness check accepts every routing the
  code makes for rows with distinct ids.  For up to 490 workers with net pays in whole pesewas
  below four million cedis, the transfer and the cash totals are the exact sums of their lists and
  add up exactly to the run's net pay.
\<close>

theorem routing_is_complete:
  assumes "route_payments texts whitelist items = routing"
  shows "pr_banked routing = filter (banked_item texts whitelist) items \<and>
    mset (pr_banked routing) + mset (pr_pv routing) = mset items \<and>
    (distinct (map item_id items) \<longrightarrow> is_complete items routing) \<and>
    (paid_amounts items \<longrightarrow>
       banked_total routing = cedi (column_pesewas (pr_banked routing) ''net_pay'') \<and>
       pv_total routing = cedi (column_pesewas (pr_pv routing) ''net_pay'') \<and>
       routed_total routing = cedi (column_pesewas items ''net_pay''))"
proof -
  have r: "pr_banked routing = filter (banked_item texts whitelist) items"
    "pr_pv routing = filter (\<lambda>i. \<not> banked_item texts whitelist i) items"
    using assms by (auto simp: route_payments_filter)
  have "is_complete items routing" if "distinct (map item_id items)"
  proof -
    have "i = j" if "i \<in> set items" "j \<in> set items" "item_id i = item_id j" for i j
      using \<open>distinct (map item_id items)\<close> that by (auto simp: distinct_map dest: inj_onD)
    then show ?thesis by (auto simp: is_complete_def r list_all_iff)
  qed
  moreover have "banked_total routing = cedi (column_pesewas (pr_banked routing) ''net_pay'') \<and>
       pv_total routing = cedi (column_pesewas (pr_pv routing) ''net_pay'') \<and>
       routed_total routing = cedi (column_pesewas items ''net_pay'')" if p: "paid_amounts items"
  proof -
    have parts: "paid_amounts (pr_banked routing)" "paid_amounts (pr_pv routing)"
      unfolding r by (rule paid_part [OF p]; simp)+
    note totals = money_total [OF parts(1)] money_total [OF parts(2)] money_total [OF p]
    have sum: "column_pesewas (pr_banked routing) ''net_pay'' + column_pesewas (pr_pv routing) ''net_pay'' = column_pesewas items ''net_pay''"
      unfolding r by (rule column_filter)
    have "apx (1 + 1 + 1) (fadd (cedi (column_pesewas (pr_banked routing) ''net_pay'')) (cedi (column_pesewas (pr_pv routing) ''net_pay'')))
       (column_pesewas (pr_banked routing) ''net_pay'' + column_pesewas (pr_pv routing) ''net_pay'')"
      using totals(2,4,6) by (intro apx_fadd apx_cedi) (simp_all add: sum)
    then have "money (fadd (banked_total routing) (pv_total routing)) = cedi (column_pesewas items ''net_pay'')"
      using totals by (intro money_apx [of "1 + 1 + 1"]) (simp_all add: banked_total_def pv_total_def sum)
    then show ?thesis by (simp add: banked_total_def pv_total_def routed_total_def totals)
  qed
  moreover have "mset (pr_banked routing) + mset (pr_pv routing) = mset items"
    unfolding r mset_filter by (rule multiset_partition [symmetric])
  ultimately show ?thesis by (simp add: r)
qed

text \<open>With GCB on the whitelist the second worker is paid by transfer, the first in cash.\<close>

lemma routing_is_complete_witness:
  "is_complete two_workers (route_payments two_texts [''gcb''] two_workers) \<and>
   routed_total (route_payments two_texts [''gcb''] two_workers) = cedi 205075"
  using routing_is_complete [OF refl, of two_texts "[''gcb'']" two_workers] two_workers_paid
  by (simp add: two_workers_def paid_item_def)

subsection \<open>What a download changes\<close>

definition audited :: "int \<Rightarrow> import_db \<Rightarrow> import_db \<Rightarrow> bool" where
  "audited k db db' \<longleftrightarrow> (\<exists>action. db' = db\<lparr>im_life := record_audit action k (im_life db)\<rparr>)"

lemma set_run_same: "set_run k (\<lambda>r. r) life = life"
  by (simp add: set_run_def map_send_def update_row_def)

lemma reading_report: "operator_report u k action (\<lambda>r. r) f db = (db', reply) \<Longrightarrow> db' = db \<or> audited k db db'"
  by (auto simp: operator_report_def run_route_def set_run_same audited_def split: if_splits option.splits)

lemma client_report_effect:
  assumes "client_report u k action f db = (db', reply)"
  shows "(db' = db \<or> audited k db db') \<and>
    (\<forall>rep. reply = Exported rep \<longrightarrow> (\<exists>run. find_run k (im_life db) = Some run \<and> rep = f run \<and> run_status run \<in> set CLOSED_STATUSES \<and>
       user_company u \<noteq> None \<and> run_client_company_id run = user_company u))"
proof (cases "\<exists>rep. reply = Exported rep")
  case False
  with assms show ?thesis by (auto simp: client_report_def split: if_splits sum.splits option.splits)
next
  case True
  with assms have tenant: "active_tenant_id u \<noteq> None" by (auto simp: client_report_def tenant_required_def split: if_splits)
  from True assms obtain row where row: "tenant_get_or_404 u M_PayrollRun k (map run_row (sd_runs (send_of db))) = Inr row"
    by (auto simp: client_report_def split: if_splits sum.splits)
  obtain run where "find_run k (im_life db) = Some run" "run_client_company_id run = user_company u" "user_company u \<noteq> None"
    using tenant_owns [OF tenant row] by (auto simp: find_run_def runs_in_def send_of_def)
  with assms row True show ?thesis by (auto simp: client_report_def audited_def split: if_splits)
qed

definition client_downloads ::
  "string option \<Rightarrow> user \<Rightarrow> string \<Rightarrow> int \<Rightarrow> import_db \<Rightarrow> (import_db \<times> client_export) list" where
  "client_downloads form u generated k db =
     [download_payroll u generated k db, download_bank_listing u generated k db, download_gra_paye form u generated k db]"

definition operator_downloads ::
  "string option \<Rightarrow> string \<Rightarrow> string \<Rightarrow> user \<Rightarrow> string \<Rightarrow> int \<Rightarrow> import_db \<Rightarrow> (import_db \<times> report reply) list" where
  "operator_downloads form tin office u generated k db =
     [export_bank_listing_route u generated k db, export_wages_sheet_route u generated k db,
      export_gra_paye_route form tin office u generated k db]"

text \<open>
  C23: What a download does to the payroll.  A client's download serves only a run of the client's
  own company that is approved or processed, and changes nothing but the audit log.  The
  operator's bank listing, wages sheet and GRA schedule change nothing but the audit log either;
  but the operator's payroll export, a plain page request for which a payroll role is enough,
  sets any run to PROCESSED, whatever its status: a draft that nobody approved, or a held run, is
  closed by it and from then on may be distributed by whoever exported it.
\<close>

theorem downloads_and_status:
  assumes "find_run k (im_life db) = Some run"
  shows "(\<forall>(db', reply)\<in>set (client_downloads form u generated k db). (db' = db \<or> audited k db db') \<and>
       (\<forall>rep. reply = Exported rep \<longrightarrow> run_status run \<in> set CLOSED_STATUSES \<and>
          user_company u \<noteq> None \<and> run_client_company_id run = user_company u)) \<and>
    (\<forall>(db', reply)\<in>set (operator_downloads form tin office u generated k db). db' = db \<or> audited k db db') \<and>
    (role_required PAYROLL_ROLES u = Serve \<longrightarrow>
      (\<exists>db' rep. export u generated k db = (db', Served rep) \<and>
        find_run k (im_life db') = Some (run\<lparr>run_status := PROCESSED\<rparr>) \<and>
        (\<forall>j. j \<noteq> k \<longrightarrow> find_run j (im_life db') = find_run j (im_life db)) \<and>
        can_distribute_run (user_role u) (run\<lparr>run_status := PROCESSED\<rparr>)))"
proof (intro conjI impI)
  let ?served = "\<lambda>(db', reply). (db' = db \<or> audited k db db') \<and>
       (\<forall>rep. reply = Exported rep \<longrightarrow> run_status run \<in> set CLOSED_STATUSES \<and>
          user_company u \<noteq> None \<and> run_client_company_id run = user_company u)"
  have client: "?served (client_report u k action f db)" for action f
    using client_report_effect [of u k action f db] assms by (cases "client_report u k action f db") auto
  show "\<forall>x\<in>set (client_downloads form u generated k db). ?served x"
    unfolding client_downloads_def download_payroll_def download_bank_listing_def download_gra_paye_def
    by (simp only: list.set ball_simps client simp_thms)
  have operator: "case operator_report u k action (\<lambda>r. r) f db of (db', reply) \<Rightarrow> db' = db \<or> audited k db db'" for action f
    using reading_report [of u k action f db] by (cases "operator_report u k action (\<lambda>r. r) f db") auto
  show "\<forall>(db', reply)\<in>set (operator_downloads form tin office u generated k db). db' = db \<or> audited k db db'"
    unfolding operator_downloads_def export_bank_listing_route_def export_wages_sheet_route_def export_gra_paye_route_def
    by (simp only: list.set ball_simps operator simp_thms)
  assume role: "role_required PAYROLL_ROLES u = Serve"
  then have "normalise_role (user_role u) \<in> set (map (\<lambda>r. normalise_role (Some r)) PAYROLL_ROLES)"
    by (auto simp: role_required_def split: if_splits)
  moreover have "map (\<lambda>r. normalise_role (Some r)) PAYROLL_ROLES = PAYROLL_ROLES"
    by (simp add: capability_defs normalise_role_def text_or_def LEGACY_ROLE_ALIASES_def role_defs text_eval)
  ultimately have "in_group (user_role u) PAYROLL_ROLES" by (simp add: in_group_def)
  then have "can_distribute_run (user_role u) (run\<lparr>run_status := PROCESSED\<rparr>)"
    by (simp add: can_distribute_run_def SENDABLE_STATUSES_def)
  then show "\<exists>db' rep. export u generated k db = (db', Served rep) \<and>
        find_run k (im_life db') = Some (run\<lparr>run_status := PROCESSED\<rparr>) \<and>
        (\<forall>j. j \<noteq> k \<longrightarrow> find_run j (im_life db') = find_run j (im_life db)) \<and>
        can_distribute_run (user_role u) (run\<lparr>run_status := PROCESSED\<rparr>)"
    using role assms by (simp add: export_def operator_report_def run_route_def find_set_run)
qed

text \<open>A draft that nobody approved, exported by an administrator.\<close>

lemma downloads_and_status_witness:
  "\<exists>db' rep. export an_admin [] 1 (stored_import [sample_run DRAFT 1] None (Single_client ama_sheet)) = (db', Served rep) \<and>
     map_option run_status (find_run 1 (im_life db')) = Some PROCESSED"
proof -
  have "find_run 1 (im_life (stored_import [sample_run DRAFT 1] None (Single_client ama_sheet))) = Some (sample_run DRAFT 1)"
    by (simp add: find_run_def runs_in_def stored_import_def empty_life_def sample_run_def)
  moreover have "role_required PAYROLL_ROLES an_admin = Serve"
    by (simp add: role_required_def an_admin_def capability_defs normalise_role_def text_or_def LEGACY_ROLE_ALIASES_def role_defs text_eval)
  ultimately show ?thesis using downloads_and_status [of 1 _ "sample_run DRAFT 1" None an_admin "[]" "[]" "[]"] by fastforce
qed

end
