(* ===== verification/ScheduleSafety.thy ===== *)
theory ScheduleSafety
  imports Exports RunTotals
begin

text \<open>
  The GRA schedule against the calculator: every column the schedule recomputes from a stored
  row (ordinary PAYE, bonus concession, cash allowances, assessable income, reliefs) is an exact
  sum of what the calculator stored, under either deduction policy.
\<close>

subsection \<open>The schedule's rounding\<close>

lemma apx_fsum_cedi:
  assumes "list_all (\<lambda>c. \<bar>c\<bar> \<le> 13000000000) (x # ys)" "length ys \<le> 13"
  shows "apx (1 + 2 * of_nat (length ys)) (fsum (cedi x) (map cedi ys)) (x + sum_list ys)"
proof -
  have "(of_nat (length ys) :: rat) \<le> 13" using assms(2) by (metis of_nat_le_iff of_nat_numeral)
  then have "apx (1 + 2 * of_nat (length (map cedi ys))) (fsum (cedi x) (map cedi ys)) (x + sum_list (map pesewas (map cedi ys)))"
    using assms(1) list_all_amt_cedi [of 13000000000 ys] length_bound [of ys] assms(2)
    by (intro apx_fsum [of _ _ _ 13000000000] apx_cedi) auto
  then show ?thesis using pesewas_map_cedi [of 13000000000 ys] assms(1) by simp
qed

lemma py_round2_fsum_cedi:
  assumes "list_all (\<lambda>c. \<bar>c\<bar> \<le> 13000000000) (x # ys)" "length ys \<le> 13"
  shows "py_round2 (fsum (cedi x) (map cedi ys)) = cedi (x + sum_list ys)"
proof -
  have "(of_nat (length ys) :: rat) \<le> 13" using assms(2) by (metis of_nat_le_iff of_nat_numeral)
  then show ?thesis by (intro py_round2_apx [OF apx_fsum_cedi [OF assms]]) simp
qed

lemma py_round2_cedi: "\<bar>c\<bar> \<le> max_pesewas \<Longrightarrow> py_round2 (cedi c) = cedi c"
  by (intro py_round2_apx [OF apx_cedi]) auto

lemma py_round2_fsub_cedi:
  assumes "\<bar>a\<bar> \<le> 13000000000" "\<bar>b\<bar> \<le> 13000000000" "\<bar>c\<bar> \<le> 13000000000"
  shows "py_round2 (fsub (fsub (cedi a) (cedi b)) (cedi c)) = cedi (a - b - c)"
proof -
  have ab: "\<bar>a - b\<bar> \<le> 26000000000" "\<bar>a - b - c\<bar> \<le> 39000000000" using assms by linarith+
  have "apx (1 + 1 + 1) (fsub (cedi a) (cedi b)) (a - b)"
    using assms ab by (intro apx_fsub apx_cedi) auto
  then have "apx (1 + 1 + 1 + 1 + 1) (fsub (fsub (cedi a) (cedi b)) (cedi c)) (a - b - c)"
    using assms ab by (intro apx_fsub apx_cedi) auto
  then show ?thesis by (rule py_round2_apx) simp
qed

lemma max_0_dist: "\<bar>max x 0 - max y 0\<bar> \<le> \<bar>x - y\<bar>" for x y :: rat
  by (auto simp: max_def abs_if)

lemma apx_max_0:
  assumes "apx k x c"
  shows "apx k (max x 0) (max c 0)"
proof -
  have "max (of_int c / 100) 0 = (of_int (max c 0) / 100 :: rat)" by (simp add: max_def)
  then have "\<bar>max x 0 - of_int (max c 0) / 100\<bar> \<le> \<bar>x - of_int c / 100\<bar>" using max_0_dist [of x "of_int c / 100"] by (simp only:)
  moreover have "fl (max x 0) = max x 0" using assms fl_of_int [of 0] by (simp add: apx_def max_def)
  ultimately show ?thesis using assms by (simp add: apx_def)
qed

lemma py_round2_concession:
  assumes "\<bar>a\<bar> \<le> 10 ^ 9" "\<bar>b\<bar> \<le> 10 ^ 9" "\<bar>c\<bar> \<le> 10 ^ 9"
  shows "py_round2 (max (fsub (fadd (cedi a) (cedi b)) (cedi c)) 0) = cedi (max 0 (a + b - c))"
proof -
  have ab: "\<bar>a + b\<bar> \<le> 2 * 10 ^ 9" "\<bar>a + b - c\<bar> \<le> 3 * 10 ^ 9" using assms by linarith+
  have "apx (1 + 1 + 1) (fadd (cedi a) (cedi b)) (a + b)" using assms ab by (intro apx_fadd apx_cedi) auto
  then have "apx (1 + 1 + 1 + 1 + 1) (fsub (fadd (cedi a) (cedi b)) (cedi c)) (a + b - c)"
    using assms ab by (intro apx_fsub apx_cedi) auto
  from py_round2_apx [OF apx_max_0 [OF this]] show ?thesis by (simp add: max.commute)
qed

subsection \<open>The figures of a row\<close>

text \<open>Columns of a stored row, in pesewas, and their exact sum.\<close>

definition pesewas_of :: "payroll_item \<Rightarrow> string list \<Rightarrow> int" where
  "pesewas_of row fs = sum_list (map (\<lambda>f. pesewas (col row f)) fs)"

definition CASH_FIELDS :: "string list" where
  "CASH_FIELDS = [''transport_allowance'', ''housing_allowance'', ''medical_allowance'', ''meal_allowance'', ''other_allowances'',
     ''pay_difference'']"

text \<open>Whole pesewas: ten million cedis for a component, 130 million for an aggregate.\<close>

definition schedule_row :: "payroll_item \<Rightarrow> bool" where
  "schedule_row row \<longleftrightarrow>
     list_all (\<lambda>f. amt (10 ^ 9) (col row f))
       (CASH_FIELDS @ [''basic_salary'', ''productivity_bonus'', ''end_of_year_bonus'', ''bonus_excess'', ''bonus_tax'', ''overtime_tax'',
          ''overtime_ordinary_pay'', ''pf_employer_taxable'', ''pf_allowable_employee'', ''pf_fund_employee'', ''ssnit'']) \<and>
     list_all (\<lambda>f. amt 13000000000 (col row f)) [''paye'', ''gross_pay'', ''tax_relief_applied'']"

lemma common_figures:
  "gf_ordinary_paye (gra_figures_of row) = py_round2 (fsub (fsub (col row ''paye'') (col row ''overtime_tax'')) (col row ''bonus_tax''))"
  "gf_bonus_concession (gra_figures_of row) =
    py_round2 (max (fsub (fadd (col row ''productivity_bonus'') (col row ''end_of_year_bonus'')) (col row ''bonus_excess'')) 0)"
  by (simp_all add: gra_figures_of_def Let_def)

lemma strict_figures:
  assumes "strict_item row"
  shows "gf_cash_allowances (gra_figures_of row) =
      py_round2 (fsum (py_round2 (fsum (col row ''transport_allowance'') (map (col row) [''housing_allowance'', ''medical_allowance'',
          ''meal_allowance'', ''other_allowances'', ''pay_difference''])))
        [py_round2 (col row ''overtime_ordinary_pay''), col row ''pf_employer_taxable''])"
    "gf_assessable_income (gra_figures_of row) =
      py_round2 (fsum (col row ''basic_salary'') [gf_cash_allowances (gra_figures_of row), col row ''bonus_excess''])"
    "gf_allowed_pf (gra_figures_of row) = py_round2 (col row ''pf_allowable_employee'')"
    "gf_relief_applied (gra_figures_of row) = Some (py_round2 (col row ''tax_relief_applied''))"
    "gf_total_reliefs (gra_figures_of row) = py_round2 (fsum (col row ''ssnit'')
      [gf_allowed_pf (gra_figures_of row), py_round2 (col row ''tax_relief_applied'')])"
  using assms by (simp_all add: gra_figures_of_def Let_def num_or_0_def)

lemma legacy_figures:
  assumes "\<not> strict_item row"
  shows "gf_cash_allowances (gra_figures_of row) =
      py_round2 (fsum (col row ''transport_allowance'') (map (col row) [''housing_allowance'', ''medical_allowance'',
          ''meal_allowance'', ''other_allowances'', ''pay_difference'']))"
    "gf_assessable_income (gra_figures_of row) = py_round2 (col row ''gross_pay'')"
    "gf_allowed_pf (gra_figures_of row) = py_round2 (col row ''pf_fund_employee'')"
    "gf_relief_applied (gra_figures_of row) = None"
    "gf_total_reliefs (gra_figures_of row) = py_round2 (fsum (col row ''ssnit'') [gf_allowed_pf (gra_figures_of row), 0])"
  using assms by (simp_all add: gra_figures_of_def Let_def num_or_0_def)

lemma schedule_cols_cedi:
  assumes "schedule_row row" "n = (\<lambda>f. pesewas (col row f))"
  shows "f \<in> set (CASH_FIELDS @ [''basic_salary'', ''productivity_bonus'', ''end_of_year_bonus'', ''bonus_excess'', ''bonus_tax'',
      ''overtime_tax'', ''overtime_ordinary_pay'', ''pf_employer_taxable'', ''pf_allowable_employee'', ''pf_fund_employee'', ''ssnit'']) \<Longrightarrow>
      col row f = cedi (n f) \<and> \<bar>n f\<bar> \<le> 10 ^ 9"
    "f \<in> set [''paye'', ''gross_pay'', ''tax_relief_applied''] \<Longrightarrow> col row f = cedi (n f) \<and> \<bar>n f\<bar> \<le> 13000000000"
  using assms amtE [of "10 ^ 9" "col row f"] amtE [of 13000000000 "col row f"] by (auto simp: schedule_row_def list_all_iff)

text \<open>Every figure the schedule computes is exact, under either policy.\<close>

lemma schedule_figures:
  assumes "schedule_row row"
  shows "gf_ordinary_paye (gra_figures_of row) = cedi (pesewas_of row [''paye''] - pesewas_of row [''overtime_tax'', ''bonus_tax''])"
    "gf_bonus_concession (gra_figures_of row) =
      cedi (max 0 (pesewas_of row [''productivity_bonus'', ''end_of_year_bonus''] - pesewas_of row [''bonus_excess'']))"
    "strict_item row \<Longrightarrow> gf_cash_allowances (gra_figures_of row) =
      cedi (pesewas_of row (CASH_FIELDS @ [''overtime_ordinary_pay'', ''pf_employer_taxable'']))"
    "strict_item row \<Longrightarrow> gf_assessable_income (gra_figures_of row) =
      cedi (pesewas_of row (''basic_salary'' # CASH_FIELDS @ [''overtime_ordinary_pay'', ''pf_employer_taxable'', ''bonus_excess'']))"
    "strict_item row \<Longrightarrow> gf_total_reliefs (gra_figures_of row) =
      cedi (pesewas_of row [''ssnit'', ''pf_allowable_employee'', ''tax_relief_applied''])"
    "\<not> strict_item row \<Longrightarrow> gf_cash_allowances (gra_figures_of row) = cedi (pesewas_of row CASH_FIELDS)"
    "\<not> strict_item row \<Longrightarrow> gf_assessable_income (gra_figures_of row) = cedi (pesewas_of row [''gross_pay''])"
    "\<not> strict_item row \<Longrightarrow> gf_total_reliefs (gra_figures_of row) = cedi (pesewas_of row [''ssnit'', ''pf_fund_employee''])"
proof -
  define n where n: "n = (\<lambda>f. pesewas (col row f))"
  have sums: "pesewas_of row fs = sum_list (map n fs)" for fs by (simp add: pesewas_of_def n)
  note c1 = schedule_cols_cedi(1) [OF assms n, unfolded CASH_FIELDS_def] and c2 = schedule_cols_cedi(2) [OF assms n]
  have cols: "col row ''transport_allowance'' = cedi (n ''transport_allowance'')" "col row ''housing_allowance'' = cedi (n ''housing_allowance'')"
    "col row ''medical_allowance'' = cedi (n ''medical_allowance'')" "col row ''meal_allowance'' = cedi (n ''meal_allowance'')"
    "col row ''other_allowances'' = cedi (n ''other_allowances'')" "col row ''pay_difference'' = cedi (n ''pay_difference'')"
    "col row ''basic_salary'' = cedi (n ''basic_salary'')" "col row ''productivity_bonus'' = cedi (n ''productivity_bonus'')"
    "col row ''end_of_year_bonus'' = cedi (n ''end_of_year_bonus'')" "col row ''bonus_excess'' = cedi (n ''bonus_excess'')"
    "col row ''bonus_tax'' = cedi (n ''bonus_tax'')" "col row ''overtime_tax'' = cedi (n ''overtime_tax'')"
    "col row ''overtime_ordinary_pay'' = cedi (n ''overtime_ordinary_pay'')" "col row ''pf_employer_taxable'' = cedi (n ''pf_employer_taxable'')"
    "col row ''pf_allowable_employee'' = cedi (n ''pf_allowable_employee'')" "col row ''pf_fund_employee'' = cedi (n ''pf_fund_employee'')"
    "col row ''ssnit'' = cedi (n ''ssnit'')" "col row ''paye'' = cedi (n ''paye'')" "col row ''gross_pay'' = cedi (n ''gross_pay'')"
    "col row ''tax_relief_applied'' = cedi (n ''tax_relief_applied'')"
    by (rule c1 [THEN conjunct1] c2 [THEN conjunct1], simp)+
  have small: "\<bar>n ''transport_allowance''\<bar> \<le> 10 ^ 9" "\<bar>n ''housing_allowance''\<bar> \<le> 10 ^ 9" "\<bar>n ''medical_allowance''\<bar> \<le> 10 ^ 9"
    "\<bar>n ''meal_allowance''\<bar> \<le> 10 ^ 9" "\<bar>n ''other_allowances''\<bar> \<le> 10 ^ 9" "\<bar>n ''pay_difference''\<bar> \<le> 10 ^ 9"
    and smallb: "\<bar>n ''basic_salary''\<bar> \<le> 10 ^ 9" "\<bar>n ''productivity_bonus''\<bar> \<le> 10 ^ 9" "\<bar>n ''end_of_year_bonus''\<bar> \<le> 10 ^ 9"
    "\<bar>n ''bonus_excess''\<bar> \<le> 10 ^ 9" "\<bar>n ''bonus_tax''\<bar> \<le> 10 ^ 9" "\<bar>n ''overtime_tax''\<bar> \<le> 10 ^ 9"
    "\<bar>n ''overtime_ordinary_pay''\<bar> \<le> 10 ^ 9" "\<bar>n ''pf_employer_taxable''\<bar> \<le> 10 ^ 9" "\<bar>n ''pf_allowable_employee''\<bar> \<le> 10 ^ 9"
    "\<bar>n ''pf_fund_employee''\<bar> \<le> 10 ^ 9" "\<bar>n ''ssnit''\<bar> \<le> 10 ^ 9"
    by (rule c1 [THEN conjunct2], simp)+
  have large: "\<bar>n ''paye''\<bar> \<le> 13000000000" "\<bar>n ''gross_pay''\<bar> \<le> 13000000000" "\<bar>n ''tax_relief_applied''\<bar> \<le> 13000000000"
    by (rule c2 [THEN conjunct2], simp)+
  show "gf_ordinary_paye (gra_figures_of row) = cedi (pesewas_of row [''paye''] - pesewas_of row [''overtime_tax'', ''bonus_tax''])"
    using py_round2_fsub_cedi [OF large(1), of "n ''overtime_tax''" "n ''bonus_tax''"] smallb(5,6)
    by (simp add: common_figures cols sums diff_diff_eq)
  show "gf_bonus_concession (gra_figures_of row) =
      cedi (max 0 (pesewas_of row [''productivity_bonus'', ''end_of_year_bonus''] - pesewas_of row [''bonus_excess'']))"
    using py_round2_concession [OF smallb(2,3,4)] by (simp add: common_figures cols sums)
  define cash where "cash = n ''transport_allowance'' + (n ''housing_allowance'' + (n ''medical_allowance'' + (n ''meal_allowance''
    + (n ''other_allowances'' + n ''pay_difference''))))"
  have cash: "\<bar>cash\<bar> \<le> 6 * 10 ^ 9" unfolding cash_def using small by (simp add: abs_le_iff)
  have cash_sum: "pesewas_of row CASH_FIELDS = cash" by (simp add: sums CASH_FIELDS_def cash_def)
  have r1: "py_round2 (fsum (cedi (n ''transport_allowance'')) [cedi (n ''housing_allowance''), cedi (n ''medical_allowance''),
      cedi (n ''meal_allowance''), cedi (n ''other_allowances''), cedi (n ''pay_difference'')]) = cedi cash"
    using py_round2_fsum_cedi [of "n ''transport_allowance''" "[n ''housing_allowance'', n ''medical_allowance'', n ''meal_allowance'',
        n ''other_allowances'', n ''pay_difference'']"] small [THEN order_trans, of 13000000000] by (simp add: cash_def)
  define taxed where "taxed = cash + (n ''overtime_ordinary_pay'' + n ''pf_employer_taxable'')"
  have taxed: "\<bar>taxed\<bar> \<le> 8 * 10 ^ 9" unfolding taxed_def using cash smallb(7,8) by linarith
  have ot: "py_round2 (cedi (n ''overtime_ordinary_pay'')) = cedi (n ''overtime_ordinary_pay'')" using smallb(7) by (simp add: py_round2_cedi)
  have r2: "py_round2 (fsum (cedi cash) [cedi (n ''overtime_ordinary_pay''), cedi (n ''pf_employer_taxable'')]) = cedi taxed"
    using cash smallb(7,8) py_round2_fsum_cedi [of cash "[n ''overtime_ordinary_pay'', n ''pf_employer_taxable'']"] by (simp add: taxed_def)
  have r3: "py_round2 (fsum (cedi (n ''basic_salary'')) [cedi taxed, cedi (n ''bonus_excess'')]) = cedi (n ''basic_salary'' + (taxed + n ''bonus_excess''))"
    using taxed smallb(1,4) py_round2_fsum_cedi [of "n ''basic_salary''" "[taxed, n ''bonus_excess'']"] by simp
  have r4: "py_round2 (fsum (cedi (n ''ssnit'')) [cedi x, cedi y]) = cedi (n ''ssnit'' + (x + y))" if "\<bar>x\<bar> \<le> 10 ^ 9" "\<bar>y\<bar> \<le> 13000000000" for x y
    using that smallb(11) py_round2_fsum_cedi [of "n ''ssnit''" "[x, y]"] by simp
  have pf: "py_round2 (cedi (n ''pf_allowable_employee'')) = cedi (n ''pf_allowable_employee'')"
    "py_round2 (cedi (n ''pf_fund_employee'')) = cedi (n ''pf_fund_employee'')"
    "py_round2 (cedi (n ''tax_relief_applied'')) = cedi (n ''tax_relief_applied'')" "py_round2 (cedi (n ''gross_pay'')) = cedi (n ''gross_pay'')"
    using smallb(9,10) large(2,3) by (simp_all add: py_round2_cedi)
  show strict_cash: "gf_cash_allowances (gra_figures_of row) =
      cedi (pesewas_of row (CASH_FIELDS @ [''overtime_ordinary_pay'', ''pf_employer_taxable'']))" if "strict_item row"
    using r1 ot r2 by (simp add: strict_figures [OF that] cols) (simp add: sums CASH_FIELDS_def cash_def taxed_def add.assoc)
  show "gf_assessable_income (gra_figures_of row) =
      cedi (pesewas_of row (''basic_salary'' # CASH_FIELDS @ [''overtime_ordinary_pay'', ''pf_employer_taxable'', ''bonus_excess'']))" if "strict_item row"
    using r1 ot r2 r3 by (simp add: strict_figures [OF that] cols) (simp add: sums CASH_FIELDS_def cash_def taxed_def add.assoc)
  show "gf_total_reliefs (gra_figures_of row) = cedi (pesewas_of row [''ssnit'', ''pf_allowable_employee'', ''tax_relief_applied''])" if "strict_item row"
    using r4 [OF smallb(9) large(3)] by (simp add: strict_figures [OF that] cols pf sums)
  show "gf_cash_allowances (gra_figures_of row) = cedi (pesewas_of row CASH_FIELDS)" if "\<not> strict_item row"
    using r1 by (simp add: legacy_figures [OF that] cols cash_sum)
  show "gf_assessable_income (gra_figures_of row) = cedi (pesewas_of row [''gross_pay''])" if "\<not> strict_item row"
    by (simp add: legacy_figures [OF that] cols pf sums)
  show "gf_total_reliefs (gra_figures_of row) = cedi (pesewas_of row [''ssnit'', ''pf_fund_employee''])" if "\<not> strict_item row"
    using r4 [OF smallb(10), of 0] by (simp add: legacy_figures [OF that] cols pf sums)
qed

subsection \<open>The rows of the calculator\<close>

lemma more_fields_lookup:
  "map_of (as_payroll_item_fields res) ''paye'' = Some (sr_paye res)"
  "map_of (as_payroll_item_fields res) ''taxable_income'' = Some (sr_taxable_income res)"
  "map_of (as_payroll_item_fields res) ''overtime_tax'' = Some (sr_overtime_tax res)"
  "map_of (as_payroll_item_fields res) ''bonus_tax'' = Some (sr_bonus_tax res)"
  "map_of (as_payroll_item_fields res) ''bonus_excess'' = Some (sr_bonus_excess res)"
  "map_of (as_payroll_item_fields res) ''pf_allowable_employee'' = Some (sr_pf_allowable_employee res)"
  "map_of (as_payroll_item_fields res) ''pf_employer_taxable'' = Some (sr_pf_employer_taxable res)"
  "map_of (as_payroll_item_fields res) ''tax_relief_applied'' = Some (sr_tax_relief_applied res)"
  "map_of (as_payroll_item_fields res) ''overtime_ordinary_pay'' = Some (sr_overtime_ordinary_pay res)"
  "map_of (as_payroll_item_fields res) ''deductions_policy_version'' = Some (of_int (sr_deductions_policy_version res))"
  by (simp_all add: as_payroll_item_fields_def Let_def)

lemmas schedule_cols = written_cols more_fields_lookup [THEN col_written]

lemma spec_gross_bound:
  assumes "small_inputs i"
  shows "\<bar>sp_gross (salaried_spec strict ss nb nr i used adj)\<bar> \<le> 5 * 10 ^ 9"
proof -
  have "sp_gross (salaried_spec strict ss nb nr i used adj) = si_basic_salary i + si_transport_allowance i + si_housing_allowance i
      + si_medical_allowance i + si_meal_allowance i + si_productivity_bonus i + si_end_of_year_bonus i + si_other_allowances i
      + si_overtime_pay i + si_pay_difference i"
    by (simp add: salaried_spec_def Let_def split: prod.split)
  then show ?thesis using small_inputsD [OF assms, unfolded abs_le_iff] by (simp add: abs_le_iff)
qed

lemma input_pesewas: "\<bar>n\<bar> \<le> 5 * 10 ^ 8 \<Longrightarrow> pesewas (cedi n) = n"
  by (rule pesewas_cedi) simp

lemma calculated_row:
  assumes "engine_rate r ss nb nr" "small_inputs i" "\<bar>used\<bar> \<le> 10 ^ 11" "small_adjustments adj"
    and p: "stored_columns i res p" "columns_bounded p" and res: "res = salaried_body r (map_inputs cedi i) (cedi used) adj"
  shows "schedule_row (write_result r item res)"
proof -
  have inputs: "sr_inputs res = map_inputs cedi i" by (simp add: res salaried_body_defs)
  have "pesewas (sr_gross_pay res) = sp_gross (salaried_spec (strict_policy r) ss nb nr i used adj)"
    using arg_cong [OF salaried_exact [OF assms(1,2,4,3)], of sp_gross] by (simp add: salaried_abs_def res)
  then have "\<bar>pesewas (sr_gross_pay res)\<bar> \<le> 5 * 10 ^ 9" using spec_gross_bound [OF assms(2)] by simp
  moreover from this have "sr_gross_pay res = cedi (pesewas (sr_gross_pay res))"
    using is_money_small(1) [of "sr_gross_pay res"] by (simp add: res salaried_body_defs)
  ultimately have gross: "amt 13000000000 (sr_gross_pay res)" unfolding amt_def by (intro exI conjI) auto
  note b = columns_boundedD [OF p(2)]
  have "\<bar>pc_ordinary_paye p + pc_overtime_tax p + pc_bonus_tax p\<bar> \<le> 13000000000" using b [unfolded abs_le_iff] by (simp add: abs_le_iff)
  then have paye: "amt 13000000000 (sr_paye res)" "amt 13000000000 (sr_tax_relief_applied res)"
    using p(1) b(8) by (auto simp: stored_columns_def intro!: amt_cedi)
  have "amt (10 ^ 9) x" if "x \<in> {sr_bonus_excess res, sr_bonus_tax res, sr_overtime_tax res, sr_overtime_ordinary_pay res,
      sr_pf_employer_taxable res, sr_pf_allowable_employee res, sr_ssnit res}" for x
    using that p(1) b(1-7) by (auto simp: stored_columns_def intro!: amt_cedi)
  moreover have "amt (10 ^ 9) (cedi x)" if "\<bar>x\<bar> \<le> 5 * 10 ^ 8" for x using that by (intro amt_cedi) simp
  ultimately show ?thesis
    using small_inputsD [OF assms(2)] gross paye
    by (simp add: schedule_row_def CASH_FIELDS_def schedule_cols inputs map_inputs_def)
qed

text \<open>
  C19: The filed GRA schedule reconciles with the payslips to the pesewa.  For every row that the
  salaried calculator stores from whole-pesewa inputs, the figures the schedule recomputes are
  the calculator's own.  Its tax deductible (W) is the ordinary PAYE, and with the tax on overtime
  (Y) and bonus (M) it makes up the total payable (Z); its bonus up to the limit (L) is the bonus
  less the excess.  Under the evidence-based policy its cash allowances (K), assessable income (O)
  and reliefs (U) are the exact sums of the stored components, its provident fund (J) and relief
  (T) the amounts the calculator allowed, and the calculator's chargeable income (V) is O less U,
  never negative.  Under the historical policy (version 0) O is the gross pay, J the whole
  employee contribution, T stays blank and U is the SSF with that contribution.
\<close>

theorem gra_schedule_reconciles:
  assumes "engine_rate r ss nb nr" "small_inputs i" "\<bar>used\<bar> \<le> 10 ^ 11"
    "salaried_adjustments r (map_inputs cedi i) context = Inr adj" "small_adjustments adj"
  shows "\<exists>res. calculate r (map_inputs cedi i) (cedi used) context = Inr res \<and>
    (let row = write_result r item res; g = gra_figures_of row; sum_of = pesewas_of row
     in gf_ordinary_paye g = sr_ordinary_paye res \<and>
        gf_ordinary_paye g = cedi (sum_of [''paye''] - sum_of [''overtime_tax'', ''bonus_tax'']) \<and>
        gf_bonus_concession g = cedi (max 0 (sum_of [''productivity_bonus'', ''end_of_year_bonus''] - sum_of [''bonus_excess''])) \<and>
        (strict_policy r \<longrightarrow>
           gf_cash_allowances g = cedi (sum_of (CASH_FIELDS @ [''overtime_ordinary_pay'', ''pf_employer_taxable''])) \<and>
           gf_assessable_income g =
             cedi (sum_of (''basic_salary'' # CASH_FIELDS @ [''overtime_ordinary_pay'', ''pf_employer_taxable'', ''bonus_excess''])) \<and>
           gf_allowed_pf g = sr_pf_allowable_employee res \<and> gf_relief_applied g = Some (sr_tax_relief_applied res) \<and>
           gf_total_reliefs g = cedi (sum_of [''ssnit'', ''pf_allowable_employee'', ''tax_relief_applied'']) \<and>
           sr_taxable_income res = cedi (max 0 (pesewas (gf_assessable_income g) - pesewas (gf_total_reliefs g)))) \<and>
        (deductions_policy_version r = 0 \<longrightarrow>
           gf_cash_allowances g = cedi (sum_of CASH_FIELDS) \<and> gf_assessable_income g = sr_gross_pay res \<and>
           gf_allowed_pf g = cedi (si_pf_fund_employee i) \<and> gf_relief_applied g = None \<and>
           gf_total_reliefs g = cedi (sum_of [''ssnit'', ''pf_fund_employee''])))"
proof -
  define res where res: "res = salaried_body r (map_inputs cedi i) (cedi used) adj"
  obtain p where p: "stored_columns i res p" "columns_bounded p"
    "relief_spec (strict_policy r) (before_relief i p) (pesewas (adj_tax_relief_applied adj)) = (pc_relief p, pc_taxable p)"
    unfolding res by (rule salaried_columns [OF assms(1,2,5,3)])
  let ?row = "write_result r item res"
  have inputs: "sr_inputs res = map_inputs cedi i" and version: "sr_deductions_policy_version res = deductions_policy_version r"
    by (simp_all add: res salaried_body_defs)
  have ok: "schedule_row ?row" by (rule calculated_row [OF assms(1,2,3,5) p(1,2) res])
  note figures = schedule_figures [OF ok] and b = columns_boundedD [OF p(2)] and st = p(1) [unfolded stored_columns_def]
  have item: "strict_item ?row \<longleftrightarrow> deductions_policy_version r \<noteq> 0" by (simp add: strict_item_def schedule_cols version)
  have "calculate r (map_inputs cedi i) (cedi used) context = Inr res"
    using assms(4) map_inputs_money [OF assms(2)] by (simp add: calculate_def res)
  moreover have "gf_ordinary_paye (gra_figures_of ?row) = sr_ordinary_paye res"
  proof -
    have "\<bar>pc_ordinary_paye p + pc_overtime_tax p + pc_bonus_tax p\<bar> \<le> max_pesewas" using b [unfolded abs_le_iff] by (simp add: abs_le_iff)
    then show ?thesis using b(4,6) by (simp add: figures(1) pesewas_of_def schedule_cols st pesewas_cedi)
  qed
  moreover have "gf_allowed_pf (gra_figures_of ?row) = sr_pf_allowable_employee res \<and>
      gf_relief_applied (gra_figures_of ?row) = Some (sr_tax_relief_applied res) \<and>
      sr_taxable_income res = cedi (max 0 (pesewas (gf_assessable_income (gra_figures_of ?row)) - pesewas (gf_total_reliefs (gra_figures_of ?row))))"
    if strict: "strict_policy r"
  proof -
    have s: "strict_item ?row" using strict item by (simp add: strict_policy_def)
    let ?n = "\<lambda>f. pesewas (col ?row f)"
    have cash: "?n ''basic_salary'' = si_basic_salary i" "?n ''transport_allowance'' = si_transport_allowance i"
      "?n ''housing_allowance'' = si_housing_allowance i" "?n ''medical_allowance'' = si_medical_allowance i"
      "?n ''meal_allowance'' = si_meal_allowance i" "?n ''other_allowances'' = si_other_allowances i"
      "?n ''pay_difference'' = si_pay_difference i"
      by (simp_all add: schedule_cols inputs map_inputs_def) (intro input_pesewas small_inputsD [OF assms(2)])+
    have adj: "?n ''overtime_ordinary_pay'' = pc_ordinary_ot p" "?n ''pf_employer_taxable'' = pc_employer_pf p"
      "?n ''bonus_excess'' = pc_bonus_excess p" "?n ''ssnit'' = pc_ssnit p" "?n ''pf_allowable_employee'' = pc_allowed_pf p"
      "?n ''tax_relief_applied'' = pc_relief p"
      using b(1,2,3,5,7,8) by (simp_all add: schedule_cols st pesewas_cedi)
    define income where "income = pesewas_of ?row (''basic_salary'' # CASH_FIELDS @ [''overtime_ordinary_pay'', ''pf_employer_taxable'', ''bonus_excess''])"
    define reliefs where "reliefs = pesewas_of ?row [''ssnit'', ''pf_allowable_employee'', ''tax_relief_applied'']"
    have income: "income = si_basic_salary i + si_transport_allowance i + si_housing_allowance i + si_medical_allowance i + si_meal_allowance i
        + si_other_allowances i + si_pay_difference i + pc_ordinary_ot p + pc_employer_pf p + pc_bonus_excess p"
      by (simp add: income_def pesewas_of_def CASH_FIELDS_def cash adj)
    have reliefs: "reliefs = pc_ssnit p + pc_allowed_pf p + pc_relief p" by (simp add: reliefs_def pesewas_of_def adj)
    have diff: "income - reliefs = before_relief i p - pc_relief p" by (simp add: income reliefs before_relief_def)
    have "\<bar>income\<bar> \<le> max_pesewas" unfolding income
      using b(3,5,7) [unfolded abs_le_iff] small_inputsD(1-5,8,10) [OF assms(2), unfolded abs_le_iff] by (simp add: abs_le_iff)
    moreover have "\<bar>reliefs\<bar> \<le> max_pesewas" unfolding reliefs using b [unfolded abs_le_iff] by (simp add: abs_le_iff)
    ultimately have "pesewas (gf_assessable_income (gra_figures_of ?row)) - pesewas (gf_total_reliefs (gra_figures_of ?row)) = income - reliefs"
      by (simp add: figures(4,5) [OF s] income_def [symmetric] reliefs_def [symmetric] pesewas_cedi)
    moreover have "pc_taxable p = max 0 (before_relief i p - pc_relief p)"
      using p(3) strict by (auto simp: relief_spec_def Let_def)
    ultimately show ?thesis
      using b(2,8) by (simp add: strict_figures [OF s] schedule_cols st diff py_round2_cedi)
  qed
  moreover have "gf_assessable_income (gra_figures_of ?row) = sr_gross_pay res \<and>
      gf_allowed_pf (gra_figures_of ?row) = cedi (si_pf_fund_employee i) \<and> gf_relief_applied (gra_figures_of ?row) = None"
    if "deductions_policy_version r = 0"
  proof -
    have s: "\<not> strict_item ?row" using that item by simp
    have "col ?row ''gross_pay'' = cedi (pesewas (col ?row ''gross_pay''))"
      using schedule_cols_cedi(2) [OF ok refl, of "''gross_pay''"] by simp
    then show ?thesis
      using small_inputsD(11) [OF assms(2)]
      by (simp add: figures(7) [OF s] legacy_figures [OF s] pesewas_of_def schedule_cols inputs map_inputs_def py_round2_cedi)
  qed
  ultimately show ?thesis using figures item by (auto simp: Let_def strict_policy_def)
qed

text \<open>A worker with an approved relief on the rates of 2026, and one on the historical rates.\<close>

lemma gra_schedule_reconciles_witness:
  "(\<exists>res. calculate (version_2026 1) (map_inputs cedi relief_inputs) (cedi 0) (Some relief_context) = Inr res \<and>
     gf_relief_applied (gra_figures_of (write_result (version_2026 1) (item_with no_inputs) res)) = Some (sr_tax_relief_applied res)) \<and>
   (\<exists>res. calculate (workbook_rate 1) (map_inputs cedi AC636) (cedi 0) None = Inr res \<and>
     gf_assessable_income (gra_figures_of (write_result (workbook_rate 1) (item_with no_inputs) res)) = sr_gross_pay res)"
proof
  show "\<exists>res. calculate (version_2026 1) (map_inputs cedi relief_inputs) (cedi 0) (Some relief_context) = Inr res \<and>
     gf_relief_applied (gra_figures_of (write_result (version_2026 1) (item_with no_inputs) res)) = Some (sr_tax_relief_applied res)"
    using gra_schedule_reconciles [OF version_2026_engine_rate relief_run(3) _ relief_run(1,4), where used = 0 and item = "item_with no_inputs"] relief_run(2)
    by (auto simp: Let_def)
  have "deductions_policy_version (workbook_rate 1) = 0" by (simp add: workbook_rate_def)
  then show "\<exists>res. calculate (workbook_rate 1) (map_inputs cedi AC636) (cedi 0) None = Inr res \<and>
     gf_assessable_income (gra_figures_of (write_result (workbook_rate 1) (item_with no_inputs) res)) = sr_gross_pay res"
    using gra_schedule_reconciles [OF workbook_engine_rate AC636_ok [THEN conjunct1] _
        historical_salaried_adjustments [OF AC636_ok [THEN conjunct1] AC636_ok [THEN conjunct2] workbook_historical_rate]
        historical_adj_small [OF AC636_ok [THEN conjunct1] AC636_ok [THEN conjunct2] workbook_historical_rate], where used = 0 and item = "item_with no_inputs"]
    by (auto simp: Let_def)
qed

end
