(* ===== verification/Spec2Isabelle.thy ===== *)
theory Spec2Isabelle
  imports
  Prelude PyNum Money PyText PyDate Rates Deductions PayEngine RateAdmin Salaried RawCompute
  RunStatus Access Risk Items Recalc RunTotals UnionDues RawRun RawHours Hourly HourlyPay
  Contacts Delivery DeliverySafety SendRun Queue QueueSafety
  Preview PreviewSend Lifecycle LifecycleSafety SendRoutes SendGuards
  SmsText PayslipLinks Throttle
  ImportSheet ImportChecks ImportConfirm ImportNumbers ImportMapping ImportFrames ImportExamples
  ImportSafety ImportOutcomes
  Exports ExportRoutes ExportSafety ScheduleSafety
begin

text \<open>
  Payrolla: a verification development for the payroll core.

  Payrolla is a multi-tenant payroll service for Ghana (a Flask application, \<open>src/app/\<close>).  Client
  companies or the operator upload a month's payroll, either as figures (a standard run) or as
  hours (the hours-first run and the raw-hours engine); the service computes the statutory
  figures, passes the run through a risk gate and an approval, and sends every worker a payslip
  by SMS, WhatsApp or e-mail.  The development follows that path: numbers and dates, statutory
  rates, the three pay engines, the calculation of a run, roles and the run's lifecycle, the
  import of a workbook, the delivery of payslips, the queue, and the public links.

  Conventions.  A definition has the name of the function, class or constant it models; where
  one function is split, its parts are named after what they compute.  A table is a list of
  records in insertion order, \<open>first_row\<close> is \<open>.first()\<close>, \<open>update_row\<close> an update by primary key, and
  every operation is one transaction, except where a read and its write, or a check and its count,
  are steps of their own (\<open>DeliverySafety\<close>, \<open>Throttle\<close>).  Code that may raise returns a sum, \<open>raise e\<close> or \<open>return x\<close>;
  error messages are constructors that carry the values they format.  The clock, the provider,
  random codes, keyed hashes and signatures are arguments.  A Python float is the rational it
  denotes and every operation rounds to binary64 explicitly (\<open>fl\<close>, \<open>fadd\<close>, \<open>fmul\<close>); a float
  sum is a left fold (Python 3.12 compensates it, with the same result within the bounds below); a \<open>Decimal\<close> is a
  rational rounded to 28 digits; text is a \<open>string\<close> with one character per code point, except
  in \<open>SmsText\<close>, where it is a list of code points.

  Foundations.
    \<open>Prelude\<close>: results, queries on tables, fact collections.
    \<open>PyNum\<close>: binary64 and decimal rounding, \<open>repr\<close> and its round trip; the locale \<open>rounding\<close> is
      interpreted on both roundings.
    \<open>Money\<close> (\<open>money.py\<close>): \<open>D\<close>, \<open>round_half_up\<close>, \<open>money\<close>, and when float sums of pesewa amounts are exact.
    \<open>PyText\<close>, \<open>PyDate\<close>: text operations and run periods.

  Pay.
    \<open>Rates\<close>, \<open>RateAdmin\<close> (\<open>models.py\<close>, \<open>statutory.py\<close>, \<open>seed.py\<close>): rate versions, PAYE, overtime and
      bonus tax, the band editor, the seeded versions: history never changes, accepted bands are
      sound, seeded PAYE is exact and monotone.
    \<open>Deductions\<close>, \<open>Salaried\<close> (\<open>payroll_calculations/\<close>): the deduction policy and the salaried
      calculator, with its refinement to integer arithmetic on pesewas.
    \<open>PayEngine\<close>: the contract gross, deductions, net as the locale \<open>pay_engine\<close>, interpreted on the
      salaried, the hourly and the raw-hours calculators.
    \<open>RawCompute\<close>, \<open>RawRun\<close>, \<open>RawHours\<close> (\<open>raw_engine/\<close>): costing of hours, cleaning, consolidation,
      the thin upload and the reconciliation; the two engines agree on the same components.
    \<open>Hourly\<close>, \<open>HourlyPay\<close> (\<open>payroll_calculations/hourly.py\<close>): the hours-first run.
    \<open>UnionDues\<close> (\<open>raw_engine/icu_distribution.py\<close>): the dues cascade and its tie-out.
    \<open>Items\<close>, \<open>Recalc\<close>, \<open>RunTotals\<close> (\<open>payroll.py\<close>): the rows of a run, Calculate Pay as all or nothing,
      grid edits, control totals, the calculation at import confirmation.

  Access and lifecycle.
    \<open>RunStatus\<close>, \<open>Access\<close>, \<open>Risk\<close> (\<open>payroll_status.py\<close>, \<open>permissions.py\<close>, \<open>roles.py\<close>, \<open>tenancy.py\<close>, \<open>auth.py\<close>,
      \<open>risk.py\<close>): statuses, capability groups and guards, tenant scoping, the risk gate.
    \<open>Lifecycle\<close>, \<open>LifecycleSafety\<close> (\<open>payroll.py\<close>, \<open>oversight/\<close>, \<open>client/\<close>): single-run and bulk actions,
      deletion and replacement of runs with the foreign keys they leave behind.

  Import of a month's figures.
    \<open>ImportSheet\<close> (\<open>excel_utils.py\<close>): from the cell texts of a sheet to its rows: header row, stacked
      labels, column mapping, amounts, totals, the sheets of a client; \<open>ImportChecks\<close>
      (\<open>validators.py\<close>): warnings and blocking errors; \<open>ImportConfirm\<close> (\<open>payroll.py\<close>, \<open>client/\<close>): the
      upload and its confirmation by the operator or the client, with the run, the rows and the
      employees it makes, on the lifecycle's database extended by the import's own columns.
    \<open>ImportNumbers\<close>, \<open>ImportMapping\<close>: printed amounts read back exactly; a mapping without conflicts
      binds every figure to one column.
    \<open>ImportFrames\<close>: what each step changes and leaves alone; \<open>ImportExamples\<close>: a small database;
      \<open>ImportSafety\<close>, \<open>ImportOutcomes\<close>: a confirmed import is its sheet, stays in its clients,
      keeps keys and staff ids unique, and a client's import happens once.

  Exports.
    \<open>Exports\<close> (\<open>excel_utils.py\<close>, \<open>csv_safety.py\<close>, \<open>raw_engine/exports/\<close>): a workbook is its sheet title,
      its file name and the cells it is given, a cell being a text, a number or empty; the payroll,
      the bank listing, the wages sheet, the GRA schedule in both layouts, the import error report,
      the transfer and cash routing.  \<open>ExportRoutes\<close> (\<open>payroll.py\<close>, \<open>client/reports.py\<close>): who may download
      what, and what a download changes.
    \<open>ExportSafety\<close>, \<open>ScheduleSafety\<close>: imported text stays text, every worker is listed and routed
      once, totals are exact, and the GRA columns are exact sums of the stored components and the calculator's figures,
      under the evidence-based and the historical policy.

  Delivery.
    \<open>Contacts\<close> (\<open>distribution/phones.py\<close>, \<open>contacts.py\<close>): canonical numbers and routing.
    \<open>Delivery\<close>, \<open>DeliverySafety\<close>, \<open>SendRun\<close> (\<open>distribution/service.py\<close>, \<open>recovery.py\<close>, \<open>settle.py\<close>,
      \<open>receipts.py\<close>): claims before every provider call; the locale \<open>guarded_update\<close> is the contract
      of the conditional updates, interpreted on each of them.  Cancellations and delivery reports
      read rows and write them later without looking again, so they are two steps each; the step
      relation over any number of workers never sends a payslip twice while those two writes are
      timely, and does when either is not.
    \<open>Queue\<close>, \<open>QueueSafety\<close> (\<open>distribution/queue.py\<close>): batches, their scheduling, recovery and
      cancellation as a step relation with its invariant; the worker's loop empties the queue.
    \<open>Preview\<close>, \<open>PreviewSend\<close> (\<open>distribution/confirm.py\<close>): the confirm step counts what the send does.
    \<open>SendRoutes\<close>, \<open>SendGuards\<close> (\<open>distribution/__init__.py\<close>, \<open>idempotency.py\<close>, \<open>client/\<close>): requests for a
      send and the bulk form, who may make them, and that a repeated request queues once.
    \<open>SmsText\<close> (\<open>gsm7.py\<close>, \<open>render.py\<close>), \<open>PayslipLinks\<close> (\<open>tokens.py\<close>, \<open>links.py\<close>), \<open>Throttle\<close>
      (\<open>request_limit.py\<close>, \<open>login_throttle.py\<close>, \<open>throttle.py\<close>): the SMS is one part, a code opens what
      it was granted for, a minute's requests are limited exactly, and logins interleaved on the
      threads of the one process find only so many wrong passwords.

  Bounds.  Results about float arithmetic carry a bound on each amount as a hypothesis
  (\<open>amt b x\<close>: whole pesewas, at most \<open>b\<close> of them, of the order of a hundred million cedis), far
  inside the range where sums of pesewa amounts stay below half a pesewa of error.  No
  definition carries fuel: loops are structural recursion or folds, and the loop of the queue's
  worker, a \<open>partial_function (option)\<close>, is proved to return.

  Where the code does not do what it says, the theorem states what it does: see the theorems
  on single-run routes, on replaced periods, on late delivery reports and
  cancellations (\<open>cancel_race_doubles_send\<close>), on sending after a rejection and on the login limit, on imports with two sheets of one client, on replayed and on
  uncalculated imports, and the lemmas \<open>float_product_underpays\<close>, \<open>misread_amounts\<close>,
  \<open>warning_names_other_client\<close>, \<open>scheduled_send_fails\<close>, \<open>spacer_rows_become_workers\<close>,
  \<open>auto_accepted_dead_end\<close>, \<open>report_changes\<close> and \<open>cancellable_while_sending\<close>.

  Not modelled: reading of workbooks and their looks (openpyxl, pandas), PDFs (reportlab),
  the checks of an uploaded file, the exports of vouchers, remittances, expenses and the roster, pages, dashboards and analytics, the senders' HTTP
  and SMTP calls, audit, event and notification records beyond an audit entry's action, the
  application factory, licences and onboarding, and demo data.
\<close>

end
